(* ===== verification/NdnPrelude.thy ===== *)
theory NdnPrelude
  imports Complex_Main "HOL-Library.Word" "HOL-Library.Multiset"
begin

text \<open>
  Shared vocabulary of the development: machine types, byte strings, the values that stand for
  C++ exceptions and C error codes, sequencing of fallible steps, and the generic list lemmas the
  components share (sorted insertion, backwards erasing loops, first mismatch).

  A \<^verbatim>\<open>std::string\<close> and a \<^verbatim>\<open>std::vector<uint8_t>\<close> are both a list of bytes; a string literal of the
  source is written \<^verbatim>\<open>str ''...''\<close>.
\<close>

unbundle bit_operations_syntax

section \<open>Machine types\<close>

type_synonym byte = "8 word"
type_synonym bytes = "byte list"
type_synonym u32 = "32 word"
type_synonym u64 = "64 word"
type_synonym size_t = "64 word"

text \<open>A \<^verbatim>\<open>Blob\<close> is a \<^verbatim>\<open>shared_ptr\<close> to an immutable byte vector: null, or its bytes.\<close>

type_synonym blob = "bytes option"

named_theorems ndn_simps \<open>unfolding rules of the component models\<close>
named_theorems ndn_inv \<open>preservation of the component invariants\<close>

definition str :: "string \<Rightarrow> bytes" where
  "str s = map of_char s"

lemma str_Nil [simp]: "str [] = []"
  by (simp add: str_def)

lemma str_Cons [simp]: "str (c # s) = of_char c # str s"
  by (simp add: str_def)

lemma length_str [simp]: "length (str s) = length s"
  by (simp add: str_def)

lemma unat_byte_less [simp]: "unat (x :: byte) < 256"
  using unsigned_less [of x, where ?'a = nat] by simp

lemma uint_byte_less [simp]: "uint (x :: byte) < 256"
  using unsigned_less [of x, where ?'a = int] by simp

lemma unat_byte_of_nat [simp]: "n < 256 \<Longrightarrow> unat (of_nat n :: byte) = n"
  by (simp add: unat_of_nat)

lemma byte_of_nat_eq_iff [simp]:
  "m < 256 \<Longrightarrow> n < 256 \<Longrightarrow> (of_nat m :: byte) = of_nat n \<longleftrightarrow> m = n"
  by (metis unat_byte_of_nat)

lemma unat_inc: "(x :: u64) \<noteq> -1 \<Longrightarrow> unat (x + 1) = unat x + 1"
  using unatSuc [of x] by (simp add: add.commute eq_neg_iff_add_eq_0)

lemma u64_not_max: "unat (x :: u64) + 1 < 2 ^ 64 \<Longrightarrow> x \<noteq> -1"
  by (auto simp: unsigned_minus_1_eq_mask mask_eq_exp_minus_1)

section \<open>Errors as values\<close>

text \<open>
  The error codes of the C functions (\<^verbatim>\<open>ndn_Error\<close> of \<^verbatim>\<open>errors.h\<close>; success is the other summand of a
  result) and their messages.
\<close>

datatype (plugins only: code) ndn_error =
    NDN_ERROR_element_of_value_is_not_a_decimal_digit
  | NDN_ERROR_read_past_the_end_of_the_input
  | NDN_ERROR_the_first_header_octet_may_not_be_zero
  | NDN_ERROR_header_type_is_not_a_DTAG
  | NDN_ERROR_did_not_get_the_expected_DTAG
  | NDN_ERROR_did_not_get_the_expected_element_close
  | NDN_ERROR_item_is_not_UDATA
  | NDN_ERROR_header_type_is_out_of_range
  | NDN_ERROR_encodeTypeAndValue_miscalculated_N_encoding_bytes
  | NDN_ERROR_attempt_to_add_a_component_past_the_maximum_number_of_components_allowed_in_the_name
  | NDN_ERROR_cannot_add_an_entry_past_the_maximum_number_of_entries_allowed_in_the_exclude
  | NDN_ERROR_cannot_add_an_entry_past_the_maximum_number_of_entries_allowed_in_the_LpPacket
  | NDN_ERROR_findElementEnd_unexpected_close_tag
  | NDN_ERROR_cannot_store_more_header_bytes_than_the_size_of_headerBuffer
  | NDN_ERROR_findElementEnd_cannot_read_header_type_and_value
  | NDN_ERROR_findElementEnd_unrecognized_header_type
  | NDN_ERROR_findElementEnd_unrecognized_state
  | NDN_ERROR_DynamicUInt8Array_realloc_function_pointer_not_supplied
  | NDN_ERROR_DynamicUInt8Array_realloc_failed
  | NDN_ERROR_unrecognized_ndn_ExcludeType
  | NDN_ERROR_unrecognized_ndn_ContentType
  | NDN_ERROR_unrecognized_ndn_KeyLocatorType
  | NDN_ERROR_unrecognized_ndn_KeyNameType
  | NDN_ERROR_decodeKeyLocator_unrecognized_key_locator_type
  | NDN_ERROR_unrecognized_ndn_SocketTransport
  | NDN_ERROR_SocketTransport_error_in_getaddrinfo
  | NDN_ERROR_SocketTransport_cannot_connect_to_socket
  | NDN_ERROR_SocketTransport_socket_is_not_open
  | NDN_ERROR_SocketTransport_error_in_send
  | NDN_ERROR_SocketTransport_error_in_poll
  | NDN_ERROR_SocketTransport_error_in_recv
  | NDN_ERROR_SocketTransport_error_in_close
  | NDN_ERROR_Name_component_does_not_begin_with_the_expected_marker
  | NDN_ERROR_Time_functions_are_not_supported_by_the_standard_library
  | NDN_ERROR_Calendar_time_value_out_of_range
  | NDN_ERROR_Invalid_length_for_nonNegativeInteger
  | NDN_ERROR_did_not_get_the_expected_TLV_type
  | NDN_ERROR_TLV_length_exceeds_buffer_length
  | NDN_ERROR_TLV_length_does_not_equal_total_length_of_nested_TLVs
  | NDN_ERROR_decodeSignatureInfo_unrecognized_SignatureInfo_type
  | NDN_ERROR_encodeSignatureInfo_unrecognized_SignatureType
  | NDN_ERROR_Unimplemented_operation
  | NDN_ERROR_ElementReader_ElementListener_is_not_specified
  | NDN_ERROR_ElementReader_The_incoming_packet_exceeds_the_maximum_limit_getMaxNdnPacketSize
  | NDN_ERROR_Interest_has_a_selected_delegation_but_no_link_object
  | NDN_ERROR_The_Generic_signature_encoding_is_not_a_valid_NDN_TLV_SignatureInfo
  | NDN_ERROR_Error_encoding_key
  | NDN_ERROR_Error_decoding_key
  | NDN_ERROR_Error_in_sign_operation
  | NDN_ERROR_Unsupported_algorithm_type
  | NDN_ERROR_Error_in_encrypt_operation
  | NDN_ERROR_Error_in_decrypt_operation
  | NDN_ERROR_Error_in_generate_operation
  | NDN_ERROR_Incorrect_key_size
  | NDN_ERROR_Incorrect_initial_vector_size
  | NDN_ERROR_Incorrect_digest_size
  | NDN_ERROR_An_Interest_may_not_have_a_selected_delegation_when_encoding_a_forwarding_hint
  | NDN_ERROR_An_Interest_may_not_have_a_link_object_when_encoding_a_forwarding_hint
  | NDN_ERROR_Unrecognized_critical_TLV_type_code
  | NDN_ERROR_Name_component_otherTypeCode_must_be_non_negative

primrec ndn_getErrorString :: "ndn_error \<Rightarrow> bytes" where
  "ndn_getErrorString NDN_ERROR_element_of_value_is_not_a_decimal_digit =
     str ''Element of value is not a decimal digit''"
| "ndn_getErrorString NDN_ERROR_read_past_the_end_of_the_input =
     str ''Read past the end of the input''"
| "ndn_getErrorString NDN_ERROR_the_first_header_octet_may_not_be_zero =
     str ''The first header octet may not be zero''"
| "ndn_getErrorString NDN_ERROR_header_type_is_not_a_DTAG =
     str ''Header type is not a DTAG''"
| "ndn_getErrorString NDN_ERROR_did_not_get_the_expected_DTAG =
     str ''Did not get the expected DTAG''"
| "ndn_getErrorString NDN_ERROR_did_not_get_the_expected_element_close =
     str ''Did not get the expected element close''"
| "ndn_getErrorString NDN_ERROR_item_is_not_UDATA =
     str ''Item is not UDATA''"
| "ndn_getErrorString NDN_ERROR_header_type_is_out_of_range =
     str ''Header type is out of range''"
| "ndn_getErrorString NDN_ERROR_encodeTypeAndValue_miscalculated_N_encoding_bytes =
     str ''EncodeTypeAndValue miscalculated N encoding bytes''"
| "ndn_getErrorString NDN_ERROR_attempt_to_add_a_component_past_the_maximum_number_of_components_allowed_in_the_name =
     str ''Attempt to add a component past the maximum number of components allowed in the name''"
| "ndn_getErrorString NDN_ERROR_cannot_add_an_entry_past_the_maximum_number_of_entries_allowed_in_the_exclude =
     str ''Cannot add an entry past the maximum number of entries allowed in the exclude''"
| "ndn_getErrorString NDN_ERROR_cannot_add_an_entry_past_the_maximum_number_of_entries_allowed_in_the_LpPacket =
     str ''Cannot add an entry past the maximum number of entries allowed in the LpPacket''"
| "ndn_getErrorString NDN_ERROR_findElementEnd_unexpected_close_tag =
     str ''FindElementEnd unexpected close tag''"
| "ndn_getErrorString NDN_ERROR_cannot_store_more_header_bytes_than_the_size_of_headerBuffer =
     str ''Cannot store more header bytes than the size of headerBuffer''"
| "ndn_getErrorString NDN_ERROR_findElementEnd_cannot_read_header_type_and_value =
     str ''FindElementEnd cannot read header type and value''"
| "ndn_getErrorString NDN_ERROR_findElementEnd_unrecognized_header_type =
     str ''FindElementEnd unrecognized header type''"
| "ndn_getErrorString NDN_ERROR_findElementEnd_unrecognized_state =
     str ''FindElementEnd unrecognized state''"
| "ndn_getErrorString NDN_ERROR_DynamicUInt8Array_realloc_function_pointer_not_supplied =
     str ''DynamicUInt8Array realloc function pointer not supplied''"
| "ndn_getErrorString NDN_ERROR_DynamicUInt8Array_realloc_failed =
     str ''DynamicUInt8Array realloc failed''"
| "ndn_getErrorString NDN_ERROR_unrecognized_ndn_ExcludeType =
     str ''Unrecognized ndn_ExcludeType''"
| "ndn_getErrorString NDN_ERROR_unrecognized_ndn_ContentType =
     str ''Unrecognized ndn_ContentType''"
| "ndn_getErrorString NDN_ERROR_unrecognized_ndn_KeyLocatorType =
     str ''Unrecognized ndn_KeyLocatorType''"
| "ndn_getErrorString NDN_ERROR_unrecognized_ndn_KeyNameType =
     str ''Unrecognized ndn_KeyNameType''"
| "ndn_getErrorString NDN_ERROR_decodeKeyLocator_unrecognized_key_locator_type =
     str ''decodeKeyLocator unrecognized key locator type''"
| "ndn_getErrorString NDN_ERROR_unrecognized_ndn_SocketTransport =
     str ''Unrecognized ndn_SocketTransport''"
| "ndn_getErrorString NDN_ERROR_SocketTransport_error_in_getaddrinfo =
     str ''SocketTransport error in getaddrinfo''"
| "ndn_getErrorString NDN_ERROR_SocketTransport_cannot_connect_to_socket =
     str ''SocketTransport cannot connect to socket''"
| "ndn_getErrorString NDN_ERROR_SocketTransport_socket_is_not_open =
     str ''SocketTransport socket is not open''"
| "ndn_getErrorString NDN_ERROR_SocketTransport_error_in_send =
     str ''SocketTransport error in send''"
| "ndn_getErrorString NDN_ERROR_SocketTransport_error_in_poll =
     str ''SocketTransport error in poll''"
| "ndn_getErrorString NDN_ERROR_SocketTransport_error_in_recv =
     str ''SocketTransport error in recv''"
| "ndn_getErrorString NDN_ERROR_SocketTransport_error_in_close =
     str ''SocketTransport error in close''"
| "ndn_getErrorString NDN_ERROR_Name_component_does_not_begin_with_the_expected_marker =
     str ''Name component does not begin with the expected marker''"
| "ndn_getErrorString NDN_ERROR_Time_functions_are_not_supported_by_the_standard_library =
     str ''Time functions are not supported by the standard library''"
| "ndn_getErrorString NDN_ERROR_Calendar_time_value_out_of_range =
     str ''Calendar time value out of range''"
| "ndn_getErrorString NDN_ERROR_Invalid_length_for_nonNegativeInteger =
     str ''Invalid length for nonNegativeInteger''"
| "ndn_getErrorString NDN_ERROR_did_not_get_the_expected_TLV_type =
     str ''Did not get the expected TLV type''"
| "ndn_getErrorString NDN_ERROR_TLV_length_exceeds_buffer_length =
     str ''TLV length exceeds buffer length''"
| "ndn_getErrorString NDN_ERROR_TLV_length_does_not_equal_total_length_of_nested_TLVs =
     str ''TLV length does not equal total length of nested TLVs''"
| "ndn_getErrorString NDN_ERROR_decodeSignatureInfo_unrecognized_SignatureInfo_type =
     str ''decodeSignatureInfo unrecognized SignatureInfo type''"
| "ndn_getErrorString NDN_ERROR_encodeSignatureInfo_unrecognized_SignatureType =
     str ''encodeSignatureInfo unrecognized SignatureType''"
| "ndn_getErrorString NDN_ERROR_Unimplemented_operation =
     str ''Unimplemented operation''"
| "ndn_getErrorString NDN_ERROR_ElementReader_ElementListener_is_not_specified =
     str ''ElementReader ElementListener is not specified''"
| "ndn_getErrorString NDN_ERROR_ElementReader_The_incoming_packet_exceeds_the_maximum_limit_getMaxNdnPacketSize =
     str ''ElementReader The incoming packet exceeds the maximum limit Face::getMaxNdnPacketSize()''"
| "ndn_getErrorString NDN_ERROR_Interest_has_a_selected_delegation_but_no_link_object =
     str ''Interest has a selected delegation but no link object''"
| "ndn_getErrorString NDN_ERROR_The_Generic_signature_encoding_is_not_a_valid_NDN_TLV_SignatureInfo =
     str ''The Generic signature encoding is not a valid NDN-TLV SignatureInfo''"
| "ndn_getErrorString NDN_ERROR_Error_encoding_key =
     str ''Error encoding key''"
| "ndn_getErrorString NDN_ERROR_Error_decoding_key =
     str ''Error decoding key''"
| "ndn_getErrorString NDN_ERROR_Error_in_sign_operation =
     str ''Error in sign operation''"
| "ndn_getErrorString NDN_ERROR_Unsupported_algorithm_type =
     str ''Unsupported algorithm type''"
| "ndn_getErrorString NDN_ERROR_Error_in_encrypt_operation =
     str ''Error in encrypt operation''"
| "ndn_getErrorString NDN_ERROR_Error_in_decrypt_operation =
     str ''Error in decrypt operation''"
| "ndn_getErrorString NDN_ERROR_Error_in_generate_operation =
     str ''Error in generate operation''"
| "ndn_getErrorString NDN_ERROR_Incorrect_key_size =
     str ''Incorrect key size''"
| "ndn_getErrorString NDN_ERROR_Incorrect_initial_vector_size =
     str ''Incorrect initial vector size''"
| "ndn_getErrorString NDN_ERROR_Incorrect_digest_size =
     str ''Incorrect digest size''"
| "ndn_getErrorString NDN_ERROR_An_Interest_may_not_have_a_selected_delegation_when_encoding_a_forwarding_hint =
     str ''An Interest may not have a selected delegation when encoding a forwarding hint''"
| "ndn_getErrorString NDN_ERROR_An_Interest_may_not_have_a_link_object_when_encoding_a_forwarding_hint =
     str ''An Interest may not have a link object when encoding a forwarding hint''"
| "ndn_getErrorString NDN_ERROR_Unrecognized_critical_TLV_type_code =
     str ''Unrecognized critical TLV type code''"
| "ndn_getErrorString NDN_ERROR_Name_component_otherTypeCode_must_be_non_negative =
     str ''Name component otherTypeCode must be non-negative''"

declare ndn_getErrorString.simps [simp del]

text \<open>The exceptions the modelled code throws, with their messages, which callers see.\<close>

datatype exn =
    RuntimeError bytes
  | InvalidArgument bytes

type_synonym 'a result = "exn + 'a"

text \<open>Sequencing: the first error ends the computation.\<close>

fun bindE :: "'e + 'a \<Rightarrow> ('a \<Rightarrow> 'e + 'b) \<Rightarrow> 'e + 'b" where
  "bindE (Inl e) f = Inl e"
| "bindE (Inr a) f = f a"

lemma bindE_Inr [simp]: "bindE m Inr = m"
  by (cases m) auto

lemma bindE_assoc: "bindE (bindE m f) g = bindE m (\<lambda>x. bindE (f x) g)"
  by (cases m) auto

lemma bindE_eq_Inr: "bindE m f = Inr y \<longleftrightarrow> (\<exists>x. m = Inr x \<and> f x = Inr y)"
  by (cases m) auto

lemma bindE_eq_Inl: "bindE m f = Inl e \<longleftrightarrow> m = Inl e \<or> (\<exists>x. m = Inr x \<and> f x = Inl e)"
  by (cases m) auto

text \<open>Sequencing of calls that can throw and that change state, with None for one that does not return.\<close>

definition bindR ::
  "('a result \<times> 's) option \<Rightarrow> ('a \<Rightarrow> 's \<Rightarrow> ('b result \<times> 's) option) \<Rightarrow> ('b result \<times> 's) option" where
  "bindR m f = Option.bind m (\<lambda>(r, s). case r of Inl e \<Rightarrow> Some (Inl e, s) | Inr a \<Rightarrow> f a s)"

lemma bindE_cong [fundef_cong]:
  "m = m' \<Longrightarrow> (\<And>x. m' = Inr x \<Longrightarrow> f x = f' x) \<Longrightarrow> bindE m f = bindE m' f'"
  by (cases m') auto

text \<open>The same without a state.\<close>

definition bindRO :: "'a result option \<Rightarrow> ('a \<Rightarrow> 'b result option) \<Rightarrow> 'b result option" where
  "bindRO m f = Option.bind m (\<lambda>r. case r of Inl e \<Rightarrow> Some (Inl e) | Inr a \<Rightarrow> f a)"

lemma bindRO_simps [simp]:
  "bindRO None f = None" "bindRO (Some (Inl e)) f = Some (Inl e)" "bindRO (Some (Inr a)) f = f a"
  by (simp_all add: bindRO_def)

lemma bindRO_eq_Inr: "bindRO m f = Some (Inr y) \<longleftrightarrow> (\<exists>x. m = Some (Inr x) \<and> f x = Some (Inr y))"
  by (cases m; cases "the m") simp_all

text \<open>A C error code crossing into C++ is thrown as \<^verbatim>\<open>runtime_error(ndn_getErrorString(error))\<close>.\<close>

fun throwC :: "ndn_error + 'a \<Rightarrow> 'a result" where
  "throwC (Inl e) = Inl (RuntimeError (ndn_getErrorString e))"
| "throwC (Inr a) = Inr a"

section \<open>What a call that returns leaves\<close>

definition leaves :: "('a \<times> 's) option \<Rightarrow> ('s \<Rightarrow> bool) \<Rightarrow> bool" where
  "leaves m P \<longleftrightarrow> (\<forall>r s. m = Some (r, s) \<longrightarrow> P s)"

named_theorems leaves

lemma leavesD: "leaves m P \<Longrightarrow> m = Some (r, s) \<Longrightarrow> P s"
  by (simp add: leaves_def)

lemma leaves_None [leaves]: "leaves None P"
  by (simp add: leaves_def)

lemma leaves_Some [leaves]: "P s \<Longrightarrow> leaves (Some (r, s)) P"
  by (simp add: leaves_def)

lemma leaves_if [leaves]: "(b \<Longrightarrow> leaves m P) \<Longrightarrow> (\<not> b \<Longrightarrow> leaves n P) \<Longrightarrow> leaves (if b then m else n) P"
  by simp

lemma leaves_bind:
  assumes "leaves m Q" and "\<And>s. Q s \<Longrightarrow> P s" and "\<And>x s. Q s \<Longrightarrow> leaves (f x s) P"
  shows "leaves (bindR m f) P"
  unfolding leaves_def
proof (intro allI impI)
  fix r s assume *: "bindR m f = Some (r, s)"
  then obtain a s1 where m: "m = Some (a, s1)" by (cases m) (auto simp: bindR_def)
  with assms(1) have "Q s1" by (simp add: leaves_def)
  with * m assms(2,3) show "P s" by (cases a) (auto simp: bindR_def leaves_def)
qed

lemma leaves_map: "leaves m (\<lambda>s. P (g s)) \<Longrightarrow> leaves (map_option (\<lambda>(r, s). (h r s, g s)) m) P"
  by (auto simp: leaves_def)

lemma leaves_mono: "leaves m P \<Longrightarrow> (\<And>s. P s \<Longrightarrow> Q s) \<Longrightarrow> leaves m Q"
  by (simp add: leaves_def)

section \<open>Comparison of byte arrays\<close>

text \<open>\<^verbatim>\<open>ndn_memcmp\<close> of \<^verbatim>\<open>c/util/ndn_memory.c\<close> on two arrays of the same length.\<close>

fun ndn_memcmp :: "bytes \<Rightarrow> bytes \<Rightarrow> int" where
  "ndn_memcmp (x # xs) (y # ys) =
     (if x > y then 1 else if x < y then -1 else ndn_memcmp xs ys)"
| "ndn_memcmp _ _ = 0"

lemma ndn_memcmp_range: "ndn_memcmp xs ys \<in> {-1, 0, 1}"
  by (induction xs ys rule: ndn_memcmp.induct) auto

lemma ndn_memcmp_eq_0:
  "length xs = length ys \<Longrightarrow> ndn_memcmp xs ys = 0 \<longleftrightarrow> xs = ys"
  by (induction xs ys rule: ndn_memcmp.induct) auto

lemma ndn_memcmp_refl [simp]: "ndn_memcmp xs xs = 0"
  by (induction xs) auto

lemma ndn_memcmp_antisym:
  "length xs = length ys \<Longrightarrow> ndn_memcmp ys xs = - ndn_memcmp xs ys"
  by (induction xs ys rule: ndn_memcmp.induct) auto

lemma ndn_memcmp_trans:
  "length xs = length ys \<Longrightarrow> length ys = length zs \<Longrightarrow>
   ndn_memcmp xs ys < 0 \<Longrightarrow> ndn_memcmp ys zs < 0 \<Longrightarrow> ndn_memcmp xs zs < 0"
proof (induction xs ys arbitrary: zs rule: ndn_memcmp.induct)
  case (1 x xs y ys)
  then obtain z zs' where "zs = z # zs'" by (cases zs) auto
  with 1 show ?case by (auto split: if_splits)
qed auto

section \<open>Loops over tables\<close>

text \<open>
  The tables of the library erase matching entries with a loop from the last index down to the
  first, and append what they extract to an output vector: the output gets the matches in
  reverse order, the table keeps the others in order.
\<close>

fun erase_backwards :: "('a \<Rightarrow> bool) \<Rightarrow> 'a list \<Rightarrow> nat \<Rightarrow> 'a list \<Rightarrow> 'a list \<times> 'a list" where
  "erase_backwards P table 0 out = (table, out)"
| "erase_backwards P table (Suc i) out =
     (if P (table ! i)
      then erase_backwards P (take i table @ drop (Suc i) table) i (out @ [table ! i])
      else erase_backwards P table i out)"

lemma erase_backwards_append:
  "i \<le> length xs \<Longrightarrow>
   erase_backwards P (take i xs @ ys) i out =
     (filter (\<lambda>x. \<not> P x) (take i xs) @ ys, out @ rev (filter P (take i xs)))"
proof (induction i arbitrary: ys out)
  case (Suc i)
  then have i: "i < length xs" by simp
  have nth: "(take (Suc i) xs @ ys) ! i = xs ! i"
    using i by (simp add: nth_append)
  have tk: "take i (take (Suc i) xs @ ys) = take i xs" using i by simp
  have dr: "drop (Suc i) (take (Suc i) xs @ ys) = ys" using i by simp
  have sp: "take (Suc i) xs = take i xs @ [xs ! i]"
    using i by (simp add: take_Suc_conv_app_nth)
  show ?case
  proof (cases "P (xs ! i)")
    case True
    then have "erase_backwards P (take (Suc i) xs @ ys) (Suc i) out =
               erase_backwards P (take i xs @ ys) i (out @ [xs ! i])"
      by (simp only: erase_backwards.simps nth tk dr if_True)
    with Suc.IH [of ys "out @ [xs ! i]"] i True show ?thesis by (simp add: sp)
  next
    case False
    then have "erase_backwards P (take (Suc i) xs @ ys) (Suc i) out =
               erase_backwards P (take i xs @ ([xs ! i] @ ys)) i out"
      using i by (simp add: nth sp nth_append)
    with Suc.IH [of "[xs ! i] @ ys" out] i False show ?thesis by (simp add: sp)
  qed
qed simp

lemma erase_backwards [simp]:
  "erase_backwards P xs (length xs) out = (filter (\<lambda>x. \<not> P x) xs, out @ rev (filter P xs))"
  using erase_backwards_append [of "length xs" xs P "[]" out] by simp

text \<open>
  \<^verbatim>\<open>std::lower_bound\<close> followed by an insert at the returned position: the new element goes
  before the first element that is not less than it.  \<^verbatim>\<open>lt\<close> is the comparator of the table.
\<close>

definition insert_lower_bound :: "('a \<Rightarrow> 'a \<Rightarrow> bool) \<Rightarrow> 'a \<Rightarrow> 'a list \<Rightarrow> 'a list" where
  "insert_lower_bound lt x xs =
     takeWhile (\<lambda>y. lt y x) xs @ x # dropWhile (\<lambda>y. lt y x) xs"

lemma mset_insert_lower_bound [simp]:
  "mset (insert_lower_bound lt x xs) = add_mset x (mset xs)"
proof -
  have "mset (takeWhile P xs) + mset (dropWhile P xs) = mset xs" for P
    by (metis mset_append takeWhile_dropWhile_id)
  then show ?thesis by (simp add: insert_lower_bound_def)
qed

lemma set_insert_lower_bound [simp]:
  "set (insert_lower_bound lt x xs) = insert x (set xs)"
  using arg_cong [OF mset_insert_lower_bound [of lt x xs], of set_mset]
  by (simp del: mset_insert_lower_bound)

lemma length_insert_lower_bound [simp]:
  "length (insert_lower_bound lt x xs) = Suc (length xs)"
  using arg_cong [OF mset_insert_lower_bound [of lt x xs], of size]
  by (simp del: mset_insert_lower_bound)

section \<open>Sorted tables\<close>

text \<open>
  The tables that are kept sorted share one contract: a comparator that is a strict weak order on the
  elements the table holds.  Elements with equal keys stay in a fixed order relative to each other.
\<close>

definition table_sorted :: "('a \<Rightarrow> 'a \<Rightarrow> bool) \<Rightarrow> 'a list \<Rightarrow> bool" where
  "table_sorted lt xs \<longleftrightarrow> sorted_wrt (\<lambda>x y. \<not> lt y x) xs"

lemma table_sorted_Nil [simp]: "table_sorted lt []"
  by (simp add: table_sorted_def)

lemma table_sorted_filter [intro]: "table_sorted lt xs \<Longrightarrow> table_sorted lt (filter P xs)"
  by (simp add: table_sorted_def sorted_wrt_filter)

lemma table_sorted_Cons: "table_sorted lt (x # xs) \<longleftrightarrow> (\<forall>y \<in> set xs. \<not> lt y x) \<and> table_sorted lt xs"
  by (simp add: table_sorted_def)

locale sorted_table =
  fixes ok :: "'a \<Rightarrow> bool" and lt :: "'a \<Rightarrow> 'a \<Rightarrow> bool"
  assumes lt_asym: "ok x \<Longrightarrow> ok y \<Longrightarrow> lt x y \<Longrightarrow> \<not> lt y x"
    and not_lt_trans: "ok x \<Longrightarrow> ok y \<Longrightarrow> ok z \<Longrightarrow> \<not> lt y x \<Longrightarrow> \<not> lt z y \<Longrightarrow> \<not> lt z x"
begin

lemma dropWhile_ge:
  assumes "table_sorted lt xs" and "\<forall>x \<in> set xs. ok x" and "ok y" and "z \<in> set (dropWhile (\<lambda>x. lt x y) xs)"
  shows "\<not> lt z y"
  using assms
proof (induction xs)
  case (Cons a xs)
  show ?case
  proof (cases "lt a y")
    case True
    then have "z \<in> set (dropWhile (\<lambda>x. lt x y) xs)" using Cons.prems(4) by simp
    with Cons.IH Cons.prems show ?thesis unfolding table_sorted_Cons by simp
  next
    case False
    then have "z = a \<or> z \<in> set xs" using Cons.prems(4) by simp
    then show ?thesis
    proof
      assume z: "z \<in> set xs"
      have "\<not> lt z a" using Cons.prems(1) z unfolding table_sorted_Cons by blast
      moreover have "ok z" "ok a" using Cons.prems(2) z by simp_all
      ultimately show ?thesis by (intro not_lt_trans [of y a z] Cons.prems(3) False)
    qed (use False in simp)
  qed
qed simp

lemma sorted_insert:
  assumes "table_sorted lt xs" and "\<forall>x \<in> set xs. ok x" and "ok y"
  shows "table_sorted lt (insert_lower_bound lt y xs)"
proof -
  let ?t = "takeWhile (\<lambda>x. lt x y) xs" and ?d = "dropWhile (\<lambda>x. lt x y) xs"
  have split: "table_sorted lt (?t @ ?d)" using assms(1) by simp
  have 1: "\<forall>x \<in> set ?t. \<not> lt y x"
    using set_takeWhileD [of _ "\<lambda>x. lt x y" xs] assms(2,3) lt_asym [of _ y] by blast
  have 2: "\<forall>z \<in> set ?d. \<not> lt z y"
    using dropWhile_ge [OF assms] by blast
  from split have 3: "sorted_wrt (\<lambda>x y. \<not> lt y x) ?t" "sorted_wrt (\<lambda>x y. \<not> lt y x) ?d"
      "\<forall>x \<in> set ?t. \<forall>z \<in> set ?d. \<not> lt z x"
    unfolding table_sorted_def sorted_wrt_append by blast+
  show ?thesis
    unfolding insert_lower_bound_def table_sorted_def sorted_wrt_append sorted_wrt.simps list.set ball_simps
    using 1 2 3 by blast
qed

text \<open>The elements before a bound are a prefix of a sorted table.\<close>

lemma takeWhile_filter:
  assumes "table_sorted lt xs" and "\<forall>x \<in> set xs. ok x" and "ok y"
  shows "takeWhile (\<lambda>x. lt x y) xs = filter (\<lambda>x. lt x y) xs"
    and "dropWhile (\<lambda>x. lt x y) xs = filter (\<lambda>x. \<not> lt x y) xs"
proof -
  let ?t = "takeWhile (\<lambda>x. lt x y) xs" and ?d = "dropWhile (\<lambda>x. lt x y) xs"
  have t: "filter (\<lambda>x. lt x y) ?t = ?t" "filter (\<lambda>x. \<not> lt x y) ?t = []"
    using set_takeWhileD [of _ "\<lambda>x. lt x y" xs] by (meson filter_True filter_False)+
  have d: "filter (\<lambda>x. lt x y) ?d = []" "filter (\<lambda>x. \<not> lt x y) ?d = ?d"
    using dropWhile_ge [OF assms] by (meson filter_True filter_False)+
  have "xs = ?t @ ?d" by simp
  then have "filter P xs = filter P ?t @ filter P ?d" for P by (metis filter_append)
  with t d show "?t = filter (\<lambda>x. lt x y) xs" "?d = filter (\<lambda>x. \<not> lt x y) xs" by simp_all
qed

end

end
