(* ===== verification/NdnBytes.thy ===== *)
theory NdnBytes
  imports NdnPrelude
begin

text \<open>
  Byte-string helpers of \<^verbatim>\<open>src/common.cpp\<close>, \<^verbatim>\<open>src/name.cpp\<close> and \<^verbatim>\<open>src/lite/util/blob-lite.cpp\<close>:
  the \<^verbatim>\<open>std::ostringstream\<close> with its number-format flags (which outlive the call that sets them),
  hexadecimal output and input, white-space trimming, \<^verbatim>\<open>atoi\<close>, and the hash of a byte array.
  Character constants are written as their ASCII codes.
\<close>

section \<open>Output streams\<close>

text \<open>
  The part of \<^verbatim>\<open>ios::fmtflags\<close> that the code changes: the default (decimal), \<^verbatim>\<open>ios::hex\<close>, and
  \<^verbatim>\<open>ios::hex | ios::uppercase\<close>.
\<close>

datatype fmtflags = FmtDefault | FmtHex | FmtHexUpper

record ostringstream =
  os_str :: bytes
  os_flags :: fmtflags

definition new_ostringstream :: ostringstream where
  "new_ostringstream = \<lparr>os_str = [], os_flags = FmtDefault\<rparr>"

definition put_str :: "bytes \<Rightarrow> ostringstream \<Rightarrow> ostringstream" where
  "put_str s os = os\<lparr>os_str := os_str os @ s\<rparr>"

definition set_flags :: "fmtflags \<Rightarrow> ostringstream \<Rightarrow> ostringstream" where
  "set_flags f os = os\<lparr>os_flags := f\<rparr>"

definition digit_char :: "bool \<Rightarrow> nat \<Rightarrow> byte" where
  "digit_char upper d =
     (if d < 10 then of_nat (48 + d) else if upper then of_nat (55 + d) else of_nat (87 + d))"

function show_base :: "bool \<Rightarrow> nat \<Rightarrow> nat \<Rightarrow> bytes" where
  "show_base upper base n =
     (if base < 2 \<or> n < base then [digit_char upper n]
      else show_base upper base (n div base) @ [digit_char upper (n mod base)])"
  by pat_completeness auto
termination by (relation "measure (\<lambda>(_, _, n). n)") auto

declare show_base.simps [simp del]

text \<open>\<^verbatim>\<open>operator<<\<close> for \<^verbatim>\<open>unsigned int\<close> and for \<^verbatim>\<open>int\<close>; in a hex mode an int prints as its 32-bit pattern.\<close>

definition put_unsigned :: "nat \<Rightarrow> ostringstream \<Rightarrow> ostringstream" where
  "put_unsigned n os =
     put_str (case os_flags os of
                FmtDefault \<Rightarrow> show_base False 10 n
              | FmtHex \<Rightarrow> show_base False 16 n
              | FmtHexUpper \<Rightarrow> show_base True 16 n) os"

definition put_int :: "int \<Rightarrow> ostringstream \<Rightarrow> ostringstream" where
  "put_int i os =
     (if os_flags os = FmtDefault
      then if i < 0 then put_unsigned (nat (- i)) (put_str [0x2D] os) else put_unsigned (nat i) os
      else put_unsigned (nat (i mod 2 ^ 32)) os)"

lemma os_str_put_str [simp]: "os_str (put_str s os) = os_str os @ s"
  by (simp add: put_str_def)

lemma os_flags_put_str [simp]: "os_flags (put_str s os) = os_flags os"
  by (simp add: put_str_def)

lemma os_set_flags [simp]:
  "os_str (set_flags f os) = os_str os" "os_flags (set_flags f os) = f"
  by (simp_all add: set_flags_def)

lemma put_str_put_str [simp]: "put_str s (put_str t os) = put_str (t @ s) os"
  by (simp add: put_str_def)

lemma put_str_Nil [simp]: "put_str [] os = os"
  by (simp add: put_str_def)

lemma set_flags_put_str [simp]: "set_flags f (put_str s os) = put_str s (set_flags f os)"
  by (simp add: put_str_def set_flags_def)

lemma set_flags_set_flags [simp]: "set_flags f (set_flags g os) = set_flags f os"
  by (simp add: set_flags_def)

lemma set_flags_same [simp]: "set_flags (os_flags os) os = os"
  by (simp add: set_flags_def)

lemma new_ostringstream_simps [simp]:
  "os_str new_ostringstream = []" "os_flags new_ostringstream = FmtDefault"
  by (simp_all add: new_ostringstream_def)

section \<open>Hexadecimal\<close>

text \<open>\<^verbatim>\<open>fromHexChar\<close>: 0 to 15, or -1 for a character that is no hex digit.\<close>

definition fromHexChar :: "byte \<Rightarrow> int" where
  "fromHexChar c =
     (if c \<ge> 0x30 \<and> c \<le> 0x39 then uint c - 0x30
      else if c \<ge> 0x41 \<and> c \<le> 0x46 then uint c - 0x41 + 10
      else if c \<ge> 0x61 \<and> c \<le> 0x66 then uint c - 0x61 + 10
      else -1)"

text \<open>
  \<^verbatim>\<open>fromHex(hexString, beginOffset, endOffset)\<close> on the substring between the two offsets: spaces are
  skipped, a lone last digit is ignored, a bad digit gives the null blob.
\<close>

fun fromHex :: "bytes \<Rightarrow> blob" where
  "fromHex [] = Some []"
| "fromHex (c # rest) =
     (if c = 0x20 then fromHex rest
      else case rest of
        [] \<Rightarrow> Some []
      | d # rest' \<Rightarrow>
          (let hi = fromHexChar c; lo = fromHexChar d in
           if hi < 0 \<or> lo < 0 then None
           else map_option (\<lambda>r. word_of_int (16 * hi + lo) # r) (fromHex rest')))"

text \<open>
  \<^verbatim>\<open>toHex(array, arrayLength, result)\<close>: it sets the stream to exactly \<^verbatim>\<open>ios::hex\<close> and does not restore
  the flags; an empty array returns before the flags are touched.
\<close>

definition put_hex_byte :: "byte \<Rightarrow> ostringstream \<Rightarrow> ostringstream" where
  "put_hex_byte x os = put_unsigned (unat x) (if x < 16 then put_str [0x30] os else os)"

definition toHex_os :: "bytes \<Rightarrow> ostringstream \<Rightarrow> ostringstream" where
  "toHex_os array os =
     (if array = [] then os else fold put_hex_byte array (set_flags FmtHex os))"

definition toHex :: "bytes \<Rightarrow> bytes" where
  "toHex array = os_str (toHex_os array new_ostringstream)"

text \<open>The two lower-case digits of a byte, the closed form of what the loop body prints.\<close>

definition hex2 :: "bool \<Rightarrow> byte \<Rightarrow> bytes" where
  "hex2 upper x = [digit_char upper (unat x div 16), digit_char upper (unat x mod 16)]"

lemma show_base_16:
  "unat (x :: byte) \<ge> 16 \<Longrightarrow> show_base upper 16 (unat x) = hex2 upper x"
proof -
  assume "unat x \<ge> 16"
  moreover have "unat x < 256" by simp
  ultimately show ?thesis
    by (subst show_base.simps, subst show_base.simps) (simp add: hex2_def less_mult_imp_div_less)
qed

lemma put_hex_byte:
  assumes "os_flags os = FmtHex"
  shows "put_hex_byte x os = put_str (hex2 False x) os"
proof (cases "x < 16")
  case True
  then have "unat x < 16" by (simp add: word_less_nat_alt)
  with True assms show ?thesis
    by (simp add: put_hex_byte_def put_unsigned_def hex2_def digit_char_def show_base.simps)
next
  case False
  then have "unat x \<ge> 16" by (simp add: word_less_nat_alt)
  with False assms show ?thesis
    by (simp add: put_hex_byte_def put_unsigned_def show_base_16)
qed

lemma fold_put_hex_byte:
  "os_flags os = FmtHex \<Longrightarrow>
   fold put_hex_byte bs os = put_str (concat (map (hex2 False) bs)) os"
  by (induction bs arbitrary: os) (simp_all add: put_hex_byte)

lemma toHex_os:
  "toHex_os bs os =
     put_str (concat (map (hex2 False) bs)) (if bs = [] then os else set_flags FmtHex os)"
  by (simp add: toHex_os_def fold_put_hex_byte)

lemma toHex: "toHex bs = concat (map (hex2 False) bs)"
  by (simp add: toHex_def toHex_os)

lemma digit_char_table:
  "list_all (\<lambda>d. list_all (\<lambda>u. fromHexChar (digit_char u d) = int d \<and>
     digit_char u d \<notin> set [0x20, 0x25, 0x2F, 0x3A, 0x3D, 0x09, 0x0A, 0x0D, 0x2E]) [True, False]) [0..<16]"
  by code_simp

lemma fromHexChar_digit_char [simp]: "d < 16 \<Longrightarrow> fromHexChar (digit_char upper d) = int d"
  using digit_char_table by (cases upper) (simp_all only: list_all_iff set_upt list.set, simp_all)

lemma digit_char_not:
  "d < 16 \<Longrightarrow> digit_char upper d \<notin> {0x20, 0x25, 0x2F, 0x3A, 0x3D, 0x09, 0x0A, 0x0D, 0x2E}"
  using digit_char_table by (cases upper) (simp_all only: list_all_iff set_upt list.set, simp_all)

lemma fromHexChar_nonneg_less: "fromHexChar c < 16"
  by (auto simp: fromHexChar_def word_le_def word_less_def)

lemma byte_from_digits: "16 * word_of_nat (unat x div 16) + word_of_nat (unat x mod 16) = (x :: byte)"
proof -
  have "(of_nat (16 * (unat x div 16) + unat x mod 16) :: byte) = x"
    by (simp only: mult_div_mod_eq) simp
  then show ?thesis by (simp only: of_nat_add of_nat_mult of_nat_numeral)
qed

lemma unat_div_16_less: "unat (x :: byte) div 16 < 16"
  using unat_byte_less [of x] by linarith

text \<open>What \<^verbatim>\<open>toHex\<close> prints, \<^verbatim>\<open>fromHex\<close> reads back.\<close>

lemma fromHex_hex2: "fromHex (hex2 upper x @ s) = map_option (Cons x) (fromHex s)"
  using digit_char_not [of "unat x div 16" upper] unat_div_16_less [of x]
  by (simp add: hex2_def Let_def fromHexChar_digit_char byte_from_digits)

lemma fromHex_hex: "fromHex (concat (map (hex2 upper) bs)) = Some bs"
  by (induction bs) (simp_all add: fromHex_hex2)

lemma length_hex: "length (concat (map (hex2 upper) bs)) = 2 * length bs"
  by (induction bs) (simp_all add: hex2_def)

section \<open>White space\<close>

text \<open>\<^verbatim>\<open>WHITESPACE_CHARS\<close> is space, tab, newline, carriage return.\<close>

definition is_trim_space :: "byte \<Rightarrow> bool" where
  "is_trim_space c \<longleftrightarrow> c = 0x20 \<or> c = 0x09 \<or> c = 0x0A \<or> c = 0x0D"

definition trimLeft :: "bytes \<Rightarrow> bytes" where
  "trimLeft s = dropWhile is_trim_space s"

definition trimRight :: "bytes \<Rightarrow> bytes" where
  "trimRight s = rev (dropWhile is_trim_space (rev s))"

definition ndn_trim :: "bytes \<Rightarrow> bytes" where
  "ndn_trim s = trimRight (trimLeft s)"

lemma ndn_trim_id:
  "(s \<noteq> [] \<Longrightarrow> \<not> is_trim_space (hd s)) \<Longrightarrow> (s \<noteq> [] \<Longrightarrow> \<not> is_trim_space (last s)) \<Longrightarrow> ndn_trim s = s"
proof (cases s)
  case Nil
  then show ?thesis by (simp add: ndn_trim_def trimLeft_def trimRight_def)
next
  case (Cons c s')
  assume "s \<noteq> [] \<Longrightarrow> \<not> is_trim_space (hd s)" and "s \<noteq> [] \<Longrightarrow> \<not> is_trim_space (last s)"
  then have h: "\<not> is_trim_space (hd s)" and l: "\<not> is_trim_space (hd (rev s))"
    by (metis Cons list.discI, metis Cons list.discI hd_rev)
  have "dropWhile is_trim_space s = s" using h Cons by simp
  moreover have "dropWhile is_trim_space (rev s) = rev s"
    using l by (cases "rev s") auto
  ultimately show ?thesis by (simp add: ndn_trim_def trimLeft_def trimRight_def)
qed

section \<open>Decimal numbers\<close>

text \<open>
  \<^verbatim>\<open>atoi\<close>: white space, an optional sign, then digits up to the first other character.  The value
  saturates at 64 bits (\<^verbatim>\<open>strtol\<close>) and is then converted to a 32-bit int.
\<close>

definition is_digit_char :: "byte \<Rightarrow> bool" where
  "is_digit_char c \<longleftrightarrow> c \<ge> 0x30 \<and> c \<le> 0x39"

definition is_c_space :: "byte \<Rightarrow> bool" where
  "is_c_space c \<longleftrightarrow> c = 0x20 \<or> (c \<ge> 0x09 \<and> c \<le> 0x0D)"

definition dec_value :: "bytes \<Rightarrow> int" where
  "dec_value ds = fold (\<lambda>d n. 10 * n + (uint d - 0x30)) ds 0"

definition atoi :: "bytes \<Rightarrow> int" where
  "atoi s =
     (let t = dropWhile is_c_space s;
          neg = (t \<noteq> [] \<and> hd t = 0x2D);
          u = (if t \<noteq> [] \<and> (hd t = 0x2D \<or> hd t = 0x2B) then tl t else t);
          v = dec_value (takeWhile is_digit_char u);
          w = max (- (2 ^ 63)) (min (2 ^ 63 - 1) (if neg then - v else v))
      in sint (word_of_int w :: 32 word))"

lemma digit_char_decimal:
  "d < 10 \<Longrightarrow> is_digit_char (digit_char upper d)"
  "d < 10 \<Longrightarrow> uint (digit_char upper d) - 0x30 = int d"
proof -
  assume "d < 10"
  then have "d \<in> {0, 1, 2, 3, 4, 5, 6, 7, 8, 9}" by auto
  then show "is_digit_char (digit_char upper d)" "uint (digit_char upper d) - 0x30 = int d"
    by (auto simp: is_digit_char_def digit_char_def)
qed

lemma show_dec_digits: "c \<in> set (show_base upper 10 n) \<Longrightarrow> is_digit_char c"
proof (induction upper "10 :: nat" n rule: show_base.induct)
  case (1 upper n)
  from 1(2) show ?case
    by (subst (asm) show_base.simps) (auto simp: digit_char_decimal split: if_splits intro: 1(1))
qed

lemma show_base_not_Nil [simp]: "show_base upper b n \<noteq> []"
  by (subst show_base.simps) simp

lemma dec_value_snoc: "dec_value (ds @ [d]) = 10 * dec_value ds + (uint d - 0x30)"
  by (simp add: dec_value_def)

lemma dec_value_show: "dec_value (show_base upper 10 n) = int n"
proof (induction upper "10 :: nat" n rule: show_base.induct)
  case (1 upper n)
  show ?case
  proof (cases "n < 10")
    case True
    then show ?thesis
      by (subst show_base.simps) (simp add: dec_value_def digit_char_decimal)
  next
    case False
    then have "dec_value (show_base upper 10 n) =
        10 * dec_value (show_base upper 10 (n div 10)) + int (n mod 10)"
      by (subst show_base.simps) (simp add: dec_value_snoc digit_char_decimal)
    also have "\<dots> = 10 * int (n div 10) + int (n mod 10)" using 1 False by simp
    also have "\<dots> = int n" by (simp add: of_nat_div of_nat_mod)
    finally show ?thesis .
  qed
qed

lemma digit_not_space: "is_digit_char c \<Longrightarrow> \<not> is_c_space c"
  by (auto simp: is_digit_char_def is_c_space_def word_le_nat_alt)

lemma atoi_show:
  assumes "n < 2 ^ 31"
  shows "atoi (show_base False 10 n) = int n"
proof -
  let ?s = "show_base False 10 n"
  have dig: "is_digit_char (hd ?s)" using show_dec_digits [of "hd ?s" False n] by simp
  then have h: "hd ?s \<noteq> 0x2D" "hd ?s \<noteq> 0x2B" by (auto simp: is_digit_char_def)
  have "dropWhile is_c_space ?s = ?s"
    using digit_not_space [OF dig] by (cases ?s) auto
  moreover have "takeWhile is_digit_char ?s = ?s"
    using show_dec_digits by (simp add: takeWhile_eq_all_conv)
  moreover have "sint (word_of_int (int n) :: 32 word) = int n"
    using assms by (simp only: sint_sbintrunc') (simp add: signed_take_bit_int_eq_self)
  moreover have "max (- (2 ^ 63)) (min (2 ^ 63 - 1) (int n)) = int n"
    using assms by simp
  ultimately show ?thesis using h by (simp add: atoi_def Let_def dec_value_show del: takeWhile_eq_all_conv)
qed

section \<open>Hash\<close>

text \<open>\<^verbatim>\<open>BlobLite::hash\<close> and \<^verbatim>\<open>Blob::hash\<close>.\<close>

definition bytes_hash :: "bytes \<Rightarrow> size_t" where
  "bytes_hash buf = fold (\<lambda>b result. 31 * result + ucast b) buf 1"

definition blob_hash :: "blob \<Rightarrow> size_t" where
  "blob_hash b = (case b of None \<Rightarrow> 0 | Some v \<Rightarrow> bytes_hash v)"

text \<open>\<^verbatim>\<open>Blob::size\<close> (0 for a null blob) and \<^verbatim>\<open>Blob::equals\<close>.\<close>

definition blob_size :: "blob \<Rightarrow> nat" where
  "blob_size b = (case b of None \<Rightarrow> 0 | Some v \<Rightarrow> length v)"

definition blob_equals :: "blob \<Rightarrow> blob \<Rightarrow> bool" where
  "blob_equals a b = (case a of None \<Rightarrow> b = None | Some v \<Rightarrow> (case b of None \<Rightarrow> False | Some w \<Rightarrow> v = w))"

lemma blob_equals [simp]: "blob_equals a b \<longleftrightarrow> a = b"
  by (auto simp: blob_equals_def split: option.splits)

lemma blob_size_simps [simp]: "blob_size None = 0" "blob_size (Some v) = length v"
  by (simp_all add: blob_size_def)

end
