(* ===== verification/TlvEncoder.thy ===== *)
theory TlvEncoder
  imports NdnBytes
begin

text \<open>
  The TLV encoder of \<^verbatim>\<open>src/c/encoding/tlv/tlv-encoder.[ch]\<close> over the growing output array of
  \<^verbatim>\<open>src/c/util/dynamic-uint8-array.[ch]\<close>.  An encoder has an enabled mode, which writes, and a
  disabled mode, which only advances the offset; \<^verbatim>\<open>ndn_TlvEncoder_writeNestedTlv\<close> uses the disabled mode
  to measure a value before it writes the header.  The relation \<^verbatim>\<open>emits w bs\<close> is the contract of
  every writing function: in both modes it advances the offset by the length of the byte string \<^verbatim>\<open>bs\<close>, and
  in the enabled mode it appends \<^verbatim>\<open>bs\<close> to the output.  Offsets are lengths of arrays in memory, so they
  are natural numbers.
\<close>

section \<open>The encoder\<close>

record tlv_encoder =
  output_array :: bytes       \<comment> \<open>output->array with its allocated length\<close>
  output_realloc :: bool      \<comment> \<open>output->realloc is supplied\<close>
  enc_offset :: nat
  enableOutput :: bool

text \<open>\<^verbatim>\<open>DynamicUInt8Vector::realloc\<close> resizes a vector, which fills with zeros.\<close>

definition reallocArray :: "nat \<Rightarrow> tlv_encoder \<Rightarrow> ndn_error + tlv_encoder" where
  "reallocArray n e =
     (if \<not> output_realloc e
      then Inl NDN_ERROR_DynamicUInt8Array_realloc_function_pointer_not_supplied
      else let len = length (output_array e);
               newLength = (if n > len * 2 then n else len * 2)
           in Inr (e\<lparr>output_array := output_array e @ replicate (newLength - len) 0\<rparr>))"

definition ensureLength :: "nat \<Rightarrow> tlv_encoder \<Rightarrow> ndn_error + tlv_encoder" where
  "ensureLength n e = (if length (output_array e) \<ge> n then Inr e else reallocArray n e)"

text \<open>\<^verbatim>\<open>memcpy\<close> into the array, and the store followed by the advance of the offset.\<close>

definition overwrite :: "nat \<Rightarrow> bytes \<Rightarrow> bytes \<Rightarrow> bytes" where
  "overwrite off bs arr = take off arr @ bs @ drop (off + length bs) arr"

definition writeArrayEnabled :: "bytes \<Rightarrow> tlv_encoder \<Rightarrow> ndn_error + tlv_encoder" where
  "writeArrayEnabled bs e =
     bindE (ensureLength (enc_offset e + length bs) e) (\<lambda>e.
       Inr (e\<lparr>output_array := overwrite (enc_offset e) bs (output_array e),
              enc_offset := enc_offset e + length bs\<rparr>))"

definition TlvEncoder_new :: "nat \<Rightarrow> tlv_encoder" where
  "TlvEncoder_new initialLength =
     \<lparr>output_array = replicate initialLength 0, output_realloc = True, enc_offset = 0, enableOutput = True\<rparr>"

text \<open>\<^verbatim>\<open>TlvEncoder::finish\<close>: the vector resized to the offset.\<close>

definition TlvEncoder_finish :: "tlv_encoder \<Rightarrow> bytes" where
  "TlvEncoder_finish e =
     take (enc_offset e) (output_array e) @ replicate (enc_offset e - length (output_array e)) 0"

definition TlvEncoder_seek :: "nat \<Rightarrow> tlv_encoder \<Rightarrow> ndn_error + tlv_encoder" where
  "TlvEncoder_seek off e =
     bindE (if enableOutput e then ensureLength off e else Inr e) (\<lambda>e. Inr (e\<lparr>enc_offset := off\<rparr>))"

text \<open>Advancing the offset without writing.\<close>

definition advance :: "nat \<Rightarrow> tlv_encoder \<Rightarrow> tlv_encoder" where
  "advance n e = e\<lparr>enc_offset := enc_offset e + n\<rparr>"

section \<open>Numbers\<close>

text \<open>The \<^verbatim>\<open>k\<close> low bytes of a value, most significant first: \<^verbatim>\<open>htobe16\<close>, \<^verbatim>\<open>htobe32\<close>, \<^verbatim>\<open>htobe64\<close>.\<close>

definition be_bytes :: "nat \<Rightarrow> u64 \<Rightarrow> bytes" where
  "be_bytes k v = map (\<lambda>i. ucast (drop_bit (8 * i) v)) (rev [0..<k])"

definition sizeOfVarNumber :: "u64 \<Rightarrow> nat" where
  "sizeOfVarNumber v =
     (if v < 253 then 1 else if v \<le> 0xffff then 3 else if v \<le> 0xffffffff then 5 else 9)"

definition writeVarNumberEnabled :: "u64 \<Rightarrow> tlv_encoder \<Rightarrow> ndn_error + tlv_encoder" where
  "writeVarNumberEnabled v e =
     (if v < 253 then writeArrayEnabled [ucast v] e
      else if v \<le> 0xffff then writeArrayEnabled (253 # be_bytes 2 v) e
      else if v \<le> 0xffffffff then writeArrayEnabled (254 # be_bytes 4 v) e
      else writeArrayEnabled (255 # be_bytes 8 v) e)"

definition writeVarNumber :: "u64 \<Rightarrow> tlv_encoder \<Rightarrow> ndn_error + tlv_encoder" where
  "writeVarNumber v e =
     (if enableOutput e then writeVarNumberEnabled v e else Inr (advance (sizeOfVarNumber v) e))"

definition writeTypeAndLength :: "u32 \<Rightarrow> nat \<Rightarrow> tlv_encoder \<Rightarrow> ndn_error + tlv_encoder" where
  "writeTypeAndLength type len e =
     (if enableOutput e
      then bindE (writeVarNumberEnabled (ucast type) e) (writeVarNumberEnabled (of_nat len))
      else Inr (advance (sizeOfVarNumber (ucast type) + sizeOfVarNumber (of_nat len)) e))"

definition sizeOfNonNegativeInteger :: "u64 \<Rightarrow> nat" where
  "sizeOfNonNegativeInteger v =
     (if v \<le> 0xff then 1 else if v \<le> 0xffff then 2 else if v \<le> 0xffffffff then 4 else 8)"

definition writeNonNegativeIntegerEnabled :: "u64 \<Rightarrow> tlv_encoder \<Rightarrow> ndn_error + tlv_encoder" where
  "writeNonNegativeIntegerEnabled v e =
     (if v \<le> 0xff then writeArrayEnabled [ucast v] e
      else if v \<le> 0xffff then writeArrayEnabled (be_bytes 2 v) e
      else if v \<le> 0xffffffff then writeArrayEnabled (be_bytes 4 v) e
      else writeArrayEnabled (be_bytes 8 v) e)"

definition writeNonNegativeInteger :: "u64 \<Rightarrow> tlv_encoder \<Rightarrow> ndn_error + tlv_encoder" where
  "writeNonNegativeInteger v e =
     (if enableOutput e then writeNonNegativeIntegerEnabled v e
      else Inr (advance (sizeOfNonNegativeInteger v) e))"

section \<open>Blobs and nested values\<close>

text \<open>The \<^verbatim>\<open>ndn_Blob\<close> of a C call is a pointer and a length; its bytes are passed here.\<close>

definition sizeOfBlobTlv :: "u32 \<Rightarrow> bytes \<Rightarrow> nat" where
  "sizeOfBlobTlv type value =
     sizeOfVarNumber (ucast type) + sizeOfVarNumber (of_nat (length value)) + length value"

definition writeArray :: "bytes \<Rightarrow> tlv_encoder \<Rightarrow> ndn_error + tlv_encoder" where
  "writeArray bs e = (if enableOutput e then writeArrayEnabled bs e else Inr (advance (length bs) e))"

definition writeBlobTlvEnabled :: "u32 \<Rightarrow> bytes \<Rightarrow> tlv_encoder \<Rightarrow> ndn_error + tlv_encoder" where
  "writeBlobTlvEnabled type value e =
     bindE (writeTypeAndLength type (length value) e) (writeArrayEnabled value)"

definition writeBlobTlv :: "u32 \<Rightarrow> bytes \<Rightarrow> tlv_encoder \<Rightarrow> ndn_error + tlv_encoder" where
  "writeBlobTlv type value e =
     (if enableOutput e then writeBlobTlvEnabled type value e
      else Inr (advance (sizeOfBlobTlv type value) e))"

definition writeOptionalBlobTlv :: "u32 \<Rightarrow> blob \<Rightarrow> tlv_encoder \<Rightarrow> ndn_error + tlv_encoder" where
  "writeOptionalBlobTlv type value e =
     (case value of
        Some v \<Rightarrow> if length v > 0 then writeBlobTlv type v e else Inr e
      | None \<Rightarrow> Inr e)"

definition writeNonNegativeIntegerTlv :: "u32 \<Rightarrow> u64 \<Rightarrow> tlv_encoder \<Rightarrow> ndn_error + tlv_encoder" where
  "writeNonNegativeIntegerTlv type v e =
     (let sizeOfInteger = sizeOfNonNegativeInteger v in
      if enableOutput e
      then bindE (writeTypeAndLength type sizeOfInteger e) (writeNonNegativeIntegerEnabled v)
      else Inr (advance (sizeOfVarNumber (ucast type) + sizeOfVarNumber (of_nat sizeOfInteger) + sizeOfInteger) e))"

definition writeOptionalNonNegativeIntegerTlv :: "u32 \<Rightarrow> int \<Rightarrow> tlv_encoder \<Rightarrow> ndn_error + tlv_encoder" where
  "writeOptionalNonNegativeIntegerTlv type v e =
     (if v \<ge> 0 then writeNonNegativeIntegerTlv type (word_of_int v) e else Inr e)"

text \<open>
  \<^verbatim>\<open>ndn_TlvEncoder_writeNestedTlv\<close>: a first pass of \<^verbatim>\<open>writeValue\<close> with the output disabled measures
  the value; when the output was enabled the header and the value are then written for real.
\<close>

definition writeNestedTlv ::
  "u32 \<Rightarrow> (tlv_encoder \<Rightarrow> ndn_error + tlv_encoder) \<Rightarrow> bool \<Rightarrow> tlv_encoder \<Rightarrow> ndn_error + tlv_encoder" where
  "writeNestedTlv type writeValue omitZeroLength e =
     (let saveOffset = enc_offset e; originalEnableOutput = enableOutput e in
      bindE (writeValue (e\<lparr>enableOutput := False\<rparr>)) (\<lambda>e1.
        let valueLength = enc_offset e1 - saveOffset in
        if omitZeroLength \<and> valueLength = 0
        then Inr (e1\<lparr>enableOutput := originalEnableOutput\<rparr>)
        else if originalEnableOutput
        then bindE (writeTypeAndLength type valueLength
                      (e1\<lparr>enc_offset := saveOffset, enableOutput := True\<rparr>)) writeValue
        else writeTypeAndLength type valueLength e1))"

section \<open>The contract of a writing function\<close>

definition enc_wf :: "tlv_encoder \<Rightarrow> bool" where
  "enc_wf e \<longleftrightarrow> enc_offset e \<le> length (output_array e)"

definition enc_out :: "tlv_encoder \<Rightarrow> bytes" where
  "enc_out e = take (enc_offset e) (output_array e)"

definition ready :: "tlv_encoder \<Rightarrow> bool" where
  "ready e \<longleftrightarrow> enableOutput e \<and> output_realloc e \<and> enc_wf e"

definition emits :: "(tlv_encoder \<Rightarrow> ndn_error + tlv_encoder) \<Rightarrow> bytes \<Rightarrow> bool" where
  "emits w bs \<longleftrightarrow>
     (\<forall>e. \<not> enableOutput e \<longrightarrow> w e = Inr (advance (length bs) e)) \<and>
     (\<forall>e. ready e \<longrightarrow> (\<exists>e'. w e = Inr e' \<and> ready e' \<and> enc_out e' = enc_out e @ bs))"

lemma emitsI:
  assumes "\<And>e. \<not> enableOutput e \<Longrightarrow> w e = Inr (advance (length bs) e)"
    and "\<And>e. ready e \<Longrightarrow> \<exists>e'. w e = Inr e' \<and> ready e' \<and> enc_out e' = enc_out e @ bs"
  shows "emits w bs"
  using assms by (simp add: emits_def)

lemma emits_disabled: "emits w bs \<Longrightarrow> \<not> enableOutput e \<Longrightarrow> w e = Inr (advance (length bs) e)"
  by (simp add: emits_def)

lemma emits_enabled:
  "emits w bs \<Longrightarrow> ready e \<Longrightarrow> \<exists>e'. w e = Inr e' \<and> ready e' \<and> enc_out e' = enc_out e @ bs"
  by (simp add: emits_def)

lemma enc_out_length: "ready e \<Longrightarrow> length (enc_out e) = enc_offset e"
  by (simp add: ready_def enc_wf_def enc_out_def)

lemma advance_simps [simp]:
  "enc_offset (advance n e) = enc_offset e + n" "enableOutput (advance n e) = enableOutput e"
  "advance m (advance n e) = advance (n + m) e" "advance 0 e = e"
  by (simp_all add: advance_def)

lemma advance_enableOutput:
  "(advance n (e\<lparr>enableOutput := b\<rparr>))\<lparr>enableOutput := c\<rparr> = advance n (e\<lparr>enableOutput := c\<rparr>)"
  by (simp add: advance_def)

text \<open>A skipped write, a sequence of writes, and a choice.\<close>

lemma emits_skip [simp, intro]: "emits Inr []"
  by (rule emitsI) auto

lemma emits_seq [intro]:
  assumes "emits w1 b1" and "emits w2 b2"
  shows "emits (\<lambda>e. bindE (w1 e) w2) (b1 @ b2)"
proof (rule emitsI)
  fix e :: tlv_encoder assume "\<not> enableOutput e"
  then show "bindE (w1 e) w2 = Inr (advance (length (b1 @ b2)) e)"
    using assms by (simp add: emits_disabled)
next
  fix e assume "ready e"
  then obtain e1 where "w1 e = Inr e1" "ready e1" "enc_out e1 = enc_out e @ b1"
    using assms(1) emits_enabled by blast
  moreover from \<open>ready e1\<close> obtain e2 where "w2 e1 = Inr e2" "ready e2" "enc_out e2 = enc_out e1 @ b2"
    using assms(2) emits_enabled by blast
  ultimately show "\<exists>e'. bindE (w1 e) w2 = Inr e' \<and> ready e' \<and> enc_out e' = enc_out e @ b1 @ b2"
    by simp
qed

lemma emits_if:
  assumes "b \<Longrightarrow> emits w1 b1" and "\<not> b \<Longrightarrow> emits w2 b2"
  shows "emits (\<lambda>e. if b then w1 e else w2 e) (if b then b1 else b2)"
  using assms by auto

lemma emits_mode:
  fixes w1 :: "tlv_encoder \<Rightarrow> ndn_error + tlv_encoder"
  assumes "\<And>e. ready e \<Longrightarrow> \<exists>e'. w1 e = Inr e' \<and> ready e' \<and> enc_out e' = enc_out e @ bs"
    and "n = length bs"
  shows "emits (\<lambda>e. if enableOutput e then w1 e else Inr (advance n e)) bs"
  using assms by (intro emitsI) (auto simp: ready_def)

text \<open>The enabled primitive.\<close>

lemma ensureLength_ready:
  fixes e :: tlv_encoder
  assumes "ready e"
  shows "\<exists>e'. ensureLength n e = Inr e' \<and> ready e' \<and> enc_out e' = enc_out e \<and>
              enc_offset e' = enc_offset e \<and> n \<le> length (output_array e')"
  using assms
  by (auto simp: ensureLength_def reallocArray_def ready_def enc_wf_def enc_out_def Let_def)

lemma writeArrayEnabled_ready:
  assumes "ready e"
  shows "\<exists>e'. writeArrayEnabled bs e = Inr e' \<and> ready e' \<and> enc_out e' = enc_out e @ bs"
proof -
  from ensureLength_ready [OF assms, of "enc_offset e + length bs"] obtain e1 where
    e1: "ensureLength (enc_offset e + length bs) e = Inr e1" "ready e1" "enc_out e1 = enc_out e"
      "enc_offset e1 = enc_offset e" "enc_offset e + length bs \<le> length (output_array e1)" by blast
  let ?e = "e1\<lparr>output_array := overwrite (enc_offset e1) bs (output_array e1),
               enc_offset := enc_offset e1 + length bs\<rparr>"
  have "enc_offset e1 \<le> length (output_array e1)" using e1(2) by (simp add: ready_def enc_wf_def)
  then have "ready ?e" "enc_out ?e = enc_out e1 @ bs"
    using e1(2,4,5) by (simp_all add: ready_def enc_wf_def enc_out_def overwrite_def min_absorb2)
  with e1 show ?thesis by (simp add: writeArrayEnabled_def)
qed

text \<open>The byte strings of the primitives.\<close>

definition var_number :: "u64 \<Rightarrow> bytes" where
  "var_number v =
     (if v < 253 then [ucast v] else if v \<le> 0xffff then 253 # be_bytes 2 v
      else if v \<le> 0xffffffff then 254 # be_bytes 4 v else 255 # be_bytes 8 v)"

definition nonneg_integer :: "u64 \<Rightarrow> bytes" where
  "nonneg_integer v =
     (if v \<le> 0xff then [ucast v] else if v \<le> 0xffff then be_bytes 2 v
      else if v \<le> 0xffffffff then be_bytes 4 v else be_bytes 8 v)"

definition tlv_header :: "u32 \<Rightarrow> nat \<Rightarrow> bytes" where
  "tlv_header type len = var_number (ucast type) @ var_number (of_nat len)"

definition tlv :: "u32 \<Rightarrow> bytes \<Rightarrow> bytes" where
  "tlv type value = tlv_header type (length value) @ value"

lemma length_be_bytes [simp]: "length (be_bytes k v) = k"
  by (simp add: be_bytes_def)

lemma length_var_number: "length (var_number v) = sizeOfVarNumber v"
  by (simp add: var_number_def sizeOfVarNumber_def)

lemma length_nonneg_integer: "length (nonneg_integer v) = sizeOfNonNegativeInteger v"
  by (simp add: nonneg_integer_def sizeOfNonNegativeInteger_def)

lemma length_tlv_header:
  "length (tlv_header type n) = sizeOfVarNumber (ucast type) + sizeOfVarNumber (of_nat n)"
  by (simp add: tlv_header_def length_var_number)

lemma length_tlv: "length (tlv type value) = sizeOfBlobTlv type value"
  by (simp add: tlv_def length_tlv_header sizeOfBlobTlv_def)

lemma tlv_header_not_Nil [simp]: "tlv_header type n \<noteq> []"
  by (simp add: tlv_header_def var_number_def)

lemma tlv_not_Nil [simp]: "tlv type value \<noteq> []"
  by (simp add: tlv_def)

lemma writeVarNumberEnabled: "writeVarNumberEnabled v = writeArrayEnabled (var_number v)"
  by (rule ext) (simp add: writeVarNumberEnabled_def var_number_def)

lemma writeNonNegativeIntegerEnabled:
  "writeNonNegativeIntegerEnabled v = writeArrayEnabled (nonneg_integer v)"
  by (rule ext) (simp add: writeNonNegativeIntegerEnabled_def nonneg_integer_def)

lemma writeArrayEnabled_ready2:
  assumes "ready e"
  shows "\<exists>e'. bindE (writeArrayEnabled b1 e) (writeArrayEnabled b2) = Inr e' \<and> ready e' \<and>
              enc_out e' = enc_out e @ b1 @ b2"
  using writeArrayEnabled_ready [OF assms, of b1] writeArrayEnabled_ready [of _ b2] by fastforce

lemma emits_writeVarNumber [intro]: "emits (writeVarNumber v) (var_number v)"
  unfolding writeVarNumber_def writeVarNumberEnabled
  by (rule emits_mode) (simp_all add: writeArrayEnabled_ready length_var_number)

lemma emits_writeTypeAndLength [intro]: "emits (writeTypeAndLength type n) (tlv_header type n)"
  unfolding writeTypeAndLength_def writeVarNumberEnabled
  by (rule emits_mode) (simp_all add: tlv_header_def writeArrayEnabled_ready2 length_var_number)

lemma emits_writeNonNegativeInteger [intro]: "emits (writeNonNegativeInteger v) (nonneg_integer v)"
  unfolding writeNonNegativeInteger_def writeNonNegativeIntegerEnabled
  by (rule emits_mode) (simp_all add: writeArrayEnabled_ready length_nonneg_integer)

lemma emits_writeArray [intro]: "emits (writeArray bs) bs"
  unfolding writeArray_def by (rule emits_mode) (simp_all add: writeArrayEnabled_ready)

lemma header_then_array_ready:
  assumes "ready e"
  shows "\<exists>e'. bindE (writeTypeAndLength type n e) (writeArrayEnabled bs) = Inr e' \<and> ready e' \<and>
              enc_out e' = enc_out e @ tlv_header type n @ bs"
  using emits_enabled [OF emits_writeTypeAndLength assms, of type n] writeArrayEnabled_ready [of _ bs]
  by fastforce

lemma emits_writeBlobTlv [intro]: "emits (writeBlobTlv type value) (tlv type value)"
  unfolding writeBlobTlv_def writeBlobTlvEnabled_def
  by (rule emits_mode) (simp_all add: tlv_def header_then_array_ready sizeOfBlobTlv_def length_tlv_header)

definition optional_blob_tlv :: "u32 \<Rightarrow> blob \<Rightarrow> bytes" where
  "optional_blob_tlv type value =
     (case value of Some v \<Rightarrow> if v = [] then [] else tlv type v | None \<Rightarrow> [])"

lemma emits_writeOptionalBlobTlv [intro]:
  "emits (writeOptionalBlobTlv type value) (optional_blob_tlv type value)"
proof (cases "value = None \<or> value = Some []")
  case True
  then have "writeOptionalBlobTlv type value = Inr"
    by (auto simp: writeOptionalBlobTlv_def intro!: ext)
  with True show ?thesis by (auto simp: optional_blob_tlv_def)
next
  case False
  then obtain v where v: "value = Some v" "v \<noteq> []" by auto
  then have "writeOptionalBlobTlv type value = writeBlobTlv type v"
    by (auto simp: writeOptionalBlobTlv_def intro!: ext)
  with v show ?thesis by (auto simp: optional_blob_tlv_def)
qed

lemma emits_writeNonNegativeIntegerTlv [intro]:
  "emits (writeNonNegativeIntegerTlv type v) (tlv type (nonneg_integer v))"
  unfolding writeNonNegativeIntegerTlv_def writeNonNegativeIntegerEnabled Let_def
  by (rule emits_mode)
     (simp_all add: tlv_def header_then_array_ready length_tlv_header flip: length_nonneg_integer)

definition optional_nonneg_tlv :: "u32 \<Rightarrow> int \<Rightarrow> bytes" where
  "optional_nonneg_tlv type v = (if v \<ge> 0 then tlv type (nonneg_integer (word_of_int v)) else [])"

lemma emits_writeOptionalNonNegativeIntegerTlv [intro]:
  "emits (writeOptionalNonNegativeIntegerTlv type v) (optional_nonneg_tlv type v)"
proof (cases "v \<ge> 0")
  case True
  then have "writeOptionalNonNegativeIntegerTlv type v = writeNonNegativeIntegerTlv type (word_of_int v)"
    by (auto simp: writeOptionalNonNegativeIntegerTlv_def intro!: ext)
  with True show ?thesis by (auto simp: optional_nonneg_tlv_def)
next
  case False
  then have "writeOptionalNonNegativeIntegerTlv type v = Inr"
    by (auto simp: writeOptionalNonNegativeIntegerTlv_def intro!: ext)
  with False show ?thesis by (auto simp: optional_nonneg_tlv_def)
qed

section \<open>Nested values\<close>

text \<open>
  The callback interface of \<^verbatim>\<open>ndn_TlvEncoder_writeNestedTlv\<close>: a \<^verbatim>\<open>writeValue\<close> function and the byte
  string it promises to write in both passes, for every context object it accepts.
\<close>

definition nested_tlv :: "u32 \<Rightarrow> bool \<Rightarrow> bytes \<Rightarrow> bytes" where
  "nested_tlv type omit value = (if omit \<and> value = [] then [] else tlv type value)"

locale tlv_value =
  fixes accepts :: "'c \<Rightarrow> bool"
    and writeValue :: "'c \<Rightarrow> tlv_encoder \<Rightarrow> ndn_error + tlv_encoder"
    and value_bytes :: "'c \<Rightarrow> bytes"
  assumes writes: "accepts x \<Longrightarrow> emits (writeValue x) (value_bytes x)"
begin

lemma nested_disabled:
  assumes ok: "accepts x" and off: "\<not> enableOutput e"
  shows "writeNestedTlv type (writeValue x) omit e = Inr (advance (length (nested_tlv type omit (value_bytes x))) e)"
proof -
  have same: "e\<lparr>enableOutput := False\<rparr> = e" using assms by simp
  have val: "writeValue x e = Inr (advance (length (value_bytes x)) e)"
    using writes [OF ok] assms by (simp add: emits_disabled)
  have header: "writeTypeAndLength type n (advance m e) =
      Inr (advance (length (tlv_header type n) + m) e)" for n m
    using assms by (simp add: emits_disabled [OF emits_writeTypeAndLength] add.commute)
  have dis: "(advance n e)\<lparr>enableOutput := False\<rparr> = advance n e" for n
    using assms by (simp add: advance_def)
  show ?thesis
    unfolding writeNestedTlv_def Let_def same val bindE.simps nested_tlv_def
    using assms by (simp add: header dis tlv_def)
qed

lemma nested_enabled:
  assumes ok: "accepts x" and rd: "ready e"
  shows "\<exists>e'. writeNestedTlv type (writeValue x) omit e = Inr e' \<and> ready e' \<and>
              enc_out e' = enc_out e @ nested_tlv type omit (value_bytes x)"
proof -
  have on: "enableOutput e" using assms by (simp add: ready_def)
  have first: "writeValue x (e\<lparr>enableOutput := False\<rparr>) =
      Inr (advance (length (value_bytes x)) (e\<lparr>enableOutput := False\<rparr>))"
    using writes [OF ok] by (simp add: emits_disabled)
  have restore: "(advance n (e\<lparr>enableOutput := False\<rparr>))\<lparr>enc_offset := enc_offset e, enableOutput := True\<rparr> = e" for n
    using on by (simp add: advance_def)
  show ?thesis
  proof (cases "omit \<and> value_bytes x = []")
    case True
    have "(e\<lparr>enableOutput := False\<rparr>)\<lparr>enableOutput := enableOutput e\<rparr> = e" by simp
    with True first assms show ?thesis
      by (auto simp: writeNestedTlv_def Let_def nested_tlv_def)
  next
    case False
    from emits_enabled [OF emits_writeTypeAndLength rd] obtain e1 where
      e1: "writeTypeAndLength type (length (value_bytes x)) e = Inr e1" "ready e1"
        "enc_out e1 = enc_out e @ tlv_header type (length (value_bytes x))" by blast
    from emits_enabled [OF writes [OF ok] e1(2)] obtain e2 where
      e2: "writeValue x e1 = Inr e2" "ready e2" "enc_out e2 = enc_out e1 @ value_bytes x" by blast
    from False first on restore e1 e2 show ?thesis
      by (auto simp: writeNestedTlv_def Let_def nested_tlv_def tlv_def)
  qed
qed

lemma emits_nested: "accepts x \<Longrightarrow> emits (writeNestedTlv type (writeValue x) omit) (nested_tlv type omit (value_bytes x))"
  by (rule emitsI) (simp_all add: nested_disabled nested_enabled)

end

text \<open>The contract of a nested TLV, stated for any value that keeps it.\<close>

lemma emits_writeNestedTlv [intro]:
  assumes "emits w bs"
  shows "emits (writeNestedTlv type w omit) (nested_tlv type omit bs)"
  using tlv_value.emits_nested [of "\<lambda>_. True" "\<lambda>_ :: unit. w" "\<lambda>_. bs"] assms
  by (simp add: tlv_value_def)

text \<open>A new encoder, one write, and \<^verbatim>\<open>finish\<close>.\<close>

definition run_encoder :: "nat \<Rightarrow> (tlv_encoder \<Rightarrow> ndn_error + tlv_encoder) \<Rightarrow> ndn_error + bytes" where
  "run_encoder initialLength w = bindE (w (TlvEncoder_new initialLength)) (\<lambda>e. Inr (TlvEncoder_finish e))"

lemma ready_new [simp]: "ready (TlvEncoder_new n)"
  by (simp add: ready_def TlvEncoder_new_def enc_wf_def)

lemma enc_out_new [simp]: "enc_out (TlvEncoder_new n) = []"
  by (simp add: enc_out_def TlvEncoder_new_def)

lemma TlvEncoder_finish: "ready e \<Longrightarrow> TlvEncoder_finish e = enc_out e"
  by (simp add: TlvEncoder_finish_def enc_out_def ready_def enc_wf_def)

lemma run_encoder:
  assumes "emits w bs"
  shows "run_encoder n w = Inr bs"
  using emits_enabled [OF assms ready_new, of n]
  by (auto simp: run_encoder_def TlvEncoder_finish)

text \<open>Seeking back to the end of what was written continues the output.\<close>

lemma TlvEncoder_seek_ready:
  assumes "ready e"
  shows "TlvEncoder_seek (enc_offset e) (e\<lparr>enc_offset := n, enableOutput := True\<rparr>) = Inr e"
  using assms by (cases e) (simp add: TlvEncoder_seek_def ensureLength_def ready_def enc_wf_def)

end
