(* ===== verification/NameComponent.thy ===== *)
theory NameComponent
  imports TlvEncoder
begin

text \<open>
  \<^verbatim>\<open>Name::Component\<close> (\<^verbatim>\<open>name.hpp\<close>, \<^verbatim>\<open>name.cpp\<close>) and the C functions on \<^verbatim>\<open>ndn_NameComponent\<close>
  (\<^verbatim>\<open>c/name_c.c\<close>) it delegates to: typed components, their numbers with and without a marker, the
  canonical order of NDN names, the successor of a component in that order, and the equality and hash
  used by containers.
\<close>

section \<open>The component\<close>

datatype ndn_NameComponentType =
    ndn_NameComponentType_IMPLICIT_SHA256_DIGEST
  | ndn_NameComponentType_PARAMETERS_SHA256_DIGEST
  | ndn_NameComponentType_GENERIC
  | ndn_NameComponentType_OTHER_CODE

text \<open>The value of the enumerator, \<^verbatim>\<open>(int)type\<close>.\<close>

fun type_int :: "ndn_NameComponentType \<Rightarrow> int" where
  "type_int ndn_NameComponentType_IMPLICIT_SHA256_DIGEST = 1"
| "type_int ndn_NameComponentType_PARAMETERS_SHA256_DIGEST = 2"
| "type_int ndn_NameComponentType_GENERIC = 8"
| "type_int ndn_NameComponentType_OTHER_CODE = 0x7fff"

text \<open>The same record stands for the C++ object and for the C struct, whose value is an \<^verbatim>\<open>ndn_Blob\<close>.\<close>

record component =
  c_type :: ndn_NameComponentType
  c_otherTypeCode :: int
  c_value :: blob

text \<open>The bytes a C function sees through the pointer and length of a blob (length 0 for null).\<close>

definition blob_bytes :: "blob \<Rightarrow> bytes" where
  "blob_bytes b = (case b of None \<Rightarrow> [] | Some v \<Rightarrow> v)"

definition ndn_SHA256_DIGEST_SIZE :: nat where
  "ndn_SHA256_DIGEST_SIZE = 32"

lemma blob_bytes_simps [simp]: "blob_bytes None = []" "blob_bytes (Some v) = v"
  by (simp_all add: blob_bytes_def)

lemma length_blob_bytes [simp]: "length (blob_bytes b) = blob_size b"
  by (cases b) simp_all

section \<open>The C struct\<close>

definition ndn_NameComponent_initialize :: "blob \<Rightarrow> component" where
  "ndn_NameComponent_initialize v =
     \<lparr>c_type = ndn_NameComponentType_GENERIC, c_otherTypeCode = -1, c_value = v\<rparr>"

definition ndn_NameComponent_setType :: "ndn_NameComponentType \<Rightarrow> int \<Rightarrow> component \<Rightarrow> component" where
  "ndn_NameComponent_setType type otherTypeCode self =
     self\<lparr>c_type := type,
          c_otherTypeCode := (if type = ndn_NameComponentType_OTHER_CODE then otherTypeCode else -1)\<rparr>"

text \<open>The accumulating loops over the value, \<^verbatim>\<open>result *= 256; result += value[i]\<close>.\<close>

definition accumulate :: "bytes \<Rightarrow> u64" where
  "accumulate bs = fold (\<lambda>b result. result * 256 + ucast b) bs 0"

definition ndn_NameComponent_toNumber :: "component \<Rightarrow> u64" where
  "ndn_NameComponent_toNumber self = accumulate (blob_bytes (c_value self))"

definition ndn_NameComponent_toNumberWithMarker :: "component \<Rightarrow> byte \<Rightarrow> ndn_error + u64" where
  "ndn_NameComponent_toNumberWithMarker self marker =
     (let v = blob_bytes (c_value self) in
      if length v = 0 \<or> v ! 0 \<noteq> marker
      then Inl NDN_ERROR_Name_component_does_not_begin_with_the_expected_marker
      else Inr (accumulate (drop 1 v)))"

definition ndn_NameComponent_toNumberWithPrefix :: "component \<Rightarrow> bytes \<Rightarrow> ndn_error + u64" where
  "ndn_NameComponent_toNumberWithPrefix self prefix =
     (let v = blob_bytes (c_value self) in
      if length v < length prefix \<or> ndn_memcmp (take (length prefix) v) prefix \<noteq> 0
      then Inl NDN_ERROR_Name_component_does_not_begin_with_the_expected_marker
      else Inr (accumulate (drop (length prefix) v)))"

definition ndn_NameComponent_hasPrefix :: "component \<Rightarrow> bytes \<Rightarrow> bool" where
  "ndn_NameComponent_hasPrefix self prefix \<longleftrightarrow>
     (let v = blob_bytes (c_value self) in
      length v \<ge> length prefix \<and> ndn_memcmp (take (length prefix) v) prefix = 0)"

text \<open>On an incorrect size the struct is left unchanged and the error is returned.\<close>

definition ndn_NameComponent_setImplicitSha256Digest ::
  "blob \<Rightarrow> component \<Rightarrow> ndn_error option \<times> component" where
  "ndn_NameComponent_setImplicitSha256Digest digest self =
     (if blob_size digest \<noteq> ndn_SHA256_DIGEST_SIZE then (Some NDN_ERROR_Incorrect_digest_size, self)
      else (None, (ndn_NameComponent_initialize digest)
                    \<lparr>c_type := ndn_NameComponentType_IMPLICIT_SHA256_DIGEST\<rparr>))"

definition ndn_NameComponent_setParametersSha256Digest ::
  "blob \<Rightarrow> component \<Rightarrow> ndn_error option \<times> component" where
  "ndn_NameComponent_setParametersSha256Digest digest self =
     (if blob_size digest \<noteq> ndn_SHA256_DIGEST_SIZE then (Some NDN_ERROR_Incorrect_digest_size, self)
      else (None, (ndn_NameComponent_initialize digest)
                    \<lparr>c_type := ndn_NameComponentType_PARAMETERS_SHA256_DIGEST\<rparr>))"

definition ndn_NameComponent_equals :: "component \<Rightarrow> component \<Rightarrow> bool" where
  "ndn_NameComponent_equals self other \<longleftrightarrow>
     (let v = blob_bytes (c_value self); w = blob_bytes (c_value other) in
      if c_type self = ndn_NameComponentType_OTHER_CODE
      then length v = length w \<and> ndn_memcmp v w = 0 \<and>
           c_type other = ndn_NameComponentType_OTHER_CODE \<and>
           c_otherTypeCode self = c_otherTypeCode other
      else length v = length w \<and> ndn_memcmp v w = 0 \<and> c_type self = c_type other)"

definition ndn_NameComponent_compare :: "component \<Rightarrow> component \<Rightarrow> int" where
  "ndn_NameComponent_compare self other =
     (let myTypeCode = (if c_type self = ndn_NameComponentType_OTHER_CODE
                        then c_otherTypeCode self else type_int (c_type self));
          otherTypeCode = (if c_type other = ndn_NameComponentType_OTHER_CODE
                           then c_otherTypeCode other else type_int (c_type other));
          v = blob_bytes (c_value self); w = blob_bytes (c_value other) in
      if myTypeCode < otherTypeCode then -1
      else if myTypeCode > otherTypeCode then 1
      else if length v < length w then -1
      else if length v > length w then 1
      else ndn_memcmp v w)"

section \<open>The C++ class\<close>

text \<open>
  The default constructor passes a null pointer to the blob, so the value of a default component is
  the null blob.
\<close>

definition Component_default :: component where
  "Component_default = \<lparr>c_type = ndn_NameComponentType_GENERIC, c_otherTypeCode = -1, c_value = None\<rparr>"

definition Component_setType :: "ndn_NameComponentType \<Rightarrow> int \<Rightarrow> component \<Rightarrow> component result" where
  "Component_setType type otherTypeCode self =
     (let self = self\<lparr>c_type := type\<rparr> in
      if type = ndn_NameComponentType_OTHER_CODE
      then if otherTypeCode = -1
           then Inl (InvalidArgument (str ''To use an other code, call Name::Component(value, ndn_NameComponentType_OTHER_CODE, otherTypeCode)''))
           else if otherTypeCode < -1
           then Inl (InvalidArgument (str ''Name::Component other type code must be non-negative''))
           else Inr (self\<lparr>c_otherTypeCode := otherTypeCode\<rparr>)
      else Inr (self\<lparr>c_otherTypeCode := -1\<rparr>))"

definition Component_new :: "blob \<Rightarrow> ndn_NameComponentType \<Rightarrow> int \<Rightarrow> component result" where
  "Component_new v type otherTypeCode =
     Component_setType type otherTypeCode
       \<lparr>c_type = ndn_NameComponentType_GENERIC, c_otherTypeCode = -1, c_value = v\<rparr>"

text \<open>The constructor with its default arguments (GENERIC, -1).\<close>

definition Component_generic :: "blob \<Rightarrow> component" where
  "Component_generic v = \<lparr>c_type = ndn_NameComponentType_GENERIC, c_otherTypeCode = -1, c_value = v\<rparr>"

text \<open>
  \<^verbatim>\<open>Component::get\<close>.  The result of a set function is ignored; the missing \<^verbatim>\<open>else\<close> before the second
  test makes an implicit digest fall through to the last assignment, which sets the same fields.
\<close>

definition Component_get :: "component \<Rightarrow> component \<Rightarrow> component" where
  "Component_get self componentLite =
     (let lite1 = (if c_type self = ndn_NameComponentType_IMPLICIT_SHA256_DIGEST
                   then snd (ndn_NameComponent_setImplicitSha256Digest (c_value self) componentLite)
                   else componentLite) in
      if c_type self = ndn_NameComponentType_PARAMETERS_SHA256_DIGEST
      then snd (ndn_NameComponent_setParametersSha256Digest (c_value self) lite1)
      else ndn_NameComponent_setType (c_type self) (c_otherTypeCode self)
             (ndn_NameComponent_initialize (c_value self)))"

text \<open>A new \<^verbatim>\<open>NameLite::Component\<close> is initialized with a null value.\<close>

definition Component_lite :: "component \<Rightarrow> component" where
  "Component_lite self = Component_get self (ndn_NameComponent_initialize None)"

definition Component_toNumber :: "component \<Rightarrow> u64" where
  "Component_toNumber self = ndn_NameComponent_toNumber (Component_lite self)"

definition Component_toNumberWithMarker :: "component \<Rightarrow> byte \<Rightarrow> u64 result" where
  "Component_toNumberWithMarker self marker =
     throwC (ndn_NameComponent_toNumberWithMarker (Component_lite self) marker)"

definition Component_toNumberWithPrefix :: "component \<Rightarrow> bytes \<Rightarrow> u64 result" where
  "Component_toNumberWithPrefix self prefix =
     throwC (ndn_NameComponent_toNumberWithPrefix (Component_lite self) prefix)"

definition Component_hasPrefix :: "component \<Rightarrow> bytes \<Rightarrow> bool" where
  "Component_hasPrefix self prefix = ndn_NameComponent_hasPrefix (Component_lite self) prefix"

definition FINAL_SEGMENT_PREFIX :: bytes where
  "FINAL_SEGMENT_PREFIX = [0xC1, 0x2E, 0x4D, 0x2E, 0x46, 0x49, 0x4E, 0x41, 0x4C, 0x00]"

text \<open>\<^verbatim>\<open>isSegment\<close>, \<^verbatim>\<open>isSegmentOffset\<close>, \<^verbatim>\<open>isVersion\<close>, \<^verbatim>\<open>isTimestamp\<close>, \<^verbatim>\<open>isSequenceNumber\<close> differ in the marker.\<close>

definition Component_has_marker :: "byte \<Rightarrow> component \<Rightarrow> bool" where
  "Component_has_marker marker self \<longleftrightarrow>
     blob_size (c_value self) \<ge> 1 \<and> blob_bytes (c_value self) ! 0 = marker \<and>
     c_type self = ndn_NameComponentType_GENERIC"

definition Component_isSegment :: "component \<Rightarrow> bool" where
  "Component_isSegment = Component_has_marker 0x00"

definition Component_isSegmentOffset :: "component \<Rightarrow> bool" where
  "Component_isSegmentOffset = Component_has_marker 0xFB"

definition Component_isVersion :: "component \<Rightarrow> bool" where
  "Component_isVersion = Component_has_marker 0xFD"

definition Component_isTimestamp :: "component \<Rightarrow> bool" where
  "Component_isTimestamp = Component_has_marker 0xFC"

definition Component_isSequenceNumber :: "component \<Rightarrow> bool" where
  "Component_isSequenceNumber = Component_has_marker 0xFE"

definition Component_fromNumber :: "u64 \<Rightarrow> ndn_NameComponentType \<Rightarrow> int \<Rightarrow> component result" where
  "Component_fromNumber number type otherTypeCode =
     (if type = ndn_NameComponentType_OTHER_CODE \<and> otherTypeCode = -1
      then Inl (InvalidArgument (str ''To use an other code, call fromNumber(value, ndn_NameComponentType_OTHER_CODE, otherTypeCode)''))
      else if type = ndn_NameComponentType_OTHER_CODE \<and> otherTypeCode < -1
      then Inl (InvalidArgument (str ''fromNumber: other type code must be non-negative''))
      else bindE (throwC (run_encoder 8 (writeNonNegativeInteger number))) (\<lambda>v.
             Component_new (Some v) type otherTypeCode))"

definition Component_fromNumberWithMarker :: "u64 \<Rightarrow> byte \<Rightarrow> component result" where
  "Component_fromNumberWithMarker number marker =
     bindE (throwC (run_encoder 9 (\<lambda>e.
              bindE (writeNonNegativeInteger (ucast marker AND 0xff) e) (writeNonNegativeInteger number))))
       (\<lambda>v. Inr (Component_generic (Some v)))"

text \<open>\<^verbatim>\<open>fromNumberWithPrefix\<close>: the loop pushes the low byte while the number is not zero.\<close>

function little_endian :: "u64 \<Rightarrow> bytes" where
  "little_endian number =
     (if number = 0 then [] else ucast (number AND 0xff) # little_endian (drop_bit 8 number))"
  by pat_completeness auto
termination
proof (relation "measure unat")
  fix number :: u64
  assume "number \<noteq> 0"
  then have "unat number > 0" by (simp add: unat_gt_0)
  then have "unat number div 256 < unat number" by simp
  then show "(drop_bit 8 number, number) \<in> measure unat"
    by (simp add: unat_div drop_bit_eq_div)
qed simp

declare little_endian.simps [simp del]

definition Component_fromNumberWithPrefix :: "u64 \<Rightarrow> bytes \<Rightarrow> component" where
  "Component_fromNumberWithPrefix number prefix =
     Component_generic (Some (prefix @ rev (little_endian number)))"

definition Component_fromImplicitSha256Digest :: "blob \<Rightarrow> component result" where
  "Component_fromImplicitSha256Digest digest =
     (if blob_size digest \<noteq> ndn_SHA256_DIGEST_SIZE
      then Inl (RuntimeError (str ''Name::Component::fromImplicitSha256Digest: The digest length must be 32 bytes''))
      else Inr ((Component_generic digest)\<lparr>c_type := ndn_NameComponentType_IMPLICIT_SHA256_DIGEST\<rparr>))"

definition Component_fromParametersSha256Digest :: "blob \<Rightarrow> component result" where
  "Component_fromParametersSha256Digest digest =
     (if blob_size digest \<noteq> ndn_SHA256_DIGEST_SIZE
      then Inl (RuntimeError (str ''Name::Component::fromParametersSha256Digest: The digest length must be 32 bytes''))
      else Inr ((Component_generic digest)\<lparr>c_type := ndn_NameComponentType_PARAMETERS_SHA256_DIGEST\<rparr>))"

definition Component_compare :: "component \<Rightarrow> component \<Rightarrow> int" where
  "Component_compare self other =
     (let myTypeCode = (if c_type self = ndn_NameComponentType_OTHER_CODE
                        then c_otherTypeCode self else type_int (c_type self));
          otherTypeCode = (if c_type other = ndn_NameComponentType_OTHER_CODE
                           then c_otherTypeCode other else type_int (c_type other)) in
      if myTypeCode < otherTypeCode then -1
      else if myTypeCode > otherTypeCode then 1
      else if blob_size (c_value self) < blob_size (c_value other) then -1
      else if blob_size (c_value self) > blob_size (c_value other) then 1
      else ndn_memcmp (blob_bytes (c_value self)) (blob_bytes (c_value other)))"

text \<open>
  The loop of \<^verbatim>\<open>getSuccessor\<close> runs from the last byte to the first, adding one while there is a
  carry; it returns the carry and the bytes.
\<close>

fun successor_loop :: "bytes \<Rightarrow> bool \<times> bytes" where
  "successor_loop [] = (True, [])"
| "successor_loop (b # bs) =
     (case successor_loop bs of (carry, rs) \<Rightarrow>
        if carry then (b + 1 = 0, (b + 1) # rs) else (False, b # rs))"

definition Component_getSuccessor :: "component \<Rightarrow> component result" where
  "Component_getSuccessor self =
     (let (carry, rs) = successor_loop (blob_bytes (c_value self));
          value = (if carry then rs @ [0] else rs) in
      Component_new (Some value) (c_type self) (c_otherTypeCode self))"

definition Component_equals :: "component \<Rightarrow> component \<Rightarrow> bool" where
  "Component_equals self other \<longleftrightarrow>
     (if c_type self = ndn_NameComponentType_OTHER_CODE
      then blob_equals (c_value self) (c_value other) \<and>
           c_type other = ndn_NameComponentType_OTHER_CODE \<and>
           c_otherTypeCode self = c_otherTypeCode other
      else blob_equals (c_value self) (c_value other) \<and> c_type self = c_type other)"

text \<open>The int product is converted to \<^verbatim>\<open>size_t\<close> by the addition.\<close>

definition Component_hash :: "component \<Rightarrow> size_t" where
  "Component_hash self =
     word_of_int (37 * (if c_type self = ndn_NameComponentType_OTHER_CODE
                        then c_otherTypeCode self else type_int (c_type self)))
     + blob_hash (c_value self)"

section \<open>Numbers: what is written is read back\<close>

lemma accumulate_from: "fold (\<lambda>b r. r * 256 + ucast b) bs (a :: u64) = a * 256 ^ length bs + accumulate bs"
proof (induction bs rule: rev_induct)
  case (snoc b bs)
  then show ?case by (simp add: accumulate_def algebra_simps)
qed (simp add: accumulate_def)

lemma accumulate_simps [simp]:
  "accumulate [] = 0"
  "accumulate (b # bs) = ucast b * 256 ^ length bs + accumulate bs"
  "accumulate (xs @ ys) = accumulate xs * 256 ^ length ys + accumulate ys"
  using accumulate_from [of bs "ucast b"] accumulate_from [of ys "accumulate xs"]
  by (simp_all add: accumulate_def)

lemma be_bytes_Suc: "be_bytes (Suc k) v = ucast (drop_bit (8 * k) v) # be_bytes k v"
  by (simp add: be_bytes_def)

lemma be_bytes_0 [simp]: "be_bytes 0 v = []"
  by (simp add: be_bytes_def)

lemma ucast_byte_ucast: "(ucast (ucast (v :: u64) :: byte) :: u64) = take_bit 8 v"
  by (simp add: unsigned_ucast_eq)

lemma accumulate_be_bytes: "accumulate (be_bytes k v) = take_bit (8 * k) v"
proof (induction k)
  case (Suc k)
  let ?a = "take_bit (8 * Suc k) v"
  have "?a = push_bit (8 * k) (drop_bit (8 * k) ?a) + take_bit (8 * k) ?a"
    by (simp only: bits_ident)
  also have "drop_bit (8 * k) ?a = take_bit 8 (drop_bit (8 * k) v)"
    by (simp add: drop_bit_take_bit)
  also have "take_bit (8 * k) ?a = take_bit (8 * k) v" by simp
  also have "push_bit (8 * k) w = w * 256 ^ k" for w :: u64
    by (simp add: push_bit_eq_mult power_mult)
  finally show ?case using Suc by (simp add: be_bytes_Suc ucast_byte_ucast)
qed simp

lemma take_bit_id: "unat v < 2 ^ n \<Longrightarrow> take_bit n (v :: u64) = v"
  by (simp only: word_unat_eq_iff unsigned_take_bit_eq take_bit_nat_eq_self)

lemma accumulate_nonneg_integer [simp]: "accumulate (nonneg_integer v) = v"
proof -
  have m: "unat v < 2 ^ (8 * k) \<Longrightarrow> accumulate (be_bytes k v) = v" for k
    by (simp add: accumulate_be_bytes take_bit_id)
  have "unat v < 2 ^ 64" using unsigned_less [of v, where ?'a = nat] by simp
  moreover have "unat v \<le> 0xff \<Longrightarrow> (ucast (ucast v :: byte) :: u64) = v"
    using take_bit_id [of v 8] by (simp add: ucast_byte_ucast)
  ultimately show ?thesis
    using m [of 2] m [of 4] m [of 8] by (simp add: nonneg_integer_def word_le_nat_alt)
qed

lemma accumulate_little_endian: "accumulate (rev (little_endian v)) = v"
proof (induction v rule: little_endian.induct)
  case (1 v)
  show ?case
  proof (cases "v = 0")
    case True then show ?thesis by (subst little_endian.simps) simp
  next
    case False
    have "drop_bit 8 v * 256 + take_bit 8 v = v"
      using bits_ident [of 8 v] by (simp add: push_bit_eq_mult)
    moreover have "v AND 0xff = take_bit 8 v" by (simp add: take_bit_eq_mask mask_eq_exp_minus_1)
    ultimately show ?thesis
      using 1 False by (subst little_endian.simps) (simp add: ucast_byte_ucast)
  qed
qed

lemma Component_lite_value:
  "c_type c \<noteq> ndn_NameComponentType_PARAMETERS_SHA256_DIGEST \<Longrightarrow> c_value (Component_lite c) = c_value c"
  by (auto simp: Component_lite_def Component_get_def ndn_NameComponent_setType_def
                 ndn_NameComponent_initialize_def Let_def)

lemma Component_new_ok:
  "Component_new v type other = Inr c \<Longrightarrow>
   c_value c = v \<and> c_type c = type \<and>
   c_otherTypeCode c = (if type = ndn_NameComponentType_OTHER_CODE then other else -1)"
  by (auto simp: Component_new_def Component_setType_def Let_def split: if_splits)

lemma Component_fromNumber_ok:
  assumes "Component_fromNumber n type other = Inr c"
  shows "c_value c = Some (nonneg_integer n)" "c_type c = type"
  using assms run_encoder [OF emits_writeNonNegativeInteger, of 8 n]
  by (auto simp: Component_fromNumber_def dest: Component_new_ok split: if_splits)

lemma nonneg_integer_byte: "nonneg_integer (ucast (b :: byte) AND 0xff) = [b]"
proof -
  have u: "unat (ucast b :: u64) = unat b"
    by (simp add: unsigned_ucast_eq take_bit_nat_eq_self less_trans [OF unat_byte_less])
  then have "(ucast b :: u64) \<le> 0xff"
    using unat_byte_less [of b] by (simp add: word_le_nat_alt del: unat_byte_less)
  moreover have "(ucast b AND 0xff :: u64) = ucast b"
    using u take_bit_id [of "ucast b" 8] by (simp add: take_bit_eq_mask mask_eq_exp_minus_1)
  moreover have "(ucast (ucast b :: u64) :: byte) = b"
    by (rule ucast_up_ucast_id) (simp add: is_up)
  ultimately show ?thesis by (simp add: nonneg_integer_def)
qed

lemma Component_fromNumberWithMarker:
  "Component_fromNumberWithMarker n m = Inr (Component_generic (Some (m # nonneg_integer n)))"
  using run_encoder [OF emits_seq [OF emits_writeNonNegativeInteger emits_writeNonNegativeInteger],
                     of 9 "ucast m AND 0xff" n]
  by (simp add: Component_fromNumberWithMarker_def nonneg_integer_byte)

section \<open>Three-way comparison\<close>

text \<open>
  The contract of a \<^verbatim>\<open>compare\<close> method: the sign of a total preorder.  The relational operators of the
  classes are defined from it.
\<close>

locale three_way =
  fixes cmp :: "'a \<Rightarrow> 'a \<Rightarrow> int"
  assumes cmp_swap: "cmp b a = - cmp a b"
    and cmp_trans: "cmp a b \<le> 0 \<Longrightarrow> cmp b c \<le> 0 \<Longrightarrow> cmp a c \<le> 0"
begin

lemma cmp_self [simp]: "cmp a a = 0"
  using cmp_swap [of a a] by simp

lemma le_total: "cmp a b \<le> 0 \<or> cmp b a \<le> 0"
  using cmp_swap [of a b] by linarith

lemma less_iff_not_ge: "cmp a b < 0 \<longleftrightarrow> \<not> cmp b a \<le> 0"
  using cmp_swap [of a b] by linarith

lemma less_le_trans: "cmp a b < 0 \<Longrightarrow> cmp b c \<le> 0 \<Longrightarrow> cmp a c < 0"
  using cmp_trans [of b c a] cmp_swap [of a b] cmp_swap [of a c] by linarith

lemma le_less_trans: "cmp a b \<le> 0 \<Longrightarrow> cmp b c < 0 \<Longrightarrow> cmp a c < 0"
  using cmp_trans [of c a b] cmp_swap [of c b] cmp_swap [of a c] by linarith

lemma less_trans: "cmp a b < 0 \<Longrightarrow> cmp b c < 0 \<Longrightarrow> cmp a c < 0"
  using less_le_trans [of a b c] by linarith

lemma zero_trans: "cmp a b = 0 \<Longrightarrow> cmp b c = 0 \<Longrightarrow> cmp a c = 0"
  using cmp_trans [of a b c] cmp_trans [of c b a] cmp_swap [of a b] cmp_swap [of b c] cmp_swap [of a c]
  by linarith

lemma zero_cong_left: "cmp a b = 0 \<Longrightarrow> cmp a c \<le> 0 \<longleftrightarrow> cmp b c \<le> 0"
  using cmp_trans [of a b c] cmp_trans [of b a c] cmp_swap [of a b] by auto

end

text \<open>The type code and the byte string that decide the order.\<close>

definition typeCode :: "component \<Rightarrow> int" where
  "typeCode c = (if c_type c = ndn_NameComponentType_OTHER_CODE then c_otherTypeCode c
                 else type_int (c_type c))"

lemma Component_compare:
  "Component_compare a b =
     (if typeCode a < typeCode b then -1 else if typeCode a > typeCode b then 1
      else if blob_size (c_value a) < blob_size (c_value b) then -1
      else if blob_size (c_value a) > blob_size (c_value b) then 1
      else ndn_memcmp (blob_bytes (c_value a)) (blob_bytes (c_value b)))"
  by (simp add: Component_compare_def typeCode_def Let_def)

lemma memcmp_le_trans:
  "length xs = length ys \<Longrightarrow> length ys = length zs \<Longrightarrow>
   ndn_memcmp xs ys \<le> 0 \<Longrightarrow> ndn_memcmp ys zs \<le> 0 \<Longrightarrow> ndn_memcmp xs zs \<le> 0"
  using ndn_memcmp_trans [of xs ys zs] ndn_memcmp_eq_0 [of xs ys] ndn_memcmp_eq_0 [of ys zs] by force

lemma Component_compare_le:
  "Component_compare a b \<le> 0 \<longleftrightarrow>
     typeCode a < typeCode b \<or> typeCode a = typeCode b \<and>
     (blob_size (c_value a) < blob_size (c_value b) \<or> blob_size (c_value a) = blob_size (c_value b) \<and>
      ndn_memcmp (blob_bytes (c_value a)) (blob_bytes (c_value b)) \<le> 0)"
  by (auto simp: Component_compare)

lemma lex3_trans:
  fixes t1 t2 t3 :: int and n1 n2 n3 :: nat
  assumes "n1 = n2 \<Longrightarrow> n2 = n3 \<Longrightarrow> P12 \<Longrightarrow> P23 \<Longrightarrow> P13"
    and "t1 < t2 \<or> t1 = t2 \<and> (n1 < n2 \<or> n1 = n2 \<and> P12)"
    and "t2 < t3 \<or> t2 = t3 \<and> (n2 < n3 \<or> n2 = n3 \<and> P23)"
  shows "t1 < t3 \<or> t1 = t3 \<and> (n1 < n3 \<or> n1 = n3 \<and> P13)"
  using assms(2,3) by (elim disjE conjE) (auto intro: assms(1))

interpretation component_order: three_way Component_compare
proof
  fix a b c :: component
  show "Component_compare b a = - Component_compare a b"
    using ndn_memcmp_antisym [of "blob_bytes (c_value a)" "blob_bytes (c_value b)"]
    by (simp add: Component_compare)
  let ?v = "\<lambda>c. blob_bytes (c_value c)"
  assume ab: "Component_compare a b \<le> 0" and bc: "Component_compare b c \<le> 0"
  have "blob_size (c_value a) = blob_size (c_value b) \<Longrightarrow> blob_size (c_value b) = blob_size (c_value c) \<Longrightarrow>
        ndn_memcmp (?v a) (?v b) \<le> 0 \<Longrightarrow> ndn_memcmp (?v b) (?v c) \<le> 0 \<Longrightarrow> ndn_memcmp (?v a) (?v c) \<le> 0"
    by (rule memcmp_le_trans [of "?v a" "?v b"]) (simp_all only: length_blob_bytes)
  note lex3_trans [OF this ab [unfolded Component_compare_le] bc [unfolded Component_compare_le]]
  then show "Component_compare a c \<le> 0" unfolding Component_compare_le .
qed

lemma Component_compare_eq_0:
  "Component_compare a b = 0 \<longleftrightarrow>
   typeCode a = typeCode b \<and> blob_bytes (c_value a) = blob_bytes (c_value b)"
proof -
  have "blob_bytes (c_value a) = blob_bytes (c_value b) \<Longrightarrow> blob_size (c_value a) = blob_size (c_value b)"
    by (metis length_blob_bytes)
  then show ?thesis by (auto simp: Component_compare ndn_memcmp_eq_0)
qed

text \<open>
  A well-formed component: it has a value, its code is set exactly for \<^verbatim>\<open>OTHER_CODE\<close> and is then none of
  the recognized codes.  For these, comparing to 0, \<^verbatim>\<open>equals\<close> and being the same component agree.
\<close>

definition component_wf :: "component \<Rightarrow> bool" where
  "component_wf c \<longleftrightarrow> c_value c \<noteq> None \<and>
     (if c_type c = ndn_NameComponentType_OTHER_CODE
      then 0 \<le> c_otherTypeCode c \<and> c_otherTypeCode c \<notin> {1, 2, 8} else c_otherTypeCode c = -1)"

lemma typeCode_inj:
  "component_wf a \<Longrightarrow> component_wf b \<Longrightarrow> typeCode a = typeCode b \<Longrightarrow>
   c_type a = c_type b \<and> c_otherTypeCode a = c_otherTypeCode b"
  by (cases "c_type a"; cases "c_type b") (auto simp: typeCode_def component_wf_def)

lemma Component_equals_wf:
  "component_wf a \<Longrightarrow> component_wf b \<Longrightarrow> Component_equals a b \<longleftrightarrow> a = b"
  by (cases a; cases b) (auto simp: Component_equals_def component_wf_def split: if_splits)

lemma Component_compare_wf:
  assumes "component_wf a" and "component_wf b"
  shows "Component_compare a b = 0 \<longleftrightarrow> a = b"
proof
  assume "Component_compare a b = 0"
  then have t: "typeCode a = typeCode b" and v: "blob_bytes (c_value a) = blob_bytes (c_value b)"
    by (simp_all add: Component_compare_eq_0)
  have "c_value a = c_value b" using v assms by (auto simp: component_wf_def)
  with typeCode_inj [OF assms t] show "a = b" by (intro component.equality) auto
qed simp

section \<open>The successor\<close>

text \<open>The value of a byte string as a big-endian number, which decides the order of equal lengths.\<close>

fun be_value :: "bytes \<Rightarrow> nat" where
  "be_value [] = 0"
| "be_value (b # bs) = unat b * 256 ^ length bs + be_value bs"

lemma be_value_less: "be_value bs < 256 ^ length bs"
proof (induction bs)
  case (Cons b bs)
  have "unat b * 256 ^ length bs + be_value bs < (unat b + 1) * 256 ^ length bs"
    using Cons by (simp add: algebra_simps)
  also have "\<dots> \<le> 256 * 256 ^ length bs"
    using unat_byte_less [of b] by (intro mult_le_mono1) linarith
  finally show ?case by simp
qed simp

lemma be_value_Cons_less:
  assumes "length xs = length ys" and "unat x < unat y"
  shows "be_value (x # xs) < be_value (y # ys)"
proof -
  have "be_value (x # xs) < (unat x + 1) * 256 ^ length xs"
    using be_value_less [of xs] by (simp add: algebra_simps)
  also have "\<dots> \<le> unat y * 256 ^ length xs"
    using assms(2) by (intro mult_le_mono1) simp
  finally show ?thesis using assms(1) by simp
qed

lemma ndn_memcmp_be_value:
  "length xs = length ys \<Longrightarrow>
   ndn_memcmp xs ys = (if be_value xs < be_value ys then -1 else if be_value xs > be_value ys then 1 else 0)"
proof (induction xs ys rule: ndn_memcmp.induct)
  case (1 x xs y ys)
  then have l: "length xs = length ys" by simp
  consider "unat x < unat y" | "unat y < unat x" | "x = y"
    by (metis linorder_neqE_nat word_unat_eq_iff)
  then show ?case
  proof cases
    case 1
    with be_value_Cons_less [OF l 1] show ?thesis by (simp add: word_less_nat_alt del: be_value.simps)
  next
    case 2
    with be_value_Cons_less [OF l [symmetric] 2] show ?thesis
      by (simp add: word_less_nat_alt del: be_value.simps)
  next
    case 3
    with 1 l show ?thesis by simp
  qed
qed auto

lemma unat_byte_Suc: "(b :: byte) + 1 \<noteq> 0 \<Longrightarrow> unat (b + 1) = unat b + 1"
  using unatSuc [of b] by (simp add: add.commute)

lemma byte_Suc_0: "(b :: byte) + 1 = 0 \<Longrightarrow> unat b = 255"
proof -
  assume "b + 1 = 0"
  then have "b = - 1" by (simp add: eq_neg_iff_add_eq_0)
  then show ?thesis by (simp add: unsigned_minus_1_eq_mask mask_eq_exp_minus_1)
qed

lemma successor_loop_length: "successor_loop bs = (carry, rs) \<Longrightarrow> length rs = length bs"
  by (induction bs arbitrary: carry rs) (auto split: prod.splits if_splits)

lemma successor_loop_value:
  "successor_loop bs = (carry, rs) \<Longrightarrow>
   if carry then be_value bs + 1 = 256 ^ length bs \<and> be_value rs = 0 else be_value rs = be_value bs + 1"
proof (induction bs arbitrary: carry rs)
  case (Cons b bs)
  obtain c0 r0 where r0: "successor_loop bs = (c0, r0)" by fastforce
  have len: "length r0 = length bs" using r0 by (rule successor_loop_length)
  from Cons.IH [OF r0] Cons.prems r0 len show ?case
    by (cases "b + 1 = 0") (auto simp: unat_byte_Suc byte_Suc_0 add_mult_distrib split: if_splits)
qed simp

lemma Component_getSuccessor_ok:
  assumes "Component_getSuccessor x = Inr s"
  shows "typeCode s = typeCode x"
    and "c_type s = c_type x"
    and "\<exists>carry rs. successor_loop (blob_bytes (c_value x)) = (carry, rs) \<and>
                   c_value s = Some (if carry then rs @ [0] else rs)"
proof -
  obtain carry rs where r: "successor_loop (blob_bytes (c_value x)) = (carry, rs)" by fastforce
  with assms have "Component_new (Some (if carry then rs @ [0] else rs)) (c_type x) (c_otherTypeCode x) = Inr s"
    by (simp add: Component_getSuccessor_def)
  from Component_new_ok [OF this] r
  show "typeCode s = typeCode x" "c_type s = c_type x"
    "\<exists>carry rs. successor_loop (blob_bytes (c_value x)) = (carry, rs) \<and>
                c_value s = Some (if carry then rs @ [0] else rs)"
    by (auto simp: typeCode_def)
qed

lemma Component_getSuccessor_total:
  assumes "component_wf x"
  shows "\<exists>s. Component_getSuccessor x = Inr s \<and> component_wf s"
proof -
  obtain carry rs where r: "successor_loop (blob_bytes (c_value x)) = (carry, rs)" by fastforce
  have "\<exists>s. Component_new (Some v) (c_type x) (c_otherTypeCode x) = Inr s \<and> component_wf s" for v
    using assms by (cases "c_type x")
      (simp_all add: Component_new_def Component_setType_def component_wf_def Let_def)
  with r show ?thesis by (simp add: Component_getSuccessor_def)
qed

text \<open>Among equal type codes the order is by length, then by number.\<close>

lemma Component_compare_be_value:
  "typeCode a = typeCode b \<Longrightarrow>
   Component_compare a b < 0 \<longleftrightarrow>
     blob_size (c_value a) < blob_size (c_value b) \<or>
     blob_size (c_value a) = blob_size (c_value b) \<and>
     be_value (blob_bytes (c_value a)) < be_value (blob_bytes (c_value b))"
  using ndn_memcmp_be_value [of "blob_bytes (c_value a)" "blob_bytes (c_value b)"]
  by (auto simp: Component_compare)

lemma successor_greater:
  assumes "Component_getSuccessor x = Inr s"
  shows "Component_compare x s < 0"
proof -
  from Component_getSuccessor_ok(3) [OF assms] obtain carry rs where
    r: "successor_loop (blob_bytes (c_value x)) = (carry, rs)"
    and v: "c_value s = Some (if carry then rs @ [0] else rs)" by blast
  from successor_loop_value [OF r] successor_loop_length [OF r] v show ?thesis
    by (auto simp: Component_compare_be_value Component_getSuccessor_ok(1) [OF assms] split: if_splits)
qed

lemma successor_least:
  assumes s: "Component_getSuccessor x = Inr s" and y: "Component_compare x y < 0"
  shows "Component_compare s y \<le> 0"
proof (cases "typeCode x = typeCode y")
  case False
  then have "typeCode s < typeCode y"
    using y by (auto simp: Component_compare Component_getSuccessor_ok(1) [OF s] split: if_splits)
  then show ?thesis by (simp add: Component_compare)
next
  case True
  from Component_getSuccessor_ok(3) [OF s] obtain carry rs where
    r: "successor_loop (blob_bytes (c_value x)) = (carry, rs)"
    and v: "c_value s = Some (if carry then rs @ [0] else rs)" by blast
  note val = successor_loop_value [OF r] and len = successor_loop_length [OF r]
  have less: "be_value (blob_bytes (c_value y)) < 256 ^ blob_size (c_value y)"
    using be_value_less [of "blob_bytes (c_value y)"] by simp
  have zero: "be_value (rs @ [0]) = be_value rs * 256" for rs :: bytes
    by (induction rs) (simp_all add: algebra_simps)
  from y have xy: "blob_size (c_value x) < blob_size (c_value y) \<or>
      blob_size (c_value x) = blob_size (c_value y) \<and>
      be_value (blob_bytes (c_value x)) < be_value (blob_bytes (c_value y))"
    by (simp only: Component_compare_be_value [OF True])
  have eq: "Component_compare y s < 0 \<longleftrightarrow> blob_size (c_value y) < blob_size (c_value s) \<or>
      blob_size (c_value y) = blob_size (c_value s) \<and>
      be_value (blob_bytes (c_value y)) < be_value (blob_bytes (c_value s))"
    using True Component_getSuccessor_ok(1) [OF s] by (simp only: Component_compare_be_value)
  have "\<not> Component_compare y s < 0"
  proof (cases carry)
    case True
    have "blob_size (c_value s) = blob_size (c_value x) + 1" "be_value (blob_bytes (c_value s)) = 0"
      using v len True val zero by simp_all
    moreover have "be_value (blob_bytes (c_value x)) + 1 = 256 ^ blob_size (c_value x)"
      using val True by simp
    ultimately show ?thesis using xy less eq by (metis Suc_eq_plus1 leD less_Suc_eq not_less_zero Suc_leI)
  next
    case False
    have "blob_size (c_value s) = blob_size (c_value x)"
      "be_value (blob_bytes (c_value s)) = be_value (blob_bytes (c_value x)) + 1"
      using v len False val by simp_all
    then show ?thesis using xy eq by linarith
  qed
  then show ?thesis using component_order.less_iff_not_ge [of y s] by simp
qed

section \<open>Properties\<close>

text \<open>
  The numbers of naming conventions: a component made with a marker reads back as its number with
  that marker, fails with an error for any other marker, and a component made with a prefix reads back
  with that prefix, for every 64-bit number.
\<close>

theorem component_number_roundtrip:
  "bindE (Component_fromNumberWithMarker n m) (\<lambda>c. Component_toNumberWithMarker c m) = Inr n \<and>
   bindE (Component_fromNumberWithMarker n m) (\<lambda>c. Component_toNumberWithMarker c m') =
     (if m' = m then Inr n
      else Inl (RuntimeError (ndn_getErrorString NDN_ERROR_Name_component_does_not_begin_with_the_expected_marker))) \<and>
   Component_toNumberWithPrefix (Component_fromNumberWithPrefix n p) p = Inr n"
proof -
  have v: "c_value (Component_lite (Component_generic v)) = v" for v
    by (subst Component_lite_value) (simp_all add: Component_generic_def)
  show ?thesis
    by (simp add: Component_fromNumberWithMarker Component_toNumberWithMarker_def
          ndn_NameComponent_toNumberWithMarker_def Component_toNumberWithPrefix_def
          ndn_NameComponent_toNumberWithPrefix_def Component_fromNumberWithPrefix_def v Let_def
          accumulate_little_endian)
qed

end
