(* ===== verification/NameUri.thy ===== *)
theory NameUri
  imports NameComponent
begin

text \<open>
  \<^verbatim>\<open>Name\<close> as a container of components and its URI form (\<^verbatim>\<open>name.cpp\<close>): the parser \<^verbatim>\<open>Name::set\<close>,
  the printer \<^verbatim>\<open>Name::toUri\<close> over one output stream shared by all components, and percent escaping.
  The main lemma is that parsing a printed name gives back its components.
\<close>

section \<open>Names\<close>

record name =
  n_components :: "component list"
  n_changeCount :: u64
  n_hashCode :: size_t
  n_hashCodeChangeCount :: u64

definition Name_of :: "component list \<Rightarrow> name" where
  "Name_of cs = \<lparr>n_components = cs, n_changeCount = 0, n_hashCode = 0, n_hashCodeChangeCount = 0\<rparr>"

definition Name_empty :: name where
  "Name_empty = Name_of []"

definition Name_append :: "component \<Rightarrow> name \<Rightarrow> name" where
  "Name_append c self =
     self\<lparr>n_components := n_components self @ [c], n_changeCount := n_changeCount self + 1\<rparr>"

definition Name_clear :: "name \<Rightarrow> name" where
  "Name_clear self = self\<lparr>n_components := [], n_changeCount := n_changeCount self + 1\<rparr>"

lemma n_components_simps [simp]:
  "n_components (Name_of cs) = cs" "n_components Name_empty = []"
  "n_components (Name_append c n) = n_components n @ [c]" "n_components (Name_clear n) = []"
  by (simp_all add: Name_of_def Name_empty_def Name_append_def Name_clear_def)

section \<open>Percent escaping\<close>

text \<open>\<^verbatim>\<open>unescape\<close>: 0x25 is the percent sign; a bad escape of three characters is kept.\<close>

fun unescape :: "bytes \<Rightarrow> bytes" where
  "unescape (a # b # c # rest) =
     (if a = 0x25
      then let hi = fromHexChar b; lo = fromHexChar c in
           (if hi < 0 \<or> lo < 0 then [a, b, c] else [word_of_int (16 * hi + lo)]) @ unescape rest
      else a # unescape (b # c # rest))"
| "unescape (a # rest) = a # unescape rest"
| "unescape [] = []"

text \<open>
  \<^verbatim>\<open>Name::fromEscapedString\<close> on the characters between the offsets: 0x2E is the period.  Zero, one or
  two periods are illegal (the null blob), more periods lose three.
\<close>

definition Name_fromEscapedString :: "bytes \<Rightarrow> blob" where
  "Name_fromEscapedString s =
     (let value = unescape (ndn_trim s) in
      if list_all (\<lambda>c. c = 0x2E) value
      then if length value \<le> 2 then None else Some (drop 3 value)
      else Some value)"

definition is_unreserved :: "byte \<Rightarrow> bool" where
  "is_unreserved x \<longleftrightarrow>
     (x \<ge> 0x30 \<and> x \<le> 0x39) \<or> (x \<ge> 0x41 \<and> x \<le> 0x5a) \<or> (x \<ge> 0x61 \<and> x \<le> 0x7a) \<or>
     x = 0x2b \<or> x = 0x2d \<or> x = 0x2e \<or> x = 0x5f"

definition put_escaped_byte :: "byte \<Rightarrow> ostringstream \<Rightarrow> ostringstream" where
  "put_escaped_byte x os =
     (if is_unreserved x then put_str [x] os
      else let os = put_str [0x25] os;
               os = (if x < 16 then put_str [0x30] os else os)
           in put_unsigned (unat x) os)"

definition Name_toEscapedString_os :: "bytes \<Rightarrow> ostringstream \<Rightarrow> ostringstream" where
  "Name_toEscapedString_os v os =
     (if list_all (\<lambda>c. c = 0x2e) v
      then put_str (replicate (length v) 0x2e) (put_str [0x2e, 0x2e, 0x2e] os)
      else let saveFlags = os_flags os;
               os = set_flags FmtHexUpper os;
               os = fold put_escaped_byte v os
           in set_flags saveFlags os)"

definition Name_toEscapedString :: "bytes \<Rightarrow> bytes" where
  "Name_toEscapedString v = os_str (Name_toEscapedString_os v new_ostringstream)"

text \<open>
  \<^verbatim>\<open>Component::toEscapedString(ostringstream&)\<close>.  The value of a component that is not a digest is
  dereferenced (\<^verbatim>\<open>*value_\<close>), which needs a blob that is not null.
\<close>

definition Component_toEscapedString_os :: "component \<Rightarrow> ostringstream \<Rightarrow> ostringstream" where
  "Component_toEscapedString_os self os =
     (if c_type self = ndn_NameComponentType_IMPLICIT_SHA256_DIGEST
      then let os = put_str (str ''sha256digest='') os in
           (case c_value self of None \<Rightarrow> os | Some v \<Rightarrow> toHex_os v os)
      else if c_type self = ndn_NameComponentType_PARAMETERS_SHA256_DIGEST
      then let os = put_str (str ''params-sha256='') os in
           (case c_value self of None \<Rightarrow> os | Some v \<Rightarrow> toHex_os v os)
      else let os = (if c_type self \<noteq> ndn_NameComponentType_GENERIC
                     then put_str [0x3D] (put_int
                            (if c_type self = ndn_NameComponentType_OTHER_CODE
                             then c_otherTypeCode self else type_int (c_type self)) os)
                     else os)
           in Name_toEscapedString_os (the (c_value self)) os)"

definition Component_toEscapedString :: "component \<Rightarrow> bytes" where
  "Component_toEscapedString self = os_str (Component_toEscapedString_os self new_ostringstream)"

definition Name_toUri :: "bool \<Rightarrow> name \<Rightarrow> bytes" where
  "Name_toUri includeScheme self =
     (if length (n_components self) = 0 then if includeScheme then str ''ndn:/'' else str ''/''
      else let os = (if includeScheme then put_str (str ''ndn:'') new_ostringstream
                     else new_ostringstream)
           in os_str (fold (\<lambda>c os. Component_toEscapedString_os c (put_str [0x2F] os))
                        (n_components self) os))"

section \<open>Parsing a URI\<close>

definition sha256digestPrefix :: bytes where
  "sha256digestPrefix = str ''sha256digest=''"

definition paramsSha256Prefix :: bytes where
  "paramsSha256Prefix = str ''params-sha256=''"

text \<open>
  The type code before the equals sign 0x3D of a component: the type and the other type code.
  The literal 0 is accepted; any other text that \<^verbatim>\<open>atoi\<close> reads as 0 is an error.
\<close>

definition parse_typeCode :: "bytes \<Rightarrow> bytes \<Rightarrow> (ndn_NameComponentType \<times> int) result" where
  "parse_typeCode uri typeString =
     bindE (if typeString = str ''0'' then Inr 0
            else let code = atoi typeString in
                 if code = 0
                 then Inl (RuntimeError (str ''Can't parse decimal Name Component type: '' @ typeString
                                         @ str '' in URI '' @ uri))
                 else Inr code)
       (\<lambda>otherTypeCode. Inr
          (if otherTypeCode = type_int ndn_NameComponentType_GENERIC
           then ndn_NameComponentType_GENERIC
           else if otherTypeCode = type_int ndn_NameComponentType_IMPLICIT_SHA256_DIGEST
           then ndn_NameComponentType_IMPLICIT_SHA256_DIGEST
           else if otherTypeCode = type_int ndn_NameComponentType_PARAMETERS_SHA256_DIGEST
           then ndn_NameComponentType_PARAMETERS_SHA256_DIGEST
           else ndn_NameComponentType_OTHER_CODE, otherTypeCode))"

text \<open>
  One turn of the loop of \<^verbatim>\<open>Name::set\<close>: \<^verbatim>\<open>rest\<close> is the URI from \<^verbatim>\<open>iComponentStart\<close>, the component ends
  at the next slash (0x2F) or at the end of the URI.
\<close>

definition parse_component :: "bytes \<Rightarrow> bytes \<Rightarrow> component result" where
  "parse_component uri rest =
     (let comp = takeWhile (\<lambda>c. c \<noteq> 0x2F) rest in
      if take (length sha256digestPrefix) rest = sha256digestPrefix
      then Component_fromImplicitSha256Digest (fromHex (drop (length sha256digestPrefix) comp))
      else if take (length paramsSha256Prefix) rest = paramsSha256Prefix
      then Component_fromParametersSha256Digest (fromHex (drop (length paramsSha256Prefix) comp))
      else if 0x3D \<in> set comp
      then bindE (parse_typeCode uri (takeWhile (\<lambda>c. c \<noteq> 0x3D) comp)) (\<lambda>(type, otherTypeCode).
             Component_new (Name_fromEscapedString (tl (dropWhile (\<lambda>c. c \<noteq> 0x3D) comp))) type otherTypeCode)
      else Component_new (Name_fromEscapedString comp) ndn_NameComponentType_GENERIC (-1))"

text \<open>The loop.  An exception leaves the components appended so far.\<close>

function Name_set_loop :: "bytes \<Rightarrow> bytes \<Rightarrow> name \<Rightarrow> exn option \<times> name" where
  "Name_set_loop uri rest self =
     (if rest = [] then (None, self)
      else case parse_component uri rest of
             Inl e \<Rightarrow> (Some e, self)
           | Inr component \<Rightarrow>
               Name_set_loop uri (drop (length (takeWhile (\<lambda>c. c \<noteq> 0x2F) rest) + 1) rest)
                 (if c_value component \<noteq> None then Name_append component self else self))"
  by pat_completeness auto
termination by (relation "measure (\<lambda>(_, rest, _). length rest)") auto

declare Name_set_loop.simps [simp del]

text \<open>The part of the URI before the components: scheme (0x3A is the colon) and authority.\<close>

definition strip_scheme :: "bytes \<Rightarrow> bytes" where
  "strip_scheme uri =
     (if 0x3A \<in> set uri \<and> 0x2F \<notin> set (takeWhile (\<lambda>c. c \<noteq> 0x3A) uri)
      then ndn_trim (tl (dropWhile (\<lambda>c. c \<noteq> 0x3A) uri)) else uri)"

definition strip_authority :: "bytes \<Rightarrow> bytes option" where
  "strip_authority uri =
     (if uri \<noteq> [] \<and> uri ! 0 = 0x2F
      then if length uri \<ge> 2 \<and> uri ! 1 = 0x2F
           then if 0x2F \<notin> set (drop 2 uri) then None
                else Some (ndn_trim (tl (dropWhile (\<lambda>c. c \<noteq> 0x2F) (drop 2 uri))))
           else Some (ndn_trim (drop 1 uri))
      else Some uri)"

definition Name_set :: "bytes \<Rightarrow> name \<Rightarrow> exn option \<times> name" where
  "Name_set uri_cstr self =
     (let self = Name_clear self; uri = ndn_trim uri_cstr in
      if uri = [] then (None, self)
      else case strip_authority (strip_scheme uri) of
             None \<Rightarrow> (None, self)
           | Some uri \<Rightarrow> Name_set_loop uri uri self)"

text \<open>The constructor from a \<^verbatim>\<open>std::string\<close>, which passes \<^verbatim>\<open>c_str()\<close>: the characters before the first NUL.\<close>

definition Name_from_uri :: "bytes \<Rightarrow> name result" where
  "Name_from_uri uri =
     (case Name_set (takeWhile (\<lambda>c. c \<noteq> 0) uri) Name_empty of
        (None, n) \<Rightarrow> Inr n | (Some e, _) \<Rightarrow> Inl e)"

section \<open>The printed text in closed form\<close>

definition esc :: "byte \<Rightarrow> bytes" where
  "esc x = (if is_unreserved x then [x] else 0x25 # hex2 True x)"

definition esc_value :: "bytes \<Rightarrow> bytes" where
  "esc_value v = (if list_all (\<lambda>c. c = 0x2e) v then [0x2e, 0x2e, 0x2e] @ v else concat (map esc v))"

lemma put_escaped_byte:
  assumes "os_flags os = FmtHexUpper"
  shows "put_escaped_byte x os = put_str (esc x) os"
proof (cases "x < 16")
  case True
  then have "unat x < 16" by (simp add: word_less_nat_alt)
  with True assms show ?thesis
    by (simp add: put_escaped_byte_def esc_def put_unsigned_def hex2_def show_base.simps Let_def digit_char_def)
next
  case False
  then have "unat x \<ge> 16" by (simp add: word_less_nat_alt)
  with False assms show ?thesis
    by (simp add: put_escaped_byte_def esc_def put_unsigned_def show_base_16 Let_def)
qed

lemma fold_put_escaped_byte:
  "os_flags os = FmtHexUpper \<Longrightarrow> fold put_escaped_byte v os = put_str (concat (map esc v)) os"
  by (induction v arbitrary: os) (simp_all add: put_escaped_byte)

lemma all_dots: "list_all (\<lambda>c. c = 0x2e) (v :: bytes) \<Longrightarrow> replicate (length v) 0x2e = v"
  by (induction v) auto

lemma Name_toEscapedString_os: "Name_toEscapedString_os v os = put_str (esc_value v) os"
  by (simp add: Name_toEscapedString_os_def esc_value_def fold_put_escaped_byte all_dots Let_def)

lemma Name_toEscapedString: "Name_toEscapedString v = esc_value v"
  by (simp add: Name_toEscapedString_def Name_toEscapedString_os)

text \<open>The characters of an escaped value: unreserved characters and the percent sign.\<close>

lemma digit_char_unreserved: "d < 16 \<Longrightarrow> is_unreserved (digit_char u d)"
proof -
  assume d: "d < 16"
  have "list_all (\<lambda>d. list_all (\<lambda>u. is_unreserved (digit_char u d)) [True, False]) [0..<16]" by code_simp
  with d show ?thesis by (cases u) (simp_all only: list_all_iff set_upt list.set, simp_all)
qed

lemma esc_value_chars: "c \<in> set (esc_value v) \<Longrightarrow> is_unreserved c \<or> c = 0x25"
proof -
  have "\<forall>c \<in> set (esc x). is_unreserved c \<or> c = 0x25" for x
    using unat_div_16_less [of x] by (auto simp: esc_def hex2_def digit_char_unreserved)
  moreover have "is_unreserved 0x2e" by (simp add: is_unreserved_def)
  ultimately show "c \<in> set (esc_value v) \<Longrightarrow> is_unreserved c \<or> c = 0x25"
    by (auto simp: esc_value_def list_all_iff split: if_splits)
qed

lemma unreserved_not:
  "is_unreserved c \<or> c = 0x25 \<Longrightarrow>
   c \<noteq> 0x2F \<and> c \<noteq> 0x3A \<and> c \<noteq> 0x3D \<and> c \<noteq> 0 \<and> \<not> is_trim_space c"
  by (auto simp: is_unreserved_def is_trim_space_def)

lemma esc_value_not_Nil [simp]: "esc_value v \<noteq> []"
  by (cases v) (auto simp: esc_value_def esc_def)

section \<open>Escaping and unescaping\<close>

lemma unescape_plain: "a \<noteq> 0x25 \<Longrightarrow> unescape (a # rest) = a # unescape rest"
  by (cases rest rule: remdups_adj.cases) (simp_all add: Let_def)

lemma unescape_dots: "list_all (\<lambda>c. c = 0x2e) v \<Longrightarrow> unescape v = v"
  by (induction v) (simp_all add: unescape_plain)

lemma unescape_esc: "unescape (esc x @ s) = x # unescape s"
proof (cases "is_unreserved x")
  case True
  then have "x \<noteq> 0x25" by (auto simp: is_unreserved_def)
  with True show ?thesis by (simp add: esc_def unescape_plain)
next
  case False
  then show ?thesis
    using unat_div_16_less [of x]
    by (simp add: esc_def hex2_def Let_def byte_from_digits)
qed

lemma unescape_concat_esc: "unescape (concat (map esc v)) = v"
  by (induction v) (simp_all add: unescape_esc)

lemma ndn_trim_esc_value: "ndn_trim (esc_value v) = esc_value v"
proof (rule ndn_trim_id)
  show "\<not> is_trim_space (hd (esc_value v))"
    using esc_value_chars [of "hd (esc_value v)" v] unreserved_not by simp
  show "\<not> is_trim_space (last (esc_value v))"
    using esc_value_chars [of "last (esc_value v)" v] unreserved_not by simp
qed

text \<open>Every value survives escaping, values of periods only included.\<close>

lemma Name_fromEscapedString_esc_value: "Name_fromEscapedString (esc_value v) = Some v"
proof (cases "list_all (\<lambda>c. c = 0x2e) v")
  case True
  then have e: "esc_value v = [0x2e, 0x2e, 0x2e] @ v" by (simp add: esc_value_def)
  have "unescape (esc_value v) = esc_value v"
    using True by (intro unescape_dots) (simp add: e)
  then have "unescape (ndn_trim (esc_value v)) = [0x2e, 0x2e, 0x2e] @ v"
    by (simp only: ndn_trim_esc_value) (simp only: e)
  with True show ?thesis by (simp add: Name_fromEscapedString_def)
next
  case False
  then have "unescape (esc_value v) = v" by (simp add: esc_value_def unescape_concat_esc)
  with False show ?thesis by (simp add: Name_fromEscapedString_def ndn_trim_esc_value)
qed

section \<open>Components in a URI\<close>

definition is_digest :: "component \<Rightarrow> bool" where
  "is_digest c \<longleftrightarrow> c_type c = ndn_NameComponentType_IMPLICIT_SHA256_DIGEST \<or>
                  c_type c = ndn_NameComponentType_PARAMETERS_SHA256_DIGEST"

text \<open>What a component prints when the stream is in decimal mode.\<close>

definition comp_text :: "component \<Rightarrow> bytes" where
  "comp_text c =
     (case c_type c of
        ndn_NameComponentType_IMPLICIT_SHA256_DIGEST \<Rightarrow> sha256digestPrefix @ toHex (the (c_value c))
      | ndn_NameComponentType_PARAMETERS_SHA256_DIGEST \<Rightarrow> paramsSha256Prefix @ toHex (the (c_value c))
      | ndn_NameComponentType_GENERIC \<Rightarrow> esc_value (the (c_value c))
      | ndn_NameComponentType_OTHER_CODE \<Rightarrow>
          show_base False 10 (nat (c_otherTypeCode c)) @ 0x3D # esc_value (the (c_value c)))"

text \<open>
  A component with a URI form: it has a value, a digest has 32 bytes, and another type code is a
  non-negative int that is no recognized code.
\<close>

definition uri_wf :: "component \<Rightarrow> bool" where
  "uri_wf c \<longleftrightarrow> component_wf c \<and> c_otherTypeCode c < 2 ^ 31 \<and>
     (is_digest c \<longrightarrow> blob_size (c_value c) = 32)"

text \<open>
  A list of components that prints faithfully, given whether the stream is in hex mode: once a digest
  was printed the stream stays in hex mode, where only the other type codes below 10 print as in decimal.
\<close>

fun uri_printable :: "bool \<Rightarrow> component list \<Rightarrow> bool" where
  "uri_printable hex [] = True"
| "uri_printable hex (c # cs) \<longleftrightarrow>
     uri_wf c \<and> (hex \<and> c_type c = ndn_NameComponentType_OTHER_CODE \<longrightarrow> c_otherTypeCode c < 10) \<and>
     uri_printable (hex \<or> is_digest c) cs"

lemma Component_toEscapedString_os:
  assumes "uri_wf c" and "os_flags os = (if hex then FmtHex else FmtDefault)"
    and "hex \<and> c_type c = ndn_NameComponentType_OTHER_CODE \<longrightarrow> c_otherTypeCode c < 10"
  shows "Component_toEscapedString_os c os =
         put_str (comp_text c) (if is_digest c then set_flags FmtHex os else os)"
proof -
  obtain v where v: "c_value c = Some v" using assms(1) by (auto simp: uri_wf_def component_wf_def)
  have small: "n < 10 \<Longrightarrow> show_base False 16 n = show_base False 10 n" for n
    by (subst (1 2) show_base.simps) simp
  show ?thesis
  proof (cases "c_type c")
    case ndn_NameComponentType_OTHER_CODE
    with assms have "0 \<le> c_otherTypeCode c" "c_otherTypeCode c < 2 ^ 31"
      "hex \<Longrightarrow> c_otherTypeCode c < 10" by (auto simp: uri_wf_def component_wf_def)
    moreover have "hex \<Longrightarrow> show_base False 16 (nat (c_otherTypeCode c)) = show_base False 10 (nat (c_otherTypeCode c))"
      using calculation by (intro small) simp
    ultimately show ?thesis
      using ndn_NameComponentType_OTHER_CODE v assms(2)
      by (cases hex) (simp_all add: Component_toEscapedString_os_def comp_text_def is_digest_def put_int_def
                    put_unsigned_def Name_toEscapedString_os Let_def)
  qed (use assms v in \<open>auto simp: Component_toEscapedString_os_def comp_text_def is_digest_def uri_wf_def
         toHex_os toHex Name_toEscapedString_os sha256digestPrefix_def paramsSha256Prefix_def Let_def\<close>)
qed

lemma fold_toEscapedString:
  "uri_printable hex cs \<Longrightarrow> os_flags os = (if hex then FmtHex else FmtDefault) \<Longrightarrow>
   os_str (fold (\<lambda>c os. Component_toEscapedString_os c (put_str [0x2F] os)) cs os) =
   os_str os @ concat (map (\<lambda>c. 0x2F # comp_text c) cs)"
proof (induction cs arbitrary: hex os)
  case (Cons c cs)
  have "Component_toEscapedString_os c (put_str [0x2F] os) =
      put_str (comp_text c) (if is_digest c then set_flags FmtHex (put_str [0x2F] os) else put_str [0x2F] os)"
    using Cons.prems by (intro Component_toEscapedString_os [where hex = hex]) auto
  with Cons.IH [of "hex \<or> is_digest c"] Cons.prems show ?case by auto
qed simp

lemma Name_toUri:
  "uri_printable False (n_components n) \<Longrightarrow> n_components n \<noteq> [] \<Longrightarrow>
   Name_toUri False n = concat (map (\<lambda>c. 0x2F # comp_text c) (n_components n))"
  by (simp add: Name_toUri_def fold_toEscapedString [where hex = False])

section \<open>Parsing what was printed\<close>

text \<open>The characters a printed component never contains: slash, colon, NUL, and white space.\<close>

definition uri_char :: "byte \<Rightarrow> bool" where
  "uri_char c \<longleftrightarrow> c \<noteq> 0x2F \<and> c \<noteq> 0x3A \<and> c \<noteq> 0 \<and> \<not> is_trim_space c"

lemma uri_char_unreserved: "is_unreserved c \<or> c = 0x25 \<Longrightarrow> uri_char c"
  using unreserved_not by (auto simp: uri_char_def)

lemma toHex_chars: "c \<in> set (toHex v) \<Longrightarrow> is_unreserved c"
  using unat_div_16_less by (auto simp: toHex hex2_def digit_char_unreserved)

lemma prefix_chars:
  "list_all uri_char sha256digestPrefix" "list_all uri_char paramsSha256Prefix" "uri_char 0x3D"
  "0x3D \<in> set sha256digestPrefix" "0x3D \<in> set paramsSha256Prefix"
  by code_simp+

lemma digit_uri_char: "is_digit_char c \<Longrightarrow> uri_char c \<and> c \<noteq> 0x3D"
  by (auto simp: is_digit_char_def uri_char_def is_trim_space_def)

lemma comp_text_chars:
  assumes "c \<in> set (comp_text x)"
  shows "uri_char c"
proof -
  note * = esc_value_chars uri_char_unreserved
  show ?thesis
  proof (cases "c_type x")
    case ndn_NameComponentType_IMPLICIT_SHA256_DIGEST
    with assms show ?thesis
      using toHex_chars uri_char_unreserved prefix_chars(1) by (auto simp: comp_text_def list_all_iff)
  next
    case ndn_NameComponentType_PARAMETERS_SHA256_DIGEST
    with assms show ?thesis
      using toHex_chars uri_char_unreserved prefix_chars(2) by (auto simp: comp_text_def list_all_iff)
  next
    case ndn_NameComponentType_GENERIC
    with assms * show ?thesis by (auto simp: comp_text_def)
  next
    case ndn_NameComponentType_OTHER_CODE
    with assms show ?thesis
      using * prefix_chars(3) show_dec_digits digit_uri_char by (auto simp: comp_text_def)
  qed
qed

lemma comp_text_not_Nil [simp]: "comp_text c \<noteq> []"
  by (cases "c_type c") (auto simp: comp_text_def sha256digestPrefix_def paramsSha256Prefix_def)

text \<open>The rest of a URI after a component is empty or starts with a slash.\<close>

definition at_slash :: "bytes \<Rightarrow> bool" where
  "at_slash s \<longleftrightarrow> s = [] \<or> hd s = 0x2F"

lemma takeWhile_component:
  assumes "\<forall>c \<in> set t. uri_char c" and "at_slash s"
  shows "takeWhile (\<lambda>c. c \<noteq> 0x2F) (t @ s) = t"
proof -
  have "takeWhile (\<lambda>c. c \<noteq> 0x2F) s = []" using assms(2) by (cases s) (auto simp: at_slash_def)
  with assms(1) show ?thesis by (simp add: uri_char_def)
qed

lemma not_prefix:
  assumes p: "\<forall>c \<in> set p. uri_char c" "0x3D \<in> set p" and t: "0x3D \<notin> set t" and s: "at_slash s"
  shows "take (length p) (t @ s) \<noteq> p"
proof
  assume eq: "take (length p) (t @ s) = p"
  show False
  proof (cases "length p \<le> length t")
    case True
    with eq have "take (length p) t = p" by simp
    with p(2) t show False by (metis in_set_takeD)
  next
    case False
    with eq have l: "length p \<le> length (t @ s)" by (metis length_take min_def nat_le_linear)
    with False obtain x s' where xs: "s = x # s'" by (cases s) auto
    then have "(t @ s) ! length t = 0x2F" using s by (simp add: at_slash_def)
    moreover have "(t @ s) ! length t = p ! length t" using eq False by (metis not_le nth_take)
    ultimately have "0x2F \<in> set p" using False by (metis not_le nth_mem)
    with p(1) show False by (auto simp: uri_char_def)
  qed
qed

lemma not_prefix_hd:
  "t \<noteq> [] \<Longrightarrow> p \<noteq> [] \<Longrightarrow> hd t \<noteq> hd p \<Longrightarrow> take (length p) (t @ s) \<noteq> p"
  by (cases t; cases p) auto

lemma Component_new_fields:
  assumes "component_wf c"
  shows "Component_new (c_value c) (c_type c) (c_otherTypeCode c) = Inr c"
  using assms by (cases c) (auto simp: component_wf_def Component_new_def Component_setType_def Let_def split: if_splits)

lemma parse_typeCode_show:
  assumes "0 \<le> code" "code < 2 ^ 31" "code \<notin> {1, 2, 8}"
  shows "parse_typeCode uri (show_base False 10 (nat code)) = Inr (ndn_NameComponentType_OTHER_CODE, code)"
proof -
  have a: "atoi (show_base False 10 (nat code)) = code" using assms by (simp add: atoi_show)
  have zero: "atoi (str ''0'') = 0" by code_simp
  show ?thesis
  proof (cases "code = 0")
    case True
    have "show_base False 10 0 = str ''0''" by code_simp
    with True show ?thesis by (simp add: parse_typeCode_def)
  next
    case False
    then have "show_base False 10 (nat code) \<noteq> str ''0''" using a zero by metis
    with False a assms(3) show ?thesis by (simp add: parse_typeCode_def Let_def)
  qed
qed

lemma parse_component_text:
  assumes wf: "uri_wf c" and s: "at_slash s"
  shows "parse_component uri (comp_text c @ s) = Inr c"
proof -
  have comp: "takeWhile (\<lambda>x. x \<noteq> 0x2F) (comp_text c @ s) = comp_text c"
    using comp_text_chars s by (intro takeWhile_component) auto
  have cwf: "component_wf c" using wf by (simp add: uri_wf_def)
  then obtain v where v: "c_value c = Some v" by (auto simp: component_wf_def)
  note pre = prefix_chars [unfolded list_all_iff]
  note new = Component_new_fields [OF cwf, unfolded v]
  show ?thesis
  proof (cases "c_type c")
    case ndn_NameComponentType_IMPLICIT_SHA256_DIGEST
    with wf v cwf show ?thesis
      unfolding parse_component_def comp Let_def
      by (cases c) (simp add: comp_text_def toHex fromHex_hex uri_wf_def is_digest_def component_wf_def
            Component_fromImplicitSha256Digest_def Component_generic_def ndn_SHA256_DIGEST_SIZE_def)
  next
    case ndn_NameComponentType_PARAMETERS_SHA256_DIGEST
    then have "hd (comp_text c) \<noteq> hd sha256digestPrefix"
      by (simp add: comp_text_def sha256digestPrefix_def paramsSha256Prefix_def)
    then have "take (length sha256digestPrefix) (comp_text c @ s) \<noteq> sha256digestPrefix"
      by (intro not_prefix_hd) (simp_all add: sha256digestPrefix_def)
    with ndn_NameComponentType_PARAMETERS_SHA256_DIGEST wf v cwf show ?thesis
      unfolding parse_component_def comp Let_def
      by (cases c) (simp add: comp_text_def toHex fromHex_hex uri_wf_def is_digest_def component_wf_def
            Component_fromParametersSha256Digest_def Component_generic_def ndn_SHA256_DIGEST_SIZE_def)
  next
    case ndn_NameComponentType_GENERIC
    then have t: "comp_text c = esc_value v" using v by (simp add: comp_text_def)
    then have eq: "0x3D \<notin> set (comp_text c)" using esc_value_chars unreserved_not by metis
    from eq s pre have "take (length sha256digestPrefix) (comp_text c @ s) \<noteq> sha256digestPrefix"
      "take (length paramsSha256Prefix) (comp_text c @ s) \<noteq> paramsSha256Prefix"
      by (intro not_prefix; simp)+
    with eq t new ndn_NameComponentType_GENERIC cwf show ?thesis
      unfolding parse_component_def comp Let_def
      by (simp add: Name_fromEscapedString_esc_value component_wf_def)
  next
    case ndn_NameComponentType_OTHER_CODE
    let ?n = "show_base False 10 (nat (c_otherTypeCode c))"
    have t: "comp_text c = ?n @ 0x3D # esc_value v"
      using v ndn_NameComponentType_OTHER_CODE by (simp add: comp_text_def)
    have dig: "is_digit_char (hd ?n)"
      using show_dec_digits [of "hd ?n" False "nat (c_otherTypeCode c)"] by simp
    then have "hd (comp_text c) \<noteq> hd sha256digestPrefix" "hd (comp_text c) \<noteq> hd paramsSha256Prefix"
      by (auto simp: t is_digit_char_def sha256digestPrefix_def paramsSha256Prefix_def)
    then have no: "take (length sha256digestPrefix) (comp_text c @ s) \<noteq> sha256digestPrefix"
      "take (length paramsSha256Prefix) (comp_text c @ s) \<noteq> paramsSha256Prefix"
      by (intro not_prefix_hd; simp add: sha256digestPrefix_def paramsSha256Prefix_def)+
    have n: "\<forall>x \<in> set ?n. x \<noteq> 0x3D" using show_dec_digits digit_uri_char by blast
    have tw: "takeWhile (\<lambda>x. x \<noteq> 0x3D) (comp_text c) = ?n"
      using n by (simp add: t takeWhile_append2)
    have dw: "dropWhile (\<lambda>x. x \<noteq> 0x3D) (comp_text c) = 0x3D # esc_value v"
      using n by (simp add: t dropWhile_append2)
    have "0x3D \<in> set (comp_text c)" by (simp add: t)
    moreover have "parse_typeCode uri ?n = Inr (ndn_NameComponentType_OTHER_CODE, c_otherTypeCode c)"
      using wf ndn_NameComponentType_OTHER_CODE
      by (intro parse_typeCode_show) (auto simp: uri_wf_def component_wf_def)
    ultimately show ?thesis
      using no new ndn_NameComponentType_OTHER_CODE
      unfolding parse_component_def comp Let_def tw dw
      by (simp add: Name_fromEscapedString_esc_value)
  qed
qed

text \<open>Printed components after the first slash.\<close>

definition join_text :: "component list \<Rightarrow> bytes" where
  "join_text cs = concat (map (\<lambda>c. 0x2F # comp_text c) cs)"

lemma at_slash_join: "at_slash (join_text cs)"
  by (cases cs) (simp_all add: at_slash_def join_text_def)

lemma Name_set_loop_join:
  "\<forall>c \<in> set cs. uri_wf c \<Longrightarrow>
   Name_set_loop uri (tl (join_text cs)) n = (None, fold Name_append cs n)"
proof (induction cs arbitrary: n)
  case Nil
  then show ?case by (simp add: join_text_def Name_set_loop.simps)
next
  case (Cons c cs)
  have rest: "tl (join_text (c # cs)) = comp_text c @ join_text cs" by (simp add: join_text_def)
  have comp: "takeWhile (\<lambda>x. x \<noteq> 0x2F) (comp_text c @ join_text cs) = comp_text c"
    using comp_text_chars at_slash_join by (intro takeWhile_component) auto
  have val: "c_value c \<noteq> None" using Cons.prems by (auto simp: uri_wf_def component_wf_def)
  have parse: "parse_component uri (comp_text c @ join_text cs) = Inr c"
    using Cons.prems by (intro parse_component_text at_slash_join) simp
  have "drop (length (comp_text c) + 1) (comp_text c @ join_text cs) = tl (join_text cs)"
    by (simp add: drop_Suc)
  then have "Name_set_loop uri (tl (join_text (c # cs))) n =
        Name_set_loop uri (tl (join_text cs)) (Name_append c n)"
    by (subst Name_set_loop.simps) (simp add: rest comp parse val)
  with Cons show ?case by simp
qed

lemma uri_printable_wf: "uri_printable hex cs \<Longrightarrow> \<forall>c \<in> set cs. uri_wf c"
  by (induction hex cs rule: uri_printable.induct) auto

lemma last_join_text:
  "cs \<noteq> [] \<Longrightarrow> uri_char (last (join_text cs))"
proof (induction cs rule: rev_induct)
  case (snoc c cs)
  have "last (join_text (cs @ [c])) = last (comp_text c)" by (simp add: join_text_def)
  then show ?case using comp_text_chars [of "last (comp_text c)" c] by simp
qed simp

lemma Name_set_join:
  assumes "\<forall>c \<in> set cs. uri_wf c"
  shows "Name_set (join_text cs) n = (None, fold Name_append cs (Name_clear n))"
proof (cases cs)
  case Nil
  then show ?thesis by (simp add: Name_set_def join_text_def ndn_trim_def trimLeft_def trimRight_def)
next
  case (Cons c cs')
  let ?u = "join_text cs"
  have u: "?u = 0x2F # comp_text c @ join_text cs'" using Cons by (simp add: join_text_def)
  have l: "uri_char (last ?u)" using Cons by (intro last_join_text) simp
  have trim: "ndn_trim ?u = ?u"
    using l by (intro ndn_trim_id) (simp_all add: u uri_char_def is_trim_space_def)
  have scheme: "strip_scheme ?u = ?u" by (simp add: strip_scheme_def u)
  have h: "uri_char (hd (comp_text c))" using comp_text_chars [of "hd (comp_text c)" c] by simp
  have "ndn_trim (tl ?u) = tl ?u"
  proof (rule ndn_trim_id)
    show "\<not> is_trim_space (hd (tl ?u))" using h by (simp add: u uri_char_def)
    have "last (tl ?u) = last ?u" by (simp add: u)
    with l show "\<not> is_trim_space (last (tl ?u))" by (simp add: uri_char_def)
  qed
  moreover have "?u ! 1 \<noteq> 0x2F"
    using h by (cases "comp_text c") (simp_all add: u uri_char_def)
  ultimately have "strip_authority ?u = Some (tl ?u)"
    by (simp add: strip_authority_def u drop_Suc)
  with trim scheme Name_set_loop_join [OF assms, of "tl ?u"] u show ?thesis
    by (simp add: Name_set_def Let_def)
qed

lemma n_components_fold_append: "n_components (fold Name_append cs n) = n_components n @ cs"
  by (induction cs arbitrary: n) simp_all

text \<open>Parsing a printed name restores its components.\<close>

lemma Name_toUri_set:
  assumes "uri_printable False (n_components n)"
  shows "\<exists>m. Name_from_uri (Name_toUri False n) = Inr m \<and> n_components m = n_components n"
proof (cases "n_components n")
  case Nil
  have "Name_from_uri (str ''/'') = Inr (Name_clear Name_empty)" by code_simp
  with Nil show ?thesis by (simp add: Name_toUri_def)
next
  case (Cons c cs)
  then have u: "Name_toUri False n = join_text (n_components n)"
    using assms by (simp add: Name_toUri join_text_def)
  have "\<forall>x \<in> set (join_text cs). x \<noteq> 0" for cs
    using comp_text_chars [unfolded uri_char_def] by (auto simp: join_text_def)
  then have all: "takeWhile (\<lambda>c. c \<noteq> 0) (Name_toUri False n) = Name_toUri False n"
    by (simp add: u takeWhile_eq_all_conv)
  have "Name_from_uri (Name_toUri False n) = Inr (fold Name_append (n_components n) (Name_clear Name_empty))"
    unfolding Name_from_uri_def all unfolding u Name_set_join [OF uri_printable_wf [OF assms]] by simp
  then show ?thesis by (simp add: n_components_fold_append)
qed

section \<open>Properties\<close>



text \<open>
  After a digest the stream stays in hexadecimal mode: a following component of type 16 prints with
  the type code 10, which parses as type 10.
\<close>

lemma put_int_hex_16: "os_flags os = FmtHex \<Longrightarrow> put_int 16 os = put_str (str ''10'') os"
proof -
  have "show_base False 16 16 = str ''10''" by code_simp
  then show "os_flags os = FmtHex \<Longrightarrow> put_int 16 os = put_str (str ''10'') os"
    by (simp add: put_int_def put_unsigned_def)
qed

lemma name_uri_hex_type:
  "Name_toUri False (Name_of
     [\<lparr>c_type = ndn_NameComponentType_IMPLICIT_SHA256_DIGEST, c_otherTypeCode = -1, c_value = Some (replicate 32 0)\<rparr>,
      \<lparr>c_type = ndn_NameComponentType_OTHER_CODE, c_otherTypeCode = 16, c_value = Some [0x41]\<rparr>]) =
   str ''/sha256digest='' @ toHex (replicate 32 0) @ str ''/10=A''"
proof -
  have "esc_value [0x41] = str ''A''" by code_simp
  then show ?thesis
    by (simp add: Name_toUri_def Component_toEscapedString_os_def toHex_os toHex put_int_hex_16
                  Name_toEscapedString_os Let_def)
qed

lemma parse_type_10: "parse_component uri (str ''10=A'') =
   Inr \<lparr>c_type = ndn_NameComponentType_OTHER_CODE, c_otherTypeCode = 10, c_value = Some [0x41]\<rparr>"
proof -
  have "parse_component uri (str ''10=A'') = parse_component uri (comp_text
      \<lparr>c_type = ndn_NameComponentType_OTHER_CODE, c_otherTypeCode = 10, c_value = Some [0x41]\<rparr> @ [])"
    by (rule arg_cong [of _ _ "parse_component uri"]) code_simp
  also have "\<dots> = Inr \<lparr>c_type = ndn_NameComponentType_OTHER_CODE, c_otherTypeCode = 10, c_value = Some [0x41]\<rparr>"
    by (rule parse_component_text) (simp_all add: uri_wf_def component_wf_def is_digest_def at_slash_def)
  finally show ?thesis .
qed

end
