(* ===== verification/NameOps.thy ===== *)
theory NameOps
  imports NameUri
begin

text \<open>
  The operations of \<^verbatim>\<open>Name\<close> on whole names (\<^verbatim>\<open>name.hpp\<close>, \<^verbatim>\<open>name.cpp\<close>) and of the C struct \<^verbatim>\<open>ndn_Name\<close>
  with its bounded component array (\<^verbatim>\<open>c/name_c.c\<close>): sub-names, equality and prefix match, the
  canonical order, the successor and the cached hash.  The integer conversions of the source are
  written out: an \<^verbatim>\<open>int\<close> is an integer brought into 32 bits by \<^verbatim>\<open>to_int\<close>, a \<^verbatim>\<open>size_t\<close> a natural number
  brought into 64 bits by \<^verbatim>\<open>to_size\<close>.
\<close>

definition to_int :: "int \<Rightarrow> int" where
  "to_int x = sint (word_of_int x :: u32)"

definition to_size :: "int \<Rightarrow> nat" where
  "to_size x = unat (word_of_int x :: size_t)"

lemma to_size_nat [simp]: "n < 2 ^ 64 \<Longrightarrow> to_size (int n) = n"
  by (simp add: to_size_def unat_of_nat)

lemma to_size_nonneg: "0 \<le> i \<Longrightarrow> i < 2 ^ 64 \<Longrightarrow> to_size i = nat i"
  using to_size_nat [of "nat i"] by simp

lemma to_int_id: "- (2 ^ 31) \<le> i \<Longrightarrow> i < 2 ^ 31 \<Longrightarrow> to_int i = i"
  by (simp only: to_int_def sint_sbintrunc') (simp add: signed_take_bit_int_eq_self)

lemma to_size_mod: "to_size i = nat (i mod 2 ^ 64)"
  by (simp add: to_size_def unsigned_of_int take_bit_eq_mod)

lemma to_size_neg:
  assumes "- (2 ^ 64) \<le> i" and "i < 0"
  shows "to_size i = nat (2 ^ 64 + i)"
proof -
  have "i mod 2 ^ 64 = (i + 2 ^ 64) mod 2 ^ 64" by simp
  also have "\<dots> = i + 2 ^ 64" using assms by (intro mod_pos_pos_trivial) auto
  finally show ?thesis by (simp add: to_size_mod add.commute)
qed

section \<open>Access and sub-names\<close>

definition Name_size :: "name \<Rightarrow> nat" where
  "Name_size self = length (n_components self)"

definition Name_get :: "int \<Rightarrow> name \<Rightarrow> component result" where
  "Name_get i self =
     (if i \<ge> 0
      then if i \<ge> int (Name_size self)
           then Inl (RuntimeError (str ''Name.get: Index is out of bounds''))
           else Inr (n_components self ! nat i)
      else if i < - int (Name_size self)
           then Inl (RuntimeError (str ''Name.get: Index is out of bounds''))
           else Inr (n_components self ! (Name_size self - nat (- i))))"

definition Name_getSubName :: "int \<Rightarrow> nat \<Rightarrow> name \<Rightarrow> name" where
  "Name_getSubName iStart nComponents self =
     (let size = Name_size self;
          iStart = (if iStart < 0 then to_int (int size - (- iStart)) else iStart);
          iEnd = min (to_size (iStart + int nComponents)) size
      in Name_of (take (iEnd - to_size iStart) (drop (to_size iStart) (n_components self))))"

definition Name_getSubName_from :: "int \<Rightarrow> name \<Rightarrow> name" where
  "Name_getSubName_from iStart self = Name_getSubName iStart (Name_size self) self"

definition Name_getPrefix :: "int \<Rightarrow> name \<Rightarrow> name" where
  "Name_getPrefix n self =
     (if n < 0 then Name_getSubName 0 (to_size (int (Name_size self) + n)) self
      else Name_getSubName 0 (to_size n) self)"

definition Name_append_name :: "name \<Rightarrow> name \<Rightarrow> name" where
  "Name_append_name other self = fold Name_append (n_components other) self"

definition Name_checkAppendOtherTypeCode :: "int \<Rightarrow> unit result" where
  "Name_checkAppendOtherTypeCode otherTypeCode =
     (if otherTypeCode = -1
      then Inl (InvalidArgument (str ''To use an other code, call append(value, ndn_NameComponentType_OTHER_CODE, otherTypeCode)''))
      else if otherTypeCode < -1
      then Inl (InvalidArgument (str ''Name::append: other type code must be non-negative''))
      else Inr ())"

text \<open>\<^verbatim>\<open>append(value, type, otherTypeCode)\<close> of the overloads that take a value.\<close>

definition Name_append_value :: "blob \<Rightarrow> ndn_NameComponentType \<Rightarrow> int \<Rightarrow> name \<Rightarrow> name result" where
  "Name_append_value v type otherTypeCode self =
     bindE (if type = ndn_NameComponentType_OTHER_CODE
            then Name_checkAppendOtherTypeCode otherTypeCode else Inr ()) (\<lambda>_.
     bindE (Component_new v type otherTypeCode) (\<lambda>c. Inr (Name_append c self)))"

definition Name_append_generic :: "bytes \<Rightarrow> name \<Rightarrow> name" where
  "Name_append_generic v self = Name_append (Component_generic (Some v)) self"

definition Name_appendNumber :: "u64 \<Rightarrow> ndn_NameComponentType \<Rightarrow> int \<Rightarrow> name \<Rightarrow> name result" where
  "Name_appendNumber number type otherTypeCode self =
     bindE (Component_fromNumber number type otherTypeCode) (\<lambda>c. Inr (Name_append c self))"

definition Name_appendWithMarker :: "u64 \<Rightarrow> byte \<Rightarrow> name \<Rightarrow> name result" where
  "Name_appendWithMarker number marker self =
     bindE (Component_fromNumberWithMarker number marker) (\<lambda>c. Inr (Name_append c self))"

definition Name_appendSegment :: "u64 \<Rightarrow> name \<Rightarrow> name result" where
  "Name_appendSegment segment = Name_appendWithMarker segment 0x00"

definition Name_appendVersion :: "u64 \<Rightarrow> name \<Rightarrow> name result" where
  "Name_appendVersion version = Name_appendWithMarker version 0xFD"

definition Name_appendTimestamp :: "u64 \<Rightarrow> name \<Rightarrow> name result" where
  "Name_appendTimestamp timestamp = Name_appendWithMarker timestamp 0xFC"

definition Name_appendSequenceNumber :: "u64 \<Rightarrow> name \<Rightarrow> name result" where
  "Name_appendSequenceNumber sequenceNumber = Name_appendWithMarker sequenceNumber 0xFE"

definition Name_appendImplicitSha256Digest :: "blob \<Rightarrow> name \<Rightarrow> name result" where
  "Name_appendImplicitSha256Digest digest self =
     bindE (Component_fromImplicitSha256Digest digest) (\<lambda>c. Inr (Name_append c self))"

definition Name_appendParametersSha256Digest :: "blob \<Rightarrow> name \<Rightarrow> name result" where
  "Name_appendParametersSha256Digest digest self =
     bindE (Component_fromParametersSha256Digest digest) (\<lambda>c. Inr (Name_append c self))"

section \<open>Equality and prefix match\<close>

text \<open>The loops from the last component to the first compare the values only.\<close>

fun values_agree :: "component list \<Rightarrow> component list \<Rightarrow> nat \<Rightarrow> bool" where
  "values_agree cs ds 0 \<longleftrightarrow> True"
| "values_agree cs ds (Suc i) \<longleftrightarrow>
     (if the (c_value (cs ! i)) \<noteq> the (c_value (ds ! i)) then False else values_agree cs ds i)"

definition Name_equals :: "name \<Rightarrow> name \<Rightarrow> bool" where
  "Name_equals self other \<longleftrightarrow>
     (if Name_size self \<noteq> Name_size other then False
      else values_agree (n_components self) (n_components other) (Name_size self))"

definition Name_match :: "name \<Rightarrow> name \<Rightarrow> bool" where
  "Name_match self name \<longleftrightarrow>
     (if Name_size self > Name_size name then False
      else values_agree (n_components self) (n_components name) (Name_size self))"

section \<open>Order, successor and hash\<close>

text \<open>
  The loop of \<^verbatim>\<open>compare\<close> over \<^verbatim>\<open>count\<close> components from the two start indexes.  None stands for an index
  outside a component vector, where the C++ access is undefined.
\<close>

fun Name_compare_loop ::
  "component list \<Rightarrow> component list \<Rightarrow> int \<Rightarrow> int \<Rightarrow> nat \<Rightarrow> int option" where
  "Name_compare_loop cs ds a b 0 = Some 0"
| "Name_compare_loop cs ds a b (Suc k) =
     (if to_size a < length cs \<and> to_size b < length ds
      then let comparison = Component_compare (cs ! to_size a) (ds ! to_size b) in
           if comparison = 0 then Name_compare_loop cs ds (a + 1) (b + 1) k
           else Some comparison
      else None)"

definition Name_compare_sub :: "int \<Rightarrow> nat \<Rightarrow> name \<Rightarrow> int \<Rightarrow> nat \<Rightarrow> name \<Rightarrow> int option" where
  "Name_compare_sub iStart nComponents other iOtherStart nOtherComponents self =
     (let iStart = (if iStart < 0 then to_int (int (Name_size self) - (- iStart)) else iStart);
          iOtherStart = (if iStart < 0 then to_int (int (Name_size other) - (- iOtherStart))
                         else iOtherStart);
          nComponents = min nComponents (to_size (int (Name_size self) - iStart));
          nOtherComponents = min nOtherComponents (to_size (int (Name_size other) - iOtherStart));
          n = min nComponents nOtherComponents
      in case Name_compare_loop (n_components self) (n_components other) iStart iOtherStart n of
           None \<Rightarrow> None
         | Some comparison \<Rightarrow>
             if comparison \<noteq> 0 then Some comparison
             else if nComponents < nOtherComponents then Some (-1)
             else if nComponents > nOtherComponents then Some 1
             else Some 0)"

definition Name_compare :: "name \<Rightarrow> name \<Rightarrow> int" where
  "Name_compare self other =
     the (Name_compare_sub 0 (Name_size self) other 0 (Name_size other) self)"

definition Name_getSuccessor :: "name \<Rightarrow> name result" where
  "Name_getSuccessor self =
     (if Name_size self = 0
      then Name_from_uri (str ''/sha256digest=0000000000000000000000000000000000000000000000000000000000000000'')
      else bindE (Name_get (-1) self) (\<lambda>c.
           bindE (Component_getSuccessor c) (\<lambda>s. Inr (Name_append s (Name_getPrefix (-1) self)))))"

text \<open>\<^verbatim>\<open>hash\<close> updates the cached fields of a const object.\<close>

definition components_hash :: "component list \<Rightarrow> int" where
  "components_hash cs =
     fold (\<lambda>c hashCode. to_int (37 * hashCode + uint (Component_hash c))) cs 0"

definition Name_hash :: "name \<Rightarrow> size_t \<times> name" where
  "Name_hash self =
     (let self = (if n_hashCodeChangeCount self \<noteq> n_changeCount self
                  then self\<lparr>n_hashCode := 0, n_hashCodeChangeCount := n_changeCount self\<rparr> else self);
          self = (if n_hashCode self = 0
                  then self\<lparr>n_hashCode := word_of_int (components_hash (n_components self))\<rparr> else self)
      in (n_hashCode self, self))"

section \<open>The C struct\<close>

record ndn_Name =
  cn_components :: "component list"     \<comment> \<open>the first nComponents elements of the array\<close>
  cn_maxComponents :: nat

definition ndn_Name_appendNameComponent :: "component \<Rightarrow> ndn_Name \<Rightarrow> ndn_error + ndn_Name" where
  "ndn_Name_appendNameComponent c self =
     (if length (cn_components self) \<ge> cn_maxComponents self
      then Inl NDN_ERROR_attempt_to_add_a_component_past_the_maximum_number_of_components_allowed_in_the_name
      else Inr (self\<lparr>cn_components := cn_components self @ [c]\<rparr>))"

definition ndn_Name_appendComponent :: "blob \<Rightarrow> ndn_Name \<Rightarrow> ndn_error + ndn_Name" where
  "ndn_Name_appendComponent v self =
     ndn_Name_appendNameComponent (ndn_NameComponent_initialize v) self"

fun ndn_Name_appendList :: "component list \<Rightarrow> ndn_Name \<Rightarrow> ndn_error + ndn_Name" where
  "ndn_Name_appendList [] self = Inr self"
| "ndn_Name_appendList (c # cs) self =
     bindE (ndn_Name_appendNameComponent c self) (ndn_Name_appendList cs)"

fun components_agree :: "component list \<Rightarrow> component list \<Rightarrow> nat \<Rightarrow> bool" where
  "components_agree cs ds 0 \<longleftrightarrow> True"
| "components_agree cs ds (Suc i) \<longleftrightarrow>
     (if \<not> ndn_NameComponent_equals (cs ! i) (ds ! i) then False else components_agree cs ds i)"

definition ndn_Name_equals :: "ndn_Name \<Rightarrow> ndn_Name \<Rightarrow> bool" where
  "ndn_Name_equals self name \<longleftrightarrow>
     (if length (cn_components self) \<noteq> length (cn_components name) then False
      else components_agree (cn_components self) (cn_components name) (length (cn_components self)))"

fun bytes_agree :: "component list \<Rightarrow> component list \<Rightarrow> nat \<Rightarrow> bool" where
  "bytes_agree cs ds 0 \<longleftrightarrow> True"
| "bytes_agree cs ds (Suc i) \<longleftrightarrow>
     (let v = blob_bytes (c_value (cs ! i)); w = blob_bytes (c_value (ds ! i)) in
      if length v \<noteq> length w \<or> ndn_memcmp v w \<noteq> 0 then False else bytes_agree cs ds i)"

definition ndn_Name_match :: "ndn_Name \<Rightarrow> ndn_Name \<Rightarrow> bool" where
  "ndn_Name_match self name \<longleftrightarrow>
     (if length (cn_components self) > length (cn_components name) then False
      else bytes_agree (cn_components self) (cn_components name) (length (cn_components self)))"

text \<open>
  \<^verbatim>\<open>Name::get(NameLite&)\<close> fills a C name and throws when its array is full; \<^verbatim>\<open>Name::set(NameLite)\<close> copies
  back with \<^verbatim>\<open>Component(NameLite::Component)\<close>, which keeps the type fields and copies the value.
\<close>

definition Name_get_lite :: "ndn_Name \<Rightarrow> name \<Rightarrow> ndn_Name result" where
  "Name_get_lite nameLite self =
     throwC (ndn_Name_appendList (map Component_lite (n_components self))
               (nameLite\<lparr>cn_components := []\<rparr>))"

definition Name_set_lite :: "ndn_Name \<Rightarrow> name \<Rightarrow> name" where
  "Name_set_lite nameLite self = fold Name_append (cn_components nameLite) (Name_clear self)"

section \<open>Sub-names select components\<close>

text \<open>A vector never has more than \<^verbatim>\<open>2^31 - 1\<close> components here: the code keeps sizes in an \<^verbatim>\<open>int\<close>.\<close>

definition small_name :: "name \<Rightarrow> bool" where
  "small_name n \<longleftrightarrow> Name_size n < 2 ^ 31"

lemma Name_getSubName_nonneg:
  assumes "0 \<le> i" and "i < 2 ^ 31" and "n < 2 ^ 63"
  shows "n_components (Name_getSubName i n self) = take n (drop (nat i) (n_components self))"
proof -
  have "to_size (i + int n) = nat i + n"
    using assms by (simp add: to_size_nonneg nat_add_distrib)
  moreover have "to_size i = nat i" using assms by (simp add: to_size_nonneg)
  ultimately show ?thesis
    using assms by (simp add: Name_getSubName_def Let_def Name_size_def min_def)
qed

lemma Name_getSubName_neg:
  assumes "i < 0" and "- int (Name_size self) \<le> i" and "small_name self" and "n < 2 ^ 63"
  shows "n_components (Name_getSubName i n self) =
         take n (drop (Name_size self - nat (- i)) (n_components self))"
proof -
  let ?j = "int (Name_size self) + i"
  have j: "0 \<le> ?j" "?j < 2 ^ 31" "nat ?j = Name_size self - nat (- i)"
    using assms by (auto simp: small_name_def)
  have "to_int (int (Name_size self) - - i) = ?j" using j by (simp add: to_int_id)
  then have "Name_getSubName i n self = Name_getSubName ?j n self"
    using assms j by (simp add: Name_getSubName_def Let_def)
  with Name_getSubName_nonneg [OF j(1,2) assms(4), of self] j(3) show ?thesis by simp
qed

lemma Name_getPrefix_nonneg:
  "0 \<le> n \<Longrightarrow> n < 2 ^ 31 \<Longrightarrow> n_components (Name_getPrefix n self) = take (nat n) (n_components self)"
  by (simp add: Name_getPrefix_def to_size_nonneg Name_getSubName_nonneg)

lemma Name_getPrefix_neg:
  "n < 0 \<Longrightarrow> - int (Name_size self) \<le> n \<Longrightarrow> small_name self \<Longrightarrow>
   n_components (Name_getPrefix n self) = take (Name_size self - nat (- n)) (n_components self)"
proof -
  assume n: "n < 0" "- int (Name_size self) \<le> n" "small_name self"
  then have "to_size (int (Name_size self) + n) = Name_size self - nat (- n)"
    by (simp add: to_size_nonneg small_name_def)
  with n show ?thesis
    by (simp add: Name_getPrefix_def Name_getSubName_nonneg small_name_def)
qed

text \<open>A negative count larger than the name wraps around to a huge count: the whole name is returned.\<close>

lemma Name_getPrefix_beyond:
  assumes "n < - int (Name_size self)" and "- (2 ^ 31) \<le> n"
  shows "n_components (Name_getPrefix n self) = n_components self"
proof -
  have sz: "to_size (int (Name_size self) + n) = nat (2 ^ 64 + (int (Name_size self) + n))"
    using assms by (intro to_size_neg) auto
  have "int (nat (2 ^ 64 + (int (Name_size self) + n))) = 2 ^ 64 + (int (Name_size self) + n)"
    using assms by simp
  then have "to_size (0 + int (to_size (int (Name_size self) + n))) = to_size (2 ^ 64 + (int (Name_size self) + n))"
    by (simp only: sz) simp
  also have "\<dots> = to_size (int (Name_size self) + n)" by (simp add: to_size_mod)
  finally have "to_size (0 + int (to_size (int (Name_size self) + n))) \<ge> Name_size self"
    using assms sz by simp
  then have m: "min (to_size (0 + int (to_size (int (Name_size self) + n)))) (Name_size self) = Name_size self"
    by (rule min_absorb2)
  have z: "to_size 0 = 0" by (simp add: to_size_def)
  have "n < 0" using assms by simp
  then show ?thesis
    by (simp only: Name_getPrefix_def Name_getSubName_def Let_def if_True less_irrefl if_False m z)
       (simp add: Name_size_def)
qed

lemma Name_get_last:
  "n_components self \<noteq> [] \<Longrightarrow> Name_get (-1) self = Inr (last (n_components self))"
  by (cases "n_components self" rule: rev_cases) (simp_all add: Name_get_def Name_size_def nth_append)

lemma Name_append_name_components:
  "n_components (Name_append_name other self) = n_components self @ n_components other"
  by (simp add: Name_append_name_def n_components_fold_append)

section \<open>Equality and match on values\<close>

definition name_values :: "name \<Rightarrow> bytes list" where
  "name_values n = map (\<lambda>c. the (c_value c)) (n_components n)"

lemma length_name_values: "length (name_values n) = Name_size n"
  by (simp add: name_values_def Name_size_def)

lemma values_agree: "values_agree cs ds n \<longleftrightarrow> (\<forall>i < n. the (c_value (cs ! i)) = the (c_value (ds ! i)))"
  by (induction n) (auto simp: less_Suc_eq)

lemma Name_equals_values: "Name_equals a b \<longleftrightarrow> name_values a = name_values b"
  by (auto simp: Name_equals_def values_agree name_values_def Name_size_def list_eq_iff_nth_eq)

lemma Name_match_values:
  "Name_match a b \<longleftrightarrow> (\<exists>rest. name_values b = name_values a @ rest)"
proof
  assume "Name_match a b"
  then have l: "Name_size a \<le> Name_size b"
    and v: "\<forall>i < Name_size a. the (c_value (n_components a ! i)) = the (c_value (n_components b ! i))"
    by (auto simp: Name_match_def values_agree split: if_splits)
  then have "name_values a = take (Name_size a) (name_values b)"
    by (auto simp: name_values_def Name_size_def list_eq_iff_nth_eq)
  then show "\<exists>rest. name_values b = name_values a @ rest" by (metis append_take_drop_id)
next
  assume "\<exists>rest. name_values b = name_values a @ rest"
  then obtain rest where r: "name_values b = name_values a @ rest" by blast
  from arg_cong [OF r, of length] have l: "Name_size b = Name_size a + length rest"
    unfolding length_append length_name_values .
  have "the (c_value (n_components a ! i)) = the (c_value (n_components b ! i))" if "i < Name_size a" for i
    using arg_cong [OF r, of "\<lambda>xs. xs ! i"] that l by (simp add: name_values_def Name_size_def nth_append)
  with l show "Name_match a b" by (auto simp: Name_match_def values_agree)
qed

lemma Name_match_refl [simp]: "Name_match a a"
  by (simp add: Name_match_values)

lemma Name_match_trans: "Name_match a b \<Longrightarrow> Name_match b c \<Longrightarrow> Name_match a c"
  by (auto simp: Name_match_values)

lemma Name_equals_match: "Name_equals a b \<longleftrightarrow> Name_match a b \<and> Name_match b a"
  by (auto simp: Name_equals_values Name_match_values)

text \<open>The C match sees the same bytes.\<close>

lemma C_bytes_equal:
  "blob_size a = blob_size b \<and> ndn_memcmp (blob_bytes a) (blob_bytes b) = 0 \<longleftrightarrow> blob_bytes a = blob_bytes b"
  by (metis length_blob_bytes ndn_memcmp_eq_0)

lemma bytes_agree:
  "bytes_agree cs ds n \<longleftrightarrow> (\<forall>i < n. blob_bytes (c_value (cs ! i)) = blob_bytes (c_value (ds ! i)))"
proof (induction n)
  case (Suc n)
  have "bytes_agree cs ds (Suc n) \<longleftrightarrow>
      blob_bytes (c_value (cs ! n)) = blob_bytes (c_value (ds ! n)) \<and> bytes_agree cs ds n"
    by (auto simp: Let_def simp flip: C_bytes_equal)
  with Suc show ?case by (auto simp: less_Suc_eq)
qed simp

lemma components_agree:
  "components_agree cs ds n \<longleftrightarrow> (\<forall>i < n. ndn_NameComponent_equals (cs ! i) (ds ! i))"
  by (induction n) (auto simp: less_Suc_eq)

section \<open>The canonical order of names\<close>

text \<open>The specification: component by component, a proper prefix comes first.\<close>

fun comps_compare :: "component list \<Rightarrow> component list \<Rightarrow> int" where
  "comps_compare [] [] = 0"
| "comps_compare [] (d # ds) = -1"
| "comps_compare (c # cs) [] = 1"
| "comps_compare (c # cs) (d # ds) =
     (let r = Component_compare c d in if r = 0 then comps_compare cs ds else r)"

interpretation name_order: three_way comps_compare
proof
  fix xs ys zs :: "component list"
  show "comps_compare ys xs = - comps_compare xs ys"
  proof (induction xs ys rule: comps_compare.induct)
    case (4 c cs d ds)
    then show ?case using component_order.cmp_swap [of d c] by (simp add: Let_def)
  qed simp_all
  show "comps_compare xs ys \<le> 0 \<Longrightarrow> comps_compare ys zs \<le> 0 \<Longrightarrow> comps_compare xs zs \<le> 0"
  proof (induction xs ys arbitrary: zs rule: comps_compare.induct)
    case (2 d ds)
    then show ?case by (cases zs) auto
  next
    case (4 c cs d ds)
    then obtain e es where zs: "zs = e # es" by (cases zs) auto
    let ?cd = "Component_compare c d" and ?de = "Component_compare d e" and ?ce = "Component_compare c e"
    have le: "?cd \<le> 0" "?de \<le> 0" using 4(2,3) zs by (auto simp: Let_def split: if_splits)
    show ?case
    proof (cases "?ce = 0")
      case True
      have "?cd < 0 \<Longrightarrow> ?ce < 0" by (rule component_order.less_le_trans [OF _ le(2)])
      moreover have "?de < 0 \<Longrightarrow> ?ce < 0" by (rule component_order.le_less_trans [OF le(1)])
      ultimately have cd: "?cd = 0" and de: "?de = 0" using le True by linarith+
      have a: "comps_compare cs ds \<le> 0" using 4(2) cd by (simp add: Let_def)
      have b: "comps_compare ds es \<le> 0" using 4(3) zs de by (simp add: Let_def)
      have "comps_compare cs es \<le> 0" by (rule 4(1) [OF refl cd a b])
      with True zs show ?thesis by (simp add: Let_def)
    next
      case False
      with component_order.cmp_trans [OF le] zs show ?thesis by (simp add: Let_def)
    qed
  qed (auto split: if_splits)
qed

lemma Name_compare_loop_step:
  assumes "i < length cs" and "j < length ds" and "i < 2 ^ 63" and "j < 2 ^ 63"
  shows "Name_compare_loop cs ds (int i) (int j) (Suc k) =
     (let r = Component_compare (cs ! i) (ds ! j) in
      if r = 0 then Name_compare_loop cs ds (int (Suc i)) (int (Suc j)) k else Some r)"
  using assms by (simp add: Let_def add.commute)

lemma Name_compare_loop:
  assumes "i + k \<le> length cs" and "j + k \<le> length ds" and "length cs < 2 ^ 63" and "length ds < 2 ^ 63"
  shows "Name_compare_loop cs ds (int i) (int j) k =
         Some (comps_compare (take k (drop i cs)) (take k (drop j ds)))"
  using assms(1,2)
proof (induction k arbitrary: i j)
  case (Suc k)
  then have ij: "i < length cs" "j < length ds" by auto
  then have ij': "drop i cs = cs ! i # drop (Suc i) cs" "drop j ds = ds ! j # drop (Suc j) ds"
    by (simp_all add: Cons_nth_drop_Suc)
  have "i < 2 ^ 63" "j < 2 ^ 63" using ij assms(3,4) by linarith+
  note step = Name_compare_loop_step [OF ij this, of k]
  have "Name_compare_loop cs ds (int (Suc i)) (int (Suc j)) k =
      Some (comps_compare (take k (drop (Suc i) cs)) (take k (drop (Suc j) ds)))"
    using Suc.prems by (intro Suc.IH) auto
  with step ij' show ?case by (simp add: Let_def)
qed simp

lemma comps_compare_truncate:
  "comps_compare xs ys =
     (let k = min (length xs) (length ys); r = comps_compare (take k xs) (take k ys) in
      if r \<noteq> 0 then r else if length xs < length ys then -1 else if length xs > length ys then 1 else 0)"
  by (induction xs ys rule: comps_compare.induct) (auto simp: Let_def)

text \<open>\<^verbatim>\<open>compare\<close> on ranges from non-negative start indexes compares the two sub-names.\<close>

lemma Name_compare_sub:
  assumes "i \<le> Name_size a" and "j \<le> Name_size b" and "small_name a" and "small_name b"
  shows "Name_compare_sub (int i) n b (int j) m a =
         Some (comps_compare (take n (drop i (n_components a))) (take m (drop j (n_components b))))"
proof -
  let ?as = "take n (drop i (n_components a))" and ?bs = "take m (drop j (n_components b))"
  let ?n = "min n (Name_size a - i)" and ?m = "min m (Name_size b - j)"
  have sz: "to_size (int (Name_size a) - int i) = Name_size a - i"
           "to_size (int (Name_size b) - int j) = Name_size b - j"
    using assms by (simp_all add: to_size_nonneg small_name_def nat_diff_distrib)
  have len: "length ?as = ?n" "length ?bs = ?m" by (simp_all add: Name_size_def min.commute)
  have "Name_compare_loop (n_components a) (n_components b) (int i) (int j) (min ?n ?m) =
      Some (comps_compare (take (min ?n ?m) (drop i (n_components a)))
                          (take (min ?n ?m) (drop j (n_components b))))"
    using assms by (intro Name_compare_loop) (auto simp: small_name_def Name_size_def)
  also have "take (min ?n ?m) (drop i (n_components a)) = take (min ?n ?m) ?as"
    by (simp add: min.commute min.left_commute)
  also have "take (min ?n ?m) (drop j (n_components b)) = take (min ?n ?m) ?bs"
    by (simp add: min.commute min.left_commute)
  finally have loop: "Name_compare_loop (n_components a) (n_components b) (int i) (int j) (min ?n ?m) =
      Some (comps_compare (take (min ?n ?m) ?as) (take (min ?n ?m) ?bs))" .
  have pos: "(int k < 0) = False" for k by simp
  have if_Some: "(if c then Some x else Some y) = Some (if c then x else y)" for c and x y :: int
    by simp
  show ?thesis
    unfolding comps_compare_truncate [of ?as ?bs] len
    by (simp only: Name_compare_sub_def Let_def sz pos if_False loop option.case if_Some)
qed

lemma Name_compare:
  assumes "small_name a" and "small_name b"
  shows "Name_compare a b = comps_compare (n_components a) (n_components b)"
  using Name_compare_sub [of 0 a 0 b "Name_size a" "Name_size b"] assms
  by (simp add: Name_compare_def Name_size_def)

lemma comps_compare_eq_0:
  "comps_compare cs ds = 0 \<longleftrightarrow> list_all2 (\<lambda>c d. Component_compare c d = 0) cs ds"
  by (induction cs ds rule: comps_compare.induct) (auto simp: Let_def)

lemma comps_compare_wf:
  assumes "\<forall>c \<in> set cs. component_wf c" and "\<forall>d \<in> set ds. component_wf d"
  shows "comps_compare cs ds = 0 \<longleftrightarrow> cs = ds"
proof -
  have "list_all2 (\<lambda>c d. Component_compare c d = 0) cs ds \<longleftrightarrow> list_all2 (=) cs ds"
    using assms by (auto simp: list_all2_conv_all_nth Component_compare_wf)
  then show ?thesis by (simp add: comps_compare_eq_0 list.rel_eq)
qed

lemma comps_compare_prefix: "ds \<noteq> [] \<Longrightarrow> comps_compare cs (cs @ ds) < 0"
  by (induction cs) (cases ds, simp_all add: Let_def)

section \<open>The successor delimits the names below a prefix\<close>

lemma Name_getSuccessor_components:
  assumes "n_components n = ps @ [c]" and "small_name n"
  shows "Name_getSuccessor n = bindE (Component_getSuccessor c) (\<lambda>s. Inr (Name_append s (Name_of ps)))"
proof -
  have sz: "Name_size n = Suc (length ps)" using assms(1) by (simp add: Name_size_def)
  have "n_components (Name_getPrefix (-1) n) = ps"
    using assms sz by (subst Name_getPrefix_neg) simp_all
  moreover have "Name_getPrefix k n = Name_of (n_components (Name_getPrefix k n))" for k
    by (simp add: Name_getPrefix_def Name_getSubName_def Let_def)
  ultimately have "Name_getPrefix (-1) n = Name_of ps" by metis
  with assms sz show ?thesis
    by (simp add: Name_getSuccessor_def Name_get_last)
qed

lemma successor_between:
  assumes s: "Component_getSuccessor c = Inr s"
  shows "Component_compare c d \<le> 0 \<and> Component_compare d s < 0 \<longleftrightarrow> Component_compare c d = 0"
proof
  assume "Component_compare c d \<le> 0 \<and> Component_compare d s < 0"
  moreover have "Component_compare c d < 0 \<Longrightarrow> \<not> Component_compare d s < 0"
    using successor_least [OF s] component_order.less_iff_not_ge by simp
  ultimately show "Component_compare c d = 0" by linarith
next
  assume z: "Component_compare c d = 0"
  then have "Component_compare d c \<le> 0" using component_order.cmp_swap [of d c] by simp
  from component_order.le_less_trans [OF this successor_greater [OF s]] z
  show "Component_compare c d \<le> 0 \<and> Component_compare d s < 0" by simp
qed

text \<open>
  A name lies between a name and its successor exactly when it has the name as a prefix (in the
  canonical order, so with the component types).
\<close>

lemma comps_successor_range:
  assumes s: "Component_getSuccessor c = Inr s"
  shows "comps_compare (ps @ [c]) ds \<le> 0 \<and> comps_compare ds (ps @ [s]) < 0 \<longleftrightarrow>
         length ps < length ds \<and> comps_compare (ps @ [c]) (take (Suc (length ps)) ds) = 0"
proof (induction ps arbitrary: ds)
  case Nil
  show ?case
  proof (cases ds)
    case (Cons d ds')
    have "comps_compare [c] (d # ds') \<le> 0 \<longleftrightarrow> Component_compare c d \<le> 0"
      by (cases ds') (auto simp: Let_def)
    moreover have "comps_compare (d # ds') [s] < 0 \<longleftrightarrow> Component_compare d s < 0"
      by (cases ds') (auto simp: Let_def)
    ultimately show ?thesis using successor_between [OF s, of d] Cons by (simp add: Let_def)
  qed simp
next
  case (Cons p ps)
  show ?case
  proof (cases ds)
    case (Cons d ds')
    have "Component_compare d p = - Component_compare p d" by (rule component_order.cmp_swap)
    with Cons.IH [of ds'] Cons show ?thesis by (auto simp: Let_def)
  qed simp
qed

section \<open>The cached hash\<close>

definition hash_wf :: "name \<Rightarrow> bool" where
  "hash_wf n \<longleftrightarrow> n_hashCodeChangeCount n \<le> n_changeCount n \<and>
     (n_hashCodeChangeCount n = n_changeCount n \<longrightarrow>
      n_hashCode n \<in> {0, word_of_int (components_hash (n_components n))})"

lemma hash_wf_new [simp]: "hash_wf (Name_of cs)"
  by (simp add: hash_wf_def Name_of_def)

lemma Name_hash:
  assumes "hash_wf n"
  shows "fst (Name_hash n) = word_of_int (components_hash (n_components n))"
    and "hash_wf (snd (Name_hash n))"
    and "n_components (snd (Name_hash n)) = n_components n"
    and "n_changeCount (snd (Name_hash n)) = n_changeCount n"
  using assms by (auto simp: Name_hash_def hash_wf_def Let_def)

lemma changeCount_less: "n_changeCount n \<noteq> -1 \<Longrightarrow> n_changeCount n < n_changeCount n + 1"
  by (simp add: word_less_nat_alt unat_inc)

lemma hash_wf_change:
  assumes "hash_wf n" and "n_changeCount n \<noteq> -1"
  shows "hash_wf (n\<lparr>n_components := cs, n_changeCount := n_changeCount n + 1\<rparr>)"
proof -
  have "n_hashCodeChangeCount n < n_changeCount n + 1"
    using assms changeCount_less [OF assms(2)] by (auto simp: hash_wf_def intro: le_less_trans)
  then show ?thesis by (auto simp: hash_wf_def)
qed

text \<open>The calls that change a name or read its hash.\<close>

datatype name_op = AppendOp component | ClearOp | HashOp

fun name_op_step :: "name_op \<Rightarrow> name \<Rightarrow> name" where
  "name_op_step (AppendOp c) n = Name_append c n"
| "name_op_step ClearOp n = Name_clear n"
| "name_op_step HashOp n = snd (Name_hash n)"

lemma name_ops_hash_wf:
  assumes "unat (n_changeCount n) + length ops < 2 ^ 64" and "hash_wf n"
  shows "hash_wf (fold name_op_step ops n)"
  using assms
proof (induction ops arbitrary: n)
  case (Cons a ops)
  then have lt: "unat (n_changeCount n) + 1 < 2 ^ 64" by simp
  then have ne: "n_changeCount n \<noteq> -1" by (auto simp: unsigned_minus_1_eq_mask mask_eq_exp_minus_1)
  have cnt: "unat (n_changeCount n + 1) = unat (n_changeCount n) + 1"
    by (rule unat_inc [OF ne])
  show ?case
  proof (cases a)
    case (AppendOp c)
    have "hash_wf (Name_append c n)"
      unfolding Name_append_def by (rule hash_wf_change [OF Cons.prems(2) ne])
    moreover have "n_changeCount (Name_append c n) = n_changeCount n + 1" by (simp add: Name_append_def)
    ultimately show ?thesis using Cons AppendOp cnt by simp
  next
    case ClearOp
    have "hash_wf (Name_clear n)"
      unfolding Name_clear_def by (rule hash_wf_change [OF Cons.prems(2) ne])
    moreover have "n_changeCount (Name_clear n) = n_changeCount n + 1" by (simp add: Name_clear_def)
    ultimately show ?thesis using Cons ClearOp cnt by simp
  next
    case HashOp
    then show ?thesis using Cons Name_hash [OF Cons.prems(2)] by simp
  qed
qed simp

section \<open>The C struct and the C++ class\<close>

lemma ndn_Name_appendList:
  "ndn_Name_appendList cs n =
     (if length (cn_components n) + length cs \<le> cn_maxComponents n
      then Inr (n\<lparr>cn_components := cn_components n @ cs\<rparr>)
      else if cs = [] then Inr n else Inl NDN_ERROR_attempt_to_add_a_component_past_the_maximum_number_of_components_allowed_in_the_name)"
  by (induction cs arbitrary: n) (auto simp: ndn_Name_appendNameComponent_def)

lemma Component_lite_id:
  assumes "component_wf c" and "is_digest c \<longrightarrow> blob_size (c_value c) = 32"
  shows "Component_lite c = c"
  using assms
  by (cases c; cases "c_type c")
     (auto simp: Component_lite_def Component_get_def ndn_NameComponent_setParametersSha256Digest_def
        ndn_NameComponent_setType_def ndn_NameComponent_initialize_def component_wf_def is_digest_def
        ndn_SHA256_DIGEST_SIZE_def Let_def)

text \<open>Through a C name and back: the components survive, when the array is large enough.\<close>

lemma Name_lite_roundtrip:
  assumes "\<forall>c \<in> set (n_components n). component_wf c \<and> (is_digest c \<longrightarrow> blob_size (c_value c) = 32)"
    and "Name_size n \<le> cn_maxComponents lite"
  shows "\<exists>l. Name_get_lite lite n = Inr l \<and> cn_components l = n_components n \<and>
             n_components (Name_set_lite l m) = n_components n"
proof -
  have "map Component_lite (n_components n) = n_components n"
    using assms(1) Component_lite_id by (simp add: map_idI)
  with assms(2) show ?thesis
    by (simp add: Name_get_lite_def ndn_Name_appendList Name_size_def Name_set_lite_def
                  n_components_fold_append)
qed

section \<open>Properties\<close>

text \<open>
  C3. The successor of a non-empty name delimits the names below it: another name is at or after the
  name and before its successor, in the canonical order, exactly when the name is a prefix of it.
\<close>

theorem name_successor_delimits:
  assumes "Name_getSuccessor n = Inr s" and "n_components n \<noteq> []"
    and "small_name n" and "small_name s" and "small_name x"
  shows "Name_compare n x \<le> 0 \<and> Name_compare x s < 0 \<longleftrightarrow>
         Name_size n \<le> Name_size x \<and>
         comps_compare (n_components n) (take (Name_size n) (n_components x)) = 0"
proof -
  obtain ps c where n: "n_components n = ps @ [c]" using assms(2) by (cases "n_components n" rule: rev_cases) auto
  with assms(1,3) obtain t where t: "Component_getSuccessor c = Inr t" "n_components s = ps @ [t]"
    by (auto simp: Name_getSuccessor_components bindE_eq_Inr)
  show ?thesis
    using comps_successor_range [OF t(1), of ps "n_components x"] n t(2) assms(3-5)
    by (simp add: Name_compare Name_size_def Suc_le_eq)
qed

theorem name_successor_delimits_witness:
  "let n = Name_of [Component_generic (Some [0, 1]), Component_generic (Some [1, 0xFF])];
       s = Name_of [Component_generic (Some [0, 1]), Component_generic (Some [2, 0])];
       x = Name_of [Component_generic (Some [0, 1]), Component_generic (Some [1, 0xFF]), Component_generic (Some [7])]
   in Name_compare n x \<le> 0 \<and> Name_compare x s < 0"
proof -
  let ?n = "Name_of [Component_generic (Some [0, 1]), Component_generic (Some [1, 0xFF])]"
  let ?s = "Name_of [Component_generic (Some [0, 1]), Component_generic (Some [2, 0])]"
  let ?x = "Name_of [Component_generic (Some [0, 1]), Component_generic (Some [1, 0xFF]), Component_generic (Some [7])]"
  have s: "Name_getSuccessor ?n = Inr (?s\<lparr>n_changeCount := 1\<rparr>)" by code_simp
  have "comps_compare (n_components ?n) (take (Name_size ?n) (n_components ?x)) = 0" by code_simp
  then have "Name_compare ?n ?x \<le> 0 \<and> Name_compare ?x (?s\<lparr>n_changeCount := 1\<rparr>) < 0"
    using name_successor_delimits [OF s, of ?x] by (simp add: small_name_def Name_size_def Name_of_def)
  moreover have "Name_compare ?x (?s\<lparr>n_changeCount := 1\<rparr>) = Name_compare ?x ?s"
    by (simp add: Name_compare_def Name_compare_sub_def Name_size_def Name_of_def)
  ultimately show ?thesis by (simp add: Let_def)
qed

text \<open>
  C4. \<^verbatim>\<open>compare\<close> is a total order on well-formed names: antisymmetric, transitive, and 0 exactly for the
  same components; a proper prefix comes first.
\<close>

theorem name_compare_total_order:
  assumes "small_name a" and "small_name b" and "small_name c"
    and "\<forall>x \<in> set (n_components a) \<union> set (n_components b). component_wf x"
  shows "Name_compare b a = - Name_compare a b \<and>
    (Name_compare a b \<le> 0 \<and> Name_compare b c \<le> 0 \<longrightarrow> Name_compare a c \<le> 0) \<and>
    (Name_compare a b = 0 \<longleftrightarrow> n_components a = n_components b) \<and>
    (n_components b = n_components a @ d # ds \<longrightarrow> Name_compare a b < 0)"
  using assms name_order.cmp_swap [of "n_components a" "n_components b"]
    name_order.cmp_trans [of "n_components a" "n_components b" "n_components c"]
    comps_compare_wf [of "n_components a" "n_components b"] comps_compare_prefix [of "d # ds" "n_components a"]
  by (simp_all add: Name_compare)

theorem name_compare_total_order_witness:
  "Name_compare (Name_of [Component_generic (Some [1])]) (Name_of [Component_generic (Some [1]), Component_generic (Some [])]) < 0"
  using name_compare_total_order
    [of "Name_of [Component_generic (Some [1])]"
        "Name_of [Component_generic (Some [1]), Component_generic (Some [])]"
        "Name_of []" "Component_generic (Some [])" "[]"]
  by (simp add: small_name_def Name_size_def component_wf_def Component_generic_def)

text \<open>
  C5. The cached hash code is never stale: after any sequence of changes and hash calls on a new name,
  \<^verbatim>\<open>hash\<close> returns the hash of the components the name has then.
\<close>

theorem name_hash_never_stale:
  assumes "length ops < 2 ^ 64"
  shows "fst (Name_hash (fold name_op_step ops (Name_of cs))) =
         word_of_int (components_hash (n_components (fold name_op_step ops (Name_of cs))))"
proof -
  have "hash_wf (fold name_op_step ops (Name_of cs))"
    using assms by (intro name_ops_hash_wf) (simp_all add: Name_of_def hash_wf_def)
  then show ?thesis by (rule Name_hash(1))
qed

theorem name_hash_never_stale_witness:
  "fst (Name_hash (fold name_op_step [HashOp, AppendOp (Component_generic (Some [5])), HashOp, ClearOp] (Name_of []))) = 0"
  using name_hash_never_stale [of "[HashOp, AppendOp (Component_generic (Some [5])), HashOp, ClearOp]" "[]"]
  by (simp add: components_hash_def)

end
