(* ===== verification/TlvDecoder.thy ===== *)
theory TlvDecoder
  imports NameOps
begin

text \<open>
  The TLV decoder of \<^verbatim>\<open>src/c/encoding/tlv/tlv-decoder.[ch]\<close>.  A decoding function takes the input
  array and the offset, both as the C code has them (the offset is a \<^verbatim>\<open>size_t\<close> that wraps around), and
  returns an error code or a value with the new offset.  Since one loop of the decoder need not end, a
  result is an option, None standing for a call that never returns.  A blob the decoder returns is a
  slice of the input (a pointer and a length), which need not lie inside the input.
\<close>

section \<open>Decoding functions\<close>

type_synonym 'a dec_result = "(ndn_error + 'a \<times> size_t) option"
type_synonym 'a dec = "bytes \<Rightarrow> size_t \<Rightarrow> 'a dec_result"

definition retD :: "'a \<Rightarrow> 'a dec" where
  "retD a input off = Some (Inr (a, off))"

definition failD :: "ndn_error \<Rightarrow> 'a dec" where
  "failD e input off = Some (Inl e)"

definition bindD :: "'a dec \<Rightarrow> ('a \<Rightarrow> 'b dec) \<Rightarrow> 'b dec" where
  "bindD m f input off =
     (case m input off of
        None \<Rightarrow> None
      | Some (Inl e) \<Rightarrow> Some (Inl e)
      | Some (Inr (a, off')) \<Rightarrow> f a input off')"

text \<open>\<^verbatim>\<open>self->offset\<close>, \<^verbatim>\<open>ndn_TlvDecoder_seek\<close> and \<^verbatim>\<open>self->inputLength\<close>.\<close>

definition getOffset :: "size_t dec" where
  "getOffset input off = Some (Inr (off, off))"

definition TlvDecoder_seek :: "size_t \<Rightarrow> unit dec" where
  "TlvDecoder_seek newOffset input off = Some (Inr ((), newOffset))"

definition inputLength :: "bytes \<Rightarrow> size_t" where
  "inputLength input = of_nat (length input)"

text \<open>A blob pointing into the input: its first offset and its length.\<close>

record slice =
  sl_offset :: size_t
  sl_length :: size_t

text \<open>The bytes of a slice; None when it reaches outside the input.\<close>

definition slice_bytes :: "bytes \<Rightarrow> slice \<Rightarrow> bytes option" where
  "slice_bytes input s =
     (if unat (sl_offset s) + unat (sl_length s) \<le> length input
      then Some (take (unat (sl_length s)) (drop (unat (sl_offset s)) input)) else None)"

section \<open>Numbers and headers\<close>

text \<open>\<^verbatim>\<open>k\<close> bytes at the offset as a big-endian number (\<^verbatim>\<open>be16toh\<close>, \<^verbatim>\<open>be32toh\<close>, \<^verbatim>\<open>be64toh\<close>).\<close>

definition read_be :: "nat \<Rightarrow> u64 dec" where
  "read_be k input off =
     (if off + of_nat k > inputLength input then Some (Inl NDN_ERROR_read_past_the_end_of_the_input)
      else Some (Inr (accumulate (take k (drop (unat off) input)), off + of_nat k)))"

definition readExtendedVarNumber :: "byte \<Rightarrow> u64 dec" where
  "readExtendedVarNumber firstOctet =
     (if firstOctet = 253 then read_be 2
      else if firstOctet = 254 then read_be 4
      else read_be 8)"

definition readVarNumber :: "u64 dec" where
  "readVarNumber input off =
     (if off \<ge> inputLength input then Some (Inl NDN_ERROR_read_past_the_end_of_the_input)
      else let firstOctet = input ! unat off in
           if firstOctet < 253 then Some (Inr (ucast firstOctet, off + 1))
           else readExtendedVarNumber firstOctet input (off + 1))"

definition readTypeAndLength :: "u32 \<Rightarrow> size_t dec" where
  "readTypeAndLength expectedType =
     bindD readVarNumber (\<lambda>type.
       if type \<noteq> ucast expectedType then failD NDN_ERROR_did_not_get_the_expected_TLV_type
       else bindD readVarNumber (\<lambda>len input off.
         if off + len > inputLength input then Some (Inl NDN_ERROR_TLV_length_exceeds_buffer_length)
         else Some (Inr (len, off))))"

definition readNestedTlvsStart :: "u32 \<Rightarrow> size_t dec" where
  "readNestedTlvsStart expectedType =
     bindD (readTypeAndLength expectedType) (\<lambda>len.
     bindD getOffset (\<lambda>off. retD (off + len)))"

definition is_critical :: "u64 \<Rightarrow> bool" where
  "is_critical type \<longleftrightarrow> type \<le> 31 \<or> type AND 1 = 1"

text \<open>
  The loop of \<^verbatim>\<open>ndn_TlvDecoder_skipRemainingNestedTlvs\<close>.  The addition to the offset wraps around, so
  the offset may move back and the loop may run forever.
\<close>

definition skip_one :: "bool \<Rightarrow> size_t dec" where
  "skip_one skipCritical =
     bindD readVarNumber (\<lambda>type. bindD readVarNumber (\<lambda>lengthVarNumber input off.
       if is_critical type \<and> \<not> skipCritical then Some (Inl NDN_ERROR_Unrecognized_critical_TLV_type_code)
       else let off = off + lengthVarNumber in
            if off > inputLength input then Some (Inl NDN_ERROR_TLV_length_exceeds_buffer_length)
            else Some (Inr (off, off))))"

partial_function (option) skip_loop :: "size_t \<Rightarrow> bool \<Rightarrow> bytes \<Rightarrow> size_t \<Rightarrow> unit dec_result" where
  "skip_loop endOffset skipCritical input off =
     (if off < endOffset
      then case skip_one skipCritical input off of
             None \<Rightarrow> None
           | Some (Inl e) \<Rightarrow> Some (Inl e)
           | Some (Inr (_, off')) \<Rightarrow> skip_loop endOffset skipCritical input off'
      else if off \<noteq> endOffset
      then Some (Inl NDN_ERROR_TLV_length_does_not_equal_total_length_of_nested_TLVs)
      else Some (Inr ((), off)))"

definition skipRemainingNestedTlvs :: "size_t \<Rightarrow> bool \<Rightarrow> unit dec" where
  "skipRemainingNestedTlvs endOffset skipCritical = skip_loop endOffset skipCritical"

definition finishNestedTlvs :: "size_t \<Rightarrow> unit dec" where
  "finishNestedTlvs endOffset =
     bindD getOffset (\<lambda>off. if off \<noteq> endOffset then skipRemainingNestedTlvs endOffset False else retD ())"

definition finishNestedTlvsSkipCritical :: "size_t \<Rightarrow> unit dec" where
  "finishNestedTlvsSkipCritical endOffset =
     bindD getOffset (\<lambda>off. if off \<noteq> endOffset then skipRemainingNestedTlvs endOffset True else retD ())"

section \<open>Optional and typed values\<close>

definition peekType :: "u32 \<Rightarrow> size_t \<Rightarrow> bool dec" where
  "peekType expectedType endOffset =
     bindD getOffset (\<lambda>saveOffset.
       if saveOffset \<ge> endOffset then retD False
       else bindD readVarNumber (\<lambda>type.
            bindD (TlvDecoder_seek saveOffset) (\<lambda>_. retD (type = ucast expectedType))))"

definition readExtendedNonNegativeInteger :: "size_t \<Rightarrow> u64 dec" where
  "readExtendedNonNegativeInteger len =
     (if len = 2 then read_be 2 else if len = 4 then read_be 4 else if len = 8 then read_be 8
      else failD NDN_ERROR_Invalid_length_for_nonNegativeInteger)"

definition readNonNegativeInteger :: "size_t \<Rightarrow> u64 dec" where
  "readNonNegativeInteger len =
     (if len = 1
      then (\<lambda>input off.
              if off \<ge> inputLength input then Some (Inl NDN_ERROR_read_past_the_end_of_the_input)
              else Some (Inr (ucast (input ! unat off), off + 1)))
      else readExtendedNonNegativeInteger len)"

definition readNonNegativeIntegerTlv :: "u32 \<Rightarrow> u64 dec" where
  "readNonNegativeIntegerTlv expectedType =
     bindD (readTypeAndLength expectedType) readNonNegativeInteger"

text \<open>\<^verbatim>\<open>(int)unsignedValue\<close> keeps the low 32 bits.\<close>

definition readOptionalNonNegativeIntegerTlv :: "u32 \<Rightarrow> size_t \<Rightarrow> int dec" where
  "readOptionalNonNegativeIntegerTlv expectedType endOffset =
     bindD (peekType expectedType endOffset) (\<lambda>gotExpectedType.
       if \<not> gotExpectedType then retD (-1)
       else bindD (readNonNegativeIntegerTlv expectedType) (\<lambda>v. retD (to_int (uint v))))"

definition readBlobTlv :: "u32 \<Rightarrow> slice dec" where
  "readBlobTlv expectedType =
     bindD (readTypeAndLength expectedType) (\<lambda>len.
     bindD getOffset (\<lambda>off.
     bindD (TlvDecoder_seek (off + len)) (\<lambda>_. retD \<lparr>sl_offset = off, sl_length = len\<rparr>)))"

definition readOptionalBlobTlv :: "u32 \<Rightarrow> size_t \<Rightarrow> slice option dec" where
  "readOptionalBlobTlv expectedType endOffset =
     bindD (peekType expectedType endOffset) (\<lambda>gotExpectedType.
       if \<not> gotExpectedType then retD None
       else bindD (readBlobTlv expectedType) (\<lambda>s. retD (Some s)))"

definition readBooleanTlv :: "u32 \<Rightarrow> size_t \<Rightarrow> bool dec" where
  "readBooleanTlv expectedType endOffset =
     bindD (peekType expectedType endOffset) (\<lambda>gotExpectedType.
       if \<not> gotExpectedType then retD False
       else bindD (readTypeAndLength expectedType) (\<lambda>len.
            bindD getOffset (\<lambda>off.
            bindD (TlvDecoder_seek (off + len)) (\<lambda>_. retD True))))"

definition skipTlv :: "u32 \<Rightarrow> unit dec" where
  "skipTlv expectedType =
     bindD (readTypeAndLength expectedType) (\<lambda>len.
     bindD getOffset (\<lambda>off. TlvDecoder_seek (off + len)))"

definition skipOptionalTlv :: "u32 \<Rightarrow> size_t \<Rightarrow> unit dec" where
  "skipOptionalTlv expectedType endOffset =
     bindD (peekType expectedType endOffset) (\<lambda>gotExpectedType.
       if gotExpectedType then skipTlv expectedType else retD ())"

definition getSlice :: "size_t \<Rightarrow> size_t \<Rightarrow> slice dec" where
  "getSlice beginOffset endOffset input off =
     (if beginOffset > inputLength input \<or> endOffset > inputLength input
      then Some (Inl NDN_ERROR_read_past_the_end_of_the_input)
      else Some (Inr (\<lparr>sl_offset = beginOffset,
                       sl_length = (if beginOffset > endOffset then 0 else endOffset - beginOffset)\<rparr>, off)))"

section \<open>Reading what was written\<close>

text \<open>
  \<^verbatim>\<open>reads d pre bs post v\<close>: at the offset after \<^verbatim>\<open>pre\<close>, the function \<^verbatim>\<open>d\<close> consumes exactly \<^verbatim>\<open>bs\<close>
  and returns \<^verbatim>\<open>v\<close>.  Inputs are shorter than \<^verbatim>\<open>2^63\<close> bytes, which every array in memory is.
\<close>

definition at_pos :: "bytes \<Rightarrow> size_t" where
  "at_pos pre = of_nat (length pre)"

definition reads :: "'a dec \<Rightarrow> bytes \<Rightarrow> bytes \<Rightarrow> bytes \<Rightarrow> 'a \<Rightarrow> bool" where
  "reads d pre bs post v \<longleftrightarrow> d (pre @ bs @ post) (at_pos pre) = Some (Inr (v, at_pos (pre @ bs)))"

definition small_input :: "bytes \<Rightarrow> bool" where
  "small_input input \<longleftrightarrow> length input < 2 ^ 63"

lemma unat_small [simp]: "n < 2 ^ 63 \<Longrightarrow> unat (of_nat n :: size_t) = n"
  by (simp add: unat_of_nat)

lemma of_nat_le_small: "m < 2 ^ 63 \<Longrightarrow> n < 2 ^ 63 \<Longrightarrow> (of_nat m :: size_t) \<le> of_nat n \<longleftrightarrow> m \<le> n"
  by (simp add: word_le_nat_alt)

lemma of_nat_less_small: "m < 2 ^ 63 \<Longrightarrow> n < 2 ^ 63 \<Longrightarrow> (of_nat m :: size_t) < of_nat n \<longleftrightarrow> m < n"
  by (simp add: word_less_nat_alt)

lemma of_nat_eq_small: "m < 2 ^ 63 \<Longrightarrow> n < 2 ^ 63 \<Longrightarrow> (of_nat m :: size_t) = of_nat n \<longleftrightarrow> m = n"
  by (metis unat_small)

lemma at_append [simp]: "at_pos (xs @ ys) = at_pos xs + of_nat (length ys)"
  by (simp add: at_pos_def)

lemma at_Nil [simp]: "at_pos [] = 0"
  by (simp add: at_pos_def)

lemma reads_ret [simp]: "reads (retD v) pre [] post v"
  by (simp add: reads_def retD_def)

lemma reads_bind:
  assumes "reads d pre b1 (b2 @ post) v" and "reads (f v) (pre @ b1) b2 post w"
  shows "reads (bindD d f) pre (b1 @ b2) post w"
  using assms by (simp add: reads_def bindD_def add.assoc)

lemma reads_bind_ret: "reads d pre bs post v \<Longrightarrow> reads (bindD d (\<lambda>x. retD (f x))) pre bs post (f v)"
  using reads_bind [of d pre bs "[]" post v "\<lambda>x. retD (f x)"] by simp

lemma reads_bind_ret2:
  "reads d pre bs post (x, y) \<Longrightarrow> reads (bindD d (\<lambda>(a, b). retD (f a b))) pre bs post (f x y)"
  using reads_bind [of d pre bs "[]" post "(x, y)" "\<lambda>(a, b). retD (f a b)"] by simp

lemma reads_getOffset [simp]: "reads getOffset pre [] post (at_pos pre)"
  by (simp add: reads_def getOffset_def)

lemma reads_bind_getOffset:
  "reads (f (at_pos pre)) pre bs post v \<Longrightarrow> reads (bindD getOffset f) pre bs post v"
  using reads_bind [of getOffset pre "[]" bs post "at_pos pre" f v] by simp

lemma small_inputD: "small_input (pre @ bs @ post) \<Longrightarrow> length pre + length bs < 2 ^ 63"
  by (simp add: small_input_def)

lemma at_le_inputLength:
  "small_input (pre @ bs @ post) \<Longrightarrow> \<not> at_pos pre + of_nat (length bs) > inputLength (pre @ bs @ post)"
proof -
  assume s: "small_input (pre @ bs @ post)"
  then have "(of_nat (length pre + length bs) :: size_t) \<le> of_nat (length (pre @ bs @ post))"
    by (subst of_nat_le_small) (auto simp: small_input_def)
  then show ?thesis by (simp add: at_pos_def inputLength_def)
qed

lemma reads_read_be:
  assumes "small_input (pre @ bs @ post)" and "length bs = k"
  shows "reads (read_be k) pre bs post (accumulate bs)"
proof -
  have u: "unat (at_pos pre) = length pre" using assms(1) by (simp add: at_pos_def small_input_def)
  show ?thesis
    using at_le_inputLength [OF assms(1)] assms(2) by (simp add: reads_def read_be_def u)
qed

lemma small_assoc:
  "small_input (pre @ (x # bs) @ post) \<Longrightarrow> small_input ((pre @ [x]) @ bs @ post)"
  by simp

lemma reads_first:
  assumes "small_input (pre @ (x # bs) @ post)"
  shows "\<not> at_pos pre \<ge> inputLength (pre @ (x # bs) @ post)"
    and "(pre @ (x # bs) @ post) ! unat (at_pos pre) = x"
proof -
  have u: "unat (at_pos pre) = length pre" using assms by (simp add: at_pos_def small_input_def)
  have "(of_nat (length (pre @ (x # bs) @ post)) :: size_t) \<le> of_nat (length pre) \<longleftrightarrow>
        length (pre @ (x # bs) @ post) \<le> length pre"
    using assms by (intro of_nat_le_small) (simp_all add: small_input_def)
  then show "\<not> at_pos pre \<ge> inputLength (pre @ (x # bs) @ post)" by (simp add: at_pos_def inputLength_def)
  show "(pre @ (x # bs) @ post) ! unat (at_pos pre) = x" unfolding u by simp
qed

lemma reads_readVarNumber_small:
  assumes s: "small_input (pre @ [x] @ post)" and x: "x < 253"
  shows "reads readVarNumber pre [x] post (ucast x)"
  using reads_first [of pre x "[]" post] s x by (simp add: reads_def readVarNumber_def Let_def)

lemma reads_readVarNumber_extended:
  assumes s: "small_input (pre @ (x # bs) @ post)" and x: "\<not> x < 253"
    and k: "length bs = (if x = 253 then 2 else if x = 254 then 4 else 8)"
  shows "reads readVarNumber pre (x # bs) post (accumulate bs)"
proof -
  have "reads (read_be (length bs)) (pre @ [x]) bs post (accumulate bs)"
    using s by (intro reads_read_be) simp_all
  then have "reads (readExtendedVarNumber x) (pre @ [x]) bs post (accumulate bs)"
    using k by (auto simp: readExtendedVarNumber_def)
  then have "readExtendedVarNumber x (pre @ (x # bs) @ post) (at_pos pre + 1) =
      Some (Inr (accumulate bs, at_pos (pre @ x # bs)))"
    by (simp add: reads_def add.assoc)
  with reads_first [OF s] x show ?thesis by (simp add: reads_def readVarNumber_def Let_def)
qed

lemma reads_readVarNumber:
  assumes s: "small_input (pre @ var_number v @ post)"
  shows "reads readVarNumber pre (var_number v) post v"
proof -
  have be: "unat v < 2 ^ (8 * k) \<Longrightarrow> accumulate (be_bytes k v) = v" for k
    by (simp add: accumulate_be_bytes take_bit_id)
  consider "v < 253" | "\<not> v < 253" "v \<le> 0xffff" | "\<not> v \<le> 0xffff" "v \<le> 0xffffffff" | "\<not> v \<le> 0xffffffff"
    by blast
  then show ?thesis
  proof cases
    case 1
    then have u: "unat v < 253" by (simp add: word_less_nat_alt)
    then have "unat (ucast v :: byte) = unat v"
      by (simp add: unsigned_ucast_eq unsigned_take_bit_eq take_bit_nat_eq_self)
    with u have "(ucast v :: byte) < 253" by (simp add: word_less_nat_alt)
    moreover have "(ucast (ucast v :: byte) :: u64) = v"
      using u take_bit_id [of v 8] by (simp add: ucast_byte_ucast)
    ultimately show ?thesis
      using reads_readVarNumber_small [of pre "ucast v" post] s 1 by (simp add: var_number_def)
  next
    case 2
    then have "\<not> v < 253" and w: "var_number v = 253 # be_bytes 2 v" by (simp_all add: var_number_def)
    have "accumulate (be_bytes 2 v) = v" using 2 by (intro be) (simp add: word_le_nat_alt)
    then show ?thesis using reads_readVarNumber_extended [of pre 253 "be_bytes 2 v" post] s w by simp
  next
    case 3
    then have w: "var_number v = 254 # be_bytes 4 v" by (auto simp: var_number_def word_less_nat_alt word_le_nat_alt)
    have "accumulate (be_bytes 4 v) = v" using 3 by (intro be) (simp add: word_le_nat_alt)
    then show ?thesis using reads_readVarNumber_extended [of pre 254 "be_bytes 4 v" post] s w by simp
  next
    case 4
    then have w: "var_number v = 255 # be_bytes 8 v" by (auto simp: var_number_def word_less_nat_alt word_le_nat_alt)
    have "accumulate (be_bytes 8 v) = v" by (intro be) (use unsigned_less [of v, where ?'a = nat] in simp)
    then show ?thesis using reads_readVarNumber_extended [of pre 255 "be_bytes 8 v" post] s w by simp
  qed
qed

lemma reads_readTypeAndLength:
  assumes s: "small_input (pre @ (tlv_header type n) @ post)" and n: "n \<le> length post"
  shows "reads (readTypeAndLength type) pre (tlv_header type n) post (of_nat n)"
  unfolding readTypeAndLength_def tlv_header_def
proof (rule reads_bind)
  let ?t = "var_number (ucast type)" and ?l = "var_number (of_nat n)"
  have s': "small_input (pre @ ?t @ ?l @ post)" "small_input ((pre @ ?t) @ ?l @ post)"
    using s by (simp_all add: tlv_header_def)
  show "reads readVarNumber pre ?t (?l @ post) (ucast type)"
    by (rule reads_readVarNumber) (rule s')
  have inner: "reads readVarNumber (pre @ ?t) ?l post (of_nat n)"
    by (rule reads_readVarNumber) (rule s')
  have "\<not> at_pos (pre @ ?t @ ?l) + of_nat (length (take n post)) > inputLength ((pre @ ?t @ ?l) @ take n post @ drop n post)"
    using s' by (intro at_le_inputLength) simp
  then show "reads (if ucast type \<noteq> ucast type then failD NDN_ERROR_did_not_get_the_expected_TLV_type
       else bindD readVarNumber (\<lambda>len input off.
         if off + len > inputLength input then Some (Inl NDN_ERROR_TLV_length_exceeds_buffer_length)
         else Some (Inr (len, off)))) (pre @ ?t) ?l post (of_nat n)"
    using inner n by (simp add: reads_def bindD_def add.assoc)
qed

lemma reads_readBlobTlv:
  assumes s: "small_input (pre @ tlv type v @ post)"
  shows "reads (readBlobTlv type) pre (tlv type v) post
           \<lparr>sl_offset = at_pos (pre @ tlv_header type (length v)), sl_length = of_nat (length v)\<rparr>"
  unfolding readBlobTlv_def tlv_def
proof (rule reads_bind)
  let ?h = "tlv_header type (length v)"
  show "reads (readTypeAndLength type) pre ?h (v @ post) (of_nat (length v))"
    using s by (intro reads_readTypeAndLength) (simp_all add: tlv_def)
  show "reads (bindD getOffset (\<lambda>off. bindD (TlvDecoder_seek (off + of_nat (length v)))
          (\<lambda>_. retD \<lparr>sl_offset = off, sl_length = of_nat (length v)\<rparr>))) (pre @ ?h) v post
        \<lparr>sl_offset = at_pos (pre @ ?h), sl_length = of_nat (length v)\<rparr>"
    by (simp add: reads_def bindD_def getOffset_def TlvDecoder_seek_def retD_def)
qed

text \<open>The slice the decoder returns holds the value.\<close>

lemma slice_bytes_of:
  assumes "small_input (pre @ v @ post)"
  shows "slice_bytes (pre @ v @ post) \<lparr>sl_offset = at_pos pre, sl_length = of_nat (length v)\<rparr> = Some v"
  using assms by (simp add: slice_bytes_def at_pos_def small_input_def)

section \<open>Offsets stay inside the input\<close>

text \<open>
  The bounds contract of a decoding function: started inside the input, it ends inside the input,
  even where an addition to the offset wraps around.
\<close>

definition keeps_bounds :: "'a dec \<Rightarrow> bool" where
  "keeps_bounds d \<longleftrightarrow>
     (\<forall>input off v off'. small_input input \<and> off \<le> inputLength input \<and>
        d input off = Some (Inr (v, off')) \<longrightarrow> off' \<le> inputLength input)"

named_theorems bounds \<open>decoding functions that keep the offset inside the input\<close>

lemma keeps_boundsD:
  "keeps_bounds d \<Longrightarrow> small_input input \<Longrightarrow> off \<le> inputLength input \<Longrightarrow>
   d input off = Some (Inr (v, off')) \<Longrightarrow> off' \<le> inputLength input"
  by (auto simp: keeps_bounds_def)

lemma bindD_ok:
  "bindD d f input off = Some (Inr (w, off'')) \<longleftrightarrow>
   (\<exists>v off'. d input off = Some (Inr (v, off')) \<and> f v input off' = Some (Inr (w, off'')))"
  by (auto simp: bindD_def split: option.splits sum.splits prod.splits)

lemma keeps_bounds_bind [bounds]:
  assumes "keeps_bounds d" and "\<And>v. keeps_bounds (f v)"
  shows "keeps_bounds (bindD d f)"
  unfolding keeps_bounds_def bindD_ok
  using keeps_boundsD [OF assms(1)] keeps_boundsD [OF assms(2)] by blast

lemma keeps_bounds_ret [bounds]: "keeps_bounds (retD v)"
  by (simp add: keeps_bounds_def retD_def)

lemma keeps_bounds_fail [bounds]: "keeps_bounds (failD e)"
  by (simp add: keeps_bounds_def failD_def)

lemma keeps_bounds_getOffset [bounds]: "keeps_bounds getOffset"
  by (simp add: keeps_bounds_def getOffset_def)

lemma keeps_bounds_if [bounds]: "keeps_bounds d \<Longrightarrow> keeps_bounds e \<Longrightarrow> keeps_bounds (if b then d else e)"
  by simp

lemma keeps_bounds_read_be [bounds]: "keeps_bounds (read_be k)"
  by (auto simp: keeps_bounds_def read_be_def split: if_splits)

lemma keeps_bounds_readVarNumber [bounds]: "keeps_bounds readVarNumber"
proof -
  have ext: "keeps_bounds (readExtendedVarNumber x)" for x
    by (simp add: readExtendedVarNumber_def keeps_bounds_read_be)
  have inc: "off < n \<Longrightarrow> off + 1 \<le> n" for off n :: size_t
    by (rule inc_le)
  show ?thesis
    unfolding keeps_bounds_def
  proof (intro allI impI, elim conjE)
    fix input off v off'
    assume a: "small_input input" "readVarNumber input off = Some (Inr (v, off'))"
    then have lt: "off < inputLength input" by (auto simp: readVarNumber_def split: if_splits)
    have "off' = off + 1 \<or> readExtendedVarNumber (input ! unat off) input (off + 1) = Some (Inr (v, off'))"
      using a(2) lt by (auto simp: readVarNumber_def Let_def split: if_splits)
    then show "off' \<le> inputLength input"
      using keeps_boundsD [OF ext a(1) inc [OF lt]] inc [OF lt] by blast
  qed
qed

text \<open>After a header, the offset plus the length is inside the input, in wrap-around arithmetic.\<close>

lemma readTypeAndLength_fits:
  "readTypeAndLength type input off = Some (Inr (len, off')) \<Longrightarrow> off' + len \<le> inputLength input"
  by (auto simp: readTypeAndLength_def bindD_def failD_def split: option.splits sum.splits if_splits)

lemma keeps_bounds_readTypeAndLength [bounds]: "keeps_bounds (readTypeAndLength type)"
proof -
  have "keeps_bounds (\<lambda>input off. if off + len > inputLength input
      then Some (Inl NDN_ERROR_TLV_length_exceeds_buffer_length) else Some (Inr (len, off)))" for len
    by (auto simp: keeps_bounds_def split: if_splits)
  then show ?thesis unfolding readTypeAndLength_def by (intro bounds)
qed

lemma keeps_bounds_advance:
  assumes "\<And>input off len off'. d input off = Some (Inr (len, off')) \<Longrightarrow> off' + len \<le> inputLength input"
  shows "keeps_bounds (bindD d (\<lambda>len. bindD getOffset (\<lambda>off. bindD (TlvDecoder_seek (off + len)) (\<lambda>_. retD (g off len)))))"
  using assms
  by (fastforce simp: keeps_bounds_def bindD_ok getOffset_def TlvDecoder_seek_def retD_def)

lemma keeps_bounds_readBlobTlv [bounds]: "keeps_bounds (readBlobTlv type)"
  unfolding readBlobTlv_def by (rule keeps_bounds_advance) (rule readTypeAndLength_fits)

lemma keeps_bounds_skipTlv [bounds]: "keeps_bounds (skipTlv type)"
  using readTypeAndLength_fits
  by (fastforce simp: skipTlv_def keeps_bounds_def bindD_ok getOffset_def TlvDecoder_seek_def)

lemma keeps_bounds_readNestedTlvsStart [bounds]: "keeps_bounds (readNestedTlvsStart type)"
  unfolding readNestedTlvsStart_def by (intro bounds)

text \<open>\<^verbatim>\<open>peekType\<close> never moves the offset.\<close>

lemma peekType_offset: "peekType type endOffset input off = Some (Inr (b, off')) \<Longrightarrow> off' = off"
  by (auto simp: peekType_def bindD_ok getOffset_def retD_def TlvDecoder_seek_def split: if_splits)

lemma keeps_bounds_peekType [bounds]: "keeps_bounds (peekType type endOffset)"
  using peekType_offset by (fastforce simp: keeps_bounds_def)

lemma keeps_bounds_readNonNegativeInteger [bounds]: "keeps_bounds (readNonNegativeInteger len)"
proof -
  have "keeps_bounds (\<lambda>input off. if off \<ge> inputLength input then Some (Inl NDN_ERROR_read_past_the_end_of_the_input)
      else Some (Inr (ucast (input ! unat off) :: u64, off + 1)))"
    by (auto simp: keeps_bounds_def not_le intro: inc_le)
  then show ?thesis
    by (simp add: readNonNegativeInteger_def readExtendedNonNegativeInteger_def bounds)
qed

lemma keeps_bounds_readNonNegativeIntegerTlv [bounds]: "keeps_bounds (readNonNegativeIntegerTlv type)"
  unfolding readNonNegativeIntegerTlv_def by (intro bounds)

lemma keeps_bounds_readBooleanTlv [bounds]: "keeps_bounds (readBooleanTlv type endOffset)"
  unfolding readBooleanTlv_def
  by (intro bounds keeps_bounds_advance) (rule readTypeAndLength_fits)

lemma keeps_bounds_optional [bounds]:
  "keeps_bounds (readOptionalNonNegativeIntegerTlv type endOffset)"
  "keeps_bounds (readOptionalBlobTlv type endOffset)"
  "keeps_bounds (skipOptionalTlv type endOffset)"
  unfolding readOptionalNonNegativeIntegerTlv_def readOptionalBlobTlv_def skipOptionalTlv_def
  by (intro bounds)+

lemma keeps_bounds_skip_one: "skip_one crit input off = Some (Inr (v, off')) \<Longrightarrow> off' \<le> inputLength input"
  by (auto simp: skip_one_def bindD_ok Let_def split: if_splits)

lemma skip_loop_end:
  assumes "skip_loop endOffset crit input off = Some r" and "r = Inr (v, off')"
  shows "off' = endOffset"
proof -
  have "\<forall>v off'. r = Inr (v, off') \<longrightarrow> off' = endOffset"
    by (rule skip_loop.raw_induct [where P = "\<lambda>e c i p r. \<forall>v off'. r = Inr (v, off') \<longrightarrow> off' = e", OF _ assms(1)])
       (auto split: if_splits option.splits sum.splits)
  with assms(2) show ?thesis by blast
qed

lemma skip_loop_keeps:
  assumes "skip_loop endOffset crit input off = Some r" and "off \<le> inputLength input" and "r = Inr (v, off')"
  shows "off' \<le> inputLength input"
proof -
  have "off \<le> inputLength input \<longrightarrow> (\<forall>v off'. r = Inr (v, off') \<longrightarrow> off' \<le> inputLength input)"
    by (rule skip_loop.raw_induct [where P = "\<lambda>e c i p r. p \<le> inputLength i \<longrightarrow>
          (\<forall>v off'. r = Inr (v, off') \<longrightarrow> off' \<le> inputLength i)", OF _ assms(1)])
       (auto split: if_splits option.splits sum.splits dest: keeps_bounds_skip_one)
  with assms show ?thesis by blast
qed

lemma keeps_bounds_finish [bounds]:
  "keeps_bounds (skipRemainingNestedTlvs endOffset crit)"
  "keeps_bounds (finishNestedTlvs endOffset)"
  "keeps_bounds (finishNestedTlvsSkipCritical endOffset)"
proof -
  show s: "keeps_bounds (skipRemainingNestedTlvs endOffset crit)" for crit
    using skip_loop_keeps by (fastforce simp: keeps_bounds_def skipRemainingNestedTlvs_def)
  show "keeps_bounds (finishNestedTlvs endOffset)" "keeps_bounds (finishNestedTlvsSkipCritical endOffset)"
    unfolding finishNestedTlvs_def finishNestedTlvsSkipCritical_def
    by (intro bounds s)+
qed

section \<open>Skipping unrecognized TLVs\<close>

text \<open>
  The loop returns when no length moves the offset back: \<^verbatim>\<open>no_wrap\<close> checks every start offset of the
  input.
\<close>

definition no_wrap :: "bytes \<Rightarrow> bool" where
  "no_wrap input =
     list_all (\<lambda>n. case skip_one True input (of_nat n) of
                     Some (Inr (off', _)) \<Rightarrow> of_nat n < off' | _ \<Rightarrow> True) [0..<length input]"

lemma skip_one_total: "skip_one crit input off \<noteq> None"
proof -
  have v: "readVarNumber input off \<noteq> None" for off
    by (simp add: readVarNumber_def readExtendedVarNumber_def read_be_def Let_def)
  show ?thesis
    by (auto simp: skip_one_def bindD_def Let_def split: option.splits sum.splits if_splits)
       (use v in \<open>simp, metis\<close>)
qed

lemma skip_one_value: "skip_one crit input off = Some (Inr (v, off')) \<Longrightarrow> v = off'"
  by (auto simp: skip_one_def bindD_ok Let_def split: if_splits)

lemma skip_one_crit:
  "skip_one crit input off = Some (Inr r) \<Longrightarrow> skip_one True input off = Some (Inr r)"
  by (cases r) (auto simp: skip_one_def bindD_ok Let_def split: if_splits)

lemma skip_one_past_end: "off \<ge> inputLength input \<Longrightarrow> \<exists>e. skip_one crit input off = Some (Inl e)"
  by (simp add: skip_one_def bindD_def readVarNumber_def)

lemma skip_loop_returns:
  assumes "no_wrap input" and "small_input input"
  shows "skip_loop endOffset crit input off \<noteq> None"
proof (induction "2 ^ 64 - unat off" arbitrary: off rule: less_induct)
  case less
  show ?case
  proof (cases "off < endOffset")
    case False
    then show ?thesis by (subst skip_loop.simps) simp
  next
    case True
    show ?thesis
    proof (cases "skip_one crit input off")
      case None
      then show ?thesis using skip_one_total by blast
    next
      case (Some r)
      show ?thesis
      proof (cases r)
        case (Inl e)
        with Some True show ?thesis by (subst skip_loop.simps) simp
      next
        case (Inr p)
        obtain v off' where p: "p = (v, off')" by fastforce
        then have one: "skip_one True input off = Some (Inr (v, off'))" "v = off'"
          using Some Inr skip_one_crit skip_one_value by blast+
        have "off < inputLength input"
          using skip_one_past_end [of input off True] one(1) by (metis Inl_Inr_False not_le option.inject)
        then have "unat off < length input"
          using assms(2) by (simp add: word_less_nat_alt inputLength_def small_input_def)
        then have "case skip_one True input (of_nat (unat off)) of
            Some (Inr (off', _)) \<Rightarrow> of_nat (unat off) < off' | _ \<Rightarrow> True"
          using assms(1) by (simp only: no_wrap_def list_all_iff) (metis atLeastLessThan_iff le0 set_upt)
        then have "off < off'" using one by simp
        then have "2 ^ 64 - unat off' < 2 ^ 64 - unat off"
          using unsigned_less [of off, where ?'a = nat] by (simp add: word_less_nat_alt)
        from less [OF this] Some Inr p True show ?thesis by (subst skip_loop.simps) simp
      qed
    qed
  qed
qed

text \<open>A TLV whose length is \<^verbatim>\<open>2^64 - 10\<close> sends the offset back to its own start: the loop never returns.\<close>

definition looping_tlv :: bytes where
  "looping_tlv = [0x20, 0xFF, 0xFF, 0xFF, 0xFF, 0xFF, 0xFF, 0xFF, 0xFF, 0xF6]"

lemma skip_one_looping: "skip_one False looping_tlv 0 = Some (Inr (0, 0))"
  by code_simp

lemma skip_loop_looping: "skip_loop 10 False looping_tlv 0 = None"
proof (rule ccontr)
  assume "skip_loop 10 False looping_tlv 0 \<noteq> None"
  then obtain r where r: "skip_loop 10 False looping_tlv 0 = Some r" by blast
  have "\<not> ((10 :: size_t) = 10 \<and> \<not> False \<and> looping_tlv = looping_tlv \<and> (0 :: size_t) = 0)"
    by (rule skip_loop.raw_induct [where P = "\<lambda>e c i p r. \<not> (e = 10 \<and> \<not> c \<and> i = looping_tlv \<and> p = 0)", OF _ r])
       (auto simp: skip_one_looping split: if_splits option.splits sum.splits, blast)
  then show False by simp
qed

end
