(* ===== verification/TlvName.thy ===== *)
theory TlvName
  imports TlvDecoder
begin

text \<open>
  Encoding and decoding of names (\<^verbatim>\<open>src/c/encoding/tlv/tlv-name.c\<close>) and the C++ entry points
  \<^verbatim>\<open>Tlv0_3WireFormat::encodeName\<close> and \<^verbatim>\<open>decodeName\<close>, with the round trip of every well-formed name and of
  the signed portion.
\<close>

section \<open>Names\<close>

definition ndn_Tlv_Name :: u32 where "ndn_Tlv_Name = 7"
definition ndn_Tlv_ImplicitSha256DigestComponent :: u32 where "ndn_Tlv_ImplicitSha256DigestComponent = 1"
definition ndn_Tlv_ParametersSha256DigestComponent :: u32 where "ndn_Tlv_ParametersSha256DigestComponent = 2"
definition ndn_Tlv_NameComponent :: u32 where "ndn_Tlv_NameComponent = 8"

definition component_tlv_type :: "component \<Rightarrow> u32" where
  "component_tlv_type c =
     word_of_int (if c_type c = ndn_NameComponentType_OTHER_CODE then c_otherTypeCode c
                  else type_int (c_type c))"

definition ndn_encodeTlvNameComponent :: "component \<Rightarrow> tlv_encoder \<Rightarrow> ndn_error + tlv_encoder" where
  "ndn_encodeTlvNameComponent c e =
     (if c_type c = ndn_NameComponentType_OTHER_CODE \<and> c_otherTypeCode c < 0
      then Inl NDN_ERROR_Name_component_otherTypeCode_must_be_non_negative
      else writeBlobTlv (component_tlv_type c) (blob_bytes (c_value c)) e)"

text \<open>
  \<^verbatim>\<open>ndn_encodeTlvName\<close> also reports the signed portion, which ends before the final component.
\<close>

fun encode_components :: "component list \<Rightarrow> nat \<Rightarrow> tlv_encoder \<Rightarrow> ndn_error + nat \<times> tlv_encoder" where
  "encode_components [] signedEnd e = Inr (signedEnd, e)"
| "encode_components (c # cs) signedEnd e =
     (let signedEnd = (if cs = [] then enc_offset e else signedEnd) in
      bindE (ndn_encodeTlvNameComponent c e) (encode_components cs signedEnd))"

definition ndn_encodeTlvName :: "component list \<Rightarrow> tlv_encoder \<Rightarrow> ndn_error + (nat \<times> nat) \<times> tlv_encoder" where
  "ndn_encodeTlvName cs e =
     (let nameValueLength = sum_list (map (\<lambda>c. sizeOfBlobTlv (component_tlv_type c) (blob_bytes (c_value c))) cs) in
      bindE (writeTypeAndLength ndn_Tlv_Name nameValueLength e) (\<lambda>e.
        let signedBegin = enc_offset e in
        bindE (encode_components cs signedBegin e) (\<lambda>(signedEnd, e). Inr ((signedBegin, signedEnd), e))))"

text \<open>A decoded component: its type fields and the slice of its value.\<close>

record component_slice =
  cs_type :: ndn_NameComponentType
  cs_otherTypeCode :: int
  cs_value :: slice

definition set_component_type :: "u64 \<Rightarrow> slice \<Rightarrow> component_slice" where
  "set_component_type type v =
     (if type = ucast ndn_Tlv_ImplicitSha256DigestComponent
      then \<lparr>cs_type = ndn_NameComponentType_IMPLICIT_SHA256_DIGEST, cs_otherTypeCode = -1, cs_value = v\<rparr>
      else if type = ucast ndn_Tlv_ParametersSha256DigestComponent
      then \<lparr>cs_type = ndn_NameComponentType_PARAMETERS_SHA256_DIGEST, cs_otherTypeCode = -1, cs_value = v\<rparr>
      else if type = ucast ndn_Tlv_NameComponent
      then \<lparr>cs_type = ndn_NameComponentType_GENERIC, cs_otherTypeCode = -1, cs_value = v\<rparr>
      else \<lparr>cs_type = ndn_NameComponentType_OTHER_CODE, cs_otherTypeCode = to_int (uint type), cs_value = v\<rparr>)"

definition ndn_decodeTlvNameComponent :: "component_slice dec" where
  "ndn_decodeTlvNameComponent =
     bindD getOffset (\<lambda>saveOffset.
     bindD readVarNumber (\<lambda>type.
     bindD (TlvDecoder_seek saveOffset) (\<lambda>_.
     bindD (readBlobTlv (ucast type)) (\<lambda>v. retD (set_component_type type v)))))"

text \<open>
  The loop of \<^verbatim>\<open>ndn_decodeTlvName\<close>.  Its first argument is the room left in the components array; the
  value is the components with the offset of the last one.
\<close>

fun decode_components :: "nat \<Rightarrow> size_t \<Rightarrow> size_t \<Rightarrow> (component_slice list \<times> size_t) dec" where
  "decode_components room endOffset signedEnd input off =
     (if off < endOffset
      then case room of
             0 \<Rightarrow> Some (Inl NDN_ERROR_attempt_to_add_a_component_past_the_maximum_number_of_components_allowed_in_the_name)
           | Suc room' \<Rightarrow>
               bindD ndn_decodeTlvNameComponent (\<lambda>c.
               bindD (decode_components room' endOffset off) (\<lambda>(cs, se). retD (c # cs, se))) input off
      else Some (Inr (([], signedEnd), off)))"

declare decode_components.simps [simp del]

definition ndn_decodeTlvName :: "nat \<Rightarrow> (component_slice list \<times> size_t \<times> size_t) dec" where
  "ndn_decodeTlvName maxComponents =
     bindD (readNestedTlvsStart ndn_Tlv_Name) (\<lambda>endOffset.
     bindD getOffset (\<lambda>signedBegin.
     bindD (decode_components maxComponents endOffset signedBegin) (\<lambda>(cs, signedEnd).
     bindD (finishNestedTlvs endOffset) (\<lambda>_.
       retD (cs, signedBegin, signedEnd)))))"

section \<open>The wire format entry points\<close>

text \<open>
  \<^verbatim>\<open>Tlv0_3WireFormat::encodeName\<close> works in C arrays of 100 components; \<^verbatim>\<open>decodeName\<close> copies the slices
  into blobs.  The outer option of a decoding result is None when the call does not return; a slice
  that reaches outside the input makes the copy undefined, which \<^verbatim>\<open>lite_components\<close> shows as None.
\<close>

definition MAX_NAME_COMPONENTS :: nat where
  "MAX_NAME_COMPONENTS = 100"

definition Tlv_encodeName :: "name \<Rightarrow> bytes result" where
  "Tlv_encodeName name =
     bindE (Name_get_lite \<lparr>cn_components = [], cn_maxComponents = MAX_NAME_COMPONENTS\<rparr> name) (\<lambda>nameLite.
     throwC (run_encoder 256 (\<lambda>e. bindE (ndn_encodeTlvName (cn_components nameLite) e) (\<lambda>(_, e). Inr e))))"

definition lite_component :: "bytes \<Rightarrow> component_slice \<Rightarrow> component option" where
  "lite_component input c =
     (case slice_bytes input (cs_value c) of
        None \<Rightarrow> None
      | Some v \<Rightarrow> Some \<lparr>c_type = cs_type c, c_otherTypeCode = cs_otherTypeCode c, c_value = Some v\<rparr>)"

fun lite_components :: "bytes \<Rightarrow> component_slice list \<Rightarrow> component list option" where
  "lite_components input [] = Some []"
| "lite_components input (c # cs) =
     (case lite_component input c of
        None \<Rightarrow> None
      | Some x \<Rightarrow> (case lite_components input cs of None \<Rightarrow> None | Some xs \<Rightarrow> Some (x # xs)))"

definition Tlv_decodeName :: "bytes \<Rightarrow> name \<Rightarrow> name result option" where
  "Tlv_decodeName input name =
     (case ndn_decodeTlvName MAX_NAME_COMPONENTS input 0 of
        None \<Rightarrow> None
      | Some (Inl e) \<Rightarrow> Some (Inl (RuntimeError (ndn_getErrorString e)))
      | Some (Inr ((cs, _), _)) \<Rightarrow>
          (case lite_components input cs of
             None \<Rightarrow> None
           | Some comps \<Rightarrow>
               Some (Inr (Name_set_lite \<lparr>cn_components = comps, cn_maxComponents = MAX_NAME_COMPONENTS\<rparr> name))))"

section \<open>What the encoder writes\<close>

definition component_tlv :: "component \<Rightarrow> bytes" where
  "component_tlv c = tlv (component_tlv_type c) (blob_bytes (c_value c))"

definition name_tlv :: "component list \<Rightarrow> bytes" where
  "name_tlv cs = tlv ndn_Tlv_Name (concat (map component_tlv cs))"

text \<open>The components the encoder accepts.\<close>

definition encodable :: "component \<Rightarrow> bool" where
  "encodable c \<longleftrightarrow> \<not> (c_type c = ndn_NameComponentType_OTHER_CODE \<and> c_otherTypeCode c < 0)"

lemma emits_component: "encodable c \<Longrightarrow> emits (ndn_encodeTlvNameComponent c) (component_tlv c)"
proof -
  assume "encodable c"
  then have "ndn_encodeTlvNameComponent c = writeBlobTlv (component_tlv_type c) (blob_bytes (c_value c))"
    by (auto simp: ndn_encodeTlvNameComponent_def encodable_def intro!: ext)
  then show ?thesis unfolding component_tlv_def by auto
qed

text \<open>A writing function that also returns a value computed from the offset where it starts.\<close>

definition emits_val :: "(tlv_encoder \<Rightarrow> ndn_error + 'a \<times> tlv_encoder) \<Rightarrow> bytes \<Rightarrow> (nat \<Rightarrow> 'a) \<Rightarrow> bool" where
  "emits_val w bs val \<longleftrightarrow>
     (\<forall>e. \<not> enableOutput e \<longrightarrow> w e = Inr (val (enc_offset e), advance (length bs) e)) \<and>
     (\<forall>e. ready e \<longrightarrow> (\<exists>e'. w e = Inr (val (enc_offset e), e') \<and> ready e' \<and> enc_out e' = enc_out e @ bs))"

lemma emits_val_drop:
  "emits_val w bs val \<Longrightarrow> emits (\<lambda>e. bindE (w e) (\<lambda>(_, e). Inr e)) bs"
  by (intro emitsI) (fastforce simp: emits_val_def)+

definition comps_bytes :: "component list \<Rightarrow> bytes" where
  "comps_bytes cs = concat (map component_tlv cs)"

lemma ready_offset:
  "ready e \<Longrightarrow> ready e' \<Longrightarrow> enc_out e' = enc_out e @ bs \<Longrightarrow> enc_offset e' = enc_offset e + length bs"
  using enc_out_length [of e] enc_out_length [of e'] by simp

lemma emits_val_components:
  "\<forall>c \<in> set cs. encodable c \<Longrightarrow>
   emits_val (encode_components cs signedEnd) (comps_bytes cs)
     (\<lambda>off. if cs = [] then signedEnd else off + length (comps_bytes (butlast cs)))"
proof (induction cs arbitrary: signedEnd)
  case Nil
  then show ?case by (simp add: emits_val_def comps_bytes_def)
next
  case (Cons c cs)
  then have c: "emits (ndn_encodeTlvNameComponent c) (component_tlv c)" by (intro emits_component) simp
  have len: "length (component_tlv c) + length (comps_bytes (butlast cs)) = length (comps_bytes (butlast (c # cs)))"
    if "cs \<noteq> []" using that by (simp add: comps_bytes_def)
  show ?case
    unfolding emits_val_def
  proof (intro conjI allI impI)
    fix e :: tlv_encoder
    assume off: "\<not> enableOutput e"
    let ?s = "if cs = [] then enc_offset e else signedEnd"
    from Cons.IH [of ?s] Cons.prems off emits_disabled [OF c off] len
    show "encode_components (c # cs) signedEnd e =
        Inr (if c # cs = [] then signedEnd else enc_offset e + length (comps_bytes (butlast (c # cs))),
             advance (length (comps_bytes (c # cs))) e)"
      by (auto simp: emits_val_def comps_bytes_def Let_def)
  next
    fix e :: tlv_encoder
    assume r: "ready e"
    let ?s = "if cs = [] then enc_offset e else signedEnd"
    from emits_enabled [OF c r] obtain e1 where
      e1: "ndn_encodeTlvNameComponent c e = Inr e1" "ready e1" "enc_out e1 = enc_out e @ component_tlv c"
      by blast
    have o1: "enc_offset e1 = enc_offset e + length (component_tlv c)" by (rule ready_offset [OF r e1(2,3)])
    from Cons.IH [of ?s] Cons.prems e1(2) obtain e2 where
      e2: "encode_components cs ?s e1 = Inr (if cs = [] then ?s else enc_offset e1 + length (comps_bytes (butlast cs)), e2)"
        "ready e2" "enc_out e2 = enc_out e1 @ comps_bytes cs"
      by (auto simp: emits_val_def)
    have "encode_components (c # cs) signedEnd e =
        Inr (enc_offset e + length (comps_bytes (butlast (c # cs))), e2)"
      using e1(1) e2(1) o1 len by (auto simp: Let_def comps_bytes_def)
    with e1 e2 show "\<exists>e'. encode_components (c # cs) signedEnd e =
        Inr (if c # cs = [] then signedEnd else enc_offset e + length (comps_bytes (butlast (c # cs))), e') \<and>
        ready e' \<and> enc_out e' = enc_out e @ comps_bytes (c # cs)"
      by (auto simp: comps_bytes_def)
  qed
qed

lemma length_comps_bytes:
  "length (comps_bytes cs) = sum_list (map (\<lambda>c. sizeOfBlobTlv (component_tlv_type c) (blob_bytes (c_value c))) cs)"
  by (induction cs) (simp_all add: comps_bytes_def component_tlv_def length_tlv)

text \<open>
  The name encoder writes the name TLV; the signed portion runs from the first component to the
  final one.
\<close>

lemma emits_val_name:
  assumes "\<forall>c \<in> set cs. encodable c"
  shows "emits_val (ndn_encodeTlvName cs) (name_tlv cs)
     (\<lambda>off. let b = off + length (tlv_header ndn_Tlv_Name (length (comps_bytes cs)))
            in (b, b + length (comps_bytes (butlast cs))))"
proof -
  let ?h = "tlv_header ndn_Tlv_Name (length (comps_bytes cs))"
  have name: "name_tlv cs = ?h @ comps_bytes cs" by (simp add: name_tlv_def tlv_def comps_bytes_def)
  have h: "emits (writeTypeAndLength ndn_Tlv_Name (length (comps_bytes cs))) ?h" by auto
  note comps = emits_val_components [OF assms]
  have bl: "cs = [] \<Longrightarrow> comps_bytes (butlast cs) = []" by (simp add: comps_bytes_def)
  show ?thesis
    unfolding emits_val_def
  proof (intro conjI allI impI)
    fix e :: tlv_encoder
    assume off: "\<not> enableOutput e"
    from comps [of "enc_offset e + length ?h"] off
    have "encode_components cs (enc_offset e + length ?h) (advance (length ?h) e) =
        Inr (enc_offset e + length ?h + length (comps_bytes (butlast cs)),
             advance (length ?h + length (comps_bytes cs)) e)"
      using bl by (auto simp: emits_val_def)
    with emits_disabled [OF h off]
    show "ndn_encodeTlvName cs e = Inr (let b = enc_offset e + length ?h
            in (b, b + length (comps_bytes (butlast cs))), advance (length (name_tlv cs)) e)"
      by (simp add: ndn_encodeTlvName_def Let_def name flip: length_comps_bytes)
  next
    fix e :: tlv_encoder
    assume r: "ready e"
    from emits_enabled [OF h r] obtain e1 where
      e1: "writeTypeAndLength ndn_Tlv_Name (length (comps_bytes cs)) e = Inr e1" "ready e1"
        "enc_out e1 = enc_out e @ ?h" by blast
    have o1: "enc_offset e1 = enc_offset e + length ?h" by (rule ready_offset [OF r e1(2,3)])
    from comps [of "enc_offset e1"] e1(2) obtain e2 where
      e2: "encode_components cs (enc_offset e1) e1 = Inr (enc_offset e1 + length (comps_bytes (butlast cs)), e2)"
        "ready e2" "enc_out e2 = enc_out e1 @ comps_bytes cs"
      using bl by (auto simp: emits_val_def split: if_splits)
    with e1 o1 name show "\<exists>e'. ndn_encodeTlvName cs e = Inr (let b = enc_offset e + length ?h
            in (b, b + length (comps_bytes (butlast cs))), e') \<and> ready e' \<and> enc_out e' = enc_out e @ name_tlv cs"
      by (simp add: ndn_encodeTlvName_def Let_def flip: length_comps_bytes)
  qed
qed

section \<open>What the decoder reads\<close>

definition slice_of :: "bytes \<Rightarrow> component \<Rightarrow> component_slice" where
  "slice_of pre c =
     \<lparr>cs_type = c_type c, cs_otherTypeCode = c_otherTypeCode c,
      cs_value = \<lparr>sl_offset = at_pos (pre @ tlv_header (component_tlv_type c) (blob_size (c_value c))),
                  sl_length = of_nat (blob_size (c_value c))\<rparr>\<rparr>"

text \<open>A component that survives the wire: well-formed, with an other type code that fits an int.\<close>

definition wire_wf :: "component \<Rightarrow> bool" where
  "wire_wf c \<longleftrightarrow> component_wf c \<and> c_otherTypeCode c < 2 ^ 31"

lemma wire_wf_encodable: "wire_wf c \<Longrightarrow> encodable c"
  by (auto simp: wire_wf_def component_wf_def encodable_def split: if_splits)

lemma component_tlv_type_other:
  assumes "wire_wf c" and "c_type c = ndn_NameComponentType_OTHER_CODE"
  shows "to_int (uint (ucast (component_tlv_type c) :: u64)) = c_otherTypeCode c"
    and "(ucast (component_tlv_type c) :: u64) \<notin> {1, 2, 8}"
proof -
  have c: "0 \<le> c_otherTypeCode c" "c_otherTypeCode c < 2 ^ 31" "c_otherTypeCode c \<notin> {1, 2, 8}"
    using assms by (auto simp: wire_wf_def component_wf_def)
  have u: "uint (ucast (component_tlv_type c) :: u64) = c_otherTypeCode c"
    using assms(2) c by (simp add: component_tlv_type_def unsigned_ucast_eq unsigned_of_int take_bit_int_eq_self)
  with c show "to_int (uint (ucast (component_tlv_type c) :: u64)) = c_otherTypeCode c"
    by (simp add: to_int_id)
  show "(ucast (component_tlv_type c) :: u64) \<notin> {1, 2, 8}"
  proof
    assume "(ucast (component_tlv_type c) :: u64) \<in> {1, 2, 8}"
    then have "uint (ucast (component_tlv_type c) :: u64) \<in> {1, 2, 8}" by auto
    with u c(3) show False by simp
  qed
qed

lemma type_consts:
  "(ucast ndn_Tlv_ImplicitSha256DigestComponent :: u64) = 1"
  "(ucast ndn_Tlv_ParametersSha256DigestComponent :: u64) = 2"
  "(ucast ndn_Tlv_NameComponent :: u64) = 8"
  by (simp_all add: ndn_Tlv_ImplicitSha256DigestComponent_def ndn_Tlv_ParametersSha256DigestComponent_def
                    ndn_Tlv_NameComponent_def)

lemma reads_component:
  assumes s: "small_input (pre @ component_tlv c @ post)" and wf: "wire_wf c"
  shows "reads ndn_decodeTlvNameComponent pre (component_tlv c) post (slice_of pre c)"
proof -
  let ?t = "component_tlv_type c" and ?v = "blob_bytes (c_value c)"
  let ?t64 = "ucast ?t :: u64"
  let ?sl = "\<lparr>sl_offset = at_pos (pre @ tlv_header ?t (length ?v)), sl_length = of_nat (length ?v)\<rparr>"
  have body: "component_tlv c = var_number ?t64 @ (var_number (of_nat (length ?v)) @ ?v)"
    by (simp add: component_tlv_def tlv_def tlv_header_def)
  have num: "reads readVarNumber pre (var_number ?t64) ((var_number (of_nat (length ?v)) @ ?v) @ post) ?t64"
    using s by (intro reads_readVarNumber) (simp add: body)
  have blob: "reads (readBlobTlv ?t) pre (component_tlv c) post ?sl"
    using s unfolding component_tlv_def by (rule reads_readBlobTlv)
  have same: "ucast ?t64 = ?t" by (rule ucast_up_ucast_id) (simp add: is_up)
  have sl: "slice_of pre c = \<lparr>cs_type = c_type c, cs_otherTypeCode = c_otherTypeCode c, cs_value = ?sl\<rparr>"
    by (simp add: slice_of_def)
  have result: "set_component_type ?t64 ?sl = slice_of pre c"
  proof (cases "c_type c")
    case ndn_NameComponentType_OTHER_CODE
    with component_tlv_type_other [OF wf] show ?thesis by (simp add: sl set_component_type_def type_consts)
  qed (use wf in \<open>simp_all add: sl set_component_type_def type_consts component_tlv_type_def
         wire_wf_def component_wf_def\<close>)
  have wholenum: "readVarNumber (pre @ component_tlv c @ post) (at_pos pre) =
      Some (Inr (?t64, at_pos (pre @ var_number ?t64)))"
    using num by (simp add: reads_def body)
  show ?thesis
    using blob result unfolding reads_def ndn_decodeTlvNameComponent_def
    by (simp add: bindD_def getOffset_def wholenum TlvDecoder_seek_def same retD_def)
qed

fun slices_of :: "bytes \<Rightarrow> component list \<Rightarrow> component_slice list" where
  "slices_of pre [] = []"
| "slices_of pre (c # cs) = slice_of pre c # slices_of (pre @ component_tlv c) cs"

lemma comps_bytes_simps [simp]:
  "comps_bytes [] = []" "comps_bytes (c # cs) = component_tlv c @ comps_bytes cs"
  by (simp_all add: comps_bytes_def)

lemma component_tlv_not_Nil [simp]: "component_tlv c \<noteq> []"
  by (simp add: component_tlv_def)

lemma decode_components_stop:
  "\<not> off < endOffset \<Longrightarrow> decode_components room endOffset se input off = Some (Inr (([], se), off))"
  by (subst decode_components.simps) simp

lemma decode_components_step:
  "off < endOffset \<Longrightarrow>
   decode_components (Suc room) endOffset se input off =
   bindD ndn_decodeTlvNameComponent (\<lambda>c.
     bindD (decode_components room endOffset off) (\<lambda>(cs, se). retD (c # cs, se))) input off"
  by (subst decode_components.simps) simp

lemma decode_components_full:
  "off < endOffset \<Longrightarrow>
   decode_components 0 endOffset se input off = Some (Inl NDN_ERROR_attempt_to_add_a_component_past_the_maximum_number_of_components_allowed_in_the_name)"
  by (subst decode_components.simps) simp

lemma at_less:
  assumes "small_input (pre @ bs @ post)" and "bs \<noteq> []"
  shows "at_pos pre < at_pos (pre @ bs)"
proof -
  have "(of_nat (length pre) :: size_t) < of_nat (length (pre @ bs)) \<longleftrightarrow> length pre < length (pre @ bs)"
    using assms(1) by (intro of_nat_less_small) (auto simp: small_input_def)
  with assms(2) show ?thesis by (simp add: at_pos_def)
qed

lemma reads_decode_components:
  assumes "small_input (pre @ comps_bytes cs @ post)" and "\<forall>c \<in> set cs. wire_wf c" and "length cs \<le> room"
    and "endOffset = at_pos (pre @ comps_bytes cs)"
  shows "reads (decode_components room endOffset se) pre (comps_bytes cs) post
           (slices_of pre cs, if cs = [] then se else at_pos (pre @ comps_bytes (butlast cs)))"
  using assms
proof (induction cs arbitrary: pre room se)
  case Nil
  then show ?case by (simp add: reads_def decode_components_stop)
next
  case (Cons c cs)
  then obtain room' where room: "room = Suc room'" by (cases room) auto
  have less: "at_pos pre < endOffset"
    using at_less [of pre "comps_bytes (c # cs)" post] Cons.prems by simp
  have step: "decode_components room endOffset se (pre @ comps_bytes (c # cs) @ post) (at_pos pre) =
      bindD ndn_decodeTlvNameComponent (\<lambda>c. bindD (decode_components room' endOffset (at_pos pre))
        (\<lambda>(cs, se). retD (c # cs, se))) (pre @ comps_bytes (c # cs) @ post) (at_pos pre)"
    using less by (simp add: room decode_components_step)
  have first: "reads ndn_decodeTlvNameComponent pre (component_tlv c) (comps_bytes cs @ post) (slice_of pre c)"
    using Cons.prems by (intro reads_component) simp_all
  have rest: "reads (decode_components room' endOffset (at_pos pre)) (pre @ component_tlv c) (comps_bytes cs) post
      (slices_of (pre @ component_tlv c) cs,
       if cs = [] then at_pos pre else at_pos ((pre @ component_tlv c) @ comps_bytes (butlast cs)))"
    using Cons.prems room by (intro Cons.IH) simp_all
  have "reads (bindD ndn_decodeTlvNameComponent (\<lambda>c. bindD (decode_components room' endOffset (at_pos pre))
        (\<lambda>(cs, se). retD (c # cs, se)))) pre (component_tlv c @ comps_bytes cs) post
      (slice_of pre c # slices_of (pre @ component_tlv c) cs,
       if cs = [] then at_pos pre else at_pos ((pre @ component_tlv c) @ comps_bytes (butlast cs)))"
  proof (rule reads_bind [OF first])
    show "reads (bindD (decode_components room' endOffset (at_pos pre)) (\<lambda>(cs, se). retD (slice_of pre c # cs, se)))
        (pre @ component_tlv c) (comps_bytes cs) post
        (slice_of pre c # slices_of (pre @ component_tlv c) cs,
         if cs = [] then at_pos pre else at_pos ((pre @ component_tlv c) @ comps_bytes (butlast cs)))"
      by (rule reads_bind_ret2 [OF rest])
  qed
  with step show ?case by (simp add: reads_def)
qed

lemma reads_finish: "reads (finishNestedTlvs (at_pos pre)) pre [] post ()"
  by (simp add: reads_def finishNestedTlvs_def bindD_def getOffset_def retD_def)

lemma reads_readNestedTlvsStart:
  assumes s: "small_input (pre @ tlv_header type n @ post)" and n: "n \<le> length post"
  shows "reads (readNestedTlvsStart type) pre (tlv_header type n) post (at_pos (pre @ tlv_header type n) + of_nat n)"
  using reads_readTypeAndLength [OF s n]
  by (simp add: reads_def readNestedTlvsStart_def bindD_def getOffset_def retD_def)

text \<open>A nested element: its value is read with the end of the element at hand.\<close>

lemma reads_nested_bind:
  assumes s: "small_input (pre @ tlv t v @ post)"
    and k: "\<And>p E. small_input (p @ v @ post) \<Longrightarrow> E = at_pos (p @ v) \<Longrightarrow> reads (f E) p v post (w p)"
  shows "reads (bindD (readNestedTlvsStart t) f) pre (tlv t v) post (w (pre @ tlv_header t (length v)))"
proof -
  let ?h = "tlv_header t (length v)"
  have s': "small_input ((pre @ ?h) @ v @ post)" using s by (simp add: tlv_def)
  have "reads (readNestedTlvsStart t) pre ?h (v @ post) (at_pos ((pre @ ?h) @ v))"
    using reads_readNestedTlvsStart [of pre t "length v" "v @ post"] s' by (simp add: add.assoc)
  with k [OF s' refl] have "reads (bindD (readNestedTlvsStart t) f) pre (?h @ v) post (w (pre @ ?h))"
    by (intro reads_bind)
  then show ?thesis by (simp add: tlv_def)
qed

lemma reads_nested_bind_at:
  assumes "small_input (pre @ tlv t v @ post)" and "p = pre @ tlv_header t (length v)"
    and "small_input (p @ v @ post) \<Longrightarrow> reads (f (at_pos (p @ v))) p v post w"
  shows "reads (bindD (readNestedTlvsStart t) f) pre (tlv t v) post w"
proof -
  have s: "small_input ((pre @ tlv_header t (length v)) @ v @ post)" using assms(1) by (simp add: tlv_def)
  have "reads (readNestedTlvsStart t) pre (tlv_header t (length v)) (v @ post) (at_pos (p @ v))"
    using reads_readNestedTlvsStart [of pre t "length v" "v @ post"] s assms(2) by (simp add: add.assoc)
  with assms(2,3) s have "reads (bindD (readNestedTlvsStart t) f) pre (tlv_header t (length v) @ v) post w"
    by (intro reads_bind) simp_all
  then show ?thesis by (simp add: tlv_def)
qed

lemma reads_finish_ret:
  "E = at_pos (pre @ []) \<Longrightarrow> x = y \<Longrightarrow> reads (bindD (finishNestedTlvs E) (\<lambda>_. retD x)) pre [] post y"
  by (simp add: reads_bind_ret [OF reads_finish, where f = "\<lambda>_. y"])

text \<open>\<^verbatim>\<open>ndn_decodeTlvName\<close> reads back the name the encoder wrote, with the same signed portion.\<close>

lemma reads_name:
  assumes s: "small_input (pre @ name_tlv cs @ post)" and wf: "\<forall>c \<in> set cs. wire_wf c"
    and max: "length cs \<le> maxComponents"
  shows "reads (ndn_decodeTlvName maxComponents) pre (name_tlv cs) post
     (let b = pre @ tlv_header ndn_Tlv_Name (length (comps_bytes cs))
      in (slices_of b cs, at_pos b, at_pos (b @ comps_bytes (butlast cs))))"
proof -
  let ?h = "tlv_header ndn_Tlv_Name (length (comps_bytes cs))"
  let ?b = "pre @ ?h"
  have name: "name_tlv cs = ?h @ comps_bytes cs" by (simp add: name_tlv_def tlv_def comps_bytes_def)
  have s': "small_input (?b @ comps_bytes cs @ post)" using s by (simp add: name)
  have start: "reads (readNestedTlvsStart ndn_Tlv_Name) pre ?h (comps_bytes cs @ post) (at_pos (?b @ comps_bytes cs))"
    using reads_readNestedTlvsStart [of pre ndn_Tlv_Name "length (comps_bytes cs)" "comps_bytes cs @ post"] s
    by (simp add: name add.assoc)
  have comps: "reads (decode_components maxComponents (at_pos (?b @ comps_bytes cs)) (at_pos ?b)) ?b (comps_bytes cs) post
      (slices_of ?b cs, at_pos (?b @ comps_bytes (butlast cs)))"
    using reads_decode_components [of ?b cs post maxComponents "at_pos (?b @ comps_bytes cs)" "at_pos ?b"] s' wf max
    by (cases "cs = []") simp_all
  have fin: "reads (bindD (finishNestedTlvs (at_pos (?b @ comps_bytes cs)))
        (\<lambda>_. retD (slices_of ?b cs, at_pos ?b, at_pos (?b @ comps_bytes (butlast cs))))) (?b @ comps_bytes cs) [] post
        (slices_of ?b cs, at_pos ?b, at_pos (?b @ comps_bytes (butlast cs)))"
    by (rule reads_bind_ret [OF reads_finish, where f = "\<lambda>_. (slices_of ?b cs, at_pos ?b, at_pos (?b @ comps_bytes (butlast cs)))"])
  have "reads (bindD (decode_components maxComponents (at_pos (?b @ comps_bytes cs)) (at_pos ?b)) (\<lambda>(cs', signedEnd).
     bindD (finishNestedTlvs (at_pos (?b @ comps_bytes cs))) (\<lambda>_. retD (cs', at_pos ?b, signedEnd)))) ?b (comps_bytes cs) post
        (slices_of ?b cs, at_pos ?b, at_pos (?b @ comps_bytes (butlast cs)))"
    using reads_bind [of _ ?b "comps_bytes cs" "[]" post _ "\<lambda>(cs', signedEnd).
     bindD (finishNestedTlvs (at_pos (?b @ comps_bytes cs))) (\<lambda>_. retD (cs', at_pos ?b, signedEnd))"] comps fin
    by fastforce
  then show ?thesis
    unfolding ndn_decodeTlvName_def name Let_def
    by (intro reads_bind [OF start] reads_bind_getOffset)
qed

lemma lite_components_slices:
  assumes "small_input (pre @ comps_bytes cs @ post)" and "\<forall>c \<in> set cs. wire_wf c"
  shows "lite_components (pre @ comps_bytes cs @ post) (slices_of pre cs) = Some cs"
  using assms
proof (induction cs arbitrary: pre)
  case (Cons c cs)
  let ?v = "blob_bytes (c_value c)" and ?t = "component_tlv_type c"
  have c: "component_wf c" using Cons.prems(2) by (simp add: wire_wf_def)
  then obtain v where v: "c_value c = Some v" by (auto simp: component_wf_def)
  then have ceq: "\<lparr>c_type = c_type c, c_otherTypeCode = c_otherTypeCode c, c_value = Some v\<rparr> = c"
    by (cases c) simp
  have tl: "component_tlv c = tlv_header ?t (length v) @ v" by (simp add: component_tlv_def tlv_def v)
  have "slice_bytes ((pre @ tlv_header ?t (length v)) @ v @ (comps_bytes cs @ post))
      \<lparr>sl_offset = at_pos (pre @ tlv_header ?t (length v)), sl_length = of_nat (length v)\<rparr> = Some v"
    using Cons.prems(1) by (intro slice_bytes_of) (simp add: tl)
  then have "lite_component (pre @ comps_bytes (c # cs) @ post) (slice_of pre c) = Some c"
    by (simp add: lite_component_def slice_of_def tl v ceq)
  moreover have "lite_components ((pre @ component_tlv c) @ comps_bytes cs @ post) (slices_of (pre @ component_tlv c) cs) = Some cs"
    using Cons.prems by (intro Cons.IH) simp_all
  ultimately show ?case by simp
qed simp

text \<open>The name on the wire and back.\<close>

lemma Tlv_encodeName_ok:
  assumes "\<forall>c \<in> set (n_components n). wire_wf c \<and> (is_digest c \<longrightarrow> blob_size (c_value c) = 32)"
    and "Name_size n \<le> MAX_NAME_COMPONENTS"
  shows "Tlv_encodeName n = Inr (name_tlv (n_components n))"
proof -
  let ?l = "\<lparr>cn_components = [], cn_maxComponents = MAX_NAME_COMPONENTS\<rparr>"
  obtain l where l: "Name_get_lite ?l n = Inr l" "cn_components l = n_components n"
    using Name_lite_roundtrip [of n ?l] assms by (auto simp: wire_wf_def)
  have "\<forall>c \<in> set (n_components n). encodable c" using assms(1) wire_wf_encodable by blast
  from run_encoder [OF emits_val_drop [OF emits_val_name [OF this]]] l
  show ?thesis by (simp add: Tlv_encodeName_def)
qed

lemma Tlv_name_roundtrip:
  assumes wf: "\<forall>c \<in> set (n_components n). wire_wf c \<and> (is_digest c \<longrightarrow> blob_size (c_value c) = 32)"
    and sz: "Name_size n \<le> MAX_NAME_COMPONENTS" and small: "small_input (name_tlv (n_components n) @ post)"
  shows "Tlv_decodeName (name_tlv (n_components n) @ post) m =
         Some (Inr (fold Name_append (n_components n) (Name_clear m)))"
proof -
  let ?cs = "n_components n"
  let ?h = "tlv_header ndn_Tlv_Name (length (comps_bytes ?cs))"
  have w: "\<forall>c \<in> set ?cs. wire_wf c" using wf by blast
  have name: "name_tlv ?cs = ?h @ comps_bytes ?cs" by (simp add: name_tlv_def tlv_def comps_bytes_def)
  have "reads (ndn_decodeTlvName MAX_NAME_COMPONENTS) [] (name_tlv ?cs) post
     (let b = [] @ ?h in (slices_of b ?cs, at_pos b, at_pos (b @ comps_bytes (butlast ?cs))))"
    using small w sz by (intro reads_name) (simp_all add: Name_size_def)
  moreover have "lite_components (?h @ comps_bytes ?cs @ post) (slices_of ?h ?cs) = Some ?cs"
    using small w by (intro lite_components_slices) (simp_all add: name)
  ultimately show ?thesis
    by (simp add: Tlv_decodeName_def reads_def Let_def name Name_set_lite_def)
qed

section \<open>Decoding arbitrary input\<close>

lemma keeps_bounds_component [bounds]: "keeps_bounds ndn_decodeTlvNameComponent"
proof -
  have "keeps_bounds (\<lambda>input off. bindD (TlvDecoder_seek off) (\<lambda>_. bindD (readBlobTlv t) (\<lambda>v. retD (f v))) input off)"
    for t and f :: "slice \<Rightarrow> 'a"
  proof -
    have "keeps_bounds (bindD (readBlobTlv t) (\<lambda>v. retD (f v)))" by (intro bounds)
    then show ?thesis by (simp add: keeps_bounds_def bindD_def TlvDecoder_seek_def)
  qed
  have "off' \<le> inputLength input"
    if "small_input input" "off \<le> inputLength input"
       "ndn_decodeTlvNameComponent input off = Some (Inr (v, off'))" for input off v off'
  proof -
    from that(3) obtain t sl where "readBlobTlv t input off = Some (Inr (sl, off'))"
      by (auto simp: ndn_decodeTlvNameComponent_def bindD_ok getOffset_def TlvDecoder_seek_def retD_def)
    with that keeps_bounds_readBlobTlv show ?thesis by (blast dest: keeps_boundsD)
  qed
  then show ?thesis by (auto simp: keeps_bounds_def)
qed

lemma keeps_bounds_components [bounds]: "keeps_bounds (decode_components room endOffset se)"
proof (induction room arbitrary: se)
  case 0
  show ?case by (subst decode_components.simps [abs_def]) (auto simp: keeps_bounds_def split: if_splits)
next
  case (Suc room)
  have "keeps_bounds (bindD ndn_decodeTlvNameComponent (\<lambda>c.
      bindD (decode_components room endOffset off) (\<lambda>(cs, se). retD (c # cs, se))))" for off
    by (intro bounds keeps_bounds_bind [OF Suc]) (simp add: case_prod_beta bounds)
  then show ?case
    by (subst decode_components.simps [abs_def]) (auto simp: keeps_bounds_def split: if_splits)
qed

lemma keeps_bounds_name [bounds]: "keeps_bounds (ndn_decodeTlvName maxComponents)"
  unfolding ndn_decodeTlvName_def by (intro bounds) (simp add: case_prod_beta bounds)

text \<open>Never more components than the array holds.\<close>

lemma decode_components_max:
  "decode_components room endOffset se input off = Some (Inr ((cs, se'), off')) \<Longrightarrow> length cs \<le> room"
proof (induction room arbitrary: se off cs se' off')
  case 0
  then show ?case by (subst (asm) decode_components.simps) (auto split: if_splits)
next
  case (Suc room)
  show ?case
  proof (cases "off < endOffset")
    case True
    with Suc.prems obtain c cs1 se1 off1 where
      "decode_components room endOffset off input off1 = Some (Inr ((cs1, se1), off'))" "cs = c # cs1"
      by (auto simp: decode_components_step bindD_ok retD_def)
    with Suc.IH show ?thesis by fastforce
  next
    case False
    with Suc.prems show ?thesis by (simp add: decode_components_stop)
  qed
qed

text \<open>
  The name \<^verbatim>\<open>0E\<close> bytes long with a component whose length is \<^verbatim>\<open>2^64 - 12\<close>: the sum of offset and length
  wraps around and passes the length check, the decoder continues inside an earlier component and
  reports success, with a slice that reaches outside the input.
\<close>

definition wrapping_name :: bytes where
  "wrapping_name = [0x07, 0x0E, 0x08, 0x02, 0x08, 0x0A,
     0x08, 0xFF, 0xFF, 0xFF, 0xFF, 0xFF, 0xFF, 0xFF, 0xFF, 0xF4]"

lemma wrapping_name_accepted:
  "ndn_decodeTlvName MAX_NAME_COMPONENTS wrapping_name 0 =
   Some (Inr (([\<lparr>cs_type = ndn_NameComponentType_GENERIC, cs_otherTypeCode = -1,
                 cs_value = \<lparr>sl_offset = 4, sl_length = 2\<rparr>\<rparr>,
               \<lparr>cs_type = ndn_NameComponentType_GENERIC, cs_otherTypeCode = -1,
                 cs_value = \<lparr>sl_offset = 16, sl_length = - 12\<rparr>\<rparr>,
               \<lparr>cs_type = ndn_NameComponentType_GENERIC, cs_otherTypeCode = -1,
                 cs_value = \<lparr>sl_offset = 6, sl_length = 10\<rparr>\<rparr>], 2, 4), 16))"
  by code_simp

lemma wrapping_name_outside: "Tlv_decodeName wrapping_name Name_empty = None"
  unfolding Tlv_decodeName_def wrapping_name_accepted
  by (simp add: lite_component_def slice_bytes_def wrapping_name_def)

section \<open>Properties\<close>

text \<open>
  C1. The name on the wire: a name of at most 100 well-formed components encodes without error, and
  decoding its encoding, followed by any other bytes, returns exactly its components.
\<close>

theorem name_wire_roundtrip:
  assumes "\<forall>c \<in> set (n_components n). wire_wf c \<and> (is_digest c \<longrightarrow> blob_size (c_value c) = 32)"
    and "Name_size n \<le> 100" and "length (name_tlv (n_components n)) + length post < 2 ^ 63"
  shows "\<exists>wire m'. Tlv_encodeName n = Inr wire \<and> Tlv_decodeName (wire @ post) m = Some (Inr m') \<and>
           n_components m' = n_components n"
proof -
  have sz: "Name_size n \<le> MAX_NAME_COMPONENTS" and small: "small_input (name_tlv (n_components n) @ post)"
    using assms(2,3) by (simp_all add: MAX_NAME_COMPONENTS_def small_input_def)
  show ?thesis
    using Tlv_encodeName_ok [OF assms(1) sz] Tlv_name_roundtrip [OF assms(1) sz small]
    by (simp add: n_components_fold_append)
qed

theorem name_wire_roundtrip_witness:
  "\<exists>wire m'. Tlv_encodeName (Name_of [Component_generic (Some (str ''ndn'')),
        \<lparr>c_type = ndn_NameComponentType_OTHER_CODE, c_otherTypeCode = 300, c_value = Some []\<rparr>]) = Inr wire \<and>
     Tlv_decodeName (wire @ [1, 2, 3]) Name_empty = Some (Inr m') \<and>
     length (n_components m') = 2"
proof -
  let ?n = "Name_of [Component_generic (Some (str ''ndn'')),
        \<lparr>c_type = ndn_NameComponentType_OTHER_CODE, c_otherTypeCode = 300, c_value = Some []\<rparr>]"
  have "length (name_tlv (n_components ?n)) = 11" by code_simp
  moreover have "\<forall>c \<in> set (n_components ?n). wire_wf c \<and> (is_digest c \<longrightarrow> blob_size (c_value c) = 32)"
    by (simp add: wire_wf_def component_wf_def is_digest_def Component_generic_def)
  ultimately obtain wire m' where "Tlv_encodeName ?n = Inr wire"
    "Tlv_decodeName (wire @ [1, 2, 3]) Name_empty = Some (Inr m')" "n_components m' = n_components ?n"
    using name_wire_roundtrip [of ?n "[1, 2, 3]" Name_empty] by (auto simp: Name_size_def)
  then show ?thesis by auto
qed

text \<open>
  Decoding any input as a name keeps the decoder inside the input: a successful call ends at an
  offset within the input, with at most as many components as the array holds.
\<close>

theorem decode_name_in_bounds:
  assumes "length input < 2 ^ 63"
    and "ndn_decodeTlvName maxComponents input 0 = Some (Inr ((cs, b, e), off))"
  shows "unat off \<le> length input \<and> length cs \<le> maxComponents"
proof
  have s: "small_input input" using assms(1) by (simp add: small_input_def)
  from keeps_boundsD [OF keeps_bounds_name s _ assms(2)] have "off \<le> inputLength input" by simp
  with assms(1) show "unat off \<le> length input" by (simp add: inputLength_def word_le_nat_alt)
  from assms(2) show "length cs \<le> maxComponents"
    by (auto simp: ndn_decodeTlvName_def bindD_ok retD_def dest: decode_components_max)
qed

theorem decode_name_in_bounds_witness:
  "\<exists>cs b e off. ndn_decodeTlvName 100 [7, 3, 8, 1, 0x61] 0 = Some (Inr ((cs, b, e), off)) \<and>
     unat off \<le> 5 \<and> length cs \<le> 100"
proof -
  obtain cs b e off where r: "ndn_decodeTlvName 100 [7, 3, 8, 1, 0x61] 0 = Some (Inr ((cs, b, e), off))"
  proof -
    have "ndn_decodeTlvName 100 [7, 3, 8, 1, 0x61] 0 \<noteq> None \<and>
       (case ndn_decodeTlvName 100 [7, 3, 8, 1, 0x61] 0 of Some (Inl _) \<Rightarrow> False | _ \<Rightarrow> True)"
      by code_simp
    then show ?thesis using that by (auto split: option.splits sum.splits)
  qed
  have "length [7 :: byte, 3, 8, 1, 0x61] < 2 ^ 63" by simp
  from decode_name_in_bounds [OF this r] r show ?thesis by auto
qed

end
