(* ===== verification/TlvFields.thy ===== *)
theory TlvFields
  imports TlvDecoder "HOL-Library.Log_Nat"
begin

text \<open>
  Round trips of the elements that packets are made of: integers, optional elements found by peeking
  at the next type, and values in a double.  \<^verbatim>\<open>rest\<close> is what is left of the enclosing element.
\<close>

section \<open>Non-negative integers\<close>

lemma reads_readNonNegativeInteger:
  assumes s: "small_input (pre @ nonneg_integer v @ post)"
  shows "reads (readNonNegativeInteger (of_nat (length (nonneg_integer v)))) pre (nonneg_integer v) post v"
proof -
  have be: "unat v < 2 ^ (8 * k) \<Longrightarrow> accumulate (be_bytes k v) = v" for k
    by (simp add: accumulate_be_bytes take_bit_id)
  consider "v \<le> 0xff" | "\<not> v \<le> 0xff" "v \<le> 0xffff" | "\<not> v \<le> 0xffff" "v \<le> 0xffffffff" | "\<not> v \<le> 0xffffffff"
    by blast
  then show ?thesis
  proof cases
    case 1
    then have "unat v < 2 ^ 8" by (simp add: word_le_nat_alt)
    then have "(ucast (ucast v :: byte) :: u64) = v"
      using take_bit_id [of v 8] by (simp add: ucast_byte_ucast)
    with reads_first [of pre "ucast v" "[]" post] s 1 show ?thesis
      by (simp add: reads_def readNonNegativeInteger_def nonneg_integer_def)
  next
    case 2
    then have w: "nonneg_integer v = be_bytes 2 v" by (simp add: nonneg_integer_def)
    have "accumulate (be_bytes 2 v) = v" using 2 by (intro be) (simp add: word_le_nat_alt)
    then show ?thesis using reads_read_be [of pre "be_bytes 2 v" post 2] s w
      by (simp add: readNonNegativeInteger_def readExtendedNonNegativeInteger_def)
  next
    case 3
    then have w: "nonneg_integer v = be_bytes 4 v"
      by (auto simp: nonneg_integer_def word_le_nat_alt)
    have "accumulate (be_bytes 4 v) = v" using 3 by (intro be) (simp add: word_le_nat_alt)
    then show ?thesis using reads_read_be [of pre "be_bytes 4 v" post 4] s w
      by (simp add: readNonNegativeInteger_def readExtendedNonNegativeInteger_def)
  next
    case 4
    then have w: "nonneg_integer v = be_bytes 8 v"
      by (auto simp: nonneg_integer_def word_le_nat_alt)
    have "accumulate (be_bytes 8 v) = v" by (intro be) (use unsigned_less [of v, where ?'a = nat] in simp)
    then show ?thesis using reads_read_be [of pre "be_bytes 8 v" post 8] s w
      by (simp add: readNonNegativeInteger_def readExtendedNonNegativeInteger_def)
  qed
qed

lemma reads_readNonNegativeIntegerTlv:
  assumes s: "small_input (pre @ tlv type (nonneg_integer v) @ post)"
  shows "reads (readNonNegativeIntegerTlv type) pre (tlv type (nonneg_integer v)) post v"
  unfolding readNonNegativeIntegerTlv_def tlv_def
proof (rule reads_bind)
  let ?h = "tlv_header type (length (nonneg_integer v))"
  show "reads (readTypeAndLength type) pre ?h (nonneg_integer v @ post) (of_nat (length (nonneg_integer v)))"
    using s by (intro reads_readTypeAndLength) (simp_all add: tlv_def)
  show "reads (readNonNegativeInteger (of_nat (length (nonneg_integer v)))) (pre @ ?h) (nonneg_integer v) post v"
    using s by (intro reads_readNonNegativeInteger) (simp add: tlv_def)
qed

text \<open>Bounds on the encoded lengths.\<close>

lemma length_tlv_le: "length (tlv type v) \<le> 18 + length v"
  by (simp add: length_tlv sizeOfBlobTlv_def sizeOfVarNumber_def)

lemma length_nonneg_integer_le: "length (nonneg_integer v) \<le> 8"
  by (simp add: nonneg_integer_def)

text \<open>A step that consumes nothing, and one that consumes everything.\<close>

lemma reads_bind_peek:
  "reads d pre [] (bs @ post) v \<Longrightarrow> reads (f v) pre bs post w \<Longrightarrow> reads (bindD d f) pre bs post w"
  using reads_bind [of d pre "[]" bs post v f w] by simp

lemma reads_bind_last:
  "reads d pre bs post v \<Longrightarrow> reads (f v) (pre @ bs) [] post w \<Longrightarrow> reads (bindD d f) pre bs post w"
  using reads_bind [of d pre bs "[]" post v f w] by simp

section \<open>Peeking at the next type\<close>

lemma type_ucast_eq_iff [simp]: "(ucast (t :: u32) :: u64) = ucast t' \<longleftrightarrow> t = t'"
proof
  assume "(ucast t :: u64) = ucast t'"
  then have "unat (ucast t :: u64) = unat (ucast t' :: u64)" by simp
  moreover have "unat (ucast x :: u64) = unat x" for x :: u32
    using unsigned_less [of x, where ?'a = nat] by (simp add: unsigned_ucast_eq take_bit_nat_eq_self)
  ultimately show "t = t'" by (metis unsigned_word_eqI)
qed simp

text \<open>The rest of the enclosing element does not begin with the type \<^verbatim>\<open>t\<close>.\<close>

definition not_next :: "u32 \<Rightarrow> bytes \<Rightarrow> bool" where
  "not_next t rest \<longleftrightarrow> rest = [] \<or> (\<exists>t' n r. rest = tlv_header t' n @ r \<and> t' \<noteq> t)"

lemma not_next_Nil [simp]: "not_next t []"
  by (simp add: not_next_def)

lemma not_next_tlv: "t' \<noteq> t \<Longrightarrow> not_next t (tlv t' v @ rest)"
  unfolding not_next_def tlv_def by (metis append.assoc)

lemma not_next_optional:
  "t' \<noteq> t \<Longrightarrow> not_next t rest \<Longrightarrow> not_next t (optional_nonneg_tlv t' v @ rest)"
  "t' \<noteq> t \<Longrightarrow> not_next t rest \<Longrightarrow> not_next t (optional_blob_tlv t' b @ rest)"
  "t' \<noteq> t \<Longrightarrow> not_next t rest \<Longrightarrow> not_next t (nested_tlv t' omit val @ rest)"
  by (auto simp: optional_nonneg_tlv_def optional_blob_tlv_def nested_tlv_def not_next_tlv split: option.split)

lemma small_input_at:
  "small_input (pre @ rest @ post) \<Longrightarrow> rest \<noteq> [] \<Longrightarrow> at_pos pre < at_pos (pre @ rest)"
  by (cases rest) (simp_all add: at_pos_def small_input_def of_nat_less_small flip: of_nat_add of_nat_Suc)

lemma reads_peekType_end: "reads (peekType t (at_pos pre)) pre [] post False"
  by (simp add: reads_def peekType_def bindD_def getOffset_def retD_def)

lemma reads_peekType_header:
  assumes s: "small_input (pre @ tlv_header t' n @ post)" and e: "at_pos pre < endOffset"
  shows "reads (peekType t endOffset) pre [] (tlv_header t' n @ post) (t' = t)"
proof -
  have "reads readVarNumber pre (var_number (ucast t')) (var_number (of_nat n) @ post) (ucast t')"
    using s by (intro reads_readVarNumber) (simp add: tlv_header_def)
  then have "readVarNumber (pre @ tlv_header t' n @ post) (at_pos pre) =
      Some (Inr (ucast t', at_pos (pre @ var_number (ucast t'))))"
    by (simp add: reads_def tlv_header_def)
  with e show ?thesis
    by (auto simp: reads_def peekType_def bindD_def getOffset_def retD_def TlvDecoder_seek_def)
qed

lemma reads_peekType_absent:
  assumes s: "small_input (pre @ rest @ post)" and t: "not_next t rest"
  shows "reads (peekType t (at_pos (pre @ rest))) pre [] (rest @ post) False"
proof (cases "rest = []")
  case True
  then show ?thesis using reads_peekType_end by simp
next
  case False
  with t obtain t' n r where r: "rest = tlv_header t' n @ r" "t' \<noteq> t" by (auto simp: not_next_def)
  have "reads (peekType t (at_pos (pre @ rest))) pre [] (tlv_header t' n @ (r @ post)) (t' = t)"
    using s r small_input_at [OF s False] by (intro reads_peekType_header) simp_all
  with r show ?thesis by simp
qed

lemma reads_peekType_present:
  assumes s: "small_input (pre @ tlv t v @ rest @ post)"
  shows "reads (peekType t (at_pos (pre @ tlv t v @ rest))) pre [] (tlv t v @ rest @ post) True"
proof -
  have "at_pos pre < at_pos (pre @ tlv t v @ rest)"
    using small_input_at [of pre "tlv t v @ rest" post] s by simp
  then have "reads (peekType t (at_pos (pre @ tlv t v @ rest))) pre [] (tlv_header t (length v) @ (v @ rest @ post)) (t = t)"
    using s by (intro reads_peekType_header) (simp_all add: tlv_def)
  then show ?thesis by (simp add: tlv_def)
qed

lemma if_negated: "(if \<not> b then x else y) = (if b then y else x)"
  by simp

text \<open>An optional element: read when present, skipped when the rest begins with another type.\<close>

lemma reads_optional:
  assumes s: "small_input (pre @ bs @ rest @ post)"
    and yes: "bs \<noteq> [] \<Longrightarrow> \<exists>v. bs = tlv t v" and no: "bs = [] \<Longrightarrow> not_next t rest"
    and d: "reads (if bs \<noteq> [] then present else absent) pre bs (rest @ post) x"
  shows "reads (bindD (peekType t (at_pos (pre @ bs @ rest))) (\<lambda>got. if got then present else absent)) pre bs (rest @ post) x"
proof (cases "bs = []")
  case True
  have "reads (peekType t (at_pos (pre @ rest))) pre [] (rest @ post) False"
    using s no True by (intro reads_peekType_absent) simp_all
  then show ?thesis using d True
    using reads_bind [of "peekType t (at_pos (pre @ rest))" pre "[]" "[]" "rest @ post" False
        "\<lambda>got. if got then present else absent" x] by simp
next
  case False
  then obtain v where v: "bs = tlv t v" using yes by blast
  have "reads (peekType t (at_pos (pre @ bs @ rest))) pre [] (bs @ rest @ post) True"
    unfolding v using s v by (intro reads_peekType_present) simp
  then show ?thesis using d False
    using reads_bind [of "peekType t (at_pos (pre @ bs @ rest))" pre "[]" bs "rest @ post" True
        "\<lambda>got. if got then present else absent" x] by simp
qed

lemma to_int_word: "0 \<le> v \<Longrightarrow> v < 2 ^ 31 \<Longrightarrow> to_int (uint (word_of_int v :: u64)) = v"
  by (simp add: unsigned_of_int take_bit_int_eq_self to_int_id)

lemma reads_readOptionalNonNegativeIntegerTlv:
  assumes s: "small_input (pre @ optional_nonneg_tlv t v @ rest @ post)" and v: "-1 \<le> v" "v < 2 ^ 31"
    and rest: "not_next t rest"
  shows "reads (readOptionalNonNegativeIntegerTlv t (at_pos (pre @ optional_nonneg_tlv t v @ rest)))
           pre (optional_nonneg_tlv t v) (rest @ post) v"
proof -
  let ?bs = "optional_nonneg_tlv t v"
  have bs: "?bs \<noteq> [] \<longleftrightarrow> v \<ge> 0" by (simp add: optional_nonneg_tlv_def)
  have "reads (if ?bs \<noteq> [] then bindD (readNonNegativeIntegerTlv t) (\<lambda>v. retD (to_int (uint v))) else retD (-1))
          pre ?bs (rest @ post) v"
  proof (cases "v \<ge> 0")
    case True
    have "reads (readNonNegativeIntegerTlv t) pre ?bs (rest @ post) (word_of_int v)"
      using s True by (simp add: optional_nonneg_tlv_def reads_readNonNegativeIntegerTlv)
    from reads_bind_ret [OF this, of "\<lambda>v. to_int (uint v)"] True v bs show ?thesis by (simp add: to_int_word)
  next
    case False
    with v have "v = -1" by simp
    then show ?thesis by (simp add: optional_nonneg_tlv_def)
  qed
  then have "reads (bindD (peekType t (at_pos (pre @ ?bs @ rest)))
       (\<lambda>got. if got then bindD (readNonNegativeIntegerTlv t) (\<lambda>v. retD (to_int (uint v))) else retD (-1)))
       pre ?bs (rest @ post) v"
    using s rest by (intro reads_optional) (auto simp: optional_nonneg_tlv_def)
  then show ?thesis unfolding readOptionalNonNegativeIntegerTlv_def if_negated .
qed

lemma reads_readOptionalBlobTlv:
  assumes s: "small_input (pre @ optional_blob_tlv t b @ rest @ post)" and rest: "not_next t rest"
  shows "reads (readOptionalBlobTlv t (at_pos (pre @ optional_blob_tlv t b @ rest)))
           pre (optional_blob_tlv t b) (rest @ post)
           (if optional_blob_tlv t b = [] then None
            else Some \<lparr>sl_offset = at_pos (pre @ tlv_header t (length (the b))), sl_length = of_nat (length (the b))\<rparr>)"
proof -
  let ?bs = "optional_blob_tlv t b"
  let ?sl = "\<lparr>sl_offset = at_pos (pre @ tlv_header t (length (the b))), sl_length = of_nat (length (the b))\<rparr>"
  have bs: "?bs \<noteq> [] \<Longrightarrow> ?bs = tlv t (the b)"
    by (auto simp: optional_blob_tlv_def split: option.splits if_splits)
  have "reads (if ?bs \<noteq> [] then bindD (readBlobTlv t) (\<lambda>s. retD (Some s)) else retD None)
          pre ?bs (rest @ post) (if ?bs = [] then None else Some ?sl)"
  proof (cases "?bs = []")
    case False
    have "reads (readBlobTlv t) pre ?bs (rest @ post) ?sl"
      using reads_readBlobTlv [of pre t "the b" "rest @ post"] s bs False by simp
    from reads_bind_ret [OF this, of Some] False show ?thesis by simp
  qed simp
  then have "reads (bindD (peekType t (at_pos (pre @ ?bs @ rest)))
       (\<lambda>got. if got then bindD (readBlobTlv t) (\<lambda>s. retD (Some s)) else retD None))
       pre ?bs (rest @ post) (if ?bs = [] then None else Some ?sl)"
    using s rest bs by (intro reads_optional) auto
  then show ?thesis unfolding readOptionalBlobTlv_def if_negated .
qed

text \<open>A flag is an element without a value.\<close>

definition flag_tlv :: "u32 \<Rightarrow> bool \<Rightarrow> bytes" where
  "flag_tlv t b = (if b then tlv t [] else [])"

lemma not_next_flag: "t' \<noteq> t \<Longrightarrow> not_next t rest \<Longrightarrow> not_next t (flag_tlv t' b @ rest)"
  using not_next_tlv [of t' t "[]" rest] by (simp add: flag_tlv_def)

lemma reads_readBooleanTlv:
  assumes s: "small_input (pre @ flag_tlv t b @ rest @ post)" and rest: "not_next t rest"
  shows "reads (readBooleanTlv t (at_pos (pre @ flag_tlv t b @ rest))) pre (flag_tlv t b) (rest @ post) b"
proof -
  let ?bs = "flag_tlv t b"
  let ?yes = "bindD (readTypeAndLength t) (\<lambda>len. bindD getOffset (\<lambda>off. bindD (TlvDecoder_seek (off + len)) (\<lambda>_. retD True)))"
  have bs: "?bs \<noteq> [] \<longleftrightarrow> b" by (simp add: flag_tlv_def)
  have "reads (if ?bs \<noteq> [] then ?yes else retD False) pre ?bs (rest @ post) b"
  proof (cases b)
    case True
    have "reads (readTypeAndLength t) pre ?bs (rest @ post) 0"
      using reads_readTypeAndLength [of pre t 0 "rest @ post"] s True by (simp add: flag_tlv_def tlv_def)
    moreover have "reads (bindD getOffset (\<lambda>off. bindD (TlvDecoder_seek (off + 0)) (\<lambda>_. retD True))) (pre @ ?bs) [] (rest @ post) True"
      by (simp add: reads_def bindD_def getOffset_def TlvDecoder_seek_def retD_def)
    ultimately show ?thesis using True bs
      using reads_bind [of "readTypeAndLength t" pre ?bs "[]" "rest @ post" 0
        "\<lambda>len. bindD getOffset (\<lambda>off. bindD (TlvDecoder_seek (off + len)) (\<lambda>_. retD True))" True] by simp
  qed (simp add: flag_tlv_def)
  then have "reads (bindD (peekType t (at_pos (pre @ ?bs @ rest))) (\<lambda>got. if got then ?yes else retD False))
       pre ?bs (rest @ post) b"
    using s rest by (intro reads_optional) (auto simp: flag_tlv_def)
  then show ?thesis unfolding readBooleanTlv_def if_negated .
qed

section \<open>Numbers in a double\<close>

text \<open>
  A \<^verbatim>\<open>double\<close> holding a whole number has 53 significant bits; the conversion of a 64-bit integer rounds to
  the nearest, ties to even.
\<close>

definition double_of_nat :: "nat \<Rightarrow> real" where
  "double_of_nat n =
     (let e = floorlog 2 n - 53; q = n div 2 ^ e; r = n mod 2 ^ e;
          q = (if 2 * r > 2 ^ e \<or> 2 * r = 2 ^ e \<and> odd q then q + 1 else q)
      in real (q * 2 ^ e))"

lemma double_of_nat_exact: "n < 2 ^ 53 \<Longrightarrow> double_of_nat n = real n"
proof -
  assume n: "n < 2 ^ 53"
  have "floorlog 2 n \<le> 53" using n by (simp add: floorlog_le_iff)
  then show ?thesis by (simp add: double_of_nat_def)
qed

text \<open>\<^verbatim>\<open>(uint64_t)round(value)\<close>, for a value below \<^verbatim>\<open>2^64\<close>.\<close>

definition round_u64 :: "real \<Rightarrow> u64" where
  "round_u64 x = word_of_int \<lfloor>x + 1 / 2\<rfloor>"

definition writeOptionalNonNegativeIntegerTlvFromDouble :: "u32 \<Rightarrow> real \<Rightarrow> tlv_encoder \<Rightarrow> ndn_error + tlv_encoder" where
  "writeOptionalNonNegativeIntegerTlvFromDouble type v e =
     (if v \<ge> 0 then writeNonNegativeIntegerTlv type (round_u64 v) e else Inr e)"

definition readOptionalNonNegativeIntegerTlvAsDouble :: "u32 \<Rightarrow> size_t \<Rightarrow> real dec" where
  "readOptionalNonNegativeIntegerTlvAsDouble expectedType endOffset =
     bindD (peekType expectedType endOffset) (\<lambda>gotExpectedType.
       if \<not> gotExpectedType then retD (-1)
       else bindD (readNonNegativeIntegerTlv expectedType) (\<lambda>v. retD (double_of_nat (unat v))))"

definition optional_double_tlv :: "u32 \<Rightarrow> real \<Rightarrow> bytes" where
  "optional_double_tlv type v = (if v \<ge> 0 then tlv type (nonneg_integer (round_u64 v)) else [])"

lemma not_next_optional_double:
  "t' \<noteq> t \<Longrightarrow> not_next t rest \<Longrightarrow> not_next t (optional_double_tlv t' v @ rest)"
  by (simp add: optional_double_tlv_def not_next_tlv)

lemma emits_optional_double [intro]:
  "emits (writeOptionalNonNegativeIntegerTlvFromDouble type v) (optional_double_tlv type v)"
proof (cases "v \<ge> 0")
  case True
  then have "writeOptionalNonNegativeIntegerTlvFromDouble type v = writeNonNegativeIntegerTlv type (round_u64 v)"
    by (auto simp: writeOptionalNonNegativeIntegerTlvFromDouble_def intro!: ext)
  with True show ?thesis by (auto simp: optional_double_tlv_def)
next
  case False
  then have "writeOptionalNonNegativeIntegerTlvFromDouble type v = Inr"
    by (auto simp: writeOptionalNonNegativeIntegerTlvFromDouble_def intro!: ext)
  with False show ?thesis by (auto simp: optional_double_tlv_def)
qed

lemma length_optional_double_le: "length (optional_double_tlv t v) \<le> 26"
  using length_tlv_le [of t "nonneg_integer (round_u64 v)"] length_nonneg_integer_le [of "round_u64 v"]
  by (simp add: optional_double_tlv_def)

lemma length_optional_nonneg_le: "length (optional_nonneg_tlv t v) \<le> 26"
  using length_tlv_le [of t "nonneg_integer (word_of_int v)"] length_nonneg_integer_le [of "word_of_int v"]
  by (simp add: optional_nonneg_tlv_def)

text \<open>A whole number below \<^verbatim>\<open>2^53\<close> survives; none is -1.\<close>

definition whole_ms :: "real \<Rightarrow> bool" where
  "whole_ms v \<longleftrightarrow> v = -1 \<or> (\<exists>n < 2 ^ 53. v = real n)"

lemma round_whole: "n < 2 ^ 53 \<Longrightarrow> double_of_nat (unat (round_u64 (real n))) = real n"
proof -
  assume n: "n < 2 ^ 53"
  have "\<lfloor>real n + 1 / 2\<rfloor> = int n" by (simp add: floor_eq_iff)
  then have "unat (round_u64 (real n)) = n"
    using n by (simp add: round_u64_def unat_of_nat)
  with n show ?thesis by (simp add: double_of_nat_exact)
qed

lemma reads_optional_double:
  assumes s: "small_input (pre @ optional_double_tlv t v @ rest @ post)" and v: "whole_ms v"
    and rest: "not_next t rest"
  shows "reads (readOptionalNonNegativeIntegerTlvAsDouble t (at_pos (pre @ optional_double_tlv t v @ rest)))
           pre (optional_double_tlv t v) (rest @ post) v"
proof -
  let ?bs = "optional_double_tlv t v"
  let ?yes = "bindD (readNonNegativeIntegerTlv t) (\<lambda>v. retD (double_of_nat (unat v)))"
  have bs: "?bs \<noteq> [] \<longleftrightarrow> v \<ge> 0" by (simp add: optional_double_tlv_def)
  have "reads (if ?bs \<noteq> [] then ?yes else retD (-1)) pre ?bs (rest @ post) v"
  proof (cases "v \<ge> 0")
    case True
    then have "v \<noteq> -1" by linarith
    with v obtain n where n: "n < 2 ^ 53" "v = real n" by (auto simp: whole_ms_def)
    have "reads (readNonNegativeIntegerTlv t) pre ?bs (rest @ post) (round_u64 v)"
      using s True by (simp add: optional_double_tlv_def reads_readNonNegativeIntegerTlv)
    from reads_bind_ret [OF this, of "\<lambda>v. double_of_nat (unat v)"] True bs n show ?thesis
      by (simp add: round_whole)
  next
    case False
    then have "v = -1" using v by (auto simp: whole_ms_def)
    then show ?thesis by (simp add: optional_double_tlv_def)
  qed
  then have "reads (bindD (peekType t (at_pos (pre @ ?bs @ rest))) (\<lambda>got. if got then ?yes else retD (-1)))
       pre ?bs (rest @ post) v"
    using s rest by (intro reads_optional) (auto simp: optional_double_tlv_def)
  then show ?thesis unfolding readOptionalNonNegativeIntegerTlvAsDouble_def if_negated .
qed

section \<open>Slices back to bytes\<close>

text \<open>Copying the blob of a decoded struct: a null pointer stays null.\<close>

fun resolve_blob :: "bytes \<Rightarrow> slice option \<Rightarrow> blob option" where
  "resolve_blob input None = Some None"
| "resolve_blob input (Some s) = (case slice_bytes input s of None \<Rightarrow> None | Some v \<Rightarrow> Some (Some v))"

lemma resolve_blob_tlv:
  assumes "small_input (pre @ tlv t v @ post)"
  shows "resolve_blob (pre @ tlv t v @ post)
           (Some \<lparr>sl_offset = at_pos (pre @ tlv_header t (length v)), sl_length = of_nat (length v)\<rparr>) = Some (Some v)"
  using slice_bytes_of [of "pre @ tlv_header t (length v)" v post] assms by (simp add: tlv_def)

section \<open>The fields of an element, one after the other\<close>

text \<open>
  One rule for each kind of field: \<^verbatim>\<open>E\<close> is the end of the element, \<^verbatim>\<open>rest\<close> the fields after this one, and the
  continuation reads them.  An optional field must not be confused with the start of the rest.
\<close>

lemma reads_field_bool:
  assumes s: "small_input (pre @ (flag_tlv t b @ rest) @ post)" and E: "E = at_pos (pre @ flag_tlv t b @ rest)"
    and rest: "not_next t rest"
    and k: "small_input ((pre @ flag_tlv t b) @ rest @ post) \<Longrightarrow> E = at_pos ((pre @ flag_tlv t b) @ rest) \<Longrightarrow>
            reads (f b) (pre @ flag_tlv t b) rest post w"
  shows "reads (bindD (readBooleanTlv t E) f) pre (flag_tlv t b @ rest) post w"
proof (rule reads_bind)
  show "reads (readBooleanTlv t E) pre (flag_tlv t b) (rest @ post) b"
    unfolding E using s rest by (intro reads_readBooleanTlv) simp_all
  show "reads (f b) (pre @ flag_tlv t b) rest post w" using s E by (intro k) simp_all
qed

definition blob_slice :: "bytes \<Rightarrow> u32 \<Rightarrow> blob \<Rightarrow> slice option" where
  "blob_slice pre t b =
     (if optional_blob_tlv t b = [] then None
      else Some \<lparr>sl_offset = at_pos (pre @ tlv_header t (length (the b))), sl_length = of_nat (length (the b))\<rparr>)"

lemma reads_field_blob:
  assumes s: "small_input (pre @ (optional_blob_tlv t b @ rest) @ post)"
    and E: "E = at_pos (pre @ optional_blob_tlv t b @ rest)" and rest: "not_next t rest"
    and k: "small_input ((pre @ optional_blob_tlv t b) @ rest @ post) \<Longrightarrow>
            E = at_pos ((pre @ optional_blob_tlv t b) @ rest) \<Longrightarrow>
            reads (f (blob_slice pre t b)) (pre @ optional_blob_tlv t b) rest post w"
  shows "reads (bindD (readOptionalBlobTlv t E) f) pre (optional_blob_tlv t b @ rest) post w"
proof (rule reads_bind)
  show "reads (readOptionalBlobTlv t E) pre (optional_blob_tlv t b) (rest @ post) (blob_slice pre t b)"
    unfolding E blob_slice_def using s rest by (intro reads_readOptionalBlobTlv) simp_all
  show "reads (f (blob_slice pre t b)) (pre @ optional_blob_tlv t b) rest post w" using s E by (intro k) simp_all
qed

text \<open>An optional blob that is not there.\<close>

lemma reads_field_no_blob:
  assumes s: "small_input (pre @ rest @ post)" and E: "E = at_pos (pre @ rest)" and rest: "not_next t rest"
    and k: "reads (f None) pre rest post w"
  shows "reads (bindD (readOptionalBlobTlv t E) f) pre rest post w"
  using reads_field_blob [of pre t None rest post E f w] assms by (simp add: optional_blob_tlv_def blob_slice_def)

lemma reads_field_nonneg:
  assumes s: "small_input (pre @ (optional_nonneg_tlv t v @ rest) @ post)"
    and E: "E = at_pos (pre @ optional_nonneg_tlv t v @ rest)" and v: "-1 \<le> v" "v < 2 ^ 31" and rest: "not_next t rest"
    and k: "small_input ((pre @ optional_nonneg_tlv t v) @ rest @ post) \<Longrightarrow>
            E = at_pos ((pre @ optional_nonneg_tlv t v) @ rest) \<Longrightarrow>
            reads (f v) (pre @ optional_nonneg_tlv t v) rest post w"
  shows "reads (bindD (readOptionalNonNegativeIntegerTlv t E) f) pre (optional_nonneg_tlv t v @ rest) post w"
proof (rule reads_bind)
  show "reads (readOptionalNonNegativeIntegerTlv t E) pre (optional_nonneg_tlv t v) (rest @ post) v"
    unfolding E using s v rest by (intro reads_readOptionalNonNegativeIntegerTlv) simp_all
  show "reads (f v) (pre @ optional_nonneg_tlv t v) rest post w" using s E by (intro k) simp_all
qed

lemma reads_field_double:
  assumes s: "small_input (pre @ (optional_double_tlv t v @ rest) @ post)"
    and E: "E = at_pos (pre @ optional_double_tlv t v @ rest)" and v: "whole_ms v" and rest: "not_next t rest"
    and k: "small_input ((pre @ optional_double_tlv t v) @ rest @ post) \<Longrightarrow>
            E = at_pos ((pre @ optional_double_tlv t v) @ rest) \<Longrightarrow>
            reads (f v) (pre @ optional_double_tlv t v) rest post w"
  shows "reads (bindD (readOptionalNonNegativeIntegerTlvAsDouble t E) f) pre (optional_double_tlv t v @ rest) post w"
proof (rule reads_bind)
  show "reads (readOptionalNonNegativeIntegerTlvAsDouble t E) pre (optional_double_tlv t v) (rest @ post) v"
    unfolding E using s v rest by (intro reads_optional_double) simp_all
  show "reads (f v) (pre @ optional_double_tlv t v) rest post w" using s E by (intro k) simp_all
qed

lemma resolve_blob_slice:
  assumes "small_input (pre @ optional_blob_tlv t b @ post)" and "b \<noteq> Some []"
  shows "resolve_blob (pre @ optional_blob_tlv t b @ post) (blob_slice pre t b) = Some b"
proof (cases "optional_blob_tlv t b = []")
  case True
  with assms(2) show ?thesis by (cases b) (auto simp: blob_slice_def optional_blob_tlv_def split: if_splits)
next
  case False
  then obtain v where v: "b = Some v" "optional_blob_tlv t b = tlv t v"
    by (auto simp: optional_blob_tlv_def split: option.splits if_splits)
  with assms(1) False resolve_blob_tlv [of pre t v post] show ?thesis by (simp add: blob_slice_def)
qed

section \<open>Decoding arbitrary input\<close>

lemma keeps_bounds_option [bounds]:
  "keeps_bounds d \<Longrightarrow> (\<And>x. keeps_bounds (f x)) \<Longrightarrow> keeps_bounds (case v of None \<Rightarrow> d | Some x \<Rightarrow> f x)"
  by (cases v) simp_all

lemma keeps_bounds_prod [bounds]: "(\<And>x y. keeps_bounds (f x y)) \<Longrightarrow> keeps_bounds (case p of (x, y) \<Rightarrow> f x y)"
  by (cases p) simp

lemma keeps_bounds_double [bounds]: "keeps_bounds (readOptionalNonNegativeIntegerTlvAsDouble type endOffset)"
  unfolding readOptionalNonNegativeIntegerTlvAsDouble_def by (intro bounds)

lemma keeps_bounds_nat:
  "(n = 0 \<Longrightarrow> keeps_bounds d) \<Longrightarrow> (\<And>m. n = Suc m \<Longrightarrow> keeps_bounds (f m)) \<Longrightarrow>
   keeps_bounds (case n of 0 \<Rightarrow> d | Suc m \<Rightarrow> f m)"
  by (cases n) simp_all

lemma keeps_bounds_loop:
  "(\<And>input off. off < endOffset \<Longrightarrow> d input off = body input off) \<Longrightarrow>
   (\<And>input off. \<not> off < endOffset \<Longrightarrow> d input off = Some (Inr (v, off))) \<Longrightarrow>
   keeps_bounds body \<Longrightarrow> keeps_bounds d"
  unfolding keeps_bounds_def by (metis option.inject prod.inject sum.inject(2))

lemma getSlice_offset: "getSlice b e input off = Some (Inr (s, off')) \<Longrightarrow> off' = off"
  by (auto simp: getSlice_def split: if_splits)

lemma keeps_bounds_getSlice [bounds]: "keeps_bounds (getSlice b e)"
  by (auto simp: keeps_bounds_def dest: getSlice_offset)

end
