(* ===== verification/ChangeCounter.thy ===== *)
theory ChangeCounter
  imports NdnPrelude
begin

text \<open>
  Change counts: the \<^verbatim>\<open>ChangeCounter\<close> template (\<^verbatim>\<open>util/change-counter.hpp\<close>), and the contract of the
  objects that keep their last wire encoding until their change count moves (\<^verbatim>\<open>Interest\<close>, \<^verbatim>\<open>Data\<close>,
  \<^verbatim>\<open>DelegationSet\<close>).
\<close>

section \<open>A child object and the change count last seen\<close>

record 'a change_counter =
  cc_target :: 'a
  cc_changeCount :: u64

definition ChangeCounter_of :: "('a \<Rightarrow> u64) \<Rightarrow> 'a \<Rightarrow> 'a change_counter" where
  "ChangeCounter_of getChangeCount target = \<lparr>cc_target = target, cc_changeCount = getChangeCount target\<rparr>"

definition ChangeCounter_set :: "('a \<Rightarrow> u64) \<Rightarrow> 'a \<Rightarrow> 'a change_counter \<Rightarrow> 'a change_counter" where
  "ChangeCounter_set getChangeCount target self =
     self\<lparr>cc_target := target, cc_changeCount := getChangeCount target\<rparr>"

text \<open>\<^verbatim>\<open>checkChanged\<close> of a const object updates the count; changes through \<^verbatim>\<open>get\<close> reach only the target.\<close>

definition ChangeCounter_checkChanged :: "('a \<Rightarrow> u64) \<Rightarrow> 'a change_counter \<Rightarrow> bool \<times> 'a change_counter" where
  "ChangeCounter_checkChanged getChangeCount self =
     (let targetChangeCount = getChangeCount (cc_target self) in
      if cc_changeCount self \<noteq> targetChangeCount
      then (True, self\<lparr>cc_changeCount := targetChangeCount\<rparr>) else (False, self))"

definition ChangeCounter_update :: "('a \<Rightarrow> 'a) \<Rightarrow> 'a change_counter \<Rightarrow> 'a change_counter" where
  "ChangeCounter_update f self = self\<lparr>cc_target := f (cc_target self)\<rparr>"

lemma checkChanged_target [simp]:
  "cc_target (snd (ChangeCounter_checkChanged g self)) = cc_target self"
  by (simp add: ChangeCounter_checkChanged_def Let_def)

lemma checkChanged_twice:
  "ChangeCounter_checkChanged g (snd (ChangeCounter_checkChanged g self)) =
   (False, snd (ChangeCounter_checkChanged g self))"
  by (simp add: ChangeCounter_checkChanged_def Let_def)

lemma checkChanged_set [simp]:
  "ChangeCounter_checkChanged g (ChangeCounter_set g x self) = (False, ChangeCounter_set g x self)"
  by (simp add: ChangeCounter_checkChanged_def ChangeCounter_set_def)

text \<open>
  A child that has children of its own: its \<^verbatim>\<open>getChangeCount\<close> counts their changes, so it returns the child
  as well.
\<close>

definition ChangeCounter_poll_of :: "('a \<Rightarrow> u64 \<times> 'a) \<Rightarrow> 'a \<Rightarrow> 'a change_counter" where
  "ChangeCounter_poll_of getChangeCount target =
     (let (n, target) = getChangeCount target in \<lparr>cc_target = target, cc_changeCount = n\<rparr>)"

definition ChangeCounter_poll_set :: "('a \<Rightarrow> u64 \<times> 'a) \<Rightarrow> 'a \<Rightarrow> 'a change_counter \<Rightarrow> 'a change_counter" where
  "ChangeCounter_poll_set getChangeCount target self =
     (let (n, target) = getChangeCount target in self\<lparr>cc_target := target, cc_changeCount := n\<rparr>)"

definition ChangeCounter_poll :: "('a \<Rightarrow> u64 \<times> 'a) \<Rightarrow> 'a change_counter \<Rightarrow> bool \<times> 'a change_counter" where
  "ChangeCounter_poll getChangeCount self =
     (let (targetChangeCount, target) = getChangeCount (cc_target self);
          self = self\<lparr>cc_target := target\<rparr>
      in if cc_changeCount self \<noteq> targetChangeCount
         then (True, self\<lparr>cc_changeCount := targetChangeCount\<rparr>) else (False, self))"

text \<open>\<^verbatim>\<open>SharedPointerChangeCounter\<close>, whose target may be null.\<close>

record 'a shared_counter =
  sp_target :: "'a option"
  sp_changeCount :: u64

definition SharedPointerChangeCounter_set ::
  "('a \<Rightarrow> u64 \<times> 'a) \<Rightarrow> 'a option \<Rightarrow> 'a shared_counter \<Rightarrow> 'a shared_counter" where
  "SharedPointerChangeCounter_set getChangeCount target self =
     (case target of
        None \<Rightarrow> self\<lparr>sp_target := None, sp_changeCount := 0\<rparr>
      | Some t \<Rightarrow> self\<lparr>sp_target := Some (snd (getChangeCount t)), sp_changeCount := fst (getChangeCount t)\<rparr>)"

definition SharedPointerChangeCounter_new :: "('a \<Rightarrow> u64 \<times> 'a) \<Rightarrow> 'a option \<Rightarrow> 'a shared_counter" where
  "SharedPointerChangeCounter_new getChangeCount target =
     SharedPointerChangeCounter_set getChangeCount target \<lparr>sp_target = None, sp_changeCount = 0\<rparr>"

definition SharedPointerChangeCounter_checkChanged ::
  "('a \<Rightarrow> u64 \<times> 'a) \<Rightarrow> 'a shared_counter \<Rightarrow> bool \<times> 'a shared_counter" where
  "SharedPointerChangeCounter_checkChanged getChangeCount self =
     (case sp_target self of
        None \<Rightarrow> (False, self)
      | Some t \<Rightarrow>
          (let self' = self\<lparr>sp_target := Some (snd (getChangeCount t))\<rparr> in
           if sp_changeCount self \<noteq> fst (getChangeCount t)
           then (True, self'\<lparr>sp_changeCount := fst (getChangeCount t)\<rparr>) else (False, self')))"

text \<open>
  The contract of \<^verbatim>\<open>getChangeCount\<close>: asking twice gives the same count and changes nothing more, and asking
  never changes what the object holds.
\<close>

locale counted =
  fixes getChangeCount :: "'s \<Rightarrow> u64 \<times> 's" and content :: "'s \<Rightarrow> 'c"
  assumes again: "getChangeCount (snd (getChangeCount s)) = getChangeCount s"
    and keeps: "content (snd (getChangeCount s)) = content s"
begin

lemma poll_again:
  "ChangeCounter_poll getChangeCount (snd (ChangeCounter_poll getChangeCount self)) =
   (False, snd (ChangeCounter_poll getChangeCount self))"
  using again [of "cc_target self"]
  by (cases "getChangeCount (cc_target self)") (simp add: ChangeCounter_poll_def Let_def)

lemma poll_content: "content (cc_target (snd (ChangeCounter_poll getChangeCount self))) = content (cc_target self)"
  using keeps [of "cc_target self"]
  by (cases "getChangeCount (cc_target self)") (simp add: ChangeCounter_poll_def Let_def)

lemma poll_set_content: "content (cc_target (ChangeCounter_poll_set getChangeCount t self)) = content t"
  using keeps [of t] by (cases "getChangeCount t") (simp add: ChangeCounter_poll_set_def)

lemma shared_again:
  "SharedPointerChangeCounter_checkChanged getChangeCount (snd (SharedPointerChangeCounter_checkChanged getChangeCount self)) =
   (False, snd (SharedPointerChangeCounter_checkChanged getChangeCount self))"
  by (cases "sp_target self") (simp_all add: SharedPointerChangeCounter_checkChanged_def Let_def again)

lemma shared_content:
  "map_option content (sp_target (snd (SharedPointerChangeCounter_checkChanged getChangeCount self))) =
   map_option content (sp_target self)"
  by (cases "sp_target self") (simp_all add: SharedPointerChangeCounter_checkChanged_def Let_def keeps)

lemma shared_set_content:
  "map_option content (sp_target (SharedPointerChangeCounter_set getChangeCount t self)) = map_option content t"
  by (cases t) (simp_all add: SharedPointerChangeCounter_set_def keeps)

lemma shared_null:
  "sp_target (snd (SharedPointerChangeCounter_checkChanged getChangeCount self)) = None \<longleftrightarrow> sp_target self = None"
  by (auto simp: SharedPointerChangeCounter_checkChanged_def Let_def split: option.split)

end

section \<open>The contract of a cached encoding\<close>

text \<open>
  The cache may hold only the encoding of the present content, as long as the count it was stored under
  is the present count; and that count is never ahead.  Counts are 64-bit and wrap around, so the laws
  hold for objects changed fewer than \<^verbatim>\<open>2^64\<close> times.
\<close>

definition cache_wf ::
  "('s \<Rightarrow> u64) \<Rightarrow> ('s \<Rightarrow> u64) \<Rightarrow> ('s \<Rightarrow> 'w option) \<Rightarrow> ('s \<Rightarrow> 'w option) \<Rightarrow> 's \<Rightarrow> bool" where
  "cache_wf changeCount cacheCount cached encoding s \<longleftrightarrow>
     cacheCount s \<le> changeCount s \<and>
     (cacheCount s = changeCount s \<longrightarrow> cached s = None \<or> cached s = encoding s)"

locale wire_cache =
  fixes changeCount cacheCount :: "'s \<Rightarrow> u64"
    and cached :: "'s \<Rightarrow> 'w option"
    and encoding :: "'s \<Rightarrow> 'w option"
    and getCached :: "'s \<Rightarrow> 'w option \<times> 's"
    and setCached :: "'w option \<Rightarrow> 's \<Rightarrow> 's"
  assumes get_value: "fst (getCached s) = (if cacheCount s \<noteq> changeCount s then None else cached s)"
    and get_cached: "cached (snd (getCached s)) = fst (getCached s)"
    and get_counts: "cacheCount (snd (getCached s)) = changeCount s" "changeCount (snd (getCached s)) = changeCount s"
    and get_encoding: "encoding (snd (getCached s)) = encoding s"
    and set_cached: "cached (setCached b s) = b"
    and set_counts: "cacheCount (setCached b s) = changeCount s" "changeCount (setCached b s) = changeCount s"
    and set_encoding: "encoding (setCached b s) = encoding s"
begin

abbreviation wf :: "'s \<Rightarrow> bool" where
  "wf s \<equiv> cache_wf changeCount cacheCount cached encoding s"

lemma get_fresh: "wf s \<Longrightarrow> fst (getCached s) = None \<or> fst (getCached s) = encoding s"
  by (simp add: cache_wf_def get_value)

lemma get_wf: "wf s \<Longrightarrow> wf (snd (getCached s))"
  using get_fresh by (simp add: cache_wf_def get_cached get_counts get_encoding)

lemma set_wf: "b = None \<or> b = encoding s \<Longrightarrow> wf (setCached b s)"
  by (auto simp: cache_wf_def set_cached set_counts set_encoding)

text \<open>A change of the content that moves the count by one.\<close>

lemma change_wf:
  assumes "wf s" and "changeCount s \<noteq> -1"
    and "cacheCount s' = cacheCount s" and "changeCount s' = changeCount s + 1"
  shows "wf s'"
proof -
  have "changeCount s < changeCount s'" using assms by (simp add: word_less_nat_alt unat_inc)
  with assms(1,3) have "cacheCount s' < changeCount s'" by (auto simp: cache_wf_def)
  then have "cacheCount s' \<le> changeCount s'" and "cacheCount s' \<noteq> changeCount s'" by auto
  then show ?thesis by (simp add: cache_wf_def)
qed

end

text \<open>
  An object with children keeps its own count behind the count it reports: a child that changed adds one
  when the count is asked for.  Own changes move the own count at once.
\<close>

locale family_cache = wire_cache changeCount cacheCount cached encoding getCached setCached
  for changeCount cacheCount :: "'s \<Rightarrow> u64"
    and cached encoding :: "'s \<Rightarrow> 'w option" and getCached and setCached +
  fixes own :: "'s \<Rightarrow> u64"
  assumes own_le: "own s \<noteq> -1 \<Longrightarrow> own s \<le> changeCount s"
    and get_own: "own (snd (getCached s)) = changeCount s"
    and set_own: "own (setCached b s) = changeCount s"
begin

abbreviation ok :: "'s \<Rightarrow> bool" where
  "ok s \<equiv> wf s \<and> cacheCount s \<le> own s"

lemma get_ok: "ok s \<Longrightarrow> ok (snd (getCached s))"
  using get_wf by (simp add: get_counts get_own)

lemma set_ok: "b = None \<or> b = encoding s \<Longrightarrow> ok (setCached b s)"
  using set_wf by (simp add: set_counts set_own)

text \<open>A change of the object itself.\<close>

lemma own_change_ok:
  assumes "ok s" and "cacheCount s' = cacheCount s" and "own s' = own s + 1" and "unat (own s) + 2 < 2 ^ 64"
  shows "ok s'"
proof -
  have inc: "unat (own s + 1) = unat (own s) + 1" using assms(4) by (intro unat_inc u64_not_max) simp
  then have "own s' \<noteq> -1" using assms(3,4) by (intro u64_not_max) simp
  moreover have "cacheCount s' < own s'" using assms(1-3) inc by (simp add: word_less_nat_alt word_le_nat_alt)
  ultimately have "cacheCount s' < changeCount s'" using own_le [of s'] by simp
  with \<open>cacheCount s' < own s'\<close> show ?thesis by (auto simp: cache_wf_def)
qed

text \<open>A change of a child that is seen at the next call.\<close>

lemma child_change_ok:
  assumes "ok s" and "cacheCount s' = cacheCount s" and "own s' = own s"
    and "changeCount s' = own s' + 1" and "own s \<noteq> -1"
  shows "ok s'"
proof -
  have "own s' < own s' + 1" using assms(3,5) by (simp add: word_less_nat_alt unat_inc)
  moreover have "cacheCount s' \<le> own s'" using assms(1-3) by simp
  ultimately have "cacheCount s' < changeCount s'" using assms(4) by simp
  with assms(1-3) show ?thesis by (auto simp: cache_wf_def)
qed

end

end
