(* ===== verification/KeyLocator.thy ===== *)
theory KeyLocator
  imports TlvName TlvFields ChangeCounter
begin

text \<open>
  \<^verbatim>\<open>KeyLocator\<close> (\<^verbatim>\<open>key-locator.hpp\<close>, \<^verbatim>\<open>key-locator.cpp\<close>) and its TLV encoding
  (\<^verbatim>\<open>tlv-key-locator.c\<close>).  The type is an integer, -1 for none, as in the code.
\<close>

section \<open>The C struct and the wire\<close>

definition ndn_KeyLocatorType_KEYNAME :: int where "ndn_KeyLocatorType_KEYNAME = 1"
definition ndn_KeyLocatorType_KEY_LOCATOR_DIGEST :: int where "ndn_KeyLocatorType_KEY_LOCATOR_DIGEST = 2"

definition ndn_Tlv_KeyLocatorDigest :: u32 where "ndn_Tlv_KeyLocatorDigest = 29"

text \<open>
  \<^verbatim>\<open>ndn_KeyLocator\<close>: its blobs and components point to the C++ object when it encodes, and are slices of
  the input when it decodes; both are instances of one record.
\<close>

record ('c, 'b) ndn_KeyLocator =
  ckl_type :: int
  ckl_keyData :: 'b
  ckl_keyName :: "'c list"

definition ndn_encodeTlvKeyLocatorValue :: "(component, blob) ndn_KeyLocator \<Rightarrow> tlv_encoder \<Rightarrow> ndn_error + tlv_encoder" where
  "ndn_encodeTlvKeyLocatorValue keyLocator e =
     (if ckl_type keyLocator < 0 then Inr e
      else if ckl_type keyLocator = ndn_KeyLocatorType_KEYNAME
      then bindE (ndn_encodeTlvName (ckl_keyName keyLocator) e) (\<lambda>(_, e). Inr e)
      else if ckl_type keyLocator = ndn_KeyLocatorType_KEY_LOCATOR_DIGEST \<and> blob_size (ckl_keyData keyLocator) > 0
      then writeBlobTlv ndn_Tlv_KeyLocatorDigest (blob_bytes (ckl_keyData keyLocator)) e
      else Inl NDN_ERROR_unrecognized_ndn_KeyLocatorType)"

definition ndn_KeyLocator_initialize :: "('c, 'b option) ndn_KeyLocator" where
  "ndn_KeyLocator_initialize = \<lparr>ckl_type = -1, ckl_keyData = None, ckl_keyName = []\<rparr>"

definition ndn_decodeTlvKeyLocator :: "u32 \<Rightarrow> nat \<Rightarrow> (component_slice, slice option) ndn_KeyLocator dec" where
  "ndn_decodeTlvKeyLocator expectedType maxComponents =
     bindD (readNestedTlvsStart expectedType) (\<lambda>endOffset.
     bindD getOffset (\<lambda>off.
       if off = endOffset then retD ndn_KeyLocator_initialize
       else
         bindD (peekType ndn_Tlv_Name endOffset) (\<lambda>gotExpectedType.
         bindD (if gotExpectedType
                then bindD (ndn_decodeTlvName maxComponents) (\<lambda>(cs, _, _).
                     retD (ndn_KeyLocator_initialize\<lparr>ckl_keyName := cs, ckl_type := ndn_KeyLocatorType_KEYNAME\<rparr>))
                else bindD (peekType ndn_Tlv_KeyLocatorDigest endOffset) (\<lambda>gotExpectedType.
                     if gotExpectedType
                     then bindD (readBlobTlv ndn_Tlv_KeyLocatorDigest) (\<lambda>s.
                          retD (ndn_KeyLocator_initialize
                                  \<lparr>ckl_type := ndn_KeyLocatorType_KEY_LOCATOR_DIGEST, ckl_keyData := Some s\<rparr>))
                     else failD NDN_ERROR_decodeKeyLocator_unrecognized_key_locator_type)) (\<lambda>kl.
         bindD (finishNestedTlvs endOffset) (\<lambda>_. retD kl)))))"

section \<open>The class\<close>

record key_locator =
  kl_type :: int
  kl_keyData :: blob
  kl_keyName :: "name change_counter"
  kl_changeCount :: u64

definition KeyLocator_new :: key_locator where
  "KeyLocator_new =
     \<lparr>kl_type = -1, kl_keyData = None, kl_keyName = ChangeCounter_of n_changeCount Name_empty, kl_changeCount = 0\<rparr>"

definition KeyLocator_setType :: "int \<Rightarrow> key_locator \<Rightarrow> key_locator" where
  "KeyLocator_setType type self = self\<lparr>kl_type := type, kl_changeCount := kl_changeCount self + 1\<rparr>"

definition KeyLocator_setKeyData :: "blob \<Rightarrow> key_locator \<Rightarrow> key_locator" where
  "KeyLocator_setKeyData keyData self = self\<lparr>kl_keyData := keyData, kl_changeCount := kl_changeCount self + 1\<rparr>"

definition KeyLocator_setKeyName :: "name \<Rightarrow> key_locator \<Rightarrow> key_locator" where
  "KeyLocator_setKeyName keyName self =
     self\<lparr>kl_keyName := ChangeCounter_set n_changeCount keyName (kl_keyName self),
          kl_changeCount := kl_changeCount self + 1\<rparr>"

definition KeyLocator_clear :: "key_locator \<Rightarrow> key_locator" where
  "KeyLocator_clear self =
     (let self = KeyLocator_setKeyName Name_empty (self\<lparr>kl_type := -1, kl_keyData := None\<rparr>)
      in self\<lparr>kl_changeCount := kl_changeCount self + 1\<rparr>)"

definition KeyLocator_getChangeCount :: "key_locator \<Rightarrow> u64 \<times> key_locator" where
  "KeyLocator_getChangeCount self =
     (let (changed, keyName) = ChangeCounter_checkChanged n_changeCount (kl_keyName self);
          self = self\<lparr>kl_keyName := keyName\<rparr>;
          self = (if changed then self\<lparr>kl_changeCount := kl_changeCount self + 1\<rparr> else self)
      in (kl_changeCount self, self))"

definition KeyLocator_get_lite :: "nat \<Rightarrow> key_locator \<Rightarrow> (component, blob) ndn_KeyLocator result" where
  "KeyLocator_get_lite maxComponents self =
     bindE (Name_get_lite \<lparr>cn_components = [], cn_maxComponents = maxComponents\<rparr> (cc_target (kl_keyName self))) (\<lambda>n.
       Inr \<lparr>ckl_type = kl_type self, ckl_keyData = kl_keyData self, ckl_keyName = cn_components n\<rparr>)"

definition KeyLocator_set_lite :: "(component, blob) ndn_KeyLocator \<Rightarrow> key_locator \<Rightarrow> key_locator" where
  "KeyLocator_set_lite lite self =
     (let self = KeyLocator_setType (ckl_type lite) self;
          self = KeyLocator_setKeyData (ckl_keyData lite) self
      in self\<lparr>kl_keyName :=
           ChangeCounter_update
             (if ckl_type lite = ndn_KeyLocatorType_KEYNAME
              then Name_set_lite \<lparr>cn_components = ckl_keyName lite, cn_maxComponents = length (ckl_keyName lite)\<rparr>
              else Name_clear) (kl_keyName self)\<rparr>)"

definition KeyLocator_equals :: "key_locator \<Rightarrow> key_locator \<Rightarrow> bool" where
  "KeyLocator_equals self other \<longleftrightarrow>
     (if kl_type self \<noteq> kl_type other then False
      else if kl_type self = ndn_KeyLocatorType_KEYNAME
      then Name_equals (cc_target (kl_keyName self)) (cc_target (kl_keyName other))
      else if kl_type self = ndn_KeyLocatorType_KEY_LOCATOR_DIGEST
      then blob_equals (kl_keyData self) (kl_keyData other)
      else True)"

lemma KeyLocator_getChangeCount_twice:
  "KeyLocator_getChangeCount (snd (KeyLocator_getChangeCount self)) = KeyLocator_getChangeCount self"
  by (simp add: KeyLocator_getChangeCount_def Let_def case_prod_beta ChangeCounter_checkChanged_def)

text \<open>\<^verbatim>\<open>equals\<close> compares what the type selects.\<close>

lemma KeyLocator_equals_refl [simp]: "KeyLocator_equals self self"
  by (simp add: KeyLocator_equals_def Name_equals_values blob_equals_def split: option.split)

lemma KeyLocator_equals_sym: "KeyLocator_equals a b \<longleftrightarrow> KeyLocator_equals b a"
  by (auto simp: KeyLocator_equals_def Name_equals_values blob_equals_def split: option.splits)

section \<open>Round trip of the encoding\<close>

definition key_locator_bytes :: "(component, blob) ndn_KeyLocator \<Rightarrow> bytes" where
  "key_locator_bytes kl =
     (if ckl_type kl < 0 then []
      else if ckl_type kl = ndn_KeyLocatorType_KEYNAME then name_tlv (ckl_keyName kl)
      else tlv ndn_Tlv_KeyLocatorDigest (blob_bytes (ckl_keyData kl)))"

text \<open>The key locators the encoder accepts.\<close>

definition key_locator_ok :: "(component, blob) ndn_KeyLocator \<Rightarrow> bool" where
  "key_locator_ok kl \<longleftrightarrow>
     ckl_type kl < 0 \<or>
     ckl_type kl = ndn_KeyLocatorType_KEYNAME \<and> (\<forall>c \<in> set (ckl_keyName kl). encodable c) \<or>
     ckl_type kl = ndn_KeyLocatorType_KEY_LOCATOR_DIGEST \<and> blob_size (ckl_keyData kl) > 0"

interpretation key_locator_value: tlv_value key_locator_ok ndn_encodeTlvKeyLocatorValue key_locator_bytes
proof
  fix kl assume ok: "key_locator_ok kl"
  consider "ckl_type kl < 0"
    | "ckl_type kl = ndn_KeyLocatorType_KEYNAME" "\<forall>c \<in> set (ckl_keyName kl). encodable c"
    | "ckl_type kl = ndn_KeyLocatorType_KEY_LOCATOR_DIGEST" "blob_size (ckl_keyData kl) > 0"
    using ok by (auto simp: key_locator_ok_def)
  then show "emits (ndn_encodeTlvKeyLocatorValue kl) (key_locator_bytes kl)"
  proof cases
    case 1
    then have "ndn_encodeTlvKeyLocatorValue kl = Inr" by (simp add: ndn_encodeTlvKeyLocatorValue_def fun_eq_iff)
    with 1 show ?thesis by (simp add: key_locator_bytes_def)
  next
    case 2
    then have "ndn_encodeTlvKeyLocatorValue kl = (\<lambda>e. bindE (ndn_encodeTlvName (ckl_keyName kl) e) (\<lambda>(_, e). Inr e))"
      by (simp add: ndn_encodeTlvKeyLocatorValue_def fun_eq_iff ndn_KeyLocatorType_KEYNAME_def)
    with 2 emits_val_drop [OF emits_val_name [OF 2(2)]] show ?thesis
      by (simp add: key_locator_bytes_def ndn_KeyLocatorType_KEYNAME_def)
  next
    case 3
    then have "ndn_encodeTlvKeyLocatorValue kl = writeBlobTlv ndn_Tlv_KeyLocatorDigest (blob_bytes (ckl_keyData kl))"
      by (simp add: ndn_encodeTlvKeyLocatorValue_def fun_eq_iff ndn_KeyLocatorType_KEYNAME_def
          ndn_KeyLocatorType_KEY_LOCATOR_DIGEST_def)
    with 3 show ?thesis
      by (auto simp: key_locator_bytes_def ndn_KeyLocatorType_KEYNAME_def ndn_KeyLocatorType_KEY_LOCATOR_DIGEST_def)
  qed
qed

text \<open>Copying a decoded key locator, when all its slices lie in the input.\<close>

definition resolve_key_locator ::
  "bytes \<Rightarrow> (component_slice, slice option) ndn_KeyLocator \<Rightarrow> (component, blob) ndn_KeyLocator option" where
  "resolve_key_locator input kl =
     (case (resolve_blob input (ckl_keyData kl), lite_components input (ckl_keyName kl)) of
        (Some b, Some cs) \<Rightarrow> Some \<lparr>ckl_type = ckl_type kl, ckl_keyData = b, ckl_keyName = cs\<rparr>
      | _ \<Rightarrow> None)"

text \<open>The key locators that survive the wire: only the field the type selects is set.\<close>

definition key_locator_wire_wf :: "nat \<Rightarrow> (component, blob) ndn_KeyLocator \<Rightarrow> bool" where
  "key_locator_wire_wf maxComponents kl \<longleftrightarrow>
     kl = ndn_KeyLocator_initialize \<or>
     ckl_type kl = ndn_KeyLocatorType_KEYNAME \<and> ckl_keyData kl = None \<and>
       (\<forall>c \<in> set (ckl_keyName kl). wire_wf c) \<and> length (ckl_keyName kl) \<le> maxComponents \<or>
     ckl_type kl = ndn_KeyLocatorType_KEY_LOCATOR_DIGEST \<and> ckl_keyName kl = [] \<and>
       (\<exists>v. v \<noteq> [] \<and> ckl_keyData kl = Some v)"

lemma key_locator_wire_wf_ok: "key_locator_wire_wf m kl \<Longrightarrow> key_locator_ok kl"
  by (auto simp: key_locator_wire_wf_def key_locator_ok_def ndn_KeyLocator_initialize_def wire_wf_encodable)

lemma name_tlv_not_Nil [simp]: "name_tlv cs \<noteq> []"
  by (simp add: name_tlv_def)

lemma reads_key_locator:
  assumes s: "small_input (pre @ tlv t (key_locator_bytes kl) @ post)" and wf: "key_locator_wire_wf m kl"
  shows "\<exists>v. reads (ndn_decodeTlvKeyLocator t m) pre (tlv t (key_locator_bytes kl)) post v \<and>
             resolve_key_locator (pre @ tlv t (key_locator_bytes kl) @ post) v = Some kl"
proof -
  let ?v = "key_locator_bytes kl"
  let ?b = "pre @ tlv_header t (length ?v)"
  let ?fin = "at_pos (?b @ ?v)"
  have tl: "tlv t ?v = tlv_header t (length ?v) @ ?v" by (simp add: tlv_def)
  have s': "small_input (?b @ ?v @ post)" using s by (simp add: tl)
  have start: "reads (readNestedTlvsStart t) pre (tlv_header t (length ?v)) (?v @ post) ?fin"
    using reads_readNestedTlvsStart [of pre t "length ?v" "?v @ post"] s by (simp add: tl add.assoc)
  have ne: "?v \<noteq> [] \<Longrightarrow> at_pos ?b \<noteq> ?fin"
    using small_input_at [OF s'] by auto
  have fin: "reads (bindD (finishNestedTlvs ?fin) (\<lambda>_. retD x)) (?b @ ?v) [] post x" for x :: "(component_slice, slice option) ndn_KeyLocator"
    by (rule reads_bind_ret [OF reads_finish, where f = "\<lambda>_. x"])
  have wrap: "reads (ndn_decodeTlvKeyLocator t m) pre (tlv t ?v) post x"
    if "reads (if at_pos ?b = ?fin then retD ndn_KeyLocator_initialize
       else bindD (peekType ndn_Tlv_Name ?fin) (\<lambda>gotExpectedType.
         bindD (if gotExpectedType
                then bindD (ndn_decodeTlvName m) (\<lambda>(cs, _, _).
                     retD (ndn_KeyLocator_initialize\<lparr>ckl_keyName := cs, ckl_type := ndn_KeyLocatorType_KEYNAME\<rparr>))
                else bindD (peekType ndn_Tlv_KeyLocatorDigest ?fin) (\<lambda>gotExpectedType.
                     if gotExpectedType
                     then bindD (readBlobTlv ndn_Tlv_KeyLocatorDigest) (\<lambda>s.
                          retD (ndn_KeyLocator_initialize
                                  \<lparr>ckl_type := ndn_KeyLocatorType_KEY_LOCATOR_DIGEST, ckl_keyData := Some s\<rparr>))
                     else failD NDN_ERROR_decodeKeyLocator_unrecognized_key_locator_type)) (\<lambda>kl.
         bindD (finishNestedTlvs ?fin) (\<lambda>_. retD kl)))) ?b ?v post x" for x
    unfolding ndn_decodeTlvKeyLocator_def tl
    by (rule reads_bind [OF start]) (rule reads_bind_getOffset, rule that)
  consider "kl = ndn_KeyLocator_initialize"
    | "ckl_type kl = ndn_KeyLocatorType_KEYNAME" "ckl_keyData kl = None" "\<forall>c \<in> set (ckl_keyName kl). wire_wf c"
      "length (ckl_keyName kl) \<le> m"
    | v where "ckl_type kl = ndn_KeyLocatorType_KEY_LOCATOR_DIGEST" "ckl_keyName kl = []" "v \<noteq> []" "ckl_keyData kl = Some v"
    using wf by (auto simp: key_locator_wire_wf_def)
  then show ?thesis
  proof cases
    case 1
    then have v: "?v = []" by (simp add: key_locator_bytes_def ndn_KeyLocator_initialize_def)
    have "reads (ndn_decodeTlvKeyLocator t m) pre (tlv t ?v) post ndn_KeyLocator_initialize"
      by (rule wrap) (simp add: v)
    with 1 show ?thesis
      by (auto simp: resolve_key_locator_def ndn_KeyLocator_initialize_def)
  next
    case 2
    let ?cs = "ckl_keyName kl"
    let ?n = "?b @ tlv_header ndn_Tlv_Name (length (comps_bytes ?cs))"
    have v: "?v = name_tlv ?cs"
      using 2 by (simp add: key_locator_bytes_def ndn_KeyLocatorType_KEYNAME_def)
    have nt: "name_tlv ?cs = tlv ndn_Tlv_Name (comps_bytes ?cs)" by (simp add: name_tlv_def comps_bytes_def)
    let ?x = "ndn_KeyLocator_initialize\<lparr>ckl_keyName := slices_of ?n ?cs, ckl_type := ndn_KeyLocatorType_KEYNAME\<rparr>"
    have peek: "reads (peekType ndn_Tlv_Name ?fin) ?b [] (?v @ post) True"
      using reads_peekType_present [of ?b ndn_Tlv_Name "comps_bytes ?cs" "[]" post] s' unfolding v nt by simp
    have name: "reads (ndn_decodeTlvName m) ?b ?v post
        (slices_of ?n ?cs, at_pos ?n, at_pos (?n @ comps_bytes (butlast ?cs)))"
      using reads_name [of ?b ?cs post m] s' 2 unfolding v Let_def by simp
    have "reads (ndn_decodeTlvKeyLocator t m) pre (tlv t ?v) post ?x"
      apply (rule wrap)
      apply (subst if_not_P [OF ne], simp add: v)
      apply (rule reads_bind_peek [OF peek])
      apply (rule reads_bind_last [where v = ?x])
       apply simp
       apply (rule reads_bind_last [OF name])
       apply simp
      apply (rule fin)
      done
    moreover have "lite_components (?n @ comps_bytes ?cs @ post) (slices_of ?n ?cs) = Some ?cs"
      using s' 2 by (intro lite_components_slices) (simp_all add: v nt tlv_def)
    ultimately show ?thesis using 2
      by (intro exI [of _ ?x]) (simp add: resolve_key_locator_def ndn_KeyLocator_initialize_def tl v nt tlv_def)
  next
    case (3 d)
    have v: "?v = tlv ndn_Tlv_KeyLocatorDigest d"
      using 3 by (simp add: key_locator_bytes_def ndn_KeyLocatorType_KEYNAME_def ndn_KeyLocatorType_KEY_LOCATOR_DIGEST_def)
    let ?s = "\<lparr>sl_offset = at_pos (?b @ tlv_header ndn_Tlv_KeyLocatorDigest (length d)), sl_length = of_nat (length d)\<rparr>"
    let ?x = "ndn_KeyLocator_initialize\<lparr>ckl_type := ndn_KeyLocatorType_KEY_LOCATOR_DIGEST, ckl_keyData := Some ?s\<rparr>"
    have "not_next ndn_Tlv_Name ?v"
      using not_next_tlv [of ndn_Tlv_KeyLocatorDigest ndn_Tlv_Name d "[]"]
      by (simp add: v ndn_Tlv_KeyLocatorDigest_def ndn_Tlv_Name_def)
    then have peek1: "reads (peekType ndn_Tlv_Name ?fin) ?b [] (?v @ post) False"
      using s' by (intro reads_peekType_absent)
    have peek2: "reads (peekType ndn_Tlv_KeyLocatorDigest ?fin) ?b [] (?v @ post) True"
      using reads_peekType_present [of ?b ndn_Tlv_KeyLocatorDigest d "[]" post] s' unfolding v by simp
    have blob: "reads (readBlobTlv ndn_Tlv_KeyLocatorDigest) ?b ?v post ?s"
      using reads_readBlobTlv [of ?b ndn_Tlv_KeyLocatorDigest d post] s' unfolding v by simp
    have "reads (ndn_decodeTlvKeyLocator t m) pre (tlv t ?v) post ?x"
      apply (rule wrap)
      apply (subst if_not_P [OF ne], simp add: v)
      apply (rule reads_bind_peek [OF peek1])
      apply (rule reads_bind_last [where v = ?x])
       apply (unfold if_False)
       apply (rule reads_bind_peek [OF peek2])
       apply (unfold if_True)
       apply (rule reads_bind_last [OF blob])
       apply (rule reads_ret)
      apply (rule fin)
      done
    moreover have "resolve_blob (?b @ ?v @ post) (Some ?s) = Some (Some d)"
      using resolve_blob_tlv [of ?b ndn_Tlv_KeyLocatorDigest d post] s' unfolding v by simp
    ultimately show ?thesis using 3
      by (intro exI [of _ ?x]) (simp add: resolve_key_locator_def ndn_KeyLocator_initialize_def tl)
  qed
qed

lemma keeps_bounds_key_locator [bounds]: "keeps_bounds (ndn_decodeTlvKeyLocator type maxComponents)"
  unfolding ndn_decodeTlvKeyLocator_def by (intro bounds)

end
