(* ===== verification/IsoTime.thy ===== *)
theory IsoTime
  imports NdnBytes
begin

text \<open>
  Times as ISO strings (\<^verbatim>\<open>util/time.c\<close>), with the calendar functions of the C library that it calls.
  A time is a number of milliseconds since 1970; the \<^verbatim>\<open>double\<close> that holds it is a real number here, so
  the rounding of the division by 1000 is not seen.
\<close>

section \<open>Doubles\<close>

definition DBL_MAX :: real where "DBL_MAX = (2 - 1 / 2 ^ 52) * 2 ^ 1023"

text \<open>\<^verbatim>\<open>round\<close> rounds a half away from zero.\<close>

definition c_round :: "real \<Rightarrow> int" where
  "c_round x = (if x \<ge> 0 then \<lfloor>x + 1 / 2\<rfloor> else \<lceil>x - 1 / 2\<rceil>)"

section \<open>The calendar of gmtime and timegm\<close>

definition leap_year :: "int \<Rightarrow> bool" where
  "leap_year y \<longleftrightarrow> y mod 4 = 0 \<and> (y mod 100 \<noteq> 0 \<or> y mod 400 = 0)"

definition year_days :: "int \<Rightarrow> int" where
  "year_days y = (if leap_year y then 366 else 365)"

definition month_days :: "int \<Rightarrow> nat \<Rightarrow> int" where
  "month_days y m = (if m = 1 \<and> leap_year y then 29 else [31, 28, 31, 30, 31, 30, 31, 31, 30, 31, 30, 31] ! m)"

record tm =
  tm_year :: int
  tm_mon :: int
  tm_mday :: int
  tm_hour :: int
  tm_min :: int
  tm_sec :: int

text \<open>The year of a day counted from the first of January of the year \<^verbatim>\<open>y\<close>, and the month likewise.\<close>

function civil_year :: "int \<Rightarrow> int \<Rightarrow> int \<times> int" where
  "civil_year y d = (if d < year_days y then (y, d) else civil_year (y + 1) (d - year_days y))"
  by auto
termination by (relation "measure (\<lambda>(y, d). nat d)") (auto simp: year_days_def split: if_splits)

declare civil_year.simps [simp del]

function civil_month :: "int \<Rightarrow> nat \<Rightarrow> int \<Rightarrow> nat \<times> int" where
  "civil_month y m d = (if m \<ge> 11 \<or> d < month_days y m then (m, d) else civil_month y (m + 1) (d - month_days y m))"
  by auto
termination by (relation "measure (\<lambda>(y, m, d). 11 - m)") auto

declare civil_month.simps [simp del]

definition gmtime :: "int \<Rightarrow> tm" where
  "gmtime seconds =
     (let (y, doy) = civil_year 1970 (seconds div 86400); (m, d) = civil_month y 0 doy; s = seconds mod 86400
      in \<lparr>tm_year = y - 1900, tm_mon = int m, tm_mday = d + 1,
          tm_hour = s div 3600, tm_min = s mod 3600 div 60, tm_sec = s mod 60\<rparr>)"

text \<open>\<^verbatim>\<open>timegm\<close> accepts fields out of their range and carries them over.\<close>

definition days_before_year :: "int \<Rightarrow> int" where
  "days_before_year y = 365 * (y - 1970) + (y - 1969) div 4 - (y - 1901) div 100 + (y - 1601) div 400"

definition days_before_month :: "int \<Rightarrow> nat \<Rightarrow> int" where
  "days_before_month y m = (\<Sum>k<m. month_days y k)"

definition timegm :: "tm \<Rightarrow> int" where
  "timegm t =
     (let y = tm_year t + 1900 + tm_mon t div 12; m = nat (tm_mon t mod 12)
      in (days_before_year y + days_before_month y m + tm_mday t - 1) * 86400 +
         tm_hour t * 3600 + tm_min t * 60 + tm_sec t)"

lemma days_before_year_Suc: "days_before_year (y + 1) = days_before_year y + year_days y"
proof -
  have sum: "365 * (y + 1 - 1970) + (a + (if p then 1 else 0)) - (b + (if q then 1 else 0)) + (c + (if r then 1 else 0)) =
      365 * (y - 1970) + a - b + c + (if p \<and> (q \<longrightarrow> r) then 366 else 365)"
    if "r \<Longrightarrow> q" "q \<Longrightarrow> p" for a b c :: int and p q r
    using that by (cases p; cases q; cases r) simp_all
  have step: "(a + 1) div n = a div n + (if (a + 1) mod n = 0 then 1 else 0)" if "n > 1" for a n :: int
  proof (cases "a mod n = n - 1")
    case True
    moreover have "(a + 1) mod n = (a mod n + 1) mod n" by (simp add: mod_add_left_eq)
    ultimately have "(a + 1) mod n = 0" using that by simp
    with True that show ?thesis by (simp add: div_add1_eq [of a 1 n])
  next
    case False
    then have l: "a mod n + 1 < n" using that pos_mod_bound [of n a] by linarith
    moreover have "0 \<le> a mod n" using that by simp
    ultimately have "(a mod n + 1) mod n = a mod n + 1" "(a mod n + 1) div n = 0" by simp_all
    moreover from this have "(a + 1) mod n \<noteq> 0" using \<open>0 \<le> a mod n\<close> by (simp add: mod_add_left_eq [symmetric, of a 1 n])
    ultimately show ?thesis using that by (simp add: div_add1_eq [of a 1 n])
  qed
  have "y - 1969 + 1 = y + (-492) * 4" "y - 1901 + 1 = y + (-19) * 100" "y - 1601 + 1 = y + (-4) * 400" by simp_all
  then have m: "(y - 1969 + 1) mod 4 = y mod 4" "(y - 1901 + 1) mod 100 = y mod 100" "(y - 1601 + 1) mod 400 = y mod 400"
    by (simp_all only: mod_mult_self1)
  have e: "y + 1 - 1969 = y - 1969 + 1" "y + 1 - 1901 = y - 1901 + 1" "y + 1 - 1601 = y - 1601 + 1" by simp_all
  have "(y + 1 - 1969) div 4 = (y - 1969) div 4 + (if y mod 4 = 0 then 1 else 0)"
    "(y + 1 - 1901) div 100 = (y - 1901) div 100 + (if y mod 100 = 0 then 1 else 0)"
    "(y + 1 - 1601) div 400 = (y - 1601) div 400 + (if y mod 400 = 0 then 1 else 0)"
    unfolding e
    by (rule step [of 4 "y - 1969", unfolded m], simp)
      (rule step [of 100 "y - 1901", unfolded m], simp, rule step [of 400 "y - 1601", unfolded m], simp)
  moreover have "y mod 400 = 0 \<Longrightarrow> y mod 100 = 0" "y mod 100 = 0 \<Longrightarrow> y mod 4 = 0"
  proof -
    have "y mod 400 mod 100 = y mod 100" "y mod 100 mod 4 = y mod 4" by (simp_all add: mod_mod_cancel)
    then show "y mod 400 = 0 \<Longrightarrow> y mod 100 = 0" "y mod 100 = 0 \<Longrightarrow> y mod 4 = 0" by simp_all
  qed
  ultimately show ?thesis
    unfolding days_before_year_def year_days_def leap_year_def 
    by (simp only: imp_conv_disj [symmetric]) (rule sum)
qed

lemma civil_year:
  "0 \<le> d \<Longrightarrow> civil_year y d = (y', d') \<Longrightarrow>
   days_before_year y' + d' = days_before_year y + d \<and> 0 \<le> d' \<and> d' < year_days y' \<and> y \<le> y'"
proof (induction y d rule: civil_year.induct)
  case (1 y d)
  show ?case
  proof (cases "d < year_days y")
    case True
    then have "civil_year y d = (y, d)" by (subst civil_year.simps) simp
    with "1.prems" True show ?thesis by simp
  next
    case False
    then have "civil_year (y + 1) (d - year_days y) = (y', d')"
      using "1.prems"(2) by (subst (asm) civil_year.simps) simp
    with 1(1) [OF False] False show ?thesis by (simp add: days_before_year_Suc)
  qed
qed

lemma civil_month:
  assumes "civil_month y m d = (m', d')" and "0 \<le> d" and "m \<le> 11" and "d < (\<Sum>k = m..11. month_days y k)"
  shows "days_before_month y m' + d' = days_before_month y m + d \<and> 0 \<le> d' \<and> d' < month_days y m' \<and> m' \<le> 11"
  using assms
proof (induction y m d rule: civil_month.induct)
  case (1 y m d)
  show ?case
  proof (cases "m \<ge> 11 \<or> d < month_days y m")
    case True
    then have "civil_month y m d = (m, d)" by (subst civil_month.simps) simp
    moreover have "d < month_days y m"
    proof (cases "m = 11")
      case True
      with "1.prems"(4) show ?thesis by simp
    next
      case False
      with True "1.prems"(3) show ?thesis by linarith
    qed
    ultimately show ?thesis using "1.prems" by simp
  next
    case False
    then have "civil_month y (m + 1) (d - month_days y m) = (m', d')"
      using "1.prems"(1) by (subst (asm) civil_month.simps) simp
    moreover have "(\<Sum>k = m..11. month_days y k) = month_days y m + (\<Sum>k = m + 1..11. month_days y k)"
      using "1.prems"(3) by (simp add: sum.atLeast_Suc_atMost)
    moreover have "days_before_month y (m + 1) = days_before_month y m + month_days y m"
      by (simp add: days_before_month_def)
    ultimately show ?thesis using 1(1) [OF False] "1.prems"(2,3,4) False by (simp add: not_less)
  qed
qed

lemma year_is_months: "(\<Sum>k = 0..11. month_days y k) = year_days y"
  by (simp add: month_days_def year_days_def numeral_eq_Suc)

text \<open>\<^verbatim>\<open>timegm\<close> is the inverse of \<^verbatim>\<open>gmtime\<close>, and the fields are in their ranges.\<close>

lemma gmtime_timegm:
  assumes "0 \<le> s"
  shows "timegm (gmtime s) = s"
    and "tm_mon (gmtime s) \<in> {0..11}" "tm_mday (gmtime s) \<in> {1..31}" "tm_hour (gmtime s) \<in> {0..23}"
      "tm_min (gmtime s) \<in> {0..59}" "tm_sec (gmtime s) \<in> {0..59}"
    and "days_before_year (tm_year (gmtime s) + 1900) \<le> s div 86400" "70 \<le> tm_year (gmtime s)"
proof -
  obtain y doy where y: "civil_year 1970 (s div 86400) = (y, doy)" by fastforce
  obtain m d where m: "civil_month y 0 doy = (m, d)" by fastforce
  have "days_before_year 1970 = 0" by (simp add: days_before_year_def)
  with civil_year [OF _ y] assms have yy: "days_before_year y + doy = s div 86400" "0 \<le> doy" "doy < year_days y" "1970 \<le> y" by auto
  have "days_before_month y 0 = 0" by (simp add: days_before_month_def)
  with civil_month [OF m] yy have mm: "days_before_month y m + d = doy" "0 \<le> d" "d < month_days y m" "m \<le> 11"
    by (auto simp: year_is_months)
  have "month_days y m \<le> 31"
  proof -
    have "m = 0 \<or> m = 1 \<or> m = 2 \<or> m = 3 \<or> m = 4 \<or> m = 5 \<or> m = 6 \<or> m = 7 \<or> m = 8 \<or> m = 9 \<or> m = 10 \<or> m = 11"
      using mm(4) by arith
    then show ?thesis by (auto simp: month_days_def)
  qed
  with mm have d: "d + 1 \<in> {1..31}" by simp
  have g: "gmtime s = \<lparr>tm_year = y - 1900, tm_mon = int m, tm_mday = d + 1, tm_hour = s mod 86400 div 3600,
      tm_min = s mod 86400 mod 3600 div 60, tm_sec = s mod 86400 mod 60\<rparr>"
    by (simp add: gmtime_def y m Let_def)
  define r where "r = s mod 86400"
  have r: "0 \<le> r" "r \<le> 86399" using pos_mod_bound [of 86400 s] by (simp_all add: r_def)
  have "r mod 3600 mod 60 = r mod 60" by (simp add: mod_mod_cancel)
  then have rr: "r div 3600 * 3600 + r mod 3600 div 60 * 60 + r mod 60 = r"
    using div_mult_mod_eq [of r 3600] div_mult_mod_eq [of "r mod 3600" 60] by linarith
  have mo: "int m div 12 = 0" "int m mod 12 = int m" using mm(4) by simp_all
  have "timegm (gmtime s) = (days_before_year y + days_before_month y m + (d + 1) - 1) * 86400 +
      r div 3600 * 3600 + r mod 3600 div 60 * 60 + r mod 60"
    unfolding timegm_def g Let_def r_def [symmetric] tm.select_convs mo nat_int diff_add_cancel add_0_right by (rule refl)
  also have "days_before_year y + days_before_month y m + (d + 1) - 1 = s div 86400"
    using mm(1) yy(1) by (simp only: diff_add_cancel add_diff_cancel_right' flip: add.assoc)
  also have "s div 86400 * 86400 + r div 3600 * 3600 + r mod 3600 div 60 * 60 + r mod 60 = s div 86400 * 86400 + r"
    using rr by (simp only: add.assoc)
  finally show "timegm (gmtime s) = s" by (simp add: r_def)
  show "days_before_year (tm_year (gmtime s) + 1900) \<le> s div 86400" "70 \<le> tm_year (gmtime s)" using yy by (simp_all add: g)
  show "tm_mon (gmtime s) \<in> {0..11}" "tm_mday (gmtime s) \<in> {1..31}" using mm d by (simp_all add: g)
  have "0 \<le> r div 3600 \<and> r div 3600 \<le> 23"
    using zdiv_mono1 [OF r(1), of 3600] zdiv_mono1 [OF r(2), of 3600] by simp
  moreover have "0 \<le> r mod 3600 div 60 \<and> r mod 3600 div 60 \<le> 59"
  proof -
    have "0 \<le> r mod 3600" "r mod 3600 \<le> 3599" using pos_mod_bound [of 3600 r] by simp_all
    from zdiv_mono1 [OF this(1), of 60] zdiv_mono1 [OF this(2), of 60] show ?thesis by simp
  qed
  moreover have "0 \<le> r mod 60 \<and> r mod 60 \<le> 59" using pos_mod_bound [of 60 r] by simp
  ultimately show "tm_hour (gmtime s) \<in> {0..23}" "tm_min (gmtime s) \<in> {0..59}" "tm_sec (gmtime s) \<in> {0..59}"
    by (simp_all add: g r_def)
qed

section \<open>Printing\<close>

text \<open>\<^verbatim>\<open>%0wd\<close> of a non-negative number.\<close>

definition pad :: "nat \<Rightarrow> nat \<Rightarrow> bytes" where
  "pad w n = (let ds = show_base False 10 n in replicate (w - length ds) 0x30 @ ds)"

text \<open>\<^verbatim>\<open>%.06lf\<close> rounds to six decimals, a tie to the even digit; what follows the point is kept.\<close>

definition round_half_even :: "real \<Rightarrow> int" where
  "round_half_even x =
     (let f = \<lfloor>x\<rfloor>; r = x - real_of_int f
      in if r < 1 / 2 then f else if r > 1 / 2 then f + 1 else if even f then f else f + 1)"

definition iso_fraction :: "real \<Rightarrow> bytes" where
  "iso_fraction seconds =
     0x2E # pad 6 (nat (round_half_even ((seconds - real_of_int \<lfloor>seconds\<rfloor>) * 1000000) mod 1000000))"

definition ndn_toIsoString :: "real \<Rightarrow> bool \<Rightarrow> ndn_error + bytes" where
  "ndn_toIsoString milliseconds includeFraction =
     (if milliseconds < 0 then Inl NDN_ERROR_Calendar_time_value_out_of_range
      else if milliseconds > 200000000000000 then Inl NDN_ERROR_Calendar_time_value_out_of_range
      else
        let secondsSince1970 = milliseconds / 1000;
            (fraction, seconds) =
              (if includeFraction then (iso_fraction secondsSince1970, \<lfloor>secondsSince1970\<rfloor>)
               else ([], \<lfloor>secondsSince1970 + 1 / 2\<rfloor>));
            gmt = gmtime seconds
        in Inr (pad 4 (nat (1900 + tm_year gmt)) @ pad 2 (nat (tm_mon gmt + 1)) @ pad 2 (nat (tm_mday gmt)) @
                [0x54] @ pad 2 (nat (tm_hour gmt)) @ pad 2 (nat (tm_min gmt)) @ pad 2 (nat (tm_sec gmt)) @ fraction))"

section \<open>Reading\<close>

text \<open>\<^verbatim>\<open>%wd\<close> of \<^verbatim>\<open>sscanf\<close>: leading white space, then a sign and digits, \<^verbatim>\<open>w\<close> characters in all.\<close>

definition scan_sign :: "bytes \<Rightarrow> int \<times> bytes" where
  "scan_sign s = (case s of c # r \<Rightarrow> if c = 0x2D then (-1, r) else if c = 0x2B then (1, r) else (1, s) | [] \<Rightarrow> (1, []))"

definition scan_int :: "nat \<Rightarrow> bytes \<Rightarrow> (int \<times> bytes) option" where
  "scan_int w s =
     (let t = dropWhile is_c_space s; (sign, u) = scan_sign t;
          ds = takeWhile is_digit_char (take (w - (length t - length u)) u)
      in if ds = [] then None else Some (sign * dec_value ds, drop (length ds) u))"

text \<open>
  \<^verbatim>\<open>%lf\<close> for decimal notation; None when nothing is stored (the spellings of infinity, of not-a-number and
  of hexadecimal numbers are left out).
\<close>

definition scan_exponent :: "bytes \<Rightarrow> real option" where
  "scan_exponent s =
     (case s of
        c # r \<Rightarrow>
          if c = 0x65 \<or> c = 0x45
          then let (sign, u) = scan_sign r; ds = takeWhile is_digit_char u
               in if ds = [] then None else Some (10 powi (sign * dec_value ds))
          else Some 1
      | [] \<Rightarrow> Some 1)"

definition scan_double :: "bytes \<Rightarrow> real option" where
  "scan_double s =
     (let (sign, t) = scan_sign (dropWhile is_c_space s);
          ip = takeWhile is_digit_char t; t1 = dropWhile is_digit_char t;
          (fp, t2) = (case t1 of c # r \<Rightarrow> if c = 0x2E then (takeWhile is_digit_char r, dropWhile is_digit_char r)
                                          else ([], t1)
                               | [] \<Rightarrow> ([], []))
      in if ip @ fp = [] then None
         else case scan_exponent t2 of
                None \<Rightarrow> None
              | Some e \<Rightarrow> Some (real_of_int (sign * dec_value (ip @ fp)) / 10 ^ length fp * e))"

text \<open>\<^verbatim>\<open>sscanf (isoString, "%4d%2d%2dT%2d%2d", ...)\<close>: a conversion that fails leaves the remaining fields.\<close>

definition scan_field :: "nat \<Rightarrow> (int \<Rightarrow> tm \<Rightarrow> tm) \<Rightarrow> tm \<times> bytes \<Rightarrow> tm + tm \<times> bytes" where
  "scan_field w set_field = (\<lambda>(t, s). case scan_int w s of None \<Rightarrow> Inl t | Some (v, r) \<Rightarrow> Inr (set_field v t, r))"

definition scan_iso :: "bytes \<Rightarrow> tm \<Rightarrow> tm" where
  "scan_iso s t =
     (case bindE (scan_field 4 (\<lambda>v t. t\<lparr>tm_year := v\<rparr>) (t, s)) (\<lambda>a.
           bindE (scan_field 2 (\<lambda>v t. t\<lparr>tm_mon := v\<rparr>) a) (\<lambda>a.
           bindE (scan_field 2 (\<lambda>v t. t\<lparr>tm_mday := v\<rparr>) a) (\<lambda>(t, s).
           bindE (if s = [] \<or> hd s \<noteq> 0x54 then Inl t else Inr (t, tl s)) (\<lambda>a.
           bindE (scan_field 2 (\<lambda>v t. t\<lparr>tm_hour := v\<rparr>) a) (\<lambda>a.
             scan_field 2 (\<lambda>v t. t\<lparr>tm_min := v\<rparr>) a))))) of
        Inl t \<Rightarrow> t | Inr (t, _) \<Rightarrow> t)"

text \<open>
  None is undefined behaviour: a string shorter than the fixed offset of the seconds is read past its end,
  and \<^verbatim>\<open>seconds\<close> is not initialised when the second scan stores nothing.
\<close>

definition ndn_fromIsoString :: "bytes \<Rightarrow> real option" where
  "ndn_fromIsoString isoString =
     (let tm1 = scan_iso isoString (gmtime 0);
          tm1 = tm1\<lparr>tm_year := tm_year tm1 - 1900, tm_mon := tm_mon tm1 - 1, tm_sec := 0\<rparr>
      in if length isoString < 13 then None
         else case scan_double (drop 13 isoString) of
                None \<Rightarrow> None
              | Some seconds \<Rightarrow> Some ((real_of_int (timegm tm1) + seconds) * 1000))"

section \<open>Round trip\<close>

lemma length_show_base: "n < 10 ^ w \<Longrightarrow> 0 < w \<Longrightarrow> length (show_base upper 10 n) \<le> w"
proof (induction w arbitrary: n)
  case (Suc w)
  show ?case
  proof (cases "n < 10")
    case False
    then have "n div 10 < 10 ^ w" "0 < w" using Suc.prems by (auto intro!: gr0I)
    then have "length (show_base upper 10 (n div 10)) \<le> w" by (rule Suc.IH)
    with False show ?thesis by (subst show_base.simps) simp
  qed (subst show_base.simps, simp)
qed simp

lemma pad:
  assumes "n < 10 ^ w" and "0 < w"
  shows "length (pad w n) = w" "\<forall>c \<in> set (pad w n). is_digit_char c" "dec_value (pad w n) = int n"
proof -
  show "length (pad w n) = w" using length_show_base [OF assms, of False] by (simp add: pad_def Let_def)
  show "\<forall>c \<in> set (pad w n). is_digit_char c"
    by (auto simp: pad_def Let_def set_replicate_conv_if dest: show_dec_digits) (simp add: is_digit_char_def)
  have "dec_value (replicate k 0x30 @ ds) = dec_value ds" for k ds
    by (induction k) (simp_all add: dec_value_def)
  then show "dec_value (pad w n) = int n" by (simp add: pad_def Let_def dec_value_show)
qed

lemma digit_not_sign: "is_digit_char c \<Longrightarrow> c \<noteq> 0x2D \<and> c \<noteq> 0x2B"
  by (auto simp: is_digit_char_def)

lemma scan_int_digits:
  assumes "length ds = w" and "\<forall>c \<in> set ds. is_digit_char c" and "0 < w"
  shows "scan_int w (ds @ r) = Some (dec_value ds, r)"
proof -
  obtain c cs where c: "ds = c # cs" using assms(1,3) by (cases ds) auto
  then have first: "dropWhile is_c_space (ds @ r) = ds @ r" "scan_sign (ds @ r) = (1, ds @ r)"
    using assms(2) digit_not_sign [of c] digit_not_space [of c] by (simp_all add: scan_sign_def)
  have "takeWhile is_digit_char ds = ds" using assms(2) by (simp add: takeWhile_eq_all_conv)
  then have "takeWhile is_digit_char (take (w - (length (ds @ r) - length (ds @ r))) (ds @ r)) = ds"
    using assms(1) by simp
  with c show ?thesis unfolding scan_int_def Let_def first prod.case by simp
qed

lemma scan_field_pad:
  assumes "n < 10 ^ w" and "0 < w"
  shows "scan_field w f (t, pad w n @ r) = Inr (f (int n) t, r)"
  using scan_int_digits [OF pad(1,2) [OF assms] assms(2), of r] pad(3) [OF assms] by (simp add: scan_field_def)

lemma scan_double_pad:
  assumes "n < 10 ^ w" and "0 < w"
  shows "scan_double (pad w n) = Some (real n)"
proof -
  note p = pad [OF assms]
  obtain c cs where c: "pad w n = c # cs" using p(1) assms(2) by (cases "pad w n") auto
  then have "dropWhile is_c_space (pad w n) = pad w n" "scan_sign (pad w n) = (1, pad w n)"
    using p(2) digit_not_sign [of c] digit_not_space [of c] by (simp_all add: scan_sign_def)
  moreover have "takeWhile is_digit_char (pad w n) = pad w n" "dropWhile is_digit_char (pad w n) = []"
    using p(2) by (simp_all add: takeWhile_eq_all_conv dropWhile_eq_Nil_conv)
  ultimately show ?thesis using p(3) c by (simp add: scan_double_def scan_exponent_def Let_def)
qed

lemma scan_iso_fields:
  assumes "y < 10000" "m < 100" "d < 100" "h < 100" "mi < 100"
  shows "scan_iso (pad 4 y @ pad 2 m @ pad 2 d @ [0x54] @ pad 2 h @ pad 2 mi @ r) t =
     t\<lparr>tm_year := int y, tm_mon := int m, tm_mday := int d, tm_hour := int h, tm_min := int mi\<rparr>"
  using assms by (simp add: scan_iso_def scan_field_pad)

text \<open>The year of a time that \<^verbatim>\<open>ndn_toIsoString\<close> accepts has four digits.\<close>

lemma year_bound:
  assumes "days_before_year y \<le> 2314815" shows "y < 10000"
proof (rule ccontr)
  assume "\<not> y < 10000"
  have q: "a div n * n \<le> a" "a < a div n * n + n" if "0 < n" for a n :: int
    using that div_mult_mod_eq [of a n] pos_mod_bound [of n a] pos_mod_sign [of n a] by linarith+
  have "0 \<le> (y - 1969) div 4" "0 \<le> (y - 1601) div 400" using \<open>\<not> y < 10000\<close> by (simp_all add: pos_imp_zdiv_nonneg_iff)
  moreover have "(y - 1901) div 100 \<le> y - 1901"
    using q(1) [of 100 "y - 1901"] \<open>\<not> y < 10000\<close> by linarith
  moreover have "365 * (y - 1970) + a - b + c > 2314815" if "0 \<le> a" "0 \<le> c" "b \<le> y - 1901" for a b c :: int
  proof -
    have "364 * 10000 \<le> 364 * y" using \<open>\<not> y < 10000\<close> by simp
    with that show ?thesis by (simp add: algebra_simps)
  qed
  ultimately have "days_before_year y > 2314815" unfolding days_before_year_def by blast
  with assms show False by simp
qed

lemma iso_string_roundtrip:
  assumes "0 \<le> s" and "s \<le> 200000000000"
  shows "\<exists>iso. ndn_toIsoString (real_of_int s * 1000) False = Inr iso \<and> length iso = 15 \<and>
     ndn_fromIsoString iso = Some (real_of_int s * 1000)"
proof -
  let ?g = "gmtime s"
  let ?y = "nat (1900 + tm_year ?g)" let ?m = "nat (tm_mon ?g + 1)" let ?d = "nat (tm_mday ?g)"
  let ?h = "nat (tm_hour ?g)" let ?mi = "nat (tm_min ?g)" let ?s = "nat (tm_sec ?g)"
  let ?iso = "pad 4 ?y @ pad 2 ?m @ pad 2 ?d @ [0x54] @ pad 2 ?h @ pad 2 ?mi @ pad 2 ?s"
  note g = gmtime_timegm [OF assms(1)]
  have "s div 86400 \<le> 200000000000 div 86400" using assms(2) by (rule zdiv_mono1) simp
  with g(7) have "tm_year ?g + 1900 < 10000" by (intro year_bound) simp
  then have y: "?y < 10000" by simp
  have y0: "0 \<le> 1900 + tm_year ?g"
    using g(8) by simp
  have b: "?m < 100" "?d < 100" "?h < 100" "?mi < 100" "?s < 100" using g(2-6) by auto
  have n: "\<lfloor>real_of_int s + 1 / 2\<rfloor> = s" by (simp add: floor_eq_iff)
  have to: "ndn_toIsoString (real_of_int s * 1000) False = Inr ?iso"
    using assms by (simp add: ndn_toIsoString_def n Let_def)
  have len: "length (pad 4 ?y @ pad 2 ?m @ pad 2 ?d @ [0x54] @ pad 2 ?h @ pad 2 ?mi) = 13"
    using y b by (simp add: pad(1))
  have drop: "drop 13 ?iso = pad 2 ?s"
    using len by (metis append.assoc append_eq_conv_conj)
  have len15: "length ?iso = 15" using y b by (simp add: pad(1))
  let ?t = "gmtime 0"
  have scan: "scan_iso ?iso ?t = ?t\<lparr>tm_year := 1900 + tm_year ?g, tm_mon := tm_mon ?g + 1, tm_mday := tm_mday ?g,
      tm_hour := tm_hour ?g, tm_min := tm_min ?g\<rparr>"
    using scan_iso_fields [OF y b(1-4), of "pad 2 ?s" ?t] y0 g(2-6) by simp
  have "timegm (?t\<lparr>tm_mday := tm_mday ?g, tm_hour := tm_hour ?g, tm_min := tm_min ?g, tm_year := tm_year ?g,
      tm_mon := tm_mon ?g, tm_sec := 0\<rparr>) + tm_sec ?g = s"
    using g(1) by (simp add: timegm_def Let_def)
  then have "ndn_fromIsoString ?iso = Some (real_of_int s * 1000)"
    unfolding ndn_fromIsoString_def scan Let_def drop len15
    using scan_double_pad [of ?s 2] b g(6) by (simp flip: of_int_add)
  with to len15 show ?thesis by blast
qed

text \<open>
  A time of a whole second up to the year 8307, printed without a fraction, has 15 characters and reads
  back exactly: the printer, the calendar and the scanner agree.
\<close>

theorem iso_time_roundtrip:
  assumes "0 \<le> s" and "s \<le> 200000000000"
  shows "\<exists>iso. ndn_toIsoString (real_of_int s * 1000) False = Inr iso \<and> length iso = 15 \<and>
     ndn_fromIsoString iso = Some (real_of_int s * 1000)"
  using assms by (rule iso_string_roundtrip)

theorem iso_time_roundtrip_witness:
  "\<exists>iso. ndn_toIsoString 1382121699000 False = Inr iso \<and> length iso = 15 \<and>
     ndn_fromIsoString iso = Some 1382121699000"
  using iso_time_roundtrip [of 1382121699] by simp

text \<open>The last half microsecond of a second is printed as the start of the same second.\<close>

lemma iso_fraction_rounds_down_a_second:
  "ndn_toIsoString 1999.9999 True = Inr (str ''19700101T000001.000000'')"
proof -
  have f: "\<lfloor>1999.9999 / 1000 :: real\<rfloor> = 1" "\<lfloor>999999.9 :: real\<rfloor> = 999999" by (simp_all add: floor_eq_iff)
  have "round_half_even ((1999.9999 / 1000 - real_of_int 1) * 1000000) = 1000000"
    using f(2) by (simp add: round_half_even_def Let_def)
  then have "iso_fraction (1999.9999 / 1000) = 0x2E # pad 6 0" by (simp only: iso_fraction_def f(1)) simp
  then have "ndn_toIsoString 1999.9999 True = Inr (let gmt = gmtime 1 in
      pad 4 (nat (1900 + tm_year gmt)) @ pad 2 (nat (tm_mon gmt + 1)) @ pad 2 (nat (tm_mday gmt)) @
      [0x54] @ pad 2 (nat (tm_hour gmt)) @ pad 2 (nat (tm_min gmt)) @ pad 2 (nat (tm_sec gmt)) @ 0x2E # pad 6 0)"
    using f(1) by (simp add: ndn_toIsoString_def Let_def)
  moreover have "(let gmt = gmtime 1 in
      pad 4 (nat (1900 + tm_year gmt)) @ pad 2 (nat (tm_mon gmt + 1)) @ pad 2 (nat (tm_mday gmt)) @
      [0x54] @ pad 2 (nat (tm_hour gmt)) @ pad 2 (nat (tm_min gmt)) @ pad 2 (nat (tm_sec gmt)) @ 0x2E # pad 6 0) =
      str ''19700101T000001.000000''" by code_simp
  ultimately show ?thesis by simp
qed

text \<open>A string of fewer than 13 characters makes the reader run past its end.\<close>

lemma short_iso_string_undefined: "length s < 13 \<Longrightarrow> ndn_fromIsoString s = None"
  by (simp add: ndn_fromIsoString_def)

end
