(* ===== verification/TlvSignatureInfo.thy ===== *)
theory TlvSignatureInfo
  imports KeyLocator IsoTime
begin

text \<open>
  Signatures on the wire: the C structs \<^verbatim>\<open>ndn_Signature\<close> and \<^verbatim>\<open>ndn_ValidityPeriod\<close>, and the
  SignatureInfo element (\<^verbatim>\<open>tlv-signature-info.c\<close>).
\<close>

section \<open>The C structs\<close>

definition ndn_Tlv_SignatureInfo :: u32 where "ndn_Tlv_SignatureInfo = 22"
definition ndn_Tlv_SignatureType :: u32 where "ndn_Tlv_SignatureType = 27"
definition ndn_Tlv_KeyLocator :: u32 where "ndn_Tlv_KeyLocator = 28"
definition ndn_Tlv_ValidityPeriod_ValidityPeriod :: u32 where "ndn_Tlv_ValidityPeriod_ValidityPeriod = 253"
definition ndn_Tlv_ValidityPeriod_NotBefore :: u32 where "ndn_Tlv_ValidityPeriod_NotBefore = 254"
definition ndn_Tlv_ValidityPeriod_NotAfter :: u32 where "ndn_Tlv_ValidityPeriod_NotAfter = 255"

lemmas signature_types =
  ndn_Tlv_SignatureInfo_def ndn_Tlv_SignatureType_def ndn_Tlv_KeyLocator_def
  ndn_Tlv_ValidityPeriod_ValidityPeriod_def ndn_Tlv_ValidityPeriod_NotBefore_def ndn_Tlv_ValidityPeriod_NotAfter_def

definition ndn_SignatureType_DigestSha256Signature :: int where "ndn_SignatureType_DigestSha256Signature = 0"
definition ndn_SignatureType_Sha256WithRsaSignature :: int where "ndn_SignatureType_Sha256WithRsaSignature = 1"
definition ndn_SignatureType_Sha256WithEcdsaSignature :: int where "ndn_SignatureType_Sha256WithEcdsaSignature = 3"
definition ndn_SignatureType_HmacWithSha256Signature :: int where "ndn_SignatureType_HmacWithSha256Signature = 4"
definition ndn_SignatureType_Generic :: int where "ndn_SignatureType_Generic = 0x7fff"

lemmas signature_kinds =
  ndn_SignatureType_DigestSha256Signature_def ndn_SignatureType_Sha256WithRsaSignature_def
  ndn_SignatureType_Sha256WithEcdsaSignature_def ndn_SignatureType_HmacWithSha256Signature_def
  ndn_SignatureType_Generic_def

text \<open>The largest double marks an unset period.\<close>

record ndn_ValidityPeriod =
  vp_notBefore :: real
  vp_notAfter :: real

definition ndn_ValidityPeriod_clear :: ndn_ValidityPeriod where
  "ndn_ValidityPeriod_clear = \<lparr>vp_notBefore = DBL_MAX, vp_notAfter = - DBL_MAX\<rparr>"

definition ndn_ValidityPeriod_hasPeriod :: "ndn_ValidityPeriod \<Rightarrow> bool" where
  "ndn_ValidityPeriod_hasPeriod self \<longleftrightarrow> \<not> (vp_notBefore self = DBL_MAX \<and> vp_notAfter self = - DBL_MAX)"

definition ndn_ValidityPeriod_setPeriod :: "real \<Rightarrow> real \<Rightarrow> ndn_ValidityPeriod" where
  "ndn_ValidityPeriod_setPeriod notBefore notAfter =
     \<lparr>vp_notBefore = real_of_int (\<lceil>real_of_int (c_round notBefore) / 1000\<rceil> * 1000),
      vp_notAfter = real_of_int (\<lfloor>real_of_int (c_round notAfter) / 1000\<rfloor> * 1000)\<rparr>"

definition ndn_ValidityPeriod_isValid :: "ndn_ValidityPeriod \<Rightarrow> real \<Rightarrow> bool" where
  "ndn_ValidityPeriod_isValid self time \<longleftrightarrow> vp_notBefore self \<le> time \<and> time \<le> vp_notAfter self"

record ('c, 'b) ndn_Signature =
  csg_type :: int
  csg_signature :: 'b
  csg_signatureInfoEncoding :: 'b
  csg_genericTypeCode :: int
  csg_keyLocator :: "('c, 'b) ndn_KeyLocator"
  csg_validityPeriod :: ndn_ValidityPeriod

definition ndn_Signature_initialize :: "('c, 'b option) ndn_Signature" where
  "ndn_Signature_initialize =
     \<lparr>csg_type = -1, csg_signature = None, csg_signatureInfoEncoding = None, csg_genericTypeCode = -1,
      csg_keyLocator = ndn_KeyLocator_initialize, csg_validityPeriod = ndn_ValidityPeriod_clear\<rparr>"

section \<open>The encoder\<close>

type_synonym c_signature = "(component, blob) ndn_Signature"

definition encodeValidityPeriodValue :: "ndn_ValidityPeriod \<Rightarrow> tlv_encoder \<Rightarrow> ndn_error + tlv_encoder" where
  "encodeValidityPeriodValue validityPeriod e =
     bindE (ndn_toIsoString (vp_notBefore validityPeriod) False) (\<lambda>isoString.
     bindE (writeOptionalBlobTlv ndn_Tlv_ValidityPeriod_NotBefore (Some isoString) e) (\<lambda>e.
     bindE (ndn_toIsoString (vp_notAfter validityPeriod) False) (\<lambda>isoString.
       writeOptionalBlobTlv ndn_Tlv_ValidityPeriod_NotAfter (Some isoString) e)))"

definition encodeSignatureWithKeyLocatorAndValidityPeriodValue ::
  "c_signature \<Rightarrow> tlv_encoder \<Rightarrow> ndn_error + tlv_encoder" where
  "encodeSignatureWithKeyLocatorAndValidityPeriodValue signature e =
     bindE (writeNonNegativeIntegerTlv ndn_Tlv_SignatureType (word_of_int (csg_type signature)) e) (\<lambda>e.
     bindE (writeNestedTlv ndn_Tlv_KeyLocator (ndn_encodeTlvKeyLocatorValue (csg_keyLocator signature)) False e) (\<lambda>e.
       if ndn_ValidityPeriod_hasPeriod (csg_validityPeriod signature)
       then writeNestedTlv ndn_Tlv_ValidityPeriod_ValidityPeriod
              (encodeValidityPeriodValue (csg_validityPeriod signature)) False e
       else Inr e))"

definition encodeDigestSha256Value :: "tlv_encoder \<Rightarrow> ndn_error + tlv_encoder" where
  "encodeDigestSha256Value e = writeNonNegativeIntegerTlv ndn_Tlv_SignatureType 0 e"

text \<open>
  A generic signature carries its whole SignatureInfo, which is written as it is after a test decoding.
  The outer None is a test decoding that does not return.
\<close>

definition generic_encoding_check :: "bytes \<Rightarrow> (ndn_error + unit) option" where
  "generic_encoding_check encoding =
     (case bindD (readNestedTlvsStart ndn_Tlv_SignatureInfo) (\<lambda>endOffset.
           bindD (readNonNegativeIntegerTlv ndn_Tlv_SignatureType) (\<lambda>_.
             finishNestedTlvsSkipCritical endOffset)) encoding 0 of
        None \<Rightarrow> None
      | Some (Inl _) \<Rightarrow>
          Some (Inl NDN_ERROR_The_Generic_signature_encoding_is_not_a_valid_NDN_TLV_SignatureInfo)
      | Some (Inr _) \<Rightarrow> Some (Inr ()))"

definition ndn_encodeTlvSignatureInfo :: "c_signature \<Rightarrow> tlv_encoder \<Rightarrow> ndn_error + tlv_encoder" where
  "ndn_encodeTlvSignatureInfo signatureInfo e =
     (if csg_type signatureInfo = ndn_SignatureType_Generic
      then case generic_encoding_check (blob_bytes (csg_signatureInfoEncoding signatureInfo)) of
             Some (Inr _) \<Rightarrow> writeArray (blob_bytes (csg_signatureInfoEncoding signatureInfo)) e
           | _ \<Rightarrow> Inl NDN_ERROR_The_Generic_signature_encoding_is_not_a_valid_NDN_TLV_SignatureInfo
      else if csg_type signatureInfo = ndn_SignatureType_Sha256WithRsaSignature \<or>
              csg_type signatureInfo = ndn_SignatureType_Sha256WithEcdsaSignature \<or>
              csg_type signatureInfo = ndn_SignatureType_HmacWithSha256Signature
      then writeNestedTlv ndn_Tlv_SignatureInfo
             (encodeSignatureWithKeyLocatorAndValidityPeriodValue signatureInfo) False e
      else if csg_type signatureInfo = ndn_SignatureType_DigestSha256Signature
      then writeNestedTlv ndn_Tlv_SignatureInfo encodeDigestSha256Value False e
      else Inl NDN_ERROR_encodeSignatureInfo_unrecognized_SignatureType)"

section \<open>The decoder\<close>

type_synonym signature_slices = "(component_slice, slice option) ndn_Signature"

text \<open>A time as an ISO string of at most 15 characters; None when the code reads outside its buffers.\<close>

definition decode_iso_time :: "u32 \<Rightarrow> real dec" where
  "decode_iso_time type =
     bindD (readBlobTlv type) (\<lambda>s.
       if sl_length s > 15 then failD NDN_ERROR_Calendar_time_value_out_of_range
       else (\<lambda>input off.
               case slice_bytes input s of
                 None \<Rightarrow> None
               | Some isoString \<Rightarrow>
                   (case ndn_fromIsoString isoString of None \<Rightarrow> None | Some t \<Rightarrow> Some (Inr (t, off)))))"

definition decodeValidityPeriod :: "ndn_ValidityPeriod dec" where
  "decodeValidityPeriod =
     bindD (readNestedTlvsStart ndn_Tlv_ValidityPeriod_ValidityPeriod) (\<lambda>endOffset.
     bindD (decode_iso_time ndn_Tlv_ValidityPeriod_NotBefore) (\<lambda>notBefore.
     bindD (decode_iso_time ndn_Tlv_ValidityPeriod_NotAfter) (\<lambda>notAfter.
     bindD (finishNestedTlvs endOffset) (\<lambda>_. retD \<lparr>vp_notBefore = notBefore, vp_notAfter = notAfter\<rparr>))))"

definition ndn_decodeTlvSignatureInfo :: "nat \<Rightarrow> signature_slices dec" where
  "ndn_decodeTlvSignatureInfo maxKeyName =
     bindD getOffset (\<lambda>beginOffset.
     bindD (readNestedTlvsStart ndn_Tlv_SignatureInfo) (\<lambda>endOffset.
     bindD (readNonNegativeIntegerTlv ndn_Tlv_SignatureType) (\<lambda>signatureType.
     bindD (if signatureType = 1 \<or> signatureType = 3 \<or> signatureType = 4
            then bindD (ndn_decodeTlvKeyLocator ndn_Tlv_KeyLocator maxKeyName) (\<lambda>keyLocator.
                 bindD (peekType ndn_Tlv_ValidityPeriod_ValidityPeriod endOffset) (\<lambda>gotExpectedType.
                 bindD (if gotExpectedType then decodeValidityPeriod else retD ndn_ValidityPeriod_clear) (\<lambda>validityPeriod.
                   retD (ndn_Signature_initialize\<lparr>csg_type := uint signatureType, csg_keyLocator := keyLocator,
                           csg_validityPeriod := validityPeriod\<rparr>))))
            else if signatureType = 0
            then retD (ndn_Signature_initialize\<lparr>csg_type := ndn_SignatureType_DigestSha256Signature\<rparr>)
            else bindD (getSlice beginOffset endOffset) (\<lambda>encoding.
                 bindD (finishNestedTlvsSkipCritical endOffset) (\<lambda>_.
                   retD (ndn_Signature_initialize\<lparr>csg_type := ndn_SignatureType_Generic,
                           csg_genericTypeCode := to_int (uint signatureType),
                           csg_signatureInfoEncoding := Some encoding\<rparr>)))) (\<lambda>signatureInfo.
     bindD (finishNestedTlvs endOffset) (\<lambda>_. retD signatureInfo)))))"

lemma keeps_bounds_iso_time [bounds]: "keeps_bounds (decode_iso_time type)"
proof -
  have "keeps_bounds (\<lambda>input off. case slice_bytes input s of None \<Rightarrow> None | Some isoString \<Rightarrow>
      (case ndn_fromIsoString isoString of None \<Rightarrow> None | Some t \<Rightarrow> Some (Inr (t, off))))" for s
    by (auto simp: keeps_bounds_def split: option.splits)
  then show ?thesis unfolding decode_iso_time_def by (intro bounds)
qed

lemma keeps_bounds_validity_period [bounds]: "keeps_bounds decodeValidityPeriod"
  unfolding decodeValidityPeriod_def by (intro bounds)

lemma keeps_bounds_signature_info [bounds]: "keeps_bounds (ndn_decodeTlvSignatureInfo maxKeyName)"
  unfolding ndn_decodeTlvSignatureInfo_def by (intro bounds)

section \<open>Round trip\<close>

text \<open>Skipping the elements that remain, whatever their types.\<close>

definition tlvs :: "(u32 \<times> bytes) list \<Rightarrow> bytes" where
  "tlvs xs = concat (map (\<lambda>(t, v). tlv t v) xs)"

lemma tlvs_simps [simp]: "tlvs [] = []" "tlvs ((t, v) # xs) = tlv t v @ tlvs xs"
  by (simp_all add: tlvs_def)

lemma reads_skip_one:
  assumes s: "small_input (pre @ tlv t v @ post)"
  shows "skip_one True (pre @ tlv t v @ post) (at_pos pre) = Some (Inr (at_pos (pre @ tlv t v), at_pos (pre @ tlv t v)))"
proof -
  have tl: "tlv t v = var_number (ucast t) @ var_number (of_nat (length v)) @ v" by (simp add: tlv_def tlv_header_def)
  have "reads readVarNumber pre (var_number (ucast t)) ((var_number (of_nat (length v)) @ v) @ post) (ucast t)"
    using s by (intro reads_readVarNumber) (simp add: tl)
  moreover have "reads readVarNumber (pre @ var_number (ucast t)) (var_number (of_nat (length v))) (v @ post) (of_nat (length v))"
    using s by (intro reads_readVarNumber) (simp add: tl)
  moreover have "at_pos (pre @ tlv t v) \<le> inputLength (pre @ tlv t v @ post)"
    using at_le_inputLength [of "pre @ tlv t v" "[]" post] s by simp
  moreover have "at_pos ((pre @ var_number (ucast t)) @ var_number (of_nat (length v))) + of_nat (length v) = at_pos (pre @ tlv t v)"
    by (simp add: tl at_pos_def)
  ultimately show ?thesis
    by (simp add: skip_one_def bindD_def reads_def tl Let_def not_less add.assoc)
qed

lemma reads_skip_loop:
  "small_input (pre @ tlvs xs @ post) \<Longrightarrow> reads (skip_loop (at_pos (pre @ tlvs xs)) True) pre (tlvs xs) post ()"
proof (induction xs arbitrary: pre)
  case Nil
  then show ?case by (simp add: reads_def) (subst skip_loop.simps, simp)
next
  case (Cons x xs)
  obtain t v where x: "x = (t, v)" by fastforce
  have s: "small_input (pre @ tlv t v @ (tlvs xs @ post))" using Cons.prems by (simp add: x)
  have "at_pos pre < at_pos (pre @ tlv t v @ tlvs xs)"
    using small_input_at [of pre "tlv t v @ tlvs xs" post] s by simp
  then have "skip_loop (at_pos (pre @ tlvs (x # xs))) True (pre @ tlvs (x # xs) @ post) (at_pos pre) =
      skip_loop (at_pos ((pre @ tlv t v) @ tlvs xs)) True ((pre @ tlv t v) @ tlvs xs @ post) (at_pos (pre @ tlv t v))"
    using reads_skip_one [OF s] by (subst skip_loop.simps) (simp add: x)
  moreover have "reads (skip_loop (at_pos ((pre @ tlv t v) @ tlvs xs)) True) (pre @ tlv t v) (tlvs xs) post ()"
    using s by (intro Cons.IH) simp
  ultimately show ?case by (simp add: reads_def x)
qed

lemma reads_finish_skip:
  assumes "small_input (pre @ tlvs xs @ post)"
  shows "reads (finishNestedTlvsSkipCritical (at_pos (pre @ tlvs xs))) pre (tlvs xs) post ()"
proof (cases "tlvs xs = []")
  case True
  then show ?thesis by (simp add: reads_def finishNestedTlvsSkipCritical_def bindD_def getOffset_def retD_def)
next
  case False
  then have "at_pos pre \<noteq> at_pos (pre @ tlvs xs)" using small_input_at [OF assms] by auto
  then show ?thesis using reads_skip_loop [OF assms]
    by (simp add: reads_def finishNestedTlvsSkipCritical_def bindD_def getOffset_def skipRemainingNestedTlvs_def)
qed

text \<open>The validity period: whole seconds that the ISO format can express, or none.\<close>

definition whole_second :: "real \<Rightarrow> bool" where
  "whole_second t \<longleftrightarrow> (\<exists>s. 0 \<le> s \<and> s \<le> 200000000000 \<and> t = real_of_int s * 1000)"

definition validity_wf :: "ndn_ValidityPeriod \<Rightarrow> bool" where
  "validity_wf vp \<longleftrightarrow> vp = ndn_ValidityPeriod_clear \<or> whole_second (vp_notBefore vp) \<and> whole_second (vp_notAfter vp)"

definition iso_of :: "real \<Rightarrow> bytes" where
  "iso_of t = (case ndn_toIsoString t False of Inr s \<Rightarrow> s | Inl _ \<Rightarrow> [])"

lemma iso_of:
  assumes "whole_second t"
  shows "ndn_toIsoString t False = Inr (iso_of t)" "length (iso_of t) = 15" "ndn_fromIsoString (iso_of t) = Some t"
  using assms iso_string_roundtrip by (fastforce simp: whole_second_def iso_of_def)+

definition validity_bytes :: "ndn_ValidityPeriod \<Rightarrow> bytes" where
  "validity_bytes vp = tlv ndn_Tlv_ValidityPeriod_NotBefore (iso_of (vp_notBefore vp)) @
     tlv ndn_Tlv_ValidityPeriod_NotAfter (iso_of (vp_notAfter vp))"

lemma emits_validity:
  assumes "whole_second (vp_notBefore vp)" and "whole_second (vp_notAfter vp)"
  shows "emits (encodeValidityPeriodValue vp) (validity_bytes vp)"
proof -
  have ne: "iso_of t \<noteq> []" if "whole_second t" for t using iso_of(2) [OF that] by auto
  have w: "emits (writeOptionalBlobTlv type (Some (iso_of t))) (tlv type (iso_of t))" if "whole_second t" for type t
    using emits_writeOptionalBlobTlv [of type "Some (iso_of t)"] ne [OF that] by (simp add: optional_blob_tlv_def)
  have "emits (\<lambda>e. bindE (writeOptionalBlobTlv ndn_Tlv_ValidityPeriod_NotBefore (Some (iso_of (vp_notBefore vp))) e)
      (writeOptionalBlobTlv ndn_Tlv_ValidityPeriod_NotAfter (Some (iso_of (vp_notAfter vp))))) (validity_bytes vp)"
    unfolding validity_bytes_def by (intro emits_seq w assms)
  then show ?thesis
    using assms by (simp add: encodeValidityPeriodValue_def [abs_def] iso_of(1))
qed

lemma reads_iso_time:
  assumes s: "small_input (pre @ tlv type (iso_of t) @ post)" and t: "whole_second t"
  shows "reads (decode_iso_time type) pre (tlv type (iso_of t)) post t"
proof -
  let ?s = "\<lparr>sl_offset = at_pos (pre @ tlv_header type (length (iso_of t))), sl_length = of_nat (length (iso_of t))\<rparr>"
  have "reads (readBlobTlv type) pre (tlv type (iso_of t)) post ?s" using s by (rule reads_readBlobTlv)
  moreover have "slice_bytes (pre @ tlv type (iso_of t) @ post) ?s = Some (iso_of t)"
    using slice_bytes_of [of "pre @ tlv_header type (length (iso_of t))" "iso_of t" post] s by (simp add: tlv_def)
  ultimately show ?thesis
    by (simp add: decode_iso_time_def reads_def bindD_def iso_of [OF t])
qed

lemma reads_validity:
  assumes s: "small_input (pre @ tlv ndn_Tlv_ValidityPeriod_ValidityPeriod (validity_bytes vp) @ post)"
    and t: "whole_second (vp_notBefore vp)" "whole_second (vp_notAfter vp)"
  shows "reads decodeValidityPeriod pre (tlv ndn_Tlv_ValidityPeriod_ValidityPeriod (validity_bytes vp)) post vp"
  unfolding decodeValidityPeriod_def
proof (rule reads_nested_bind_at [OF s refl], goal_cases)
  case 1
  then show ?case
    unfolding validity_bytes_def
    by (intro reads_bind [OF reads_iso_time] reads_bind_last [OF reads_iso_time] reads_finish_ret t)
       simp_all
qed

text \<open>The signatures that survive the wire, and the bytes of their SignatureInfo.\<close>

definition key_signature_kind :: "int \<Rightarrow> bool" where
  "key_signature_kind k \<longleftrightarrow> k = ndn_SignatureType_Sha256WithRsaSignature \<or>
     k = ndn_SignatureType_Sha256WithEcdsaSignature \<or> k = ndn_SignatureType_HmacWithSha256Signature"

definition generic_wf :: "c_signature \<Rightarrow> bool" where
  "generic_wf s \<longleftrightarrow>
     (\<exists>t xs. csg_signatureInfoEncoding s =
          Some (tlv ndn_Tlv_SignatureInfo (tlv ndn_Tlv_SignatureType (nonneg_integer t) @ tlvs xs)) \<and>
        t \<notin> {0, 1, 3, 4} \<and> csg_genericTypeCode s = to_int (uint t))"

definition signature_wire_wf :: "nat \<Rightarrow> c_signature \<Rightarrow> bool" where
  "signature_wire_wf maxKeyName s \<longleftrightarrow>
     (if csg_type s = ndn_SignatureType_Generic
      then generic_wf s \<and> csg_keyLocator s = ndn_KeyLocator_initialize \<and> csg_validityPeriod s = ndn_ValidityPeriod_clear
      else csg_signatureInfoEncoding s = None \<and> csg_genericTypeCode s = -1 \<and>
           (if csg_type s = ndn_SignatureType_DigestSha256Signature
            then csg_keyLocator s = ndn_KeyLocator_initialize \<and> csg_validityPeriod s = ndn_ValidityPeriod_clear
            else key_signature_kind (csg_type s) \<and> key_locator_wire_wf maxKeyName (csg_keyLocator s) \<and>
                 validity_wf (csg_validityPeriod s)))"

definition period_tlv :: "ndn_ValidityPeriod \<Rightarrow> bytes" where
  "period_tlv vp =
     (if ndn_ValidityPeriod_hasPeriod vp then tlv ndn_Tlv_ValidityPeriod_ValidityPeriod (validity_bytes vp) else [])"

definition signature_info_tlv :: "c_signature \<Rightarrow> bytes" where
  "signature_info_tlv s =
     (if csg_type s = ndn_SignatureType_Generic then blob_bytes (csg_signatureInfoEncoding s)
      else tlv ndn_Tlv_SignatureInfo
             (tlv ndn_Tlv_SignatureType (nonneg_integer (word_of_int (csg_type s))) @
              (if csg_type s = ndn_SignatureType_DigestSha256Signature then []
               else tlv ndn_Tlv_KeyLocator (key_locator_bytes (csg_keyLocator s)) @ period_tlv (csg_validityPeriod s))))"

lemma validity_wf_period:
  "validity_wf vp \<Longrightarrow> ndn_ValidityPeriod_hasPeriod vp \<Longrightarrow> whole_second (vp_notBefore vp) \<and> whole_second (vp_notAfter vp)"
  by (auto simp: validity_wf_def ndn_ValidityPeriod_hasPeriod_def ndn_ValidityPeriod_clear_def)

lemma not_has_period: "\<not> ndn_ValidityPeriod_hasPeriod vp \<Longrightarrow> vp = ndn_ValidityPeriod_clear"
  by (cases vp) (simp add: ndn_ValidityPeriod_hasPeriod_def ndn_ValidityPeriod_clear_def)

lemma reads_signature_type:
  assumes "small_input (pre @ (tlv ndn_Tlv_SignatureType (nonneg_integer t) @ rest) @ post)"
    and "reads (f t) (pre @ tlv ndn_Tlv_SignatureType (nonneg_integer t)) rest post w"
  shows "reads (bindD (readNonNegativeIntegerTlv ndn_Tlv_SignatureType) f) pre
           (tlv ndn_Tlv_SignatureType (nonneg_integer t) @ rest) post w"
proof (rule reads_bind)
  show "reads (readNonNegativeIntegerTlv ndn_Tlv_SignatureType) pre (tlv ndn_Tlv_SignatureType (nonneg_integer t)) (rest @ post) t"
    using assms(1) by (intro reads_readNonNegativeIntegerTlv) simp
qed (rule assms(2))

lemma generic_check:
  assumes "generic_wf s" and "small_input (blob_bytes (csg_signatureInfoEncoding s))"
  shows "generic_encoding_check (blob_bytes (csg_signatureInfoEncoding s)) = Some (Inr ())"
proof -
  obtain t xs where e: "csg_signatureInfoEncoding s =
      Some (tlv ndn_Tlv_SignatureInfo (tlv ndn_Tlv_SignatureType (nonneg_integer t) @ tlvs xs))"
    using assms(1) by (auto simp: generic_wf_def)
  let ?v = "tlv ndn_Tlv_SignatureType (nonneg_integer t) @ tlvs xs"
  have s: "small_input ([] @ tlv ndn_Tlv_SignatureInfo ?v @ [])" using assms(2) by (simp add: e)
  have "reads (bindD (readNestedTlvsStart ndn_Tlv_SignatureInfo) (\<lambda>endOffset.
      bindD (readNonNegativeIntegerTlv ndn_Tlv_SignatureType) (\<lambda>_. finishNestedTlvsSkipCritical endOffset)))
      [] (tlv ndn_Tlv_SignatureInfo ?v) [] ()"
  proof (rule reads_nested_bind_at [OF s refl], goal_cases)
    case 1
    then show ?case
      using reads_finish_skip [of "([] @ tlv_header ndn_Tlv_SignatureInfo (length ?v)) @
          tlv ndn_Tlv_SignatureType (nonneg_integer t)" xs "[]"]
      by (intro reads_signature_type) (simp_all add: add.assoc)
  qed
  then show ?thesis by (simp add: generic_encoding_check_def reads_def e)
qed

lemma emits_signature_info:
  assumes wf: "signature_wire_wf m s" and small: "small_input (blob_bytes (csg_signatureInfoEncoding s))"
  shows "emits (ndn_encodeTlvSignatureInfo s) (signature_info_tlv s)"
proof -
  have nested: "emits (writeNestedTlv t w False) (tlv t bs)" if "emits w bs" for t w bs
    using emits_writeNestedTlv [OF that, of t False] by (simp add: nested_tlv_def)
  consider "csg_type s = ndn_SignatureType_Generic" "generic_wf s"
    | "csg_type s = ndn_SignatureType_DigestSha256Signature"
    | "key_signature_kind (csg_type s)" "key_locator_wire_wf m (csg_keyLocator s)" "validity_wf (csg_validityPeriod s)"
    using wf by (auto simp: signature_wire_wf_def split: if_splits)
  then show ?thesis
  proof cases
    case 1
    then have "ndn_encodeTlvSignatureInfo s = writeArray (blob_bytes (csg_signatureInfoEncoding s))"
      using generic_check [OF _ small] by (simp add: ndn_encodeTlvSignatureInfo_def fun_eq_iff)
    with 1 show ?thesis using emits_writeArray by (simp add: signature_info_tlv_def)
  next
    case 2
    have "emits encodeDigestSha256Value (tlv ndn_Tlv_SignatureType (nonneg_integer 0))"
      unfolding encodeDigestSha256Value_def [abs_def] by (rule emits_writeNonNegativeIntegerTlv)
    from nested [OF this, of ndn_Tlv_SignatureInfo] 2 show ?thesis
      by (simp add: ndn_encodeTlvSignatureInfo_def [abs_def] signature_info_tlv_def signature_kinds)
  next
    case 3
    let ?vp = "csg_validityPeriod s"
    have "emits (\<lambda>e. if ndn_ValidityPeriod_hasPeriod ?vp
        then writeNestedTlv ndn_Tlv_ValidityPeriod_ValidityPeriod (encodeValidityPeriodValue ?vp) False e else Inr e)
        (period_tlv ?vp)"
      using nested [OF emits_validity, of ?vp ndn_Tlv_ValidityPeriod_ValidityPeriod] validity_wf_period [OF 3(3)]
      by (simp add: period_tlv_def)
    moreover have "emits (writeNestedTlv ndn_Tlv_KeyLocator (ndn_encodeTlvKeyLocatorValue (csg_keyLocator s)) False)
        (tlv ndn_Tlv_KeyLocator (key_locator_bytes (csg_keyLocator s)))"
      using nested [OF key_locator_value.writes [OF key_locator_wire_wf_ok [OF 3(2)]]] .
    ultimately have "emits (encodeSignatureWithKeyLocatorAndValidityPeriodValue s)
        (tlv ndn_Tlv_SignatureType (nonneg_integer (word_of_int (csg_type s))) @
         tlv ndn_Tlv_KeyLocator (key_locator_bytes (csg_keyLocator s)) @ period_tlv ?vp)"
      unfolding encodeSignatureWithKeyLocatorAndValidityPeriodValue_def [abs_def]
      by (intro emits_seq emits_writeNonNegativeIntegerTlv)
    from nested [OF this, of ndn_Tlv_SignatureInfo] 3(1) show ?thesis
      by (auto simp: ndn_encodeTlvSignatureInfo_def [abs_def] signature_info_tlv_def signature_kinds key_signature_kind_def)
  qed
qed

text \<open>Copying a decoded signature.\<close>

definition resolve_signature :: "bytes \<Rightarrow> signature_slices \<Rightarrow> c_signature option" where
  "resolve_signature input s =
     Option.bind (resolve_blob input (csg_signature s)) (\<lambda>signature.
     Option.bind (resolve_blob input (csg_signatureInfoEncoding s)) (\<lambda>encoding.
     Option.bind (resolve_key_locator input (csg_keyLocator s)) (\<lambda>keyLocator.
       Some \<lparr>csg_type = csg_type s, csg_signature = signature, csg_signatureInfoEncoding = encoding,
             csg_genericTypeCode = csg_genericTypeCode s, csg_keyLocator = keyLocator,
             csg_validityPeriod = csg_validityPeriod s\<rparr>)))"

lemma resolve_key_locator_initialize [simp]:
  "resolve_key_locator input ndn_KeyLocator_initialize = Some ndn_KeyLocator_initialize"
  by (simp add: resolve_key_locator_def ndn_KeyLocator_initialize_def)

lemma reads_period:
  assumes s: "small_input (pre @ period_tlv vp @ post)" and wf: "validity_wf vp" and E: "E = at_pos (pre @ period_tlv vp)"
    and k: "reads (f vp) (pre @ period_tlv vp) [] post w"
  shows "reads (bindD (peekType ndn_Tlv_ValidityPeriod_ValidityPeriod E) (\<lambda>gotExpectedType.
      bindD (if gotExpectedType then decodeValidityPeriod else retD ndn_ValidityPeriod_clear) f)) pre (period_tlv vp) post w"
proof (cases "ndn_ValidityPeriod_hasPeriod vp")
  case True
  then have p: "period_tlv vp = tlv ndn_Tlv_ValidityPeriod_ValidityPeriod (validity_bytes vp)" by (simp add: period_tlv_def)
  have "reads (peekType ndn_Tlv_ValidityPeriod_ValidityPeriod E) pre [] (period_tlv vp @ post) True"
    using reads_peekType_present [of pre ndn_Tlv_ValidityPeriod_ValidityPeriod "validity_bytes vp" "[]" post] s E by (simp add: p)
  moreover have "reads decodeValidityPeriod pre (period_tlv vp) post vp"
    using reads_validity s validity_wf_period [OF wf True] by (simp add: p)
  then have "reads (bindD (if True then decodeValidityPeriod else retD ndn_ValidityPeriod_clear) f) pre (period_tlv vp) post w"
    using k by (simp add: reads_bind_last)
  ultimately show ?thesis by (rule reads_bind_peek)
next
  case False
  then have p: "period_tlv vp = []" "vp = ndn_ValidityPeriod_clear" by (simp_all add: period_tlv_def not_has_period)
  have "reads (peekType ndn_Tlv_ValidityPeriod_ValidityPeriod E) pre [] (period_tlv vp @ post) False"
    using reads_peekType_end [of _ pre post] E unfolding p(1) by simp
  moreover have "reads (bindD (if False then decodeValidityPeriod else retD ndn_ValidityPeriod_clear) f) pre (period_tlv vp) post w"
    using k p by (simp add: reads_def bindD_def retD_def)
  ultimately show ?thesis by (rule reads_bind_peek)
qed

lemma reads_getSlice:
  assumes "small_input (pre @ bs @ post)" and "pre @ bs @ post = q @ r"
  shows "reads (getSlice (at_pos pre) (at_pos (pre @ bs))) q [] r
           \<lparr>sl_offset = at_pos pre, sl_length = of_nat (length bs)\<rparr>"
proof -
  have s: "small_input ((pre @ bs) @ [] @ post)" using assms(1) by simp
  have "\<not> at_pos pre > inputLength (pre @ bs @ post)"
    using at_le_inputLength [of pre "[]" "bs @ post"] assms(1) by simp
  moreover have "\<not> at_pos (pre @ bs) > inputLength (pre @ bs @ post)" using at_le_inputLength [OF s] by simp
  moreover have "\<not> at_pos pre > at_pos (pre @ bs)"
    using small_input_at [of pre bs post] assms(1) by (cases "bs = []") auto
  ultimately show ?thesis using assms(2) by (simp add: reads_def getSlice_def)
qed

lemma small_uint_type: "k = 0 \<or> k = 1 \<or> k = 3 \<or> k = 4 \<Longrightarrow> uint (word_of_int k :: u64) = k" for k :: int
  by auto

lemma reads_signature_info:
  assumes s: "small_input (pre @ signature_info_tlv s @ post)" and wf: "signature_wire_wf m s"
  shows "\<exists>v. reads (ndn_decodeTlvSignatureInfo m) pre (signature_info_tlv s) post v \<and>
     resolve_signature (pre @ signature_info_tlv s @ post) v = Some (s\<lparr>csg_signature := None\<rparr>)"
proof -
  let ?ti = "ndn_Tlv_SignatureInfo" and ?tt = "ndn_Tlv_SignatureType"
  consider "csg_type s = ndn_SignatureType_Generic" "generic_wf s" "csg_keyLocator s = ndn_KeyLocator_initialize"
      "csg_validityPeriod s = ndn_ValidityPeriod_clear"
    | "csg_type s = ndn_SignatureType_DigestSha256Signature" "csg_signatureInfoEncoding s = None"
      "csg_genericTypeCode s = -1" "csg_keyLocator s = ndn_KeyLocator_initialize"
      "csg_validityPeriod s = ndn_ValidityPeriod_clear"
    | "key_signature_kind (csg_type s)" "csg_signatureInfoEncoding s = None" "csg_genericTypeCode s = -1"
      "key_locator_wire_wf m (csg_keyLocator s)" "validity_wf (csg_validityPeriod s)"
    using wf by (auto simp: signature_wire_wf_def split: if_splits)
  then show ?thesis
  proof cases
    case 1
    then obtain t xs where e: "csg_signatureInfoEncoding s = Some (tlv ?ti (tlv ?tt (nonneg_integer t) @ tlvs xs))"
      "t \<notin> {0, 1, 3, 4}" "csg_genericTypeCode s = to_int (uint t)"
      by (auto simp: generic_wf_def)
    let ?v = "tlv ?tt (nonneg_integer t) @ tlvs xs"
    have b: "signature_info_tlv s = tlv ?ti ?v" using 1 e by (simp add: signature_info_tlv_def)
    let ?sl = "\<lparr>sl_offset = at_pos pre, sl_length = of_nat (length (tlv ?ti ?v))\<rparr> :: slice"
    let ?x = "ndn_Signature_initialize\<lparr>csg_type := ndn_SignatureType_Generic,
        csg_genericTypeCode := to_int (uint t), csg_signatureInfoEncoding := Some ?sl\<rparr> :: signature_slices"
    have s1: "small_input (pre @ tlv ?ti ?v @ post)" using s by (simp add: b)
    obtain p where p: "p = pre @ tlv_header ?ti (length ?v)" by simp
    have pv: "p @ ?v = pre @ tlv ?ti ?v" by (simp add: p tlv_def)
    have t13: "\<not> (t = 1 \<or> t = 3 \<or> t = 4)" and t0: "t \<noteq> 0" using e(2) by auto
    have "pre @ tlv ?ti ?v @ post = (p @ tlv ?tt (nonneg_integer t)) @ tlvs xs @ post" using pv by (metis append.assoc)
    from reads_getSlice [OF s1 this]
    have slice: "reads (getSlice (at_pos pre) (at_pos (p @ ?v))) (p @ tlv ?tt (nonneg_integer t)) [] (tlvs xs @ post) ?sl"
      unfolding pv .
    have "small_input ((p @ tlv ?tt (nonneg_integer t)) @ tlvs xs @ post)" using s1 pv by (metis append.assoc)
    from reads_finish_skip [OF this]
    have skip: "reads (finishNestedTlvsSkipCritical (at_pos (p @ ?v))) (p @ tlv ?tt (nonneg_integer t)) (tlvs xs) post ()"
      by (simp only: append_assoc)
    have "reads (ndn_decodeTlvSignatureInfo m) pre (tlv ?ti ?v) post ?x"
      unfolding ndn_decodeTlvSignatureInfo_def
      apply (rule reads_bind_getOffset)
      apply (rule reads_nested_bind_at [OF s1 p])
      apply (rule reads_signature_type, assumption)
      apply (rule reads_bind_last [where v = ?x])
       apply (subst if_not_P [OF t13], subst if_not_P [OF t0])
       apply (rule reads_bind_peek [OF slice])
       apply (rule reads_bind_last [OF skip])
       apply (rule reads_ret)
      apply (rule reads_finish_ret)
       apply simp
      apply (rule refl)
      done
    moreover have "slice_bytes (pre @ tlv ?ti ?v @ post) ?sl = Some (tlv ?ti ?v)"
      using slice_bytes_of [of pre "tlv ?ti ?v" post] s1 by simp
    ultimately show ?thesis using 1(1,3,4) e unfolding b
      by (intro exI [of _ ?x]) (cases s, simp add: resolve_signature_def ndn_Signature_initialize_def)
  next
    case 2
    let ?v = "tlv ?tt (nonneg_integer 0)"
    let ?x = "ndn_Signature_initialize\<lparr>csg_type := ndn_SignatureType_DigestSha256Signature\<rparr> :: signature_slices"
    have b: "signature_info_tlv s = tlv ?ti ?v" using 2 by (simp add: signature_info_tlv_def signature_kinds)
    have s1: "small_input (pre @ tlv ?ti ?v @ post)" using s by (simp add: b)
    have "reads (ndn_decodeTlvSignatureInfo m) pre (tlv ?ti ?v) post ?x"
      unfolding ndn_decodeTlvSignatureInfo_def
    proof (rule reads_bind_getOffset, rule reads_nested_bind_at [OF s1 refl], goal_cases)
      case 1
      then show ?case
        by (intro reads_bind_last [OF reads_readNonNegativeIntegerTlv])
          (simp_all, simp add: reads_def bindD_def retD_def finishNestedTlvs_def getOffset_def)
    qed
    then show ?thesis using 2 unfolding b
      by (intro exI [of _ ?x]) (cases s, simp add: resolve_signature_def ndn_Signature_initialize_def)
  next
    case 3
    let ?kl = "csg_keyLocator s" and ?vp = "csg_validityPeriod s" and ?k = "word_of_int (csg_type s) :: u64"
    let ?kt = "tlv ndn_Tlv_KeyLocator (key_locator_bytes ?kl)"
    let ?v = "tlv ?tt (nonneg_integer ?k) @ ?kt @ period_tlv ?vp"
    have k: "csg_type s = 1 \<or> csg_type s = 3 \<or> csg_type s = 4" using 3(1) by (auto simp: key_signature_kind_def signature_kinds)
    then have b: "signature_info_tlv s = tlv ?ti ?v" by (auto simp: signature_info_tlv_def signature_kinds)
    have s1: "small_input (pre @ tlv ?ti ?v @ post)" using s by (simp add: b)
    obtain p where p: "p = pre @ tlv_header ?ti (length ?v)" by simp
    have pv: "pre @ tlv ?ti ?v = p @ ?v" by (simp add: p tlv_def)
    have s2: "small_input ((p @ tlv ?tt (nonneg_integer ?k)) @ ?kt @ (period_tlv ?vp @ post))"
      using s1 pv by (metis append.assoc)
    have s3: "small_input (((p @ tlv ?tt (nonneg_integer ?k)) @ ?kt) @ period_tlv ?vp @ post)" using s2 by simp
    have kk: "?k = 1 \<or> ?k = 3 \<or> ?k = 4" and ku: "uint ?k = csg_type s" using k by auto
    from reads_key_locator [OF s2 3(4)] obtain kv where
      kv: "reads (ndn_decodeTlvKeyLocator ndn_Tlv_KeyLocator m) (p @ tlv ?tt (nonneg_integer ?k)) ?kt (period_tlv ?vp @ post) kv"
      and kr: "resolve_key_locator ((p @ tlv ?tt (nonneg_integer ?k)) @ ?kt @ (period_tlv ?vp @ post)) kv = Some ?kl"
      by blast
    let ?x = "ndn_Signature_initialize\<lparr>csg_type := csg_type s, csg_keyLocator := kv, csg_validityPeriod := ?vp\<rparr> :: signature_slices"
    have "reads (ndn_decodeTlvSignatureInfo m) pre (tlv ?ti ?v) post ?x"
      unfolding ndn_decodeTlvSignatureInfo_def
      apply (rule reads_bind_getOffset)
      apply (rule reads_nested_bind_at [OF s1 p])
      apply (rule reads_signature_type, assumption)
      apply (rule reads_bind_last [where v = ?x])
       apply (subst if_P [OF kk])
       apply (rule reads_bind [OF kv])
       apply (rule reads_period [OF s3 3(5)])
        apply (simp only: append_assoc)
       apply (simp add: ku)
      apply (rule reads_finish_ret)
       apply simp
      apply (rule refl)
      done
    moreover have "resolve_key_locator (pre @ tlv ?ti ?v @ post) kv = Some ?kl" using kr pv by (metis append.assoc)
    ultimately show ?thesis using 3 unfolding b
      by (intro exI [of _ ?x]) (cases s, simp add: resolve_signature_def ndn_Signature_initialize_def)
  qed
qed

end
