(* ===== verification/TlvPacket.thy ===== *)
theory TlvPacket
  imports TlvName TlvFields
begin

text \<open>
  What the encodings of Interest and Data share: a nested element whose writer reports offsets, the
  name at the front of a packet, and optional fields.
\<close>

definition ndn_Tlv_Data :: u32 where "ndn_Tlv_Data = 6"

section \<open>A nested element with results\<close>

text \<open>
  \<^verbatim>\<open>ndn_TlvEncoder_writeNestedTlv\<close> with a context through which the value writer returns results: those
  of the last pass that ran remain.
\<close>

definition writeNestedTlv_ret ::
  "u32 \<Rightarrow> (tlv_encoder \<Rightarrow> ndn_error + 'a \<times> tlv_encoder) \<Rightarrow> bool \<Rightarrow> tlv_encoder \<Rightarrow> ndn_error + 'a \<times> tlv_encoder" where
  "writeNestedTlv_ret type writeValue omitZeroLength e =
     (let saveOffset = enc_offset e; originalEnableOutput = enableOutput e in
      bindE (writeValue (e\<lparr>enableOutput := False\<rparr>)) (\<lambda>(a, e1).
        let valueLength = enc_offset e1 - saveOffset in
        if omitZeroLength \<and> valueLength = 0
        then Inr (a, e1\<lparr>enableOutput := originalEnableOutput\<rparr>)
        else if originalEnableOutput
        then bindE (writeTypeAndLength type valueLength
                      (e1\<lparr>enc_offset := saveOffset, enableOutput := True\<rparr>)) writeValue
        else bindE (writeTypeAndLength type valueLength e1) (\<lambda>e. Inr (a, e))))"

text \<open>
  A writer that also returns a value: with the output disabled the value does not matter, only the
  length does.
\<close>

definition emits_ret :: "(tlv_encoder \<Rightarrow> ndn_error + 'a \<times> tlv_encoder) \<Rightarrow> bytes \<Rightarrow> (nat \<Rightarrow> 'a) \<Rightarrow> bool" where
  "emits_ret w bs val \<longleftrightarrow>
     (\<forall>e. \<not> enableOutput e \<longrightarrow> (\<exists>a. w e = Inr (a, advance (length bs) e))) \<and>
     (\<forall>e. ready e \<longrightarrow> (\<exists>e'. w e = Inr (val (enc_offset e), e') \<and> ready e' \<and> enc_out e' = enc_out e @ bs))"

lemma emits_ret_val: "emits_val w bs val \<Longrightarrow> emits_ret w bs val"
  by (auto simp: emits_val_def emits_ret_def)

lemma emits_ret_seq:
  assumes "emits_ret w1 b1 val" and "emits w2 b2"
  shows "emits_ret (\<lambda>e. bindE (w1 e) (\<lambda>(a, e). bindE (w2 e) (\<lambda>e. Inr (a, e)))) (b1 @ b2) val"
  unfolding emits_ret_def
proof (intro conjI allI impI)
  fix e :: tlv_encoder assume d: "\<not> enableOutput e"
  then obtain a where "w1 e = Inr (a, advance (length b1) e)" using assms(1) by (auto simp: emits_ret_def)
  then show "\<exists>a. bindE (w1 e) (\<lambda>(a, e). bindE (w2 e) (\<lambda>e. Inr (a, e))) = Inr (a, advance (length (b1 @ b2)) e)"
    using emits_disabled [OF assms(2), of "advance (length b1) e"] d by simp
next
  fix e :: tlv_encoder assume "ready e"
  then obtain e1 where e1: "w1 e = Inr (val (enc_offset e), e1)" "ready e1" "enc_out e1 = enc_out e @ b1"
    using assms(1) by (auto simp: emits_ret_def)
  from emits_enabled [OF assms(2) e1(2)] obtain e2 where "w2 e1 = Inr e2" "ready e2" "enc_out e2 = enc_out e1 @ b2"
    by blast
  with e1 show "\<exists>e'. bindE (w1 e) (\<lambda>(a, e). bindE (w2 e) (\<lambda>e. Inr (a, e))) = Inr (val (enc_offset e), e') \<and>
      ready e' \<and> enc_out e' = enc_out e @ b1 @ b2" by simp
qed

lemma emits_ret_nested:
  assumes "emits_ret w bs val" and "ready e"
  shows "\<exists>e'. writeNestedTlv_ret type w False e = Inr (val (enc_offset e + length (tlv_header type (length bs))), e') \<and>
              ready e' \<and> enc_out e' = enc_out e @ tlv type bs"
proof -
  have on: "enableOutput e" using assms by (simp add: ready_def)
  obtain a where first: "w (e\<lparr>enableOutput := False\<rparr>) = Inr (a, advance (length bs) (e\<lparr>enableOutput := False\<rparr>))"
  proof -
    have "\<not> enableOutput (e\<lparr>enableOutput := False\<rparr>)" by simp
    then show ?thesis using assms(1) that unfolding emits_ret_def by blast
  qed
  have restore: "(advance n (e\<lparr>enableOutput := False\<rparr>))\<lparr>enc_offset := enc_offset e, enableOutput := True\<rparr> = e" for n
    using on by (simp add: advance_def)
  from emits_enabled [OF emits_writeTypeAndLength assms(2)] obtain e1 where
    e1: "writeTypeAndLength type (length bs) e = Inr e1" "ready e1" "enc_out e1 = enc_out e @ tlv_header type (length bs)"
    by blast
  have off: "enc_offset e1 = enc_offset e + length (tlv_header type (length bs))"
    using enc_out_length [OF e1(2)] enc_out_length [OF assms(2)] e1(3) by simp
  obtain e2 where e2: "w e1 = Inr (val (enc_offset e1), e2)" "ready e2" "enc_out e2 = enc_out e1 @ bs"
    using assms(1) e1(2) by (auto simp: emits_ret_def)
  show ?thesis
    using first on restore e1 e2 off by (simp add: writeNestedTlv_ret_def Let_def tlv_def)
qed

section \<open>Fields\<close>

lemma emits_flag: "emits (\<lambda>e. if b then writeTypeAndLength t 0 e else Inr e) (flag_tlv t b)"
proof (cases b)
  case True
  have "emits (writeTypeAndLength t 0) (tlv_header t 0)" by (rule emits_writeTypeAndLength)
  with True show ?thesis by (simp add: flag_tlv_def tlv_def)
qed (simp add: flag_tlv_def)

lemma emits_optional_blob:
  "emits (\<lambda>e. if blob_size b > 0 then writeBlobTlv t (blob_bytes b) e else Inr e) (optional_blob_tlv t b)"
proof (cases "blob_size b > 0")
  case True
  have "emits (writeBlobTlv t (blob_bytes b)) (tlv t (blob_bytes b))" by (rule emits_writeBlobTlv)
  with True show ?thesis by (auto simp: optional_blob_tlv_def split: option.splits)
next
  case False
  then show ?thesis by (auto simp: optional_blob_tlv_def split: option.splits)
qed

lemma tlv_optional: "n \<noteq> [] \<Longrightarrow> tlv t n = optional_blob_tlv t (Some n)"
  by (simp add: optional_blob_tlv_def)

lemmas not_next_intros = not_next_flag not_next_optional not_next_optional_double

section \<open>The name of a packet\<close>

definition signed_at :: "bytes \<Rightarrow> component list \<Rightarrow> size_t \<times> size_t" where
  "signed_at pre cs =
     (let b = pre @ tlv_header ndn_Tlv_Name (length (comps_bytes cs))
      in (at_pos b, at_pos (b @ comps_bytes (butlast cs))))"

lemma reads_name':
  assumes "small_input (pre @ (name_tlv cs @ rest) @ post)" and "\<forall>c \<in> set cs. wire_wf c" and "length cs \<le> m"
    and "\<And>sb se. (sb, se) = signed_at pre cs \<Longrightarrow>
         reads (f (slices_of (pre @ tlv_header ndn_Tlv_Name (length (comps_bytes cs))) cs) sb se)
           (pre @ name_tlv cs) rest post w"
  shows "reads (bindD (ndn_decodeTlvName m) (\<lambda>(cs, sb, se). f cs sb se)) pre (name_tlv cs @ rest) post w"
proof (rule reads_bind)
  show "reads (ndn_decodeTlvName m) pre (name_tlv cs) (rest @ post)
      (slices_of (pre @ tlv_header ndn_Tlv_Name (length (comps_bytes cs))) cs, signed_at pre cs)"
    using reads_name [of pre cs "rest @ post" m] assms by (simp add: signed_at_def Let_def)
  show "reads (case (slices_of (pre @ tlv_header ndn_Tlv_Name (length (comps_bytes cs))) cs, signed_at pre cs) of
      (cs, sb, se) \<Rightarrow> f cs sb se) (pre @ name_tlv cs) rest post w"
    using assms(4) by (simp add: signed_at_def Let_def)
qed

end
