(* ===== verification/TlvData.thy ===== *)
theory TlvData
  imports TlvSignatureInfo TlvPacket
begin

text \<open>
  Data packets on the wire (\<^verbatim>\<open>tlv-data.c\<close>): the C structs \<^verbatim>\<open>ndn_MetaInfo\<close> and \<^verbatim>\<open>ndn_Data\<close>, the
  encoder with its signed portion, and the decoder.
\<close>

section \<open>The C structs\<close>

definition ndn_Tlv_MetaInfo :: u32 where "ndn_Tlv_MetaInfo = 20"
definition ndn_Tlv_Content :: u32 where "ndn_Tlv_Content = 21"
definition ndn_Tlv_SignatureValue :: u32 where "ndn_Tlv_SignatureValue = 23"
definition ndn_Tlv_ContentType :: u32 where "ndn_Tlv_ContentType = 24"
definition ndn_Tlv_FreshnessPeriod :: u32 where "ndn_Tlv_FreshnessPeriod = 25"
definition ndn_Tlv_FinalBlockId :: u32 where "ndn_Tlv_FinalBlockId = 26"

lemmas data_types =
  ndn_Tlv_Data_def ndn_Tlv_MetaInfo_def ndn_Tlv_Content_def ndn_Tlv_SignatureValue_def ndn_Tlv_ContentType_def
  ndn_Tlv_FreshnessPeriod_def ndn_Tlv_FinalBlockId_def

definition ndn_ContentType_BLOB :: int where "ndn_ContentType_BLOB = 0"
definition ndn_ContentType_LINK :: int where "ndn_ContentType_LINK = 1"
definition ndn_ContentType_KEY :: int where "ndn_ContentType_KEY = 2"
definition ndn_ContentType_NACK :: int where "ndn_ContentType_NACK = 3"
definition ndn_ContentType_OTHER_CODE :: int where "ndn_ContentType_OTHER_CODE = 0x7fff"

lemmas content_kinds =
  ndn_ContentType_BLOB_def ndn_ContentType_LINK_def ndn_ContentType_KEY_def ndn_ContentType_NACK_def
  ndn_ContentType_OTHER_CODE_def

text \<open>A final block ID is None when its component has a null value.\<close>

record 'c ndn_MetaInfo =
  cmi_timestampMilliseconds :: real
  cmi_type :: int
  cmi_otherTypeCode :: int
  cmi_freshnessPeriod :: real
  cmi_finalBlockId :: "'c option"

definition ndn_MetaInfo_initialize :: "'c ndn_MetaInfo" where
  "ndn_MetaInfo_initialize =
     \<lparr>cmi_timestampMilliseconds = -1, cmi_type = ndn_ContentType_BLOB, cmi_otherTypeCode = -1,
      cmi_freshnessPeriod = -1, cmi_finalBlockId = None\<rparr>"

record ('c, 'b) ndn_Data =
  cd_signature :: "('c, 'b) ndn_Signature"
  cd_name :: "'c list"
  cd_metaInfo :: "'c ndn_MetaInfo"
  cd_content :: 'b

definition ndn_Data_initialize :: "('c, 'b option) ndn_Data" where
  "ndn_Data_initialize =
     \<lparr>cd_signature = ndn_Signature_initialize, cd_name = [], cd_metaInfo = ndn_MetaInfo_initialize, cd_content = None\<rparr>"

section \<open>The encoder\<close>

type_synonym c_data = "(component, blob) ndn_Data"

text \<open>
  The length of the FinalBlockId is computed from the enumerated type of its component, not from the type
  code that is written for an other type.
\<close>

definition encodeMetaInfoValue :: "component ndn_MetaInfo \<Rightarrow> tlv_encoder \<Rightarrow> ndn_error + tlv_encoder" where
  "encodeMetaInfoValue metaInfo e =
     bindE (if \<not> (cmi_type metaInfo < 0 \<or> cmi_type metaInfo = ndn_ContentType_BLOB)
            then if cmi_type metaInfo = ndn_ContentType_LINK \<or> cmi_type metaInfo = ndn_ContentType_KEY \<or>
                    cmi_type metaInfo = ndn_ContentType_NACK
                 then writeNonNegativeIntegerTlv ndn_Tlv_ContentType (word_of_int (cmi_type metaInfo)) e
                 else if cmi_type metaInfo = ndn_ContentType_OTHER_CODE
                 then writeNonNegativeIntegerTlv ndn_Tlv_ContentType (word_of_int (cmi_otherTypeCode metaInfo)) e
                 else Inl NDN_ERROR_unrecognized_ndn_ContentType
            else Inr e) (\<lambda>e.
     bindE (writeOptionalNonNegativeIntegerTlvFromDouble ndn_Tlv_FreshnessPeriod (cmi_freshnessPeriod metaInfo) e) (\<lambda>e.
       case cmi_finalBlockId metaInfo of
         None \<Rightarrow> Inr e
       | Some c \<Rightarrow>
           if blob_size (c_value c) > 0
           then bindE (writeTypeAndLength ndn_Tlv_FinalBlockId
                         (sizeOfBlobTlv (word_of_int (type_int (c_type c))) (blob_bytes (c_value c))) e) (\<lambda>e.
                ndn_encodeTlvNameComponent c e)
           else Inr e))"

definition encodeDataValue :: "c_data \<Rightarrow> tlv_encoder \<Rightarrow> ndn_error + (nat \<times> nat) \<times> tlv_encoder" where
  "encodeDataValue data e =
     (let signedPortionBeginOffset = enc_offset e in
      bindE (ndn_encodeTlvName (cd_name data) e) (\<lambda>(_, e).
      bindE (writeNestedTlv ndn_Tlv_MetaInfo (encodeMetaInfoValue (cd_metaInfo data)) False e) (\<lambda>e.
      bindE (writeBlobTlv ndn_Tlv_Content (blob_bytes (cd_content data)) e) (\<lambda>e.
      bindE (ndn_encodeTlvSignatureInfo (cd_signature data) e) (\<lambda>e.
        let signedPortionEndOffset = enc_offset e in
        bindE (writeBlobTlv ndn_Tlv_SignatureValue (blob_bytes (csg_signature (cd_signature data))) e) (\<lambda>e.
          Inr ((signedPortionBeginOffset, signedPortionEndOffset), e)))))))"

definition ndn_encodeTlvData :: "c_data \<Rightarrow> tlv_encoder \<Rightarrow> ndn_error + (nat \<times> nat) \<times> tlv_encoder" where
  "ndn_encodeTlvData data = writeNestedTlv_ret ndn_Tlv_Data (encodeDataValue data) False"

section \<open>The decoder\<close>

type_synonym data_slices = "(component_slice, slice option) ndn_Data"

text \<open>\<^verbatim>\<open>otherTypeCode\<close> keeps its value when the type is a known one.\<close>

definition decodeMetaInfo :: "component_slice ndn_MetaInfo \<Rightarrow> component_slice ndn_MetaInfo dec" where
  "decodeMetaInfo metaInfo =
     bindD (readNestedTlvsStart ndn_Tlv_MetaInfo) (\<lambda>endOffset.
     bindD (readOptionalNonNegativeIntegerTlv ndn_Tlv_ContentType endOffset) (\<lambda>type.
     bindD (readOptionalNonNegativeIntegerTlvAsDouble ndn_Tlv_FreshnessPeriod endOffset) (\<lambda>freshnessPeriod.
     bindD (peekType ndn_Tlv_FinalBlockId endOffset) (\<lambda>gotExpectedType.
     bindD (if gotExpectedType
            then bindD (readNestedTlvsStart ndn_Tlv_FinalBlockId) (\<lambda>finalBlockIdEndOffset.
                 bindD ndn_decodeTlvNameComponent (\<lambda>c.
                 bindD (finishNestedTlvs finalBlockIdEndOffset) (\<lambda>_. retD (Some c))))
            else retD None) (\<lambda>finalBlockId.
     bindD (finishNestedTlvs endOffset) (\<lambda>_.
       retD (if type < 0 \<or> type = ndn_ContentType_BLOB
             then metaInfo\<lparr>cmi_timestampMilliseconds := -1, cmi_type := ndn_ContentType_BLOB,
                    cmi_freshnessPeriod := freshnessPeriod, cmi_finalBlockId := finalBlockId\<rparr>
             else if type = ndn_ContentType_LINK \<or> type = ndn_ContentType_KEY \<or> type = ndn_ContentType_NACK
             then metaInfo\<lparr>cmi_timestampMilliseconds := -1, cmi_type := type,
                    cmi_freshnessPeriod := freshnessPeriod, cmi_finalBlockId := finalBlockId\<rparr>
             else metaInfo\<lparr>cmi_timestampMilliseconds := -1, cmi_type := ndn_ContentType_OTHER_CODE,
                    cmi_otherTypeCode := type, cmi_freshnessPeriod := freshnessPeriod,
                    cmi_finalBlockId := finalBlockId\<rparr>)))))))"

definition ndn_decodeTlvData :: "nat \<times> nat \<Rightarrow> data_slices \<Rightarrow> (data_slices \<times> size_t \<times> size_t) dec" where
  "ndn_decodeTlvData maxes data =
     bindD (readNestedTlvsStart ndn_Tlv_Data) (\<lambda>endOffset.
     bindD getOffset (\<lambda>signedPortionBeginOffset.
     bindD (ndn_decodeTlvName (fst maxes)) (\<lambda>(name, _, _).
     bindD (peekType ndn_Tlv_MetaInfo endOffset) (\<lambda>gotExpectedType.
     bindD (if gotExpectedType then decodeMetaInfo (cd_metaInfo data) else retD ndn_MetaInfo_initialize) (\<lambda>metaInfo.
     bindD (readOptionalBlobTlv ndn_Tlv_Content endOffset) (\<lambda>content.
     bindD (ndn_decodeTlvSignatureInfo (snd maxes)) (\<lambda>signature.
     bindD getOffset (\<lambda>signedPortionEndOffset.
     bindD (readBlobTlv ndn_Tlv_SignatureValue) (\<lambda>value.
     bindD (finishNestedTlvs endOffset) (\<lambda>_.
       retD (\<lparr>cd_signature = signature\<lparr>csg_signature := Some value\<rparr>, cd_name = name, cd_metaInfo = metaInfo,
              cd_content = content\<rparr>, signedPortionBeginOffset, signedPortionEndOffset)))))))))))"

lemma keeps_bounds_meta_info [bounds]: "keeps_bounds (decodeMetaInfo metaInfo)"
  unfolding decodeMetaInfo_def by (intro bounds)

lemma keeps_bounds_data [bounds]: "keeps_bounds (ndn_decodeTlvData maxes data)"
  unfolding ndn_decodeTlvData_def by (intro bounds)

section \<open>What the encoder writes\<close>

definition content_code :: "'c ndn_MetaInfo \<Rightarrow> int" where
  "content_code mi = (if cmi_type mi = ndn_ContentType_BLOB then -1
     else if cmi_type mi = ndn_ContentType_OTHER_CODE then cmi_otherTypeCode mi else cmi_type mi)"

definition final_block_tlv :: "component option \<Rightarrow> bytes" where
  "final_block_tlv fb = (case fb of None \<Rightarrow> [] | Some c \<Rightarrow> tlv ndn_Tlv_FinalBlockId (component_tlv c))"

definition meta_bytes :: "component ndn_MetaInfo \<Rightarrow> bytes" where
  "meta_bytes mi = optional_nonneg_tlv ndn_Tlv_ContentType (content_code mi) @
     optional_double_tlv ndn_Tlv_FreshnessPeriod (cmi_freshnessPeriod mi) @ final_block_tlv (cmi_finalBlockId mi)"

definition meta_wire_wf :: "component ndn_MetaInfo \<Rightarrow> bool" where
  "meta_wire_wf mi \<longleftrightarrow>
     (if cmi_type mi = ndn_ContentType_OTHER_CODE
      then 0 \<le> cmi_otherTypeCode mi \<and> cmi_otherTypeCode mi < 2 ^ 31 \<and> cmi_otherTypeCode mi \<notin> {0, 1, 2, 3}
      else cmi_otherTypeCode mi = -1 \<and> cmi_type mi \<in> {0, 1, 2, 3}) \<and>
     cmi_timestampMilliseconds mi = -1 \<and> whole_ms (cmi_freshnessPeriod mi) \<and>
     (\<forall>c. cmi_finalBlockId mi = Some c \<longrightarrow>
        wire_wf c \<and> blob_size (c_value c) > 0 \<and> c_type c \<noteq> ndn_NameComponentType_OTHER_CODE)"

lemma emits_final_block:
  assumes "\<forall>c. fb = Some c \<longrightarrow> wire_wf c \<and> blob_size (c_value c) > 0 \<and> c_type c \<noteq> ndn_NameComponentType_OTHER_CODE"
  shows "emits (\<lambda>e. case fb of None \<Rightarrow> Inr e | Some c \<Rightarrow>
       if blob_size (c_value c) > 0
       then bindE (writeTypeAndLength ndn_Tlv_FinalBlockId
                     (sizeOfBlobTlv (word_of_int (type_int (c_type c))) (blob_bytes (c_value c))) e) (\<lambda>e.
            ndn_encodeTlvNameComponent c e)
       else Inr e) (final_block_tlv fb)"
proof (cases fb)
  case (Some c)
  then have c: "wire_wf c" "blob_size (c_value c) > 0" "c_type c \<noteq> ndn_NameComponentType_OTHER_CODE"
    using assms by auto
  have "sizeOfBlobTlv (word_of_int (type_int (c_type c))) (blob_bytes (c_value c)) = length (component_tlv c)"
    using c(3) by (simp add: component_tlv_def length_tlv component_tlv_type_def)
  moreover have "emits (\<lambda>e. bindE (writeTypeAndLength ndn_Tlv_FinalBlockId (length (component_tlv c)) e)
      (ndn_encodeTlvNameComponent c)) (tlv_header ndn_Tlv_FinalBlockId (length (component_tlv c)) @ component_tlv c)"
    by (intro emits_seq emits_writeTypeAndLength emits_component wire_wf_encodable c)
  ultimately show ?thesis using Some c(2) by (simp add: final_block_tlv_def tlv_def)
qed (simp add: final_block_tlv_def)

lemma emits_meta:
  assumes wf: "meta_wire_wf mi"
  shows "emits (encodeMetaInfoValue mi) (meta_bytes mi)"
proof -
  let ?w = "\<lambda>e. if \<not> (cmi_type mi < 0 \<or> cmi_type mi = ndn_ContentType_BLOB)
            then if cmi_type mi = ndn_ContentType_LINK \<or> cmi_type mi = ndn_ContentType_KEY \<or>
                    cmi_type mi = ndn_ContentType_NACK
                 then writeNonNegativeIntegerTlv ndn_Tlv_ContentType (word_of_int (cmi_type mi)) e
                 else if cmi_type mi = ndn_ContentType_OTHER_CODE
                 then writeNonNegativeIntegerTlv ndn_Tlv_ContentType (word_of_int (cmi_otherTypeCode mi)) e
                 else Inl NDN_ERROR_unrecognized_ndn_ContentType
            else Inr e"
  have "?w = writeOptionalNonNegativeIntegerTlv ndn_Tlv_ContentType (content_code mi)"
    using wf by (auto simp: meta_wire_wf_def content_code_def content_kinds writeOptionalNonNegativeIntegerTlv_def
        split: if_splits)
  then have "emits ?w (optional_nonneg_tlv ndn_Tlv_ContentType (content_code mi))"
    using emits_writeOptionalNonNegativeIntegerTlv by simp
  moreover have "\<forall>c. cmi_finalBlockId mi = Some c \<longrightarrow>
      wire_wf c \<and> blob_size (c_value c) > 0 \<and> c_type c \<noteq> ndn_NameComponentType_OTHER_CODE"
    using wf by (simp add: meta_wire_wf_def)
  ultimately show ?thesis
    unfolding encodeMetaInfoValue_def [abs_def] meta_bytes_def
    by (intro emits_seq emits_optional_double emits_final_block)
qed

text \<open>A writer that reports where its first part began and ended.\<close>

lemma emits_ret_between:
  assumes "emits w1 b1" and "emits w2 b2"
  shows "emits_ret (\<lambda>e. bindE (w1 e) (\<lambda>e1. bindE (w2 e1) (\<lambda>e2. Inr ((enc_offset e, enc_offset e1), e2)))) (b1 @ b2)
           (\<lambda>off. (off, off + length b1))"
  unfolding emits_ret_def
proof (intro conjI allI impI)
  fix e :: tlv_encoder assume "\<not> enableOutput e"
  then show "\<exists>a. bindE (w1 e) (\<lambda>e1. bindE (w2 e1) (\<lambda>e2. Inr ((enc_offset e, enc_offset e1), e2))) =
      Inr (a, advance (length (b1 @ b2)) e)"
    using emits_disabled [OF assms(1), of e] emits_disabled [OF assms(2), of "advance (length b1) e"] by simp
next
  fix e :: tlv_encoder assume e: "ready e"
  obtain e1 where e1: "w1 e = Inr e1" "ready e1" "enc_out e1 = enc_out e @ b1"
    using emits_enabled [OF assms(1) e] by blast
  obtain e2 where e2: "w2 e1 = Inr e2" "ready e2" "enc_out e2 = enc_out e1 @ b2"
    using emits_enabled [OF assms(2) e1(2)] by blast
  have "enc_offset e1 = enc_offset e + length b1"
    using enc_out_length [OF e] enc_out_length [OF e1(2)] e1(3) by simp
  with e1 e2 show "\<exists>e'. bindE (w1 e) (\<lambda>e1. bindE (w2 e1) (\<lambda>e2. Inr ((enc_offset e, enc_offset e1), e2))) =
      Inr ((enc_offset e, enc_offset e + length b1), e') \<and> ready e' \<and> enc_out e' = enc_out e @ b1 @ b2" by simp
qed

definition data_wire_wf :: "nat \<times> nat \<Rightarrow> c_data \<Rightarrow> bool" where
  "data_wire_wf maxes d \<longleftrightarrow>
     (\<forall>c \<in> set (cd_name d). wire_wf c) \<and> length (cd_name d) \<le> fst maxes \<and> meta_wire_wf (cd_metaInfo d) \<and>
     signature_wire_wf (snd maxes) (cd_signature d) \<and> cd_content d \<noteq> None \<and> csg_signature (cd_signature d) \<noteq> None"

definition data_signed_bytes :: "c_data \<Rightarrow> bytes" where
  "data_signed_bytes d = name_tlv (cd_name d) @ tlv ndn_Tlv_MetaInfo (meta_bytes (cd_metaInfo d)) @
     tlv ndn_Tlv_Content (blob_bytes (cd_content d)) @ signature_info_tlv (cd_signature d)"

definition data_value :: "c_data \<Rightarrow> bytes" where
  "data_value d = data_signed_bytes d @ tlv ndn_Tlv_SignatureValue (blob_bytes (csg_signature (cd_signature d)))"

lemma emits_data_value:
  assumes wf: "data_wire_wf maxes d" and small: "small_input (blob_bytes (csg_signatureInfoEncoding (cd_signature d)))"
  shows "emits_ret (encodeDataValue d) (data_value d) (\<lambda>off. (off, off + length (data_signed_bytes d)))"
proof -
  let ?w1 = "\<lambda>e. bindE (bindE (ndn_encodeTlvName (cd_name d) e) (\<lambda>(_, e). Inr e)) (\<lambda>e.
      bindE (writeNestedTlv ndn_Tlv_MetaInfo (encodeMetaInfoValue (cd_metaInfo d)) False e) (\<lambda>e.
      bindE (writeBlobTlv ndn_Tlv_Content (blob_bytes (cd_content d)) e) (ndn_encodeTlvSignatureInfo (cd_signature d))))"
  have "emits (writeNestedTlv ndn_Tlv_MetaInfo (encodeMetaInfoValue (cd_metaInfo d)) False)
      (tlv ndn_Tlv_MetaInfo (meta_bytes (cd_metaInfo d)))"
    using emits_writeNestedTlv [OF emits_meta, of "cd_metaInfo d" ndn_Tlv_MetaInfo False] wf
    by (simp add: data_wire_wf_def nested_tlv_def)
  moreover have "emits (\<lambda>e. bindE (ndn_encodeTlvName (cd_name d) e) (\<lambda>(_, e). Inr e)) (name_tlv (cd_name d))"
    using wf by (intro emits_val_drop [OF emits_val_name]) (auto simp: data_wire_wf_def wire_wf_encodable)
  moreover have "emits (ndn_encodeTlvSignatureInfo (cd_signature d)) (signature_info_tlv (cd_signature d))"
    using wf small by (intro emits_signature_info) (auto simp: data_wire_wf_def)
  ultimately have w1: "emits ?w1 (data_signed_bytes d)"
    unfolding data_signed_bytes_def by (intro emits_seq emits_writeBlobTlv)
  have "encodeDataValue d = (\<lambda>e. bindE (?w1 e) (\<lambda>e1.
      bindE (writeBlobTlv ndn_Tlv_SignatureValue (blob_bytes (csg_signature (cd_signature d))) e1) (\<lambda>e2.
        Inr ((enc_offset e, enc_offset e1), e2))))"
  proof
    fix e
    show "encodeDataValue d e = bindE (?w1 e) (\<lambda>e1.
      bindE (writeBlobTlv ndn_Tlv_SignatureValue (blob_bytes (csg_signature (cd_signature d))) e1) (\<lambda>e2.
        Inr ((enc_offset e, enc_offset e1), e2)))"
      by (cases "ndn_encodeTlvName (cd_name d) e") (auto simp: encodeDataValue_def Let_def bindE_assoc)
  qed
  then show ?thesis using emits_ret_between [OF w1 emits_writeBlobTlv] by (simp add: data_value_def)
qed

section \<open>The decoder reads it back\<close>

lemma not_next_final_block: "t \<noteq> ndn_Tlv_FinalBlockId \<Longrightarrow> not_next t (final_block_tlv fb)"
  using not_next_tlv [of ndn_Tlv_FinalBlockId t _ "[]"] by (auto simp: final_block_tlv_def split: option.split)

lemma reads_final_block:
  assumes s: "small_input (p @ final_block_tlv fb @ post)" and E: "E = at_pos (p @ final_block_tlv fb)"
    and wf: "\<forall>c. fb = Some c \<longrightarrow> wire_wf c"
    and k: "reads (f (map_option (slice_of (p @ tlv_header ndn_Tlv_FinalBlockId (length (component_tlv (the fb))))) fb))
              (p @ final_block_tlv fb) [] post w"
  shows "reads (bindD (peekType ndn_Tlv_FinalBlockId E) (\<lambda>gotExpectedType.
     bindD (if gotExpectedType
            then bindD (readNestedTlvsStart ndn_Tlv_FinalBlockId) (\<lambda>finalBlockIdEndOffset.
                 bindD ndn_decodeTlvNameComponent (\<lambda>c.
                 bindD (finishNestedTlvs finalBlockIdEndOffset) (\<lambda>_. retD (Some c))))
            else retD None) f)) p (final_block_tlv fb) post w"
proof (cases fb)
  case None
  have "reads (peekType ndn_Tlv_FinalBlockId E) p [] (final_block_tlv fb @ post) False"
    using reads_peekType_end [of ndn_Tlv_FinalBlockId p post] E None by (simp add: final_block_tlv_def)
  then show ?thesis
    by (rule reads_bind_peek) (use k None in \<open>simp add: final_block_tlv_def reads_def bindD_def retD_def\<close>)
next
  case (Some c)
  let ?t = "ndn_Tlv_FinalBlockId"
  have b: "final_block_tlv fb = tlv ?t (component_tlv c)" using Some by (simp add: final_block_tlv_def)
  have c: "wire_wf c" using wf Some by simp
  have s1: "small_input (p @ tlv ?t (component_tlv c) @ post)" using s by (simp add: b)
  have peek: "reads (peekType ?t E) p [] (tlv ?t (component_tlv c) @ post) True"
    using reads_peekType_present [of p ?t "component_tlv c" "[]" post] s1 E by (simp add: b)
  have inner: "reads (bindD (readNestedTlvsStart ?t) (\<lambda>finalBlockIdEndOffset.
      bindD ndn_decodeTlvNameComponent (\<lambda>c. bindD (finishNestedTlvs finalBlockIdEndOffset) (\<lambda>_. retD (Some c)))))
      p (tlv ?t (component_tlv c)) post (Some (slice_of (p @ tlv_header ?t (length (component_tlv c))) c))"
  proof (rule reads_nested_bind_at [OF s1 refl], goal_cases)
    case 1
    show ?case
      by (rule reads_bind_last [OF reads_component [OF 1 c]]) (rule reads_finish_ret, simp_all)
  qed
  show ?thesis
    unfolding b
    by (rule reads_bind_peek [OF peek], unfold if_True, rule reads_bind_last [OF inner]) (use k Some b in simp)
qed

definition meta_slices :: "bytes \<Rightarrow> component ndn_MetaInfo \<Rightarrow> component_slice ndn_MetaInfo" where
  "meta_slices p mi =
     (let q = (p @ optional_nonneg_tlv ndn_Tlv_ContentType (content_code mi)) @
              optional_double_tlv ndn_Tlv_FreshnessPeriod (cmi_freshnessPeriod mi)
      in \<lparr>cmi_timestampMilliseconds = -1, cmi_type = cmi_type mi, cmi_otherTypeCode = cmi_otherTypeCode mi,
          cmi_freshnessPeriod = cmi_freshnessPeriod mi,
          cmi_finalBlockId = map_option (slice_of (q @ tlv_header ndn_Tlv_FinalBlockId
            (length (component_tlv (the (cmi_finalBlockId mi)))))) (cmi_finalBlockId mi)\<rparr>)"

lemma reads_meta:
  assumes s: "small_input (pre @ tlv ndn_Tlv_MetaInfo (meta_bytes mi) @ post)" and wf: "meta_wire_wf mi"
    and m0: "cmi_otherTypeCode mi0 = -1"
  shows "reads (decodeMetaInfo mi0) pre (tlv ndn_Tlv_MetaInfo (meta_bytes mi)) post
           (meta_slices (pre @ tlv_header ndn_Tlv_MetaInfo (length (meta_bytes mi))) mi)"
  unfolding decodeMetaInfo_def
proof (rule reads_nested_bind [OF s, where w = "\<lambda>p. meta_slices p mi"], goal_cases)
  case (1 p E)
  have code: "-1 \<le> content_code mi" "content_code mi < 2 ^ 31"
    using wf by (auto simp: meta_wire_wf_def content_code_def content_kinds split: if_splits)
  have sp: "small_input (p @ (optional_nonneg_tlv ndn_Tlv_ContentType (content_code mi) @
     optional_double_tlv ndn_Tlv_FreshnessPeriod (cmi_freshnessPeriod mi) @ final_block_tlv (cmi_finalBlockId mi)) @ post)"
    using 1(1) by (simp only: meta_bytes_def)
  have Ep: "E = at_pos (p @ optional_nonneg_tlv ndn_Tlv_ContentType (content_code mi) @
     optional_double_tlv ndn_Tlv_FreshnessPeriod (cmi_freshnessPeriod mi) @ final_block_tlv (cmi_finalBlockId mi))"
    using 1(2) by (simp only: meta_bytes_def)
  have fb: "\<forall>c. cmi_finalBlockId mi = Some c \<longrightarrow> wire_wf c" and ms: "whole_ms (cmi_freshnessPeriod mi)"
    using wf by (auto simp: meta_wire_wf_def)
  show ?case
    unfolding meta_bytes_def
    apply (rule reads_field_nonneg [OF sp Ep code])
     apply (intro not_next_intros not_next_final_block; simp add: data_types)
    apply (rule reads_field_double, assumption, assumption, rule ms)
     apply (intro not_next_final_block; simp add: data_types)
    apply (rule reads_final_block, assumption, assumption, rule fb)
    apply (rule reads_finish_ret)
     apply simp
    using wf m0 apply (cases mi0)
    apply (auto simp: meta_slices_def Let_def content_code_def meta_wire_wf_def content_kinds)
    done
qed

text \<open>A blob that is present, empty or not.\<close>

lemma reads_field_present:
  assumes s: "small_input (pre @ (tlv t v @ rest) @ post)" and E: "E = at_pos (pre @ tlv t v @ rest)"
    and k: "small_input ((pre @ tlv t v) @ rest @ post) \<Longrightarrow> E = at_pos ((pre @ tlv t v) @ rest) \<Longrightarrow>
            reads (f (Some \<lparr>sl_offset = at_pos (pre @ tlv_header t (length v)), sl_length = of_nat (length v)\<rparr>))
              (pre @ tlv t v) rest post w"
  shows "reads (bindD (readOptionalBlobTlv t E) f) pre (tlv t v @ rest) post w"
proof (rule reads_bind)
  let ?s = "\<lparr>sl_offset = at_pos (pre @ tlv_header t (length v)), sl_length = of_nat (length v)\<rparr> :: slice"
  have "reads (peekType t E) pre [] (tlv t v @ rest @ post) True"
    using s E reads_peekType_present [of pre t v rest post] by simp
  moreover have "reads (bindD (readBlobTlv t) (\<lambda>s. retD (Some s))) pre (tlv t v) (rest @ post) (Some ?s)"
    using s by (intro reads_bind_ret reads_readBlobTlv) simp
  ultimately show "reads (readOptionalBlobTlv t E) pre (tlv t v) (rest @ post) (Some ?s)"
    unfolding readOptionalBlobTlv_def by (auto intro: reads_bind_peek)
  show "reads (f (Some ?s)) (pre @ tlv t v) rest post w" using s E by (intro k) simp_all
qed

text \<open>Copying a decoded Data.\<close>

definition resolve_meta :: "bytes \<Rightarrow> component_slice ndn_MetaInfo \<Rightarrow> component ndn_MetaInfo option" where
  "resolve_meta input mi =
     Option.bind (case cmi_finalBlockId mi of None \<Rightarrow> Some None
                  | Some c \<Rightarrow> map_option Some (lite_component input c)) (\<lambda>fb.
       Some \<lparr>cmi_timestampMilliseconds = cmi_timestampMilliseconds mi, cmi_type = cmi_type mi,
             cmi_otherTypeCode = cmi_otherTypeCode mi, cmi_freshnessPeriod = cmi_freshnessPeriod mi,
             cmi_finalBlockId = fb\<rparr>)"

definition resolve_data :: "bytes \<Rightarrow> data_slices \<Rightarrow> c_data option" where
  "resolve_data input d =
     Option.bind (resolve_signature input (cd_signature d)) (\<lambda>signature.
     Option.bind (lite_components input (cd_name d)) (\<lambda>name.
     Option.bind (resolve_meta input (cd_metaInfo d)) (\<lambda>metaInfo.
     Option.bind (resolve_blob input (cd_content d)) (\<lambda>content.
       Some \<lparr>cd_signature = signature, cd_name = name, cd_metaInfo = metaInfo, cd_content = content\<rparr>))))"

lemma lite_component_slice:
  assumes "small_input (pre @ component_tlv c @ post)" and "wire_wf c"
  shows "lite_component (pre @ component_tlv c @ post) (slice_of pre c) = Some c"
  using lite_components_slices [of pre "[c]" post] assms by (simp split: option.splits)

lemma resolve_meta_slices:
  assumes s: "small_input (p @ meta_bytes mi @ post)" and wf: "meta_wire_wf mi"
  shows "resolve_meta (p @ meta_bytes mi @ post) (meta_slices p mi) = Some mi"
proof (cases "cmi_finalBlockId mi")
  case None
  with wf show ?thesis by (cases mi) (simp add: resolve_meta_def meta_slices_def Let_def meta_wire_wf_def)
next
  case (Some c)
  let ?q = "(p @ optional_nonneg_tlv ndn_Tlv_ContentType (content_code mi)) @
              optional_double_tlv ndn_Tlv_FreshnessPeriod (cmi_freshnessPeriod mi)"
  let ?b = "?q @ tlv_header ndn_Tlv_FinalBlockId (length (component_tlv c))"
  have c: "wire_wf c" using wf Some by (simp add: meta_wire_wf_def)
  have i: "p @ meta_bytes mi @ post = ?b @ component_tlv c @ post"
    by (simp add: meta_bytes_def final_block_tlv_def Some tlv_def)
  have "lite_component (p @ meta_bytes mi @ post) (slice_of ?b c) = Some c"
    unfolding i by (rule lite_component_slice [OF _ c]) (use s i in simp)
  with Some wf show ?thesis by (cases mi) (simp add: resolve_meta_def meta_slices_def Let_def meta_wire_wf_def)
qed

lemma resolve_signature_value:
  assumes "resolve_signature input sv = Some s" and "resolve_blob input x = Some b"
  shows "resolve_signature input (sv\<lparr>csg_signature := x\<rparr>) = Some (s\<lparr>csg_signature := b\<rparr>)"
  using assms by (auto simp: resolve_signature_def bind_eq_Some_conv)

lemma reads_data:
  assumes s: "small_input (pre @ tlv ndn_Tlv_Data (data_value d) @ post)" and wf: "data_wire_wf maxes d"
    and d0: "cmi_otherTypeCode (cd_metaInfo d0) = -1"
  shows "\<exists>v. reads (ndn_decodeTlvData maxes d0) pre (tlv ndn_Tlv_Data (data_value d)) post
      (v, at_pos (pre @ tlv_header ndn_Tlv_Data (length (data_value d))),
       at_pos (pre @ tlv_header ndn_Tlv_Data (length (data_value d)) @ data_signed_bytes d)) \<and>
     resolve_data (pre @ tlv ndn_Tlv_Data (data_value d) @ post) v = Some d"
proof -
  let ?N = "name_tlv (cd_name d)" and ?M = "tlv ndn_Tlv_MetaInfo (meta_bytes (cd_metaInfo d))"
  let ?C = "tlv ndn_Tlv_Content (blob_bytes (cd_content d))" and ?S = "signature_info_tlv (cd_signature d)"
  let ?sig = "blob_bytes (csg_signature (cd_signature d))"
  let ?V = "tlv ndn_Tlv_SignatureValue ?sig"
  obtain p where p: "p = pre @ tlv_header ndn_Tlv_Data (length (data_value d))" by simp
  have dv: "data_value d = ?N @ ?M @ ?C @ ?S @ ?V" by (simp add: data_value_def data_signed_bytes_def)
  have input: "pre @ tlv ndn_Tlv_Data (data_value d) @ post = p @ ?N @ ?M @ ?C @ ?S @ ?V @ post"
    by (simp add: tlv_def [of ndn_Tlv_Data] p dv)
  have sp: "small_input (p @ ?N @ ?M @ ?C @ ?S @ ?V @ post)" using s unfolding input .
  have s1: "small_input (p @ (?N @ ?M @ ?C @ ?S @ ?V) @ post)" using sp by simp
  have s4: "small_input ((((p @ ?N) @ ?M) @ ?C) @ ?S @ (?V @ post))" using sp by simp
  have wfs: "\<forall>c \<in> set (cd_name d). wire_wf c" "length (cd_name d) \<le> fst maxes" "meta_wire_wf (cd_metaInfo d)"
    "signature_wire_wf (snd maxes) (cd_signature d)" "cd_content d \<noteq> None" "csg_signature (cd_signature d) \<noteq> None"
    using wf by (simp_all add: data_wire_wf_def)
  obtain sv where sv: "reads (ndn_decodeTlvSignatureInfo (snd maxes)) (((p @ ?N) @ ?M) @ ?C) ?S (?V @ post) sv"
    "resolve_signature ((((p @ ?N) @ ?M) @ ?C) @ ?S @ (?V @ post)) sv = Some ((cd_signature d)\<lparr>csg_signature := None\<rparr>)"
    using reads_signature_info [OF s4 wfs(4)] by blast
  let ?b = "p @ tlv_header ndn_Tlv_Name (length (comps_bytes (cd_name d)))"
  let ?cs = "slices_of ?b (cd_name d)"
  let ?ms = "meta_slices ((p @ ?N) @ tlv_header ndn_Tlv_MetaInfo (length (meta_bytes (cd_metaInfo d)))) (cd_metaInfo d)"
  let ?cl = "\<lparr>sl_offset = at_pos (((p @ ?N) @ ?M) @ tlv_header ndn_Tlv_Content (length (blob_bytes (cd_content d)))),
      sl_length = of_nat (length (blob_bytes (cd_content d)))\<rparr> :: slice"
  let ?vl = "\<lparr>sl_offset = at_pos (((((p @ ?N) @ ?M) @ ?C) @ ?S) @ tlv_header ndn_Tlv_SignatureValue (length ?sig)),
      sl_length = of_nat (length ?sig)\<rparr> :: slice"
  let ?v = "\<lparr>cd_signature = sv\<lparr>csg_signature := Some ?vl\<rparr>, cd_name = ?cs, cd_metaInfo = ?ms, cd_content = Some ?cl\<rparr>"
  obtain E where E: "E = at_pos (p @ data_value d)" by simp
  have E3: "E = at_pos (((p @ ?N) @ ?M) @ ?C @ ?S @ ?V)" by (simp add: E dv)
  have s2: "small_input ((p @ ?N) @ ?M @ (?C @ ?S @ ?V) @ post)"
    and s3: "small_input (((p @ ?N) @ ?M) @ (?C @ ?S @ ?V) @ post)" using sp by simp_all
  have peek: "reads (peekType ndn_Tlv_MetaInfo E) (p @ ?N) [] ((?M @ ?C @ ?S @ ?V) @ post) True"
    using reads_peekType_present [of "p @ ?N" ndn_Tlv_MetaInfo "meta_bytes (cd_metaInfo d)" "?C @ ?S @ ?V" post] s2 E3
    by simp
  have meta: "reads (decodeMetaInfo (cd_metaInfo d0)) (p @ ?N) ?M ((?C @ ?S @ ?V) @ post) ?ms"
    by (rule reads_meta [OF s2 wfs(3) d0])
  have val: "reads (readBlobTlv ndn_Tlv_SignatureValue) ((((p @ ?N) @ ?M) @ ?C) @ ?S) ?V post ?vl"
    using sp by (intro reads_readBlobTlv) simp
  have "reads (ndn_decodeTlvData maxes d0) pre (tlv ndn_Tlv_Data (data_value d)) post
      (?v, at_pos p, at_pos (p @ data_signed_bytes d))"
    unfolding ndn_decodeTlvData_def
  proof (rule reads_nested_bind_at [OF s p], goal_cases)
    case 1
    show ?case
      unfolding E [symmetric]
      unfolding dv
      apply (rule reads_bind_getOffset)
      apply (rule reads_name' [OF s1 wfs(1,2)])
      apply (rule reads_bind_peek [OF peek])
      apply (unfold if_True)
      apply (rule reads_bind [OF meta])
      apply (rule reads_field_present [OF s3 E3])
      apply (rule reads_bind [OF sv(1)])
      apply (rule reads_bind_getOffset)
      apply (rule reads_bind_last [OF val])
      apply (rule reads_finish_ret)
       apply (simp add: E dv)
      apply (simp add: data_signed_bytes_def)
      done
  qed
  moreover have "resolve_data (pre @ tlv ndn_Tlv_Data (data_value d) @ post) ?v = Some d"
  proof -
    have "resolve_blob (((((p @ ?N) @ ?M) @ ?C) @ ?S) @ ?V @ post) (Some ?vl) = Some (Some ?sig)"
      by (rule resolve_blob_tlv) (use sp in simp)
    then have "resolve_blob (p @ ?N @ ?M @ ?C @ ?S @ ?V @ post) (Some ?vl) = Some (csg_signature (cd_signature d))"
      using wfs(6) by auto
    from resolve_signature_value [OF _ this] sv(2)
    have signature: "resolve_signature (p @ ?N @ ?M @ ?C @ ?S @ ?V @ post) (sv\<lparr>csg_signature := Some ?vl\<rparr>) = Some (cd_signature d)"
      by simp
    have "resolve_blob (((p @ ?N) @ ?M) @ ?C @ ?S @ ?V @ post) (Some ?cl) = Some (Some (blob_bytes (cd_content d)))"
      by (rule resolve_blob_tlv) (use sp in simp)
    then have content: "resolve_blob (p @ ?N @ ?M @ ?C @ ?S @ ?V @ post) (Some ?cl) = Some (cd_content d)"
      using wfs(5) by auto
    have name: "lite_components (p @ ?N @ ?M @ ?C @ ?S @ ?V @ post) ?cs = Some (cd_name d)"
      using lite_components_slices [of ?b "cd_name d" "?M @ ?C @ ?S @ ?V @ post"] sp wfs(1)
      by (simp add: name_tlv_def tlv_def comps_bytes_def)
    have meta: "resolve_meta (p @ ?N @ ?M @ ?C @ ?S @ ?V @ post) ?ms = Some (cd_metaInfo d)"
      using resolve_meta_slices [OF _ wfs(3), of "(p @ ?N) @ tlv_header ndn_Tlv_MetaInfo (length (meta_bytes (cd_metaInfo d)))"
          "?C @ ?S @ ?V @ post"] sp
      by (simp add: tlv_def [of ndn_Tlv_MetaInfo])
    show ?thesis
      unfolding input resolve_data_def ndn_Data.simps signature name meta content Option.bind.simps by (cases d) simp
  qed
  ultimately show ?thesis unfolding p append_assoc by blast
qed

section \<open>The entry points\<close>

text \<open>
  \<^verbatim>\<open>ndn_Tlv0_2WireFormat_encodeData\<close> and \<^verbatim>\<open>ndn_Tlv0_2WireFormat_decodeData\<close>, which all wire formats share, with an
  output buffer that starts with the given length.
\<close>

definition ndn_Tlv0_2WireFormat_encodeData :: "nat \<Rightarrow> c_data \<Rightarrow> ndn_error + bytes \<times> nat \<times> nat" where
  "ndn_Tlv0_2WireFormat_encodeData initialLength data =
     bindE (ndn_encodeTlvData data (TlvEncoder_new initialLength)) (\<lambda>(signed, e). Inr (TlvEncoder_finish e, signed))"

definition ndn_Tlv0_2WireFormat_decodeData ::
  "nat \<times> nat \<Rightarrow> data_slices \<Rightarrow> bytes \<Rightarrow> (ndn_error + (data_slices \<times> size_t \<times> size_t) \<times> size_t) option" where
  "ndn_Tlv0_2WireFormat_decodeData maxes data input = ndn_decodeTlvData maxes data input 0"

lemma data_encoding_small:
  assumes wf: "data_wire_wf maxes d" and l: "length (tlv ndn_Tlv_Data (data_value d)) < 2 ^ 63"
  shows "small_input (blob_bytes (csg_signatureInfoEncoding (cd_signature d)))"
proof (cases "csg_type (cd_signature d) = ndn_SignatureType_Generic")
  case True
  then have "signature_info_tlv (cd_signature d) = blob_bytes (csg_signatureInfoEncoding (cd_signature d))"
    by (simp add: signature_info_tlv_def)
  with l show ?thesis by (simp add: small_input_def tlv_def [of ndn_Tlv_Data] data_value_def data_signed_bytes_def)
next
  case False
  with wf show ?thesis by (simp add: data_wire_wf_def signature_wire_wf_def small_input_def)
qed

lemma encodeData:
  assumes wf: "data_wire_wf maxes d" and l: "length (tlv ndn_Tlv_Data (data_value d)) < 2 ^ 63"
  defines "h \<equiv> length (tlv_header ndn_Tlv_Data (length (data_value d)))"
  shows "ndn_Tlv0_2WireFormat_encodeData n d =
    Inr (tlv ndn_Tlv_Data (data_value d), h, h + length (data_signed_bytes d))"
proof -
  have "enc_offset (TlvEncoder_new n) = 0" by (simp add: TlvEncoder_new_def)
  then show ?thesis
    using emits_ret_nested [OF emits_data_value [OF wf data_encoding_small [OF wf l]] ready_new, of ndn_Tlv_Data n]
    by (auto simp: ndn_Tlv0_2WireFormat_encodeData_def ndn_encodeTlvData_def h_def TlvEncoder_finish)
qed

text \<open>
  Encoding the C struct and decoding the bytes, whatever follows them, gives back the same packet: name, meta
  information, content, signature information and signature value.  Encoder and decoder report the same
  signed portion, which holds exactly the name, meta information, content and signature information.
\<close>

lemma data_wire_roundtrip:
  assumes "data_wire_wf maxes d" and "cmi_otherTypeCode (cd_metaInfo d0) = -1"
    and "length (tlv ndn_Tlv_Data (data_value d)) + length post < 2 ^ 63"
  shows "\<exists>wire b e v. ndn_Tlv0_2WireFormat_encodeData n d = Inr (wire, b, e) \<and>
     drop b (take e wire) = data_signed_bytes d \<and>
     ndn_Tlv0_2WireFormat_decodeData maxes d0 (wire @ post) =
       Some (Inr ((v, of_nat b, of_nat e), of_nat (length wire))) \<and>
     resolve_data (wire @ post) v = Some d"
proof -
  let ?w = "tlv ndn_Tlv_Data (data_value d)" and ?h = "tlv_header ndn_Tlv_Data (length (data_value d))"
  have s: "small_input ([] @ ?w @ post)" using assms(3) by (simp add: small_input_def)
  have enc: "ndn_Tlv0_2WireFormat_encodeData n d = Inr (?w, length ?h, length ?h + length (data_signed_bytes d))"
    using assms by (intro encodeData) simp_all
  have "drop (length ?h) (take (length ?h + length (data_signed_bytes d)) ?w) = data_signed_bytes d"
    by (simp add: tlv_def data_value_def)
  with enc reads_data [OF s assms(1,2)] show ?thesis
    by (fastforce simp: reads_def ndn_Tlv0_2WireFormat_decodeData_def at_pos_def)
qed

definition example_data :: c_data where
  "example_data =
     \<lparr>cd_signature = \<lparr>csg_type = ndn_SignatureType_Sha256WithRsaSignature, csg_signature = Some [1, 2, 3],
        csg_signatureInfoEncoding = None, csg_genericTypeCode = -1,
        csg_keyLocator = \<lparr>ckl_type = ndn_KeyLocatorType_KEY_LOCATOR_DIGEST, ckl_keyData = Some [9], ckl_keyName = []\<rparr>,
        csg_validityPeriod = ndn_ValidityPeriod_clear\<rparr>,
      cd_name = [Component_generic (Some [97])],
      cd_metaInfo = \<lparr>cmi_timestampMilliseconds = -1, cmi_type = ndn_ContentType_KEY, cmi_otherTypeCode = -1,
        cmi_freshnessPeriod = 4000, cmi_finalBlockId = Some (Component_generic (Some [98]))\<rparr>,
      cd_content = Some [104, 105]\<rparr>"

lemma example_data_wf: "data_wire_wf (5, 5) example_data"
proof -
  have "whole_ms 4000" unfolding whole_ms_def by (rule disjI2, rule exI [of _ 4000]) simp
  then show ?thesis
    by (simp add: data_wire_wf_def example_data_def wire_wf_def component_wf_def is_digest_def Component_generic_def
        meta_wire_wf_def content_kinds signature_wire_wf_def signature_kinds key_signature_kind_def
        key_locator_wire_wf_def validity_wf_def)
qed

lemma example_data_length: "length (tlv ndn_Tlv_Data (data_value example_data)) < 2 ^ 62"
proof -
  let ?kl = "csg_keyLocator (cd_signature example_data)"
  have kl: "length (key_locator_bytes ?kl) \<le> 19"
    using length_tlv_le [of ndn_Tlv_KeyLocatorDigest "[9]"]
    by (simp add: example_data_def key_locator_bytes_def ndn_KeyLocatorType_KEYNAME_def
        ndn_KeyLocatorType_KEY_LOCATOR_DIGEST_def)
  have "length (signature_info_tlv (cd_signature example_data)) \<le> 81"
    using kl length_tlv_le [of ndn_Tlv_KeyLocator "key_locator_bytes ?kl"] length_nonneg_integer_le [of 1]
      length_tlv_le [of ndn_Tlv_SignatureType "nonneg_integer 1"]
      length_tlv_le [of ndn_Tlv_SignatureInfo "tlv ndn_Tlv_SignatureType (nonneg_integer 1) @
         tlv ndn_Tlv_KeyLocator (key_locator_bytes ?kl)"]
    by (simp add: example_data_def signature_info_tlv_def signature_kinds period_tlv_def
        ndn_ValidityPeriod_hasPeriod_def ndn_ValidityPeriod_clear_def)
  moreover have "length (meta_bytes (cd_metaInfo example_data)) \<le> 100"
    using length_optional_double_le [of ndn_Tlv_FreshnessPeriod 4000] length_optional_nonneg_le [of ndn_Tlv_ContentType 2]
      length_tlv_le [of ndn_Tlv_FinalBlockId "component_tlv (Component_generic (Some [98]))"]
      length_tlv_le [of 8 "[98]"]
    by (simp add: example_data_def meta_bytes_def content_code_def content_kinds final_block_tlv_def
        component_tlv_def Component_generic_def component_tlv_type_def)
  moreover have "length (comps_bytes (cd_name example_data)) = 3" by code_simp
  moreover have "blob_bytes (cd_content example_data) = [104, 105]"
    "blob_bytes (csg_signature (cd_signature example_data)) = [1, 2, 3]" by (simp_all add: example_data_def)
  ultimately show ?thesis
    using length_tlv_le [of ndn_Tlv_Data "data_value example_data"]
      length_tlv_le [of ndn_Tlv_Name "comps_bytes (cd_name example_data)"]
      length_tlv_le [of ndn_Tlv_MetaInfo "meta_bytes (cd_metaInfo example_data)"]
      length_tlv_le [of ndn_Tlv_Content "[104, 105]"] length_tlv_le [of ndn_Tlv_SignatureValue "[1, 2, 3]"]
    by (simp add: data_value_def data_signed_bytes_def name_tlv_def comps_bytes_def)
qed

text \<open>
  Decoding any input as a Data packet ends inside the input and stores no more name components than the
  arrays of the caller hold, and a successful decoding has a signature value.
\<close>

theorem decode_data_in_bounds:
  assumes "length input < 2 ^ 63"
    and "ndn_Tlv0_2WireFormat_decodeData (maxName, maxKeyName) d0 input = Some (Inr ((v, b, e), off))"
  shows "unat off \<le> length input \<and> length (cd_name v) \<le> maxName \<and> csg_signature (cd_signature v) \<noteq> None"
proof -
  have s: "small_input input" using assms(1) by (simp add: small_input_def)
  note d = assms(2) [unfolded ndn_Tlv0_2WireFormat_decodeData_def]
  from keeps_boundsD [OF keeps_bounds_data s _ d] have "off \<le> inputLength input" by simp
  with assms(1) have "unat off \<le> length input" by (simp add: inputLength_def word_le_nat_alt)
  moreover have "length (cd_name v) \<le> maxName \<and> csg_signature (cd_signature v) \<noteq> None"
    using d unfolding ndn_decodeTlvData_def
    by (auto simp: bindD_ok retD_def ndn_decodeTlvName_def) (erule decode_components_max)
  ultimately show ?thesis by simp
qed

theorem decode_data_in_bounds_witness:
  "\<exists>input v b e off. ndn_Tlv0_2WireFormat_decodeData (5, 5) ndn_Data_initialize input = Some (Inr ((v, b, e), off)) \<and>
     unat off \<le> length input \<and> length (cd_name v) \<le> 5 \<and> csg_signature (cd_signature v) \<noteq> None"
proof -
  let ?w = "tlv ndn_Tlv_Data (data_value example_data)"
  have s: "small_input ([] @ ?w @ [])" using example_data_length by (simp add: small_input_def)
  have "cmi_otherTypeCode (cd_metaInfo (ndn_Data_initialize :: data_slices)) = -1"
    by (simp add: ndn_Data_initialize_def ndn_MetaInfo_initialize_def)
  from reads_data [OF s example_data_wf this] obtain v b e off where
    d: "ndn_Tlv0_2WireFormat_decodeData (5, 5) ndn_Data_initialize ?w = Some (Inr ((v, b, e), off))"
    by (auto simp: reads_def ndn_Tlv0_2WireFormat_decodeData_def)
  have "length ?w < 2 ^ 63" using example_data_length by simp
  from decode_data_in_bounds [OF this d] d show ?thesis by blast
qed

end
