(* ===== verification/SignatureModel.thy ===== *)
theory SignatureModel
  imports TlvData KeyLocator
begin

text \<open>
  The signature classes (\<^verbatim>\<open>sha256-with-rsa-signature.cpp\<close> and its siblings), \<^verbatim>\<open>ValidityPeriod\<close>
  (\<^verbatim>\<open>security/validity-period.hpp\<close>) and \<^verbatim>\<open>MetaInfo\<close> (\<^verbatim>\<open>meta-info.hpp\<close>, \<^verbatim>\<open>meta-info.cpp\<close>): the parts of a Data packet with a change
  count of their own, and their copies to and from the C structs.
\<close>

section \<open>ValidityPeriod\<close>

record validity_period =
  vpc_validityPeriod :: ndn_ValidityPeriod
  vpc_changeCount :: u64

definition ValidityPeriod_new :: validity_period where
  "ValidityPeriod_new = \<lparr>vpc_validityPeriod = ndn_ValidityPeriod_clear, vpc_changeCount = 0\<rparr>"

definition ValidityPeriod_clear :: "validity_period \<Rightarrow> validity_period" where
  "ValidityPeriod_clear self =
     self\<lparr>vpc_validityPeriod := ndn_ValidityPeriod_clear, vpc_changeCount := vpc_changeCount self + 1\<rparr>"

definition ValidityPeriod_setPeriod :: "real \<Rightarrow> real \<Rightarrow> validity_period \<Rightarrow> validity_period" where
  "ValidityPeriod_setPeriod notBefore notAfter self =
     self\<lparr>vpc_validityPeriod := ndn_ValidityPeriod_setPeriod notBefore notAfter,
          vpc_changeCount := vpc_changeCount self + 1\<rparr>"

definition ValidityPeriod_set :: "ndn_ValidityPeriod \<Rightarrow> validity_period \<Rightarrow> validity_period" where
  "ValidityPeriod_set lite self = self\<lparr>vpc_validityPeriod := lite, vpc_changeCount := vpc_changeCount self + 1\<rparr>"

text \<open>
  The constructors of \<^verbatim>\<open>ValidityPeriod\<close> leave \<^verbatim>\<open>changeCount_\<close> uninitialised; it is taken as 0 here.
\<close>

text \<open>\<^verbatim>\<open>isValid\<close>: a negative time stands for the present time.\<close>

definition ValidityPeriod_isValid :: "real \<Rightarrow> real \<Rightarrow> validity_period \<Rightarrow> bool" where
  "ValidityPeriod_isValid now time self =
     (let time = (if time < 0 then of_int (c_round (of_int \<lceil>of_int (c_round now) / 1000 :: real\<rceil> * 1000)) else time)
      in ndn_ValidityPeriod_isValid (vpc_validityPeriod self) time)"

section \<open>MetaInfo\<close>

record meta_info =
  mi_timestampMilliseconds :: real
  mi_type :: int
  mi_otherTypeCode :: int
  mi_freshnessPeriod :: real
  mi_finalBlockId :: component
  mi_changeCount :: u64

definition MetaInfo_new :: meta_info where
  "MetaInfo_new =
     \<lparr>mi_timestampMilliseconds = -1, mi_type = ndn_ContentType_BLOB, mi_otherTypeCode = -1, mi_freshnessPeriod = -1,
      mi_finalBlockId = Component_generic None, mi_changeCount = 0\<rparr>"

definition MetaInfo_setType :: "int \<Rightarrow> meta_info \<Rightarrow> meta_info" where
  "MetaInfo_setType type self = self\<lparr>mi_type := type, mi_changeCount := mi_changeCount self + 1\<rparr>"

definition MetaInfo_setOtherTypeCode :: "int \<Rightarrow> meta_info \<Rightarrow> meta_info result" where
  "MetaInfo_setOtherTypeCode otherTypeCode self =
     (if otherTypeCode < 0 then Inl (RuntimeError (str ''MetaInfo other type code must be non-negative''))
      else Inr (self\<lparr>mi_otherTypeCode := otherTypeCode, mi_changeCount := mi_changeCount self + 1\<rparr>))"

definition MetaInfo_setFreshnessPeriod :: "real \<Rightarrow> meta_info \<Rightarrow> meta_info" where
  "MetaInfo_setFreshnessPeriod freshnessPeriod self =
     self\<lparr>mi_freshnessPeriod := freshnessPeriod, mi_changeCount := mi_changeCount self + 1\<rparr>"

definition MetaInfo_setFinalBlockId :: "component \<Rightarrow> meta_info \<Rightarrow> meta_info" where
  "MetaInfo_setFinalBlockId finalBlockId self =
     self\<lparr>mi_finalBlockId := finalBlockId, mi_changeCount := mi_changeCount self + 1\<rparr>"

text \<open>Only the value of the final block ID is copied, not its type.\<close>

definition MetaInfo_get :: "meta_info \<Rightarrow> component ndn_MetaInfo" where
  "MetaInfo_get self =
     \<lparr>cmi_timestampMilliseconds = mi_timestampMilliseconds self, cmi_type = mi_type self,
      cmi_otherTypeCode = mi_otherTypeCode self, cmi_freshnessPeriod = mi_freshnessPeriod self,
      cmi_finalBlockId = map_option (\<lambda>v. Component_generic (Some v)) (c_value (mi_finalBlockId self))\<rparr>"

definition MetaInfo_set :: "component ndn_MetaInfo \<Rightarrow> meta_info \<Rightarrow> meta_info" where
  "MetaInfo_set lite self =
     (let self = self\<lparr>mi_timestampMilliseconds := cmi_timestampMilliseconds lite\<rparr>;
          self = MetaInfo_setType (cmi_type lite) self;
          self = self\<lparr>mi_otherTypeCode := cmi_otherTypeCode lite\<rparr>;
          self = MetaInfo_setFreshnessPeriod (cmi_freshnessPeriod lite) self
      in MetaInfo_setFinalBlockId
           (Component_generic (case cmi_finalBlockId lite of None \<Rightarrow> None | Some c \<Rightarrow> c_value c)) self)"

section \<open>The signature classes\<close>

record key_signature =
  ks_signature :: blob
  ks_keyLocator :: "key_locator change_counter"
  ks_validityPeriod :: "validity_period change_counter"
  ks_changeCount :: u64

record hmac_signature =
  hs_signature :: blob
  hs_keyLocator :: "key_locator change_counter"
  hs_changeCount :: u64

record digest_signature =
  dgs_signature :: blob
  dgs_changeCount :: u64

record generic_signature =
  gs_signature :: blob
  gs_signatureInfoEncoding :: blob
  gs_typeCode :: int
  gs_changeCount :: u64

datatype signature =
    Sha256WithRsaSignature key_signature
  | Sha256WithEcdsaSignature key_signature
  | HmacWithSha256Signature hmac_signature
  | DigestSha256Signature digest_signature
  | GenericSignature generic_signature

definition KeySignature_new :: key_signature where
  "KeySignature_new =
     \<lparr>ks_signature = None, ks_keyLocator = ChangeCounter_poll_of KeyLocator_getChangeCount KeyLocator_new,
      ks_validityPeriod = ChangeCounter_of vpc_changeCount ValidityPeriod_new, ks_changeCount = 0\<rparr>"

definition HmacSignature_new :: hmac_signature where
  "HmacSignature_new =
     \<lparr>hs_signature = None, hs_keyLocator = ChangeCounter_poll_of KeyLocator_getChangeCount KeyLocator_new,
      hs_changeCount = 0\<rparr>"

definition DigestSignature_new :: digest_signature where
  "DigestSignature_new = \<lparr>dgs_signature = None, dgs_changeCount = 0\<rparr>"

definition GenericSignature_new :: generic_signature where
  "GenericSignature_new = \<lparr>gs_signature = None, gs_signatureInfoEncoding = None, gs_typeCode = -1, gs_changeCount = 0\<rparr>"

text \<open>The calls of each class; \<^verbatim>\<open>clear\<close> keeps the class.\<close>

definition KeySignature_setSignature :: "blob \<Rightarrow> key_signature \<Rightarrow> key_signature" where
  [simp]: "KeySignature_setSignature b s = s\<lparr>ks_signature := b, ks_changeCount := ks_changeCount s + 1\<rparr>"

definition HmacSignature_setSignature :: "blob \<Rightarrow> hmac_signature \<Rightarrow> hmac_signature" where
  [simp]: "HmacSignature_setSignature b s = s\<lparr>hs_signature := b, hs_changeCount := hs_changeCount s + 1\<rparr>"

definition DigestSignature_setSignature :: "blob \<Rightarrow> digest_signature \<Rightarrow> digest_signature" where
  [simp]: "DigestSignature_setSignature b s = s\<lparr>dgs_signature := b, dgs_changeCount := dgs_changeCount s + 1\<rparr>"

definition GenericSignature_setSignature :: "blob \<Rightarrow> generic_signature \<Rightarrow> generic_signature" where
  [simp]: "GenericSignature_setSignature b s = s\<lparr>gs_signature := b, gs_changeCount := gs_changeCount s + 1\<rparr>"

definition KeySignature_clear :: "key_signature \<Rightarrow> key_signature" where
  "KeySignature_clear s =
     s\<lparr>ks_signature := None, ks_keyLocator := ChangeCounter_update KeyLocator_clear (ks_keyLocator s),
       ks_validityPeriod := ChangeCounter_update ValidityPeriod_clear (ks_validityPeriod s),
       ks_changeCount := ks_changeCount s + 1\<rparr>"

definition HmacSignature_clear :: "hmac_signature \<Rightarrow> hmac_signature" where
  "HmacSignature_clear s =
     s\<lparr>hs_signature := None, hs_keyLocator := ChangeCounter_update KeyLocator_clear (hs_keyLocator s),
       hs_changeCount := hs_changeCount s + 1\<rparr>"

definition DigestSignature_clear :: "digest_signature \<Rightarrow> digest_signature" where
  "DigestSignature_clear s = s\<lparr>dgs_signature := None, dgs_changeCount := dgs_changeCount s + 1\<rparr>"

definition GenericSignature_clear :: "generic_signature \<Rightarrow> generic_signature" where
  "GenericSignature_clear s =
     s\<lparr>gs_signature := None, gs_signatureInfoEncoding := None, gs_typeCode := -1, gs_changeCount := gs_changeCount s + 1\<rparr>"

text \<open>The virtual calls of \<^verbatim>\<open>Signature\<close>.\<close>

fun Signature_setSignature :: "blob \<Rightarrow> signature \<Rightarrow> signature" where
  "Signature_setSignature b (Sha256WithRsaSignature s) = Sha256WithRsaSignature (KeySignature_setSignature b s)"
| "Signature_setSignature b (Sha256WithEcdsaSignature s) = Sha256WithEcdsaSignature (KeySignature_setSignature b s)"
| "Signature_setSignature b (HmacWithSha256Signature s) = HmacWithSha256Signature (HmacSignature_setSignature b s)"
| "Signature_setSignature b (DigestSha256Signature s) = DigestSha256Signature (DigestSignature_setSignature b s)"
| "Signature_setSignature b (GenericSignature s) = GenericSignature (GenericSignature_setSignature b s)"

fun Signature_getSignature :: "signature \<Rightarrow> blob" where
  "Signature_getSignature (Sha256WithRsaSignature s) = ks_signature s"
| "Signature_getSignature (Sha256WithEcdsaSignature s) = ks_signature s"
| "Signature_getSignature (HmacWithSha256Signature s) = hs_signature s"
| "Signature_getSignature (DigestSha256Signature s) = dgs_signature s"
| "Signature_getSignature (GenericSignature s) = gs_signature s"

definition KeySignature_setKeyLocator :: "key_locator \<Rightarrow> key_signature \<Rightarrow> key_signature" where
  "KeySignature_setKeyLocator keyLocator s =
     s\<lparr>ks_keyLocator := ChangeCounter_poll_set KeyLocator_getChangeCount keyLocator (ks_keyLocator s),
       ks_changeCount := ks_changeCount s + 1\<rparr>"

definition KeySignature_setValidityPeriod :: "validity_period \<Rightarrow> key_signature \<Rightarrow> key_signature" where
  "KeySignature_setValidityPeriod validityPeriod s =
     s\<lparr>ks_validityPeriod := ChangeCounter_set vpc_changeCount validityPeriod (ks_validityPeriod s),
       ks_changeCount := ks_changeCount s + 1\<rparr>"

definition HmacSignature_setKeyLocator :: "key_locator \<Rightarrow> hmac_signature \<Rightarrow> hmac_signature" where
  "HmacSignature_setKeyLocator keyLocator s =
     s\<lparr>hs_keyLocator := ChangeCounter_poll_set KeyLocator_getChangeCount keyLocator (hs_keyLocator s),
       hs_changeCount := hs_changeCount s + 1\<rparr>"

definition GenericSignature_setSignatureInfoEncoding :: "blob \<Rightarrow> int \<Rightarrow> generic_signature \<Rightarrow> generic_signature" where
  "GenericSignature_setSignatureInfoEncoding encoding code s =
     s\<lparr>gs_signatureInfoEncoding := encoding, gs_typeCode := code, gs_changeCount := gs_changeCount s + 1\<rparr>"

definition KeySignature_getChangeCount :: "key_signature \<Rightarrow> u64 \<times> key_signature" where
  "KeySignature_getChangeCount s =
     (let (changed, kl) = ChangeCounter_poll KeyLocator_getChangeCount (ks_keyLocator s);
          (changed', vp) = ChangeCounter_checkChanged vpc_changeCount (ks_validityPeriod s);
          s = s\<lparr>ks_keyLocator := kl, ks_validityPeriod := vp\<rparr>;
          s = (if changed' \<or> changed then s\<lparr>ks_changeCount := ks_changeCount s + 1\<rparr> else s)
      in (ks_changeCount s, s))"

definition HmacSignature_getChangeCount :: "hmac_signature \<Rightarrow> u64 \<times> hmac_signature" where
  "HmacSignature_getChangeCount s =
     (let (changed, kl) = ChangeCounter_poll KeyLocator_getChangeCount (hs_keyLocator s);
          s = s\<lparr>hs_keyLocator := kl\<rparr>;
          s = (if changed then s\<lparr>hs_changeCount := hs_changeCount s + 1\<rparr> else s)
      in (hs_changeCount s, s))"

fun Signature_getChangeCount :: "signature \<Rightarrow> u64 \<times> signature" where
  "Signature_getChangeCount (Sha256WithRsaSignature s) = map_prod id Sha256WithRsaSignature (KeySignature_getChangeCount s)"
| "Signature_getChangeCount (Sha256WithEcdsaSignature s) = map_prod id Sha256WithEcdsaSignature (KeySignature_getChangeCount s)"
| "Signature_getChangeCount (HmacWithSha256Signature s) = map_prod id HmacWithSha256Signature (HmacSignature_getChangeCount s)"
| "Signature_getChangeCount (DigestSha256Signature s) = (dgs_changeCount s, DigestSha256Signature s)"
| "Signature_getChangeCount (GenericSignature s) = (gs_changeCount s, GenericSignature s)"

text \<open>
  \<^verbatim>\<open>get\<close> fills the C struct the caller initialised; \<^verbatim>\<open>m\<close> is the size of its array of key name components.
\<close>

definition KeySignature_get :: "int \<Rightarrow> nat \<Rightarrow> key_signature \<Rightarrow> c_signature \<Rightarrow> c_signature result" where
  [simp]: "KeySignature_get type m s lite =
     bindE (KeyLocator_get_lite m (cc_target (ks_keyLocator s))) (\<lambda>kl.
       Inr (lite\<lparr>csg_type := type, csg_signature := ks_signature s, csg_keyLocator := kl,
                 csg_validityPeriod := vpc_validityPeriod (cc_target (ks_validityPeriod s))\<rparr>))"

definition HmacSignature_get :: "nat \<Rightarrow> hmac_signature \<Rightarrow> c_signature \<Rightarrow> c_signature result" where
  [simp]: "HmacSignature_get m s lite =
     bindE (KeyLocator_get_lite m (cc_target (hs_keyLocator s))) (\<lambda>kl.
       Inr (lite\<lparr>csg_type := ndn_SignatureType_HmacWithSha256Signature, csg_signature := hs_signature s,
                 csg_keyLocator := kl\<rparr>))"

definition DigestSignature_get :: "digest_signature \<Rightarrow> c_signature" where
  [simp]: "DigestSignature_get s =
     ndn_Signature_initialize\<lparr>csg_type := ndn_SignatureType_DigestSha256Signature, csg_signature := dgs_signature s\<rparr>"

definition GenericSignature_get :: "generic_signature \<Rightarrow> c_signature" where
  [simp]: "GenericSignature_get s =
     ndn_Signature_initialize\<lparr>csg_type := ndn_SignatureType_Generic, csg_signature := gs_signature s,
       csg_signatureInfoEncoding := gs_signatureInfoEncoding s, csg_genericTypeCode := gs_typeCode s\<rparr>"

fun Signature_get :: "nat \<Rightarrow> signature \<Rightarrow> c_signature \<Rightarrow> c_signature result" where
  "Signature_get m (Sha256WithRsaSignature s) lite = KeySignature_get ndn_SignatureType_Sha256WithRsaSignature m s lite"
| "Signature_get m (Sha256WithEcdsaSignature s) lite = KeySignature_get ndn_SignatureType_Sha256WithEcdsaSignature m s lite"
| "Signature_get m (HmacWithSha256Signature s) lite = HmacSignature_get m s lite"
| "Signature_get m (DigestSha256Signature s) lite = Inr (DigestSignature_get s)"
| "Signature_get m (GenericSignature s) lite = Inr (GenericSignature_get s)"

definition unexpected_type :: "string \<Rightarrow> exn" where
  "unexpected_type cls = RuntimeError (str (''signatureLite is not the expected type '' @ cls))"

definition KeySignature_set :: "int \<Rightarrow> string \<Rightarrow> c_signature \<Rightarrow> key_signature \<Rightarrow> key_signature result" where
  [simp]: "KeySignature_set type cls lite s =
     (if csg_type lite \<noteq> type then Inl (unexpected_type cls)
      else Inr ((KeySignature_setSignature (csg_signature lite) s)
        \<lparr>ks_keyLocator := ChangeCounter_update (KeyLocator_set_lite (csg_keyLocator lite)) (ks_keyLocator s),
         ks_validityPeriod := ChangeCounter_update (ValidityPeriod_set (csg_validityPeriod lite)) (ks_validityPeriod s)\<rparr>))"

definition HmacSignature_set :: "c_signature \<Rightarrow> hmac_signature \<Rightarrow> hmac_signature result" where
  [simp]: "HmacSignature_set lite s =
     (if csg_type lite \<noteq> ndn_SignatureType_HmacWithSha256Signature then Inl (unexpected_type ''HmacWithSha256Signature'')
      else Inr ((HmacSignature_setSignature (csg_signature lite) s)
        \<lparr>hs_keyLocator := ChangeCounter_update (KeyLocator_set_lite (csg_keyLocator lite)) (hs_keyLocator s)\<rparr>))"

definition DigestSignature_set :: "c_signature \<Rightarrow> digest_signature \<Rightarrow> digest_signature result" where
  [simp]: "DigestSignature_set lite s =
     (if csg_type lite \<noteq> ndn_SignatureType_DigestSha256Signature then Inl (unexpected_type ''DigestSha256Signature'')
      else Inr (DigestSignature_setSignature (csg_signature lite) s))"

definition GenericSignature_set :: "c_signature \<Rightarrow> generic_signature \<Rightarrow> generic_signature result" where
  [simp]: "GenericSignature_set lite s =
     (if csg_type lite \<noteq> ndn_SignatureType_Generic then Inl (unexpected_type ''Generic'')
      else Inr (GenericSignature_setSignatureInfoEncoding (csg_signatureInfoEncoding lite) (csg_genericTypeCode lite)
             (GenericSignature_setSignature (csg_signature lite) s)))"

fun Signature_set :: "c_signature \<Rightarrow> signature \<Rightarrow> signature result" where
  "Signature_set lite (Sha256WithRsaSignature s) =
     bindE (KeySignature_set ndn_SignatureType_Sha256WithRsaSignature ''Sha256WithRsaSignature'' lite s)
       (\<lambda>s. Inr (Sha256WithRsaSignature s))"
| "Signature_set lite (Sha256WithEcdsaSignature s) =
     bindE (KeySignature_set ndn_SignatureType_Sha256WithEcdsaSignature ''Sha256WithEcdsaSignature'' lite s)
       (\<lambda>s. Inr (Sha256WithEcdsaSignature s))"
| "Signature_set lite (HmacWithSha256Signature s) = bindE (HmacSignature_set lite s) (\<lambda>s. Inr (HmacWithSha256Signature s))"
| "Signature_set lite (DigestSha256Signature s) = bindE (DigestSignature_set lite s) (\<lambda>s. Inr (DigestSha256Signature s))"
| "Signature_set lite (GenericSignature s) = bindE (GenericSignature_set lite s) (\<lambda>s. Inr (GenericSignature s))"

text \<open>\<^verbatim>\<open>KeyLocator::getFromSignature\<close> and \<^verbatim>\<open>ValidityPeriod::getFromSignature\<close>, with the tests before them.\<close>

fun KeyLocator_canGetFromSignature :: "signature \<Rightarrow> bool" where
  "KeyLocator_canGetFromSignature (Sha256WithRsaSignature s) = True"
| "KeyLocator_canGetFromSignature (Sha256WithEcdsaSignature s) = True"
| "KeyLocator_canGetFromSignature (HmacWithSha256Signature s) = True"
| "KeyLocator_canGetFromSignature (DigestSha256Signature s) = False"
| "KeyLocator_canGetFromSignature (GenericSignature s) = False"

fun KeyLocator_getFromSignature :: "signature \<Rightarrow> key_locator result" where
  "KeyLocator_getFromSignature (Sha256WithRsaSignature s) = Inr (cc_target (ks_keyLocator s))"
| "KeyLocator_getFromSignature (Sha256WithEcdsaSignature s) = Inr (cc_target (ks_keyLocator s))"
| "KeyLocator_getFromSignature (HmacWithSha256Signature s) = Inr (cc_target (hs_keyLocator s))"
| "KeyLocator_getFromSignature s =
     Inl (RuntimeError (str ''KeyLocator::getFromSignature: Signature type does not have a KeyLocator''))"

fun ValidityPeriod_getFromSignature :: "signature \<Rightarrow> validity_period result" where
  "ValidityPeriod_getFromSignature (Sha256WithRsaSignature s) = Inr (cc_target (ks_validityPeriod s))"
| "ValidityPeriod_getFromSignature (Sha256WithEcdsaSignature s) = Inr (cc_target (ks_validityPeriod s))"
| "ValidityPeriod_getFromSignature s =
     Inl (RuntimeError (str ''ValidityPeriod::getFromSignature: Signature type does not have a ValidityPeriod''))"

lemma canGetFromSignature: "KeyLocator_canGetFromSignature s \<longleftrightarrow> (\<exists>kl. KeyLocator_getFromSignature s = Inr kl)"
  by (cases s) simp_all

section \<open>Counts\<close>

interpretation key_locator_count: counted KeyLocator_getChangeCount "\<lambda>kl m. KeyLocator_get_lite m kl"
proof
  fix s
  show "KeyLocator_getChangeCount (snd (KeyLocator_getChangeCount s)) = KeyLocator_getChangeCount s"
    by (rule KeyLocator_getChangeCount_twice)
  show "(\<lambda>m. KeyLocator_get_lite m (snd (KeyLocator_getChangeCount s))) = (\<lambda>m. KeyLocator_get_lite m s)"
    by (simp add: KeyLocator_getChangeCount_def Let_def case_prod_beta KeyLocator_get_lite_def)
qed

text \<open>What a signature with a key locator holds, besides its count.\<close>

interpretation key_signature_count: counted KeySignature_getChangeCount
  "\<lambda>s. (ks_signature s, \<lambda>m. KeyLocator_get_lite m (cc_target (ks_keyLocator s)), cc_target (ks_validityPeriod s))"
proof
  fix s
  show "KeySignature_getChangeCount (snd (KeySignature_getChangeCount s)) = KeySignature_getChangeCount s"
    by (simp add: KeySignature_getChangeCount_def Let_def case_prod_beta key_locator_count.poll_again checkChanged_twice)
  show "(ks_signature (snd (KeySignature_getChangeCount s)),
      \<lambda>m. KeyLocator_get_lite m (cc_target (ks_keyLocator (snd (KeySignature_getChangeCount s)))),
      cc_target (ks_validityPeriod (snd (KeySignature_getChangeCount s)))) =
    (ks_signature s, \<lambda>m. KeyLocator_get_lite m (cc_target (ks_keyLocator s)), cc_target (ks_validityPeriod s))"
    by (simp add: KeySignature_getChangeCount_def Let_def case_prod_beta key_locator_count.poll_content)
qed

interpretation hmac_signature_count: counted HmacSignature_getChangeCount
  "\<lambda>s. (hs_signature s, \<lambda>m. KeyLocator_get_lite m (cc_target (hs_keyLocator s)))"
proof
  fix s
  show "HmacSignature_getChangeCount (snd (HmacSignature_getChangeCount s)) = HmacSignature_getChangeCount s"
    by (simp add: HmacSignature_getChangeCount_def Let_def case_prod_beta key_locator_count.poll_again)
  show "(hs_signature (snd (HmacSignature_getChangeCount s)),
      \<lambda>m. KeyLocator_get_lite m (cc_target (hs_keyLocator (snd (HmacSignature_getChangeCount s))))) =
    (hs_signature s, \<lambda>m. KeyLocator_get_lite m (cc_target (hs_keyLocator s)))"
    by (simp add: HmacSignature_getChangeCount_def Let_def case_prod_beta key_locator_count.poll_content)
qed

text \<open>A signature of any class: what it holds is its copy in the C struct, for any size of the array.\<close>

interpretation signature_count: counted Signature_getChangeCount "\<lambda>s m lite. Signature_get m s lite"
proof
  fix s
  show "Signature_getChangeCount (snd (Signature_getChangeCount s)) = Signature_getChangeCount s"
    by (cases s) (simp_all add: key_signature_count.again hmac_signature_count.again)
  show "(\<lambda>m lite. Signature_get m (snd (Signature_getChangeCount s)) lite) = (\<lambda>m lite. Signature_get m s lite)"
  proof (cases s)
    case (Sha256WithRsaSignature k)
    with key_signature_count.keeps [of k] show ?thesis by (simp add: fun_eq_iff)
  next
    case (Sha256WithEcdsaSignature k)
    with key_signature_count.keeps [of k] show ?thesis by (simp add: fun_eq_iff)
  next
    case (HmacWithSha256Signature k)
    with hmac_signature_count.keeps [of k] show ?thesis by (simp add: fun_eq_iff)
  qed simp_all
qed

section \<open>Copies to the C struct and back\<close>

text \<open>
  Copying a Generic signature to the C struct and back keeps everything; the same for MetaInfo, as long
  as the final block ID is a generic component.
\<close>

lemma MetaInfo_get_set:
  assumes "c_type (mi_finalBlockId mi) = ndn_NameComponentType_GENERIC" and "c_otherTypeCode (mi_finalBlockId mi) = -1"
  shows "MetaInfo_set (MetaInfo_get mi) self = mi\<lparr>mi_changeCount := mi_changeCount self + 3\<rparr>"
proof -
  obtain t ty oc fp c n where mi: "mi = \<lparr>mi_timestampMilliseconds = t, mi_type = ty, mi_otherTypeCode = oc,
      mi_freshnessPeriod = fp, mi_finalBlockId = c, mi_changeCount = n\<rparr>" by (cases mi) auto
  have "Component_generic (c_value c) = c" using assms by (cases c) (simp add: mi Component_generic_def)
  then show ?thesis
    by (cases self, cases "c_value c")
       (simp_all add: mi MetaInfo_set_def MetaInfo_get_def MetaInfo_setType_def MetaInfo_setFreshnessPeriod_def
         MetaInfo_setFinalBlockId_def Let_def Component_generic_def)
qed

text \<open>A final block ID of another type comes back as a generic component.\<close>

lemma MetaInfo_get_drops_type:
  assumes "c_value (mi_finalBlockId mi) = Some v"
  shows "mi_finalBlockId (MetaInfo_set (MetaInfo_get mi) self) = Component_generic (Some v)"
  using assms
  by (simp add: MetaInfo_set_def MetaInfo_get_def MetaInfo_setType_def MetaInfo_setFreshnessPeriod_def
      MetaInfo_setFinalBlockId_def Let_def Component_generic_def)

end
