(* ===== verification/DataModel.thy ===== *)
theory DataModel
  imports SignatureModel
begin

text \<open>
  The \<^verbatim>\<open>Data\<close> class (\<^verbatim>\<open>data.hpp\<close>, \<^verbatim>\<open>data.cpp\<close>): its fields with their change counts, the cached wire encoding
  and full name, and the 0.3 wire format's \<^verbatim>\<open>encodeData\<close> and \<^verbatim>\<open>decodeData\<close> (\<^verbatim>\<open>tlv-0_3-wire-format.cpp\<close>).
\<close>

section \<open>State\<close>

text \<open>An encoding with the begin and end offsets of its signed portion.  None is a null blob.\<close>

type_synonym signed_blob = "(bytes \<times> nat \<times> nat) option"

text \<open>
  A \<^verbatim>\<open>WireFormat *\<close> is the number of the format object.  The default constructor leaves
  \<^verbatim>\<open>defaultWireEncodingFormat_\<close> uninitialised; nothing reads it while the encoding is null.  \<^verbatim>\<open>lpPacket_\<close>, which does
  not enter the encoding, is left out.
\<close>

record data =
  dt_signature :: "signature shared_counter"
  dt_name :: "name change_counter"
  dt_metaInfo :: "meta_info change_counter"
  dt_content :: blob
  dt_defaultWireEncoding :: signed_blob
  dt_defaultWireEncodingFormat :: "nat option"
  dt_defaultFullName :: name
  dt_getDefaultWireEncodingChangeCount :: u64
  dt_changeCount :: u64

definition Data_of_name :: "name \<Rightarrow> data" where
  "Data_of_name name =
     \<lparr>dt_signature = SharedPointerChangeCounter_new Signature_getChangeCount
                       (Some (Sha256WithRsaSignature KeySignature_new)),
      dt_name = ChangeCounter_of n_changeCount name, dt_metaInfo = ChangeCounter_of mi_changeCount MetaInfo_new,
      dt_content = None, dt_defaultWireEncoding = None, dt_defaultWireEncodingFormat = None,
      dt_defaultFullName = Name_empty, dt_getDefaultWireEncodingChangeCount = 0, dt_changeCount = 0\<rparr>"

definition Data_new :: data where
  "Data_new = Data_of_name Name_empty"

definition Data_getChangeCount :: "data \<Rightarrow> u64 \<times> data" where
  "Data_getChangeCount self =
     (let (c1, signature) = SharedPointerChangeCounter_checkChanged Signature_getChangeCount (dt_signature self);
          (c2, name) = ChangeCounter_checkChanged n_changeCount (dt_name self);
          (c3, metaInfo) = ChangeCounter_checkChanged mi_changeCount (dt_metaInfo self);
          self = self\<lparr>dt_signature := signature, dt_name := name, dt_metaInfo := metaInfo\<rparr>;
          self = (if c3 \<or> c2 \<or> c1 then self\<lparr>dt_changeCount := dt_changeCount self + 1\<rparr> else self)
      in (dt_changeCount self, self))"

definition Data_getDefaultWireEncoding :: "data \<Rightarrow> signed_blob \<times> data" where
  "Data_getDefaultWireEncoding self =
     (let (count, self) = Data_getChangeCount self;
          self = (if dt_getDefaultWireEncodingChangeCount self \<noteq> count
                  then (let self = self\<lparr>dt_defaultWireEncoding := None, dt_defaultWireEncodingFormat := None\<rparr>;
                            (count, self) = Data_getChangeCount self
                        in self\<lparr>dt_getDefaultWireEncodingChangeCount := count\<rparr>)
                  else self)
      in (dt_defaultWireEncoding self, self))"

definition Data_setDefaultWireEncoding :: "signed_blob \<Rightarrow> nat option \<Rightarrow> data \<Rightarrow> data" where
  "Data_setDefaultWireEncoding encoding format self =
     (let self = self\<lparr>dt_defaultWireEncoding := encoding, dt_defaultWireEncodingFormat := format\<rparr>;
          (count, self) = Data_getChangeCount self
      in self\<lparr>dt_getDefaultWireEncodingChangeCount := count\<rparr>)"

section \<open>Operations\<close>

definition Data_setSignature :: "signature \<Rightarrow> data \<Rightarrow> data" where
  "Data_setSignature signature self =
     self\<lparr>dt_signature := SharedPointerChangeCounter_set Signature_getChangeCount (Some signature) (dt_signature self),
          dt_changeCount := dt_changeCount self + 1\<rparr>"

definition Data_setName :: "name \<Rightarrow> data \<Rightarrow> data" where
  "Data_setName name self =
     self\<lparr>dt_name := ChangeCounter_set n_changeCount name (dt_name self), dt_changeCount := dt_changeCount self + 1\<rparr>"

definition Data_setMetaInfo :: "meta_info \<Rightarrow> data \<Rightarrow> data" where
  "Data_setMetaInfo metaInfo self =
     self\<lparr>dt_metaInfo := ChangeCounter_set mi_changeCount metaInfo (dt_metaInfo self),
          dt_changeCount := dt_changeCount self + 1\<rparr>"

definition Data_setContent :: "blob \<Rightarrow> data \<Rightarrow> data" where
  "Data_setContent content self = self\<lparr>dt_content := content, dt_changeCount := dt_changeCount self + 1\<rparr>"

text \<open>Changes through the references that \<^verbatim>\<open>getName\<close>, \<^verbatim>\<open>getMetaInfo\<close> and \<^verbatim>\<open>getSignature\<close> return.\<close>

definition Data_getName_apply :: "(name \<Rightarrow> name) \<Rightarrow> data \<Rightarrow> data" where
  "Data_getName_apply f self = self\<lparr>dt_name := ChangeCounter_update f (dt_name self)\<rparr>"

definition Data_getMetaInfo_apply :: "(meta_info \<Rightarrow> meta_info) \<Rightarrow> data \<Rightarrow> data" where
  "Data_getMetaInfo_apply f self = self\<lparr>dt_metaInfo := ChangeCounter_update f (dt_metaInfo self)\<rparr>"

definition Data_getSignature_apply :: "(signature \<Rightarrow> signature) \<Rightarrow> data \<Rightarrow> data" where
  "Data_getSignature_apply f self =
     self\<lparr>dt_signature := (dt_signature self)\<lparr>sp_target := map_option f (sp_target (dt_signature self))\<rparr>\<rparr>"

text \<open>
  The assignment operator.  The wire encoding is copied as it is, stale or not, and \<^verbatim>\<open>defaultFullName_\<close> is not
  touched.
\<close>

definition Data_assign :: "data \<Rightarrow> data \<Rightarrow> data" where
  "Data_assign other self =
     (let self = self\<lparr>dt_signature := SharedPointerChangeCounter_set Signature_getChangeCount
                                      (sp_target (dt_signature other)) (dt_signature self)\<rparr>;
          self = Data_setName (cc_target (dt_name other)) self;
          self = Data_setMetaInfo (cc_target (dt_metaInfo other)) self;
          self = Data_setContent (dt_content other) self
      in Data_setDefaultWireEncoding (dt_defaultWireEncoding other) (dt_defaultWireEncodingFormat other) self)"

text \<open>The copy constructor; the source is const, but can drop a stale encoding.\<close>

definition Data_copy :: "data \<Rightarrow> data \<times> data" where
  "Data_copy other =
     (let self = \<lparr>dt_signature = \<lparr>sp_target = None, sp_changeCount = 0\<rparr>, dt_name = dt_name other,
                   dt_metaInfo = dt_metaInfo other, dt_content = dt_content other, dt_defaultWireEncoding = None,
                   dt_defaultWireEncodingFormat = None, dt_defaultFullName = dt_defaultFullName other,
                   dt_getDefaultWireEncodingChangeCount = 0, dt_changeCount = 0\<rparr>;
          self = (if sp_target (dt_signature other) \<noteq> None then Data_setSignature (the (sp_target (dt_signature other))) self
                  else self);
          (encoding, other) = Data_getDefaultWireEncoding other
      in (other, Data_setDefaultWireEncoding encoding (dt_defaultWireEncodingFormat other) self))"

section \<open>The C struct\<close>

text \<open>
  \<^verbatim>\<open>get\<close> into a struct whose arrays have the given sizes.  None: the signature pointer is null, which the code
  dereferences.
\<close>

definition Data_get :: "nat \<times> nat \<Rightarrow> data \<Rightarrow> c_data result option" where
  "Data_get maxes self =
     (case sp_target (dt_signature self) of
        None \<Rightarrow> None
      | Some s \<Rightarrow>
          Some (bindE (Signature_get (snd maxes) s ndn_Signature_initialize) (\<lambda>signature.
            bindE (Name_get_lite \<lparr>cn_components = [], cn_maxComponents = fst maxes\<rparr> (cc_target (dt_name self))) (\<lambda>name.
              Inr \<lparr>cd_signature = signature, cd_name = cn_components name,
                   cd_metaInfo = MetaInfo_get (cc_target (dt_metaInfo self)), cd_content = dt_content self\<rparr>))))"

definition new_signature :: "int \<Rightarrow> signature option" where
  "new_signature type =
     (if type = ndn_SignatureType_Sha256WithRsaSignature then Some (Sha256WithRsaSignature KeySignature_new)
      else if type = ndn_SignatureType_Sha256WithEcdsaSignature then Some (Sha256WithEcdsaSignature KeySignature_new)
      else if type = ndn_SignatureType_HmacWithSha256Signature then Some (HmacWithSha256Signature HmacSignature_new)
      else if type = ndn_SignatureType_DigestSha256Signature then Some (DigestSha256Signature DigestSignature_new)
      else if type = ndn_SignatureType_Generic then Some (GenericSignature GenericSignature_new)
      else None)"

text \<open>
  \<^verbatim>\<open>set\<close>: the changes after the new signature object is in place go through references.  The error keeps the
  changes made before it.
\<close>

definition Data_set :: "c_data \<Rightarrow> data \<Rightarrow> exn option \<times> data" where
  "Data_set lite self =
     (case new_signature (csg_type (cd_signature lite)) of
        None \<Rightarrow> (Some (RuntimeError (str ''dataLite.getSignature().getType() has an unrecognized value'')), self)
      | Some s \<Rightarrow>
          (let self = self\<lparr>dt_signature := SharedPointerChangeCounter_set Signature_getChangeCount (Some s) (dt_signature self)\<rparr>
           in case Signature_set (cd_signature lite) s of
                Inl e \<Rightarrow> (Some e, self)
              | Inr s' \<Rightarrow>
                  (let self = Data_getSignature_apply (\<lambda>_. s') self;
                       self = Data_getName_apply (Name_set_lite \<lparr>cn_components = cd_name lite,
                                cn_maxComponents = length (cd_name lite)\<rparr>) self;
                       self = Data_getMetaInfo_apply (MetaInfo_set (cd_metaInfo lite)) self
                   in (None, Data_setContent (cd_content lite) self))))"

section \<open>Encoding and decoding\<close>

text \<open>
  \<^verbatim>\<open>Tlv0_3WireFormat::encodeData\<close> and \<^verbatim>\<open>decodeData\<close>, with arrays for 100 components.  In the decoder None is
  memory that is not the input (a slice that reaches outside it).
\<close>

definition Tlv_encodeData :: "data \<Rightarrow> (bytes \<times> nat \<times> nat) result option" where
  "Tlv_encodeData data =
     (case Data_get (MAX_NAME_COMPONENTS, MAX_NAME_COMPONENTS) data of
        None \<Rightarrow> None
      | Some lite \<Rightarrow> Some (bindE lite (\<lambda>lite. throwC (ndn_Tlv0_2WireFormat_encodeData 1500 lite))))"

definition Tlv_decodeData :: "bytes \<Rightarrow> data \<Rightarrow> ((exn + nat \<times> nat) \<times> data) option" where
  "Tlv_decodeData input data =
     Option.bind (ndn_Tlv0_2WireFormat_decodeData (MAX_NAME_COMPONENTS, MAX_NAME_COMPONENTS) ndn_Data_initialize input)
       (case_sum (\<lambda>e. Some (Inl (RuntimeError (ndn_getErrorString e)), data))
         (\<lambda>((v, b, e), _). map_option (\<lambda>lite.
            case Data_set lite data of
              (None, data) \<Rightarrow> (Inr (unat b, unat e), data)
            | (Some exn, data) \<Rightarrow> (Inl exn, data)) (resolve_data input v)))"

text \<open>
  \<^verbatim>\<open>wireEncode\<close> with the format object \<^verbatim>\<open>wireFormat\<close>, whose \<^verbatim>\<open>encodeData\<close> is \<^verbatim>\<open>encode wireFormat\<close>; \<^verbatim>\<open>defaultFormat\<close> is
  the default format object.
\<close>

definition Data_wireEncode ::
  "(nat \<Rightarrow> data \<Rightarrow> (bytes \<times> nat \<times> nat) result option) \<Rightarrow> nat \<Rightarrow> nat \<Rightarrow> data \<Rightarrow>
   ((bytes \<times> nat \<times> nat) result \<times> data) option" where
  "Data_wireEncode encode defaultFormat wireFormat self =
     (let (encoding, self) = Data_getDefaultWireEncoding self in
      if encoding \<noteq> None \<and> dt_defaultWireEncodingFormat self = Some wireFormat
      then (let (encoding, self) = Data_getDefaultWireEncoding self in Some (Inr (the encoding), self))
      else (case encode wireFormat self of
              None \<Rightarrow> None
            | Some (Inl e) \<Rightarrow> Some (Inl e, self)
            | Some (Inr wireEncoding) \<Rightarrow>
                Some (Inr wireEncoding,
                      if wireFormat = defaultFormat
                      then Data_setDefaultWireEncoding (Some wireEncoding) (Some defaultFormat) self else self)))"

definition Data_wireDecode ::
  "(nat \<Rightarrow> bytes \<Rightarrow> data \<Rightarrow> ((exn + nat \<times> nat) \<times> data) option) \<Rightarrow> nat \<Rightarrow> nat \<Rightarrow> bytes \<Rightarrow> data \<Rightarrow>
   (exn option \<times> data) option" where
  "Data_wireDecode decode defaultFormat wireFormat input self =
     (case decode wireFormat input self of
        None \<Rightarrow> None
      | Some (Inl e, self) \<Rightarrow> Some (Some e, self)
      | Some (Inr (b, e), self) \<Rightarrow>
          Some (None, if wireFormat = defaultFormat
                      then Data_setDefaultWireEncoding (Some (input, b, e)) (Some defaultFormat) self
                      else Data_setDefaultWireEncoding None None self))"

text \<open>
  \<^verbatim>\<open>getFullName\<close>: \<^verbatim>\<open>sha256\<close> is the digest function of the crypto library, \<^verbatim>\<open>encode\<close> and \<^verbatim>\<open>defaultFormat\<close> as above.
\<close>

definition Data_getFullName ::
  "(bytes \<Rightarrow> bytes) \<Rightarrow> (nat \<Rightarrow> data \<Rightarrow> (bytes \<times> nat \<times> nat) result option) \<Rightarrow> nat \<Rightarrow> nat \<Rightarrow> data \<Rightarrow>
   (name result \<times> data) option" where
  "Data_getFullName sha256 encode defaultFormat wireFormat self =
     (let (encoding, self) = Data_getDefaultWireEncoding self in
      if encoding \<noteq> None \<and> Name_size (dt_defaultFullName self) > 0 \<and> dt_defaultWireEncodingFormat self = Some wireFormat
      then Some (Inr (dt_defaultFullName self), self)
      else Option.bind (Data_wireEncode encode defaultFormat wireFormat self) (\<lambda>(wire, self).
        let fullName = bindE wire (\<lambda>(bs, _, _).
              Name_appendImplicitSha256Digest (Some (sha256 bs)) (cc_target (dt_name self)))
        in Some (fullName,
             if wireFormat = defaultFormat
             then case_sum (\<lambda>_. self) (\<lambda>fullName. self\<lparr>dt_defaultFullName := fullName\<rparr>) fullName else self)))"

section \<open>The cached encoding\<close>

lemmas data_defs = Data_getChangeCount_def Data_getDefaultWireEncoding_def Data_setDefaultWireEncoding_def

text \<open>Asking for the count changes only what the counters have seen.\<close>

lemma Data_get_eqI:
  assumes "map_option (\<lambda>s m lite. Signature_get m s lite) (sp_target (dt_signature d)) =
           map_option (\<lambda>s m lite. Signature_get m s lite) (sp_target (dt_signature d'))"
    and "cc_target (dt_name d) = cc_target (dt_name d')" "cc_target (dt_metaInfo d) = cc_target (dt_metaInfo d')"
    and "dt_content d = dt_content d'"
  shows "Data_get m d = Data_get m d'"
  using assms
  by (cases "sp_target (dt_signature d)"; cases "sp_target (dt_signature d')") (auto simp: Data_get_def fun_eq_iff)

interpretation data_count: counted Data_getChangeCount "\<lambda>d m. Data_get m d"
proof
  fix s
  show "Data_getChangeCount (snd (Data_getChangeCount s)) = Data_getChangeCount s"
    by (simp add: Data_getChangeCount_def Let_def case_prod_beta signature_count.shared_again checkChanged_twice)
  show "(\<lambda>m. Data_get m (snd (Data_getChangeCount s))) = (\<lambda>m. Data_get m s)"
  proof
    fix m
    show "Data_get m (snd (Data_getChangeCount s)) = Data_get m s"
      by (rule Data_get_eqI)
        (simp_all add: Data_getChangeCount_def Let_def case_prod_beta signature_count.shared_content)
  qed
qed

lemma Data_get_cached [simp]:
  "Data_get m (self\<lparr>dt_defaultWireEncoding := e, dt_defaultWireEncodingFormat := f\<rparr>) = Data_get m self"
  "Data_get m (self\<lparr>dt_getDefaultWireEncodingChangeCount := c\<rparr>) = Data_get m self"
  "Data_get m (self\<lparr>dt_defaultFullName := n\<rparr>) = Data_get m self"
  by (simp_all add: Data_get_def split: option.split)

lemma Data_count_cached [simp]:
  "Data_getChangeCount (self\<lparr>dt_defaultWireEncoding := e, dt_defaultWireEncodingFormat := f\<rparr>) =
   map_prod id (\<lambda>d. d\<lparr>dt_defaultWireEncoding := e, dt_defaultWireEncodingFormat := f\<rparr>) (Data_getChangeCount self)"
  "Data_getChangeCount (self\<lparr>dt_getDefaultWireEncodingChangeCount := c\<rparr>) =
   map_prod id (\<lambda>d. d\<lparr>dt_getDefaultWireEncodingChangeCount := c\<rparr>) (Data_getChangeCount self)"
  by (simp_all add: Data_getChangeCount_def Let_def case_prod_beta)

lemma Data_count_fields [simp]:
  "dt_defaultWireEncoding (snd (Data_getChangeCount self)) = dt_defaultWireEncoding self"
  "dt_defaultWireEncodingFormat (snd (Data_getChangeCount self)) = dt_defaultWireEncodingFormat self"
  "dt_getDefaultWireEncodingChangeCount (snd (Data_getChangeCount self)) = dt_getDefaultWireEncodingChangeCount self"
  "dt_defaultFullName (snd (Data_getChangeCount self)) = dt_defaultFullName self"
  "dt_changeCount (snd (Data_getChangeCount self)) = fst (Data_getChangeCount self)"
  "dt_content (snd (Data_getChangeCount self)) = dt_content self"
  "cc_target (dt_name (snd (Data_getChangeCount self))) = cc_target (dt_name self)"
  "cc_target (dt_metaInfo (snd (Data_getChangeCount self))) = cc_target (dt_metaInfo self)"
  by (simp_all add: Data_getChangeCount_def Let_def case_prod_beta)

lemma Data_get_count [simp]: "Data_get m (snd (Data_getChangeCount self)) = Data_get m self"
  using data_count.keeps by (rule fun_cong)

text \<open>The count is the own count, one more when a child has changed.\<close>

definition Data_pending :: "data \<Rightarrow> bool" where
  "Data_pending d \<longleftrightarrow> fst (SharedPointerChangeCounter_checkChanged Signature_getChangeCount (dt_signature d)) \<or>
     cc_changeCount (dt_name d) \<noteq> n_changeCount (cc_target (dt_name d)) \<or>
     cc_changeCount (dt_metaInfo d) \<noteq> mi_changeCount (cc_target (dt_metaInfo d))"

lemma Data_count: "fst (Data_getChangeCount d) = (if Data_pending d then dt_changeCount d + 1 else dt_changeCount d)"
  by (auto simp: Data_getChangeCount_def Let_def case_prod_beta Data_pending_def ChangeCounter_checkChanged_def)

definition tlv_data_encoding :: "data \<Rightarrow> signed_blob" where
  "tlv_data_encoding d = (case Tlv_encodeData d of Some (Inr w) \<Rightarrow> Some w | _ \<Rightarrow> None)"

lemma tlv_data_encoding_cong: "(\<And>m. Data_get m d = Data_get m d') \<Longrightarrow> tlv_data_encoding d = tlv_data_encoding d'"
  by (simp add: tlv_data_encoding_def Tlv_encodeData_def)

interpretation data_cache: family_cache
  "\<lambda>d. fst (Data_getChangeCount d)" dt_getDefaultWireEncodingChangeCount dt_defaultWireEncoding tlv_data_encoding
  Data_getDefaultWireEncoding "\<lambda>b. Data_setDefaultWireEncoding b (Some 0)" dt_changeCount
proof
  fix s b
  let ?get = "snd (Data_getDefaultWireEncoding s)" and ?set = "Data_setDefaultWireEncoding b (Some 0) s"
  note simps = data_defs(2,3) Let_def case_prod_beta data_count.again
  show "fst (Data_getDefaultWireEncoding s) =
      (if dt_getDefaultWireEncodingChangeCount s \<noteq> fst (Data_getChangeCount s) then None else dt_defaultWireEncoding s)"
    by (simp add: simps)
  show "dt_defaultWireEncoding ?get = fst (Data_getDefaultWireEncoding s)" by (simp add: simps)
  show "dt_getDefaultWireEncodingChangeCount ?get = fst (Data_getChangeCount s)" by (simp add: simps)
  show "fst (Data_getChangeCount ?get) = fst (Data_getChangeCount s)" by (simp add: simps)
  show "tlv_data_encoding ?get = tlv_data_encoding s" by (rule tlv_data_encoding_cong) (simp add: simps)
  show "dt_defaultWireEncoding ?set = b" by (simp add: simps)
  show "dt_getDefaultWireEncodingChangeCount ?set = fst (Data_getChangeCount s)" by (simp add: simps)
  show "fst (Data_getChangeCount ?set) = fst (Data_getChangeCount s)" by (simp add: simps)
  show "tlv_data_encoding ?set = tlv_data_encoding s" by (rule tlv_data_encoding_cong) (simp add: simps)
  show "dt_changeCount s \<le> fst (Data_getChangeCount s)" if "dt_changeCount s \<noteq> -1"
    using that by (simp add: Data_count word_le_nat_alt unat_inc)
  show "dt_changeCount ?get = fst (Data_getChangeCount s)" by (simp add: simps)
  show "dt_changeCount ?set = fst (Data_getChangeCount s)" by (simp add: simps)
qed

section \<open>Sequences of calls\<close>

datatype data_op =
    SetNameOp name
  | SetMetaInfoOp meta_info
  | SetContentOp blob
  | SetSignatureOp signature
  | AppendNameOp component
  | SetFreshnessOp real
  | SetSignatureBitsOp blob
  | WireEncodeOp nat

fun data_op_step ::
  "(nat \<Rightarrow> data \<Rightarrow> (bytes \<times> nat \<times> nat) result option) \<Rightarrow> data_op \<Rightarrow> data \<Rightarrow> data" where
  "data_op_step enc (SetNameOp n) d = Data_setName n d"
| "data_op_step enc (SetMetaInfoOp mi) d = Data_setMetaInfo mi d"
| "data_op_step enc (SetContentOp b) d = Data_setContent b d"
| "data_op_step enc (SetSignatureOp s) d = Data_setSignature s d"
| "data_op_step enc (AppendNameOp c) d = Data_getName_apply (Name_append c) d"
| "data_op_step enc (SetFreshnessOp p) d = Data_getMetaInfo_apply (MetaInfo_setFreshnessPeriod p) d"
| "data_op_step enc (SetSignatureBitsOp b) d = Data_getSignature_apply (Signature_setSignature b) d"
| "data_op_step enc (WireEncodeOp f) d = (case Data_wireEncode enc 0 f d of None \<Rightarrow> d | Some (_, d) \<Rightarrow> d)"

text \<open>Counts with room for \<^verbatim>\<open>k\<close> more changes, of the children at least what was seen of them.\<close>

definition seen_ok :: "nat \<Rightarrow> u64 \<Rightarrow> u64 \<Rightarrow> bool" where
  "seen_ok k seen n \<longleftrightarrow> seen \<le> n \<and> unat n + k < 2 ^ 64"

definition signature_seen_ok :: "nat \<Rightarrow> signature shared_counter \<Rightarrow> bool" where
  "signature_seen_ok k c \<longleftrightarrow>
     (\<forall>s. sp_target c = Some s \<longrightarrow> seen_ok k (sp_changeCount c) (fst (Signature_getChangeCount s)))"

definition data_room :: "nat \<Rightarrow> data \<Rightarrow> bool" where
  "data_room k d \<longleftrightarrow>
     unat (dt_changeCount d) + k + 2 < 2 ^ 64 \<and>
     seen_ok k (cc_changeCount (dt_name d)) (n_changeCount (cc_target (dt_name d))) \<and>
     seen_ok k (cc_changeCount (dt_metaInfo d)) (mi_changeCount (cc_target (dt_metaInfo d))) \<and>
     signature_seen_ok k (dt_signature d)"

fun op_room :: "nat \<Rightarrow> data_op \<Rightarrow> bool" where
  "op_room k (SetNameOp n) \<longleftrightarrow> unat (n_changeCount n) + k < 2 ^ 64"
| "op_room k (SetMetaInfoOp mi) \<longleftrightarrow> unat (mi_changeCount mi) + k < 2 ^ 64"
| "op_room k (SetSignatureOp s) \<longleftrightarrow> unat (fst (Signature_getChangeCount s)) + k < 2 ^ 64"
| "op_room k op \<longleftrightarrow> True"

lemma seen_ok_Suc: "seen_ok (Suc k) a b \<Longrightarrow> seen_ok k a b"
  by (simp add: seen_ok_def)

lemma seen_ok_inc: "seen_ok (Suc k) a b \<Longrightarrow> seen_ok k a (b + 1) \<and> a \<noteq> b + 1"
proof -
  assume a: "seen_ok (Suc k) a b"
  then have "unat (b + 1) = unat b + 1" by (intro unat_inc u64_not_max) (simp add: seen_ok_def)
  with a show ?thesis by (auto simp: seen_ok_def word_le_nat_alt)
qed

lemma data_room_Suc: "data_room (Suc k) d \<Longrightarrow> data_room k d"
  using seen_ok_Suc by (auto simp: data_room_def signature_seen_ok_def)

lemma setSignature_count:
  "fst (Signature_getChangeCount (Signature_setSignature b s)) = fst (Signature_getChangeCount s) + 1"
  by (cases s) (auto simp: KeySignature_getChangeCount_def HmacSignature_getChangeCount_def Let_def case_prod_beta)

lemma seen_ok_refl: "unat c + k < 2 ^ 64 \<Longrightarrow> seen_ok k c c"
  by (simp add: seen_ok_def)

lemma seen_ok_poll:
  "seen_ok (Suc k) (cc_changeCount c) (g (cc_target c)) \<Longrightarrow>
   seen_ok k (cc_changeCount (snd (ChangeCounter_checkChanged g c))) (g (cc_target c))"
  by (auto simp: ChangeCounter_checkChanged_def Let_def seen_ok_def)

text \<open>Asking for the count.\<close>

lemma Data_getChangeCount_room:
  assumes "data_room (Suc k) d"
  shows "data_room k (snd (Data_getChangeCount d))"
proof -
  have inc: "unat (dt_changeCount d + 1) = unat (dt_changeCount d) + 1"
    using assms by (intro unat_inc u64_not_max) (simp add: data_room_def)
  have "signature_seen_ok k (snd (SharedPointerChangeCounter_checkChanged Signature_getChangeCount (dt_signature d)))"
    using assms seen_ok_Suc
    by (auto simp: data_room_def signature_seen_ok_def SharedPointerChangeCounter_checkChanged_def Let_def
        signature_count.again seen_ok_def split: option.splits if_splits)
  then show ?thesis
    using assms inc by (simp add: data_room_def Data_getChangeCount_def Let_def case_prod_beta seen_ok_poll)
qed

lemma data_room_cached [simp]:
  "data_room k (d\<lparr>dt_defaultWireEncoding := e, dt_defaultWireEncodingFormat := f\<rparr>) = data_room k d"
  "data_room k (d\<lparr>dt_getDefaultWireEncodingChangeCount := c\<rparr>) = data_room k d"
  by (simp_all add: data_room_def)

text \<open>After the count has been asked for, asking again changes nothing.\<close>

definition settled :: "data \<Rightarrow> bool" where
  "settled d \<longleftrightarrow> Data_getChangeCount d = (dt_changeCount d, d)"

lemma settled_count: "settled (snd (Data_getChangeCount d))"
  unfolding settled_def data_count.again by (simp add: prod_eq_iff)

lemma settled_get: "settled (snd (Data_getDefaultWireEncoding d))"
proof -
  have "settled (d\<lparr>dt_defaultWireEncoding := e, dt_defaultWireEncodingFormat := f\<rparr>)"
    "settled (d\<lparr>dt_getDefaultWireEncodingChangeCount := c\<rparr>)" if "settled d" for d e f c
    using that by (simp_all add: settled_def)
  then show ?thesis using settled_count [of d]
    by (simp add: Data_getDefaultWireEncoding_def Let_def case_prod_beta settled_count)
qed

lemma Data_getDefaultWireEncoding_room:
  assumes "data_room (Suc k) d"
  shows "data_room k (snd (Data_getDefaultWireEncoding d))"
  using Data_getChangeCount_room [OF assms]
  by (simp add: Data_getDefaultWireEncoding_def Let_def case_prod_beta data_count.again)

lemma Data_setDefaultWireEncoding_room:
  assumes "data_room k d" and "settled d"
  shows "data_room k (Data_setDefaultWireEncoding e f d)"
  using assms by (simp add: Data_setDefaultWireEncoding_def Let_def case_prod_beta settled_def)

lemma Data_wireEncode_ok:
  assumes ok: "data_cache.ok d" and enc: "enc 0 = Tlv_encodeData"
  shows "map_option fst (Data_wireEncode enc 0 0 d) = Tlv_encodeData d"
    and "Data_wireEncode enc 0 f d = Some (r, d') \<Longrightarrow> data_cache.ok d'"
    and "Data_wireEncode enc 0 f d = Some (r, d') \<Longrightarrow> data_room (Suc k) d \<Longrightarrow> data_room k d'"
proof -
  let ?d = "snd (Data_getDefaultWireEncoding d)"
  have ok': "data_cache.ok ?d" using data_cache.get_ok [OF ok] .
  have same: "tlv_data_encoding ?d = tlv_data_encoding d" by (rule data_cache.get_encoding)
  have enc': "Tlv_encodeData ?d = Tlv_encodeData d"
    by (simp add: Tlv_encodeData_def Data_getDefaultWireEncoding_def Let_def case_prod_beta data_count.again)
  have fresh: "fst (Data_getDefaultWireEncoding d) = None \<or> fst (Data_getDefaultWireEncoding d) = tlv_data_encoding d"
    using data_cache.get_fresh ok by blast
  have val: "Tlv_encodeData d = Some (Inr w)" if "fst (Data_getDefaultWireEncoding d) = Some w" for w
    using fresh that by (auto simp: tlv_data_encoding_def split: option.splits sum.splits)
  have again: "Data_getDefaultWireEncoding ?d = (fst (Data_getDefaultWireEncoding d), ?d)"
    by (simp add: Data_getDefaultWireEncoding_def Let_def case_prod_beta data_count.again)
  have store: "data_cache.ok (Data_setDefaultWireEncoding (Some w) (Some 0) ?d)" if "Tlv_encodeData d = Some (Inr w)" for w
    using that enc' by (intro data_cache.set_ok) (simp add: tlv_data_encoding_def)
  note def = Data_wireEncode_def Let_def case_prod_beta again
  show "map_option fst (Data_wireEncode enc 0 0 d) = Tlv_encodeData d"
    using val enc enc' by (auto simp: def split: option.split sum.split)
  show "data_cache.ok d'" if "Data_wireEncode enc 0 f d = Some (r, d')"
    using that ok' store enc enc' by (auto simp: def split: option.splits sum.splits if_splits)
  show "data_room k d'" if w: "Data_wireEncode enc 0 f d = Some (r, d')" and r: "data_room (Suc k) d"
    using w Data_getDefaultWireEncoding_room [OF r] Data_setDefaultWireEncoding_room [OF _ settled_get]
    by (auto simp: def split: option.splits sum.splits if_splits)
qed

lemma data_op_step_ok:
  assumes ok: "data_cache.ok d" and room: "data_room (Suc k) d" and op: "op_room k a" and enc: "enc 0 = Tlv_encodeData"
  shows "data_cache.ok (data_op_step enc a d) \<and> data_room k (data_op_step enc a d)"
proof -
  have own: "unat (dt_changeCount d) + 2 < 2 ^ 64" "dt_changeCount d \<noteq> -1"
    using room u64_not_max [of "dt_changeCount d"] by (auto simp: data_room_def)
  have inc: "unat (dt_changeCount d + 1) = unat (dt_changeCount d) + 1" by (rule unat_inc [OF own(2)])
  have change: "data_cache.ok d'" if "dt_getDefaultWireEncodingChangeCount d' = dt_getDefaultWireEncodingChangeCount d"
    "dt_changeCount d' = dt_changeCount d + 1" for d'
    by (rule data_cache.own_change_ok [OF ok that own(1)])
  have child: "data_cache.ok d'" if "dt_getDefaultWireEncodingChangeCount d' = dt_getDefaultWireEncodingChangeCount d"
    "dt_changeCount d' = dt_changeCount d" "Data_pending d'" for d'
    using that by (intro data_cache.child_change_ok [OF ok that(1,2) _ own(2)]) (simp add: Data_count)
  have room': "data_room k d" by (rule data_room_Suc [OF room])
  note parts = room [unfolded data_room_def]
  show ?thesis
  proof (cases a)
    case (SetNameOp n)
    then show ?thesis using op room' parts inc change [of "Data_setName n d"]
      by (simp add: Data_setName_def data_room_def ChangeCounter_set_def seen_ok_refl)
  next
    case (SetMetaInfoOp mi)
    then show ?thesis using op room' parts inc change [of "Data_setMetaInfo mi d"]
      by (simp add: Data_setMetaInfo_def data_room_def ChangeCounter_set_def seen_ok_refl)
  next
    case (SetContentOp b)
    then show ?thesis using room' parts inc change [of "Data_setContent b d"]
      by (simp add: Data_setContent_def data_room_def)
  next
    case (SetSignatureOp sg)
    then show ?thesis using op room' parts inc change [of "Data_setSignature sg d"]
      by (simp add: Data_setSignature_def data_room_def signature_seen_ok_def SharedPointerChangeCounter_set_def
          signature_count.again seen_ok_refl)
  next
    case (AppendNameOp c)
    have "n_changeCount (Name_append c n) = n_changeCount n + 1" for n by (simp add: Name_append_def)
    with AppendNameOp show ?thesis
      using room' parts seen_ok_inc [of k "cc_changeCount (dt_name d)"] child [of "Data_getName_apply (Name_append c) d"]
      by (simp add: Data_getName_apply_def data_room_def ChangeCounter_update_def Data_pending_def)
  next
    case (SetFreshnessOp p)
    then show ?thesis
      using room' parts seen_ok_inc [of k "cc_changeCount (dt_metaInfo d)"]
        child [of "Data_getMetaInfo_apply (MetaInfo_setFreshnessPeriod p) d"]
      by (simp add: Data_getMetaInfo_apply_def data_room_def ChangeCounter_update_def Data_pending_def
          MetaInfo_setFreshnessPeriod_def)
  next
    case (SetSignatureBitsOp b)
    show ?thesis
    proof (cases "sp_target (dt_signature d)")
      case None
      then have "Data_getSignature_apply (Signature_setSignature b) d = d"
        by (simp add: Data_getSignature_apply_def)
      with SetSignatureBitsOp ok room' show ?thesis by simp
    next
      case (Some sg)
      have "seen_ok (Suc k) (sp_changeCount (dt_signature d)) (fst (Signature_getChangeCount sg))"
        using parts Some by (simp add: signature_seen_ok_def)
      from seen_ok_inc [OF this] SetSignatureBitsOp Some show ?thesis
        using room' parts child [of "Data_getSignature_apply (Signature_setSignature b) d"]
        by (simp add: Data_getSignature_apply_def data_room_def signature_seen_ok_def Data_pending_def
            SharedPointerChangeCounter_checkChanged_def setSignature_count Let_def)
    qed
  next
    case (WireEncodeOp f)
    then show ?thesis
      using Data_wireEncode_ok(2,3) [OF ok, of enc f] enc ok room room' by (auto split: option.split)
  qed
qed

lemma data_ops_ok:
  assumes "data_cache.ok d" and "data_room (length ops) d" and "\<forall>a \<in> set ops. op_room (length ops) a"
    and "enc 0 = Tlv_encodeData"
  shows "data_cache.ok (fold (data_op_step enc) ops d)"
  using assms(1-3)
proof (induction ops arbitrary: d)
  case (Cons a ops)
  have less: "op_room (length ops) b" if "op_room (Suc (length ops)) b" for b
    using that by (cases b) auto
  have "data_cache.ok (data_op_step enc a d) \<and> data_room (length ops) (data_op_step enc a d)"
    using Cons.prems less by (intro data_op_step_ok assms(4)) auto
  with Cons.IH [of "data_op_step enc a d"] Cons.prems(3) less show ?case by simp
qed simp

lemma Data_new_ok: "data_cache.ok Data_new" and Data_new_room: "k + 2 < 2 ^ 64 \<Longrightarrow> data_room k Data_new"
proof -
  show "data_cache.ok Data_new"
    by (simp add: cache_wf_def Data_new_def Data_of_name_def)
  have "fst (Signature_getChangeCount (Sha256WithRsaSignature KeySignature_new)) = 0"
    by (simp add: KeySignature_getChangeCount_def KeySignature_new_def ChangeCounter_poll_of_def ChangeCounter_poll_def
        KeyLocator_getChangeCount_def KeyLocator_new_def ChangeCounter_of_def ChangeCounter_checkChanged_def Let_def)
  then show "data_room k Data_new" if "k + 2 < 2 ^ 64"
    using that by (simp add: data_room_def Data_new_def Data_of_name_def seen_ok_def ChangeCounter_of_def Name_empty_def
        Name_of_def MetaInfo_new_def signature_seen_ok_def SharedPointerChangeCounter_new_def
        SharedPointerChangeCounter_set_def key_signature_count.again)
qed

text \<open>What was stored last is returned, and what a successful encoding returned is stored.\<close>

lemma get_set_encoding:
  "Data_getDefaultWireEncoding (Data_setDefaultWireEncoding e f d) = (e, Data_setDefaultWireEncoding e f d)"
  by (simp add: Data_getDefaultWireEncoding_def Data_setDefaultWireEncoding_def Let_def case_prod_beta data_count.again)

lemma set_encoding_fields [simp]:
  "dt_defaultWireEncoding (Data_setDefaultWireEncoding e f d) = e"
  "dt_defaultWireEncodingFormat (Data_setDefaultWireEncoding e f d) = f"
  "dt_defaultFullName (Data_setDefaultWireEncoding e f d) = dt_defaultFullName d"
  "dt_content (Data_setDefaultWireEncoding e f d) = dt_content d"
  "cc_target (dt_name (Data_setDefaultWireEncoding e f d)) = cc_target (dt_name d)"
  by (simp_all add: Data_setDefaultWireEncoding_def Let_def case_prod_beta)

lemma wireEncode_stores:
  assumes "Data_wireEncode enc 0 0 d = Some (Inr wire, d')"
  shows "dt_defaultWireEncoding d' = Some wire \<and> dt_defaultWireEncodingFormat d' = Some 0"
proof -
  have again: "Data_getDefaultWireEncoding (snd (Data_getDefaultWireEncoding d)) = Data_getDefaultWireEncoding d"
    by (simp add: Data_getDefaultWireEncoding_def Let_def case_prod_beta data_count.again)
  show ?thesis
    using assms data_cache.get_cached [of d]
    by (auto simp: Data_wireEncode_def Let_def case_prod_beta again split: if_splits option.splits sum.splits)
qed

lemma wireEncode_set_encoding:
  "Data_wireEncode enc 0 0 (Data_setDefaultWireEncoding (Some w) (Some 0) d) =
   Some (Inr w, Data_setDefaultWireEncoding (Some w) (Some 0) d)"
  by (cases w) (simp add: Data_wireEncode_def get_set_encoding)

section \<open>From the C struct and back\<close>

text \<open>The packets that survive the copies: digest components have 32 bytes, the final block ID is generic.\<close>

definition class_comps :: "component list \<Rightarrow> bool" where
  "class_comps cs \<longleftrightarrow> (\<forall>c \<in> set cs. component_wf c \<and> (is_digest c \<longrightarrow> blob_size (c_value c) = 32))"

definition data_class_wf :: "c_data \<Rightarrow> bool" where
  "data_class_wf lite \<longleftrightarrow>
     data_wire_wf (MAX_NAME_COMPONENTS, MAX_NAME_COMPONENTS) lite \<and> class_comps (cd_name lite) \<and>
     class_comps (ckl_keyName (csg_keyLocator (cd_signature lite))) \<and>
     (csg_type (cd_signature lite) = ndn_SignatureType_HmacWithSha256Signature \<longrightarrow>
        csg_validityPeriod (cd_signature lite) = ndn_ValidityPeriod_clear) \<and>
     (\<forall>c. cmi_finalBlockId (cd_metaInfo lite) = Some c \<longrightarrow> (\<exists>v. c = Component_generic (Some v)))"

lemma name_lite_ok:
  assumes "class_comps cs" and "length cs \<le> m"
  shows "\<exists>l. Name_get_lite \<lparr>cn_components = [], cn_maxComponents = m\<rparr>
           (Name_set_lite \<lparr>cn_components = cs, cn_maxComponents = k\<rparr> n) = Inr l \<and> cn_components l = cs"
proof -
  have "n_components (Name_set_lite \<lparr>cn_components = cs, cn_maxComponents = k\<rparr> n) = cs"
    by (simp add: Name_set_lite_def n_components_fold_append Name_clear_def)
  then show ?thesis
    using Name_lite_roundtrip [of "Name_set_lite \<lparr>cn_components = cs, cn_maxComponents = k\<rparr> n"
        "\<lparr>cn_components = [], cn_maxComponents = m\<rparr>"] assms
    by (auto simp: class_comps_def Name_size_def)
qed

lemma key_locator_lite_ok:
  assumes "key_locator_wire_wf m kl" and "class_comps (ckl_keyName kl)"
  shows "KeyLocator_get_lite m (KeyLocator_set_lite kl self) = Inr kl"
proof -
  consider "ckl_type kl = ndn_KeyLocatorType_KEYNAME" "ckl_keyData kl = None" "length (ckl_keyName kl) \<le> m"
    | "ckl_type kl \<noteq> ndn_KeyLocatorType_KEYNAME" "ckl_keyName kl = []"
    using assms(1) by (auto simp: key_locator_wire_wf_def ndn_KeyLocator_initialize_def ndn_KeyLocatorType_KEYNAME_def
        ndn_KeyLocatorType_KEY_LOCATOR_DIGEST_def)
  then show ?thesis
  proof cases
    case 1
    obtain l where "Name_get_lite \<lparr>cn_components = [], cn_maxComponents = m\<rparr>
        (Name_set_lite \<lparr>cn_components = ckl_keyName kl, cn_maxComponents = length (ckl_keyName kl)\<rparr>
          (cc_target (kl_keyName self))) = Inr l" "cn_components l = ckl_keyName kl"
      using name_lite_ok [OF assms(2) 1(3)] by blast
    then show ?thesis using 1
      by (simp add: KeyLocator_get_lite_def KeyLocator_set_lite_def Let_def KeyLocator_setType_def
          KeyLocator_setKeyData_def ChangeCounter_update_def)
  next
    case 2
    have "Name_get_lite \<lparr>cn_components = [], cn_maxComponents = m\<rparr> (Name_clear (cc_target (kl_keyName self))) =
        Inr \<lparr>cn_components = [], cn_maxComponents = m\<rparr>"
      by (simp add: Name_get_lite_def Name_clear_def)
    then show ?thesis using 2
      by (simp add: KeyLocator_get_lite_def KeyLocator_set_lite_def Let_def KeyLocator_setType_def
          KeyLocator_setKeyData_def ChangeCounter_update_def)
  qed
qed

lemma signature_lite_ok:
  assumes "signature_wire_wf m sg" and "class_comps (ckl_keyName (csg_keyLocator sg))"
    and "csg_type sg = ndn_SignatureType_HmacWithSha256Signature \<longrightarrow> csg_validityPeriod sg = ndn_ValidityPeriod_clear"
  shows "\<exists>s s'. new_signature (csg_type sg) = Some s \<and> Signature_set sg s = Inr s' \<and>
           Signature_get m s' ndn_Signature_initialize = Inr sg"
proof -
  consider "csg_type sg = ndn_SignatureType_Generic" "csg_keyLocator sg = ndn_KeyLocator_initialize"
      "csg_validityPeriod sg = ndn_ValidityPeriod_clear"
    | "csg_type sg = ndn_SignatureType_DigestSha256Signature" "csg_signatureInfoEncoding sg = None"
      "csg_genericTypeCode sg = -1" "csg_keyLocator sg = ndn_KeyLocator_initialize"
      "csg_validityPeriod sg = ndn_ValidityPeriod_clear"
    | "key_signature_kind (csg_type sg)" "csg_signatureInfoEncoding sg = None" "csg_genericTypeCode sg = -1"
      "key_locator_wire_wf m (csg_keyLocator sg)"
    using assms(1) by (auto simp: signature_wire_wf_def split: if_splits)
  then show ?thesis
  proof cases
    case 3
    note kl = key_locator_lite_ok [OF 3(4) assms(2)]
    consider "csg_type sg = ndn_SignatureType_Sha256WithRsaSignature" | "csg_type sg = ndn_SignatureType_Sha256WithEcdsaSignature"
      | "csg_type sg = ndn_SignatureType_HmacWithSha256Signature" "csg_validityPeriod sg = ndn_ValidityPeriod_clear"
      using 3(1) assms(3) by (auto simp: key_signature_kind_def)
    then show ?thesis
      by cases (use 3(2,3) kl in \<open>cases sg, simp add: new_signature_def signature_kinds
        ChangeCounter_update_def ValidityPeriod_set_def ndn_Signature_initialize_def\<close>)+
  qed (cases sg, simp add: new_signature_def signature_kinds ndn_Signature_initialize_def
        GenericSignature_setSignatureInfoEncoding_def)+
qed

text \<open>\<^verbatim>\<open>set\<close> followed by \<^verbatim>\<open>get\<close> is the identity on these packets.\<close>

lemma Data_set_get:
  assumes wf: "data_class_wf lite"
  shows "\<exists>d'. Data_set lite d = (None, d') \<and> Data_get (MAX_NAME_COMPONENTS, MAX_NAME_COMPONENTS) d' = Some (Inr lite)"
proof -
  note w = wf [unfolded data_class_wf_def data_wire_wf_def]
  obtain s s' where s: "new_signature (csg_type (cd_signature lite)) = Some s" "Signature_set (cd_signature lite) s = Inr s'"
    "Signature_get MAX_NAME_COMPONENTS s' ndn_Signature_initialize = Inr (cd_signature lite)"
    using signature_lite_ok [of MAX_NAME_COMPONENTS "cd_signature lite"] w by auto
  obtain l where l: "Name_get_lite \<lparr>cn_components = [], cn_maxComponents = MAX_NAME_COMPONENTS\<rparr>
      (Name_set_lite \<lparr>cn_components = cd_name lite, cn_maxComponents = length (cd_name lite)\<rparr> (cc_target (dt_name d))) = Inr l"
    "cn_components l = cd_name lite"
  proof -
    have "class_comps (cd_name lite)" "length (cd_name lite) \<le> MAX_NAME_COMPONENTS" using w by auto
    from name_lite_ok [OF this] that show ?thesis by blast
  qed
  have "MetaInfo_get (MetaInfo_set (cd_metaInfo lite) mi) = cd_metaInfo lite" for mi
    using w by (cases "cd_metaInfo lite"; cases "cmi_finalBlockId (cd_metaInfo lite)")
      (auto simp: MetaInfo_get_def MetaInfo_set_def MetaInfo_setType_def MetaInfo_setFreshnessPeriod_def
        MetaInfo_setFinalBlockId_def Let_def Component_generic_def)
  then show ?thesis using s l
    by (simp add: Data_set_def Let_def Data_get_def Data_getSignature_apply_def Data_getName_apply_def
        Data_getMetaInfo_apply_def Data_setContent_def SharedPointerChangeCounter_set_def ChangeCounter_update_def)
qed

lemma Data_class_roundtrip:
  assumes get: "Data_get (MAX_NAME_COMPONENTS, MAX_NAME_COMPONENTS) d = Some (Inr lite)" and wf: "data_class_wf lite"
    and small: "length (tlv ndn_Tlv_Data (data_value lite)) + length post < 2 ^ 63"
  shows "\<exists>wire b e d'. Tlv_encodeData d = Some (Inr (wire, b, e)) \<and> drop b (take e wire) = data_signed_bytes lite \<and>
     Tlv_decodeData (wire @ post) t = Some (Inr (b, e), d') \<and>
     Data_get (MAX_NAME_COMPONENTS, MAX_NAME_COMPONENTS) d' = Some (Inr lite)"
proof -
  have "cmi_otherTypeCode (cd_metaInfo (ndn_Data_initialize :: data_slices)) = -1"
    by (simp add: ndn_Data_initialize_def ndn_MetaInfo_initialize_def)
  with small wf data_wire_roundtrip [of "(MAX_NAME_COMPONENTS, MAX_NAME_COMPONENTS)" lite ndn_Data_initialize post 1500]
  obtain wire b e v where w: "ndn_Tlv0_2WireFormat_encodeData 1500 lite = Inr (wire, b, e)"
    "drop b (take e wire) = data_signed_bytes lite"
    "ndn_Tlv0_2WireFormat_decodeData (MAX_NAME_COMPONENTS, MAX_NAME_COMPONENTS) ndn_Data_initialize (wire @ post) =
       Some (Inr ((v, of_nat b, of_nat e), of_nat (length wire)))"
    "resolve_data (wire @ post) v = Some lite"
    by (auto simp: data_class_wf_def)
  obtain d' where d': "Data_set lite t = (None, d')"
    "Data_get (MAX_NAME_COMPONENTS, MAX_NAME_COMPONENTS) d' = Some (Inr lite)"
    using Data_set_get [OF wf] by blast
  have "data_wire_wf (MAX_NAME_COMPONENTS, MAX_NAME_COMPONENTS) lite" using wf by (simp add: data_class_wf_def)
  from encodeData [OF this, of 1500] small w(1) have "b \<le> e \<and> e < 2 ^ 63"
    by (auto simp: tlv_def [of ndn_Tlv_Data] data_value_def)
  then have "unat (of_nat b :: size_t) = b" "unat (of_nat e :: size_t) = e" by (simp_all add: unsigned_of_nat take_bit_nat_eq_self)
  with w d' get show ?thesis by (simp add: Tlv_encodeData_def Tlv_decodeData_def)
qed

section \<open>Properties\<close>


text \<open>An object for the example packet.\<close>

lemma example_data_class_wf: "data_class_wf example_data"
proof -
  have "data_wire_wf (MAX_NAME_COMPONENTS, MAX_NAME_COMPONENTS) example_data"
    using example_data_wf by (auto simp: data_wire_wf_def MAX_NAME_COMPONENTS_def signature_wire_wf_def
        key_locator_wire_wf_def example_data_def signature_kinds ndn_KeyLocatorType_KEYNAME_def
        ndn_KeyLocatorType_KEY_LOCATOR_DIGEST_def)
  then show ?thesis
    by (simp add: data_class_wf_def class_comps_def component_wf_def is_digest_def example_data_def
        Component_generic_def signature_kinds)
qed

lemma encoded_example:
  "\<exists>d wire d'. Data_wireEncode (\<lambda>_. Tlv_encodeData) 0 0 d = Some (Inr wire, d')"
proof -
  obtain d where d: "Data_get (MAX_NAME_COMPONENTS, MAX_NAME_COMPONENTS) d = Some (Inr example_data)"
    using Data_set_get [OF example_data_class_wf] by blast
  have "length (tlv ndn_Tlv_Data (data_value example_data)) + length ([] :: bytes) < 2 ^ 63"
    using example_data_length by simp
  from Data_class_roundtrip [OF d example_data_class_wf this] obtain wire where
    w: "Tlv_encodeData d = Some (Inr wire)" by blast
  have "Tlv_encodeData (snd (Data_getDefaultWireEncoding d)) = Tlv_encodeData d"
    by (simp add: Tlv_encodeData_def Data_getDefaultWireEncoding_def Let_def case_prod_beta data_count.again)
  with w show ?thesis
    by (auto simp: Data_wireEncode_def Let_def case_prod_beta intro!: exI [of _ d]; metis surj_pair)
qed




text \<open>
  C13.  The assignment operator copies the cached encoding of the source without asking whether it still holds.
  When the content of an encoded Data object is changed and the object is then assigned, encoding the
  target returns the encoding of the old content.
\<close>

theorem data_assign_copies_stale_encoding:
  assumes "Data_wireEncode enc 0 0 d = Some (Inr wire, d')"
  shows "map_option fst (Data_wireEncode enc 0 0 (Data_assign (Data_setContent content d') target)) = Some (Inr wire) \<and>
         dt_content (Data_assign (Data_setContent content d') target) = content"
  using wireEncode_stores [OF assms]
  by (simp add: Data_assign_def Let_def Data_setContent_def wireEncode_set_encoding)

theorem data_assign_copies_stale_encoding_witness:
  "\<exists>d wire d'. Data_wireEncode (\<lambda>_. Tlv_encodeData) 0 0 d = Some (Inr wire, d') \<and>
     map_option fst (Data_wireEncode (\<lambda>_. Tlv_encodeData) 0 0 (Data_assign (Data_setContent (Some [1]) d') Data_new)) =
       Some (Inr wire)"
  using encoded_example data_assign_copies_stale_encoding by meson

text \<open>
  Neither assignment nor decoding clears the cached full name: once the full name was asked for, the object
  keeps it when another encoded Data packet is assigned to it, whatever the name of that packet.
\<close>

theorem data_assign_keeps_full_name:
  assumes "dt_defaultWireEncoding other = Some wire" and "dt_defaultWireEncodingFormat other = Some f"
    and "Name_size (dt_defaultFullName d) > 0"
  shows "map_option fst (Data_getFullName sha256 enc f f (Data_assign other d)) = Some (Inr (dt_defaultFullName d)) \<and>
         cc_target (dt_name (Data_assign other d)) = cc_target (dt_name other)"
  using assms
  by (cases wire) (simp add: Data_getFullName_def Data_assign_def Let_def get_set_encoding Data_setContent_def
      Data_setMetaInfo_def Data_setName_def ChangeCounter_set_def)

theorem data_assign_keeps_full_name_witness:
  "\<exists>other d sha256. cc_target (dt_name other) \<noteq> cc_target (dt_name d) \<and>
     map_option fst (Data_getFullName sha256 (\<lambda>_. Tlv_encodeData) 0 0 (Data_assign other d)) =
       Some (Inr (Name_of [Component_generic (Some [97])]))"
proof -
  let ?other = "Data_setDefaultWireEncoding (Some ([], 0, 0)) (Some 0) (Data_of_name (Name_of [Component_generic (Some [98])]))"
  let ?d = "Data_new\<lparr>dt_defaultFullName := Name_of [Component_generic (Some [97])]\<rparr>"
  have "Name_size (dt_defaultFullName ?d) > 0" by (simp add: Name_size_def)
  from data_assign_keeps_full_name [of ?other "([], 0, 0)" 0 ?d "\<lambda>_. []" "\<lambda>_. Tlv_encodeData", OF _ _ this]
  have "map_option fst (Data_getFullName (\<lambda>_. []) (\<lambda>_. Tlv_encodeData) 0 0 (Data_assign ?other ?d)) =
      Some (Inr (Name_of [Component_generic (Some [97])]))" by simp
  moreover have "cc_target (dt_name ?other) \<noteq> cc_target (dt_name ?d)"
    by (simp add: Data_of_name_def Data_new_def ChangeCounter_of_def Name_of_def Name_empty_def)
  ultimately show ?thesis by blast
qed

end
