(* ===== verification/ExcludeFilter.thy ===== *)
theory ExcludeFilter
  imports TlvName
begin

text \<open>
  \<^verbatim>\<open>Exclude\<close> (\<^verbatim>\<open>exclude.hpp\<close>, \<^verbatim>\<open>exclude.cpp\<close>): the list of excluded components and ANY ranges, its match
  loop, and the specification of the intervals it should exclude.
\<close>

section \<open>The exclude list\<close>

datatype ndn_ExcludeType = ndn_Exclude_COMPONENT | ndn_Exclude_ANY

text \<open>The component of an ANY entry is the default component; the code does not use it as a value.\<close>

record exclude_entry =
  e_type :: ndn_ExcludeType
  e_component :: component

record exclude =
  ex_entries :: "exclude_entry list"
  ex_changeCount :: u64

definition Exclude_new :: exclude where
  "Exclude_new = \<lparr>ex_entries = [], ex_changeCount = 0\<rparr>"

definition Entry_any :: exclude_entry where
  "Entry_any = \<lparr>e_type = ndn_Exclude_ANY, e_component = Component_default\<rparr>"

definition Entry_component :: "component \<Rightarrow> exclude_entry" where
  "Entry_component c = \<lparr>e_type = ndn_Exclude_COMPONENT, e_component = c\<rparr>"

definition Exclude_appendAny :: "exclude \<Rightarrow> exclude" where
  "Exclude_appendAny self =
     self\<lparr>ex_entries := ex_entries self @ [Entry_any], ex_changeCount := ex_changeCount self + 1\<rparr>"

definition Exclude_appendComponent :: "component \<Rightarrow> exclude \<Rightarrow> exclude" where
  "Exclude_appendComponent c self =
     self\<lparr>ex_entries := ex_entries self @ [Entry_component c], ex_changeCount := ex_changeCount self + 1\<rparr>"

definition Exclude_clear :: "exclude \<Rightarrow> exclude" where
  "Exclude_clear self = self\<lparr>ex_entries := [], ex_changeCount := ex_changeCount self + 1\<rparr>"

text \<open>
  The index of the upper bound of the ANY at \<^verbatim>\<open>i\<close>: the next COMPONENT entry, or the size of the list.
\<close>

definition iUpperBound :: "exclude_entry list \<Rightarrow> nat \<Rightarrow> nat" where
  "iUpperBound es i =
     i + 1 + length (takeWhile (\<lambda>e. e_type e \<noteq> ndn_Exclude_COMPONENT) (drop (i + 1) es))"

lemma iUpperBound_greater: "i < iUpperBound es i"
  by (simp add: iUpperBound_def)

text \<open>The loop of \<^verbatim>\<open>Exclude::matches\<close> from index \<^verbatim>\<open>i\<close>.\<close>

function matches_from :: "exclude_entry list \<Rightarrow> component \<Rightarrow> nat \<Rightarrow> bool" where
  "matches_from es c i =
     (if i \<ge> length es then False
      else if e_type (es ! i) = ndn_Exclude_ANY
      then let lowerBound = (if i > 0 then Some (es ! (i - 1)) else None);
               iUpper = iUpperBound es i;
               upperBound = (if iUpper < length es then Some (es ! iUpper) else None)
           in case upperBound of
                Some u \<Rightarrow>
                  (case lowerBound of
                     Some l \<Rightarrow>
                       if Component_compare c (e_component l) > 0 \<and> Component_compare c (e_component u) < 0
                       then True else matches_from es c iUpper
                   | None \<Rightarrow>
                       if Component_compare c (e_component u) < 0 then True else matches_from es c iUpper)
              | None \<Rightarrow>
                  (case lowerBound of
                     Some l \<Rightarrow>
                       if Component_compare c (e_component l) > 0 then True else matches_from es c (i + 1)
                   | None \<Rightarrow> True)
      else if Component_equals c (e_component (es ! i)) then True
      else matches_from es c (i + 1))"
  by pat_completeness auto
termination
  by (relation "measure (\<lambda>(es, c, i). length es - i)") (auto simp: iUpperBound_def split: if_splits)

declare matches_from.simps [simp del]

definition Exclude_matches :: "component \<Rightarrow> exclude \<Rightarrow> bool" where
  "Exclude_matches c self = matches_from (ex_entries self) c 0"

fun exclude_toUri_loop :: "bool \<Rightarrow> exclude_entry list \<Rightarrow> ostringstream \<Rightarrow> ostringstream" where
  "exclude_toUri_loop first [] os = os"
| "exclude_toUri_loop first (e # es) os =
     (let os = (if first then os else put_str (str '','') os);
          os = (if e_type e = ndn_Exclude_ANY then put_str (str ''*'') os
                else Component_toEscapedString_os (e_component e) os)
      in exclude_toUri_loop False es os)"

definition Exclude_toUri :: "exclude \<Rightarrow> bytes" where
  "Exclude_toUri self =
     (if ex_entries self = [] then [] else os_str (exclude_toUri_loop True (ex_entries self) new_ostringstream))"

section \<open>The C struct\<close>

text \<open>\<^verbatim>\<open>ndn_Exclude\<close> has a bounded array of entries; \<^verbatim>\<open>Exclude::get\<close> and \<^verbatim>\<open>set\<close> copy to it and back.\<close>

record ndn_Exclude =
  cex_entries :: "exclude_entry list"
  cex_maxEntries :: nat

definition ndn_Exclude_append :: "exclude_entry \<Rightarrow> ndn_Exclude \<Rightarrow> ndn_error + ndn_Exclude" where
  "ndn_Exclude_append e self =
     (if length (cex_entries self) \<ge> cex_maxEntries self
      then Inl NDN_ERROR_cannot_add_an_entry_past_the_maximum_number_of_entries_allowed_in_the_exclude
      else Inr (self\<lparr>cex_entries := cex_entries self @ [e]\<rparr>))"

fun Exclude_get_loop :: "exclude_entry list \<Rightarrow> ndn_Exclude \<Rightarrow> ndn_Exclude result" where
  "Exclude_get_loop [] lite = Inr lite"
| "Exclude_get_loop (e # es) lite =
     bindE (throwC (ndn_Exclude_append
              (if e_type e = ndn_Exclude_COMPONENT
               then Entry_component (Component_lite (e_component e)) else Entry_any) lite))
       (Exclude_get_loop es)"

definition Exclude_get_lite :: "ndn_Exclude \<Rightarrow> exclude \<Rightarrow> ndn_Exclude result" where
  "Exclude_get_lite lite self = Exclude_get_loop (ex_entries self) (lite\<lparr>cex_entries := []\<rparr>)"

definition Exclude_set_lite :: "ndn_Exclude \<Rightarrow> exclude \<Rightarrow> exclude" where
  "Exclude_set_lite lite self =
     fold (\<lambda>e self. if e_type e = ndn_Exclude_COMPONENT then Exclude_appendComponent (e_component e) self
                    else Exclude_appendAny self)
       (cex_entries lite) (Exclude_clear self)"

section \<open>The excluded intervals\<close>

text \<open>The next COMPONENT entry bounds an ANY from above, the last one before it from below.\<close>

fun next_component :: "exclude_entry list \<Rightarrow> component option" where
  "next_component [] = None"
| "next_component (e # es) =
     (if e_type e = ndn_Exclude_COMPONENT then Some (e_component e) else next_component es)"

fun excluded :: "component option \<Rightarrow> exclude_entry list \<Rightarrow> component \<Rightarrow> bool" where
  "excluded lower [] c \<longleftrightarrow> False"
| "excluded lower (e # es) c \<longleftrightarrow>
     (if e_type e = ndn_Exclude_COMPONENT
      then Component_equals c (e_component e) \<or> excluded (Some (e_component e)) es c
      else (case lower of None \<Rightarrow> True | Some l \<Rightarrow> Component_compare c l > 0) \<and>
           (case next_component es of None \<Rightarrow> True | Some u \<Rightarrow> Component_compare c u < 0)
           \<or> excluded lower es c)"

text \<open>Two ANY entries at the end of the list are outside the specification.\<close>

definition ends_well :: "exclude_entry list \<Rightarrow> bool" where
  "ends_well es \<longleftrightarrow> (\<forall>i. Suc i < length es \<longrightarrow> e_type (es ! i) = ndn_Exclude_ANY \<longrightarrow>
                      next_component (drop (Suc i) es) \<noteq> None)"

lemma next_component_iUpperBound:
  assumes "i < length es"
  shows "next_component (drop (Suc i) es) =
         (if iUpperBound es i < length es then Some (e_component (es ! iUpperBound es i)) else None)"
    and "iUpperBound es i < length es \<Longrightarrow> e_type (es ! iUpperBound es i) = ndn_Exclude_COMPONENT"
proof -
  have *: "next_component xs =
      (let k = length (takeWhile (\<lambda>e. e_type e \<noteq> ndn_Exclude_COMPONENT) xs) in
       if k < length xs then Some (e_component (xs ! k)) else None) \<and>
      (let k = length (takeWhile (\<lambda>e. e_type e \<noteq> ndn_Exclude_COMPONENT) xs) in
       k < length xs \<longrightarrow> e_type (xs ! k) = ndn_Exclude_COMPONENT)" for xs
    by (induction xs) (auto simp: Let_def)
  let ?k = "length (takeWhile (\<lambda>e. e_type e \<noteq> ndn_Exclude_COMPONENT) (drop (Suc i) es))"
  have u: "iUpperBound es i = Suc i + ?k" by (simp add: iUpperBound_def)
  show "next_component (drop (Suc i) es) =
         (if iUpperBound es i < length es then Some (e_component (es ! iUpperBound es i)) else None)"
    using * [of "drop (Suc i) es"] assms by (auto simp: u Let_def less_diff_conv)
  show "iUpperBound es i < length es \<Longrightarrow> e_type (es ! iUpperBound es i) = ndn_Exclude_COMPONENT"
    using * [of "drop (Suc i) es"] assms by (auto simp: u Let_def less_diff_conv)
qed

text \<open>The lower bound in force at index \<^verbatim>\<open>i\<close>.\<close>

fun lower_at :: "exclude_entry list \<Rightarrow> nat \<Rightarrow> component option" where
  "lower_at es 0 = None"
| "lower_at es (Suc i) =
     (if e_type (es ! i) = ndn_Exclude_COMPONENT then Some (e_component (es ! i)) else lower_at es i)"

lemma excluded_drop_any:
  assumes "i \<le> k" and "k \<le> length es" and "\<forall>j. i \<le> j \<and> j < k \<longrightarrow> e_type (es ! j) = ndn_Exclude_ANY"
    and "i < k"
  shows "excluded (lower_at es i) (drop i es) c \<longleftrightarrow>
     (case lower_at es i of None \<Rightarrow> True | Some l \<Rightarrow> Component_compare c l > 0) \<and>
     (case next_component (drop k es) of None \<Rightarrow> True | Some u \<Rightarrow> Component_compare c u < 0)
     \<or> excluded (lower_at es k) (drop k es) c"
  using assms
proof (induction "k - i" arbitrary: i)
  case (Suc d)
  have any: "e_type (es ! i) = ndn_Exclude_ANY" using Suc.prems by simp
  have dr: "drop i es = es ! i # drop (Suc i) es" using Suc.prems by (simp add: Cons_nth_drop_Suc)
  have low: "lower_at es (Suc i) = lower_at es i" using any by simp
  show ?case
  proof (cases "Suc i = k")
    case True
    with dr any low show ?thesis by auto
  next
    case False
    then have lt: "Suc i < k" using Suc.prems by simp
    have nc: "next_component (drop (Suc i) es) = next_component (drop k es)"
      using Suc.prems lt
    proof (induction "k - Suc i" arbitrary: i)
      case (Suc d)
      have "drop (Suc i) es = es ! Suc i # drop (Suc (Suc i)) es"
        using Suc.prems by (simp add: Cons_nth_drop_Suc)
      moreover have "e_type (es ! Suc i) = ndn_Exclude_ANY" using Suc.prems by simp
      moreover have "next_component (drop (Suc (Suc i)) es) = next_component (drop k es)"
        using Suc by (cases "Suc (Suc i) = k") auto
      ultimately show ?case by simp
    qed simp
    from Suc.hyps(1) [of "Suc i"] Suc.hyps(2) Suc.prems lt low dr any nc show ?thesis by auto
  qed
qed simp

lemma iUpperBound_any:
  assumes "i < length es" and "e_type (es ! i) = ndn_Exclude_ANY" and "i \<le> j" and "j < iUpperBound es i"
  shows "j < length es \<and> e_type (es ! j) = ndn_Exclude_ANY"
proof (cases "j = i")
  case False
  let ?P = "\<lambda>e. e_type e \<noteq> ndn_Exclude_COMPONENT"
  let ?xs = "drop (i + 1) es"
  have k: "j - (i + 1) < length (takeWhile ?P ?xs)" and ij: "i + 1 \<le> j"
    using assms False by (auto simp: iUpperBound_def)
  from k have "takeWhile ?P ?xs ! (j - (i + 1)) = ?xs ! (j - (i + 1))" by (rule takeWhile_nth)
  moreover have "?P (takeWhile ?P ?xs ! (j - (i + 1)))"
    using k set_takeWhileD [of _ ?P ?xs] nth_mem by blast
  moreover have l: "j < length es"
    using k ij length_takeWhile_le [of ?P ?xs] by simp
  ultimately have "e_type (es ! j) \<noteq> ndn_Exclude_COMPONENT" using ij by simp
  then have "e_type (es ! j) = ndn_Exclude_ANY" by (cases "e_type (es ! j)") auto
  with l show ?thesis by simp
qed (use assms in simp)

lemma iUpperBound_le: "i < length es \<Longrightarrow> iUpperBound es i \<le> length es"
  using length_takeWhile_le [of _ "drop (i + 1) es"] by (simp add: iUpperBound_def) (metis add_Suc_right add_le_imp_le_diff le_diff_conv2 Suc_leI add.commute length_drop)

text \<open>The loop agrees with the specification wherever it can arrive.\<close>

lemma matches_from_excluded:
  assumes "ends_well es"
    and "i = 0 \<or> length es \<le> i \<or> e_type (es ! (i - 1)) = ndn_Exclude_COMPONENT
         \<or> e_type (es ! i) = ndn_Exclude_COMPONENT"
  shows "matches_from es c i \<longleftrightarrow> excluded (lower_at es i) (drop i es) c"
  using assms
proof (induction es c i rule: matches_from.induct)
  case (1 es c i)
  show ?case
  proof (cases "i < length es")
    case True
    then have dr: "drop i es = es ! i # drop (Suc i) es" by (simp add: Cons_nth_drop_Suc)
    show ?thesis
    proof (cases "e_type (es ! i)")
      case ndn_Exclude_COMPONENT
      then have "matches_from es c (Suc i) \<longleftrightarrow> excluded (lower_at es (Suc i)) (drop (Suc i) es) c"
        if "\<not> Component_equals c (e_component (es ! i))"
        using 1 True that by auto
      with ndn_Exclude_COMPONENT True dr show ?thesis by (subst matches_from.simps) auto
    next
      case ndn_Exclude_ANY
      have low: "lower_at es i = (if i > 0 then Some (e_component (es ! (i - 1))) else None)"
        using 1(6) True ndn_Exclude_ANY by (cases i) auto
      show ?thesis
      proof (cases "iUpperBound es i < length es")
        case up: True
        let ?k = "iUpperBound es i"
        have kc: "e_type (es ! ?k) = ndn_Exclude_COMPONENT"
          using next_component_iUpperBound(2) [OF True up] .
        have nk: "next_component (drop ?k es) = Some (e_component (es ! ?k))"
          using kc up by (simp add: Cons_nth_drop_Suc [symmetric])
        have "excluded (lower_at es i) (drop i es) c \<longleftrightarrow>
            (case lower_at es i of None \<Rightarrow> True | Some l \<Rightarrow> Component_compare c l > 0) \<and>
            Component_compare c (e_component (es ! ?k)) < 0
            \<or> excluded (lower_at es ?k) (drop ?k es) c"
          using excluded_drop_any [of i ?k es c] iUpperBound_greater [of i es] up
            iUpperBound_any [OF True ndn_Exclude_ANY] nk by auto
        moreover have "matches_from es c ?k \<longleftrightarrow> excluded (lower_at es ?k) (drop ?k es) c"
          if "\<not> ((case lower_at es i of None \<Rightarrow> True | Some l \<Rightarrow> Component_compare c l > 0) \<and>
                 Component_compare c (e_component (es ! ?k)) < 0)"
          using 1(3) [OF _ ndn_Exclude_ANY refl refl refl, of "es ! ?k" "es ! (i - 1)"]
            1(2) [OF _ ndn_Exclude_ANY refl refl refl, of "es ! ?k"] kc up True low that 1(5)
          by (cases "i > 0") (simp_all split: if_splits)
        ultimately show ?thesis using True ndn_Exclude_ANY up low
          by (subst matches_from.simps) (auto simp: Let_def)
      next
        case False
        then have "next_component (drop (Suc i) es) = None"
          using next_component_iUpperBound(1) [OF True] by simp
        then have "Suc i = length es"
          using 1(5) True ndn_Exclude_ANY unfolding ends_well_def
          by (metis Suc_lessI option.distinct(1))
        moreover from this have "\<not> matches_from es c (Suc i)" by (subst matches_from.simps) simp
        ultimately show ?thesis using True ndn_Exclude_ANY False low dr
          by (subst matches_from.simps) (auto simp: Let_def)
      qed
    qed
  next
    case False
    then show ?thesis by (subst matches_from.simps) simp
  qed
qed

section \<open>What matches promises\<close>

text \<open>
  The union of the excluded sets, stated without the loop: a component is excluded when some COMPONENT
  entry equals it, or when some ANY entry has its nearest neighbours below and above it.
\<close>

definition in_interval :: "exclude_entry list \<Rightarrow> nat \<Rightarrow> component \<Rightarrow> bool" where
  "in_interval es i c \<longleftrightarrow>
     (if e_type (es ! i) = ndn_Exclude_COMPONENT then Component_equals c (e_component (es ! i))
      else (case lower_at es i of None \<Rightarrow> True | Some l \<Rightarrow> Component_compare c l > 0) \<and>
           (case next_component (drop (Suc i) es) of None \<Rightarrow> True | Some u \<Rightarrow> Component_compare c u < 0))"

lemma excluded_intervals:
  "i \<le> length es \<Longrightarrow> excluded (lower_at es i) (drop i es) c \<longleftrightarrow> (\<exists>j\<in>{i..<length es}. in_interval es j c)"
proof (induction "length es - i" arbitrary: i)
  case (Suc d)
  then have lt: "i < length es" by simp
  then have dr: "drop i es = es ! i # drop (Suc i) es" by (simp add: Cons_nth_drop_Suc)
  have ih: "excluded (lower_at es (Suc i)) (drop (Suc i) es) c \<longleftrightarrow>
            (\<exists>j\<in>{Suc i..<length es}. in_interval es j c)"
    using Suc.hyps(1) [of "Suc i"] Suc.hyps(2) lt by (simp del: lower_at.simps)
  have "{i..<length es} = insert i {Suc i..<length es}" using lt by auto
  moreover have "excluded (lower_at es i) (drop i es) c \<longleftrightarrow>
      in_interval es i c \<or> excluded (lower_at es (Suc i)) (drop (Suc i) es) c"
    by (simp add: dr in_interval_def)
  ultimately show ?case using ih by auto
qed simp


definition comp1 :: "char \<Rightarrow> component" where
  "comp1 x = Component_generic (Some [of_char x])"

definition exclude_sample :: exclude where
  "exclude_sample =
     Exclude_appendAny (Exclude_appendComponent (comp1 CHR ''f'')
       (Exclude_appendComponent (comp1 CHR ''d'') (Exclude_appendAny
       (Exclude_appendComponent (comp1 CHR ''b'') Exclude_new))))"


text \<open>Two ANY entries at the end: the second takes the first as its lower bound and excludes too much.\<close>

lemma trailing_any_excludes_below:
  "let x = Exclude_appendAny (Exclude_appendAny (Exclude_appendComponent (comp1 CHR ''b'') Exclude_new)) in
   Exclude_matches (comp1 CHR ''a'') x \<and>
   \<not> (\<exists>j\<in>{0..<length (ex_entries x)}. in_interval (ex_entries x) j (comp1 CHR ''a''))"
  by code_simp

section \<open>Through the C struct\<close>

definition exclude_wf :: "exclude \<Rightarrow> bool" where
  "exclude_wf self \<longleftrightarrow>
     (\<forall>e \<in> set (ex_entries self).
        if e_type e = ndn_Exclude_COMPONENT
        then component_wf (e_component e) \<and> (is_digest (e_component e) \<longrightarrow> blob_size (c_value (e_component e)) = 32)
        else e = Entry_any)"

lemma exclude_wf_append [ndn_inv]:
  "exclude_wf Exclude_new" "exclude_wf self \<Longrightarrow> exclude_wf (Exclude_appendAny self)"
  "exclude_wf (Exclude_clear self)"
  "exclude_wf self \<Longrightarrow> component_wf c \<Longrightarrow> (is_digest c \<longrightarrow> blob_size (c_value c) = 32) \<Longrightarrow>
   exclude_wf (Exclude_appendComponent c self)"
  by (auto simp: exclude_wf_def Exclude_new_def Exclude_appendAny_def Exclude_clear_def Entry_any_def
      Exclude_appendComponent_def Entry_component_def)

lemma entry_lite_id:
  "(if e_type e = ndn_Exclude_COMPONENT
    then component_wf (e_component e) \<and> (is_digest (e_component e) \<longrightarrow> blob_size (c_value (e_component e)) = 32)
    else e = Entry_any) \<Longrightarrow>
   (if e_type e = ndn_Exclude_COMPONENT then Entry_component (Component_lite (e_component e)) else Entry_any) = e"
  by (cases e) (auto simp: Component_lite_id Entry_component_def split: if_splits)

lemma Exclude_get_loop_ok:
  "exclude_wf \<lparr>ex_entries = es, ex_changeCount = k\<rparr> \<Longrightarrow>
   Exclude_get_loop es lite =
     (if es = [] \<or> length (cex_entries lite) + length es \<le> cex_maxEntries lite
      then Inr (lite\<lparr>cex_entries := cex_entries lite @ es\<rparr>)
      else throwC (Inl NDN_ERROR_cannot_add_an_entry_past_the_maximum_number_of_entries_allowed_in_the_exclude))"
proof (induction es arbitrary: lite)
  case (Cons e es)
  then have "exclude_wf \<lparr>ex_entries = es, ex_changeCount = k\<rparr>" by (simp add: exclude_wf_def)
  note ih = Cons.IH [OF this]
  have e: "(if e_type e = ndn_Exclude_COMPONENT then Entry_component (Component_lite (e_component e)) else Entry_any) = e"
    using Cons.prems by (intro entry_lite_id) (simp add: exclude_wf_def)
  show ?case
    by (cases "length (cex_entries lite) < cex_maxEntries lite")
       (auto simp: e ih ndn_Exclude_append_def)
qed simp

lemma Exclude_set_lite_fold:
  "(\<forall>e \<in> set es. e_type e = ndn_Exclude_ANY \<longrightarrow> e = Entry_any) \<Longrightarrow>
   ex_entries (fold (\<lambda>e self. if e_type e = ndn_Exclude_COMPONENT then Exclude_appendComponent (e_component e) self
                    else Exclude_appendAny self) es self) = ex_entries self @ es"
proof (induction es arbitrary: self)
  case (Cons e es)
  have "Entry_component (e_component e) = e" if "e_type e = ndn_Exclude_COMPONENT"
    using that by (cases e) (simp add: Entry_component_def)
  moreover have "e = Entry_any" if "e_type e \<noteq> ndn_Exclude_COMPONENT"
    using that Cons.prems by (cases "e_type e") auto
  ultimately show ?case
    using Cons by (auto simp: Exclude_appendComponent_def Exclude_appendAny_def)
qed simp

text \<open>
  Copying an Exclude to the C array and back keeps the entries; the copy throws exactly when the array is
  too small.
\<close>

lemma Exclude_lite_roundtrip:
  assumes "exclude_wf x" and "length (ex_entries x) \<le> cex_maxEntries lite"
  shows "\<exists>l. Exclude_get_lite lite x = Inr l \<and> cex_entries l = ex_entries x \<and>
             cex_maxEntries l = cex_maxEntries lite \<and> ex_entries (Exclude_set_lite l self) = ex_entries x"
proof -
  have "exclude_wf \<lparr>ex_entries = ex_entries x, ex_changeCount = ex_changeCount x\<rparr>"
    using assms(1) by (simp add: exclude_wf_def)
  from Exclude_get_loop_ok [OF this, of "lite\<lparr>cex_entries := []\<rparr>"] assms(2)
  have "Exclude_get_lite lite x = Inr (lite\<lparr>cex_entries := ex_entries x\<rparr>)"
    by (auto simp: Exclude_get_lite_def)
  moreover have "\<forall>e \<in> set (ex_entries x). e_type e = ndn_Exclude_ANY \<longrightarrow> e = Entry_any"
    using assms(1) by (auto simp: exclude_wf_def split: if_splits)
  ultimately show ?thesis
    by (simp add: Exclude_set_lite_def Exclude_set_lite_fold Exclude_clear_def)
qed

end
