(* ===== verification/DelegationSet.thy ===== *)
theory DelegationSet
  imports TlvName TlvFields ChangeCounter
begin

text \<open>
  \<^verbatim>\<open>DelegationSet\<close> (\<^verbatim>\<open>delegation-set.hpp\<close>, \<^verbatim>\<open>delegation-set.cpp\<close>): the list of delegations of a link or
  forwarding hint, sorted by preference and name, its TLV encoding (\<^verbatim>\<open>tlv-delegation-set.c\<close>,
  \<^verbatim>\<open>tlv-0_3-wire-format.cpp\<close>) and its cached wire encoding.
\<close>

section \<open>State and operations\<close>

record delegation =
  d_preference :: int
  d_name :: name

text \<open>
  A delegation is immutable, so the shared pointers are the delegations themselves.  A \<^verbatim>\<open>WireFormat *\<close>
  is the number of the format object; the constructor leaves \<^verbatim>\<open>defaultWireEncodingFormat_\<close>
  uninitialised, and nothing reads it while the encoding is null.
\<close>

record delegation_set =
  ds_delegations :: "delegation list"
  ds_defaultWireEncoding :: blob
  ds_defaultWireEncodingFormat :: "nat option"
  ds_getDefaultWireEncodingChangeCount :: u64
  ds_changeCount :: u64

definition DelegationSet_new :: delegation_set where
  "DelegationSet_new =
     \<lparr>ds_delegations = [], ds_defaultWireEncoding = None, ds_defaultWireEncodingFormat = None,
      ds_getDefaultWireEncodingChangeCount = 0, ds_changeCount = 0\<rparr>"

definition Delegation_compare :: "delegation \<Rightarrow> delegation \<Rightarrow> int" where
  "Delegation_compare self other =
     (if d_preference self < d_preference other then -1
      else if d_preference self > d_preference other then 1
      else Name_compare (d_name self) (d_name other))"

definition DelegationSet_remove :: "name \<Rightarrow> delegation_set \<Rightarrow> bool \<times> delegation_set" where
  "DelegationSet_remove name self =
     (let (kept, erased) = erase_backwards (\<lambda>d. Name_equals (d_name d) name) (ds_delegations self)
                             (length (ds_delegations self)) [];
          wasRemoved = erased \<noteq> [];
          self = self\<lparr>ds_delegations := kept\<rparr>
      in (wasRemoved, if wasRemoved then self\<lparr>ds_changeCount := ds_changeCount self + 1\<rparr> else self))"

definition DelegationSet_add :: "int \<Rightarrow> name \<Rightarrow> delegation_set \<Rightarrow> delegation_set" where
  "DelegationSet_add preference name self =
     (let self = snd (DelegationSet_remove name self);
          newDelegation = \<lparr>d_preference = preference, d_name = name\<rparr>
      in self\<lparr>ds_delegations := insert_lower_bound (\<lambda>d new. \<not> Delegation_compare d new \<ge> 0) newDelegation
                                   (ds_delegations self),
              ds_changeCount := ds_changeCount self + 1\<rparr>)"

definition DelegationSet_addUnsorted :: "delegation \<Rightarrow> delegation_set \<Rightarrow> delegation_set" where
  "DelegationSet_addUnsorted d self =
     self\<lparr>ds_delegations := ds_delegations self @ [d], ds_changeCount := ds_changeCount self + 1\<rparr>"

definition DelegationSet_clear :: "delegation_set \<Rightarrow> delegation_set" where
  "DelegationSet_clear self = self\<lparr>ds_delegations := [], ds_changeCount := ds_changeCount self + 1\<rparr>"

definition DelegationSet_get :: "nat \<Rightarrow> delegation_set \<Rightarrow> delegation result" where
  "DelegationSet_get i self =
     (if i \<ge> length (ds_delegations self)
      then Inl (RuntimeError (str ''DelegationSet::get: Index is out of bounds''))
      else Inr (ds_delegations self ! i))"

fun find_from :: "delegation list \<Rightarrow> name \<Rightarrow> int \<Rightarrow> int" where
  "find_from [] name i = -1"
| "find_from (d # ds) name i = (if Name_equals (d_name d) name then i else find_from ds name (i + 1))"

definition DelegationSet_find :: "name \<Rightarrow> delegation_set \<Rightarrow> int" where
  "DelegationSet_find name self = find_from (ds_delegations self) name 0"

section \<open>The cached wire encoding\<close>

definition DelegationSet_getDefaultWireEncoding :: "delegation_set \<Rightarrow> blob \<times> delegation_set" where
  "DelegationSet_getDefaultWireEncoding self =
     (let self = (if ds_getDefaultWireEncodingChangeCount self \<noteq> ds_changeCount self
                  then self\<lparr>ds_defaultWireEncoding := None, ds_defaultWireEncodingFormat := None,
                            ds_getDefaultWireEncodingChangeCount := ds_changeCount self\<rparr>
                  else self)
      in (ds_defaultWireEncoding self, self))"

definition DelegationSet_setDefaultWireEncoding :: "blob \<Rightarrow> nat option \<Rightarrow> delegation_set \<Rightarrow> delegation_set" where
  "DelegationSet_setDefaultWireEncoding enc format self =
     self\<lparr>ds_defaultWireEncoding := enc, ds_defaultWireEncodingFormat := format,
          ds_getDefaultWireEncodingChangeCount := ds_changeCount self\<rparr>"

text \<open>
  The assignment operator keeps the target's own change count.  The source is const, but
  \<^verbatim>\<open>getDefaultWireEncoding\<close> can drop its stale encoding; the pair is the source and the target after.
\<close>

definition DelegationSet_assign :: "delegation_set \<Rightarrow> delegation_set \<Rightarrow> delegation_set \<times> delegation_set" where
  "DelegationSet_assign other self =
     (let self = self\<lparr>ds_delegations := ds_delegations other\<rparr>;
          (enc, other) = DelegationSet_getDefaultWireEncoding other
      in (other, DelegationSet_setDefaultWireEncoding enc (ds_defaultWireEncodingFormat other) self))"

definition DelegationSet_copy :: "delegation_set \<Rightarrow> delegation_set \<times> delegation_set" where
  "DelegationSet_copy other =
     (let self = DelegationSet_new\<lparr>ds_delegations := ds_delegations other, ds_changeCount := ds_changeCount other\<rparr>;
          (enc, other) = DelegationSet_getDefaultWireEncoding other
      in (other, DelegationSet_setDefaultWireEncoding enc (ds_defaultWireEncodingFormat other) self))"

text \<open>
  \<^verbatim>\<open>wireEncode\<close> with the format object \<^verbatim>\<open>wireFormat\<close>, whose \<^verbatim>\<open>encodeDelegationSet\<close> is \<^verbatim>\<open>encode\<close>, where
  \<^verbatim>\<open>defaultFormat\<close> is the default format object.
\<close>

definition DelegationSet_wireEncode ::
  "(nat \<Rightarrow> delegation list \<Rightarrow> bytes result) \<Rightarrow> nat \<Rightarrow> nat \<Rightarrow> delegation_set \<Rightarrow> bytes result \<times> delegation_set" where
  "DelegationSet_wireEncode encode defaultFormat wireFormat self =
     (let (enc, self) = DelegationSet_getDefaultWireEncoding self in
      case (enc, ds_defaultWireEncodingFormat self = Some wireFormat) of
        (Some bs, True) \<Rightarrow> (Inr bs, self)
      | _ \<Rightarrow>
          (case encode wireFormat (ds_delegations self) of
             Inl e \<Rightarrow> (Inl e, self)
           | Inr bs \<Rightarrow>
               (Inr bs, if wireFormat = defaultFormat
                        then DelegationSet_setDefaultWireEncoding (Some bs) (Some defaultFormat) self else self)))"

text \<open>\<^verbatim>\<open>wireDecode\<close>: \<^verbatim>\<open>decode\<close> is the \<^verbatim>\<open>decodeDelegationSet\<close> of the format; an exception leaves what it left.\<close>

definition DelegationSet_wireDecode ::
  "(nat \<Rightarrow> bytes \<Rightarrow> delegation_set \<Rightarrow> (exn option \<times> delegation_set) option) \<Rightarrow> nat \<Rightarrow> nat \<Rightarrow>
   bytes \<Rightarrow> delegation_set \<Rightarrow> (exn option \<times> delegation_set) option" where
  "DelegationSet_wireDecode decode defaultFormat wireFormat input self =
     (case decode wireFormat input self of
        None \<Rightarrow> None
      | Some (Some e, self) \<Rightarrow> Some (Some e, self)
      | Some (None, self) \<Rightarrow>
          Some (None, if wireFormat = defaultFormat
                      then DelegationSet_setDefaultWireEncoding (Some input) (Some defaultFormat) self
                      else DelegationSet_setDefaultWireEncoding None None self))"

section \<open>The TLV encoding\<close>

definition ndn_Tlv_Link_Preference :: u32 where "ndn_Tlv_Link_Preference = 30"
definition ndn_Tlv_Link_Delegation :: u32 where "ndn_Tlv_Link_Delegation = 31"

text \<open>\<^verbatim>\<open>ndn_DelegationSet_Delegation\<close>: the preference, an \<^verbatim>\<open>int\<close>, and a C name.\<close>

record delegation_lite =
  dl_preference :: int
  dl_name :: ndn_Name

definition Delegation_get_lite :: "delegation \<Rightarrow> delegation_lite result" where
  "Delegation_get_lite d =
     bindE (Name_get_lite \<lparr>cn_components = [], cn_maxComponents = MAX_NAME_COMPONENTS\<rparr> (d_name d)) (\<lambda>n.
       Inr \<lparr>dl_preference = d_preference d, dl_name = n\<rparr>)"

definition encodeDelegationValue :: "delegation_lite \<Rightarrow> tlv_encoder \<Rightarrow> ndn_error + tlv_encoder" where
  "encodeDelegationValue d e =
     bindE (writeNonNegativeIntegerTlv ndn_Tlv_Link_Preference (word_of_int (dl_preference d)) e) (\<lambda>e.
     bindE (ndn_encodeTlvName (cn_components (dl_name d)) e) (\<lambda>(_, e). Inr e))"

definition ndn_encodeTlvDelegationSet_Delegation :: "delegation_lite \<Rightarrow> tlv_encoder \<Rightarrow> ndn_error + tlv_encoder" where
  "ndn_encodeTlvDelegationSet_Delegation d =
     writeNestedTlv ndn_Tlv_Link_Delegation (encodeDelegationValue d) False"

text \<open>The wire format call: a new encoder on the same array, which seeks to the offset.\<close>

definition encodeDelegationSet_Delegation ::
  "delegation_lite \<Rightarrow> nat \<Rightarrow> tlv_encoder \<Rightarrow> ndn_error + nat \<times> tlv_encoder" where
  "encodeDelegationSet_Delegation d offset e =
     bindE (TlvEncoder_seek offset (e\<lparr>enc_offset := 0, enableOutput := True\<rparr>)) (\<lambda>e.
     bindE (ndn_encodeTlvDelegationSet_Delegation d e) (\<lambda>e. Inr (enc_offset e - offset, e)))"

fun encode_delegations :: "delegation list \<Rightarrow> nat \<Rightarrow> tlv_encoder \<Rightarrow> (nat \<times> tlv_encoder) result" where
  "encode_delegations [] encodingLength e = Inr (encodingLength, e)"
| "encode_delegations (d # ds) encodingLength e =
     bindE (Delegation_get_lite d) (\<lambda>lite.
     bindE (throwC (encodeDelegationSet_Delegation lite encodingLength e)) (\<lambda>(n, e).
       encode_delegations ds (encodingLength + n) e))"

definition Tlv_encodeDelegationSet :: "delegation list \<Rightarrow> bytes result" where
  "Tlv_encodeDelegationSet ds =
     bindE (encode_delegations ds 0 (TlvEncoder_new 256)) (\<lambda>(encodingLength, e).
       Inr (TlvEncoder_finish (e\<lparr>enc_offset := encodingLength\<rparr>)))"

definition ndn_decodeTlvDelegationSet_Delegation :: "nat \<Rightarrow> (int \<times> component_slice list) dec" where
  "ndn_decodeTlvDelegationSet_Delegation maxComponents =
     bindD (readNestedTlvsStart ndn_Tlv_Link_Delegation) (\<lambda>endOffset.
     bindD (readNonNegativeIntegerTlv ndn_Tlv_Link_Preference) (\<lambda>unsignedPreference.
     bindD (ndn_decodeTlvName maxComponents) (\<lambda>(cs, _, _).
     bindD (finishNestedTlvs endOffset) (\<lambda>_.
       retD (to_int (uint unsignedPreference), cs)))))"

text \<open>
  The loop of \<^verbatim>\<open>decodeDelegationSet\<close>, on the input from the present offset.  It returns when every
  pass moves on, which a wrapped offset can prevent.
\<close>

partial_function (option) decode_delegations ::
  "bytes \<Rightarrow> delegation_set \<Rightarrow> (exn option \<times> delegation_set) option" where
  "decode_delegations input self =
     (if input = [] then Some (None, self)
      else case ndn_decodeTlvDelegationSet_Delegation MAX_NAME_COMPONENTS input 0 of
             None \<Rightarrow> None
           | Some (Inl e) \<Rightarrow> Some (Some (RuntimeError (ndn_getErrorString e)), self)
           | Some (Inr ((preference, cs), encodingLength)) \<Rightarrow>
               (case lite_components input cs of
                  None \<Rightarrow> None
                | Some comps \<Rightarrow>
                    decode_delegations (drop (unat encodingLength) input)
                      (DelegationSet_addUnsorted
                         \<lparr>d_preference = preference,
                          d_name = Name_set_lite \<lparr>cn_components = comps, cn_maxComponents = MAX_NAME_COMPONENTS\<rparr> Name_empty\<rparr>
                         self)))"

definition Tlv_decodeDelegationSet :: "bytes \<Rightarrow> delegation_set \<Rightarrow> (exn option \<times> delegation_set) option" where
  "Tlv_decodeDelegationSet input self = decode_delegations input (DelegationSet_clear self)"

section \<open>Sorted by preference and name\<close>

definition delegation_less :: "delegation \<Rightarrow> delegation \<Rightarrow> bool" where
  "delegation_less d e \<longleftrightarrow> Delegation_compare d e < 0"

definition delegation_ok :: "delegation \<Rightarrow> bool" where
  "delegation_ok d \<longleftrightarrow> small_name (d_name d)"

interpretation delegation_table: sorted_table delegation_ok delegation_less
proof
  fix x y z
  assume ok: "delegation_ok x" "delegation_ok y" "delegation_ok z"
  assume xy: "\<not> delegation_less y x" and yz: "\<not> delegation_less z y"
  show "\<not> delegation_less z x"
    using ok xy yz name_order.cmp_trans [of "n_components (d_name x)" "n_components (d_name y)" "n_components (d_name z)"]
      name_order.cmp_swap [of "n_components (d_name x)" "n_components (d_name y)"]
      name_order.cmp_swap [of "n_components (d_name y)" "n_components (d_name z)"]
      name_order.cmp_swap [of "n_components (d_name x)" "n_components (d_name z)"]
    by (auto simp: delegation_less_def Delegation_compare_def delegation_ok_def Name_compare split: if_splits)
next
  fix x y
  assume "delegation_ok x" "delegation_ok y" "delegation_less x y"
  then show "\<not> delegation_less y x"
    using name_order.cmp_swap [of "n_components (d_name x)" "n_components (d_name y)"]
    by (auto simp: delegation_less_def Delegation_compare_def delegation_ok_def Name_compare split: if_splits)
qed

lemma DelegationSet_remove:
  "ds_delegations (snd (DelegationSet_remove name self)) =
     filter (\<lambda>d. \<not> Name_equals (d_name d) name) (ds_delegations self)"
  "fst (DelegationSet_remove name self) \<longleftrightarrow> (\<exists>d \<in> set (ds_delegations self). Name_equals (d_name d) name)"
  by (auto simp: DelegationSet_remove_def Let_def filter_empty_conv)

lemma DelegationSet_add:
  "ds_delegations (DelegationSet_add preference name self) =
     insert_lower_bound delegation_less \<lparr>d_preference = preference, d_name = name\<rparr>
       (filter (\<lambda>d. \<not> Name_equals (d_name d) name) (ds_delegations self))"
  by (simp add: DelegationSet_add_def Let_def DelegationSet_remove delegation_less_def [abs_def] not_le)

text \<open>
  The abstract view: a finite map from names, compared by their component values, to preferences.
\<close>

definition delegation_map :: "delegation_set \<Rightarrow> bytes list \<rightharpoonup> int" where
  "delegation_map self = map_of (map (\<lambda>d. (name_values (d_name d), d_preference d)) (ds_delegations self))"

definition delegation_set_wf :: "delegation_set \<Rightarrow> bool" where
  "delegation_set_wf self \<longleftrightarrow>
     table_sorted delegation_less (ds_delegations self) \<and>
     (\<forall>d \<in> set (ds_delegations self). delegation_ok d) \<and>
     distinct (map (\<lambda>d. name_values (d_name d)) (ds_delegations self))"

lemma delegation_set_wf_new [ndn_inv]: "delegation_set_wf DelegationSet_new"
  "delegation_set_wf (DelegationSet_clear self)"
  by (simp_all add: delegation_set_wf_def DelegationSet_new_def DelegationSet_clear_def)

lemma delegation_set_wf_remove [ndn_inv]:
  "delegation_set_wf self \<Longrightarrow> delegation_set_wf (snd (DelegationSet_remove name self))"
  by (auto simp: delegation_set_wf_def DelegationSet_remove distinct_map_filter)

lemma delegation_set_wf_add [ndn_inv]:
  assumes wf: "delegation_set_wf self" and nm: "small_name name"
  shows "delegation_set_wf (DelegationSet_add preference name self)"
proof -
  let ?rest = "filter (\<lambda>d. \<not> Name_equals (d_name d) name) (ds_delegations self)"
  let ?new = "\<lparr>d_preference = preference, d_name = name\<rparr>"
  have ok: "delegation_ok ?new" using nm by (simp add: delegation_ok_def)
  have rest: "table_sorted delegation_less ?rest" "\<forall>d \<in> set ?rest. delegation_ok d"
      "distinct (map (\<lambda>d. name_values (d_name d)) ?rest)"
    using wf by (auto simp: delegation_set_wf_def distinct_map_filter)
  have "table_sorted delegation_less (insert_lower_bound delegation_less ?new ?rest)"
    using delegation_table.sorted_insert [OF rest(1,2) ok] .
  moreover have "distinct (map (\<lambda>d. name_values (d_name d)) (insert_lower_bound delegation_less ?new ?rest))"
  proof -
    have "mset (map (\<lambda>d. name_values (d_name d)) (insert_lower_bound delegation_less ?new ?rest)) =
          mset (name_values name # map (\<lambda>d. name_values (d_name d)) ?rest)"
      by simp
    moreover have "distinct (name_values name # map (\<lambda>d. name_values (d_name d)) ?rest)"
      using rest(3) by (auto simp: Name_equals_values)
    ultimately show ?thesis by (metis mset_eq_imp_distinct_iff)
  qed
  ultimately show ?thesis
    using rest(2) ok by (simp add: delegation_set_wf_def DelegationSet_add)
qed

lemma delegation_map_iff:
  "delegation_set_wf self \<Longrightarrow>
   delegation_map self k = Some p \<longleftrightarrow>
   (\<exists>d \<in> set (ds_delegations self). name_values (d_name d) = k \<and> d_preference d = p)"
  unfolding delegation_map_def delegation_set_wf_def
  by (subst map_of_eq_Some_iff) (auto simp: comp_def image_iff)

lemma delegation_map_remove:
  assumes "delegation_set_wf self"
  shows "delegation_map (snd (DelegationSet_remove name self)) = (delegation_map self)(name_values name := None)"
proof
  fix k
  have "delegation_map (snd (DelegationSet_remove name self)) k = Some p \<longleftrightarrow>
        ((delegation_map self)(name_values name := None)) k = Some p" for p
    unfolding delegation_map_iff [OF delegation_set_wf_remove [OF assms]]
    by (auto simp: DelegationSet_remove Name_equals_values delegation_map_iff [OF assms])
  then show "delegation_map (snd (DelegationSet_remove name self)) k = ((delegation_map self)(name_values name := None)) k"
    by (metis option.exhaust)
qed

lemma delegation_map_add:
  assumes "delegation_set_wf self" and "small_name name"
  shows "delegation_map (DelegationSet_add preference name self) = (delegation_map self)(name_values name \<mapsto> preference)"
proof
  fix k
  have "delegation_map (DelegationSet_add preference name self) k = Some p \<longleftrightarrow>
        ((delegation_map self)(name_values name \<mapsto> preference)) k = Some p" for p
    unfolding delegation_map_iff [OF delegation_set_wf_add [OF assms]]
    by (auto simp: DelegationSet_add Name_equals_values delegation_map_iff [OF assms(1)])
  then show "delegation_map (DelegationSet_add preference name self) k = ((delegation_map self)(name_values name \<mapsto> preference)) k"
    by (metis option.exhaust)
qed

lemma find_from:
  assumes "i \<ge> 0"
  shows "find_from ds name i = -1 \<and> (\<forall>d \<in> set ds. \<not> Name_equals (d_name d) name) \<or>
         (\<exists>k < length ds. find_from ds name i = i + int k \<and> Name_equals (d_name (ds ! k)) name)"
  using assms
proof (induction ds arbitrary: i)
  case (Cons d ds)
  show ?case
  proof (cases "Name_equals (d_name d) name")
    case False
    have "0 \<le> i + 1" using Cons.prems by simp
    from Cons.IH [OF this] show ?thesis
    proof (elim disjE exE conjE)
      fix k assume "k < length ds" "find_from ds name (i + 1) = i + 1 + int k" "Name_equals (d_name (ds ! k)) name"
      with False have "Suc k < length (d # ds) \<and> find_from (d # ds) name i = i + int (Suc k) \<and>
          Name_equals (d_name ((d # ds) ! Suc k)) name" by simp
      then show ?thesis by blast
    qed (use False in auto)
  qed (auto intro!: exI [of _ 0])
qed simp

lemma DelegationSet_find:
  "DelegationSet_find name self = -1 \<and> (\<forall>d \<in> set (ds_delegations self). \<not> Name_equals (d_name d) name) \<or>
   (\<exists>d. DelegationSet_find name self \<ge> 0 \<and> DelegationSet_get (nat (DelegationSet_find name self)) self = Inr d \<and>
        d \<in> set (ds_delegations self) \<and> Name_equals (d_name d) name)"
  using find_from [of 0 "ds_delegations self" name]
  by (auto simp: DelegationSet_find_def DelegationSet_get_def)

lemma DelegationSet_find_map:
  assumes "delegation_set_wf self"
  shows "(case delegation_map self (name_values name) of
            None \<Rightarrow> DelegationSet_find name self = -1
          | Some p \<Rightarrow> \<exists>d. DelegationSet_get (nat (DelegationSet_find name self)) self = Inr d \<and>
                         DelegationSet_find name self \<ge> 0 \<and> Name_equals (d_name d) name \<and> d_preference d = p)"
proof (cases "delegation_map self (name_values name)")
  case None
  then have "\<forall>d \<in> set (ds_delegations self). \<not> Name_equals (d_name d) name"
    using delegation_map_iff [OF assms, of "name_values name"] by (auto simp: Name_equals_values)
  with None DelegationSet_find [of name self] show ?thesis by auto
next
  case (Some p)
  then obtain d where d: "d \<in> set (ds_delegations self)" "name_values (d_name d) = name_values name"
    "d_preference d = p" using delegation_map_iff [OF assms] by auto
  have uniq: "d' = d" if "d' \<in> set (ds_delegations self)" "Name_equals (d_name d') name" for d'
    using that d assms by (auto simp: Name_equals_values delegation_set_wf_def distinct_map inj_on_def)
  from d have "Name_equals (d_name d) name" by (simp add: Name_equals_values)
  with DelegationSet_find [of name self] d(1) obtain d' where d': "DelegationSet_find name self \<ge> 0"
    "DelegationSet_get (nat (DelegationSet_find name self)) self = Inr d'"
    "d' \<in> set (ds_delegations self)" "Name_equals (d_name d') name" by blast
  with uniq [OF d'(3,4)] Some d(3) show ?thesis by simp
qed

section \<open>The cached encoding is never stale\<close>

text \<open>The calls on one object, with the TLV format as format 0 and the default; other formats get a number.\<close>

definition tlv_encoding :: "delegation_set \<Rightarrow> blob" where
  "tlv_encoding self = (case Tlv_encodeDelegationSet (ds_delegations self) of Inr bs \<Rightarrow> Some bs | Inl _ \<Rightarrow> None)"

interpretation delegation_cache: wire_cache
  ds_changeCount ds_getDefaultWireEncodingChangeCount ds_defaultWireEncoding tlv_encoding
  DelegationSet_getDefaultWireEncoding "\<lambda>b. DelegationSet_setDefaultWireEncoding b (Some 0)"
  by unfold_locales
     (auto simp: DelegationSet_getDefaultWireEncoding_def DelegationSet_setDefaultWireEncoding_def Let_def tlv_encoding_def)

text \<open>With the format recorded beside the encoding: only the TLV format stores one.\<close>

definition delegation_cache_wf :: "delegation_set \<Rightarrow> bool" where
  "delegation_cache_wf self \<longleftrightarrow>
     cache_wf ds_changeCount ds_getDefaultWireEncodingChangeCount ds_defaultWireEncoding tlv_encoding self"

datatype delegation_op =
    AddOp int name
  | AddUnsortedOp delegation
  | RemoveOp name
  | ClearOp
  | AssignOp delegation_set
  | EncodeOp nat

fun delegation_op_step ::
  "(nat \<Rightarrow> delegation list \<Rightarrow> bytes result) \<Rightarrow> delegation_op \<Rightarrow> delegation_set \<Rightarrow> delegation_set" where
  "delegation_op_step enc (AddOp p n) s = DelegationSet_add p n s"
| "delegation_op_step enc (AddUnsortedOp d) s = DelegationSet_addUnsorted d s"
| "delegation_op_step enc (RemoveOp n) s = snd (DelegationSet_remove n s)"
| "delegation_op_step enc ClearOp s = DelegationSet_clear s"
| "delegation_op_step enc (AssignOp other) s = snd (DelegationSet_assign other s)"
| "delegation_op_step enc (EncodeOp f) s = snd (DelegationSet_wireEncode enc 0 f s)"

lemmas delegation_cache_defs =
  delegation_cache_wf_def DelegationSet_getDefaultWireEncoding_def DelegationSet_setDefaultWireEncoding_def

lemma delegation_cache_wf_new [ndn_inv]: "delegation_cache_wf DelegationSet_new"
  by (simp add: delegation_cache_wf_def cache_wf_def DelegationSet_new_def)

lemma delegation_cache_wf_remove [ndn_inv]:
  assumes "delegation_cache_wf s" and "ds_changeCount s \<noteq> -1"
  shows "delegation_cache_wf (snd (DelegationSet_remove n s))"
proof (cases "fst (DelegationSet_remove n s)")
  case True
  then show ?thesis
    using delegation_cache.change_wf [OF assms [unfolded delegation_cache_wf_def]]
    by (auto simp: DelegationSet_remove_def Let_def delegation_cache_wf_def)
next
  case False
  then have "snd (DelegationSet_remove n s) = s"
    by (simp add: DelegationSet_remove_def Let_def filter_empty_conv)
  with assms show ?thesis by simp
qed

lemma ds_changeCount_remove:
  "ds_changeCount (snd (DelegationSet_remove n s)) \<in> {ds_changeCount s, ds_changeCount s + 1}"
  by (auto simp: DelegationSet_remove_def Let_def)

lemma delegation_cache_wf_wireEncode [ndn_inv]:
  assumes "delegation_cache_wf s" and "enc 0 = Tlv_encodeDelegationSet"
  shows "delegation_cache_wf (snd (DelegationSet_wireEncode enc 0 f s))"
    and "fst (DelegationSet_wireEncode enc 0 0 s) = Tlv_encodeDelegationSet (ds_delegations s)"
    and "ds_changeCount (snd (DelegationSet_wireEncode enc 0 f s)) = ds_changeCount s"
    and "ds_delegations (snd (DelegationSet_wireEncode enc 0 f s)) = ds_delegations s"
proof -
  note wf = assms(1) [unfolded delegation_cache_wf_def]
  let ?s = "snd (DelegationSet_getDefaultWireEncoding s)"
  have wf': "delegation_cache_wf ?s"
    unfolding delegation_cache_wf_def by (rule delegation_cache.get_wf [OF wf])
  have same: "ds_delegations ?s = ds_delegations s" "ds_changeCount ?s = ds_changeCount s"
    by (simp_all add: DelegationSet_getDefaultWireEncoding_def Let_def)
  have store: "delegation_cache_wf (DelegationSet_setDefaultWireEncoding (Some bs) (Some 0) ?s)"
    if "Tlv_encodeDelegationSet (ds_delegations s) = Inr bs" for bs
    unfolding delegation_cache_wf_def using that same
    by (intro delegation_cache.set_wf) (simp add: tlv_encoding_def)
  have val: "Tlv_encodeDelegationSet (ds_delegations s) = Inr bs"
    if "fst (DelegationSet_getDefaultWireEncoding s) = Some bs" for bs
    using delegation_cache.get_fresh [OF wf] that by (auto simp: tlv_encoding_def split: sum.splits)
  note def = DelegationSet_wireEncode_def Let_def case_prod_beta
  show "delegation_cache_wf (snd (DelegationSet_wireEncode enc 0 f s))"
    using wf' store assms(2) same by (auto simp: def split: option.split bool.split sum.split)
  show "fst (DelegationSet_wireEncode enc 0 0 s) = Tlv_encodeDelegationSet (ds_delegations s)"
    using val assms(2) same by (auto simp: def split: option.split bool.split sum.split)
  show "ds_changeCount (snd (DelegationSet_wireEncode enc 0 f s)) = ds_changeCount s"
    "ds_delegations (snd (DelegationSet_wireEncode enc 0 f s)) = ds_delegations s"
    using same by (auto simp: def DelegationSet_setDefaultWireEncoding_def split: option.split bool.split sum.split)
qed

lemma unat_inc_le: "unat (x :: u64) + 1 < 2 ^ 64 \<Longrightarrow> unat (x + 1) = unat x + 1"
  by (intro unat_inc u64_not_max)

lemma delegation_op_step_wf:
  assumes wf: "delegation_cache_wf s" and room: "unat (ds_changeCount s) + 2 < 2 ^ 64"
    and enc: "enc 0 = Tlv_encodeDelegationSet" and ok: "\<And>t. a = AssignOp t \<Longrightarrow> delegation_cache_wf t"
  shows "delegation_cache_wf (delegation_op_step enc a s) \<and>
         unat (ds_changeCount (delegation_op_step enc a s)) \<le> unat (ds_changeCount s) + 2"
proof -
  have ne: "ds_changeCount s \<noteq> -1" using room by (intro u64_not_max) simp
  have inc: "unat (ds_changeCount s + 1) = unat (ds_changeCount s) + 1" by (rule unat_inc [OF ne])
  note change = delegation_cache.change_wf [folded delegation_cache_wf_def, of s, OF wf ne]
  have rem: "delegation_cache_wf (snd (DelegationSet_remove n s))" for n
    by (rule delegation_cache_wf_remove [OF wf ne])
  have rem_le: "unat (ds_changeCount (snd (DelegationSet_remove n s))) \<le> unat (ds_changeCount s) + 1" for n
    using ds_changeCount_remove [of n s] inc by auto
  show ?thesis
  proof (cases a)
    case (AddOp p n)
    have lt: "unat (ds_changeCount (snd (DelegationSet_remove n s))) + 1 < 2 ^ 64"
      using rem_le [of n] room by simp
    have "delegation_cache_wf (DelegationSet_add p n s)"
      unfolding DelegationSet_add_def Let_def
      by (rule delegation_cache.change_wf [folded delegation_cache_wf_def, OF rem u64_not_max [OF lt]]) simp_all
    with AddOp rem_le [of n] unat_inc_le [OF lt] show ?thesis
      by (simp add: DelegationSet_add_def Let_def)
  next
    case (AssignOp t)
    have t: "delegation_cache_wf t" using ok AssignOp by simp
    have "delegation_cache_wf (snd (DelegationSet_assign t s))"
      using delegation_cache.get_fresh [OF t [unfolded delegation_cache_wf_def]]
      by (auto simp: DelegationSet_assign_def Let_def case_prod_beta delegation_cache_wf_def cache_wf_def
          DelegationSet_setDefaultWireEncoding_def tlv_encoding_def)
    moreover have "ds_changeCount (snd (DelegationSet_assign t s)) = ds_changeCount s"
      by (simp add: DelegationSet_assign_def Let_def case_prod_beta DelegationSet_setDefaultWireEncoding_def)
    ultimately show ?thesis using AssignOp by simp
  qed (use rem rem_le inc change enc delegation_cache_wf_wireEncode [where s = s and enc = enc, OF wf enc] in
        \<open>auto simp: DelegationSet_addUnsorted_def DelegationSet_clear_def le_Suc_eq\<close>)
qed

lemma delegation_ops_wf:
  assumes "delegation_cache_wf s" and "unat (ds_changeCount s) + 2 * length ops < 2 ^ 64"
    and "enc 0 = Tlv_encodeDelegationSet" and "\<forall>t. AssignOp t \<in> set ops \<longrightarrow> delegation_cache_wf t"
  shows "delegation_cache_wf (fold (delegation_op_step enc) ops s)"
  using assms
proof (induction ops arbitrary: s)
  case (Cons a ops)
  have "delegation_cache_wf (delegation_op_step enc a s) \<and>
        unat (ds_changeCount (delegation_op_step enc a s)) \<le> unat (ds_changeCount s) + 2"
    using Cons.prems by (intro delegation_op_step_wf) auto
  moreover have "\<forall>t. AssignOp t \<in> set ops \<longrightarrow> delegation_cache_wf t" using Cons.prems(4) by simp
  ultimately show ?case using Cons.IH [of "delegation_op_step enc a s"] Cons.prems(2,3) by simp
qed simp

section \<open>The TLV encoding and back\<close>

definition delegation_bytes :: "delegation_lite \<Rightarrow> bytes" where
  "delegation_bytes d =
     tlv ndn_Tlv_Link_Preference (nonneg_integer (word_of_int (dl_preference d))) @ name_tlv (cn_components (dl_name d))"

definition delegation_lite_ok :: "delegation_lite \<Rightarrow> bool" where
  "delegation_lite_ok d \<longleftrightarrow> (\<forall>c \<in> set (cn_components (dl_name d)). encodable c)"

interpretation delegation_value: tlv_value delegation_lite_ok encodeDelegationValue delegation_bytes
proof
  fix d assume "delegation_lite_ok d"
  then have "emits (\<lambda>e. bindE (ndn_encodeTlvName (cn_components (dl_name d)) e) (\<lambda>(_, e). Inr e))
       (name_tlv (cn_components (dl_name d)))"
    by (intro emits_val_drop [OF emits_val_name]) (simp add: delegation_lite_ok_def)
  from emits_seq [OF emits_writeNonNegativeIntegerTlv this]
  show "emits (encodeDelegationValue d) (delegation_bytes d)"
    unfolding encodeDelegationValue_def [abs_def] delegation_bytes_def by simp
qed

text \<open>A delegation that survives the wire: a name the encoder can hold, and an \<^verbatim>\<open>int\<close> preference.\<close>

definition delegation_wire_wf :: "delegation \<Rightarrow> bool" where
  "delegation_wire_wf d \<longleftrightarrow>
     (\<forall>c \<in> set (n_components (d_name d)). wire_wf c \<and> (is_digest c \<longrightarrow> blob_size (c_value c) = 32)) \<and>
     Name_size (d_name d) \<le> MAX_NAME_COMPONENTS \<and> - (2 ^ 31) \<le> d_preference d \<and> d_preference d < 2 ^ 31"

definition delegation_lite_of :: "delegation \<Rightarrow> delegation_lite" where
  "delegation_lite_of d =
     \<lparr>dl_preference = d_preference d,
      dl_name = \<lparr>cn_components = n_components (d_name d), cn_maxComponents = MAX_NAME_COMPONENTS\<rparr>\<rparr>"

definition delegation_tlv :: "delegation \<Rightarrow> bytes" where
  "delegation_tlv d = tlv ndn_Tlv_Link_Delegation (delegation_bytes (delegation_lite_of d))"

lemma Delegation_get_lite_ok:
  assumes "delegation_wire_wf d"
  shows "\<exists>l. Delegation_get_lite d = Inr l \<and> delegation_lite_ok l \<and> delegation_bytes l = delegation_bytes (delegation_lite_of d)"
proof -
  obtain l where "Name_get_lite \<lparr>cn_components = [], cn_maxComponents = MAX_NAME_COMPONENTS\<rparr> (d_name d) = Inr l"
    "cn_components l = n_components (d_name d)"
    using Name_lite_roundtrip [of "d_name d" "\<lparr>cn_components = [], cn_maxComponents = MAX_NAME_COMPONENTS\<rparr>"] assms
    by (auto simp: delegation_wire_wf_def wire_wf_def)
  moreover have "\<forall>c \<in> set (n_components (d_name d)). encodable c"
    using assms wire_wf_encodable by (auto simp: delegation_wire_wf_def)
  ultimately show ?thesis
    by (simp add: Delegation_get_lite_def delegation_lite_ok_def delegation_bytes_def delegation_lite_of_def)
qed

lemma encode_delegations_ok:
  assumes "\<forall>d \<in> set ds. delegation_wire_wf d" and "ready e"
  shows "\<exists>e'. encode_delegations ds (enc_offset e) e = Inr (enc_offset e', e') \<and> ready e' \<and>
              enc_out e' = enc_out e @ concat (map delegation_tlv ds)"
  using assms
proof (induction ds arbitrary: e)
  case (Cons d ds)
  obtain l where l: "Delegation_get_lite d = Inr l" "delegation_lite_ok l"
    "delegation_bytes l = delegation_bytes (delegation_lite_of d)"
    using Delegation_get_lite_ok [of d] Cons.prems(1) by auto
  have "emits (ndn_encodeTlvDelegationSet_Delegation l) (delegation_tlv d)"
    using delegation_value.emits_nested [OF l(2), of ndn_Tlv_Link_Delegation False] l(3)
    by (simp add: ndn_encodeTlvDelegationSet_Delegation_def delegation_tlv_def nested_tlv_def)
  then obtain e1 where e1: "ndn_encodeTlvDelegationSet_Delegation l e = Inr e1" "ready e1"
    "enc_out e1 = enc_out e @ delegation_tlv d"
    using emits_enabled Cons.prems(2) by blast
  have le: "enc_offset e \<le> enc_offset e1"
    using enc_out_length [OF e1(2)] enc_out_length [OF Cons.prems(2)] e1(3) by simp
  have "encodeDelegationSet_Delegation l (enc_offset e) e = Inr (enc_offset e1 - enc_offset e, e1)"
    by (simp add: encodeDelegationSet_Delegation_def TlvEncoder_seek_ready [OF Cons.prems(2)] e1(1))
  then show ?case using Cons.IH [OF _ e1(2)] Cons.prems(1) l(1) e1(3) le by auto
qed simp

lemma Tlv_encodeDelegationSet_ok:
  assumes "\<forall>d \<in> set ds. delegation_wire_wf d"
  shows "Tlv_encodeDelegationSet ds = Inr (concat (map delegation_tlv ds))"
proof -
  have "enc_offset (TlvEncoder_new 256) = 0" by (simp add: TlvEncoder_new_def)
  with encode_delegations_ok [OF assms ready_new, of 256] obtain e' where
    e': "encode_delegations ds 0 (TlvEncoder_new 256) = Inr (enc_offset e', e')" "ready e'"
    "enc_out e' = concat (map delegation_tlv ds)" by auto
  then show ?thesis by (simp add: Tlv_encodeDelegationSet_def TlvEncoder_finish)
qed

lemma to_int_word_int:
  assumes "- (2 ^ 31) \<le> p" and "p < 2 ^ 31"
  shows "to_int (uint (word_of_int p :: u64)) = p"
proof -
  have "(word_of_int (take_bit 64 p) :: u32) = word_of_int p"
    unfolding word_of_int_eq_iff by (simp add: take_bit_take_bit)
  then have "to_int (uint (word_of_int p :: u64)) = to_int p"
    by (simp add: to_int_def unsigned_of_int)
  then show ?thesis using assms by (simp add: to_int_id)
qed

lemma reads_delegation:
  assumes s: "small_input (pre @ delegation_tlv d @ post)" and wf: "delegation_wire_wf d"
  shows "reads (ndn_decodeTlvDelegationSet_Delegation MAX_NAME_COMPONENTS) pre (delegation_tlv d) post
     (d_preference d,
      slices_of (pre @ tlv_header ndn_Tlv_Link_Delegation (length (delegation_bytes (delegation_lite_of d))) @
                 tlv ndn_Tlv_Link_Preference (nonneg_integer (word_of_int (d_preference d))) @
                 tlv_header ndn_Tlv_Name (length (comps_bytes (n_components (d_name d))))) (n_components (d_name d)))"
  (is "reads _ _ _ _ (_, slices_of (pre @ ?h @ ?p @ ?n) ?cs)")
proof -
  let ?e = "at_pos (pre @ delegation_tlv d)"
  have tl: "delegation_tlv d = ?h @ ?p @ name_tlv ?cs"
    by (simp add: delegation_tlv_def tlv_def [of ndn_Tlv_Link_Delegation] delegation_bytes_def delegation_lite_of_def)
  have len: "length (delegation_bytes (delegation_lite_of d)) = length (?p @ name_tlv ?cs)"
    by (simp add: delegation_bytes_def delegation_lite_of_def)
  have start: "reads (readNestedTlvsStart ndn_Tlv_Link_Delegation) pre ?h ((?p @ name_tlv ?cs) @ post) ?e"
    using reads_readNestedTlvsStart [of pre ndn_Tlv_Link_Delegation "length (delegation_bytes (delegation_lite_of d))"
        "(?p @ name_tlv ?cs) @ post"] s
    by (simp add: tl len add.assoc)
  have pref: "reads (readNonNegativeIntegerTlv ndn_Tlv_Link_Preference) (pre @ ?h) ?p (name_tlv ?cs @ post)
      (word_of_int (d_preference d))"
    using s by (intro reads_readNonNegativeIntegerTlv) (simp add: tl)
  have name: "reads (ndn_decodeTlvName MAX_NAME_COMPONENTS) ((pre @ ?h) @ ?p) (name_tlv ?cs) post
      (let b = ((pre @ ?h) @ ?p) @ ?n in (slices_of b ?cs, at_pos b, at_pos (b @ comps_bytes (butlast ?cs))))"
    using s wf by (intro reads_name) (auto simp: tl delegation_wire_wf_def Name_size_def)
  have fin: "reads (bindD (finishNestedTlvs ?e) (\<lambda>_. retD (to_int (uint (word_of_int (d_preference d) :: u64)), cs)))
      (((pre @ ?h) @ ?p) @ name_tlv ?cs) [] post (d_preference d, cs)" for cs
    using reads_bind_ret [OF reads_finish [of "pre @ delegation_tlv d" post],
        of "\<lambda>_. (to_int (uint (word_of_int (d_preference d) :: u64)), cs)"] wf
    by (simp add: tl delegation_wire_wf_def to_int_word_int)
  let ?b = "((pre @ ?h) @ ?p) @ ?n"
  have name': "reads (ndn_decodeTlvName MAX_NAME_COMPONENTS) ((pre @ ?h) @ ?p) (name_tlv ?cs) ([] @ post)
      (slices_of ?b ?cs, at_pos ?b, at_pos (?b @ comps_bytes (butlast ?cs)))"
    using name unfolding Let_def append_Nil .
  let ?f = "\<lambda>(cs, _ :: size_t, _ :: size_t).
       bindD (finishNestedTlvs ?e) (\<lambda>_. retD (to_int (uint (word_of_int (d_preference d) :: u64)), cs))"
  have "reads (bindD (ndn_decodeTlvName MAX_NAME_COMPONENTS) ?f)
      ((pre @ ?h) @ ?p) (name_tlv ?cs @ []) post (d_preference d, slices_of (pre @ ?h @ ?p @ ?n) ?cs)"
    by (rule reads_bind [OF name']) (unfold prod.case append_assoc, rule fin [unfolded append_assoc])
  then have rest: "reads (bindD (ndn_decodeTlvName MAX_NAME_COMPONENTS) ?f)
      ((pre @ ?h) @ ?p) (name_tlv ?cs) post (d_preference d, slices_of (pre @ ?h @ ?p @ ?n) ?cs)"
    by simp
  show ?thesis
    unfolding ndn_decodeTlvDelegationSet_Delegation_def
    unfolding tl
  proof (rule reads_bind)
    show "reads (readNestedTlvsStart ndn_Tlv_Link_Delegation) pre ?h ((?p @ name_tlv ?cs) @ post) ?e"
      by (rule start)
    show "reads (bindD (readNonNegativeIntegerTlv ndn_Tlv_Link_Preference) (\<lambda>unsignedPreference.
        bindD (ndn_decodeTlvName MAX_NAME_COMPONENTS) (\<lambda>(cs, _, _).
        bindD (finishNestedTlvs ?e) (\<lambda>_. retD (to_int (uint unsignedPreference), cs)))))
      (pre @ ?h) (?p @ name_tlv ?cs) post (d_preference d, slices_of (pre @ ?h @ ?p @ ?n) ?cs)"
      by (rule reads_bind [OF pref]) (rule rest)
  qed
qed

definition delegation_view :: "delegation \<Rightarrow> int \<times> component list" where
  "delegation_view d = (d_preference d, n_components (d_name d))"

lemma delegation_tlv_not_Nil [simp]: "delegation_tlv d \<noteq> []"
  by (simp add: delegation_tlv_def)

lemma decode_delegations_step:
  assumes s: "small_input (delegation_tlv d @ post)" and wf: "delegation_wire_wf d"
  shows "\<exists>d'. delegation_view d' = delegation_view d \<and>
     decode_delegations (delegation_tlv d @ post) self = decode_delegations post (DelegationSet_addUnsorted d' self)"
proof -
  let ?cs = "n_components (d_name d)"
  let ?h = "tlv_header ndn_Tlv_Link_Delegation (length (delegation_bytes (delegation_lite_of d)))"
  let ?p = "tlv ndn_Tlv_Link_Preference (nonneg_integer (word_of_int (d_preference d)))"
  let ?n = "tlv_header ndn_Tlv_Name (length (comps_bytes ?cs))"
  have tl: "delegation_tlv d = (?h @ ?p @ ?n) @ comps_bytes ?cs"
    by (simp add: delegation_tlv_def tlv_def [of ndn_Tlv_Link_Delegation] delegation_bytes_def delegation_lite_of_def
        name_tlv_def tlv_def [of ndn_Tlv_Name] comps_bytes_def)
  have dec: "ndn_decodeTlvDelegationSet_Delegation MAX_NAME_COMPONENTS (delegation_tlv d @ post) 0 =
      Some (Inr ((d_preference d, slices_of (?h @ ?p @ ?n) ?cs), at_pos (delegation_tlv d)))"
    using reads_delegation [of "[]" d post] s wf by (simp add: reads_def)
  have lite: "lite_components (delegation_tlv d @ post) (slices_of (?h @ ?p @ ?n) ?cs) = Some ?cs"
    using lite_components_slices [of "?h @ ?p @ ?n" ?cs post] s wf by (simp add: tl delegation_wire_wf_def)
  have off: "unat (at_pos (delegation_tlv d)) = length (delegation_tlv d)"
    using s by (simp add: at_pos_def small_input_def)
  let ?d = "\<lparr>d_preference = d_preference d,
     d_name = Name_set_lite \<lparr>cn_components = ?cs, cn_maxComponents = MAX_NAME_COMPONENTS\<rparr> Name_empty\<rparr>"
  have "decode_delegations (delegation_tlv d @ post) self = decode_delegations post (DelegationSet_addUnsorted ?d self)"
    by (subst decode_delegations.simps) (simp add: dec lite off)
  moreover have "delegation_view ?d = delegation_view d"
    by (simp add: delegation_view_def Name_set_lite_def n_components_fold_append Name_clear_def)
  ultimately show ?thesis by blast
qed

lemma decode_delegations_ok:
  assumes "\<forall>d \<in> set ds. delegation_wire_wf d" and "small_input (concat (map delegation_tlv ds))"
  shows "\<exists>t. decode_delegations (concat (map delegation_tlv ds)) self = Some (None, t) \<and>
             map delegation_view (ds_delegations t) = map delegation_view (ds_delegations self) @ map delegation_view ds"
  using assms
proof (induction ds arbitrary: self)
  case Nil
  then show ?case by (simp add: decode_delegations.simps)
next
  case (Cons d ds)
  obtain d' where d': "delegation_view d' = delegation_view d"
    "decode_delegations (delegation_tlv d @ concat (map delegation_tlv ds)) self =
     decode_delegations (concat (map delegation_tlv ds)) (DelegationSet_addUnsorted d' self)"
    using decode_delegations_step [of d "concat (map delegation_tlv ds)" self] Cons.prems by auto
  have "small_input (concat (map delegation_tlv ds))" using Cons.prems(2) by (simp add: small_input_def)
  with Cons.IH [of "DelegationSet_addUnsorted d' self"] Cons.prems(1) d' show ?case
    by (auto simp: DelegationSet_addUnsorted_def)
qed

section \<open>Properties\<close>

text \<open>
  C7. A delegation set is a finite map from names to preferences, kept sorted: \<^verbatim>\<open>add\<close> and \<^verbatim>\<open>remove\<close>
  implement update and deletion, keep the list sorted by preference and name with one entry for each name,
  and \<^verbatim>\<open>find\<close> returns the index of the entry, or -1 when there is none.
\<close>

theorem delegation_set_refines_map:
  assumes "delegation_set_wf self" and "small_name name"
  shows "delegation_set_wf (DelegationSet_add preference name self) \<and>
    delegation_map (DelegationSet_add preference name self) = (delegation_map self)(name_values name \<mapsto> preference) \<and>
    delegation_set_wf (snd (DelegationSet_remove name self)) \<and>
    delegation_map (snd (DelegationSet_remove name self)) = (delegation_map self)(name_values name := None) \<and>
    fst (DelegationSet_remove name self) = (delegation_map self (name_values name) \<noteq> None) \<and>
    (case delegation_map self (name_values name) of
       None \<Rightarrow> DelegationSet_find name self = -1
     | Some p \<Rightarrow> \<exists>d. DelegationSet_get (nat (DelegationSet_find name self)) self = Inr d \<and>
                    DelegationSet_find name self \<ge> 0 \<and> Name_equals (d_name d) name \<and> d_preference d = p)"
  using delegation_set_wf_add [OF assms] delegation_map_add [OF assms] delegation_set_wf_remove [OF assms(1)]
    delegation_map_remove [OF assms(1)] DelegationSet_find_map [OF assms(1), of name]
    delegation_map_iff [OF assms(1), of "name_values name"] DelegationSet_remove(2) [of name self]
  by (auto simp: Name_equals_values)

definition name1 :: "string \<Rightarrow> name" where
  "name1 s = Name_of [Component_generic (Some (str s))]"

lemma delegation_set_refines_map_witness:
  "let s = DelegationSet_add 10 (name1 ''a'') DelegationSet_new in
   delegation_map (DelegationSet_add 5 (name1 ''b'') s) (name_values (name1 ''b'')) = Some 5"
  using delegation_set_refines_map
    [OF conjunct1 [OF delegation_set_refines_map [OF delegation_set_wf_new(1), of "name1 ''a''" 10]], of "name1 ''b''" 5]
  by (simp add: Let_def small_name_def Name_size_def name1_def)

text \<open>
  The cached wire encoding is never stale: after any sequence of changes, assignments from sound
  objects and encodings of a new delegation set, encoding it with the TLV format returns the TLV encoding
  of the delegations it holds then, or the error of encoding them.
\<close>

theorem delegation_encoding_never_stale:
  assumes "2 * length ops < 2 ^ 64" and "\<forall>t. AssignOp t \<in> set ops \<longrightarrow> delegation_cache_wf t"
    and "enc 0 = Tlv_encodeDelegationSet"
  shows "fst (DelegationSet_wireEncode enc 0 0 (fold (delegation_op_step enc) ops DelegationSet_new)) =
         Tlv_encodeDelegationSet (ds_delegations (fold (delegation_op_step enc) ops DelegationSet_new))"
proof -
  have "delegation_cache_wf (fold (delegation_op_step enc) ops DelegationSet_new)"
    using assms by (intro delegation_ops_wf delegation_cache_wf_new) (simp_all add: DelegationSet_new_def)
  then show ?thesis using assms(3) by (rule delegation_cache_wf_wireEncode(2))
qed

lemma delegation_encoding_never_stale_witness:
  "let enc = (\<lambda>_. Tlv_encodeDelegationSet) in
   fst (DelegationSet_wireEncode enc 0 0 (fold (delegation_op_step enc)
     [AddOp 3 (name1 ''a''), EncodeOp 0, ClearOp] DelegationSet_new)) = Inr []"
  using delegation_encoding_never_stale [of "[AddOp 3 (name1 ''a''), EncodeOp 0, ClearOp]" "\<lambda>_. Tlv_encodeDelegationSet"]
  by (simp add: Let_def DelegationSet_clear_def Tlv_encodeDelegationSet_def TlvEncoder_finish_def TlvEncoder_new_def)

text \<open>
  Decoding the TLV encoding of a list of delegations gives back the preferences and names in order,
  for every preference an \<^verbatim>\<open>int\<close> holds, negative ones included.
\<close>

theorem delegation_set_roundtrip:
  assumes "\<forall>d \<in> set ds. delegation_wire_wf d" and "small_input (concat (map delegation_tlv ds))"
  shows "\<exists>bs t. Tlv_encodeDelegationSet ds = Inr bs \<and> Tlv_decodeDelegationSet bs self = Some (None, t) \<and>
                map delegation_view (ds_delegations t) = map delegation_view ds"
  using Tlv_encodeDelegationSet_ok [OF assms(1)] decode_delegations_ok [OF assms, of "DelegationSet_clear self"]
  by (auto simp: Tlv_decodeDelegationSet_def DelegationSet_clear_def)

lemma delegation_set_roundtrip_witness:
  "let ds = [\<lparr>d_preference = -7, d_name = name1 ''a''\<rparr>] in
   \<exists>bs t. Tlv_encodeDelegationSet ds = Inr bs \<and> Tlv_decodeDelegationSet bs DelegationSet_new = Some (None, t) \<and>
          map delegation_view (ds_delegations t) = map delegation_view ds"
proof -
  let ?d = "\<lparr>d_preference = -7, d_name = name1 ''a''\<rparr>"
  have "delegation_wire_wf ?d"
    by (simp add: delegation_wire_wf_def name1_def wire_wf_def component_wf_def Component_generic_def
        is_digest_def Name_size_def MAX_NAME_COMPONENTS_def)
  moreover have "length (delegation_tlv ?d) \<le> 100"
    using length_tlv_le [of ndn_Tlv_Link_Delegation "delegation_bytes (delegation_lite_of ?d)"]
      length_tlv_le [of ndn_Tlv_Link_Preference "nonneg_integer (word_of_int (-7))"]
      length_nonneg_integer_le [of "word_of_int (-7)"]
      length_tlv_le [of ndn_Tlv_Name "component_tlv (Component_generic (Some (str ''a'')))"]
      length_tlv_le [of 8 "str ''a''"]
    by (simp add: delegation_tlv_def delegation_bytes_def delegation_lite_of_def name1_def name_tlv_def
        component_tlv_def Component_generic_def component_tlv_type_def)
  then have "small_input (delegation_tlv ?d)" by (simp add: small_input_def)
  ultimately show ?thesis
    using delegation_set_roundtrip [of "[?d]" DelegationSet_new] by (simp add: Let_def)
qed

end
