(* ===== verification/TlvInterest.thy ===== *)
theory TlvInterest
  imports KeyLocator ExcludeFilter TlvPacket
begin

text \<open>
  The TLV encoding of an Interest (\<^verbatim>\<open>tlv-interest.c\<close>): the encoders of formats 0.2 and 0.3, and the
  decoder that tries 0.3 first.
\<close>

section \<open>The C struct\<close>

definition ndn_Tlv_Interest :: u32 where "ndn_Tlv_Interest = 5"
definition ndn_Tlv_Selectors :: u32 where "ndn_Tlv_Selectors = 9"
definition ndn_Tlv_Nonce :: u32 where "ndn_Tlv_Nonce = 10"
definition ndn_Tlv_InterestLifetime :: u32 where "ndn_Tlv_InterestLifetime = 12"
definition ndn_Tlv_MinSuffixComponents :: u32 where "ndn_Tlv_MinSuffixComponents = 13"
definition ndn_Tlv_MaxSuffixComponents :: u32 where "ndn_Tlv_MaxSuffixComponents = 14"
definition ndn_Tlv_PublisherPublicKeyLocator :: u32 where "ndn_Tlv_PublisherPublicKeyLocator = 15"
definition ndn_Tlv_Exclude :: u32 where "ndn_Tlv_Exclude = 16"
definition ndn_Tlv_ChildSelector :: u32 where "ndn_Tlv_ChildSelector = 17"
definition ndn_Tlv_MustBeFresh :: u32 where "ndn_Tlv_MustBeFresh = 18"
definition ndn_Tlv_Any :: u32 where "ndn_Tlv_Any = 19"
definition ndn_Tlv_ForwardingHint :: u32 where "ndn_Tlv_ForwardingHint = 30"
definition ndn_Tlv_SelectedDelegation :: u32 where "ndn_Tlv_SelectedDelegation = 32"
definition ndn_Tlv_CanBePrefix :: u32 where "ndn_Tlv_CanBePrefix = 33"
definition ndn_Tlv_HopLimit :: u32 where "ndn_Tlv_HopLimit = 34"
definition ndn_Tlv_ApplicationParameters :: u32 where "ndn_Tlv_ApplicationParameters = 36"

lemmas interest_types =
  ndn_Tlv_Interest_def ndn_Tlv_Data_def ndn_Tlv_Selectors_def ndn_Tlv_Nonce_def ndn_Tlv_InterestLifetime_def
  ndn_Tlv_MinSuffixComponents_def ndn_Tlv_MaxSuffixComponents_def ndn_Tlv_PublisherPublicKeyLocator_def
  ndn_Tlv_Exclude_def ndn_Tlv_ChildSelector_def ndn_Tlv_MustBeFresh_def ndn_Tlv_Any_def
  ndn_Tlv_ForwardingHint_def ndn_Tlv_SelectedDelegation_def ndn_Tlv_CanBePrefix_def ndn_Tlv_HopLimit_def
  ndn_Tlv_ApplicationParameters_def

text \<open>
  \<^verbatim>\<open>ndn_Interest\<close>.  As for a key locator, components and blobs are those of the C++ object or slices of
  the input.  An exclude entry is None for ANY.
\<close>

record ('c, 'b) ndn_Interest =
  ci_name :: "'c list"
  ci_minSuffixComponents :: int
  ci_maxSuffixComponents :: int
  ci_keyLocator :: "('c, 'b) ndn_KeyLocator"
  ci_exclude :: "'c option list"
  ci_childSelector :: int
  ci_mustBeFresh :: bool
  ci_interestLifetimeMilliseconds :: real
  ci_nonce :: 'b
  ci_forwardingHintWireEncoding :: 'b
  ci_applicationParameters :: 'b
  ci_linkWireEncoding :: 'b
  ci_selectedDelegationIndex :: int

definition ndn_Interest_getCanBePrefix :: "('c, 'b) ndn_Interest \<Rightarrow> bool" where
  "ndn_Interest_getCanBePrefix self \<longleftrightarrow> ci_maxSuffixComponents self \<noteq> 1"

definition ndn_Interest_setCanBePrefix :: "bool \<Rightarrow> ('c, 'b) ndn_Interest \<Rightarrow> ('c, 'b) ndn_Interest" where
  "ndn_Interest_setCanBePrefix canBePrefix self =
     self\<lparr>ci_maxSuffixComponents := (if canBePrefix then -1 else 1)\<rparr>"

definition ndn_Interest_initialize :: "bool \<Rightarrow> ('c, 'b option) ndn_Interest" where
  "ndn_Interest_initialize defaultCanBePrefix =
     \<lparr>ci_name = [], ci_minSuffixComponents = -1,
      ci_maxSuffixComponents = (if defaultCanBePrefix then -1 else 1),
      ci_keyLocator = ndn_KeyLocator_initialize, ci_exclude = [], ci_childSelector = -1, ci_mustBeFresh = False,
      ci_interestLifetimeMilliseconds = -1, ci_nonce = None, ci_forwardingHintWireEncoding = None,
      ci_applicationParameters = None, ci_linkWireEncoding = None, ci_selectedDelegationIndex = -1\<rparr>"

section \<open>The encoders\<close>

type_synonym c_interest = "(component, blob) ndn_Interest"

fun encodeExcludeValue :: "component option list \<Rightarrow> tlv_encoder \<Rightarrow> ndn_error + tlv_encoder" where
  "encodeExcludeValue [] e = Inr e"
| "encodeExcludeValue (entry # entries) e =
     bindE (case entry of
              Some c \<Rightarrow> ndn_encodeTlvNameComponent c e
            | None \<Rightarrow> writeTypeAndLength ndn_Tlv_Any 0 e) (encodeExcludeValue entries)"

definition encodeSelectorsValue :: "c_interest \<Rightarrow> tlv_encoder \<Rightarrow> ndn_error + tlv_encoder" where
  "encodeSelectorsValue interest e =
     bindE (writeOptionalNonNegativeIntegerTlv ndn_Tlv_MinSuffixComponents (ci_minSuffixComponents interest) e) (\<lambda>e.
     bindE (writeOptionalNonNegativeIntegerTlv ndn_Tlv_MaxSuffixComponents (ci_maxSuffixComponents interest) e) (\<lambda>e.
     bindE (writeNestedTlv ndn_Tlv_PublisherPublicKeyLocator
              (ndn_encodeTlvKeyLocatorValue (ci_keyLocator interest)) True e) (\<lambda>e.
     bindE (if length (ci_exclude interest) > 0
            then writeNestedTlv ndn_Tlv_Exclude (encodeExcludeValue (ci_exclude interest)) False e
            else Inr e) (\<lambda>e.
     bindE (writeOptionalNonNegativeIntegerTlv ndn_Tlv_ChildSelector (ci_childSelector interest) e) (\<lambda>e.
       if ci_mustBeFresh interest then writeTypeAndLength ndn_Tlv_MustBeFresh 0 e else Inr e)))))"

text \<open>
  The nonce, padded with random bytes or cut to 4 bytes.  \<^verbatim>\<open>random\<close> is \<^verbatim>\<open>ndn_generateRandomBytes\<close>; its first
  argument tells the two passes of \<^verbatim>\<open>writeNestedTlv\<close> apart, which draw different bytes.
\<close>

definition nonce4 :: "(nat \<Rightarrow> ndn_error + bytes) \<Rightarrow> blob \<Rightarrow> ndn_error + bytes" where
  "nonce4 random nonce =
     (let n = blob_bytes nonce in
      if length n = 0 then random 4
      else if length n < 4 then bindE (random (4 - length n)) (\<lambda>r. Inr (n @ r))
      else Inr (take 4 n))"

definition writeNonce :: "(bool \<Rightarrow> nat \<Rightarrow> ndn_error + bytes) \<Rightarrow> blob \<Rightarrow> tlv_encoder \<Rightarrow> ndn_error + tlv_encoder" where
  "writeNonce random nonce e =
     bindE (nonce4 (random (enableOutput e)) nonce) (\<lambda>n. writeBlobTlv ndn_Tlv_Nonce n e)"

definition encodeInterestFieldsV02 ::
  "(bool \<Rightarrow> nat \<Rightarrow> ndn_error + bytes) \<Rightarrow> c_interest \<Rightarrow> tlv_encoder \<Rightarrow> ndn_error + tlv_encoder" where
  "encodeInterestFieldsV02 random interest e =
     bindE (writeNestedTlv ndn_Tlv_Selectors (encodeSelectorsValue interest) True e) (\<lambda>e.
     bindE (writeNonce random (ci_nonce interest) e) (\<lambda>e.
     bindE (writeOptionalNonNegativeIntegerTlvFromDouble ndn_Tlv_InterestLifetime
              (ci_interestLifetimeMilliseconds interest) e) (\<lambda>e.
     bindE (if blob_size (ci_forwardingHintWireEncoding interest) > 0
            then if ci_selectedDelegationIndex interest \<ge> 0
                 then Inl NDN_ERROR_An_Interest_may_not_have_a_selected_delegation_when_encoding_a_forwarding_hint
                 else if ci_linkWireEncoding interest \<noteq> None
                 then Inl NDN_ERROR_An_Interest_may_not_have_a_link_object_when_encoding_a_forwarding_hint
                 else writeBlobTlv ndn_Tlv_ForwardingHint (blob_bytes (ci_forwardingHintWireEncoding interest)) e
            else Inr e) (\<lambda>e.
     bindE (case ci_linkWireEncoding interest of Some l \<Rightarrow> writeArray l e | None \<Rightarrow> Inr e) (\<lambda>e.
       writeOptionalNonNegativeIntegerTlv ndn_Tlv_SelectedDelegation (ci_selectedDelegationIndex interest) e)))))"

definition encodeInterestFieldsV03 ::
  "(bool \<Rightarrow> nat \<Rightarrow> ndn_error + bytes) \<Rightarrow> c_interest \<Rightarrow> tlv_encoder \<Rightarrow> ndn_error + tlv_encoder" where
  "encodeInterestFieldsV03 random interest e =
     bindE (if ndn_Interest_getCanBePrefix interest then writeTypeAndLength ndn_Tlv_CanBePrefix 0 e else Inr e) (\<lambda>e.
     bindE (if ci_mustBeFresh interest then writeTypeAndLength ndn_Tlv_MustBeFresh 0 e else Inr e) (\<lambda>e.
     bindE (if blob_size (ci_forwardingHintWireEncoding interest) > 0
            then writeBlobTlv ndn_Tlv_ForwardingHint (blob_bytes (ci_forwardingHintWireEncoding interest)) e
            else Inr e) (\<lambda>e.
     bindE (writeNonce random (ci_nonce interest) e) (\<lambda>e.
     bindE (writeOptionalNonNegativeIntegerTlvFromDouble ndn_Tlv_InterestLifetime
              (ci_interestLifetimeMilliseconds interest) e) (\<lambda>e.
       writeOptionalBlobTlv ndn_Tlv_ApplicationParameters (ci_applicationParameters interest) e)))))"

text \<open>The value is the name, which reports the signed portion, and then the fields of the format.\<close>

definition encodeInterestValue ::
  "(c_interest \<Rightarrow> tlv_encoder \<Rightarrow> ndn_error + tlv_encoder) \<Rightarrow> c_interest \<Rightarrow> tlv_encoder \<Rightarrow>
   ndn_error + (nat \<times> nat) \<times> tlv_encoder" where
  "encodeInterestValue writeFields interest e =
     bindE (ndn_encodeTlvName (ci_name interest) e) (\<lambda>(signed, e).
     bindE (writeFields interest e) (\<lambda>e. Inr (signed, e)))"

definition ndn_encodeTlvInterestV0_2 ::
  "(bool \<Rightarrow> nat \<Rightarrow> ndn_error + bytes) \<Rightarrow> c_interest \<Rightarrow> tlv_encoder \<Rightarrow> ndn_error + (nat \<times> nat) \<times> tlv_encoder" where
  "ndn_encodeTlvInterestV0_2 random interest =
     writeNestedTlv_ret ndn_Tlv_Interest (encodeInterestValue (encodeInterestFieldsV02 random) interest) False"

definition ndn_encodeTlvInterestV0_3 ::
  "(bool \<Rightarrow> nat \<Rightarrow> ndn_error + bytes) \<Rightarrow> c_interest \<Rightarrow> tlv_encoder \<Rightarrow> ndn_error + (nat \<times> nat) \<times> tlv_encoder" where
  "ndn_encodeTlvInterestV0_3 random interest =
     writeNestedTlv_ret ndn_Tlv_Interest (encodeInterestValue (encodeInterestFieldsV03 random) interest) False"

section \<open>The decoder\<close>

type_synonym interest_slices = "(component_slice, slice option) ndn_Interest"

fun decode_exclude_entries :: "nat \<Rightarrow> size_t \<Rightarrow> component_slice option list dec" where
  "decode_exclude_entries room endOffset input off =
     (if off < endOffset
      then bindD (peekType ndn_Tlv_Any endOffset) (\<lambda>gotExpectedTag.
             if gotExpectedTag
             then bindD (readBooleanTlv ndn_Tlv_Any endOffset) (\<lambda>_.
                  case room of
                    0 \<Rightarrow> failD NDN_ERROR_cannot_add_an_entry_past_the_maximum_number_of_entries_allowed_in_the_exclude
                  | Suc room' \<Rightarrow>
                      bindD (decode_exclude_entries room' endOffset) (\<lambda>es. retD (None # es)))
             else case room of
                    0 \<Rightarrow> failD NDN_ERROR_cannot_add_an_entry_past_the_maximum_number_of_entries_allowed_in_the_exclude
                  | Suc room' \<Rightarrow>
                      bindD ndn_decodeTlvNameComponent (\<lambda>c.
                      bindD (decode_exclude_entries room' endOffset) (\<lambda>es. retD (Some c # es)))) input off
      else Some (Inr ([], off)))"

declare decode_exclude_entries.simps [simp del]

definition decodeExclude :: "nat \<Rightarrow> component_slice option list dec" where
  "decodeExclude maxEntries =
     bindD (readNestedTlvsStart ndn_Tlv_Exclude) (\<lambda>endOffset.
     bindD (decode_exclude_entries maxEntries endOffset) (\<lambda>es.
     bindD (finishNestedTlvs endOffset) (\<lambda>_. retD es)))"

definition decodeSelectors :: "nat \<Rightarrow> nat \<Rightarrow> interest_slices \<Rightarrow> interest_slices dec" where
  "decodeSelectors maxEntries maxKeyComponents interest =
     bindD (readNestedTlvsStart ndn_Tlv_Selectors) (\<lambda>endOffset.
     bindD (readOptionalNonNegativeIntegerTlv ndn_Tlv_MinSuffixComponents endOffset) (\<lambda>minSuffix.
     bindD (readOptionalNonNegativeIntegerTlv ndn_Tlv_MaxSuffixComponents endOffset) (\<lambda>maxSuffix.
     bindD (peekType ndn_Tlv_PublisherPublicKeyLocator endOffset) (\<lambda>gotExpectedType.
     bindD (if gotExpectedType then ndn_decodeTlvKeyLocator ndn_Tlv_PublisherPublicKeyLocator maxKeyComponents
            else retD ndn_KeyLocator_initialize) (\<lambda>keyLocator.
     bindD (peekType ndn_Tlv_Exclude endOffset) (\<lambda>gotExpectedType.
     bindD (if gotExpectedType then decodeExclude maxEntries else retD []) (\<lambda>exclude.
     bindD (readOptionalNonNegativeIntegerTlv ndn_Tlv_ChildSelector endOffset) (\<lambda>childSelector.
     bindD (readBooleanTlv ndn_Tlv_MustBeFresh endOffset) (\<lambda>mustBeFresh.
     bindD (finishNestedTlvs endOffset) (\<lambda>_.
       retD (interest\<lparr>ci_minSuffixComponents := minSuffix, ci_maxSuffixComponents := maxSuffix,
                      ci_keyLocator := keyLocator, ci_exclude := exclude, ci_childSelector := childSelector,
                      ci_mustBeFresh := mustBeFresh\<rparr>)))))))))))"

text \<open>\<^verbatim>\<open>maxes\<close> are the sizes of the arrays for the name, the exclude entries and the key name.\<close>

definition ndn_decodeTlvInterestV02 ::
  "nat \<times> nat \<times> nat \<Rightarrow> interest_slices \<Rightarrow> (interest_slices \<times> size_t \<times> size_t) dec" where
  "ndn_decodeTlvInterestV02 maxes interest =
     (case maxes of (maxName, maxEntries, maxKeyName) \<Rightarrow>
     bindD (readNestedTlvsStart ndn_Tlv_Interest) (\<lambda>endOffset.
     bindD (ndn_decodeTlvName maxName) (\<lambda>(name, signedBegin, signedEnd).
     bindD (peekType ndn_Tlv_Selectors endOffset) (\<lambda>gotExpectedType.
     bindD (if gotExpectedType then decodeSelectors maxEntries maxKeyName (interest\<lparr>ci_name := name\<rparr>)
            else retD (interest\<lparr>ci_name := name, ci_minSuffixComponents := -1, ci_maxSuffixComponents := -1,
                                ci_keyLocator := ndn_KeyLocator_initialize, ci_exclude := [],
                                ci_childSelector := -1, ci_mustBeFresh := False\<rparr>)) (\<lambda>interest.
     bindD (readBlobTlv ndn_Tlv_Nonce) (\<lambda>nonce.
     bindD (readOptionalNonNegativeIntegerTlvAsDouble ndn_Tlv_InterestLifetime endOffset) (\<lambda>lifetime.
     bindD (readOptionalBlobTlv ndn_Tlv_ForwardingHint endOffset) (\<lambda>forwardingHint.
     bindD (peekType ndn_Tlv_Data endOffset) (\<lambda>gotExpectedType.
     bindD (if gotExpectedType
            then bindD getOffset (\<lambda>linkBeginOffset.
                 bindD (readNestedTlvsStart ndn_Tlv_Data) (\<lambda>linkEndOffset.
                 bindD (TlvDecoder_seek linkEndOffset) (\<lambda>_.
                 bindD (getSlice linkBeginOffset linkEndOffset) (\<lambda>s. retD (Some s)))))
            else retD None) (\<lambda>link.
     bindD (readOptionalNonNegativeIntegerTlv ndn_Tlv_SelectedDelegation endOffset) (\<lambda>selected.
     bindD (if selected \<ge> 0 \<and> link = None
            then failD NDN_ERROR_Interest_has_a_selected_delegation_but_no_link_object else retD ()) (\<lambda>_.
     bindD (finishNestedTlvs endOffset) (\<lambda>_.
       retD (interest\<lparr>ci_nonce := Some nonce, ci_interestLifetimeMilliseconds := lifetime,
                      ci_forwardingHintWireEncoding := forwardingHint, ci_linkWireEncoding := link,
                      ci_selectedDelegationIndex := selected, ci_applicationParameters := None\<rparr>,
             signedBegin, signedEnd))))))))))))))"

definition ndn_decodeTlvInterestV03 ::
  "nat \<times> nat \<times> nat \<Rightarrow> interest_slices \<Rightarrow> (interest_slices \<times> size_t \<times> size_t) dec" where
  "ndn_decodeTlvInterestV03 maxes interest =
     bindD (readNestedTlvsStart ndn_Tlv_Interest) (\<lambda>endOffset.
     bindD (ndn_decodeTlvName (fst maxes)) (\<lambda>(name, signedBegin, signedEnd).
     bindD (readBooleanTlv ndn_Tlv_CanBePrefix endOffset) (\<lambda>canBePrefix.
     bindD (readBooleanTlv ndn_Tlv_MustBeFresh endOffset) (\<lambda>mustBeFresh.
     bindD (readOptionalBlobTlv ndn_Tlv_ForwardingHint endOffset) (\<lambda>forwardingHint.
     bindD (readOptionalBlobTlv ndn_Tlv_Nonce endOffset) (\<lambda>nonce.
     bindD (readOptionalNonNegativeIntegerTlvAsDouble ndn_Tlv_InterestLifetime endOffset) (\<lambda>lifetime.
     bindD (readOptionalBlobTlv ndn_Tlv_HopLimit endOffset) (\<lambda>_.
     bindD (readOptionalBlobTlv ndn_Tlv_ApplicationParameters endOffset) (\<lambda>applicationParameters.
     bindD (finishNestedTlvs endOffset) (\<lambda>_.
       retD ((ndn_Interest_setCanBePrefix canBePrefix interest)
               \<lparr>ci_name := name, ci_mustBeFresh := mustBeFresh, ci_forwardingHintWireEncoding := forwardingHint,
                ci_nonce := nonce, ci_interestLifetimeMilliseconds := lifetime, ci_minSuffixComponents := -1,
                ci_keyLocator := ndn_KeyLocator_initialize, ci_exclude := [], ci_childSelector := -1,
                ci_linkWireEncoding := None, ci_selectedDelegationIndex := -1,
                ci_applicationParameters := applicationParameters\<rparr>,
             signedBegin, signedEnd)))))))))))"

text \<open>
  Format 0.3 first, then 0.2 from the same offset.  The second attempt sets every field again, so the
  struct the first one left half-filled does not show.
\<close>

definition ndn_decodeTlvInterest ::
  "nat \<times> nat \<times> nat \<Rightarrow> interest_slices \<Rightarrow> (interest_slices \<times> size_t \<times> size_t) dec" where
  "ndn_decodeTlvInterest maxes interest input off =
     (case ndn_decodeTlvInterestV03 maxes interest input off of
        None \<Rightarrow> None
      | Some (Inr r) \<Rightarrow> Some (Inr r)
      | Some (Inl errorV03) \<Rightarrow>
          (case ndn_decodeTlvInterestV02 maxes interest input off of
             None \<Rightarrow> None
           | Some (Inr r) \<Rightarrow> Some (Inr r)
           | Some (Inl _) \<Rightarrow> Some (Inl errorV03)))"

section \<open>Decoding arbitrary input\<close>

lemma keeps_bounds_exclude_entries [bounds]: "keeps_bounds (decode_exclude_entries room endOffset)"
proof (induction room rule: less_induct)
  case (less room)
  show ?case
    by (rule keeps_bounds_loop [OF trans [OF decode_exclude_entries.simps if_P]
          trans [OF decode_exclude_entries.simps if_not_P]])
       (assumption, assumption, intro bounds keeps_bounds_nat less, simp_all)
qed

lemma keeps_bounds_exclude [bounds]: "keeps_bounds (decodeExclude maxEntries)"
  unfolding decodeExclude_def by (intro bounds)

lemma keeps_bounds_selectors [bounds]: "keeps_bounds (decodeSelectors maxEntries maxKeyComponents interest)"
  unfolding decodeSelectors_def by (intro bounds)

lemma readNestedTlvsStart_end:
  "readNestedTlvsStart type input off = Some (Inr (endOffset, off')) \<Longrightarrow> endOffset \<le> inputLength input"
  by (auto simp: readNestedTlvsStart_def readTypeAndLength_def bindD_def getOffset_def retD_def not_less failD_def
      split: option.splits sum.splits if_splits)

lemma keeps_bounds_link [bounds]:
  "keeps_bounds (bindD getOffset (\<lambda>linkBeginOffset.
     bindD (readNestedTlvsStart type) (\<lambda>linkEndOffset.
     bindD (TlvDecoder_seek linkEndOffset) (\<lambda>_.
     bindD (getSlice linkBeginOffset linkEndOffset) (\<lambda>s. retD (f s))))))"
  unfolding keeps_bounds_def bindD_ok
proof (intro allI impI, elim conjE exE)
  fix input off v off' b off1 e off2 u off3 s off4
  assume nested: "readNestedTlvsStart type input off1 = Some (Inr (e, off2))"
    and seek: "TlvDecoder_seek e input off2 = Some (Inr (u, off3))"
    and slice: "getSlice b e input off3 = Some (Inr (s, off4))"
    and ret: "retD (f s) input off4 = Some (Inr (v, off'))"
  have "off3 = e" using seek by (simp add: TlvDecoder_seek_def)
  moreover have "off4 = off3" using slice by (rule getSlice_offset)
  moreover have "off' = off4" using ret by (simp add: retD_def)
  ultimately show "off' \<le> inputLength input" using readNestedTlvsStart_end [OF nested] by simp
qed

lemma keeps_bounds_interest_V02 [bounds]: "keeps_bounds (ndn_decodeTlvInterestV02 maxes interest)"
  unfolding ndn_decodeTlvInterestV02_def by (intro bounds)

lemma keeps_bounds_interest_V03 [bounds]: "keeps_bounds (ndn_decodeTlvInterestV03 maxes interest)"
  unfolding ndn_decodeTlvInterestV03_def by (intro bounds)

lemma decodeTlvInterest_ok:
  "ndn_decodeTlvInterest maxes interest input off = Some (Inr r) \<Longrightarrow>
   ndn_decodeTlvInterestV03 maxes interest input off = Some (Inr r) \<or>
   ndn_decodeTlvInterestV02 maxes interest input off = Some (Inr r)"
  by (simp add: ndn_decodeTlvInterest_def split: option.splits sum.splits)

lemma keeps_bounds_interest [bounds]: "keeps_bounds (ndn_decodeTlvInterest maxes interest)"
  unfolding keeps_bounds_def [of "ndn_decodeTlvInterest maxes interest"]
proof (intro allI impI, elim conjE)
  fix input off v off'
  assume "small_input input" "off \<le> inputLength input"
    and "ndn_decodeTlvInterest maxes interest input off = Some (Inr (v, off'))"
  then show "off' \<le> inputLength input"
    using keeps_boundsD [OF keeps_bounds_interest_V02] keeps_boundsD [OF keeps_bounds_interest_V03]
    by (metis decodeTlvInterest_ok)
qed

section \<open>What the encoder of format 0.3 writes\<close>

text \<open>The random bytes: any function that returns as many bytes as it is asked for.\<close>

definition random_ok :: "(bool \<Rightarrow> nat \<Rightarrow> ndn_error + bytes) \<Rightarrow> bool" where
  "random_ok random \<longleftrightarrow> (\<forall>b n. \<exists>r. random b n = Inr r \<and> length r = n)"

lemma nonce4_length: "random_ok random \<Longrightarrow> \<exists>n. nonce4 (random b) nonce = Inr n \<and> length n = 4"
proof -
  assume ok: "random_ok random"
  obtain r where r: "random b 4 = Inr r" "length r = 4" using ok by (auto simp: random_ok_def)
  obtain r' where r': "random b (4 - length (blob_bytes nonce)) = Inr r'" "length r' = 4 - length (blob_bytes nonce)"
    using ok unfolding random_ok_def by blast
  show ?thesis using r r' by (auto simp: nonce4_def Let_def)
qed

definition nonce_sent :: "(bool \<Rightarrow> nat \<Rightarrow> ndn_error + bytes) \<Rightarrow> blob \<Rightarrow> bytes" where
  "nonce_sent random nonce = (case nonce4 (random True) nonce of Inr n \<Rightarrow> n | Inl _ \<Rightarrow> [])"

lemma length_nonce_sent: "random_ok random \<Longrightarrow> length (nonce_sent random nonce) = 4"
  using nonce4_length [of random True nonce] by (auto simp: nonce_sent_def)

lemma emits_writeNonce: "random_ok random \<Longrightarrow> emits (writeNonce random nonce) (tlv ndn_Tlv_Nonce (nonce_sent random nonce))"
proof (rule emitsI)
  assume ok: "random_ok random"
  fix e :: tlv_encoder
  {
    assume "\<not> enableOutput e"
    moreover obtain n where n: "nonce4 (random False) nonce = Inr n" "length n = 4"
      using nonce4_length [OF ok] by blast
    moreover have "writeBlobTlv ndn_Tlv_Nonce n e = Inr (advance (length (tlv ndn_Tlv_Nonce n)) e)"
      using emits_disabled [OF emits_writeBlobTlv] calculation(1) .
    ultimately show "writeNonce random nonce e = Inr (advance (length (tlv ndn_Tlv_Nonce (nonce_sent random nonce))) e)"
      using length_nonce_sent [OF ok, of nonce] by (simp add: writeNonce_def length_tlv sizeOfBlobTlv_def)
  next
    assume r: "ready e"
    then have "enableOutput e" by (simp add: ready_def)
    moreover have "nonce4 (random True) nonce = Inr (nonce_sent random nonce)"
      using nonce4_length [OF ok, of True nonce] by (auto simp: nonce_sent_def)
    ultimately show "\<exists>e'. writeNonce random nonce e = Inr e' \<and> ready e' \<and>
        enc_out e' = enc_out e @ tlv ndn_Tlv_Nonce (nonce_sent random nonce)"
      using emits_enabled [OF emits_writeBlobTlv r] by (simp add: writeNonce_def)
  }
qed

text \<open>The bytes after the name in format 0.3.\<close>

definition interest_fields_V03 :: "bytes \<Rightarrow> c_interest \<Rightarrow> bytes" where
  "interest_fields_V03 nonce i =
     flag_tlv ndn_Tlv_CanBePrefix (ndn_Interest_getCanBePrefix i) @
     flag_tlv ndn_Tlv_MustBeFresh (ci_mustBeFresh i) @
     optional_blob_tlv ndn_Tlv_ForwardingHint (ci_forwardingHintWireEncoding i) @
     tlv ndn_Tlv_Nonce nonce @
     optional_double_tlv ndn_Tlv_InterestLifetime (ci_interestLifetimeMilliseconds i) @
     optional_blob_tlv ndn_Tlv_ApplicationParameters (ci_applicationParameters i)"

lemma emits_fields_V03:
  assumes "random_ok random"
  shows "emits (encodeInterestFieldsV03 random i) (interest_fields_V03 (nonce_sent random (ci_nonce i)) i)"
  unfolding encodeInterestFieldsV03_def [abs_def] interest_fields_V03_def
  by (intro emits_seq emits_flag emits_optional_blob emits_writeNonce [OF assms] emits_optional_double
      emits_writeOptionalBlobTlv)

definition interest_value_V03 :: "bytes \<Rightarrow> c_interest \<Rightarrow> bytes" where
  "interest_value_V03 nonce i = name_tlv (ci_name i) @ interest_fields_V03 nonce i"

text \<open>The offsets of the signed portion, when the Interest starts at offset \<^verbatim>\<open>off\<close>.\<close>

definition signed_portion :: "nat \<Rightarrow> nat \<Rightarrow> component list \<Rightarrow> nat \<times> nat" where
  "signed_portion off valueLength cs =
     (let b = off + length (tlv_header ndn_Tlv_Interest valueLength) +
              length (tlv_header ndn_Tlv_Name (length (comps_bytes cs)))
      in (b, b + length (comps_bytes (butlast cs))))"

lemma encode_interest_V03:
  assumes "random_ok random" and "\<forall>c \<in> set (ci_name i). encodable c" and "ready e"
  shows "\<exists>e'. ndn_encodeTlvInterestV0_3 random i e =
      Inr (signed_portion (enc_offset e) (length (interest_value_V03 (nonce_sent random (ci_nonce i)) i)) (ci_name i), e') \<and>
      ready e' \<and> enc_out e' = enc_out e @ tlv ndn_Tlv_Interest (interest_value_V03 (nonce_sent random (ci_nonce i)) i)"
proof -
  have "emits_ret (encodeInterestValue (encodeInterestFieldsV03 random) i)
      (interest_value_V03 (nonce_sent random (ci_nonce i)) i)
      (\<lambda>off. let b = off + length (tlv_header ndn_Tlv_Name (length (comps_bytes (ci_name i))))
             in (b, b + length (comps_bytes (butlast (ci_name i)))))"
    unfolding encodeInterestValue_def [abs_def] interest_value_V03_def
    by (rule emits_ret_seq [OF emits_ret_val [OF emits_val_name [OF assms(2)]] emits_fields_V03 [OF assms(1)]])
  from emits_ret_nested [OF this assms(3), of ndn_Tlv_Interest] show ?thesis
    by (simp add: ndn_encodeTlvInterestV0_3_def signed_portion_def Let_def add.assoc)
qed

section \<open>The decoder of format 0.3 reads it back\<close>

text \<open>Copying a decoded struct, when its slices lie in the input.\<close>

fun resolve_entries :: "bytes \<Rightarrow> component_slice option list \<Rightarrow> component option list option" where
  "resolve_entries input [] = Some []"
| "resolve_entries input (None # es) = Option.bind (resolve_entries input es) (\<lambda>r. Some (None # r))"
| "resolve_entries input (Some c # es) =
     Option.bind (lite_component input c) (\<lambda>x. Option.bind (resolve_entries input es) (\<lambda>r. Some (Some x # r)))"

definition resolve_interest :: "bytes \<Rightarrow> interest_slices \<Rightarrow> c_interest option" where
  "resolve_interest input i =
     Option.bind (lite_components input (ci_name i)) (\<lambda>name.
     Option.bind (resolve_key_locator input (ci_keyLocator i)) (\<lambda>keyLocator.
     Option.bind (resolve_entries input (ci_exclude i)) (\<lambda>exclude.
     Option.bind (resolve_blob input (ci_nonce i)) (\<lambda>nonce.
     Option.bind (resolve_blob input (ci_forwardingHintWireEncoding i)) (\<lambda>forwardingHint.
     Option.bind (resolve_blob input (ci_applicationParameters i)) (\<lambda>applicationParameters.
     Option.bind (resolve_blob input (ci_linkWireEncoding i)) (\<lambda>link.
       Some \<lparr>ci_name = name, ci_minSuffixComponents = ci_minSuffixComponents i,
             ci_maxSuffixComponents = ci_maxSuffixComponents i, ci_keyLocator = keyLocator, ci_exclude = exclude,
             ci_childSelector = ci_childSelector i, ci_mustBeFresh = ci_mustBeFresh i,
             ci_interestLifetimeMilliseconds = ci_interestLifetimeMilliseconds i, ci_nonce = nonce,
             ci_forwardingHintWireEncoding = forwardingHint, ci_applicationParameters = applicationParameters,
             ci_linkWireEncoding = link, ci_selectedDelegationIndex = ci_selectedDelegationIndex i\<rparr>)))))))"

text \<open>An Interest with the fields of format 0.3 only.\<close>

definition interest_wire_wf :: "nat \<Rightarrow> c_interest \<Rightarrow> bool" where
  "interest_wire_wf maxName i \<longleftrightarrow>
     (\<forall>c \<in> set (ci_name i). wire_wf c) \<and> length (ci_name i) \<le> maxName \<and>
     ci_minSuffixComponents i = -1 \<and> ci_maxSuffixComponents i \<in> {-1, 1} \<and>
     ci_keyLocator i = ndn_KeyLocator_initialize \<and> ci_exclude i = [] \<and> ci_childSelector i = -1 \<and>
     whole_ms (ci_interestLifetimeMilliseconds i) \<and> ci_forwardingHintWireEncoding i \<noteq> Some [] \<and>
     ci_applicationParameters i \<noteq> Some [] \<and> ci_linkWireEncoding i = None \<and> ci_selectedDelegationIndex i = -1"

definition interest_read_V03 :: "bytes \<Rightarrow> bytes \<Rightarrow> c_interest \<Rightarrow> interest_slices \<Rightarrow> interest_slices" where
  "interest_read_V03 pre n i i0 =
     (let b = pre @ tlv_header ndn_Tlv_Name (length (comps_bytes (ci_name i)));
          p3 = ((pre @ name_tlv (ci_name i)) @ flag_tlv ndn_Tlv_CanBePrefix (ndn_Interest_getCanBePrefix i)) @
               flag_tlv ndn_Tlv_MustBeFresh (ci_mustBeFresh i);
          p4 = p3 @ optional_blob_tlv ndn_Tlv_ForwardingHint (ci_forwardingHintWireEncoding i);
          p6 = (p4 @ optional_blob_tlv ndn_Tlv_Nonce (Some n)) @
               optional_double_tlv ndn_Tlv_InterestLifetime (ci_interestLifetimeMilliseconds i)
      in (ndn_Interest_setCanBePrefix (ndn_Interest_getCanBePrefix i) i0)
           \<lparr>ci_name := slices_of b (ci_name i), ci_mustBeFresh := ci_mustBeFresh i,
            ci_forwardingHintWireEncoding := blob_slice p3 ndn_Tlv_ForwardingHint (ci_forwardingHintWireEncoding i),
            ci_nonce := blob_slice p4 ndn_Tlv_Nonce (Some n),
            ci_interestLifetimeMilliseconds := ci_interestLifetimeMilliseconds i, ci_minSuffixComponents := -1,
            ci_keyLocator := ndn_KeyLocator_initialize, ci_exclude := [], ci_childSelector := -1,
            ci_linkWireEncoding := None, ci_selectedDelegationIndex := -1,
            ci_applicationParameters := blob_slice p6 ndn_Tlv_ApplicationParameters (ci_applicationParameters i)\<rparr>)"

lemma reads_interest_V03:
  assumes s: "small_input (pre @ tlv ndn_Tlv_Interest (interest_value_V03 n i) @ post)"
    and wf: "interest_wire_wf (fst maxes) i" and n: "n \<noteq> []"
  shows "reads (ndn_decodeTlvInterestV03 maxes i0) pre (tlv ndn_Tlv_Interest (interest_value_V03 n i)) post
       (interest_read_V03 (pre @ tlv_header ndn_Tlv_Interest (length (interest_value_V03 n i))) n i i0,
        signed_at (pre @ tlv_header ndn_Tlv_Interest (length (interest_value_V03 n i))) (ci_name i))"
  unfolding ndn_decodeTlvInterestV03_def
proof (rule reads_nested_bind [OF s, where w = "\<lambda>p. (interest_read_V03 p n i i0, signed_at p (ci_name i))"], goal_cases)
  case (1 p E)
  note sp = 1(1) and Ep = 1(2)
  let ?F = "flag_tlv ndn_Tlv_CanBePrefix (ndn_Interest_getCanBePrefix i) @
     flag_tlv ndn_Tlv_MustBeFresh (ci_mustBeFresh i) @
     optional_blob_tlv ndn_Tlv_ForwardingHint (ci_forwardingHintWireEncoding i) @
     optional_blob_tlv ndn_Tlv_Nonce (Some n) @
     optional_double_tlv ndn_Tlv_InterestLifetime (ci_interestLifetimeMilliseconds i) @
     optional_blob_tlv ndn_Tlv_ApplicationParameters (ci_applicationParameters i) @ []"
  have V: "interest_value_V03 n i = name_tlv (ci_name i) @ ?F"
    by (simp add: interest_value_V03_def interest_fields_V03_def tlv_optional [OF n])
  have s1: "small_input (p @ (name_tlv (ci_name i) @ ?F) @ post)" using sp by (simp only: V)
  have E1: "E = at_pos ((p @ name_tlv (ci_name i)) @ ?F)" by (simp only: Ep V append_assoc)
  have s2: "small_input ((p @ name_tlv (ci_name i)) @ ?F @ post)" using s1 by (simp only: append_assoc)
  note ok = wf [unfolded interest_wire_wf_def]
  show ?case
    unfolding V
    apply (rule reads_name' [OF s1])
      apply (use ok in blast)
     apply (use ok in blast)
    apply (rule reads_field_bool [OF s2 E1])
     apply (intro not_next_intros not_next_Nil; simp add: interest_types)
    apply (rule reads_field_bool, assumption, assumption)
     apply (intro not_next_intros not_next_Nil; simp add: interest_types)
    apply (rule reads_field_blob, assumption, assumption)
     apply (intro not_next_intros not_next_Nil; simp add: interest_types)
    apply (rule reads_field_blob, assumption, assumption)
     apply (intro not_next_intros not_next_Nil; simp add: interest_types)
    apply (rule reads_field_double, assumption, assumption)
      apply (use ok in blast)
     apply (intro not_next_intros not_next_Nil; simp add: interest_types)
    apply (rule reads_field_no_blob, assumption, assumption)
     apply (intro not_next_intros not_next_Nil; simp add: interest_types)
    apply (rule reads_field_blob, assumption, assumption)
     apply (rule not_next_Nil)
    apply (rule reads_finish_ret, assumption)
    apply (simp add: interest_read_V03_def Let_def)
    done
qed

lemma resolve_interest_V03:
  assumes s: "small_input (p @ interest_value_V03 n i @ post)"
    and wf: "interest_wire_wf m i" and n: "n \<noteq> []"
  shows "resolve_interest (p @ interest_value_V03 n i @ post) (interest_read_V03 p n i i0) = Some (i\<lparr>ci_nonce := Some n\<rparr>)"
proof -
  let ?cs = "ci_name i"
  let ?b = "p @ tlv_header ndn_Tlv_Name (length (comps_bytes ?cs))"
  let ?f1 = "flag_tlv ndn_Tlv_CanBePrefix (ndn_Interest_getCanBePrefix i)"
  let ?f2 = "flag_tlv ndn_Tlv_MustBeFresh (ci_mustBeFresh i)"
  let ?f3 = "optional_blob_tlv ndn_Tlv_ForwardingHint (ci_forwardingHintWireEncoding i)"
  let ?f4 = "optional_blob_tlv ndn_Tlv_Nonce (Some n)"
  let ?f5 = "optional_double_tlv ndn_Tlv_InterestLifetime (ci_interestLifetimeMilliseconds i)"
  let ?f6 = "optional_blob_tlv ndn_Tlv_ApplicationParameters (ci_applicationParameters i)"
  let ?in = "p @ interest_value_V03 n i @ post"
  have nm: "name_tlv ?cs = tlv_header ndn_Tlv_Name (length (comps_bytes ?cs)) @ comps_bytes ?cs"
    by (simp add: name_tlv_def tlv_def comps_bytes_def)
  have V: "interest_value_V03 n i = name_tlv ?cs @ ?f1 @ ?f2 @ ?f3 @ ?f4 @ ?f5 @ ?f6"
    by (simp add: interest_value_V03_def interest_fields_V03_def tlv_optional [OF n])
  have "lite_components (?b @ comps_bytes ?cs @ (?f1 @ ?f2 @ ?f3 @ ?f4 @ ?f5 @ ?f6 @ post)) (slices_of ?b ?cs) = Some ?cs"
    using s wf by (intro lite_components_slices) (simp_all add: V nm interest_wire_wf_def)
  then have name: "lite_components ?in (slices_of ?b ?cs) = Some ?cs" by (simp add: V nm)
  let ?p3 = "((p @ name_tlv ?cs) @ ?f1) @ ?f2" let ?p4 = "?p3 @ ?f3" let ?p6 = "(?p4 @ ?f4) @ ?f5"
  have hint: "resolve_blob ?in (blob_slice ?p3 ndn_Tlv_ForwardingHint (ci_forwardingHintWireEncoding i)) =
      Some (ci_forwardingHintWireEncoding i)"
    using resolve_blob_slice [of ?p3 ndn_Tlv_ForwardingHint "ci_forwardingHintWireEncoding i"
        "?f4 @ ?f5 @ ?f6 @ post"] s wf by (simp add: V interest_wire_wf_def)
  have nonce: "resolve_blob ?in (blob_slice ?p4 ndn_Tlv_Nonce (Some n)) = Some (Some n)"
    using resolve_blob_slice [of ?p4 ndn_Tlv_Nonce "Some n" "?f5 @ ?f6 @ post"] s n by (simp add: V)
  have params: "resolve_blob ?in (blob_slice ?p6 ndn_Tlv_ApplicationParameters (ci_applicationParameters i)) =
      Some (ci_applicationParameters i)"
    using resolve_blob_slice [of ?p6 ndn_Tlv_ApplicationParameters "ci_applicationParameters i" post] s wf
    by (simp add: V interest_wire_wf_def)
  have "ci_maxSuffixComponents (ndn_Interest_setCanBePrefix (ndn_Interest_getCanBePrefix i) i0) = ci_maxSuffixComponents i"
    using wf by (auto simp: interest_wire_wf_def ndn_Interest_setCanBePrefix_def ndn_Interest_getCanBePrefix_def)
  then show ?thesis
    using wf name hint nonce params
    by (cases i) (simp add: resolve_interest_def interest_read_V03_def Let_def interest_wire_wf_def
        resolve_key_locator_def ndn_KeyLocator_initialize_def)
qed

section \<open>The wire format calls\<close>

text \<open>
  \<^verbatim>\<open>ndn_Tlv0_3WireFormat_encodeInterest\<close> on a growing output, with the offsets of the signed portion, and
  \<^verbatim>\<open>ndn_Tlv0_3WireFormat_decodeInterest\<close>.
\<close>

definition ndn_Tlv0_3WireFormat_encodeInterest ::
  "(bool \<Rightarrow> nat \<Rightarrow> ndn_error + bytes) \<Rightarrow> nat \<Rightarrow> c_interest \<Rightarrow> ndn_error + bytes \<times> nat \<times> nat" where
  "ndn_Tlv0_3WireFormat_encodeInterest random initialLength interest =
     bindE (ndn_encodeTlvInterestV0_3 random interest (TlvEncoder_new initialLength)) (\<lambda>(signed, e).
       Inr (TlvEncoder_finish e, signed))"

definition ndn_Tlv0_3WireFormat_decodeInterest ::
  "nat \<times> nat \<times> nat \<Rightarrow> interest_slices \<Rightarrow> bytes \<Rightarrow>
   (ndn_error + (interest_slices \<times> size_t \<times> size_t) \<times> size_t) option" where
  "ndn_Tlv0_3WireFormat_decodeInterest maxes interest input = ndn_decodeTlvInterest maxes interest input 0"

lemma encodeInterest_V03:
  assumes "random_ok random" and "interest_wire_wf m i"
  shows "ndn_Tlv0_3WireFormat_encodeInterest random n i =
    Inr (tlv ndn_Tlv_Interest (interest_value_V03 (nonce_sent random (ci_nonce i)) i),
         signed_portion 0 (length (interest_value_V03 (nonce_sent random (ci_nonce i)) i)) (ci_name i))"
proof -
  have "\<forall>c \<in> set (ci_name i). encodable c" using assms(2) by (simp add: interest_wire_wf_def wire_wf_encodable)
  moreover have "enc_offset (TlvEncoder_new n) = 0" by (simp add: TlvEncoder_new_def)
  ultimately show ?thesis
    using encode_interest_V03 [OF assms(1) _ ready_new, of i n]
    by (auto simp: ndn_Tlv0_3WireFormat_encodeInterest_def TlvEncoder_finish)
qed

lemma signed_at_portion:
  "signed_at (pre @ tlv_header ndn_Tlv_Interest n) cs =
   map_prod of_nat of_nat (signed_portion (length pre) n cs)"
  by (simp add: signed_at_def signed_portion_def Let_def at_pos_def)

text \<open>The signed portion is the name without its last component.\<close>

lemma signed_portion_bytes:
  assumes "signed_portion 0 (length (interest_value_V03 n i)) (ci_name i) = (b, e)"
  shows "drop b (take e (tlv ndn_Tlv_Interest (interest_value_V03 n i))) = comps_bytes (butlast (ci_name i))"
proof -
  let ?h = "tlv_header ndn_Tlv_Interest (length (interest_value_V03 n i)) @ tlv_header ndn_Tlv_Name (length (comps_bytes (ci_name i)))"
  obtain r where r: "comps_bytes (ci_name i) = comps_bytes (butlast (ci_name i)) @ r"
  proof (cases "ci_name i" rule: rev_cases)
    case (snoc cs c)
    then show ?thesis using that [of "component_tlv c"] by (simp add: comps_bytes_def)
  qed (use that in simp)
  have "tlv ndn_Tlv_Interest (interest_value_V03 n i) = ?h @ comps_bytes (butlast (ci_name i)) @ r @ interest_fields_V03 n i"
    using r by (simp add: tlv_def interest_value_V03_def name_tlv_def comps_bytes_def)
  moreover have "b = length ?h" "e = length ?h + length (comps_bytes (butlast (ci_name i)))"
    using assms by (simp_all add: signed_portion_def Let_def)
  ultimately show ?thesis by simp
qed

lemma decodeInterest_V03:
  assumes s: "small_input (tlv ndn_Tlv_Interest (interest_value_V03 n i) @ post)"
    and wf: "interest_wire_wf (fst maxes) i" and n: "n \<noteq> []"
    and be: "signed_portion 0 (length (interest_value_V03 n i)) (ci_name i) = (b, e)"
  shows "ndn_Tlv0_3WireFormat_decodeInterest maxes i0 (tlv ndn_Tlv_Interest (interest_value_V03 n i) @ post) =
      Some (Inr ((interest_read_V03 (tlv_header ndn_Tlv_Interest (length (interest_value_V03 n i))) n i i0,
                  of_nat b, of_nat e), of_nat (length (tlv ndn_Tlv_Interest (interest_value_V03 n i)))))"
proof -
  let ?w = "tlv ndn_Tlv_Interest (interest_value_V03 n i)"
  let ?h = "tlv_header ndn_Tlv_Interest (length (interest_value_V03 n i))"
  have "reads (ndn_decodeTlvInterestV03 maxes i0) [] ?w post
      (interest_read_V03 ([] @ ?h) n i i0, signed_at ([] @ ?h) (ci_name i))"
    using s by (intro reads_interest_V03 wf n) simp
  then show ?thesis
    using signed_at_portion [of "[]" "length (interest_value_V03 n i)" "ci_name i"] be
    by (simp add: reads_def ndn_Tlv0_3WireFormat_decodeInterest_def ndn_decodeTlvInterest_def at_pos_def)
qed

text \<open>
  C8.  Encoding an Interest in format 0.3 and decoding the bytes, whatever follows them, gives back the
  same Interest with the nonce that was sent.  Encoder and decoder report the same signed portion, which holds
  exactly the encoded components but the last.
\<close>

theorem interest_roundtrip:
  assumes "random_ok random" and "interest_wire_wf (fst maxes) i"
    and "length (tlv ndn_Tlv_Interest (interest_value_V03 (nonce_sent random (ci_nonce i)) i)) + length post < 2 ^ 63"
  shows "\<exists>wire b e v. ndn_Tlv0_3WireFormat_encodeInterest random n i = Inr (wire, b, e) \<and>
     drop b (take e wire) = comps_bytes (butlast (ci_name i)) \<and>
     ndn_Tlv0_3WireFormat_decodeInterest maxes i0 (wire @ post) =
       Some (Inr ((v, of_nat b, of_nat e), of_nat (length wire))) \<and>
     resolve_interest (wire @ post) v = Some (i\<lparr>ci_nonce := Some (nonce_sent random (ci_nonce i))\<rparr>)"
proof -
  let ?n = "nonce_sent random (ci_nonce i)"
  let ?w = "tlv ndn_Tlv_Interest (interest_value_V03 ?n i)"
  let ?h = "tlv_header ndn_Tlv_Interest (length (interest_value_V03 ?n i))"
  obtain b e where be: "signed_portion 0 (length (interest_value_V03 ?n i)) (ci_name i) = (b, e)" by fastforce
  have n: "?n \<noteq> []" using length_nonce_sent [OF assms(1), of "ci_nonce i"] by auto
  have s: "small_input ([] @ ?w @ post)" using assms(3) by (simp add: small_input_def)
  note dec = decodeInterest_V03 [OF s [simplified] assms(2) n be]
  have "resolve_interest (?w @ post) (interest_read_V03 ?h ?n i i0) = Some (i\<lparr>ci_nonce := Some ?n\<rparr>)"
    using resolve_interest_V03 [OF _ assms(2) n, of ?h post i0] s by (simp add: tlv_def)
  with dec show ?thesis
    using encodeInterest_V03 [OF assms(1,2), of n] signed_portion_bytes [OF be] be by auto
qed

text \<open>An Interest for /a with a one-byte nonce, whose encoding is completed with three zero bytes.\<close>

definition example_interest :: c_interest where
  "example_interest = (ndn_Interest_initialize False)
     \<lparr>ci_name := [Component_generic (Some [97]), Component_generic (Some [98])], ci_mustBeFresh := True,
      ci_nonce := Some [7], ci_interestLifetimeMilliseconds := 4000, ci_applicationParameters := Some [1, 2]\<rparr>"

definition zeros :: "bool \<Rightarrow> nat \<Rightarrow> ndn_error + bytes" where
  "zeros b n = Inr (replicate n 0)"

lemma zeros_ok: "random_ok zeros"
  by (simp add: random_ok_def zeros_def)

lemma example_interest_wf: "interest_wire_wf 100 example_interest"
proof -
  have "whole_ms 4000" unfolding whole_ms_def by (rule disjI2, rule exI [of _ 4000]) simp
  then show ?thesis
    by (simp add: interest_wire_wf_def example_interest_def ndn_Interest_initialize_def wire_wf_def
        component_wf_def is_digest_def Component_generic_def)
qed

lemma example_interest_length:
  "length (tlv ndn_Tlv_Interest (interest_value_V03 (nonce_sent zeros (ci_nonce example_interest)) example_interest)) < 2 ^ 62"
proof -
  have h: "length (interest_value_V03 n i) \<le> 144 + length (comps_bytes (ci_name i)) +
      blob_size (ci_forwardingHintWireEncoding i) + length n + blob_size (ci_applicationParameters i)" for n and i :: c_interest
  proof -
    have "length (optional_blob_tlv t b) \<le> 18 + blob_size b" for t b
      using length_tlv_le [of t] by (auto simp: optional_blob_tlv_def blob_size_def split: option.splits)
    note o = this
    have f: "length (flag_tlv t b) \<le> 18" for t b
      using length_tlv_le [of t "[]"] by (simp add: flag_tlv_def)
    show ?thesis
      using o [of ndn_Tlv_ForwardingHint "ci_forwardingHintWireEncoding i"]
        o [of ndn_Tlv_ApplicationParameters "ci_applicationParameters i"]
        f [of ndn_Tlv_CanBePrefix "ndn_Interest_getCanBePrefix i"] f [of ndn_Tlv_MustBeFresh "ci_mustBeFresh i"]
        length_optional_double_le [of ndn_Tlv_InterestLifetime "ci_interestLifetimeMilliseconds i"] length_tlv_le [of ndn_Tlv_Nonce n]
        length_tlv_le [of ndn_Tlv_Name "comps_bytes (ci_name i)"]
      by (simp add: interest_value_V03_def interest_fields_V03_def name_tlv_def comps_bytes_def)
  qed
  have "length (comps_bytes (ci_name example_interest)) = 6" by code_simp
  moreover have "length (nonce_sent zeros (ci_nonce example_interest)) = 4" by (simp add: length_nonce_sent zeros_ok)
  moreover have "blob_size (ci_forwardingHintWireEncoding example_interest) = 0"
    "blob_size (ci_applicationParameters example_interest) = 2"
    by (simp_all add: example_interest_def ndn_Interest_initialize_def blob_size_def)
  ultimately show ?thesis
    using h [of "nonce_sent zeros (ci_nonce example_interest)" example_interest]
      length_tlv_le [of ndn_Tlv_Interest "interest_value_V03 (nonce_sent zeros (ci_nonce example_interest)) example_interest"]
    by simp
qed

theorem interest_roundtrip_witness:
  "\<exists>wire b e v. ndn_Tlv0_3WireFormat_encodeInterest zeros 256 example_interest = Inr (wire, b, e) \<and>
     drop b (take e wire) = component_tlv (Component_generic (Some [97])) \<and>
     ndn_Tlv0_3WireFormat_decodeInterest (100, 100, 100) (ndn_Interest_initialize True) (wire @ [1, 2]) =
       Some (Inr ((v, of_nat b, of_nat e), of_nat (length wire))) \<and>
     resolve_interest (wire @ [1, 2]) v = Some (example_interest\<lparr>ci_nonce := Some [7, 0, 0, 0]\<rparr>)"
proof -
  have n: "nonce_sent zeros (ci_nonce example_interest) = [7, 0, 0, 0]"
    by (simp add: nonce_sent_def nonce4_def example_interest_def zeros_def numeral_eq_Suc)
  have c: "comps_bytes (butlast (ci_name example_interest)) = component_tlv (Component_generic (Some [97]))"
    by (simp add: example_interest_def comps_bytes_def)
  show ?thesis
    using interest_roundtrip [of zeros "(100, 100, 100)" example_interest "[1, 2]" 256 "ndn_Interest_initialize True",
        OF zeros_ok] example_interest_wf example_interest_length by (simp add: n c)
qed

text \<open>The decoded lists fit the arrays of the caller.\<close>

lemma decode_exclude_entries_max:
  "decode_exclude_entries room endOffset input off = Some (Inr (es, off')) \<Longrightarrow> length es \<le> room"
proof (induction room arbitrary: off es off' rule: less_induct)
  case (less room)
  show ?case
    using less.prems less.IH
    by (subst (asm) decode_exclude_entries.simps)
      (fastforce simp: bindD_ok retD_def failD_def split: if_splits nat.splits)
qed

lemma decode_name_max: "ndn_decodeTlvName m input off = Some (Inr ((cs, b), off')) \<Longrightarrow> length cs \<le> m"
  by (cases b) (auto simp: ndn_decodeTlvName_def bindD_ok retD_def dest: decode_components_max)

lemma decode_exclude_max: "decodeExclude m input off = Some (Inr (es, off')) \<Longrightarrow> length es \<le> m"
  by (auto simp: decodeExclude_def bindD_ok retD_def dest: decode_exclude_entries_max)

lemma decode_selectors_max:
  "decodeSelectors m k i input off = Some (Inr (v, off')) \<Longrightarrow> length (ci_exclude v) \<le> m \<and> ci_name v = ci_name i"
  by (auto simp: decodeSelectors_def bindD_ok retD_def dest: decode_exclude_max split: if_splits)

lemma decode_interest_V03_max:
  "ndn_decodeTlvInterestV03 maxes i0 input off = Some (Inr ((v, s), off')) \<Longrightarrow>
   length (ci_name v) \<le> fst maxes \<and> ci_exclude v = []"
  by (auto simp: ndn_decodeTlvInterestV03_def bindD_ok retD_def dest: decode_name_max)

lemma decode_selectors_or_none_max:
  "(if got then decodeSelectors m k (i\<lparr>ci_name := cs\<rparr>) else retD (i\<lparr>ci_name := cs, ci_minSuffixComponents := a,
      ci_maxSuffixComponents := b, ci_keyLocator := c, ci_exclude := [], ci_childSelector := d, ci_mustBeFresh := f\<rparr>))
     input off = Some (Inr (v, off')) \<Longrightarrow> length (ci_exclude v) \<le> m \<and> ci_name v = cs"
  by (cases got) (auto simp: retD_def dest: decode_selectors_max)

lemma decode_interest_V02_max:
  "ndn_decodeTlvInterestV02 (m, k, l) i0 input off = Some (Inr ((v, s), off')) \<Longrightarrow>
   length (ci_name v) \<le> m \<and> length (ci_exclude v) \<le> k"
  unfolding ndn_decodeTlvInterestV02_def prod.case
  apply (drule bindD_ok [THEN iffD1], elim exE conjE)+
  apply (clarsimp simp only: split_paired_all prod.case)
  apply (drule decode_name_max)
  apply (drule bindD_ok [THEN iffD1], elim exE conjE)+
  apply (drule decode_selectors_or_none_max)
  apply (simp add: retD_def)
  apply (elim conjE)
  apply hypsubst
  apply simp
  done



section \<open>The two formats\<close>

text \<open>
  An Interest that uses none of the selectors, written in format 0.2, has the bytes of an Interest with
  CanBePrefix off in format 0.3.
\<close>

definition plain_interest :: "c_interest \<Rightarrow> bool" where
  "plain_interest i \<longleftrightarrow>
     i = (ndn_Interest_initialize True)\<lparr>ci_name := ci_name i, ci_nonce := ci_nonce i,
            ci_interestLifetimeMilliseconds := ci_interestLifetimeMilliseconds i\<rparr>"

lemma plain_interest_encoding:
  assumes "plain_interest i"
  shows "ndn_encodeTlvInterestV0_2 random i = ndn_encodeTlvInterestV0_3 random (i\<lparr>ci_maxSuffixComponents := 1\<rparr>)"
proof -
  obtain cs n l where i: "i = (ndn_Interest_initialize True)\<lparr>ci_name := cs, ci_nonce := n,
      ci_interestLifetimeMilliseconds := l\<rparr>" using assms by (auto simp: plain_interest_def)
  have r: "e\<lparr>enableOutput := enableOutput e\<rparr> = e" for e :: tlv_encoder by simp
  have "encodeSelectorsValue i e = Inr e" for e
    by (simp add: encodeSelectorsValue_def i ndn_Interest_initialize_def ndn_KeyLocator_initialize_def
        writeOptionalNonNegativeIntegerTlv_def writeNestedTlv_def ndn_encodeTlvKeyLocatorValue_def Let_def r)
  then have sel: "writeNestedTlv ndn_Tlv_Selectors (encodeSelectorsValue i) True e = Inr e" for e
    by (simp add: writeNestedTlv_def Let_def r)
  have opt: "writeOptionalBlobTlv t None = Inr" for t
    by (simp add: fun_eq_iff writeOptionalBlobTlv_def blob_size_def)
  have "encodeInterestFieldsV02 random i e = encodeInterestFieldsV03 random (i\<lparr>ci_maxSuffixComponents := 1\<rparr>) e" for e
    by (simp add: encodeInterestFieldsV02_def encodeInterestFieldsV03_def sel ndn_Interest_getCanBePrefix_def)
       (simp add: i ndn_Interest_initialize_def blob_size_def writeOptionalNonNegativeIntegerTlv_def opt)
  then have "encodeInterestValue (encodeInterestFieldsV02 random) i =
      encodeInterestValue (encodeInterestFieldsV03 random) (i\<lparr>ci_maxSuffixComponents := 1\<rparr>)"
    by (simp add: encodeInterestValue_def fun_eq_iff)
  then show ?thesis by (simp add: ndn_encodeTlvInterestV0_2_def ndn_encodeTlvInterestV0_3_def)
qed

text \<open>
  \<^verbatim>\<open>ndn_Tlv0_2WireFormat_encodeInterest\<close>: format 0.3 all the same, when the Interest has application
  parameters.
\<close>

definition ndn_Interest_hasApplicationParameters :: "c_interest \<Rightarrow> bool" where
  "ndn_Interest_hasApplicationParameters self \<longleftrightarrow> blob_size (ci_applicationParameters self) > 0"

definition ndn_Tlv0_2WireFormat_encodeInterest ::
  "(bool \<Rightarrow> nat \<Rightarrow> ndn_error + bytes) \<Rightarrow> nat \<Rightarrow> c_interest \<Rightarrow> ndn_error + bytes \<times> nat \<times> nat" where
  "ndn_Tlv0_2WireFormat_encodeInterest random initialLength interest =
     bindE (if ndn_Interest_hasApplicationParameters interest
            then ndn_encodeTlvInterestV0_3 random interest (TlvEncoder_new initialLength)
            else ndn_encodeTlvInterestV0_2 random interest (TlvEncoder_new initialLength)) (\<lambda>(signed, e).
       Inr (TlvEncoder_finish e, signed))"

text \<open>
  C10.  An Interest without selectors, which can be a prefix of the Data name, is encoded in format 0.2 and
  then decoded.  The decoder takes it for an Interest of format 0.3, where the absence of a flag
  means that the Data name must match in full: CanBePrefix is lost.
\<close>

theorem v02_interest_decoded_as_v03:
  assumes "random_ok random" and "plain_interest i" and "\<forall>c \<in> set (ci_name i). wire_wf c"
    and "length (ci_name i) \<le> fst maxes" and "whole_ms (ci_interestLifetimeMilliseconds i)"
    and "length (tlv ndn_Tlv_Interest (interest_value_V03 (nonce_sent random (ci_nonce i))
           (i\<lparr>ci_maxSuffixComponents := 1\<rparr>))) < 2 ^ 63"
  shows "ndn_Interest_getCanBePrefix i \<and>
     (\<exists>wire b e v off i'. ndn_Tlv0_2WireFormat_encodeInterest random n i = Inr (wire, b, e) \<and>
        ndn_Tlv0_3WireFormat_decodeInterest maxes i0 wire = Some (Inr (v, off)) \<and>
        resolve_interest wire (fst v) = Some i' \<and> ci_name i' = ci_name i \<and> \<not> ndn_Interest_getCanBePrefix i')"
proof
  let ?i = "i\<lparr>ci_maxSuffixComponents := 1\<rparr>"
  let ?n = "nonce_sent random (ci_nonce ?i)"
  let ?w = "tlv ndn_Tlv_Interest (interest_value_V03 ?n ?i)"
  let ?h = "tlv_header ndn_Tlv_Interest (length (interest_value_V03 ?n ?i))"
  note eq = plain_interest_encoding [OF assms(2), of random]
  obtain cs x l where i: "i = (ndn_Interest_initialize True)\<lparr>ci_name := cs, ci_nonce := x,
      ci_interestLifetimeMilliseconds := l\<rparr>" using assms(2) by (auto simp: plain_interest_def)
  show "ndn_Interest_getCanBePrefix i" by (simp add: i ndn_Interest_getCanBePrefix_def ndn_Interest_initialize_def)
  have no_params: "\<not> ndn_Interest_hasApplicationParameters i"
    by (simp add: ndn_Interest_hasApplicationParameters_def blob_size_def i ndn_Interest_initialize_def)
  have wf: "interest_wire_wf (fst maxes) ?i"
    using assms(3,4,5) by (simp add: interest_wire_wf_def i ndn_Interest_initialize_def)
  have n: "?n \<noteq> []" using length_nonce_sent [OF assms(1), of "ci_nonce ?i"] by auto
  obtain b e where be: "signed_portion 0 (length (interest_value_V03 ?n ?i)) (ci_name ?i) = (b, e)" by fastforce
  have s: "small_input (?w @ [])" using assms(6) by (simp add: small_input_def)
  have enc: "ndn_Tlv0_2WireFormat_encodeInterest random n i = Inr (?w, b, e)"
    using encodeInterest_V03 [OF assms(1) wf, of n] be
    by (simp add: ndn_Tlv0_2WireFormat_encodeInterest_def no_params eq ndn_Tlv0_3WireFormat_encodeInterest_def)
  have res: "resolve_interest (?w @ []) (interest_read_V03 ?h ?n ?i i0) = Some (?i\<lparr>ci_nonce := Some ?n\<rparr>)"
    using resolve_interest_V03 [OF _ wf n, of ?h "[]" i0] s by (simp add: tlv_def)
  show "\<exists>wire b e v off i'. ndn_Tlv0_2WireFormat_encodeInterest random n i = Inr (wire, b, e) \<and>
        ndn_Tlv0_3WireFormat_decodeInterest maxes i0 wire = Some (Inr (v, off)) \<and>
        resolve_interest wire (fst v) = Some i' \<and> ci_name i' = ci_name i \<and> \<not> ndn_Interest_getCanBePrefix i'"
    using enc decodeInterest_V03 [OF s wf n be, of i0] res
    by (intro exI [of _ ?w] exI [of _ b] exI [of _ e]
        exI [of _ "(interest_read_V03 ?h ?n ?i i0, of_nat b, of_nat e)"] exI [of _ "of_nat (length ?w)"]
        exI [of _ "?i\<lparr>ci_nonce := Some ?n\<rparr>"]) (simp add: ndn_Interest_getCanBePrefix_def)
qed

theorem v02_interest_decoded_as_v03_witness:
  "let i = (ndn_Interest_initialize True)\<lparr>ci_name := [Component_generic (Some [97])]\<rparr> in
   ndn_Interest_getCanBePrefix i \<and>
     (\<exists>wire b e v off i'. ndn_Tlv0_2WireFormat_encodeInterest zeros 256 i = Inr (wire, b, e) \<and>
        ndn_Tlv0_3WireFormat_decodeInterest (100, 100, 100) (ndn_Interest_initialize True) wire = Some (Inr (v, off)) \<and>
        resolve_interest wire (fst v) = Some i' \<and> ci_name i' = ci_name i \<and> \<not> ndn_Interest_getCanBePrefix i')"
proof -
  let ?i = "(ndn_Interest_initialize True)\<lparr>ci_name := [Component_generic (Some [97])]\<rparr> :: c_interest"
  let ?i1 = "?i\<lparr>ci_maxSuffixComponents := 1\<rparr>"
  have p: "plain_interest ?i" by (simp add: plain_interest_def ndn_Interest_initialize_def)
  have n: "nonce_sent zeros (ci_nonce ?i) = [0, 0, 0, 0]"
    by (simp add: nonce_sent_def nonce4_def zeros_def ndn_Interest_initialize_def numeral_eq_Suc)
  have v: "interest_value_V03 [0, 0, 0, 0] ?i1 =
      tlv ndn_Tlv_Name (component_tlv (Component_generic (Some [97]))) @ tlv ndn_Tlv_Nonce [0, 0, 0, 0]"
    by (simp add: interest_value_V03_def interest_fields_V03_def ndn_Interest_initialize_def name_tlv_def
        flag_tlv_def optional_blob_tlv_def optional_double_tlv_def ndn_Interest_getCanBePrefix_def)
  have "length (component_tlv (Component_generic (Some [97]))) = 3" by code_simp
  then have "length (tlv ndn_Tlv_Interest (interest_value_V03 (nonce_sent zeros (ci_nonce ?i)) ?i1)) < 2 ^ 63"
    using length_tlv_le [of ndn_Tlv_Name "component_tlv (Component_generic (Some [97]))"]
      length_tlv_le [of ndn_Tlv_Nonce "[0, 0, 0, 0]"]
      length_tlv_le [of ndn_Tlv_Interest "interest_value_V03 [0, 0, 0, 0] ?i1"]
    unfolding n v by simp
  then show ?thesis
    using v02_interest_decoded_as_v03 [of zeros ?i "(100, 100, 100)" 256 "ndn_Interest_initialize True", OF zeros_ok p]
    by (simp add: ndn_Interest_initialize_def wire_wf_def component_wf_def is_digest_def Component_generic_def
        whole_ms_def)
qed

end
