(* ===== verification/InterestModel.thy ===== *)
theory InterestModel
  imports DataModel ExcludeFilter DelegationSet TlvInterest
begin

text \<open>
  The \<^verbatim>\<open>Interest\<close> class (\<^verbatim>\<open>interest.hpp\<close>, \<^verbatim>\<open>interest.cpp\<close>) and the deprecated \<^verbatim>\<open>Link\<close> (\<^verbatim>\<open>link.hpp\<close>, \<^verbatim>\<open>link.cpp\<close>):
  fields and change counts, the cached wire encoding, the nonce that a change invalidates, and the match
  against names and Data packets.
\<close>

section \<open>Link\<close>

text \<open>A Link is a Data packet whose content is the encoding of its delegations.\<close>

record link =
  lk_data :: data
  lk_delegations :: delegation_set

definition Link_new :: link where
  "Link_new = \<lparr>lk_data = Data_getMetaInfo_apply (MetaInfo_setType ndn_ContentType_LINK) Data_new,
               lk_delegations = DelegationSet_new\<rparr>"

definition Link_getChangeCount :: "link \<Rightarrow> u64 \<times> link" where
  "Link_getChangeCount self =
     (let (n, d) = Data_getChangeCount (lk_data self) in (n, self\<lparr>lk_data := d\<rparr>))"

text \<open>
  \<^verbatim>\<open>encodeContent\<close> and its callers.  The wire format of the delegations is \<^verbatim>\<open>encode\<close>, with the default format
  object and the one given.
\<close>

definition Link_encodeContent ::
  "(nat \<Rightarrow> delegation list \<Rightarrow> bytes result) \<Rightarrow> nat \<Rightarrow> nat \<Rightarrow> link \<Rightarrow> exn option \<times> link" where
  "Link_encodeContent encode defaultFormat wireFormat self =
     (let (r, ds) = DelegationSet_wireEncode encode defaultFormat wireFormat (lk_delegations self);
          self = self\<lparr>lk_delegations := ds\<rparr>
      in case r of
           Inl e \<Rightarrow> (Some e, self)
         | Inr bs \<Rightarrow>
             (None, self\<lparr>lk_data := Data_getMetaInfo_apply (MetaInfo_setType ndn_ContentType_LINK)
                                     (Data_setContent (Some bs) (lk_data self))\<rparr>))"

definition Link_addDelegation ::
  "(nat \<Rightarrow> delegation list \<Rightarrow> bytes result) \<Rightarrow> nat \<Rightarrow> nat \<Rightarrow> int \<Rightarrow> name \<Rightarrow> link \<Rightarrow> exn option \<times> link" where
  "Link_addDelegation encode defaultFormat wireFormat preference name self =
     Link_encodeContent encode defaultFormat wireFormat
       (self\<lparr>lk_delegations := DelegationSet_add preference name (lk_delegations self)\<rparr>)"

definition Link_removeDelegation ::
  "(nat \<Rightarrow> delegation list \<Rightarrow> bytes result) \<Rightarrow> nat \<Rightarrow> nat \<Rightarrow> name \<Rightarrow> link \<Rightarrow> bool \<times> exn option \<times> link" where
  "Link_removeDelegation encode defaultFormat wireFormat name self =
     (let (wasRemoved, ds) = DelegationSet_remove name (lk_delegations self);
          self = self\<lparr>lk_delegations := ds\<rparr>
      in (wasRemoved, if wasRemoved then Link_encodeContent encode defaultFormat wireFormat self else (None, self)))"

text \<open>
  The parts of the code that an Interest calls through pointers to other objects: the format objects, with
  the default one first.  \<^verbatim>\<open>decodeLink\<close> is \<^verbatim>\<open>Link::wireDecode\<close> and \<^verbatim>\<open>encodeLink\<close> is \<^verbatim>\<open>Data::wireEncode\<close>, each with its
  format.
\<close>

record formats =
  f_default :: nat
  f_encodeData :: "nat \<Rightarrow> data \<Rightarrow> (bytes \<times> nat \<times> nat) result option"
  f_decodeData :: "nat \<Rightarrow> bytes \<Rightarrow> data \<Rightarrow> ((exn + nat \<times> nat) \<times> data) option"
  f_encodeDelegationSet :: "nat \<Rightarrow> delegation list \<Rightarrow> bytes result"
  f_decodeDelegationSet :: "nat \<Rightarrow> bytes \<Rightarrow> delegation_set \<Rightarrow> (exn option \<times> delegation_set) option"

text \<open>\<^verbatim>\<open>Link::wireDecode\<close>; a content that is null has no buffer to decode, which is an empty input.\<close>

definition Link_wireDecode :: "formats \<Rightarrow> nat \<Rightarrow> bytes \<Rightarrow> link \<Rightarrow> (exn option \<times> link) option" where
  "Link_wireDecode fmts wireFormat input self =
     Option.bind (Data_wireDecode (f_decodeData fmts) (f_default fmts) wireFormat input (lk_data self)) (\<lambda>(exn, d).
       let self = self\<lparr>lk_data := d\<rparr> in
       if exn \<noteq> None then Some (exn, self)
       else if mi_type (cc_target (dt_metaInfo d)) \<noteq> ndn_ContentType_LINK
       then Some (Some (RuntimeError (str ''Link::wireDecode: MetaInfo ContentType is not LINK.'')), self)
       else map_option (\<lambda>(exn, ds). (exn, self\<lparr>lk_delegations := ds\<rparr>))
              (DelegationSet_wireDecode (f_decodeDelegationSet fmts) (f_default fmts) (f_default fmts)
                 (blob_bytes (dt_content d)) (lk_delegations self)))"

section \<open>State\<close>

text \<open>\<^verbatim>\<open>lpPacket_\<close>, which does not enter the encoding, is left out.\<close>

record interest =
  i_name :: "name change_counter"
  i_minSuffixComponents :: int
  i_maxSuffixComponents :: int
  i_didSetCanBePrefix :: bool
  i_keyLocator :: "key_locator change_counter"
  i_exclude :: "exclude change_counter"
  i_childSelector :: int
  i_mustBeFresh :: bool
  i_interestLifetimeMilliseconds :: real
  i_nonce :: blob
  i_getNonceChangeCount :: u64
  i_forwardingHint :: "delegation_set change_counter"
  i_applicationParameters :: blob
  i_linkWireEncoding :: blob
  i_linkWireEncodingFormat :: "nat option"
  i_link :: "link shared_counter"
  i_selectedDelegationIndex :: int
  i_defaultWireEncoding :: signed_blob
  i_defaultWireEncodingFormat :: "nat option"
  i_getDefaultWireEncodingChangeCount :: u64
  i_changeCount :: u64

text \<open>
  \<^verbatim>\<open>Interest(name)\<close> and \<^verbatim>\<open>construct\<close>: the default of CanBePrefix and whether the application set it are static
  variables.
\<close>

definition Interest_of_name :: "bool \<Rightarrow> bool \<Rightarrow> name \<Rightarrow> interest" where
  "Interest_of_name defaultCanBePrefix didSetDefaultCanBePrefix name =
     \<lparr>i_name = ChangeCounter_of n_changeCount name, i_minSuffixComponents = -1,
      i_maxSuffixComponents = (if defaultCanBePrefix then -1 else 1), i_didSetCanBePrefix = didSetDefaultCanBePrefix,
      i_keyLocator = ChangeCounter_poll_of KeyLocator_getChangeCount KeyLocator_new,
      i_exclude = ChangeCounter_of ex_changeCount Exclude_new, i_childSelector = -1, i_mustBeFresh = False,
      i_interestLifetimeMilliseconds = -1, i_nonce = None, i_getNonceChangeCount = 0,
      i_forwardingHint = ChangeCounter_of ds_changeCount DelegationSet_new, i_applicationParameters = None,
      i_linkWireEncoding = None, i_linkWireEncodingFormat = None, i_link = \<lparr>sp_target = None, sp_changeCount = 0\<rparr>,
      i_selectedDelegationIndex = -1, i_defaultWireEncoding = None, i_defaultWireEncodingFormat = None,
      i_getDefaultWireEncodingChangeCount = 0, i_changeCount = 0\<rparr>"

definition Interest_getChangeCount :: "interest \<Rightarrow> u64 \<times> interest" where
  "Interest_getChangeCount self =
     (let (c1, name) = ChangeCounter_checkChanged n_changeCount (i_name self);
          (c2, keyLocator) = ChangeCounter_poll KeyLocator_getChangeCount (i_keyLocator self);
          (c3, exclude) = ChangeCounter_checkChanged ex_changeCount (i_exclude self);
          (c4, forwardingHint) = ChangeCounter_checkChanged ds_changeCount (i_forwardingHint self);
          (c5, lnk) = SharedPointerChangeCounter_checkChanged Link_getChangeCount (i_link self);
          self = self\<lparr>i_name := name, i_keyLocator := keyLocator, i_exclude := exclude,
                      i_forwardingHint := forwardingHint, i_link := lnk\<rparr>;
          self = (if c5 \<or> c4 \<or> c3 \<or> c2 \<or> c1 then self\<lparr>i_changeCount := i_changeCount self + 1\<rparr> else self)
      in (i_changeCount self, self))"

definition Interest_getDefaultWireEncoding :: "interest \<Rightarrow> signed_blob \<times> interest" where
  "Interest_getDefaultWireEncoding self =
     (let (n, self) = Interest_getChangeCount self;
          self = (if i_getDefaultWireEncodingChangeCount self \<noteq> n
                  then (let self = self\<lparr>i_defaultWireEncoding := None, i_defaultWireEncodingFormat := None\<rparr>;
                            (n, self) = Interest_getChangeCount self
                        in self\<lparr>i_getDefaultWireEncodingChangeCount := n\<rparr>)
                  else self)
      in (i_defaultWireEncoding self, self))"

definition Interest_setDefaultWireEncoding :: "signed_blob \<Rightarrow> nat option \<Rightarrow> interest \<Rightarrow> interest" where
  "Interest_setDefaultWireEncoding encoding format self =
     (let self = self\<lparr>i_defaultWireEncoding := encoding, i_defaultWireEncodingFormat := format\<rparr>;
          (n, self) = Interest_getChangeCount self
      in self\<lparr>i_getDefaultWireEncodingChangeCount := n\<rparr>)"

definition Interest_getNonce :: "interest \<Rightarrow> blob \<times> interest" where
  "Interest_getNonce self =
     (let (n, self) = Interest_getChangeCount self;
          self = (if i_getNonceChangeCount self \<noteq> n
                  then (let self = self\<lparr>i_nonce := None\<rparr>;
                            (n, self) = Interest_getChangeCount self
                        in self\<lparr>i_getNonceChangeCount := n\<rparr>)
                  else self)
      in (i_nonce self, self))"

section \<open>Setters\<close>

definition Interest_setName :: "name \<Rightarrow> interest \<Rightarrow> interest" where
  "Interest_setName name self =
     self\<lparr>i_name := ChangeCounter_set n_changeCount name (i_name self), i_changeCount := i_changeCount self + 1\<rparr>"

definition Interest_setMinSuffixComponents :: "int \<Rightarrow> interest \<Rightarrow> interest" where
  "Interest_setMinSuffixComponents n self =
     self\<lparr>i_minSuffixComponents := n, i_changeCount := i_changeCount self + 1\<rparr>"

definition Interest_setMaxSuffixComponents :: "int \<Rightarrow> interest \<Rightarrow> interest" where
  "Interest_setMaxSuffixComponents n self =
     self\<lparr>i_maxSuffixComponents := n, i_changeCount := i_changeCount self + 1\<rparr>"

definition Interest_setCanBePrefix :: "bool \<Rightarrow> interest \<Rightarrow> interest" where
  "Interest_setCanBePrefix canBePrefix self =
     self\<lparr>i_maxSuffixComponents := (if canBePrefix then -1 else 1), i_didSetCanBePrefix := True,
          i_changeCount := i_changeCount self + 1\<rparr>"

definition Interest_setChildSelector :: "int \<Rightarrow> interest \<Rightarrow> interest" where
  "Interest_setChildSelector n self = self\<lparr>i_childSelector := n, i_changeCount := i_changeCount self + 1\<rparr>"

definition Interest_setMustBeFresh :: "bool \<Rightarrow> interest \<Rightarrow> interest" where
  "Interest_setMustBeFresh b self = self\<lparr>i_mustBeFresh := b, i_changeCount := i_changeCount self + 1\<rparr>"

definition Interest_setInterestLifetimeMilliseconds :: "real \<Rightarrow> interest \<Rightarrow> interest" where
  "Interest_setInterestLifetimeMilliseconds t self =
     self\<lparr>i_interestLifetimeMilliseconds := t, i_changeCount := i_changeCount self + 1\<rparr>"

definition Interest_setNonce :: "blob \<Rightarrow> interest \<Rightarrow> interest" where
  "Interest_setNonce nonce self =
     (let self = self\<lparr>i_nonce := nonce, i_changeCount := i_changeCount self + 1\<rparr>;
          (n, self) = Interest_getChangeCount self
      in self\<lparr>i_getNonceChangeCount := n\<rparr>)"

text \<open>
  \<^verbatim>\<open>keyLocator_ = keyLocator\<close>, \<^verbatim>\<open>exclude_ = exclude\<close> and \<^verbatim>\<open>forwardingHint_ = forwardingHint\<close> convert to a new
  \<^verbatim>\<open>ChangeCounter\<close>, which sees the count of its target, and assign member by member; the assignment operator
  of \<^verbatim>\<open>DelegationSet\<close> keeps the count of the old target.
\<close>

definition Interest_setKeyLocator :: "key_locator \<Rightarrow> interest \<Rightarrow> interest" where
  "Interest_setKeyLocator keyLocator self =
     self\<lparr>i_keyLocator := ChangeCounter_poll_of KeyLocator_getChangeCount keyLocator,
          i_changeCount := i_changeCount self + 1\<rparr>"

definition Interest_setExclude :: "exclude \<Rightarrow> interest \<Rightarrow> interest" where
  "Interest_setExclude exclude self =
     self\<lparr>i_exclude := ChangeCounter_of ex_changeCount exclude, i_changeCount := i_changeCount self + 1\<rparr>"

definition Interest_setForwardingHint :: "delegation_set \<Rightarrow> interest \<Rightarrow> interest" where
  "Interest_setForwardingHint forwardingHint self =
     (let (_, copy) = DelegationSet_copy forwardingHint;
          (_, target) = DelegationSet_assign copy (cc_target (i_forwardingHint self))
      in self\<lparr>i_forwardingHint := \<lparr>cc_target = target, cc_changeCount = ds_changeCount copy\<rparr>,
              i_changeCount := i_changeCount self + 1\<rparr>)"

definition Interest_setApplicationParameters :: "blob \<Rightarrow> interest \<Rightarrow> interest" where
  "Interest_setApplicationParameters b self =
     self\<lparr>i_applicationParameters := b, i_changeCount := i_changeCount self + 1\<rparr>"

definition Interest_setLinkWireEncoding :: "blob \<Rightarrow> nat option \<Rightarrow> interest \<Rightarrow> interest" where
  "Interest_setLinkWireEncoding encoding wireFormat self =
     self\<lparr>i_linkWireEncoding := encoding, i_linkWireEncodingFormat := wireFormat,
          i_link := SharedPointerChangeCounter_set Link_getChangeCount None (i_link self),
          i_changeCount := i_changeCount self + 1\<rparr>"

definition Interest_unsetLink :: "interest \<Rightarrow> interest" where
  "Interest_unsetLink self = Interest_setLinkWireEncoding None None self"

definition Interest_setSelectedDelegationIndex :: "int \<Rightarrow> interest \<Rightarrow> interest" where
  "Interest_setSelectedDelegationIndex n self =
     self\<lparr>i_selectedDelegationIndex := n, i_changeCount := i_changeCount self + 1\<rparr>"

text \<open>Changes through the references that the getters return.\<close>

definition Interest_getName_apply :: "(name \<Rightarrow> name) \<Rightarrow> interest \<Rightarrow> interest" where
  "Interest_getName_apply f self = self\<lparr>i_name := ChangeCounter_update f (i_name self)\<rparr>"

definition Interest_getExclude_apply :: "(exclude \<Rightarrow> exclude) \<Rightarrow> interest \<Rightarrow> interest" where
  "Interest_getExclude_apply f self = self\<lparr>i_exclude := ChangeCounter_update f (i_exclude self)\<rparr>"

definition Interest_getForwardingHint_apply :: "(delegation_set \<Rightarrow> delegation_set) \<Rightarrow> interest \<Rightarrow> interest" where
  "Interest_getForwardingHint_apply f self = self\<lparr>i_forwardingHint := ChangeCounter_update f (i_forwardingHint self)\<rparr>"

definition Interest_getCanBePrefix :: "interest \<Rightarrow> bool" where
  "Interest_getCanBePrefix self \<longleftrightarrow> i_maxSuffixComponents self \<noteq> 1"

definition Interest_hasApplicationParameters :: "interest \<Rightarrow> bool" where
  "Interest_hasApplicationParameters self \<longleftrightarrow> blob_size (i_applicationParameters self) > 0"

section \<open>The link of an Interest\<close>

text \<open>
  \<^verbatim>\<open>getLink\<close> decodes the link encoding once and keeps the object.  The exception is that of the decoding, and
  None that of a decoder that leaves its input.
\<close>

definition Interest_getLink :: "formats \<Rightarrow> interest \<Rightarrow> (link option result \<times> interest) option" where
  "Interest_getLink fmts self =
     (case sp_target (i_link self) of
        Some l \<Rightarrow> Some (Inr (Some l), self)
      | None \<Rightarrow>
          if i_linkWireEncoding self \<noteq> None
          then Option.bind (Link_wireDecode fmts (the (i_linkWireEncodingFormat self))
                              (blob_bytes (i_linkWireEncoding self)) Link_new) (\<lambda>(exn, l).
                 case exn of
                   Some e \<Rightarrow> Some (Inl e, self)
                 | None \<Rightarrow>
                     (let self = self\<lparr>i_link := SharedPointerChangeCounter_set Link_getChangeCount (Some l) (i_link self),
                                       i_linkWireEncoding := None, i_linkWireEncodingFormat := None\<rparr>
                      in Some (Inr (sp_target (i_link self)), self)))
          else Some (Inr None, self))"

definition Interest_getLinkWireEncoding ::
  "formats \<Rightarrow> nat \<Rightarrow> interest \<Rightarrow> (blob result \<times> interest) option" where
  "Interest_getLinkWireEncoding fmts wireFormat self =
     (if i_linkWireEncoding self \<noteq> None \<and> i_linkWireEncodingFormat self = Some wireFormat
      then Some (Inr (i_linkWireEncoding self), self)
      else Option.bind (Interest_getLink fmts self) (\<lambda>(lnk, self).
        case lnk of
          Inl e \<Rightarrow> Some (Inl e, self)
        | Inr None \<Rightarrow> Some (Inr None, self)
        | Inr (Some l) \<Rightarrow>
            map_option (\<lambda>(r, d).
              (map_sum id (\<lambda>(bs, _, _). Some bs) r,
               self\<lparr>i_link := (i_link self)\<lparr>sp_target := Some (l\<lparr>lk_data := d\<rparr>)\<rparr>\<rparr>))
              (Data_wireEncode (f_encodeData fmts) (f_default fmts) wireFormat (lk_data l))))"

section \<open>The C struct\<close>

text \<open>
  \<^verbatim>\<open>get\<close> copies \<^verbatim>\<open>nonce_\<close> as it is, whether or not a change has invalidated it.  Encoding the forwarding hint can
  store its encoding; an error of the link is taken as no link.
\<close>

definition Interest_get ::
  "formats \<Rightarrow> nat \<Rightarrow> nat \<times> nat \<times> nat \<Rightarrow> interest \<Rightarrow> (c_interest result \<times> interest) option" where
  "Interest_get fmts wireFormat maxes self =
     (case bindE (Name_get_lite \<lparr>cn_components = [], cn_maxComponents = fst maxes\<rparr> (cc_target (i_name self))) (\<lambda>name.
           bindE (KeyLocator_get_lite (snd (snd maxes)) (cc_target (i_keyLocator self))) (\<lambda>keyLocator.
           bindE (Exclude_get_lite \<lparr>cex_entries = [], cex_maxEntries = fst (snd maxes)\<rparr> (cc_target (i_exclude self))) (\<lambda>exclude.
             Inr (cn_components name, keyLocator, exclude)))) of
        Inl e \<Rightarrow> Some (Inl e, self)
      | Inr (name, keyLocator, exclude) \<Rightarrow>
          (let (hint, ds) = (if ds_delegations (cc_target (i_forwardingHint self)) \<noteq> []
                   then (let (r, ds) = DelegationSet_wireEncode (f_encodeDelegationSet fmts) (f_default fmts) wireFormat
                                         (cc_target (i_forwardingHint self))
                         in (map_sum id Some r, ds))
                   else (Inr None, cc_target (i_forwardingHint self)));
               self = self\<lparr>i_forwardingHint := (i_forwardingHint self)\<lparr>cc_target := ds\<rparr>\<rparr>
           in case hint of
                Inl e \<Rightarrow> Some (Inl e, self)
              | Inr hint \<Rightarrow>
                  map_option (\<lambda>(lnk, self).
                    (Inr \<lparr>ci_name = name, ci_minSuffixComponents = i_minSuffixComponents self,
                          ci_maxSuffixComponents = i_maxSuffixComponents self, ci_keyLocator = keyLocator,
                          ci_exclude = map (\<lambda>e. if e_type e = ndn_Exclude_COMPONENT then Some (e_component e) else None)
                                         (cex_entries exclude),
                          ci_childSelector = i_childSelector self, ci_mustBeFresh = i_mustBeFresh self,
                          ci_interestLifetimeMilliseconds = i_interestLifetimeMilliseconds self, ci_nonce = i_nonce self,
                          ci_forwardingHintWireEncoding = hint, ci_applicationParameters = i_applicationParameters self,
                          ci_linkWireEncoding = case_sum (\<lambda>_. None) id lnk,
                          ci_selectedDelegationIndex = i_selectedDelegationIndex self\<rparr>, self))
                    (Interest_getLinkWireEncoding fmts wireFormat self)))"

text \<open>\<^verbatim>\<open>set\<close>; a forwarding hint that does not decode is dropped.\<close>

definition Interest_set :: "formats \<Rightarrow> nat \<Rightarrow> c_interest \<Rightarrow> interest \<Rightarrow> interest option" where
  "Interest_set fmts wireFormat lite self =
     (let self = Interest_getName_apply (Name_set_lite \<lparr>cn_components = ci_name lite, cn_maxComponents = length (ci_name lite)\<rparr>) self;
          self = Interest_setMinSuffixComponents (ci_minSuffixComponents lite) self;
          self = Interest_setMaxSuffixComponents (ci_maxSuffixComponents lite) self;
          self = self\<lparr>i_didSetCanBePrefix := True,
                      i_keyLocator := ChangeCounter_update (KeyLocator_set_lite (ci_keyLocator lite)) (i_keyLocator self)\<rparr>;
          self = Interest_getExclude_apply (Exclude_set_lite
                   \<lparr>cex_entries = map (\<lambda>e. case e of None \<Rightarrow> Entry_any | Some c \<Rightarrow> Entry_component c) (ci_exclude lite),
                    cex_maxEntries = length (ci_exclude lite)\<rparr>) self;
          self = Interest_setChildSelector (ci_childSelector lite) self;
          self = self\<lparr>i_mustBeFresh := ci_mustBeFresh lite\<rparr>;
          self = Interest_setInterestLifetimeMilliseconds (ci_interestLifetimeMilliseconds lite) self;
          self = self\<lparr>i_applicationParameters := ci_applicationParameters lite\<rparr>
      in map_option (\<lambda>hint.
           let self = self\<lparr>i_forwardingHint := (i_forwardingHint self)\<lparr>cc_target := hint\<rparr>\<rparr>;
               self = (if ci_linkWireEncoding lite \<noteq> None
                       then Interest_setLinkWireEncoding (ci_linkWireEncoding lite) (Some wireFormat) self
                       else Interest_unsetLink self);
               self = Interest_setSelectedDelegationIndex (ci_selectedDelegationIndex lite) self;
               self = self\<lparr>i_nonce := ci_nonce lite\<rparr>;
               (n, self) = Interest_getChangeCount self
           in self\<lparr>i_getNonceChangeCount := n\<rparr>)
           (case ci_forwardingHintWireEncoding lite of
              None \<Rightarrow> Some (DelegationSet_clear (cc_target (i_forwardingHint self)))
            | Some bs \<Rightarrow>
                map_option (\<lambda>(exn, ds). if exn \<noteq> None then DelegationSet_clear ds else ds)
                  (DelegationSet_wireDecode (f_decodeDelegationSet fmts) (f_default fmts) (f_default fmts) bs
                     (cc_target (i_forwardingHint self)))))"

section \<open>Encoding and decoding\<close>

definition Interest_wireEncode ::
  "(nat \<Rightarrow> interest \<Rightarrow> ((bytes \<times> nat \<times> nat) result \<times> interest) option) \<Rightarrow> nat \<Rightarrow> nat \<Rightarrow> interest \<Rightarrow>
   ((bytes \<times> nat \<times> nat) result \<times> interest) option" where
  "Interest_wireEncode encode defaultFormat wireFormat self =
     (let (encoding, self) = Interest_getDefaultWireEncoding self in
      if encoding \<noteq> None \<and> i_defaultWireEncodingFormat self = Some wireFormat
      then (let (encoding, self) = Interest_getDefaultWireEncoding self in Some (Inr (the encoding), self))
      else (case encode wireFormat self of
              None \<Rightarrow> None
            | Some (Inl e, self) \<Rightarrow> Some (Inl e, self)
            | Some (Inr wireEncoding, self) \<Rightarrow>
                Some (Inr wireEncoding,
                      if wireFormat = defaultFormat
                      then Interest_setDefaultWireEncoding (Some wireEncoding) (Some defaultFormat) self else self)))"

definition Interest_wireDecode ::
  "(nat \<Rightarrow> bytes \<Rightarrow> interest \<Rightarrow> ((exn + nat \<times> nat) \<times> interest) option) \<Rightarrow> nat \<Rightarrow> nat \<Rightarrow> bytes \<Rightarrow> interest \<Rightarrow>
   (exn option \<times> interest) option" where
  "Interest_wireDecode decode defaultFormat wireFormat input self =
     (case decode wireFormat input self of
        None \<Rightarrow> None
      | Some (Inl e, self) \<Rightarrow> Some (Some e, self)
      | Some (Inr (b, e), self) \<Rightarrow>
          Some (None, if wireFormat = defaultFormat
                      then Interest_setDefaultWireEncoding (Some (input, b, e)) (Some defaultFormat) self
                      else Interest_setDefaultWireEncoding None None self))"

text \<open>
  \<^verbatim>\<open>Tlv0_3WireFormat::encodeInterest\<close> and \<^verbatim>\<open>decodeInterest\<close>: \<^verbatim>\<open>random\<close> is the source of a nonce, \<^verbatim>\<open>wireFormat\<close> the number of the
  format object.  The warning about the default CanBePrefix is left out.
\<close>

abbreviation interest_maxes :: "nat \<times> nat \<times> nat" where
  "interest_maxes \<equiv> (MAX_NAME_COMPONENTS, 100, MAX_NAME_COMPONENTS)"

definition Tlv_encodeInterest ::
  "formats \<Rightarrow> (bool \<Rightarrow> nat \<Rightarrow> ndn_error + bytes) \<Rightarrow> nat \<Rightarrow> interest \<Rightarrow>
   ((bytes \<times> nat \<times> nat) result \<times> interest) option" where
  "Tlv_encodeInterest fmts random wireFormat interest =
     map_option (\<lambda>(lite, interest).
         (bindE lite (\<lambda>lite. throwC (ndn_Tlv0_3WireFormat_encodeInterest random 256 lite)), interest))
       (Interest_get fmts wireFormat interest_maxes interest)"

definition Tlv_decodeInterest ::
  "formats \<Rightarrow> bool \<Rightarrow> nat \<Rightarrow> bytes \<Rightarrow> interest \<Rightarrow> ((exn + nat \<times> nat) \<times> interest) option" where
  "Tlv_decodeInterest fmts defaultCanBePrefix wireFormat input interest =
     Option.bind (ndn_Tlv0_3WireFormat_decodeInterest interest_maxes (ndn_Interest_initialize defaultCanBePrefix) input)
       (case_sum (\<lambda>e. Some (Inl (RuntimeError (ndn_getErrorString e)), interest))
         (\<lambda>((v, b, e), _). Option.bind (resolve_interest input v) (\<lambda>lite.
            Option.bind (case ci_forwardingHintWireEncoding lite of
                           None \<Rightarrow> Some None
                         | Some bs \<Rightarrow> map_option fst (Tlv_decodeDelegationSet bs DelegationSet_new)) (\<lambda>exn.
              case exn of
                Some e \<Rightarrow> Some (Inl e, interest)
              | None \<Rightarrow> map_option (\<lambda>interest. (Inr (unat b, unat e), interest)) (Interest_set fmts wireFormat lite interest)))))"

text \<open>The TLV format for every format object.\<close>

definition tlv_formats :: formats where
  "tlv_formats = \<lparr>f_default = 0, f_encodeData = (\<lambda>_. Tlv_encodeData), f_decodeData = (\<lambda>_. Tlv_decodeData),
     f_encodeDelegationSet = (\<lambda>_. Tlv_encodeDelegationSet), f_decodeDelegationSet = (\<lambda>_. Tlv_decodeDelegationSet)\<rparr>"

section \<open>Copies\<close>

text \<open>
  The assignment operator.  The application parameters and the forwarding hint are not copied.  The source is
  const, but can drop its stale encoding; the pair is the source and the target after.
\<close>

definition Interest_assign :: "interest \<Rightarrow> interest \<Rightarrow> interest \<times> interest" where
  "Interest_assign other self =
     (let self = Interest_setName (cc_target (i_name other)) self;
          self = Interest_setMinSuffixComponents (i_minSuffixComponents other) self;
          self = Interest_setMaxSuffixComponents (i_maxSuffixComponents other) self;
          self = self\<lparr>i_didSetCanBePrefix := i_didSetCanBePrefix other\<rparr>;
          self = Interest_setKeyLocator (cc_target (i_keyLocator other)) self;
          self = Interest_setExclude (cc_target (i_exclude other)) self;
          self = Interest_setChildSelector (i_childSelector other) self;
          self = self\<lparr>i_mustBeFresh := i_mustBeFresh other\<rparr>;
          self = Interest_setInterestLifetimeMilliseconds (i_interestLifetimeMilliseconds other) self;
          self = Interest_setNonce (i_nonce other) self;
          self = self\<lparr>i_linkWireEncoding := i_linkWireEncoding other,
                      i_linkWireEncodingFormat := i_linkWireEncodingFormat other\<rparr>;
          self = (case sp_target (i_link other) of
                    None \<Rightarrow> self
                  | Some l \<Rightarrow> self\<lparr>i_link := SharedPointerChangeCounter_set Link_getChangeCount
                        (Some (l\<lparr>lk_data := snd (Data_copy (lk_data l))\<rparr>)) (i_link self)\<rparr>);
          self = Interest_setSelectedDelegationIndex (i_selectedDelegationIndex other) self;
          (encoding, other) = Interest_getDefaultWireEncoding other
      in (other, Interest_setDefaultWireEncoding encoding (i_defaultWireEncodingFormat other) self))"

text \<open>The copy constructor: a nonce count of 0 beside a change count of 0.\<close>

definition Interest_copy :: "interest \<Rightarrow> interest \<times> interest" where
  "Interest_copy other =
     (let hint = i_forwardingHint other;
          self = other\<lparr>i_getNonceChangeCount := 0,
            i_forwardingHint := hint\<lparr>cc_target := snd (DelegationSet_copy (cc_target hint))\<rparr>,
            i_link := \<lparr>sp_target = None, sp_changeCount = 0\<rparr>,
            i_defaultWireEncoding := None, i_defaultWireEncodingFormat := None,
            i_getDefaultWireEncodingChangeCount := 0, i_changeCount := 0\<rparr>;
          self = (case sp_target (i_link other) of
                    None \<Rightarrow> self
                  | Some l \<Rightarrow> self\<lparr>i_link := SharedPointerChangeCounter_set Link_getChangeCount
                        (Some (l\<lparr>lk_data := snd (Data_copy (lk_data l))\<rparr>)) (i_link self)\<rparr>);
          (encoding, other) = Interest_getDefaultWireEncoding other
      in (other, Interest_setDefaultWireEncoding encoding (i_defaultWireEncodingFormat other) self))"

section \<open>Printing\<close>

definition Interest_toUri :: "interest \<Rightarrow> bytes \<times> interest" where
  "Interest_toUri self =
     (let os = new_ostringstream;
          os = (if i_minSuffixComponents self \<ge> 0
                then put_int (i_minSuffixComponents self) (put_str (str ''&ndn.MinSuffixComponents='') os) else os);
          os = (if i_maxSuffixComponents self \<ge> 0
                then put_int (i_maxSuffixComponents self) (put_str (str ''&ndn.MaxSuffixComponents='') os) else os);
          os = (if i_childSelector self \<ge> 0
                then put_int (i_childSelector self) (put_str (str ''&ndn.ChildSelector='') os) else os);
          os = put_int (if i_mustBeFresh self then 1 else 0) (put_str (str ''&ndn.MustBeFresh='') os);
          os = (if i_interestLifetimeMilliseconds self \<ge> 0
                then put_unsigned (unat (round_u64 (i_interestLifetimeMilliseconds self)))
                       (put_str (str ''&ndn.InterestLifetime='') os) else os);
          (nonce, self) = Interest_getNonce self;
          os = (if blob_size nonce > 0
                then Name_toEscapedString_os (blob_bytes nonce) (put_str (str ''&ndn.Nonce='') os) else os);
          os = (if ex_entries (cc_target (i_exclude self)) \<noteq> []
                then put_str (Exclude_toUri (cc_target (i_exclude self))) (put_str (str ''&ndn.Exclude='') os) else os);
          result = put_str (Name_toUri False (cc_target (i_name self))) new_ostringstream;
          selectorsString = os_str os
      in (os_str (if selectorsString \<noteq> [] then put_str (tl selectorsString) (put_str (str ''?'') result) else result),
          self))"

section \<open>The nonce\<close>

text \<open>
  \<^verbatim>\<open>refreshNonce\<close> draws until the new nonce differs: \<^verbatim>\<open>random i n\<close> is the result of the \<^verbatim>\<open>i\<close>-th call for \<^verbatim>\<open>n\<close> bytes.
  The loop may run forever, when the source keeps returning the present nonce.
\<close>

partial_function (option) refresh_loop ::
  "(nat \<Rightarrow> nat \<Rightarrow> ndn_error + bytes) \<Rightarrow> bytes \<Rightarrow> nat \<Rightarrow> bytes result option" where
  "refresh_loop random currentNonce i =
     (case random i (length currentNonce) of
        Inl e \<Rightarrow> Some (throwC (Inl e))
      | Inr newNonce \<Rightarrow>
          if newNonce \<noteq> currentNonce then Some (Inr newNonce) else refresh_loop random currentNonce (Suc i))"

definition Interest_refreshNonce ::
  "(nat \<Rightarrow> nat \<Rightarrow> ndn_error + bytes) \<Rightarrow> interest \<Rightarrow> (exn option \<times> interest) option" where
  "Interest_refreshNonce random self =
     (let (currentNonce, self) = Interest_getNonce self in
      if blob_size currentNonce = 0 then Some (None, self)
      else map_option (\<lambda>r.
        case r of
          Inl e \<Rightarrow> (Some e, self)
        | Inr newNonce \<Rightarrow>
            (let self = self\<lparr>i_nonce := Some newNonce, i_changeCount := i_changeCount self + 1\<rparr>;
                 (n, self) = Interest_getChangeCount self
             in (None, self\<lparr>i_getNonceChangeCount := n\<rparr>)))
        (refresh_loop random (blob_bytes currentNonce) 0))"

definition Interest_appendParametersDigestToName :: "(bytes \<Rightarrow> bytes) \<Rightarrow> interest \<Rightarrow> exn option \<times> interest" where
  "Interest_appendParametersDigestToName sha256 self =
     (if \<not> Interest_hasApplicationParameters self then (None, self)
      else case Name_appendParametersSha256Digest (Some (sha256 (blob_bytes (i_applicationParameters self))))
                  (cc_target (i_name self)) of
             Inl e \<Rightarrow> (Some e, self)
           | Inr n \<Rightarrow> (None, Interest_getName_apply (\<lambda>_. n) self))"

section \<open>Matching\<close>

text \<open>After \<^verbatim>\<open>match\<close> the name has at least as many components, so the subtractions do not wrap around.\<close>

definition Interest_matchesName :: "name \<Rightarrow> interest \<Rightarrow> bool" where
  "Interest_matchesName name self \<longleftrightarrow>
     (let own = cc_target (i_name self); exclude = cc_target (i_exclude self) in
      if \<not> Name_match own name then False
      else if i_minSuffixComponents self \<ge> 0 \<and>
              \<not> Name_size name + 1 - Name_size own \<ge> nat (i_minSuffixComponents self) then False
      else if i_maxSuffixComponents self \<ge> 0 \<and>
              \<not> Name_size name + 1 - Name_size own \<le> nat (i_maxSuffixComponents self) then False
      else if ex_entries exclude \<noteq> [] \<and> Name_size name > Name_size own \<and>
              Exclude_matches (n_components name ! Name_size own) exclude then False
      else True)"

text \<open>\<^verbatim>\<open>getFullName\<close> is \<^verbatim>\<open>data.getFullName(wireFormat)\<close>, which encodes the packet and caches.\<close>

definition Interest_matchesData ::
  "(data \<Rightarrow> (name result \<times> data) option) \<Rightarrow> data \<Rightarrow> interest \<Rightarrow> (bool result \<times> data) option" where
  "Interest_matchesData getFullName data self =
     (let name = cc_target (i_name self); dataName = cc_target (dt_name data);
          interestNameLength = Name_size name; fullNameLength = Name_size dataName + 1;
          minSuffixComponents = (if i_minSuffixComponents self \<ge> 0 then i_minSuffixComponents self else 0);
          exclude = cc_target (i_exclude self); keyLocator = cc_target (i_keyLocator self)
      in
      if \<not> interestNameLength + nat minSuffixComponents \<le> fullNameLength then Some (Inr False, data)
      else if i_maxSuffixComponents self \<ge> 0 \<and>
              \<not> interestNameLength + nat (i_maxSuffixComponents self) \<ge> fullNameLength then Some (Inr False, data)
      else bindR (if interestNameLength = fullNameLength
                  then if c_type (last (n_components name)) = ndn_NameComponentType_IMPLICIT_SHA256_DIGEST
                       then bindR (getFullName data) (\<lambda>full data. Some (Inr (Name_equals name full), data))
                       else Some (Inr False, data)
                  else Some (Inr (Name_match name dataName), data)) (\<lambda>ok data.
           if \<not> ok then Some (Inr False, data)
           else bindR (if ex_entries exclude \<noteq> [] \<and> fullNameLength > interestNameLength
                       then if interestNameLength = fullNameLength - 1
                            then bindR (getFullName data) (\<lambda>full data.
                                   Some (Inr (Exclude_matches (n_components full ! interestNameLength) exclude), data))
                            else Some (Inr (Exclude_matches (n_components dataName ! interestNameLength) exclude), data)
                       else Some (Inr False, data)) (\<lambda>excluded data.
                if excluded then Some (Inr False, data)
                else if kl_type keyLocator \<ge> 0
                then case sp_target (dt_signature data) of
                       None \<Rightarrow> Some (Inr False, data)
                     | Some s \<Rightarrow> (if \<not> KeyLocator_canGetFromSignature s then Some (Inr False, data)
                         else Some (bindE (KeyLocator_getFromSignature s) (\<lambda>kl. Inr (KeyLocator_equals keyLocator kl)), data))
                else Some (Inr True, data))))"

section \<open>Counts\<close>

interpretation link_count: counted Link_getChangeCount "\<lambda>l m. Data_get m (lk_data l)"
proof
  fix s
  show "Link_getChangeCount (snd (Link_getChangeCount s)) = Link_getChangeCount s"
    by (simp add: Link_getChangeCount_def Let_def case_prod_beta data_count.again)
  show "(\<lambda>m. Data_get m (lk_data (snd (Link_getChangeCount s)))) = (\<lambda>m. Data_get m (lk_data s))"
    by (simp add: Link_getChangeCount_def Let_def case_prod_beta)
qed

text \<open>What a change can reach of an Interest without its link.\<close>

definition interest_fields :: "interest \<Rightarrow> _" where
  "interest_fields i = (cc_target (i_name i), i_minSuffixComponents i, i_maxSuffixComponents i, cc_target (i_exclude i),
     i_childSelector i, i_mustBeFresh i, i_interestLifetimeMilliseconds i, i_nonce i, cc_target (i_forwardingHint i),
     i_applicationParameters i, i_linkWireEncoding i, i_selectedDelegationIndex i)"

interpretation interest_count: counted Interest_getChangeCount interest_fields
proof
  fix s
  show "Interest_getChangeCount (snd (Interest_getChangeCount s)) = Interest_getChangeCount s"
    by (simp add: Interest_getChangeCount_def Let_def case_prod_beta checkChanged_twice key_locator_count.poll_again
        link_count.shared_again)
  show "interest_fields (snd (Interest_getChangeCount s)) = interest_fields s"
    by (simp add: Interest_getChangeCount_def Let_def case_prod_beta interest_fields_def)
qed

definition Interest_pending :: "interest \<Rightarrow> bool" where
  "Interest_pending i \<longleftrightarrow>
     cc_changeCount (i_name i) \<noteq> n_changeCount (cc_target (i_name i)) \<or>
     fst (ChangeCounter_poll KeyLocator_getChangeCount (i_keyLocator i)) \<or>
     cc_changeCount (i_exclude i) \<noteq> ex_changeCount (cc_target (i_exclude i)) \<or>
     cc_changeCount (i_forwardingHint i) \<noteq> ds_changeCount (cc_target (i_forwardingHint i)) \<or>
     fst (SharedPointerChangeCounter_checkChanged Link_getChangeCount (i_link i))"

lemma Interest_count:
  "fst (Interest_getChangeCount i) = (if Interest_pending i then i_changeCount i + 1 else i_changeCount i)"
  by (auto simp: Interest_getChangeCount_def Let_def case_prod_beta Interest_pending_def ChangeCounter_checkChanged_def)

lemma Interest_count_own [simp]: "i_changeCount (snd (Interest_getChangeCount i)) = fst (Interest_getChangeCount i)"
  by (simp add: Interest_getChangeCount_def Let_def case_prod_beta)

lemma Interest_count_nonce [simp]:
  "i_nonce (snd (Interest_getChangeCount i)) = i_nonce i"
  "i_getNonceChangeCount (snd (Interest_getChangeCount i)) = i_getNonceChangeCount i"
  by (simp_all add: Interest_getChangeCount_def Let_def case_prod_beta)

lemma not_pending_count: "\<not> Interest_pending (snd (Interest_getChangeCount i))"
proof
  assume "Interest_pending (snd (Interest_getChangeCount i))"
  then have "fst (Interest_getChangeCount (snd (Interest_getChangeCount i))) = fst (Interest_getChangeCount i) + 1"
    by (simp add: Interest_count [of "snd (Interest_getChangeCount i)"])
  then show False by (simp add: interest_count.again)
qed

lemma Interest_getNonce_value:
  "fst (Interest_getNonce i) = (if i_getNonceChangeCount i \<noteq> fst (Interest_getChangeCount i) then None else i_nonce i)"
  by (simp add: Interest_getNonce_def Let_def case_prod_beta)

text \<open>The calls that change an Interest.\<close>

datatype interest_op =
    INameOp name
  | IMinSuffixOp int
  | IMaxSuffixOp int
  | ICanBePrefixOp bool
  | IChildSelectorOp int
  | IMustBeFreshOp bool
  | ILifetimeOp real
  | IKeyLocatorOp key_locator
  | IExcludeOp exclude
  | IForwardingHintOp delegation_set
  | IParametersOp blob
  | ISelectedDelegationOp int
  | IAppendNameOp component
  | IAppendExcludeOp component

fun interest_op_step :: "interest_op \<Rightarrow> interest \<Rightarrow> interest" where
  "interest_op_step (INameOp n) i = Interest_setName n i"
| "interest_op_step (IMinSuffixOp n) i = Interest_setMinSuffixComponents n i"
| "interest_op_step (IMaxSuffixOp n) i = Interest_setMaxSuffixComponents n i"
| "interest_op_step (ICanBePrefixOp b) i = Interest_setCanBePrefix b i"
| "interest_op_step (IChildSelectorOp n) i = Interest_setChildSelector n i"
| "interest_op_step (IMustBeFreshOp b) i = Interest_setMustBeFresh b i"
| "interest_op_step (ILifetimeOp t) i = Interest_setInterestLifetimeMilliseconds t i"
| "interest_op_step (IKeyLocatorOp kl) i = Interest_setKeyLocator kl i"
| "interest_op_step (IExcludeOp x) i = Interest_setExclude x i"
| "interest_op_step (IForwardingHintOp ds) i = Interest_setForwardingHint ds i"
| "interest_op_step (IParametersOp b) i = Interest_setApplicationParameters b i"
| "interest_op_step (ISelectedDelegationOp n) i = Interest_setSelectedDelegationIndex n i"
| "interest_op_step (IAppendNameOp c) i = Interest_getName_apply (Name_append c) i"
| "interest_op_step (IAppendExcludeOp c) i = Interest_getExclude_apply (Exclude_appendComponent c) i"

lemmas interest_setter_defs =
  Interest_setName_def Interest_setMinSuffixComponents_def Interest_setMaxSuffixComponents_def Interest_setCanBePrefix_def
  Interest_setChildSelector_def Interest_setMustBeFresh_def Interest_setInterestLifetimeMilliseconds_def
  Interest_setKeyLocator_def Interest_setExclude_def Interest_setForwardingHint_def Interest_setApplicationParameters_def
  Interest_setSelectedDelegationIndex_def Interest_getName_apply_def Interest_getExclude_apply_def

text \<open>Each of them moves the count, and none touches the nonce.\<close>

lemma interest_op_step_count:
  assumes "\<not> Interest_pending i"
  shows "fst (Interest_getChangeCount (interest_op_step a i)) \<noteq> i_changeCount i"
    and "i_nonce (interest_op_step a i) = i_nonce i"
    and "i_getNonceChangeCount (interest_op_step a i) = i_getNonceChangeCount i"
proof -
  have two: "x + 1 + 1 \<noteq> (x :: u64)" for x
  proof
    assume "x + 1 + 1 = x"
    then have "(2 :: u64) = 0" by (simp add: add.assoc)
    then show False by simp
  qed
  have own: "fst (Interest_getChangeCount i') \<noteq> i_changeCount i" if "i_changeCount i' = i_changeCount i + 1" for i'
    using that two by (simp add: Interest_count)
  show "fst (Interest_getChangeCount (interest_op_step a i)) \<noteq> i_changeCount i"
  proof (cases a)
    case (IAppendNameOp c)
    have "n_changeCount (Name_append c n) = n_changeCount n + 1" for n by (simp add: Name_append_def)
    with assms IAppendNameOp show ?thesis
      by (simp add: Interest_count Interest_pending_def Interest_getName_apply_def ChangeCounter_update_def)
  next
    case (IAppendExcludeOp c)
    with assms show ?thesis
      by (simp add: Interest_count Interest_pending_def Interest_getExclude_apply_def ChangeCounter_update_def
          Exclude_appendComponent_def)
  qed (rule own, simp add: interest_setter_defs Let_def case_prod_beta)+
  show "i_nonce (interest_op_step a i) = i_nonce i" "i_getNonceChangeCount (interest_op_step a i) = i_getNonceChangeCount i"
    by (cases a; simp add: interest_setter_defs Let_def case_prod_beta)+
qed

lemma setNonce_fields:
  "i_nonce (Interest_setNonce n i) = n" "\<not> Interest_pending (Interest_setNonce n i)"
  "i_getNonceChangeCount (Interest_setNonce n i) = i_changeCount (Interest_setNonce n i)"
proof -
  have "Interest_pending (j\<lparr>i_getNonceChangeCount := k\<rparr>) = Interest_pending j" for j k
    by (simp add: Interest_pending_def)
  then show "\<not> Interest_pending (Interest_setNonce n i)"
    using not_pending_count by (simp add: Interest_setNonce_def Let_def case_prod_beta)
qed (simp_all add: Interest_setNonce_def Let_def case_prod_beta)

section \<open>Properties\<close>

text \<open>
  The nonce belongs to the Interest it was set on: \<^verbatim>\<open>getNonce\<close> returns it until the first change of the
  Interest, through a setter or through the reference to its name or exclude, and no nonce after that.
\<close>

theorem nonce_until_first_change:
  "fst (Interest_getNonce (Interest_setNonce n i)) = n \<and>
   fst (Interest_getNonce (interest_op_step a (Interest_setNonce n i))) = None"
  using interest_op_step_count [of "Interest_setNonce n i" a] setNonce_fields [of n i]
  by (simp add: Interest_getNonce_value Interest_count [of "Interest_setNonce n i"])

lemma Interest_getLink_nonce: "Interest_getLink fmts s = Some (l, t) \<Longrightarrow> i_nonce t = i_nonce s"
  by (auto simp: Interest_getLink_def Let_def bind_eq_Some_conv split: option.splits if_splits)

lemma getLinkWireEncoding_nonce:
  assumes "Interest_getLinkWireEncoding fmts f s = Some (r, s')"
  shows "i_nonce s' = i_nonce s"
proof (cases "Interest_getLink fmts s")
  case None
  with assms show ?thesis by (simp add: Interest_getLinkWireEncoding_def split: if_splits)
next
  case (Some lt)
  then obtain l t where lt: "lt = (l, t)" by (cases lt) simp
  with Some have keep: "i_nonce t = i_nonce s" by (intro Interest_getLink_nonce) simp
  show ?thesis
  proof (cases l)
    case (Inr ol)
    with assms Some lt keep show ?thesis
      by (cases ol) (auto simp: Interest_getLinkWireEncoding_def split: if_splits)
  qed (use assms Some lt keep in \<open>auto simp: Interest_getLinkWireEncoding_def split: if_splits\<close>)
qed

lemma Interest_get_nonce:
  assumes "Interest_get fmts f maxes s = Some (Inr lite, s')"
  shows "ci_nonce lite = i_nonce s"
  using assms
  apply (auto simp: Interest_get_def Let_def case_prod_beta split: sum.splits)
  subgoal for _ _ _ _ lnk by (cases lnk) (auto dest: getLinkWireEncoding_nonce)
  subgoal by (auto dest: getLinkWireEncoding_nonce)
  done

text \<open>
  C14.  Encoding does not ask \<^verbatim>\<open>getNonce\<close>: after a change the Interest reports no nonce, but the one set before the change
  is what its copy in the C struct, which is encoded, carries.
\<close>

theorem changed_interest_encodes_old_nonce:
  assumes "Interest_get fmts f maxes (interest_op_step a (Interest_setNonce (Some n) i)) = Some (Inr lite, i')"
  shows "ci_nonce lite = Some n \<and> fst (Interest_getNonce (interest_op_step a (Interest_setNonce (Some n) i))) = None"
  using Interest_get_nonce [OF assms] interest_op_step_count [of "Interest_setNonce (Some n) i" a] setNonce_fields [of "Some n" i]
  by (simp add: Interest_getNonce_value)

theorem changed_interest_encodes_old_nonce_witness:
  "\<exists>i' lite. Interest_get tlv_formats 0 interest_maxes
       (interest_op_step (IMinSuffixOp 2) (Interest_setNonce (Some [1, 2, 3, 4]) (Interest_of_name False False (Name_of [])))) =
     Some (Inr lite, i') \<and> ci_nonce lite = Some [1, 2, 3, 4]"
proof -
  let ?i = "interest_op_step (IMinSuffixOp 2) (Interest_setNonce (Some [1, 2, 3, 4]) (Interest_of_name False False (Name_of [])))"
  have "\<exists>lite i'. Interest_get tlv_formats 0 interest_maxes ?i = Some (Inr lite, i')"
    by (simp add: Interest_get_def Interest_setMinSuffixComponents_def Interest_setNonce_def Let_def case_prod_beta
        Interest_getChangeCount_def Interest_of_name_def ChangeCounter_checkChanged_def ChangeCounter_of_def
        ChangeCounter_poll_def ChangeCounter_poll_of_def SharedPointerChangeCounter_checkChanged_def
        Interest_getLinkWireEncoding_def Interest_getLink_def Name_get_lite_def KeyLocator_get_lite_def
        Exclude_get_lite_def Exclude_new_def DelegationSet_new_def Name_of_def Name_empty_def KeyLocator_new_def
        KeyLocator_getChangeCount_def)
  then show ?thesis using changed_interest_encodes_old_nonce by blast
qed

lemma refresh_loop_returns:
  assumes "random (i + k) (length current) = Inr v" and "v \<noteq> current"
    and "\<forall>j < k. random (i + j) (length current) = Inr current"
  shows "refresh_loop random current i = Some (Inr v)"
  using assms
proof (induction k arbitrary: i)
  case 0
  then show ?case by (simp add: refresh_loop.simps)
next
  case (Suc k)
  have "random i (length current) = Inr current" using Suc.prems(3) by (metis add_0_right zero_less_Suc)
  moreover have "refresh_loop random current (Suc i) = Some (Inr v)"
    using Suc.prems by (intro Suc.IH) auto
  ultimately show ?case by (simp add: refresh_loop.simps)
qed

lemma refreshNonce_set:
  assumes "fst (Interest_getNonce i) = Some n" and "n \<noteq> []" and "refresh_loop random n 0 = Some (Inr v)"
  shows "Interest_refreshNonce random i = Some (None, Interest_setNonce (Some v) (snd (Interest_getNonce i)))"
  using assms by (simp add: Interest_refreshNonce_def Let_def case_prod_beta Interest_setNonce_def)

lemma getNonce_setNonce: "fst (Interest_getNonce (Interest_setNonce n i)) = n"
  using setNonce_fields [of n i] by (simp add: Interest_getNonce_value Interest_count [of "Interest_setNonce n i"])

lemma setNonce_name:
  "cc_target (i_name (Interest_setNonce n (snd (Interest_getNonce i)))) = cc_target (i_name i)"
proof -
  have "cc_target (i_name (snd (Interest_getChangeCount j))) = cc_target (i_name j)" for j
    by (simp add: Interest_getChangeCount_def Let_def case_prod_beta)
  then show ?thesis by (simp add: Interest_setNonce_def Interest_getNonce_def Let_def case_prod_beta)
qed

text \<open>
  \<^verbatim>\<open>refreshNonce\<close> returns as soon as the random source gives another value than the present nonce, and then the
  Interest has that value as its nonce.
\<close>

theorem refresh_nonce_returns:
  assumes "fst (Interest_getNonce i) = Some n" and "n \<noteq> []"
    and "random k (length n) = Inr v" and "v \<noteq> n" and "\<forall>j < k. random j (length n) = Inr n"
  shows "\<exists>i'. Interest_refreshNonce random i = Some (None, i') \<and> fst (Interest_getNonce i') = Some v \<and>
           cc_target (i_name i') = cc_target (i_name i)"
proof -
  have "refresh_loop random n 0 = Some (Inr v)" using assms(3-5) by (intro refresh_loop_returns [where k = k]) simp_all
  from refreshNonce_set [OF assms(1,2) this] show ?thesis by (simp add: getNonce_setNonce setNonce_name)
qed

theorem refresh_nonce_returns_witness:
  "\<exists>i i'. fst (Interest_getNonce i) = Some [1, 2, 3, 4] \<and>
     Interest_refreshNonce (\<lambda>j n. Inr (if j = 0 then [1, 2, 3, 4] else [5, 6, 7, 8])) i = Some (None, i') \<and>
     fst (Interest_getNonce i') = Some [5, 6, 7, 8]"
proof -
  let ?i = "Interest_setNonce (Some [1, 2, 3, 4]) (Interest_of_name False False (Name_of []))"
  have "fst (Interest_getNonce ?i) = Some [1, 2, 3, 4]" by (rule getNonce_setNonce)
  with refresh_nonce_returns [OF this, of "\<lambda>j n. Inr (if j = 0 then [1, 2, 3, 4] else [5, 6, 7, 8])" 1 "[5, 6, 7, 8]"]
  show ?thesis by auto
qed

lemma Name_match_take:
  "Name_match a b \<longleftrightarrow> Name_size a \<le> Name_size b \<and> name_values a = take (Name_size a) (name_values b)"
  unfolding Name_match_values
proof
  assume "\<exists>rest. name_values b = name_values a @ rest"
  then obtain rest where *: "name_values b = name_values a @ rest" ..
  moreover have length: "length (name_values n) = Name_size n" for n by (simp add: Name_size_def name_values_def)
  ultimately have "Name_size b = Name_size a + length rest" by (metis length_append)
  with * show "Name_size a \<le> Name_size b \<and> name_values a = take (Name_size a) (name_values b)" by (simp add: length)
next
  assume "Name_size a \<le> Name_size b \<and> name_values a = take (Name_size a) (name_values b)"
  then show "\<exists>rest. name_values b = name_values a @ rest" by (metis append_take_drop_id)
qed

definition data_matches :: "component list \<Rightarrow> data \<Rightarrow> interest \<Rightarrow> bool" where
  "data_matches full data i \<longleftrightarrow>
     (let own = n_components (cc_target (i_name i)); k = length full - length own in
      length own \<le> length full \<and>
      map (\<lambda>c. the (c_value c)) own = map (\<lambda>c. the (c_value c)) (take (length own) full) \<and>
      (length own = length full \<longrightarrow> c_type (last own) = ndn_NameComponentType_IMPLICIT_SHA256_DIGEST) \<and>
      int k \<ge> i_minSuffixComponents i \<and> (i_maxSuffixComponents i \<ge> 0 \<longrightarrow> int k \<le> i_maxSuffixComponents i) \<and>
      (ex_entries (cc_target (i_exclude i)) \<noteq> [] \<and> k > 0 \<longrightarrow>
         \<not> Exclude_matches (full ! length own) (cc_target (i_exclude i))) \<and>
      (kl_type (cc_target (i_keyLocator i)) \<ge> 0 \<longrightarrow>
         (\<exists>s kl. sp_target (dt_signature data) = Some s \<and> KeyLocator_getFromSignature s = Inr kl \<and>
                 KeyLocator_equals (cc_target (i_keyLocator i)) kl)))"

lemma Interest_matchesData_full:
  assumes "getFullName data = Some (Inr full, data)"
    and "n_components full = n_components (cc_target (dt_name data)) @ [digest]"
  shows "Interest_matchesData getFullName data i = Some (Inr (data_matches (n_components full) data i), data)"
proof -
  let ?own = "n_components (cc_target (i_name i))" and ?D = "n_components (cc_target (dt_name data))"
  let ?v = "map (\<lambda>c. the (c_value c))"
  have match: "Name_match (cc_target (i_name i)) (cc_target (dt_name data)) \<longleftrightarrow>
      length ?own \<le> length ?D \<and> ?v ?own = ?v (take (length ?own) ?D)"
    by (simp add: Name_match_take Name_size_def name_values_def take_map)
  have equal: "Name_equals (cc_target (i_name i)) full \<longleftrightarrow> ?v ?own = ?v (?D @ [digest])"
    using assms(2) by (simp add: Name_equals_values name_values_def)
  have locator: "(case sp_target (dt_signature data) of None \<Rightarrow> Some (Inr False, data)
     | Some s \<Rightarrow> (if \<not> KeyLocator_canGetFromSignature s then Some (Inr False, data)
         else Some (bindE (KeyLocator_getFromSignature s) (\<lambda>kl. Inr (KeyLocator_equals (cc_target (i_keyLocator i)) kl)), data))) =
     Some (Inr (\<exists>s kl. sp_target (dt_signature data) = Some s \<and> KeyLocator_getFromSignature s = Inr kl \<and>
                 KeyLocator_equals (cc_target (i_keyLocator i)) kl), data)"
    by (cases "sp_target (dt_signature data)") (auto simp: canGetFromSignature)
  define K where "K \<longleftrightarrow> (\<exists>s kl. sp_target (dt_signature data) = Some s \<and> KeyLocator_getFromSignature s = Inr kl \<and>
                 KeyLocator_equals (cc_target (i_keyLocator i)) kl)"
  note locator = locator [folded K_def]
  define M X where "M = Name_match (cc_target (i_name i)) (cc_target (dt_name data))"
    and "X \<longleftrightarrow> Exclude_matches (n_components full ! length ?own) (cc_target (i_exclude i))"
  have next_component: "length ?own < length ?D \<Longrightarrow> ?D ! length ?own = n_components full ! length ?own"
    using assms(2) by (simp add: nth_append)
  have whole: "length ?own \<noteq> length (n_components full) \<Longrightarrow>
      length ?own \<le> length (n_components full) \<Longrightarrow> M \<longleftrightarrow> ?v ?own = ?v (take (length ?own) (n_components full))"
    using assms(2) match by (simp add: M_def)
  have spec: "data_matches (n_components full) data i \<longleftrightarrow>
     length ?own \<le> length (n_components full) \<and> ?v ?own = ?v (take (length ?own) (n_components full)) \<and>
     (length ?own = length (n_components full) \<longrightarrow> c_type (last ?own) = ndn_NameComponentType_IMPLICIT_SHA256_DIGEST) \<and>
     int (length (n_components full) - length ?own) \<ge> i_minSuffixComponents i \<and>
     (i_maxSuffixComponents i \<ge> 0 \<longrightarrow> int (length (n_components full) - length ?own) \<le> i_maxSuffixComponents i) \<and>
     (ex_entries (cc_target (i_exclude i)) \<noteq> [] \<and> length (n_components full) > length ?own \<longrightarrow> \<not> X) \<and>
     (kl_type (cc_target (i_keyLocator i)) \<ge> 0 \<longrightarrow> K)"
    by (simp add: data_matches_def Let_def K_def X_def)
  have size: "length (n_components full) = Suc (length ?D)" using assms(2) by simp
  consider "length ?own = Suc (length ?D)" | "length ?own > Suc (length ?D)" | "length ?own \<le> length ?D" by linarith
  then show ?thesis
  proof cases
    case 1
    with assms equal locator size show ?thesis
      unfolding spec by (simp add: Interest_matchesData_def bindR_def Let_def Name_size_def)
  next
    case 2
    with size show ?thesis
      unfolding spec by (simp add: Interest_matchesData_def bindR_def Let_def Name_size_def)
  next
    case 3
    have min: "i_minSuffixComponents i \<le> int (length (n_components full) - length ?own) \<longleftrightarrow>
        length ?own + nat (if i_minSuffixComponents i \<ge> 0 then i_minSuffixComponents i else 0) \<le> Suc (length ?D)"
      using 3 size by auto
    have max: "i_maxSuffixComponents i \<ge> 0 \<Longrightarrow>
        int (length (n_components full) - length ?own) \<le> i_maxSuffixComponents i \<longleftrightarrow>
        Suc (length ?D) \<le> length ?own + nat (i_maxSuffixComponents i)"
      using 3 size by auto
    show ?thesis
    proof (cases "length ?own = length ?D")
      case True
      then show ?thesis
        unfolding spec min using 3 max size locator whole assms(1)
        by (cases M; cases X)
           (simp_all add: Interest_matchesData_def bindR_def Let_def Name_size_def M_def [symmetric] X_def [unfolded True, symmetric])
    next
      case False
      then show ?thesis
        unfolding spec min using 3 max size locator whole next_component
        by (cases M; cases X)
           (simp_all add: Interest_matchesData_def bindR_def Let_def Name_size_def M_def [symmetric] X_def [symmetric])
    qed
  qed
qed



end
