(* ===== verification/TableContracts.thy ===== *)
theory TableContracts
  imports NdnPrelude
begin

text \<open>
  The contract that the pending interest table and the registered prefix table share.  An operation that
  was started may be cancelled, by its identifier, before its entry gets to the table: the identifier is
  then kept as a removal request, and the entry is refused when it comes.
\<close>

locale cancel_table =
  fixes inv :: "'s \<Rightarrow> bool" and ids :: "'s \<Rightarrow> u64 list" and requests :: "'s \<Rightarrow> u64 list"
    and add :: "u64 \<Rightarrow> 's \<Rightarrow> 's" and remove :: "u64 \<Rightarrow> 's \<Rightarrow> 's"
  assumes add_inv: "inv s \<Longrightarrow> inv (add k s)" and remove_inv: "inv s \<Longrightarrow> inv (remove k s)"
    and add_ids: "inv s \<Longrightarrow> ids (add k s) = (if k \<in> set (requests s) then ids s else ids s @ [k])"
    and add_requests: "requests (add k s) = remove1 k (requests s)"
    and remove_ids: "inv s \<Longrightarrow> ids (remove k s) = filter (\<lambda>j. j \<noteq> k) (ids s)"
    and remove_requests: "requests (remove k s) =
      (if k \<in> set (ids s) \<or> k \<in> set (requests s) then requests s else requests s @ [k])"
begin

definition requests_ok :: "'s \<Rightarrow> bool" where
  "requests_ok s \<longleftrightarrow> inv s \<and> distinct (ids s) \<and> distinct (requests s) \<and> set (requests s) \<inter> set (ids s) = {}"

lemma add_ok: "requests_ok s \<Longrightarrow> k \<notin> set (ids s) \<Longrightarrow> requests_ok (add k s)"
  by (auto simp: requests_ok_def add_inv add_ids add_requests dest: notin_set_remove1)

lemma remove_ok: "requests_ok s \<Longrightarrow> requests_ok (remove k s)"
  by (auto simp: requests_ok_def remove_inv remove_ids remove_requests)

text \<open>Cancelling before or after the entry comes is the same: there is no entry and no request left.\<close>

lemma absent: "k \<notin> set xs \<Longrightarrow> filter (\<lambda>j. j \<noteq> k) xs = xs"
  by (induction xs) auto

lemma cancel_after:
  assumes "inv s" and "k \<notin> set (ids s)" and "k \<notin> set (requests s)"
  shows "ids (remove k (add k s)) = ids s" and "requests (remove k (add k s)) = requests s"
  using assms by (simp_all add: remove_ids remove_requests add_inv add_ids add_requests absent remove1_idem)

lemma cancel_before:
  assumes "inv s" and "k \<notin> set (ids s)" and "k \<notin> set (requests s)"
  shows "ids (add k (remove k s)) = ids s" and "requests (add k (remove k s)) = requests s"
  using assms by (simp_all add: remove_ids remove_requests remove_inv add_ids add_requests absent remove1_append)

lemma removed: "inv s \<Longrightarrow> k \<notin> set (ids (remove k s))"
  by (simp add: remove_ids)

lemma others_kept: "inv s \<Longrightarrow> j \<noteq> k \<Longrightarrow> j \<in> set (ids (remove k s)) \<longleftrightarrow> j \<in> set (ids s)"
  by (simp add: remove_ids)

text \<open>A request for an entry that was never to come stays.\<close>

lemma request_stays: "k \<in> set (requests s) \<Longrightarrow> j \<noteq> k \<Longrightarrow> k \<in> set (requests (add j s)) \<and> k \<in> set (requests (remove j s))"
  by (auto simp: add_requests remove_requests)

end

end
