(* ===== verification/PendingInterests.thy ===== *)
theory PendingInterests
  imports InterestModel TableContracts
begin

text \<open>
  The pending interest table (\<^verbatim>\<open>impl/pending-interest-table.[ch]pp\<close>).  Its entries are shared with the
  delayed calls of their timeouts and with the vectors they are extracted to, so they are references into a
  store.  A callback is a value of type \<^verbatim>\<open>'cb\<close>; an empty function object is None.
\<close>

section \<open>State\<close>

record 'cb pit_entry =
  pe_interest :: interest
  pe_pendingInterestId :: u64
  pe_onData :: "'cb option"
  pe_onTimeout :: "'cb option"
  pe_onNetworkNack :: "'cb option"
  pe_isRemoved :: bool

text \<open>The store of the entries that were ever made, the table of those pending, and the removal requests.\<close>

record 'cb pit =
  pt_store :: "'cb pit_entry list"
  pt_table :: "nat list"
  pt_removeRequests :: "u64 list"

definition PendingInterestTable_new :: "'cb pit" where
  "PendingInterestTable_new = \<lparr>pt_store = [], pt_table = [], pt_removeRequests = []\<rparr>"

definition Entry_setIsRemoved :: "nat \<Rightarrow> 'cb pit \<Rightarrow> 'cb pit" where
  "Entry_setIsRemoved ref self =
     self\<lparr>pt_store := (pt_store self)[ref := (pt_store self ! ref)\<lparr>pe_isRemoved := True\<rparr>]\<rparr>"

text \<open>Methods of the Interest of an entry change what it caches.\<close>

definition Entry_setInterest :: "nat \<Rightarrow> interest \<Rightarrow> 'cb pit \<Rightarrow> 'cb pit" where
  "Entry_setInterest ref interest self =
     self\<lparr>pt_store := (pt_store self)[ref := (pt_store self ! ref)\<lparr>pe_interest := interest\<rparr>]\<rparr>"

section \<open>Operations\<close>

definition PendingInterestTable_add ::
  "u64 \<Rightarrow> interest \<Rightarrow> 'cb option \<Rightarrow> 'cb option \<Rightarrow> 'cb option \<Rightarrow> 'cb pit \<Rightarrow> nat option \<times> 'cb pit" where
  "PendingInterestTable_add pendingInterestId interestCopy onData onTimeout onNetworkNack self =
     (if pendingInterestId \<in> set (pt_removeRequests self)
      then (None, self\<lparr>pt_removeRequests := remove1 pendingInterestId (pt_removeRequests self)\<rparr>)
      else let ref = length (pt_store self);
               entry = \<lparr>pe_interest = interestCopy, pe_pendingInterestId = pendingInterestId, pe_onData = onData,
                        pe_onTimeout = onTimeout, pe_onNetworkNack = onNetworkNack, pe_isRemoved = False\<rparr>
           in (Some ref, self\<lparr>pt_store := pt_store self @ [entry], pt_table := pt_table self @ [ref]\<rparr>))"

text \<open>
  The entry at index \<^verbatim>\<open>i\<close> is pushed to \<^verbatim>\<open>entries\<close>, marked and erased.
\<close>

definition extract_at :: "nat \<Rightarrow> nat list \<Rightarrow> 'cb pit \<Rightarrow> nat list \<times> 'cb pit" where
  "extract_at i entries self =
     (let ref = pt_table self ! i; self = Entry_setIsRemoved ref self
      in (entries @ [ref], self\<lparr>pt_table := take i (pt_table self) @ drop (Suc i) (pt_table self)\<rparr>))"

text \<open>
  The loop of \<^verbatim>\<open>extractEntriesForExpressedInterest\<close>, from index \<^verbatim>\<open>i - 1\<close> down.  \<^verbatim>\<open>matchesData\<close> is that of the entry's
  Interest; it can throw, and can change what the Data object caches.
\<close>

fun extractExpressed_loop ::
  "(data \<Rightarrow> interest \<Rightarrow> (bool result \<times> data) option) \<Rightarrow> nat \<Rightarrow> nat list \<Rightarrow> data \<times> 'cb pit \<Rightarrow>
   (nat list result \<times> data \<times> 'cb pit) option" where
  "extractExpressed_loop matchesData 0 entries s = Some (Inr entries, s)"
| "extractExpressed_loop matchesData (Suc i) entries (data, self) =
     (case matchesData data (pe_interest (pt_store self ! (pt_table self ! i))) of
        None \<Rightarrow> None
      | Some (Inl e, data) \<Rightarrow> Some (Inl e, (data, self))
      | Some (Inr b, data) \<Rightarrow>
          if b then let (entries, self) = extract_at i entries self
                    in extractExpressed_loop matchesData i entries (data, self)
          else extractExpressed_loop matchesData i entries (data, self))"

definition extractEntriesForExpressedInterest ::
  "(data \<Rightarrow> (name result \<times> data) option) \<Rightarrow> data \<Rightarrow> 'cb pit \<Rightarrow> (nat list result \<times> data \<times> 'cb pit) option" where
  "extractEntriesForExpressedInterest getFullName data self =
     extractExpressed_loop (Interest_matchesData getFullName) (length (pt_table self)) [] (data, self)"

text \<open>\<^verbatim>\<open>wireEncode\<close> is that of the default format; it stores the encoding in the Interest.\<close>

fun extractNack_loop ::
  "(interest \<Rightarrow> ((bytes \<times> nat \<times> nat) result \<times> interest) option) \<Rightarrow> bytes \<Rightarrow> nat \<Rightarrow> nat list \<Rightarrow> 'cb pit \<Rightarrow>
   (nat list result \<times> 'cb pit) option" where
  "extractNack_loop wireEncode encoding 0 entries self = Some (Inr entries, self)"
| "extractNack_loop wireEncode encoding (Suc i) entries self =
     (let ref = pt_table self ! i; entry = pt_store self ! ref in
      if pe_onNetworkNack entry = None then extractNack_loop wireEncode encoding i entries self
      else case wireEncode (pe_interest entry) of
             None \<Rightarrow> None
           | Some (Inl e, interest) \<Rightarrow> Some (Inl e, Entry_setInterest ref interest self)
           | Some (Inr (wire, _, _), interest) \<Rightarrow>
               (let self = Entry_setInterest ref interest self in
                if wire = encoding
                then let (entries, self) = extract_at i entries self
                     in extractNack_loop wireEncode encoding i entries self
                else extractNack_loop wireEncode encoding i entries self))"

definition extractEntriesForNackInterest ::
  "(interest \<Rightarrow> ((bytes \<times> nat \<times> nat) result \<times> interest) option) \<Rightarrow> interest \<Rightarrow> 'cb pit \<Rightarrow>
   (nat list result \<times> 'cb pit) option" where
  "extractEntriesForNackInterest wireEncode interest self =
     (case wireEncode interest of
        None \<Rightarrow> None
      | Some (Inl e, _) \<Rightarrow> Some (Inl e, self)
      | Some (Inr (encoding, _, _), _) \<Rightarrow> extractNack_loop wireEncode encoding (length (pt_table self)) [] self)"

definition removePendingInterest :: "u64 \<Rightarrow> 'cb pit \<Rightarrow> 'cb pit" where
  "removePendingInterest pendingInterestId self =
     (let (table, removed) = erase_backwards (\<lambda>ref. pe_pendingInterestId (pt_store self ! ref) = pendingInterestId)
                               (pt_table self) (length (pt_table self)) [];
          self = (fold Entry_setIsRemoved removed self)\<lparr>pt_table := table\<rparr>
      in if length removed = 0
         then if pendingInterestId \<notin> set (pt_removeRequests self)
              then self\<lparr>pt_removeRequests := pt_removeRequests self @ [pendingInterestId]\<rparr>
              else self
         else self)"

text \<open>The search is by pointer equality, and erases the first reference found.\<close>

definition removeEntry :: "nat \<Rightarrow> 'cb pit \<Rightarrow> bool \<times> 'cb pit" where
  "removeEntry pendingInterest self =
     (if pe_isRemoved (pt_store self ! pendingInterest) then (False, self)
      else if pendingInterest \<in> set (pt_table self)
      then let self = Entry_setIsRemoved pendingInterest self
           in (True, self\<lparr>pt_table := remove1 pendingInterest (pt_table self)\<rparr>)
      else (False, self))"

section \<open>The removed flag\<close>

text \<open>
  The table has no entry twice, and the flag of an entry says exactly whether it has left the table, so
  \<^verbatim>\<open>removeEntry\<close> may trust it.
\<close>

definition pit_wf :: "'cb pit \<Rightarrow> bool" where
  "pit_wf self \<longleftrightarrow>
     distinct (pt_table self) \<and> (\<forall>r \<in> set (pt_table self). r < length (pt_store self)) \<and>
     (\<forall>r < length (pt_store self). pe_isRemoved (pt_store self ! r) \<longleftrightarrow> r \<notin> set (pt_table self))"

definition entry_fixed :: "'cb pit_entry \<Rightarrow> _" where
  "entry_fixed e = (pe_pendingInterestId e, pe_onData e, pe_onTimeout e, pe_onNetworkNack e)"

text \<open>What no operation undoes: entries keep their fields, and one that left the table does not come back.\<close>

definition pit_after :: "'cb pit \<Rightarrow> 'cb pit \<Rightarrow> bool" where
  "pit_after t t' \<longleftrightarrow>
     length (pt_store t) \<le> length (pt_store t') \<and>
     (\<forall>r < length (pt_store t). entry_fixed (pt_store t' ! r) = entry_fixed (pt_store t ! r) \<and>
        (r \<notin> set (pt_table t) \<longrightarrow> r \<notin> set (pt_table t')))"

lemma pit_after_refl [simp]: "pit_after t t"
  by (simp add: pit_after_def)

lemma pit_after_trans: "pit_after t t' \<Longrightarrow> pit_after t' t'' \<Longrightarrow> pit_after t t''"
  by (auto simp: pit_after_def)

lemma pit_wf_new [simp]: "pit_wf PendingInterestTable_new"
  by (simp add: pit_wf_def PendingInterestTable_new_def)

lemma nth_setIsRemoved:
  "pt_store (Entry_setIsRemoved r t) ! j =
     (if j = r \<and> r < length (pt_store t) then (pt_store t ! j)\<lparr>pe_isRemoved := True\<rparr> else pt_store t ! j)"
  by (auto simp: Entry_setIsRemoved_def nth_list_update_eq nth_list_update_neq list_update_beyond)

lemma setIsRemoved_fields [simp]:
  "pt_table (Entry_setIsRemoved r t) = pt_table t"
  "pt_removeRequests (Entry_setIsRemoved r t) = pt_removeRequests t"
  "length (pt_store (Entry_setIsRemoved r t)) = length (pt_store t)"
  by (simp_all add: Entry_setIsRemoved_def)

lemma setIsRemoved_nth [simp]:
  "pe_interest (pt_store (Entry_setIsRemoved r t) ! j) = pe_interest (pt_store t ! j)"
  "pe_pendingInterestId (pt_store (Entry_setIsRemoved r t) ! j) = pe_pendingInterestId (pt_store t ! j)"
  "entry_fixed (pt_store (Entry_setIsRemoved r t) ! j) = entry_fixed (pt_store t ! j)"
  by (simp_all add: nth_setIsRemoved entry_fixed_def)

lemma setIsRemoved_flag:
  "r < length (pt_store t) \<Longrightarrow>
   pe_isRemoved (pt_store (Entry_setIsRemoved r t) ! j) \<longleftrightarrow> j = r \<or> pe_isRemoved (pt_store t ! j)"
  by (simp add: nth_setIsRemoved)

lemma setIsRemoved_table:
  "Entry_setIsRemoved r (t\<lparr>pt_table := x\<rparr>) = (Entry_setIsRemoved r t)\<lparr>pt_table := x\<rparr>"
  by (simp add: Entry_setIsRemoved_def)

lemma nth_setInterest:
  "pt_store (Entry_setInterest r i t) ! j =
     (if j = r \<and> r < length (pt_store t) then (pt_store t ! j)\<lparr>pe_interest := i\<rparr> else pt_store t ! j)"
  by (auto simp: Entry_setInterest_def nth_list_update_eq nth_list_update_neq list_update_beyond)

lemma setInterest_fields [simp]:
  "pt_table (Entry_setInterest r i t) = pt_table t"
  "pt_removeRequests (Entry_setInterest r i t) = pt_removeRequests t"
  "length (pt_store (Entry_setInterest r i t)) = length (pt_store t)"
  by (simp_all add: Entry_setInterest_def)

lemma setInterest_nth [simp]:
  "pe_isRemoved (pt_store (Entry_setInterest r i t) ! j) = pe_isRemoved (pt_store t ! j)"
  "pe_onNetworkNack (pt_store (Entry_setInterest r i t) ! j) = pe_onNetworkNack (pt_store t ! j)"
  "entry_fixed (pt_store (Entry_setInterest r i t) ! j) = entry_fixed (pt_store t ! j)"
  by (simp_all add: nth_setInterest entry_fixed_def)

lemma setInterest_ok: "pit_wf (Entry_setInterest r i t) = pit_wf t" "pit_after t (Entry_setInterest r i t)"
  by (simp_all add: pit_wf_def pit_after_def)

text \<open>Taking an entry out of the table, with its flag.\<close>

lemma take_out_ok:
  assumes "pit_wf t" and "r \<in> set (pt_table t)" and "distinct tb" and "set tb = set (pt_table t) - {r}"
  shows "pit_wf ((Entry_setIsRemoved r t)\<lparr>pt_table := tb\<rparr>)" and "pit_after t ((Entry_setIsRemoved r t)\<lparr>pt_table := tb\<rparr>)"
  using assms by (auto simp: pit_wf_def pit_after_def setIsRemoved_flag)

lemma erase_index:
  assumes "i < length xs" and "distinct xs"
  shows "distinct (take i xs @ drop (Suc i) xs)" and "set (take i xs @ drop (Suc i) xs) = set xs - {xs ! i}"
proof -
  have xs: "xs = take i xs @ xs ! i # drop (Suc i) xs" using assms(1) by (rule id_take_nth_drop)
  with assms(2) have d: "distinct (take i xs @ xs ! i # drop (Suc i) xs)" by metis
  then show "distinct (take i xs @ drop (Suc i) xs)" by simp
  have "set xs = set (take i xs @ xs ! i # drop (Suc i) xs)" using xs by metis
  with d show "set (take i xs @ drop (Suc i) xs) = set xs - {xs ! i}" by auto
qed

lemma extract_at_ok:
  assumes "pit_wf t" and "i < length (pt_table t)" and "extract_at i entries t = (entries', t')"
  shows "pit_wf t'" and "pit_after t t'" and "entries' = entries @ [pt_table t ! i]"
    and "pt_table t' = take i (pt_table t) @ drop (Suc i) (pt_table t)" and "pt_table t ! i \<notin> set (pt_table t')"
proof -
  have d: "distinct (pt_table t)" using assms(1) by (simp add: pit_wf_def)
  have t': "t' = (Entry_setIsRemoved (pt_table t ! i) t)\<lparr>pt_table := take i (pt_table t) @ drop (Suc i) (pt_table t)\<rparr>"
    using assms(3) by (auto simp: extract_at_def Let_def)
  show "pit_wf t'" "pit_after t t'"
    unfolding t' using assms(1,2) erase_index [OF assms(2) d] by (intro take_out_ok; simp)+
  show "entries' = entries @ [pt_table t ! i]" using assms(3) by (auto simp: extract_at_def Let_def)
  show "pt_table t' = take i (pt_table t) @ drop (Suc i) (pt_table t)" "pt_table t ! i \<notin> set (pt_table t')"
    using t' erase_index [OF assms(2) d] by simp_all
qed

lemma pit_add_ok:
  assumes "pit_wf t" and "PendingInterestTable_add k i d o' n t = (ref, t')"
  shows "pit_wf t'" and "pit_after t t'"
  using assms by (auto simp: PendingInterestTable_add_def Let_def pit_wf_def pit_after_def nth_append less_Suc_eq split: if_splits)

text \<open>What every extraction keeps and gives.\<close>

definition extracts :: "nat list \<Rightarrow> nat list result \<Rightarrow> 'cb pit \<Rightarrow> 'cb pit \<Rightarrow> bool" where
  "extracts entries r t t' \<longleftrightarrow>
     pit_wf t' \<and> pit_after t t' \<and> set (pt_table t') \<subseteq> set (pt_table t) \<and>
     (\<forall>out. r = Inr out \<longrightarrow> (\<exists>new. out = entries @ new \<and> distinct new \<and>
        set new \<subseteq> set (pt_table t) \<and> set new \<inter> set (pt_table t') = {}))"

lemma extracts_done: "pit_wf t \<Longrightarrow> extracts entries (Inr entries) t t" "pit_wf t \<Longrightarrow> extracts entries (Inl e) t t"
  by (auto simp: extracts_def)

lemma extracts_at:
  assumes "pit_wf t" and "i < length (pt_table t)" and "extract_at i entries t = (entries\<^sub>1, t\<^sub>1)"
    and "extracts entries\<^sub>1 r t\<^sub>1 t'"
  shows "extracts entries r t t'"
proof -
  note ok = extract_at_ok [OF assms(1-3)]
  have sub: "set (pt_table t\<^sub>1) \<subseteq> set (pt_table t)"
    using ok(4) by (auto dest: in_set_takeD in_set_dropD)
  have "pt_table t ! i < length (pt_store t)" using assms(1) nth_mem [OF assms(2)] by (simp add: pit_wf_def)
  then have "pt_table t ! i < length (pt_store t\<^sub>1)" using ok(2) by (simp add: pit_after_def)
  then have gone: "pt_table t ! i \<notin> set (pt_table t')"
    using assms(4) ok(5) by (simp add: extracts_def pit_after_def)
  have "\<exists>new. out = entries @ new \<and> distinct new \<and> set new \<subseteq> set (pt_table t) \<and> set new \<inter> set (pt_table t') = {}"
    if out: "r = Inr out" for out
  proof -
    from assms(4) out obtain new where new: "out = entries\<^sub>1 @ new" "distinct new" "set new \<subseteq> set (pt_table t\<^sub>1)"
        "set new \<inter> set (pt_table t') = {}" by (auto simp: extracts_def)
    then show ?thesis using ok(3,5) sub gone nth_mem [OF assms(2)]
      by (intro exI [of _ "pt_table t ! i # new"] conjI) (simp_all, blast+)
  qed
  moreover have "set (pt_table t') \<subseteq> set (pt_table t)" using assms(4) sub by (auto simp: extracts_def)
  ultimately show ?thesis using assms(4) ok(2) unfolding extracts_def by (blast intro: pit_after_trans)
qed

lemma extractExpressed_ok:
  "pit_wf t \<Longrightarrow> i \<le> length (pt_table t) \<Longrightarrow> extractExpressed_loop f i entries (d, t) = Some (r, d', t') \<Longrightarrow>
   extracts entries r t t'"
proof (induction i arbitrary: entries d t)
  case (Suc i)
  obtain b d1 where m: "f d (pe_interest (pt_store t ! (pt_table t ! i))) = Some (b, d1)"
    using Suc.prems(3) by (auto split: option.splits)
  obtain entries1 t1 where x: "extract_at i entries t = (entries1, t1)" by fastforce
  have i: "i < length (pt_table t)" using Suc.prems(2) by simp
  note ok = extract_at_ok [OF Suc.prems(1) i x]
  have le: "i \<le> length (pt_table t1)" using ok(4) i by simp
  consider e where "b = Inl e" | "b = Inr False" | "b = Inr True" by (cases b) auto
  then show ?case
  proof cases
    case 3
    have "extractExpressed_loop f i entries1 (d1, t1) = Some (r, d', t')" using Suc.prems(3) m 3 x by simp
    from Suc.IH [OF ok(1) le this] show ?thesis by (rule extracts_at [OF Suc.prems(1) i x])
  qed (use Suc m in \<open>auto intro: extracts_done\<close>)
qed (auto intro: extracts_done)

lemma extractNack_ok:
  "pit_wf t \<Longrightarrow> i \<le> length (pt_table t) \<Longrightarrow> extractNack_loop f enc i entries t = Some (r, t') \<Longrightarrow> extracts entries r t t'"
proof (induction i arbitrary: entries t)
  case (Suc i)
  let ?ref = "pt_table t ! i"
  show ?case
  proof (cases "pe_onNetworkNack (pt_store t ! ?ref) = None")
    case True
    with Suc show ?thesis by simp
  next
    case False
    obtain b interest where m: "f (pe_interest (pt_store t ! ?ref)) = Some (b, interest)"
      using Suc.prems(3) False by (auto simp: Let_def split: option.splits)
    define t0 where "t0 = Entry_setInterest ?ref interest t"
    have t0: "pit_wf t0" "pt_table t0 = pt_table t" "pit_after t t0"
      using Suc.prems(1) by (simp_all add: t0_def setInterest_ok)
    have up: "extracts entries r t0 t' \<Longrightarrow> extracts entries r t t'"
      using t0 pit_after_trans unfolding extracts_def by metis
    obtain entries1 t1 where x: "extract_at i entries t0 = (entries1, t1)" by fastforce
    have i: "i < length (pt_table t0)" using Suc.prems(2) t0 by simp
    note ok = extract_at_ok [OF t0(1) i x]
    have le: "i \<le> length (pt_table t1)" using ok(4) i by simp
    consider e where "b = Inl e" | wire l h where "b = Inr (wire, l, h)" "wire \<noteq> enc" | l h where "b = Inr (enc, l, h)"
      by (metis sumE surj_pair)
    then show ?thesis
    proof cases
      case 1
      with Suc.prems m False t0 show ?thesis by (intro up) (auto simp: Let_def t0_def intro: extracts_done)
    next
      case 2
      with Suc.prems m False have "extractNack_loop f enc i entries t0 = Some (r, t')" by (simp add: Let_def t0_def)
      with Suc.IH t0 i show ?thesis by (intro up) simp
    next
      case 3
      with Suc.prems m False x have "extractNack_loop f enc i entries1 t1 = Some (r, t')" by (simp add: Let_def t0_def)
      from Suc.IH [OF ok(1) le this] show ?thesis by (intro up extracts_at [OF t0(1) i x])
    qed
  qed
qed (auto intro: extracts_done)

lemma removeEntry_ok:
  assumes "pit_wf t" and "r < length (pt_store t)" and "removeEntry r t = (b, t')"
  shows "pit_wf t'" and "pit_after t t'" and "b \<longleftrightarrow> r \<in> set (pt_table t)" and "r \<notin> set (pt_table t')"
proof -
  have flag: "pe_isRemoved (pt_store t ! r) \<longleftrightarrow> r \<notin> set (pt_table t)" and d: "distinct (pt_table t)"
    using assms(1,2) by (simp_all add: pit_wf_def)
  have out: "pit_wf ((Entry_setIsRemoved r t)\<lparr>pt_table := remove1 r (pt_table t)\<rparr>)"
      "pit_after t ((Entry_setIsRemoved r t)\<lparr>pt_table := remove1 r (pt_table t)\<rparr>)" if "r \<in> set (pt_table t)"
    using that assms(1) d by (intro take_out_ok; simp)+
  show "pit_wf t'" "pit_after t t'" "b \<longleftrightarrow> r \<in> set (pt_table t)" "r \<notin> set (pt_table t')"
    using assms(1,3) out flag d by (auto simp: removeEntry_def Let_def split: if_splits)
qed

lemma mark_all_fields:
  "pt_table (fold Entry_setIsRemoved rs t) = pt_table t"
  "pt_removeRequests (fold Entry_setIsRemoved rs t) = pt_removeRequests t"
  "length (pt_store (fold Entry_setIsRemoved rs t)) = length (pt_store t)"
  "entry_fixed (pt_store (fold Entry_setIsRemoved rs t) ! j) = entry_fixed (pt_store t ! j)"
  by (induction rs arbitrary: t) simp_all

lemma mark_all_interest: "pe_interest (pt_store (fold Entry_setIsRemoved rs t) ! j) = pe_interest (pt_store t ! j)"
  by (induction rs arbitrary: t) simp_all

lemma mark_all_flag:
  "set rs \<subseteq> {..<length (pt_store t)} \<Longrightarrow>
   pe_isRemoved (pt_store (fold Entry_setIsRemoved rs t) ! j) \<longleftrightarrow> j \<in> set rs \<or> pe_isRemoved (pt_store t ! j)"
  by (induction rs arbitrary: t) (auto simp: setIsRemoved_flag)

lemma removePendingInterest_ok:
  assumes "pit_wf t"
  shows "pit_wf (removePendingInterest k t)" and "pit_after t (removePendingInterest k t)"
proof -
  let ?P = "\<lambda>ref. pe_pendingInterestId (pt_store t ! ref) = k"
  let ?gone = "rev (filter ?P (pt_table t))"
  define t' where "t' = (fold Entry_setIsRemoved ?gone t)\<lparr>pt_table := filter (\<lambda>r. \<not> ?P r) (pt_table t)\<rparr>"
  have "set ?gone \<subseteq> {..<length (pt_store t)}" using assms by (auto simp: pit_wf_def)
  note flag = mark_all_flag [OF this]
  have "pit_wf t'" "pit_after t t'"
    using assms by (auto simp: t'_def pit_wf_def pit_after_def mark_all_fields flag)
  moreover have "pt_store (removePendingInterest k t) = pt_store t'" "pt_table (removePendingInterest k t) = pt_table t'"
    by (simp_all add: removePendingInterest_def Let_def t'_def)
  ultimately show "pit_wf (removePendingInterest k t)" "pit_after t (removePendingInterest k t)"
    by (simp_all add: pit_wf_def pit_after_def)
qed

section \<open>Cancelling\<close>

definition pit_ids :: "'cb pit \<Rightarrow> u64 list" where
  "pit_ids t = map (\<lambda>r. pe_pendingInterestId (pt_store t ! r)) (pt_table t)"

lemma pit_new_empty [simp]:
  "pit_ids PendingInterestTable_new = []" "pt_removeRequests PendingInterestTable_new = []"
  by (simp_all add: pit_ids_def PendingInterestTable_new_def)

interpretation pit_cancel: cancel_table pit_wf pit_ids pt_removeRequests
    "\<lambda>k t. snd (PendingInterestTable_add k interest onData onTimeout onNetworkNack t)" removePendingInterest
  for interest onData onTimeout onNetworkNack
proof
  fix t :: "'a pit" and k
  let ?add = "PendingInterestTable_add k interest onData onTimeout onNetworkNack t"
  let ?P = "\<lambda>ref. pe_pendingInterestId (pt_store t ! ref) = k"
  show "pt_removeRequests (snd ?add) = remove1 k (pt_removeRequests t)"
    by (simp add: PendingInterestTable_add_def Let_def remove1_idem)
  have none: "filter ?P (pt_table t) = [] \<longleftrightarrow> k \<notin> set (pit_ids t)"
    by (auto simp: pit_ids_def filter_empty_conv)
  show "pt_removeRequests (removePendingInterest k t) =
      (if k \<in> set (pit_ids t) \<or> k \<in> set (pt_removeRequests t) then pt_removeRequests t else pt_removeRequests t @ [k])"
    by (simp add: removePendingInterest_def Let_def none mark_all_fields)
  assume wf: "pit_wf t"
  then have in_store: "r \<in> set (pt_table t) \<Longrightarrow> r < length (pt_store t)" for r by (simp add: pit_wf_def)
  show "pit_wf (snd ?add)" using pit_add_ok [OF wf] by (metis surjective_pairing)
  show "pit_wf (removePendingInterest k t)" using wf by (rule removePendingInterest_ok)
  show "pit_ids (snd ?add) = (if k \<in> set (pt_removeRequests t) then pit_ids t else pit_ids t @ [k])"
    using in_store by (simp add: PendingInterestTable_add_def Let_def pit_ids_def nth_append)
  have "pe_pendingInterestId (pt_store (fold Entry_setIsRemoved rs t) ! r) = pe_pendingInterestId (pt_store t ! r)" for rs r
    using mark_all_fields(4) [of rs t r] by (simp add: entry_fixed_def)
  then show "pit_ids (removePendingInterest k t) = filter (\<lambda>j. j \<noteq> k) (pit_ids t)"
    by (simp add: removePendingInterest_def Let_def pit_ids_def filter_map comp_def)
qed

section \<open>Extraction of matching entries\<close>

lemma erase_backwards_out:
  "erase_backwards P tb n out = (fst (erase_backwards P tb n []), out @ snd (erase_backwards P tb n []))"
proof (induction n arbitrary: tb out)
  case (Suc n)
  show ?case
    using Suc [of "take n tb @ drop (Suc n) tb" "out @ [tb ! n]"] Suc [of "take n tb @ drop (Suc n) tb" "[tb ! n]"]
      Suc [of tb out] by simp
qed simp

lemma mark_all_table: "fold Entry_setIsRemoved rs (t\<lparr>pt_table := x\<rparr>) = (fold Entry_setIsRemoved rs t)\<lparr>pt_table := x\<rparr>"
  by (induction rs arbitrary: t) (simp_all add: setIsRemoved_table)

lemma extractExpressed_pure:
  assumes "\<And>r. f d (pe_interest (pt_store t ! r)) = Some (Inr (M r), d)"
  shows "extractExpressed_loop f n entries (d, t) =
     (let (tb, out) = erase_backwards M (pt_table t) n []
      in Some (Inr (entries @ out), d, (fold Entry_setIsRemoved out t)\<lparr>pt_table := tb\<rparr>))"
  using assms
proof (induction n arbitrary: entries t)
  case (Suc n)
  let ?r = "pt_table t ! n" and ?tb = "take n (pt_table t) @ drop (Suc n) (pt_table t)"
  show ?case
  proof (cases "M ?r")
    case True
    define t1 where "t1 = (Entry_setIsRemoved ?r t)\<lparr>pt_table := ?tb\<rparr>"
    have "\<And>r. f d (pe_interest (pt_store t1 ! r)) = Some (Inr (M r), d)" using Suc.prems by (simp add: t1_def)
    note IH = Suc.IH [OF this, of "entries @ [?r]"]
    have "extract_at n entries t = (entries @ [?r], t1)" by (simp add: extract_at_def Let_def t1_def)
    then have "extractExpressed_loop f (Suc n) entries (d, t) = extractExpressed_loop f n (entries @ [?r]) (d, t1)"
      using Suc.prems [of ?r] True by simp
    moreover have "erase_backwards M (pt_table t) (Suc n) [] = erase_backwards M ?tb n [?r]" using True by simp
    ultimately show ?thesis
      using IH erase_backwards_out [of M ?tb n "[?r]"] by (simp add: Let_def case_prod_beta t1_def mark_all_table)
  next
    case False
    with Suc show ?thesis by simp
  qed
qed (simp add: Let_def)

section \<open>Properties\<close>

text \<open>
  A Data packet takes out of the table exactly the pending Interests it matches, the latest first, leaves the
  others in order, and marks those it took.
\<close>

lemma pit_extracts_matching:
  assumes "getFullName data = Some (Inr full, data)"
    and "n_components full = n_components (cc_target (dt_name data)) @ [digest]"
  shows "extractEntriesForExpressedInterest getFullName data t =
     (let M = \<lambda>r. data_matches (n_components full) data (pe_interest (pt_store t ! r));
          out = rev (filter M (pt_table t))
      in Some (Inr out, data, (fold Entry_setIsRemoved out t)\<lparr>pt_table := filter (\<lambda>r. \<not> M r) (pt_table t)\<rparr>))"
  unfolding extractEntriesForExpressedInterest_def
  by (subst extractExpressed_pure) (rule Interest_matchesData_full [where getFullName = getFullName and data = data, OF assms], simp add: Let_def)

text \<open>
  \<^verbatim>\<open>removePendingInterest\<close> may be called before or after the entry gets to the table: either way no entry
  and no removal request is left, and nothing else in the table has changed.
\<close>

theorem pit_cancel_any_order:
  assumes "pit_wf t" and "k \<notin> set (pit_ids t)" and "k \<notin> set (pt_removeRequests t)"
  shows "let before = snd (PendingInterestTable_add k interest onData onTimeout onNetworkNack (removePendingInterest k t));
             after = removePendingInterest k (snd (PendingInterestTable_add k interest onData onTimeout onNetworkNack t))
         in pit_ids before = pit_ids t \<and> pit_ids after = pit_ids t \<and>
            pt_removeRequests before = pt_removeRequests t \<and> pt_removeRequests after = pt_removeRequests t"
  using pit_cancel.cancel_before [OF assms] pit_cancel.cancel_after [OF assms] by (simp add: Let_def)

theorem pit_cancel_any_order_witness:
  "pit_ids (snd (PendingInterestTable_add 1 (Interest_of_name True False (Name_of [])) (Some ()) None None
      (removePendingInterest 1 PendingInterestTable_new))) = []"
  using pit_cancel_any_order [OF pit_wf_new, of 1 "Interest_of_name True False (Name_of [])" "Some ()" None None]
  by (simp add: Let_def)

end
