(* ===== verification/PrefixTables.thy ===== *)
theory PrefixTables
  imports NameOps TableContracts
begin

text \<open>
  Interest filters (\<^verbatim>\<open>interest-filter.cpp\<close>), the interest filter table and the registered prefix table
  (\<^verbatim>\<open>impl/interest-filter-table.[ch]pp\<close>, \<^verbatim>\<open>impl/registered-prefix-table.[ch]pp\<close>).  A callback is a value of type \<^verbatim>\<open>'cb\<close>.
\<close>

section \<open>Interest filters\<close>

record interest_filter =
  if_prefix :: name
  if_regexFilter :: bytes
  if_regexFilterPattern :: bytes

text \<open>\<^verbatim>\<open>pattern[0]\<close> is read while the pattern is empty, which is the null character, so a \<^verbatim>\<open>^\<close> is always put in front.\<close>

definition makePattern :: "bytes \<Rightarrow> bytes" where
  "makePattern regexFilter =
     (if length regexFilter = 0 then str ''^$''
      else let pattern = ([] :: bytes);
               pattern = (if (pattern @ [0]) ! 0 \<noteq> of_char CHR ''^'' then of_char CHR ''^'' # regexFilter else regexFilter)
           in if pattern ! (length pattern - 1) \<noteq> of_char CHR ''$'' then pattern @ [of_char CHR ''$''] else pattern)"

definition InterestFilter_of_prefix :: "name \<Rightarrow> interest_filter" where
  "InterestFilter_of_prefix prefix = \<lparr>if_prefix = prefix, if_regexFilter = [], if_regexFilterPattern = []\<rparr>"

definition InterestFilter_of_regex :: "name \<Rightarrow> bytes \<Rightarrow> interest_filter" where
  "InterestFilter_of_regex prefix regexFilter =
     \<lparr>if_prefix = prefix, if_regexFilter = regexFilter, if_regexFilterPattern = makePattern regexFilter\<rparr>"

definition InterestFilter_hasRegexFilter :: "interest_filter \<Rightarrow> bool" where
  "InterestFilter_hasRegexFilter self \<longleftrightarrow> length (if_regexFilter self) > 0"

text \<open>
  \<^verbatim>\<open>regexMatch pattern name\<close> is \<^verbatim>\<open>NdnRegexTopMatcher(pattern).match(name)\<close>, which throws for a malformed pattern.
\<close>

definition InterestFilter_doesMatch :: "(bytes \<Rightarrow> name \<Rightarrow> bool result) \<Rightarrow> name \<Rightarrow> interest_filter \<Rightarrow> bool result" where
  "InterestFilter_doesMatch regexMatch name self =
     (if Name_size name < Name_size (if_prefix self) then Inr False
      else if InterestFilter_hasRegexFilter self
      then if \<not> Name_match (if_prefix self) name then Inr False
           else regexMatch (if_regexFilterPattern self) (Name_getSubName_from (int (Name_size (if_prefix self))) name)
      else Inr (Name_match (if_prefix self) name))"

section \<open>The interest filter table\<close>

record 'cb filter_entry =
  fe_interestFilterId :: u64
  fe_filter :: interest_filter
  fe_prefix :: name
  fe_onInterest :: "'cb option"

type_synonym 'cb filter_table = "'cb filter_entry list"

definition setInterestFilter :: "u64 \<Rightarrow> interest_filter \<Rightarrow> 'cb option \<Rightarrow> 'cb filter_table \<Rightarrow> 'cb filter_table" where
  "setInterestFilter interestFilterId filterCopy onInterest table =
     table @ [\<lparr>fe_interestFilterId = interestFilterId, fe_filter = filterCopy, fe_prefix = if_prefix filterCopy,
               fe_onInterest = onInterest\<rparr>]"

fun getMatchedFilters ::
  "(bytes \<Rightarrow> name \<Rightarrow> bool result) \<Rightarrow> name \<Rightarrow> 'cb filter_table \<Rightarrow> 'cb filter_entry list \<Rightarrow> 'cb filter_entry list result" where
  "getMatchedFilters regexMatch name [] matchedFilters = Inr matchedFilters"
| "getMatchedFilters regexMatch name (entry # table) matchedFilters =
     bindE (InterestFilter_doesMatch regexMatch name (fe_filter entry)) (\<lambda>b.
       getMatchedFilters regexMatch name table (if b then matchedFilters @ [entry] else matchedFilters))"

definition unsetInterestFilter :: "u64 \<Rightarrow> 'cb filter_table \<Rightarrow> 'cb filter_table" where
  "unsetInterestFilter interestFilterId table =
     fst (erase_backwards (\<lambda>entry. fe_interestFilterId entry = interestFilterId) table (length table) [])"

section \<open>The registered prefix table\<close>

record prefix_entry =
  re_registeredPrefixId :: u64
  re_prefix :: name
  re_relatedInterestFilterId :: u64

text \<open>The table has a reference to the interest filter table, which is part of its state here.\<close>

record 'cb prefix_table =
  rt_table :: "prefix_entry list"
  rt_removeRequests :: "u64 list"
  rt_interestFilterTable :: "'cb filter_table"

definition RegisteredPrefixTable_new :: "'cb prefix_table" where
  "RegisteredPrefixTable_new = \<lparr>rt_table = [], rt_removeRequests = [], rt_interestFilterTable = []\<rparr>"

definition RegisteredPrefixTable_add :: "u64 \<Rightarrow> name \<Rightarrow> u64 \<Rightarrow> 'cb prefix_table \<Rightarrow> bool \<times> 'cb prefix_table" where
  "RegisteredPrefixTable_add registeredPrefixId prefix relatedInterestFilterId self =
     (if registeredPrefixId \<in> set (rt_removeRequests self)
      then (False, self\<lparr>rt_removeRequests := remove1 registeredPrefixId (rt_removeRequests self)\<rparr>)
      else (True, self\<lparr>rt_table := rt_table self @
             [\<lparr>re_registeredPrefixId = registeredPrefixId, re_prefix = prefix,
               re_relatedInterestFilterId = relatedInterestFilterId\<rparr>]\<rparr>))"

text \<open>The loop over the table, from index \<^verbatim>\<open>i - 1\<close> down; the number is that of the entries removed.\<close>

fun removeRegisteredPrefix_loop :: "u64 \<Rightarrow> nat \<Rightarrow> nat \<Rightarrow> 'cb prefix_table \<Rightarrow> nat \<times> 'cb prefix_table" where
  "removeRegisteredPrefix_loop registeredPrefixId 0 n self = (n, self)"
| "removeRegisteredPrefix_loop registeredPrefixId (Suc i) n self =
     (let entry = rt_table self ! i in
      if re_registeredPrefixId entry = registeredPrefixId
      then let self = (if re_relatedInterestFilterId entry > 0
                       then self\<lparr>rt_interestFilterTable :=
                              unsetInterestFilter (re_relatedInterestFilterId entry) (rt_interestFilterTable self)\<rparr>
                       else self)
           in removeRegisteredPrefix_loop registeredPrefixId i (n + 1)
                (self\<lparr>rt_table := take i (rt_table self) @ drop (Suc i) (rt_table self)\<rparr>)
      else removeRegisteredPrefix_loop registeredPrefixId i n self)"

definition removeRegisteredPrefix :: "u64 \<Rightarrow> 'cb prefix_table \<Rightarrow> 'cb prefix_table" where
  "removeRegisteredPrefix registeredPrefixId self =
     (let (n, self) = removeRegisteredPrefix_loop registeredPrefixId (length (rt_table self)) 0 self
      in if n = 0
         then if registeredPrefixId \<notin> set (rt_removeRequests self)
              then self\<lparr>rt_removeRequests := rt_removeRequests self @ [registeredPrefixId]\<rparr>
              else self
         else self)"

section \<open>What the operations compute\<close>

lemma unsetInterestFilter_eq: "unsetInterestFilter k table = filter (\<lambda>e. fe_interestFilterId e \<noteq> k) table"
  by (simp add: unsetInterestFilter_def)

lemma prefix_filter_match:
  "\<not> InterestFilter_hasRegexFilter f \<Longrightarrow> InterestFilter_doesMatch rm name f = Inr (Name_match (if_prefix f) name)"
  by (auto simp: InterestFilter_doesMatch_def Name_match_def)

lemma getMatchedFilters_eq:
  assumes "\<forall>e \<in> set table. InterestFilter_doesMatch rm name (fe_filter e) = Inr (M e)"
  shows "getMatchedFilters rm name table out = Inr (out @ filter M table)"
  using assms by (induction table arbitrary: out) simp_all

text \<open>The related filters of the removed entries go with them.\<close>

definition related :: "u64 \<Rightarrow> prefix_entry list \<Rightarrow> u64 set" where
  "related k tb = {re_relatedInterestFilterId e | e. e \<in> set tb \<and> re_registeredPrefixId e = k} - {0}"

lemma removeRegisteredPrefix_loop_eq:
  "i \<le> length xs \<Longrightarrow> rt_table s = take i xs @ ys \<Longrightarrow>
   removeRegisteredPrefix_loop k i n s =
     (n + length (filter (\<lambda>e. re_registeredPrefixId e = k) (take i xs)),
      s\<lparr>rt_table := filter (\<lambda>e. re_registeredPrefixId e \<noteq> k) (take i xs) @ ys,
        rt_interestFilterTable :=
          filter (\<lambda>f. fe_interestFilterId f \<notin> related k (take i xs)) (rt_interestFilterTable s)\<rparr>)"
proof (induction i arbitrary: n s ys)
  case 0
  then show ?case by (simp add: related_def)
next
  case (Suc i)
  then have i: "i < length xs" by simp
  have sp: "take (Suc i) xs = take i xs @ [xs ! i]" using i by (simp add: take_Suc_conv_app_nth)
  have nth: "rt_table s ! i = xs ! i" using Suc.prems i by (simp add: nth_append)
  have cut: "take i (rt_table s) @ drop (Suc i) (rt_table s) = take i xs @ ys" using Suc.prems i by simp
  show ?case
  proof (cases "re_registeredPrefixId (xs ! i) = k")
    case False
    have "rt_table s = take i xs @ (xs ! i # ys)" using Suc.prems sp by simp
    moreover have "related k (take i xs @ [xs ! i]) = related k (take i xs)" using False by (auto simp: related_def)
    ultimately show ?thesis using Suc.IH [of s "xs ! i # ys" n] False i nth by (simp add: Let_def sp)
  next
    case True
    let ?f = "re_relatedInterestFilterId (xs ! i)"
    define s1 where "s1 = (if ?f > 0 then s\<lparr>rt_interestFilterTable := unsetInterestFilter ?f (rt_interestFilterTable s)\<rparr> else s)
      \<lparr>rt_table := take i xs @ ys\<rparr>"
    have rel: "related k (take i xs @ [xs ! i]) = (if ?f > 0 then insert ?f (related k (take i xs)) else related k (take i xs))"
      using True by (auto simp: related_def word_neq_0_conv)
    have "removeRegisteredPrefix_loop k (Suc i) n s = removeRegisteredPrefix_loop k i (n + 1) s1"
      using True nth cut by (simp add: Let_def s1_def)
    also have "\<dots> = (n + 1 + length (filter (\<lambda>e. re_registeredPrefixId e = k) (take i xs)),
      s1\<lparr>rt_table := filter (\<lambda>e. re_registeredPrefixId e \<noteq> k) (take i xs) @ ys,
        rt_interestFilterTable :=
          filter (\<lambda>f. fe_interestFilterId f \<notin> related k (take i xs)) (rt_interestFilterTable s1)\<rparr>)"
      using i by (intro Suc.IH) (simp_all add: s1_def)
    finally show ?thesis
      using True by (simp add: sp rel s1_def unsetInterestFilter_eq filter_filter conj_commute)
  qed
qed

lemma removeRegisteredPrefix_eq:
  "removeRegisteredPrefix k s =
     (let s' = s\<lparr>rt_table := filter (\<lambda>e. re_registeredPrefixId e \<noteq> k) (rt_table s),
                 rt_interestFilterTable :=
                   filter (\<lambda>f. fe_interestFilterId f \<notin> related k (rt_table s)) (rt_interestFilterTable s)\<rparr>
      in if k \<in> re_registeredPrefixId ` set (rt_table s) \<or> k \<in> set (rt_removeRequests s) then s'
         else s'\<lparr>rt_removeRequests := rt_removeRequests s @ [k]\<rparr>)"
proof -
  have "filter (\<lambda>e. re_registeredPrefixId e = k) (rt_table s) = [] \<longleftrightarrow> k \<notin> re_registeredPrefixId ` set (rt_table s)"
    by (auto simp: filter_empty_conv)
  then show ?thesis
    using removeRegisteredPrefix_loop_eq [of "length (rt_table s)" "rt_table s" s "[]" k 0]
    by (auto simp: removeRegisteredPrefix_def Let_def)
qed

text \<open>The registered prefix table has the same contract for cancelling as the pending interest table.\<close>

definition prefix_ids :: "'cb prefix_table \<Rightarrow> u64 list" where
  "prefix_ids s = map re_registeredPrefixId (rt_table s)"

interpretation prefix_cancel: cancel_table "\<lambda>_. True" prefix_ids rt_removeRequests
    "\<lambda>k s. snd (RegisteredPrefixTable_add k prefix filterId s)" removeRegisteredPrefix
  for prefix filterId
proof
  fix s :: "'a prefix_table" and k
  show "prefix_ids (removeRegisteredPrefix k s) = filter (\<lambda>j. j \<noteq> k) (prefix_ids s)"
    by (simp add: removeRegisteredPrefix_eq Let_def prefix_ids_def filter_map comp_def)
  show "rt_removeRequests (removeRegisteredPrefix k s) =
      (if k \<in> set (prefix_ids s) \<or> k \<in> set (rt_removeRequests s) then rt_removeRequests s else rt_removeRequests s @ [k])"
    by (simp add: removeRegisteredPrefix_eq Let_def prefix_ids_def)
  show "prefix_ids (snd (RegisteredPrefixTable_add k prefix filterId s)) =
      (if k \<in> set (rt_removeRequests s) then prefix_ids s else prefix_ids s @ [k])"
    by (simp add: RegisteredPrefixTable_add_def prefix_ids_def)
  show "rt_removeRequests (snd (RegisteredPrefixTable_add k prefix filterId s)) = remove1 k (rt_removeRequests s)"
    by (simp add: RegisteredPrefixTable_add_def remove1_idem)
qed simp_all

section \<open>Properties\<close>

text \<open>
  Removing a registered prefix removes all its entries and, with them, exactly the interest filters that were
  set for these entries; other prefixes and filters stay.  When there is no entry, the removal is remembered
  and refuses the entry that comes later.
\<close>

theorem remove_prefix_removes_filters:
  "let s' = removeRegisteredPrefix k s; (added, s'') = RegisteredPrefixTable_add k prefix filterId s' in
   rt_table s' = filter (\<lambda>e. re_registeredPrefixId e \<noteq> k) (rt_table s) \<and>
   rt_interestFilterTable s' =
     filter (\<lambda>f. fe_interestFilterId f \<notin> {re_relatedInterestFilterId e | e. e \<in> set (rt_table s) \<and>
                  re_registeredPrefixId e = k} - {0}) (rt_interestFilterTable s) \<and>
   added = (k \<in> set (prefix_ids s) \<and> k \<notin> set (rt_removeRequests s))"
  by (auto simp: removeRegisteredPrefix_eq RegisteredPrefixTable_add_def Let_def related_def prefix_ids_def)

end
