(* ===== verification/DelayedCalls.thy ===== *)
theory DelayedCalls
  imports NdnPrelude
begin

text \<open>
  The delayed call table (\<^verbatim>\<open>impl/delayed-call-table.[ch]pp\<close>): callbacks sorted by the time at which to call them.
  Times are milliseconds as real numbers, and the clock is an argument.  \<^verbatim>\<open>'c\<close> is the type of the callbacks.
\<close>

record 'c delayed_call =
  dc_callback :: 'c
  dc_callTime :: real

type_synonym 'c delayed_calls = "'c delayed_call list"

definition Entry_new :: "real \<Rightarrow> real \<Rightarrow> 'c \<Rightarrow> 'c delayed_call" where
  "Entry_new now delayMilliseconds callback = \<lparr>dc_callback = callback, dc_callTime = now + delayMilliseconds\<rparr>"

definition delayed_less :: "'c delayed_call \<Rightarrow> 'c delayed_call \<Rightarrow> bool" where
  "delayed_less x y \<longleftrightarrow> dc_callTime x < dc_callTime y"

definition callLater :: "real \<Rightarrow> real \<Rightarrow> 'c \<Rightarrow> 'c delayed_calls \<Rightarrow> 'c delayed_calls" where
  "callLater now delayMilliseconds callback table =
     insert_lower_bound delayed_less (Entry_new now delayMilliseconds callback) table"

text \<open>
  A callback may do anything, calling \<^verbatim>\<open>callLater\<close> included, so it acts on the state \<^verbatim>\<open>'s\<close> of the whole program, where
  \<^verbatim>\<open>get\<close> and \<^verbatim>\<open>put\<close> reach the table.  Exceptions are not caught.  The loop need not end.
\<close>

partial_function (option) callTimedOut_loop ::
  "('s \<Rightarrow> 'c delayed_calls) \<Rightarrow> ('c delayed_calls \<Rightarrow> 's \<Rightarrow> 's) \<Rightarrow> ('c \<Rightarrow> 's \<Rightarrow> (unit result \<times> 's) option) \<Rightarrow> real \<Rightarrow> 's \<Rightarrow>
   (unit result \<times> 's) option" where
  "callTimedOut_loop get put call now s =
     (case get s of
        [] \<Rightarrow> Some (Inr (), s)
      | entry # rest \<Rightarrow>
          if dc_callTime entry \<le> now
          then (case call (dc_callback entry) (put rest s) of
                  None \<Rightarrow> None
                | Some (Inl e, s) \<Rightarrow> Some (Inl e, s)
                | Some (Inr _, s) \<Rightarrow> callTimedOut_loop get put call now s)
          else Some (Inr (), s))"

definition callTimedOut ::
  "('s \<Rightarrow> 'c delayed_calls) \<Rightarrow> ('c delayed_calls \<Rightarrow> 's \<Rightarrow> 's) \<Rightarrow> ('c \<Rightarrow> 's \<Rightarrow> (unit result \<times> 's) option) \<Rightarrow> real \<Rightarrow> real \<Rightarrow> 's \<Rightarrow>
   (unit result \<times> 's) option" where
  "callTimedOut get put call clock nowOffsetMilliseconds s =
     callTimedOut_loop get put call (clock + nowOffsetMilliseconds) s"

section \<open>The table is sorted\<close>

interpretation delayed: sorted_table "\<lambda>_ :: 'c delayed_call. True" delayed_less
  by unfold_locales (auto simp: delayed_less_def)

lemma callLater_sorted [ndn_inv]:
  "table_sorted delayed_less table \<Longrightarrow> table_sorted delayed_less (callLater now delay c table)"
  by (simp add: callLater_def delayed.sorted_insert)

lemma sorted_times: "table_sorted delayed_less table \<longleftrightarrow> sorted (map dc_callTime table)"
  by (simp add: table_sorted_def delayed_less_def sorted_wrt_map not_less)

text \<open>In a sorted table the entries that are due are a prefix.\<close>

definition due :: "real \<Rightarrow> 'c delayed_calls \<Rightarrow> 'c delayed_calls" where
  "due now table = filter (\<lambda>e. dc_callTime e \<le> now) table"

lemma not_due: "table_sorted delayed_less (e # table) \<Longrightarrow> \<not> dc_callTime e \<le> now \<Longrightarrow> due now (e # table) = []"
  by (force simp: due_def sorted_times filter_empty_conv)

lemma due_callLater: "length (due now (callLater t delay c table)) = (if t + delay \<le> now then 1 else 0) + length (due now table)"
proof -
  have "mset (due now (callLater t delay c table)) = filter_mset (\<lambda>e. dc_callTime e \<le> now) (mset (callLater t delay c table))"
    by (simp add: due_def)
  then have "size (mset (due now (callLater t delay c table))) =
      size (filter_mset (\<lambda>e. dc_callTime e \<le> now) (mset (callLater t delay c table)))" by simp
  also have "\<dots> = (if t + delay \<le> now then 1 else 0) + size (filter_mset (\<lambda>e. dc_callTime e \<le> now) (mset table))"
    by (simp add: callLater_def Entry_new_def)
  finally show ?thesis by (simp add: due_def flip: mset_filter)
qed

text \<open>The loop ends when no callback adds a call that is due at once.\<close>

lemma callTimedOut_loop_returns:
  assumes "\<And>c s. \<exists>r s'. call c s = Some (r, s') \<and> length (due now (get s')) \<le> length (due now (get s))"
    and "\<And>tb s. get (put tb s) = tb"
  shows "\<exists>r s'. callTimedOut_loop get put call now s = Some (r, s')"
proof (induction "length (due now (get s))" arbitrary: s rule: less_induct)
  case less
  show ?case
  proof (cases "get s")
    case Nil
    then show ?thesis by (subst callTimedOut_loop.simps) simp
  next
    case (Cons e rest)
    show ?thesis
    proof (cases "dc_callTime e \<le> now")
      case False
      with Cons show ?thesis by (subst callTimedOut_loop.simps) simp
    next
      case True
      obtain r s' where c: "call (dc_callback e) (put rest s) = Some (r, s')"
          "length (due now (get s')) \<le> length (due now (get (put rest s)))" using assms(1) by blast
      have "length (due now (get s')) < length (due now (get s))"
        using c(2) Cons True assms(2) by (simp add: due_def)
      from less [OF this] obtain r2 s2 where "callTimedOut_loop get put call now s' = Some (r2, s2)" by blast
      with c(1) Cons True show ?thesis by (subst callTimedOut_loop.simps) (cases r; simp)
    qed
  qed
qed

text \<open>Callbacks that only leave a trace.\<close>

definition logged :: "'c \<Rightarrow> 'c delayed_calls \<times> 'c list \<Rightarrow> (unit result \<times> 'c delayed_calls \<times> 'c list) option" where
  "logged c s = Some (Inr (), (fst s, snd s @ [c]))"

abbreviation run_logged :: "real \<Rightarrow> 'c delayed_calls \<times> 'c list \<Rightarrow> (unit result \<times> 'c delayed_calls \<times> 'c list) option" where
  "run_logged \<equiv> callTimedOut_loop fst (\<lambda>tb s. (tb, snd s)) logged"

lemma run_logged_eq:
  "table_sorted delayed_less table \<Longrightarrow>
   run_logged now (table, called) = Some (Inr (), (filter (\<lambda>e. \<not> dc_callTime e \<le> now) table, called @ map dc_callback (due now table)))"
proof (induction table arbitrary: called)
  case Nil
  then show ?case by (subst callTimedOut_loop.simps) (simp add: due_def)
next
  case (Cons e table)
  show ?case
  proof (cases "dc_callTime e \<le> now")
    case True
    have "logged (dc_callback e) (table, called) = Some (Inr (), (table, called @ [dc_callback e]))"
      by (simp add: logged_def)
    with True have "run_logged now (e # table, called) = run_logged now (table, called @ [dc_callback e])"
      by (subst callTimedOut_loop.simps) simp
    with True Cons show ?thesis by (simp add: due_def table_sorted_Cons)
  next
    case False
    then have "filter (\<lambda>e. \<not> dc_callTime e \<le> now) (e # table) = e # table"
      using Cons.prems by (auto simp: sorted_times filter_id_conv)
    with False not_due [OF Cons.prems False] show ?thesis
      by (subst callTimedOut_loop.simps) (simp del: filter.simps)
  qed
qed

section \<open>Properties\<close>

text \<open>
   \<^verbatim>\<open>callTimedOut\<close> calls exactly the callbacks that are due, in the order of their times, and keeps the others; a
  table filled by \<^verbatim>\<open>callLater\<close> is sorted as this needs.
\<close>

theorem timed_out_calls_in_order:
  fixes calls :: "(real \<times> real \<times> 'c) list"
  shows "let table = fold (\<lambda>(now, delay, c). callLater now delay c) calls [];
             called = filter (\<lambda>e. dc_callTime e \<le> now) table
         in run_logged now (table, []) =
              Some (Inr (), (filter (\<lambda>e. \<not> dc_callTime e \<le> now) table, map dc_callback called)) \<and>
            sorted (map dc_callTime called) \<and>
            mset (map (\<lambda>e. (dc_callTime e, dc_callback e)) table) = mset (map (\<lambda>(now, delay, c). (now + delay, c)) calls)"
proof -
  have built: "table_sorted delayed_less (fold (\<lambda>(now, delay, c). callLater now delay c) calls tb) \<and>
      mset (map (\<lambda>e. (dc_callTime e, dc_callback e)) (fold (\<lambda>(now, delay, c). callLater now delay c) calls tb)) =
      mset (map (\<lambda>(now, delay, c). (now + delay, c)) calls) + mset (map (\<lambda>e. (dc_callTime e, dc_callback e)) tb)"
    if "table_sorted delayed_less tb" for tb
    using that
  proof (induction calls arbitrary: tb)
    case (Cons a calls)
    obtain t d c where a: "a = (t, d, c)" by (cases a)
    have "mset (map (\<lambda>e. (dc_callTime e, dc_callback e)) (callLater t d c tb)) =
        add_mset (t + d, c) (mset (map (\<lambda>e. (dc_callTime e, dc_callback e)) tb))"
      by (simp add: callLater_def Entry_new_def)
    with Cons.IH [OF callLater_sorted [OF Cons.prems]] a show ?case by simp
  qed simp
  have "sorted (map dc_callTime (filter P tb))" if "table_sorted delayed_less tb" for P and tb :: "'c delayed_calls"
    using table_sorted_filter [OF that] by (simp add: sorted_times)
  with built [of "[]"] run_logged_eq [of "fold (\<lambda>(now, delay, c). callLater now delay c) calls []" now "[]"]
  show ?thesis by (simp add: Let_def due_def)
qed

text \<open>
  \<^verbatim>\<open>callTimedOut\<close> returns when every callback returns and the calls it adds are not yet due, as when it asks for
  a delay and the clock runs.
\<close>

theorem timed_out_calls_return:
  assumes "\<And>c s. \<exists>r s'. call c s = Some (r, s') \<and> length (due (clock + offset) (get s')) \<le> length (due (clock + offset) (get s))"
    and "\<And>tb s. get (put tb s) = tb"
  shows "\<exists>r s'. callTimedOut get put call clock offset s = Some (r, s')"
  unfolding callTimedOut_def by (rule callTimedOut_loop_returns [OF assms])

theorem timed_out_calls_return_witness:
  "\<exists>r s'. callTimedOut id (\<lambda>tb _. tb) (\<lambda>c tb. Some (Inr (), callLater 10 5 c tb)) 10 0 (callLater 0 7 ''tick'' []) = Some (r, s')"
  by (rule timed_out_calls_return) (simp_all add: due_callLater)

end
