(* ===== verification/TlvControl.thy ===== *)
theory TlvControl
  imports TlvPacket
begin

text \<open>
  The control parameters and the control response of NFD commands: the C structs, their TLV encoding
  (\<^verbatim>\<open>tlv-control-parameters.c\<close>, \<^verbatim>\<open>tlv-control-response.c\<close>), the classes (\<^verbatim>\<open>control-parameters.[ch]pp\<close>,
  \<^verbatim>\<open>control-response.[ch]pp\<close>) and the registration options.
\<close>

section \<open>Registration options\<close>

definition ndn_NfdForwardingFlags_CHILD_INHERIT :: int where "ndn_NfdForwardingFlags_CHILD_INHERIT = 1"
definition ndn_NfdForwardingFlags_CAPTURE :: int where "ndn_NfdForwardingFlags_CAPTURE = 2"

record registration_options =
  ro_childInherit :: bool
  ro_capture :: bool
  ro_origin :: int

definition ndn_RegistrationOptions_initialize :: registration_options where
  "ndn_RegistrationOptions_initialize = \<lparr>ro_childInherit = True, ro_capture = False, ro_origin = -1\<rparr>"

unbundle bit_operations_syntax

definition ndn_RegistrationOptions_getNfdForwardingFlags :: "registration_options \<Rightarrow> int" where
  "ndn_RegistrationOptions_getNfdForwardingFlags self =
     (let result = 0;
          result = (if ro_childInherit self then result OR ndn_NfdForwardingFlags_CHILD_INHERIT else result)
      in if ro_capture self then result OR ndn_NfdForwardingFlags_CAPTURE else result)"

definition ndn_RegistrationOptions_setNfdForwardingFlags :: "int \<Rightarrow> registration_options \<Rightarrow> registration_options" where
  "ndn_RegistrationOptions_setNfdForwardingFlags nfdForwardingFlags self =
     self\<lparr>ro_childInherit := nfdForwardingFlags AND ndn_NfdForwardingFlags_CHILD_INHERIT \<noteq> 0,
          ro_capture := nfdForwardingFlags AND ndn_NfdForwardingFlags_CAPTURE \<noteq> 0\<rparr>"

section \<open>The C structs\<close>

definition ndn_Tlv_NfdCommand_ControlResponse :: u32 where "ndn_Tlv_NfdCommand_ControlResponse = 101"
definition ndn_Tlv_NfdCommand_StatusCode :: u32 where "ndn_Tlv_NfdCommand_StatusCode = 102"
definition ndn_Tlv_NfdCommand_StatusText :: u32 where "ndn_Tlv_NfdCommand_StatusText = 103"
definition ndn_Tlv_ControlParameters_ControlParameters :: u32 where "ndn_Tlv_ControlParameters_ControlParameters = 104"
definition ndn_Tlv_ControlParameters_FaceId :: u32 where "ndn_Tlv_ControlParameters_FaceId = 105"
definition ndn_Tlv_ControlParameters_Uri :: u32 where "ndn_Tlv_ControlParameters_Uri = 114"
definition ndn_Tlv_ControlParameters_LocalUri :: u32 where "ndn_Tlv_ControlParameters_LocalUri = 129"
definition ndn_Tlv_ControlParameters_LocalControlFeature :: u32 where "ndn_Tlv_ControlParameters_LocalControlFeature = 110"
definition ndn_Tlv_ControlParameters_Origin :: u32 where "ndn_Tlv_ControlParameters_Origin = 111"
definition ndn_Tlv_ControlParameters_Cost :: u32 where "ndn_Tlv_ControlParameters_Cost = 106"
definition ndn_Tlv_ControlParameters_Capacity :: u32 where "ndn_Tlv_ControlParameters_Capacity = 131"
definition ndn_Tlv_ControlParameters_Count :: u32 where "ndn_Tlv_ControlParameters_Count = 132"
definition ndn_Tlv_ControlParameters_BaseCongestionMarkingInterval :: u32 where
  "ndn_Tlv_ControlParameters_BaseCongestionMarkingInterval = 135"
definition ndn_Tlv_ControlParameters_DefaultCongestionThreshold :: u32 where
  "ndn_Tlv_ControlParameters_DefaultCongestionThreshold = 136"
definition ndn_Tlv_ControlParameters_Mtu :: u32 where "ndn_Tlv_ControlParameters_Mtu = 137"
definition ndn_Tlv_ControlParameters_Flags :: u32 where "ndn_Tlv_ControlParameters_Flags = 108"
definition ndn_Tlv_ControlParameters_Mask :: u32 where "ndn_Tlv_ControlParameters_Mask = 112"
definition ndn_Tlv_ControlParameters_Strategy :: u32 where "ndn_Tlv_ControlParameters_Strategy = 107"
definition ndn_Tlv_ControlParameters_ExpirationPeriod :: u32 where "ndn_Tlv_ControlParameters_ExpirationPeriod = 109"

lemmas control_types =
  ndn_Tlv_NfdCommand_ControlResponse_def ndn_Tlv_NfdCommand_StatusCode_def ndn_Tlv_NfdCommand_StatusText_def
  ndn_Tlv_ControlParameters_ControlParameters_def ndn_Tlv_ControlParameters_FaceId_def ndn_Tlv_ControlParameters_Uri_def
  ndn_Tlv_ControlParameters_LocalUri_def ndn_Tlv_ControlParameters_LocalControlFeature_def
  ndn_Tlv_ControlParameters_Origin_def ndn_Tlv_ControlParameters_Cost_def ndn_Tlv_ControlParameters_Capacity_def
  ndn_Tlv_ControlParameters_Count_def ndn_Tlv_ControlParameters_BaseCongestionMarkingInterval_def
  ndn_Tlv_ControlParameters_DefaultCongestionThreshold_def ndn_Tlv_ControlParameters_Mtu_def
  ndn_Tlv_ControlParameters_Flags_def ndn_Tlv_ControlParameters_Mask_def ndn_Tlv_ControlParameters_Strategy_def
  ndn_Tlv_ControlParameters_ExpirationPeriod_def

record ('c, 'b) ndn_ControlParameters =
  ccp_hasName :: bool
  ccp_name :: "'c list"
  ccp_faceId :: int
  ccp_uri :: "'b option"
  ccp_localControlFeature :: int
  ccp_origin :: int
  ccp_cost :: int
  ccp_flags :: registration_options
  ccp_strategy :: "'c list"
  ccp_expirationPeriod :: real

definition ndn_ControlParameters_initialize :: "('c, 'b) ndn_ControlParameters" where
  "ndn_ControlParameters_initialize =
     \<lparr>ccp_hasName = False, ccp_name = [], ccp_faceId = -1, ccp_uri = None, ccp_localControlFeature = -1,
      ccp_origin = -1, ccp_cost = -1, ccp_flags = ndn_RegistrationOptions_initialize, ccp_strategy = [],
      ccp_expirationPeriod = -1\<rparr>"

record ('c, 'b) ndn_ControlResponse =
  ccr_statusCode :: int
  ccr_statusText :: "'b option"
  ccr_hasBodyAsControlParameters :: bool
  ccr_bodyAsControlParameters :: "('c, 'b) ndn_ControlParameters"

definition ndn_ControlResponse_initialize :: "('c, 'b) ndn_ControlResponse" where
  "ndn_ControlResponse_initialize =
     \<lparr>ccr_statusCode = -1, ccr_statusText = None, ccr_hasBodyAsControlParameters = False,
      ccr_bodyAsControlParameters = ndn_ControlParameters_initialize\<rparr>"

type_synonym c_control_parameters = "(component, bytes) ndn_ControlParameters"
type_synonym c_control_response = "(component, bytes) ndn_ControlResponse"
type_synonym control_parameters_slices = "(component_slice, slice) ndn_ControlParameters"
type_synonym control_response_slices = "(component_slice, slice) ndn_ControlResponse"

section \<open>Encoders\<close>

definition encodeStrategyValue :: "c_control_parameters \<Rightarrow> tlv_encoder \<Rightarrow> ndn_error + tlv_encoder" where
  "encodeStrategyValue controlParameters e =
     bindE (ndn_encodeTlvName (ccp_strategy controlParameters) e) (\<lambda>(_, e). Inr e)"

definition encodeControlParametersValue :: "c_control_parameters \<Rightarrow> tlv_encoder \<Rightarrow> ndn_error + tlv_encoder" where
  "encodeControlParametersValue controlParameters e =
     bindE (if ccp_hasName controlParameters
            then bindE (ndn_encodeTlvName (ccp_name controlParameters) e) (\<lambda>(_, e). Inr e) else Inr e) (\<lambda>e.
     bindE (writeOptionalNonNegativeIntegerTlv ndn_Tlv_ControlParameters_FaceId (ccp_faceId controlParameters) e) (\<lambda>e.
     bindE (writeOptionalBlobTlv ndn_Tlv_ControlParameters_Uri (ccp_uri controlParameters) e) (\<lambda>e.
     bindE (writeOptionalNonNegativeIntegerTlv ndn_Tlv_ControlParameters_LocalControlFeature
              (ccp_localControlFeature controlParameters) e) (\<lambda>e.
     bindE (writeOptionalNonNegativeIntegerTlv ndn_Tlv_ControlParameters_Origin (ccp_origin controlParameters) e) (\<lambda>e.
     bindE (writeOptionalNonNegativeIntegerTlv ndn_Tlv_ControlParameters_Cost (ccp_cost controlParameters) e) (\<lambda>e.
     bindE (let flags = ndn_RegistrationOptions_getNfdForwardingFlags (ccp_flags controlParameters) in
            if flags \<noteq> ndn_RegistrationOptions_getNfdForwardingFlags ndn_RegistrationOptions_initialize
            then writeNonNegativeIntegerTlv ndn_Tlv_ControlParameters_Flags (word_of_int flags) e else Inr e) (\<lambda>e.
     bindE (if ccp_strategy controlParameters \<noteq> []
            then writeNestedTlv ndn_Tlv_ControlParameters_Strategy (encodeStrategyValue controlParameters) False e
            else Inr e) (\<lambda>e.
       writeOptionalNonNegativeIntegerTlvFromDouble ndn_Tlv_ControlParameters_ExpirationPeriod
         (ccp_expirationPeriod controlParameters) e))))))))"

definition ndn_encodeTlvControlParameters :: "c_control_parameters \<Rightarrow> tlv_encoder \<Rightarrow> ndn_error + tlv_encoder" where
  "ndn_encodeTlvControlParameters controlParameters =
     writeNestedTlv ndn_Tlv_ControlParameters_ControlParameters (encodeControlParametersValue controlParameters) False"

definition encodeControlResponseValue :: "c_control_response \<Rightarrow> tlv_encoder \<Rightarrow> ndn_error + tlv_encoder" where
  "encodeControlResponseValue controlResponse e =
     bindE (writeNonNegativeIntegerTlv ndn_Tlv_NfdCommand_StatusCode (word_of_int (ccr_statusCode controlResponse)) e) (\<lambda>e.
     bindE (writeBlobTlv ndn_Tlv_NfdCommand_StatusText (blob_bytes (ccr_statusText controlResponse)) e) (\<lambda>e.
       if ccr_hasBodyAsControlParameters controlResponse
       then ndn_encodeTlvControlParameters (ccr_bodyAsControlParameters controlResponse) e
       else Inr e))"

definition ndn_encodeTlvControlResponse :: "c_control_response \<Rightarrow> tlv_encoder \<Rightarrow> ndn_error + tlv_encoder" where
  "ndn_encodeTlvControlResponse controlResponse =
     writeNestedTlv ndn_Tlv_NfdCommand_ControlResponse (encodeControlResponseValue controlResponse) False"

section \<open>Decoders\<close>

text \<open>\<^verbatim>\<open>maxes\<close> are the sizes of the arrays for the two names.\<close>

definition ndn_decodeTlvControlParameters ::
  "nat \<times> nat \<Rightarrow> control_parameters_slices \<Rightarrow> control_parameters_slices dec" where
  "ndn_decodeTlvControlParameters maxes controlParameters =
     bindD (readNestedTlvsStart ndn_Tlv_ControlParameters_ControlParameters) (\<lambda>endOffset.
     bindD (peekType ndn_Tlv_Name endOffset) (\<lambda>gotExpectedType.
     bindD (if gotExpectedType then bindD (ndn_decodeTlvName (fst maxes)) (\<lambda>(cs, _, _). retD (True, cs))
            else retD (False, [])) (\<lambda>(hasName, name).
     bindD (readOptionalNonNegativeIntegerTlv ndn_Tlv_ControlParameters_FaceId endOffset) (\<lambda>faceId.
     bindD (readOptionalBlobTlv ndn_Tlv_ControlParameters_Uri endOffset) (\<lambda>uri.
     bindD (skipOptionalTlv ndn_Tlv_ControlParameters_LocalUri endOffset) (\<lambda>_.
     bindD (readOptionalNonNegativeIntegerTlv ndn_Tlv_ControlParameters_LocalControlFeature endOffset) (\<lambda>localControlFeature.
     bindD (readOptionalNonNegativeIntegerTlv ndn_Tlv_ControlParameters_Origin endOffset) (\<lambda>origin.
     bindD (readOptionalNonNegativeIntegerTlv ndn_Tlv_ControlParameters_Cost endOffset) (\<lambda>cost.
     bindD (skipOptionalTlv ndn_Tlv_ControlParameters_Capacity endOffset) (\<lambda>_.
     bindD (skipOptionalTlv ndn_Tlv_ControlParameters_Count endOffset) (\<lambda>_.
     bindD (skipOptionalTlv ndn_Tlv_ControlParameters_BaseCongestionMarkingInterval endOffset) (\<lambda>_.
     bindD (skipOptionalTlv ndn_Tlv_ControlParameters_DefaultCongestionThreshold endOffset) (\<lambda>_.
     bindD (skipOptionalTlv ndn_Tlv_ControlParameters_Mtu endOffset) (\<lambda>_.
     bindD (peekType ndn_Tlv_ControlParameters_Flags endOffset) (\<lambda>gotExpectedType.
     bindD (if gotExpectedType
            then bindD (readNonNegativeIntegerTlv ndn_Tlv_ControlParameters_Flags) (\<lambda>flags.
                 retD (ndn_RegistrationOptions_setNfdForwardingFlags (to_int (uint flags)) (ccp_flags controlParameters)))
            else retD ndn_RegistrationOptions_initialize) (\<lambda>flags.
     bindD (skipOptionalTlv ndn_Tlv_ControlParameters_Mask endOffset) (\<lambda>_.
     bindD (peekType ndn_Tlv_ControlParameters_Strategy endOffset) (\<lambda>gotExpectedType.
     bindD (if gotExpectedType
            then bindD (readNestedTlvsStart ndn_Tlv_ControlParameters_Strategy) (\<lambda>strategyEndOffset.
                 bindD (ndn_decodeTlvName (snd maxes)) (\<lambda>(cs, _, _).
                 bindD (finishNestedTlvs strategyEndOffset) (\<lambda>_. retD cs)))
            else retD []) (\<lambda>strategy.
     bindD (readOptionalNonNegativeIntegerTlvAsDouble ndn_Tlv_ControlParameters_ExpirationPeriod endOffset) (\<lambda>expirationPeriod.
     bindD (finishNestedTlvs endOffset) (\<lambda>_.
       retD \<lparr>ccp_hasName = hasName, ccp_name = name, ccp_faceId = faceId, ccp_uri = uri,
             ccp_localControlFeature = localControlFeature, ccp_origin = origin, ccp_cost = cost, ccp_flags = flags,
             ccp_strategy = strategy, ccp_expirationPeriod = expirationPeriod\<rparr>)))))))))))))))))))))"

definition ndn_decodeTlvControlResponse ::
  "nat \<times> nat \<Rightarrow> control_response_slices \<Rightarrow> control_response_slices dec" where
  "ndn_decodeTlvControlResponse maxes controlResponse =
     bindD (readNestedTlvsStart ndn_Tlv_NfdCommand_ControlResponse) (\<lambda>endOffset.
     bindD (readNonNegativeIntegerTlv ndn_Tlv_NfdCommand_StatusCode) (\<lambda>statusCode.
     bindD (readBlobTlv ndn_Tlv_NfdCommand_StatusText) (\<lambda>statusText.
     bindD (peekType ndn_Tlv_ControlParameters_ControlParameters endOffset) (\<lambda>gotExpectedType.
     bindD (if gotExpectedType
            then bindD (ndn_decodeTlvControlParameters maxes (ccr_bodyAsControlParameters controlResponse)) (\<lambda>body.
                 retD (True, body))
            else retD (False, ccr_bodyAsControlParameters controlResponse)) (\<lambda>(hasBody, body).
     bindD (finishNestedTlvs endOffset) (\<lambda>_.
       retD \<lparr>ccr_statusCode = to_int (uint statusCode), ccr_statusText = Some statusText,
             ccr_hasBodyAsControlParameters = hasBody, ccr_bodyAsControlParameters = body\<rparr>))))))"

definition ndn_Tlv0_2WireFormat_encodeControlParameters :: "c_control_parameters \<Rightarrow> ndn_error + bytes" where
  "ndn_Tlv0_2WireFormat_encodeControlParameters controlParameters =
     run_encoder 256 (ndn_encodeTlvControlParameters controlParameters)"

definition ndn_Tlv0_2WireFormat_decodeControlParameters ::
  "nat \<times> nat \<Rightarrow> control_parameters_slices \<Rightarrow> bytes \<Rightarrow> control_parameters_slices dec_result" where
  "ndn_Tlv0_2WireFormat_decodeControlParameters maxes controlParameters input =
     ndn_decodeTlvControlParameters maxes controlParameters input 0"

definition ndn_Tlv0_2WireFormat_encodeControlResponse :: "c_control_response \<Rightarrow> ndn_error + bytes" where
  "ndn_Tlv0_2WireFormat_encodeControlResponse controlResponse =
     run_encoder 256 (ndn_encodeTlvControlResponse controlResponse)"

definition ndn_Tlv0_2WireFormat_decodeControlResponse ::
  "nat \<times> nat \<Rightarrow> control_response_slices \<Rightarrow> bytes \<Rightarrow> control_response_slices dec_result" where
  "ndn_Tlv0_2WireFormat_decodeControlResponse maxes controlResponse input =
     ndn_decodeTlvControlResponse maxes controlResponse input 0"

section \<open>The classes\<close>

text \<open>Copying the decoded slices; None when one reaches outside the input.\<close>

definition resolve_control_parameters :: "bytes \<Rightarrow> control_parameters_slices \<Rightarrow> c_control_parameters option" where
  "resolve_control_parameters input cp =
     Option.bind (lite_components input (ccp_name cp)) (\<lambda>name.
     Option.bind (resolve_blob input (ccp_uri cp)) (\<lambda>uri.
     Option.bind (lite_components input (ccp_strategy cp)) (\<lambda>strategy.
       Some \<lparr>ccp_hasName = ccp_hasName cp, ccp_name = name, ccp_faceId = ccp_faceId cp, ccp_uri = uri,
             ccp_localControlFeature = ccp_localControlFeature cp, ccp_origin = ccp_origin cp, ccp_cost = ccp_cost cp,
             ccp_flags = ccp_flags cp, ccp_strategy = strategy, ccp_expirationPeriod = ccp_expirationPeriod cp\<rparr>)))"

definition resolve_control_response :: "bytes \<Rightarrow> control_response_slices \<Rightarrow> c_control_response option" where
  "resolve_control_response input cr =
     Option.bind (resolve_blob input (ccr_statusText cr)) (\<lambda>statusText.
     Option.bind (resolve_control_parameters input (ccr_bodyAsControlParameters cr)) (\<lambda>body.
       Some \<lparr>ccr_statusCode = ccr_statusCode cr, ccr_statusText = statusText,
             ccr_hasBodyAsControlParameters = ccr_hasBodyAsControlParameters cr, ccr_bodyAsControlParameters = body\<rparr>))"

record control_parameters =
  cp_hasName :: bool
  cp_name :: name
  cp_faceId :: int
  cp_uri :: bytes
  cp_localControlFeature :: int
  cp_origin :: int
  cp_cost :: int
  cp_flags :: registration_options
  cp_strategy :: name
  cp_expirationPeriod :: real

definition ControlParameters_new :: control_parameters where
  "ControlParameters_new =
     \<lparr>cp_hasName = False, cp_name = Name_empty, cp_faceId = -1, cp_uri = [], cp_localControlFeature = -1, cp_origin = -1,
      cp_cost = -1, cp_flags = ndn_RegistrationOptions_initialize, cp_strategy = Name_empty, cp_expirationPeriod = -1\<rparr>"

definition ControlParameters_setName :: "name \<Rightarrow> control_parameters \<Rightarrow> control_parameters" where
  "ControlParameters_setName name self = self\<lparr>cp_hasName := True, cp_name := name\<rparr>"

definition ControlParameters_setOrigin :: "int \<Rightarrow> control_parameters \<Rightarrow> control_parameters" where
  "ControlParameters_setOrigin origin self = self\<lparr>cp_origin := origin\<rparr>"

definition ControlParameters_setForwardingFlags :: "registration_options \<Rightarrow> control_parameters \<Rightarrow> control_parameters" where
  "ControlParameters_setForwardingFlags flags self = self\<lparr>cp_flags := flags\<rparr>"

definition ControlParameters_get :: "nat \<times> nat \<Rightarrow> control_parameters \<Rightarrow> c_control_parameters result" where
  "ControlParameters_get maxes self =
     bindE (Name_get_lite \<lparr>cn_components = [], cn_maxComponents = fst maxes\<rparr> (cp_name self)) (\<lambda>name.
     bindE (Name_get_lite \<lparr>cn_components = [], cn_maxComponents = snd maxes\<rparr> (cp_strategy self)) (\<lambda>strategy.
       Inr \<lparr>ccp_hasName = cp_hasName self, ccp_name = cn_components name, ccp_faceId = cp_faceId self,
            ccp_uri = Some (cp_uri self), ccp_localControlFeature = cp_localControlFeature self, ccp_origin = cp_origin self,
            ccp_cost = cp_cost self, ccp_flags = cp_flags self, ccp_strategy = cn_components strategy,
            ccp_expirationPeriod = cp_expirationPeriod self\<rparr>))"

definition ControlParameters_set :: "c_control_parameters \<Rightarrow> control_parameters \<Rightarrow> control_parameters" where
  "ControlParameters_set lite self =
     \<lparr>cp_hasName = ccp_hasName lite,
      cp_name = Name_set_lite \<lparr>cn_components = ccp_name lite, cn_maxComponents = length (ccp_name lite)\<rparr> (cp_name self),
      cp_faceId = ccp_faceId lite, cp_uri = blob_bytes (ccp_uri lite),
      cp_localControlFeature = ccp_localControlFeature lite, cp_origin = ccp_origin lite, cp_cost = ccp_cost lite,
      cp_flags = ccp_flags lite,
      cp_strategy = Name_set_lite \<lparr>cn_components = ccp_strategy lite, cn_maxComponents = length (ccp_strategy lite)\<rparr> (cp_strategy self),
      cp_expirationPeriod = ccp_expirationPeriod lite\<rparr>"

record control_response =
  cr_statusCode :: int
  cr_statusText :: bytes
  cr_bodyAsControlParameters :: "control_parameters option"

definition ControlResponse_new :: control_response where
  "ControlResponse_new = \<lparr>cr_statusCode = -1, cr_statusText = [], cr_bodyAsControlParameters = None\<rparr>"

definition ControlResponse_get :: "nat \<times> nat \<Rightarrow> control_response \<Rightarrow> c_control_response result" where
  "ControlResponse_get maxes self =
     (case cr_bodyAsControlParameters self of
        Some body \<Rightarrow> bindE (ControlParameters_get maxes body) (\<lambda>body.
          Inr \<lparr>ccr_statusCode = cr_statusCode self, ccr_statusText = Some (cr_statusText self),
               ccr_hasBodyAsControlParameters = True, ccr_bodyAsControlParameters = body\<rparr>)
      | None \<Rightarrow>
          Inr \<lparr>ccr_statusCode = cr_statusCode self, ccr_statusText = Some (cr_statusText self),
               ccr_hasBodyAsControlParameters = False, ccr_bodyAsControlParameters = ndn_ControlParameters_initialize\<rparr>)"

definition ControlResponse_set :: "c_control_response \<Rightarrow> control_response" where
  "ControlResponse_set lite =
     \<lparr>cr_statusCode = ccr_statusCode lite, cr_statusText = blob_bytes (ccr_statusText lite),
      cr_bodyAsControlParameters =
        (if ccr_hasBodyAsControlParameters lite
         then Some (ControlParameters_set (ccr_bodyAsControlParameters lite) ControlParameters_new) else None)\<rparr>"

abbreviation control_maxes :: "nat \<times> nat" where
  "control_maxes \<equiv> (MAX_NAME_COMPONENTS, MAX_NAME_COMPONENTS)"

definition Tlv_encodeControlParameters :: "control_parameters \<Rightarrow> bytes result" where
  "Tlv_encodeControlParameters controlParameters =
     bindE (ControlParameters_get control_maxes controlParameters) (\<lambda>lite.
       throwC (ndn_Tlv0_2WireFormat_encodeControlParameters lite))"

definition Tlv_decodeControlParameters :: "bytes \<Rightarrow> control_parameters \<Rightarrow> control_parameters result option" where
  "Tlv_decodeControlParameters input controlParameters =
     Option.bind (ndn_Tlv0_2WireFormat_decodeControlParameters control_maxes ndn_ControlParameters_initialize input)
       (case_sum (\<lambda>e. Some (throwC (Inl e)))
         (\<lambda>(lite, _). map_option (\<lambda>lite. Inr (ControlParameters_set lite controlParameters))
                        (resolve_control_parameters input lite)))"

definition Tlv_encodeControlResponse :: "control_response \<Rightarrow> bytes result" where
  "Tlv_encodeControlResponse controlResponse =
     bindE (ControlResponse_get control_maxes controlResponse) (\<lambda>lite.
       throwC (ndn_Tlv0_2WireFormat_encodeControlResponse lite))"

definition Tlv_decodeControlResponse :: "bytes \<Rightarrow> control_response result option" where
  "Tlv_decodeControlResponse input =
     Option.bind (ndn_Tlv0_2WireFormat_decodeControlResponse control_maxes ndn_ControlResponse_initialize input)
       (case_sum (\<lambda>e. Some (throwC (Inl e)))
         (\<lambda>(lite, _). map_option (\<lambda>lite. Inr (ControlResponse_set lite)) (resolve_control_response input lite)))"

section \<open>Decoding stays in bounds\<close>

lemma keeps_bounds_skipOptional [bounds]: "keeps_bounds (skipOptionalTlv t endOffset)"
  unfolding skipOptionalTlv_def by (intro bounds)

lemma keeps_bounds_control_parameters [bounds]: "keeps_bounds (ndn_decodeTlvControlParameters maxes controlParameters)"
  unfolding ndn_decodeTlvControlParameters_def by (intro bounds)

lemma keeps_bounds_control_response [bounds]: "keeps_bounds (ndn_decodeTlvControlResponse maxes controlResponse)"
  unfolding ndn_decodeTlvControlResponse_def by (intro bounds)

section \<open>What the encoders write\<close>

definition optional_name_tlv :: "bool \<Rightarrow> component list \<Rightarrow> bytes" where
  "optional_name_tlv b cs = (if b then name_tlv cs else [])"

definition strategy_tlv :: "component list \<Rightarrow> bytes" where
  "strategy_tlv cs = (if cs \<noteq> [] then tlv ndn_Tlv_ControlParameters_Strategy (name_tlv cs) else [])"

definition flags_code :: "registration_options \<Rightarrow> int" where
  "flags_code flags = (let v = ndn_RegistrationOptions_getNfdForwardingFlags flags in if v = 1 then -1 else v)"

definition control_parameters_bytes :: "c_control_parameters \<Rightarrow> bytes" where
  "control_parameters_bytes cp =
     optional_name_tlv (ccp_hasName cp) (ccp_name cp) @
     optional_nonneg_tlv ndn_Tlv_ControlParameters_FaceId (ccp_faceId cp) @
     optional_blob_tlv ndn_Tlv_ControlParameters_Uri (ccp_uri cp) @
     optional_nonneg_tlv ndn_Tlv_ControlParameters_LocalControlFeature (ccp_localControlFeature cp) @
     optional_nonneg_tlv ndn_Tlv_ControlParameters_Origin (ccp_origin cp) @
     optional_nonneg_tlv ndn_Tlv_ControlParameters_Cost (ccp_cost cp) @
     optional_nonneg_tlv ndn_Tlv_ControlParameters_Flags (flags_code (ccp_flags cp)) @
     strategy_tlv (ccp_strategy cp) @
     optional_double_tlv ndn_Tlv_ControlParameters_ExpirationPeriod (ccp_expirationPeriod cp)"

definition control_parameters_tlv :: "c_control_parameters \<Rightarrow> bytes" where
  "control_parameters_tlv cp = tlv ndn_Tlv_ControlParameters_ControlParameters (control_parameters_bytes cp)"

text \<open>The control parameters that survive the wire: the origin of the registration options is not encoded.\<close>

definition small_int :: "int \<Rightarrow> bool" where
  "small_int v \<longleftrightarrow> -1 \<le> v \<and> v < 2 ^ 31"

definition control_parameters_wf :: "nat \<times> nat \<Rightarrow> c_control_parameters \<Rightarrow> bool" where
  "control_parameters_wf maxes cp \<longleftrightarrow>
     (\<not> ccp_hasName cp \<longrightarrow> ccp_name cp = []) \<and> (\<forall>c \<in> set (ccp_name cp). wire_wf c) \<and> length (ccp_name cp) \<le> fst maxes \<and>
     small_int (ccp_faceId cp) \<and> small_int (ccp_localControlFeature cp) \<and> small_int (ccp_origin cp) \<and>
     small_int (ccp_cost cp) \<and> ro_origin (ccp_flags cp) = -1 \<and>
     (\<forall>c \<in> set (ccp_strategy cp). wire_wf c) \<and> length (ccp_strategy cp) \<le> snd maxes \<and> whole_ms (ccp_expirationPeriod cp)"

lemma flags_values:
  "ndn_RegistrationOptions_getNfdForwardingFlags flags =
     (if ro_childInherit flags then 1 else 0) + (if ro_capture flags then 2 else 0)"
  by (simp add: ndn_RegistrationOptions_getNfdForwardingFlags_def Let_def ndn_NfdForwardingFlags_CHILD_INHERIT_def
      ndn_NfdForwardingFlags_CAPTURE_def)

lemma flags_code_small: "small_int (flags_code flags)"
  by (simp add: flags_code_def Let_def flags_values small_int_def)

lemma emits_optional_name:
  assumes "\<forall>c \<in> set cs. wire_wf c"
  shows "emits (\<lambda>e. if b then bindE (ndn_encodeTlvName cs e) (\<lambda>(_, e). Inr e) else Inr e) (optional_name_tlv b cs)"
  using assms emits_val_drop [OF emits_val_name, of cs]
  by (cases b) (auto simp: optional_name_tlv_def wire_wf_encodable)

lemma emits_control_parameters_value:
  assumes "control_parameters_wf maxes cp"
  shows "emits (encodeControlParametersValue cp) (control_parameters_bytes cp)"
proof -
  have names: "\<forall>c \<in> set (ccp_name cp). wire_wf c" "\<forall>c \<in> set (ccp_strategy cp). wire_wf c"
    using assms by (simp_all add: control_parameters_wf_def)
  have "(\<lambda>e. let flags = ndn_RegistrationOptions_getNfdForwardingFlags (ccp_flags cp) in
            if flags \<noteq> ndn_RegistrationOptions_getNfdForwardingFlags ndn_RegistrationOptions_initialize
            then writeNonNegativeIntegerTlv ndn_Tlv_ControlParameters_Flags (word_of_int flags) e else Inr e) =
        writeOptionalNonNegativeIntegerTlv ndn_Tlv_ControlParameters_Flags (flags_code (ccp_flags cp))"
    by (auto simp: Let_def flags_code_def flags_values ndn_RegistrationOptions_initialize_def
        writeOptionalNonNegativeIntegerTlv_def)
  then have flags: "emits (\<lambda>e. let flags = ndn_RegistrationOptions_getNfdForwardingFlags (ccp_flags cp) in
            if flags \<noteq> ndn_RegistrationOptions_getNfdForwardingFlags ndn_RegistrationOptions_initialize
            then writeNonNegativeIntegerTlv ndn_Tlv_ControlParameters_Flags (word_of_int flags) e else Inr e)
      (optional_nonneg_tlv ndn_Tlv_ControlParameters_Flags (flags_code (ccp_flags cp)))"
    using emits_writeOptionalNonNegativeIntegerTlv by simp
  have "emits (encodeStrategyValue cp) (name_tlv (ccp_strategy cp))"
    using emits_val_drop [OF emits_val_name, of "ccp_strategy cp"] names(2)
    by (simp add: encodeStrategyValue_def [abs_def] wire_wf_encodable)
  from emits_writeNestedTlv [OF this, of ndn_Tlv_ControlParameters_Strategy False]
  have strategy: "emits (\<lambda>e. if ccp_strategy cp \<noteq> []
       then writeNestedTlv ndn_Tlv_ControlParameters_Strategy (encodeStrategyValue cp) False e else Inr e)
       (strategy_tlv (ccp_strategy cp))"
    by (simp add: strategy_tlv_def nested_tlv_def)
  show ?thesis
    unfolding encodeControlParametersValue_def [abs_def] control_parameters_bytes_def
    by (intro emits_seq emits_optional_name names emits_writeOptionalNonNegativeIntegerTlv emits_writeOptionalBlobTlv flags
        strategy emits_optional_double)
qed

lemma emits_control_parameters:
  assumes "control_parameters_wf maxes cp"
  shows "emits (ndn_encodeTlvControlParameters cp) (control_parameters_tlv cp)"
  using emits_writeNestedTlv [OF emits_control_parameters_value [OF assms], of ndn_Tlv_ControlParameters_ControlParameters False]
  by (simp add: ndn_encodeTlvControlParameters_def control_parameters_tlv_def nested_tlv_def)

section \<open>Fields that may be missing\<close>

lemma not_next_last: "t' \<noteq> t \<Longrightarrow> not_next t (optional_double_tlv t' v)"
  using not_next_optional_double [of t' t "[]" v] by simp

lemma not_next_strategy:
  "t \<noteq> ndn_Tlv_ControlParameters_Strategy \<Longrightarrow> not_next t rest \<Longrightarrow> not_next t (strategy_tlv cs @ rest)"
  by (simp add: strategy_tlv_def not_next_tlv)

lemmas control_not_next = not_next_intros not_next_last not_next_strategy

lemma reads_field_skip:
  assumes s: "small_input (pre @ rest @ post)" and E: "E = at_pos (pre @ rest)" and rest: "not_next t rest"
    and k: "small_input (pre @ rest @ post) \<Longrightarrow> E = at_pos (pre @ rest) \<Longrightarrow> reads (f ()) pre rest post w"
  shows "reads (bindD (skipOptionalTlv t E) f) pre rest post w"
proof (rule reads_bind_peek)
  have "reads (peekType t E) pre [] (rest @ post) False" unfolding E by (rule reads_peekType_absent [OF s rest])
  then show "reads (skipOptionalTlv t E) pre [] (rest @ post) ()"
    by (simp add: skipOptionalTlv_def reads_def bindD_def retD_def)
  show "reads (f ()) pre rest post w" by (rule k [OF s E])
qed

lemma reads_field_name:
  assumes s: "small_input (pre @ (optional_name_tlv b cs @ rest) @ post)" and E: "E = at_pos (pre @ optional_name_tlv b cs @ rest)"
    and wf: "\<forall>c \<in> set cs. wire_wf c" "length cs \<le> m" and rest: "not_next ndn_Tlv_Name rest"
    and k: "small_input ((pre @ optional_name_tlv b cs) @ rest @ post) \<Longrightarrow> E = at_pos ((pre @ optional_name_tlv b cs) @ rest) \<Longrightarrow>
            reads (f (b, if b then slices_of (pre @ tlv_header ndn_Tlv_Name (length (comps_bytes cs))) cs else []))
              (pre @ optional_name_tlv b cs) rest post w"
  shows "reads (bindD (peekType ndn_Tlv_Name E) (\<lambda>got.
      bindD (if got then bindD (ndn_decodeTlvName m) (\<lambda>(cs, _, _). retD (True, cs)) else retD (False, [])) f))
      pre (optional_name_tlv b cs @ rest) post w"
proof -
  let ?b = "pre @ tlv_header ndn_Tlv_Name (length (comps_bytes cs))"
  have s': "small_input ((pre @ optional_name_tlv b cs) @ rest @ post)" "E = at_pos ((pre @ optional_name_tlv b cs) @ rest)"
    using s E by simp_all
  show ?thesis
  proof (cases b)
    case True
    have nt: "name_tlv cs = tlv ndn_Tlv_Name (comps_bytes cs)" by (simp add: name_tlv_def comps_bytes_def)
    have o': "optional_name_tlv b cs = name_tlv cs" using True by (simp add: optional_name_tlv_def)
    have peek: "reads (peekType ndn_Tlv_Name E) pre [] ((name_tlv cs @ rest) @ post) True"
      using reads_peekType_present [of pre ndn_Tlv_Name "comps_bytes cs" rest post] s E unfolding o' nt by simp
    have "reads (ndn_decodeTlvName m) pre (name_tlv cs) (rest @ post) (slices_of ?b cs, at_pos ?b, at_pos (?b @ comps_bytes (butlast cs)))"
      using reads_name [of pre cs "rest @ post" m] s wf unfolding o' Let_def by simp
    then have name: "reads (bindD (ndn_decodeTlvName m) (\<lambda>(cs, _, _). retD (True, cs))) pre (name_tlv cs) (rest @ post) (True, slices_of ?b cs)"
      by (rule reads_bind_last) simp
    show ?thesis
      unfolding o'
      by (rule reads_bind_peek [OF peek], unfold if_True, rule reads_bind [OF name]) (use k [OF s'] True o' in simp)
  next
    case False
    have o': "optional_name_tlv b cs = []" using False by (simp add: optional_name_tlv_def)
    have peek: "reads (peekType ndn_Tlv_Name E) pre [] (rest @ post) False"
      using reads_peekType_absent [of pre rest post ndn_Tlv_Name] s E rest by (simp add: o')
    show ?thesis
      unfolding o' append_Nil
      by (rule reads_bind_peek [OF peek], unfold if_False, rule reads_bind_peek [OF reads_ret]) (use k [OF s'] False o' in simp)
  qed
qed

lemma reads_field_strategy:
  assumes s: "small_input (pre @ (strategy_tlv cs @ rest) @ post)" and E: "E = at_pos (pre @ strategy_tlv cs @ rest)"
    and wf: "\<forall>c \<in> set cs. wire_wf c" "length cs \<le> m" and rest: "not_next ndn_Tlv_ControlParameters_Strategy rest"
    and k: "small_input ((pre @ strategy_tlv cs) @ rest @ post) \<Longrightarrow> E = at_pos ((pre @ strategy_tlv cs) @ rest) \<Longrightarrow>
            reads (f (slices_of ((pre @ tlv_header ndn_Tlv_ControlParameters_Strategy (length (name_tlv cs))) @
                                   tlv_header ndn_Tlv_Name (length (comps_bytes cs))) cs))
              (pre @ strategy_tlv cs) rest post w"
  shows "reads (bindD (peekType ndn_Tlv_ControlParameters_Strategy E) (\<lambda>got.
      bindD (if got
             then bindD (readNestedTlvsStart ndn_Tlv_ControlParameters_Strategy) (\<lambda>strategyEndOffset.
                  bindD (ndn_decodeTlvName m) (\<lambda>(cs, _, _).
                  bindD (finishNestedTlvs strategyEndOffset) (\<lambda>_. retD cs)))
             else retD []) f)) pre (strategy_tlv cs @ rest) post w"
proof -
  let ?t = "ndn_Tlv_ControlParameters_Strategy"
  have s': "small_input ((pre @ strategy_tlv cs) @ rest @ post)" "E = at_pos ((pre @ strategy_tlv cs) @ rest)"
    using s E by simp_all
  show ?thesis
  proof (cases "cs = []")
    case True
    have o': "strategy_tlv cs = []" using True by (simp add: strategy_tlv_def)
    have peek: "reads (peekType ?t E) pre [] (rest @ post) False"
      using reads_peekType_absent [of pre rest post ?t] s E rest by (simp add: o')
    show ?thesis
      unfolding o' append_Nil
      by (rule reads_bind_peek [OF peek], unfold if_False, rule reads_bind_peek [OF reads_ret]) (use k [OF s'] True o' in simp)
  next
    case False
    let ?b = "(pre @ tlv_header ?t (length (name_tlv cs))) @ tlv_header ndn_Tlv_Name (length (comps_bytes cs))"
    have o': "strategy_tlv cs = tlv ?t (name_tlv cs)" using False by (simp add: strategy_tlv_def)
    have peek: "reads (peekType ?t E) pre [] ((tlv ?t (name_tlv cs) @ rest) @ post) True"
      using reads_peekType_present [of pre ?t "name_tlv cs" rest post] s E unfolding o' by simp
    have s2: "small_input (pre @ tlv ?t (name_tlv cs) @ rest @ post)" using s by (simp add: o')
    have name: "reads (bindD (readNestedTlvsStart ?t) (\<lambda>strategyEndOffset.
                  bindD (ndn_decodeTlvName m) (\<lambda>(cs, _, _).
                  bindD (finishNestedTlvs strategyEndOffset) (\<lambda>_. retD cs)))) pre (tlv ?t (name_tlv cs)) (rest @ post) (slices_of ?b cs)"
    proof (rule reads_nested_bind_at [OF s2 refl], goal_cases)
      case 1
      have "reads (ndn_decodeTlvName m) (pre @ tlv_header ?t (length (name_tlv cs))) (name_tlv cs) (rest @ post)
          (slices_of ?b cs, at_pos ?b, at_pos (?b @ comps_bytes (butlast cs)))"
        using reads_name [of "pre @ tlv_header ?t (length (name_tlv cs))" cs "rest @ post" m] 1 wf by (simp add: Let_def add.assoc)
      then show ?case
        by (rule reads_bind_last) (simp add: reads_finish_ret del: at_append)
    qed
    show ?thesis
      unfolding o'
      by (rule reads_bind_peek [OF peek], unfold if_True, rule reads_bind [OF name]) (use k [OF s'] o' in simp)
  qed
qed

section \<open>The decoders read it back\<close>

definition control_parameters_slices :: "bytes \<Rightarrow> c_control_parameters \<Rightarrow> control_parameters_slices" where
  "control_parameters_slices p cp =
     (let p1 = p @ optional_name_tlv (ccp_hasName cp) (ccp_name cp);
          p2 = p1 @ optional_nonneg_tlv ndn_Tlv_ControlParameters_FaceId (ccp_faceId cp);
          p3 = p2 @ optional_blob_tlv ndn_Tlv_ControlParameters_Uri (ccp_uri cp) @
               optional_nonneg_tlv ndn_Tlv_ControlParameters_LocalControlFeature (ccp_localControlFeature cp) @
               optional_nonneg_tlv ndn_Tlv_ControlParameters_Origin (ccp_origin cp) @
               optional_nonneg_tlv ndn_Tlv_ControlParameters_Cost (ccp_cost cp) @
               optional_nonneg_tlv ndn_Tlv_ControlParameters_Flags (flags_code (ccp_flags cp))
      in \<lparr>ccp_hasName = ccp_hasName cp,
          ccp_name = (if ccp_hasName cp
                      then slices_of (p @ tlv_header ndn_Tlv_Name (length (comps_bytes (ccp_name cp)))) (ccp_name cp) else []),
          ccp_faceId = ccp_faceId cp, ccp_uri = blob_slice p2 ndn_Tlv_ControlParameters_Uri (ccp_uri cp),
          ccp_localControlFeature = ccp_localControlFeature cp, ccp_origin = ccp_origin cp, ccp_cost = ccp_cost cp,
          ccp_flags = ccp_flags cp,
          ccp_strategy = slices_of ((p3 @ tlv_header ndn_Tlv_ControlParameters_Strategy (length (name_tlv (ccp_strategy cp)))) @
                           tlv_header ndn_Tlv_Name (length (comps_bytes (ccp_strategy cp)))) (ccp_strategy cp),
          ccp_expirationPeriod = ccp_expirationPeriod cp\<rparr>)"

text \<open>The flags, which are the default when they are missing.\<close>

lemma setFlags_code:
  assumes "ro_origin flags = -1" and "ro_origin flags0 = -1" and "flags_code flags \<noteq> -1"
  shows "ndn_RegistrationOptions_setNfdForwardingFlags (flags_code flags) flags0 = flags"
  using assms
  by (cases flags; cases "ro_childInherit flags"; cases "ro_capture flags")
    (simp_all add: flags_code_def Let_def flags_values ndn_RegistrationOptions_setNfdForwardingFlags_def
      ndn_NfdForwardingFlags_CHILD_INHERIT_def ndn_NfdForwardingFlags_CAPTURE_def)

lemma flags_code_default:
  "ro_origin flags = -1 \<Longrightarrow> flags_code flags = -1 \<Longrightarrow> flags = ndn_RegistrationOptions_initialize"
  by (cases flags) (auto simp: flags_code_def Let_def flags_values ndn_RegistrationOptions_initialize_def split: if_splits)

lemma reads_field_flags:
  assumes s: "small_input (pre @ (optional_nonneg_tlv t (flags_code flags) @ rest) @ post)"
    and E: "E = at_pos (pre @ optional_nonneg_tlv t (flags_code flags) @ rest)"
    and o': "ro_origin flags = -1" "ro_origin flags0 = -1" and rest: "not_next t rest"
    and k: "small_input ((pre @ optional_nonneg_tlv t (flags_code flags)) @ rest @ post) \<Longrightarrow>
            E = at_pos ((pre @ optional_nonneg_tlv t (flags_code flags)) @ rest) \<Longrightarrow>
            reads (f flags) (pre @ optional_nonneg_tlv t (flags_code flags)) rest post w"
  shows "reads (bindD (peekType t E) (\<lambda>got.
      bindD (if got
             then bindD (readNonNegativeIntegerTlv t) (\<lambda>v.
                  retD (ndn_RegistrationOptions_setNfdForwardingFlags (to_int (uint v)) flags0))
             else retD ndn_RegistrationOptions_initialize) f))
      pre (optional_nonneg_tlv t (flags_code flags) @ rest) post w"
proof -
  let ?v = "flags_code flags"
  let ?bs = "optional_nonneg_tlv t ?v"
  have s': "small_input ((pre @ ?bs) @ rest @ post)" "E = at_pos ((pre @ ?bs) @ rest)" using s E by simp_all
  have v: "-1 \<le> ?v" "?v < 2 ^ 31" using flags_code_small [of flags] by (simp_all add: small_int_def)
  show ?thesis
  proof (cases "?v \<ge> 0")
    case True
    have b: "?bs = tlv t (nonneg_integer (word_of_int ?v))" using True by (simp add: optional_nonneg_tlv_def)
    have peek: "reads (peekType t E) pre [] ((tlv t (nonneg_integer (word_of_int ?v)) @ rest) @ post) True"
      using reads_peekType_present [of pre t "nonneg_integer (word_of_int ?v)" rest post] s E unfolding b by simp
    have int: "reads (readNonNegativeIntegerTlv t) pre (tlv t (nonneg_integer (word_of_int ?v))) (rest @ post) (word_of_int ?v)"
      using s by (intro reads_readNonNegativeIntegerTlv) (simp add: b)
    have "ndn_RegistrationOptions_setNfdForwardingFlags (to_int (uint (word_of_int ?v :: u64))) flags0 = flags"
      unfolding to_int_word [OF True v(2)] using True by (intro setFlags_code o') simp
    then have read: "reads (bindD (readNonNegativeIntegerTlv t) (\<lambda>v.
          retD (ndn_RegistrationOptions_setNfdForwardingFlags (to_int (uint v)) flags0)))
        pre (tlv t (nonneg_integer (word_of_int ?v))) (rest @ post) flags"
      using reads_bind_ret [OF int] by metis
    show ?thesis
      unfolding b
      by (rule reads_bind_peek [OF peek], unfold if_True, rule reads_bind [OF read]) (use k [OF s'] b in simp)
  next
    case False
    then have b: "?bs = []" and m: "?v = -1" using v by (simp_all add: optional_nonneg_tlv_def)
    have peek: "reads (peekType t E) pre [] (rest @ post) False"
      using reads_peekType_absent [of pre rest post t] s E rest by (simp add: b)
    show ?thesis
      unfolding b append_Nil
      by (rule reads_bind_peek [OF peek], unfold if_False, rule reads_bind_peek [OF reads_ret])
        (use k [OF s'] b flags_code_default [OF o'(1) m] in simp)
  qed
qed

lemma reads_control_parameters:
  assumes s: "small_input (pre @ control_parameters_tlv cp @ post)" and wf: "control_parameters_wf maxes cp"
    and o0: "ro_origin (ccp_flags cp0) = -1"
  shows "reads (ndn_decodeTlvControlParameters maxes cp0) pre (control_parameters_tlv cp) post
           (control_parameters_slices (pre @ tlv_header ndn_Tlv_ControlParameters_ControlParameters
              (length (control_parameters_bytes cp))) cp)"
  unfolding ndn_decodeTlvControlParameters_def control_parameters_tlv_def
proof (rule reads_nested_bind [OF s [unfolded control_parameters_tlv_def], where w = "\<lambda>p. control_parameters_slices p cp"],
    goal_cases)
  case (1 p E)
  have ints: "-1 \<le> ccp_faceId cp" "ccp_faceId cp < 2 ^ 31" "-1 \<le> ccp_localControlFeature cp" "ccp_localControlFeature cp < 2 ^ 31"
      "-1 \<le> ccp_origin cp" "ccp_origin cp < 2 ^ 31" "-1 \<le> ccp_cost cp" "ccp_cost cp < 2 ^ 31"
    and names: "\<forall>c \<in> set (ccp_name cp). wire_wf c" "length (ccp_name cp) \<le> fst maxes"
      "\<forall>c \<in> set (ccp_strategy cp). wire_wf c" "length (ccp_strategy cp) \<le> snd maxes"
    and rest: "ro_origin (ccp_flags cp) = -1" "whole_ms (ccp_expirationPeriod cp)"
    using wf by (simp_all add: control_parameters_wf_def small_int_def)
  show ?case
    unfolding control_parameters_bytes_def
    apply (rule reads_field_name [OF 1(1) [unfolded control_parameters_bytes_def] 1(2) [unfolded control_parameters_bytes_def] names(1,2)])
     apply (intro control_not_next; simp add: control_types ndn_Tlv_Name_def)
    apply (unfold prod.case)
    apply (rule reads_field_nonneg, assumption, assumption, rule ints, rule ints)
     apply (intro control_not_next; simp add: control_types)
    apply (rule reads_field_blob, assumption, assumption)
     apply (intro control_not_next; simp add: control_types)
    apply (rule reads_field_skip, assumption, assumption)
     apply (intro control_not_next; simp add: control_types)
    apply (rule reads_field_nonneg, assumption, assumption, rule ints, rule ints)
     apply (intro control_not_next; simp add: control_types)
    apply (rule reads_field_nonneg, assumption, assumption, rule ints, rule ints)
     apply (intro control_not_next; simp add: control_types)
    apply (rule reads_field_nonneg, assumption, assumption, rule ints, rule ints)
     apply (intro control_not_next; simp add: control_types)
    apply (rule reads_field_skip, assumption, assumption, (intro control_not_next; simp add: control_types))+
    apply (rule reads_field_flags, assumption, assumption, rule rest, rule o0)
     apply (intro control_not_next; simp add: control_types)
    apply (rule reads_field_skip, assumption, assumption)
     apply (intro control_not_next; simp add: control_types)
    apply (rule reads_field_strategy, assumption, assumption, rule names, rule names)
     apply (intro control_not_next; simp add: control_types)
    apply (rule reads_field_double [where rest = "[]", simplified append_Nil2], assumption, assumption, rule rest)
     apply simp
    apply (rule reads_finish_ret)
     apply simp
    apply (simp add: control_parameters_slices_def Let_def)
    done
qed

section \<open>Copies of what was read\<close>

text \<open>An empty URI is written as none.\<close>

definition no_empty_uri :: "c_control_parameters \<Rightarrow> c_control_parameters" where
  "no_empty_uri cp = cp\<lparr>ccp_uri := (if ccp_uri cp = Some [] then None else ccp_uri cp)\<rparr>"

lemma resolve_optional_name:
  assumes "small_input (pre @ optional_name_tlv b cs @ post)" and "\<forall>c \<in> set cs. wire_wf c" and "\<not> b \<longrightarrow> cs = []"
  shows "lite_components (pre @ optional_name_tlv b cs @ post)
     (if b then slices_of (pre @ tlv_header ndn_Tlv_Name (length (comps_bytes cs))) cs else []) = Some cs"
proof (cases b)
  case True
  have nt: "name_tlv cs = tlv_header ndn_Tlv_Name (length (comps_bytes cs)) @ comps_bytes cs"
    by (simp add: name_tlv_def comps_bytes_def tlv_def)
  show ?thesis
    using lite_components_slices [of "pre @ tlv_header ndn_Tlv_Name (length (comps_bytes cs))" cs post] assms True
    by (simp add: optional_name_tlv_def nt)
qed (use assms in simp)

lemma resolve_strategy:
  assumes "small_input (pre @ strategy_tlv cs @ post)" and "\<forall>c \<in> set cs. wire_wf c"
  shows "lite_components (pre @ strategy_tlv cs @ post)
     (slices_of ((pre @ tlv_header ndn_Tlv_ControlParameters_Strategy (length (name_tlv cs))) @
                   tlv_header ndn_Tlv_Name (length (comps_bytes cs))) cs) = Some cs"
proof (cases "cs = []")
  case False
  have nt: "strategy_tlv cs = tlv_header ndn_Tlv_ControlParameters_Strategy (length (name_tlv cs)) @
      tlv_header ndn_Tlv_Name (length (comps_bytes cs)) @ comps_bytes cs"
    using False by (simp add: strategy_tlv_def name_tlv_def comps_bytes_def tlv_def)
  show ?thesis
    using lite_components_slices [of "(pre @ tlv_header ndn_Tlv_ControlParameters_Strategy (length (name_tlv cs))) @
      tlv_header ndn_Tlv_Name (length (comps_bytes cs))" cs post] assms by (simp add: nt)
qed simp

lemma resolve_uri:
  assumes "small_input (pre @ optional_blob_tlv t b @ post)"
  shows "resolve_blob (pre @ optional_blob_tlv t b @ post) (blob_slice pre t b) = Some (if b = Some [] then None else b)"
  using resolve_blob_slice [OF assms] by (auto simp: blob_slice_def optional_blob_tlv_def)

lemma resolve_control_parameters_slices:
  assumes s: "small_input (p @ control_parameters_bytes cp @ post)" and wf: "control_parameters_wf maxes cp"
  shows "resolve_control_parameters (p @ control_parameters_bytes cp @ post) (control_parameters_slices p cp) = Some (no_empty_uri cp)"
proof -
  define p1 where "p1 = p @ optional_name_tlv (ccp_hasName cp) (ccp_name cp)"
  define p2 where "p2 = p1 @ optional_nonneg_tlv ndn_Tlv_ControlParameters_FaceId (ccp_faceId cp)"
  define r3 where "r3 = optional_nonneg_tlv ndn_Tlv_ControlParameters_LocalControlFeature (ccp_localControlFeature cp) @
               optional_nonneg_tlv ndn_Tlv_ControlParameters_Origin (ccp_origin cp) @
               optional_nonneg_tlv ndn_Tlv_ControlParameters_Cost (ccp_cost cp) @
               optional_nonneg_tlv ndn_Tlv_ControlParameters_Flags (flags_code (ccp_flags cp))"
  define p3 where "p3 = p2 @ optional_blob_tlv ndn_Tlv_ControlParameters_Uri (ccp_uri cp) @ r3"
  define r4 where "r4 = optional_double_tlv ndn_Tlv_ControlParameters_ExpirationPeriod (ccp_expirationPeriod cp) @ post"
  note parts = p1_def p2_def p3_def r3_def r4_def control_parameters_bytes_def
  have names: "\<forall>c \<in> set (ccp_name cp). wire_wf c" "\<forall>c \<in> set (ccp_strategy cp). wire_wf c" "\<not> ccp_hasName cp \<longrightarrow> ccp_name cp = []"
    using wf by (simp_all add: control_parameters_wf_def)
  have i1: "p @ control_parameters_bytes cp @ post = p @ optional_name_tlv (ccp_hasName cp) (ccp_name cp) @
      (optional_nonneg_tlv ndn_Tlv_ControlParameters_FaceId (ccp_faceId cp) @
       optional_blob_tlv ndn_Tlv_ControlParameters_Uri (ccp_uri cp) @ r3 @ strategy_tlv (ccp_strategy cp) @ r4)"
    by (simp add: parts)
  have i2: "p @ control_parameters_bytes cp @ post = p2 @ optional_blob_tlv ndn_Tlv_ControlParameters_Uri (ccp_uri cp) @
      (r3 @ strategy_tlv (ccp_strategy cp) @ r4)"
    by (simp add: parts)
  have i3: "p @ control_parameters_bytes cp @ post = p3 @ strategy_tlv (ccp_strategy cp) @ r4"
    by (simp add: parts)
  have "lite_components (p @ control_parameters_bytes cp @ post)
     (if ccp_hasName cp then slices_of (p @ tlv_header ndn_Tlv_Name (length (comps_bytes (ccp_name cp)))) (ccp_name cp) else []) =
     Some (ccp_name cp)"
    unfolding i1 by (rule resolve_optional_name [OF s [unfolded i1] names(1,3)])
  moreover have "resolve_blob (p @ control_parameters_bytes cp @ post) (blob_slice p2 ndn_Tlv_ControlParameters_Uri (ccp_uri cp)) =
     Some (if ccp_uri cp = Some [] then None else ccp_uri cp)"
    unfolding i2 by (rule resolve_uri [OF s [unfolded i2]])
  moreover have "lite_components (p @ control_parameters_bytes cp @ post)
     (slices_of ((p3 @ tlv_header ndn_Tlv_ControlParameters_Strategy (length (name_tlv (ccp_strategy cp)))) @
                   tlv_header ndn_Tlv_Name (length (comps_bytes (ccp_strategy cp)))) (ccp_strategy cp)) = Some (ccp_strategy cp)"
    unfolding i3 by (rule resolve_strategy [OF s [unfolded i3] names(2)])
  moreover have "control_parameters_slices p cp =
     \<lparr>ccp_hasName = ccp_hasName cp,
      ccp_name = (if ccp_hasName cp
                  then slices_of (p @ tlv_header ndn_Tlv_Name (length (comps_bytes (ccp_name cp)))) (ccp_name cp) else []),
      ccp_faceId = ccp_faceId cp, ccp_uri = blob_slice p2 ndn_Tlv_ControlParameters_Uri (ccp_uri cp),
      ccp_localControlFeature = ccp_localControlFeature cp, ccp_origin = ccp_origin cp, ccp_cost = ccp_cost cp,
      ccp_flags = ccp_flags cp,
      ccp_strategy = slices_of ((p3 @ tlv_header ndn_Tlv_ControlParameters_Strategy (length (name_tlv (ccp_strategy cp)))) @
                       tlv_header ndn_Tlv_Name (length (comps_bytes (ccp_strategy cp)))) (ccp_strategy cp),
      ccp_expirationPeriod = ccp_expirationPeriod cp\<rparr>"
    by (simp add: control_parameters_slices_def Let_def parts)
  ultimately show ?thesis by (simp add: resolve_control_parameters_def no_empty_uri_def)
qed

section \<open>The control response\<close>

definition control_response_bytes :: "c_control_response \<Rightarrow> bytes" where
  "control_response_bytes cr =
     tlv ndn_Tlv_NfdCommand_StatusCode (nonneg_integer (word_of_int (ccr_statusCode cr))) @
     tlv ndn_Tlv_NfdCommand_StatusText (blob_bytes (ccr_statusText cr)) @
     (if ccr_hasBodyAsControlParameters cr then control_parameters_tlv (ccr_bodyAsControlParameters cr) else [])"

definition control_response_tlv :: "c_control_response \<Rightarrow> bytes" where
  "control_response_tlv cr = tlv ndn_Tlv_NfdCommand_ControlResponse (control_response_bytes cr)"

definition control_response_wf :: "nat \<times> nat \<Rightarrow> c_control_response \<Rightarrow> bool" where
  "control_response_wf maxes cr \<longleftrightarrow>
     0 \<le> ccr_statusCode cr \<and> ccr_statusCode cr < 2 ^ 31 \<and> ccr_statusText cr \<noteq> None \<and>
     (if ccr_hasBodyAsControlParameters cr then control_parameters_wf maxes (ccr_bodyAsControlParameters cr)
      else ccr_bodyAsControlParameters cr = ndn_ControlParameters_initialize)"

lemma emits_control_response:
  assumes "control_response_wf maxes cr"
  shows "emits (ndn_encodeTlvControlResponse cr) (control_response_tlv cr)"
proof -
  have "emits (\<lambda>e. if ccr_hasBodyAsControlParameters cr
       then ndn_encodeTlvControlParameters (ccr_bodyAsControlParameters cr) e else Inr e)
       (if ccr_hasBodyAsControlParameters cr then control_parameters_tlv (ccr_bodyAsControlParameters cr) else [])"
    using emits_control_parameters [of maxes "ccr_bodyAsControlParameters cr"] assms by (simp add: control_response_wf_def)
  then have "emits (encodeControlResponseValue cr) (control_response_bytes cr)"
    unfolding encodeControlResponseValue_def [abs_def] control_response_bytes_def
    by (intro emits_seq emits_writeNonNegativeIntegerTlv emits_writeBlobTlv)
  from emits_writeNestedTlv [OF this, of ndn_Tlv_NfdCommand_ControlResponse False] show ?thesis
    by (simp add: ndn_encodeTlvControlResponse_def control_response_tlv_def nested_tlv_def)
qed

definition body_slices :: "bytes \<Rightarrow> c_control_response \<Rightarrow> control_parameters_slices" where
  "body_slices p cr =
     (if ccr_hasBodyAsControlParameters cr
      then control_parameters_slices (p @ tlv_header ndn_Tlv_ControlParameters_ControlParameters
             (length (control_parameters_bytes (ccr_bodyAsControlParameters cr)))) (ccr_bodyAsControlParameters cr)
      else ndn_ControlParameters_initialize)"

lemma reads_body:
  fixes cr :: c_control_response
  defines "bs \<equiv> if ccr_hasBodyAsControlParameters cr then control_parameters_tlv (ccr_bodyAsControlParameters cr) else []"
  assumes s: "small_input (p @ bs @ post)" and E: "E = at_pos (p @ bs)" and wf: "control_response_wf maxes cr"
    and k: "reads (f (ccr_hasBodyAsControlParameters cr, body_slices p cr)) (p @ bs) [] post w"
  shows "reads (bindD (peekType ndn_Tlv_ControlParameters_ControlParameters E) (\<lambda>got.
     bindD (if got
            then bindD (ndn_decodeTlvControlParameters maxes ndn_ControlParameters_initialize) (\<lambda>body. retD (True, body))
            else retD (False, ndn_ControlParameters_initialize)) f)) p bs post w"
proof (cases "ccr_hasBodyAsControlParameters cr")
  case True
  let ?t = "ndn_Tlv_ControlParameters_ControlParameters" and ?cp = "ccr_bodyAsControlParameters cr"
  have b: "bs = control_parameters_tlv ?cp" using True by (simp add: bs_def)
  have peek: "reads (peekType ?t E) p [] (control_parameters_tlv ?cp @ post) True"
    using reads_peekType_present [of p ?t "control_parameters_bytes ?cp" "[]" post] s E b
    by (simp add: control_parameters_tlv_def)
  have "control_parameters_wf maxes ?cp" using wf True by (simp add: control_response_wf_def)
  with s b have "reads (ndn_decodeTlvControlParameters maxes ndn_ControlParameters_initialize) p (control_parameters_tlv ?cp) post
      (body_slices p cr)"
    using reads_control_parameters [of p ?cp post maxes ndn_ControlParameters_initialize] True
    by (simp add: ndn_ControlParameters_initialize_def ndn_RegistrationOptions_initialize_def body_slices_def)
  from reads_bind_ret [OF this, of "Pair True"]
  have read: "reads (bindD (ndn_decodeTlvControlParameters maxes ndn_ControlParameters_initialize) (\<lambda>body. retD (True, body)))
      p (control_parameters_tlv ?cp) post (True, body_slices p cr)" by simp
  show ?thesis
    unfolding b
    by (rule reads_bind_peek [OF peek], unfold if_True, rule reads_bind_last [OF read]) (use k True b in simp)
next
  case False
  have b: "bs = []" using False by (simp add: bs_def)
  have peek: "reads (peekType ndn_Tlv_ControlParameters_ControlParameters E) p [] ([] @ post) False"
    using reads_peekType_end [of ndn_Tlv_ControlParameters_ControlParameters p post] E b by simp
  show ?thesis
    unfolding b
    by (rule reads_bind_peek [OF peek], unfold if_False, rule reads_bind_last [OF reads_ret])
      (use k False b in \<open>simp add: body_slices_def\<close>)
qed

definition control_response_slices :: "bytes \<Rightarrow> c_control_response \<Rightarrow> control_response_slices" where
  "control_response_slices p cr =
     (let q = p @ tlv ndn_Tlv_NfdCommand_StatusCode (nonneg_integer (word_of_int (ccr_statusCode cr)));
          v = blob_bytes (ccr_statusText cr)
      in \<lparr>ccr_statusCode = ccr_statusCode cr,
          ccr_statusText = Some \<lparr>sl_offset = at_pos (q @ tlv_header ndn_Tlv_NfdCommand_StatusText (length v)),
                                 sl_length = of_nat (length v)\<rparr>,
          ccr_hasBodyAsControlParameters = ccr_hasBodyAsControlParameters cr,
          ccr_bodyAsControlParameters = body_slices (q @ tlv ndn_Tlv_NfdCommand_StatusText v) cr\<rparr>)"

lemma reads_control_response:
  assumes s: "small_input (pre @ control_response_tlv cr @ post)" and wf: "control_response_wf maxes cr"
  shows "reads (ndn_decodeTlvControlResponse maxes ndn_ControlResponse_initialize) pre (control_response_tlv cr) post
           (control_response_slices (pre @ tlv_header ndn_Tlv_NfdCommand_ControlResponse (length (control_response_bytes cr))) cr)"
  unfolding ndn_decodeTlvControlResponse_def control_response_tlv_def
proof (rule reads_nested_bind [OF s [unfolded control_response_tlv_def], where w = "\<lambda>p. control_response_slices p cr"], goal_cases)
  case (1 p E)
  let ?bs = "if ccr_hasBodyAsControlParameters cr then control_parameters_tlv (ccr_bodyAsControlParameters cr) else []"
  let ?code = "tlv ndn_Tlv_NfdCommand_StatusCode (nonneg_integer (word_of_int (ccr_statusCode cr)))"
  let ?v = "blob_bytes (ccr_statusText cr)"
  let ?text = "tlv ndn_Tlv_NfdCommand_StatusText ?v"
  have sp: "small_input (p @ ?code @ ?text @ ?bs @ post)" and Ep: "E = at_pos (p @ ?code @ ?text @ ?bs)"
    using 1 by (simp_all add: control_response_bytes_def)
  have code: "reads (readNonNegativeIntegerTlv ndn_Tlv_NfdCommand_StatusCode) p ?code ((?text @ ?bs) @ post)
      (word_of_int (ccr_statusCode cr))"
    using sp by (intro reads_readNonNegativeIntegerTlv) simp
  have stext: "reads (readBlobTlv ndn_Tlv_NfdCommand_StatusText) (p @ ?code) ?text (?bs @ post)
      \<lparr>sl_offset = at_pos ((p @ ?code) @ tlv_header ndn_Tlv_NfdCommand_StatusText (length ?v)), sl_length = of_nat (length ?v)\<rparr>"
    using sp by (intro reads_readBlobTlv) simp
  have sb: "small_input (((p @ ?code) @ ?text) @ ?bs @ post)" "E = at_pos (((p @ ?code) @ ?text) @ ?bs)"
    using sp Ep by simp_all
  have i: "to_int (uint (word_of_int (ccr_statusCode cr) :: u64)) = ccr_statusCode cr"
    using wf by (intro to_int_word) (simp_all add: control_response_wf_def)
  have init: "ccr_bodyAsControlParameters ndn_ControlResponse_initialize = ndn_ControlParameters_initialize"
    by (simp add: ndn_ControlResponse_initialize_def)
  show ?case
    unfolding control_response_bytes_def init
    apply (rule reads_bind [OF code])
    apply (rule reads_bind [OF stext])
    apply (rule reads_body [OF sb wf])
    apply (unfold prod.case)
    apply (rule reads_finish_ret)
    using sb(2) apply simp
    apply (simp add: control_response_slices_def Let_def i)
    done
qed

lemma resolve_control_response_slices:
  assumes s: "small_input (p @ control_response_bytes cr @ post)" and wf: "control_response_wf maxes cr"
  shows "resolve_control_response (p @ control_response_bytes cr @ post) (control_response_slices p cr) =
     Some (cr\<lparr>ccr_bodyAsControlParameters := no_empty_uri (ccr_bodyAsControlParameters cr)\<rparr>)"
proof -
  let ?code = "tlv ndn_Tlv_NfdCommand_StatusCode (nonneg_integer (word_of_int (ccr_statusCode cr)))"
  let ?cp = "ccr_bodyAsControlParameters cr"
  obtain v where v: "ccr_statusText cr = Some v" using wf by (auto simp: control_response_wf_def)
  let ?text = "tlv ndn_Tlv_NfdCommand_StatusText v"
  let ?bs = "if ccr_hasBodyAsControlParameters cr then control_parameters_tlv ?cp else []"
  let ?q = "p @ ?code"
  have i: "p @ control_response_bytes cr @ post = ?q @ ?text @ (?bs @ post)" by (simp add: control_response_bytes_def v)
  have stext: "resolve_blob (p @ control_response_bytes cr @ post)
      (Some \<lparr>sl_offset = at_pos (?q @ tlv_header ndn_Tlv_NfdCommand_StatusText (length v)), sl_length = of_nat (length v)\<rparr>) = Some (Some v)"
    unfolding i by (rule resolve_blob_tlv [OF s [unfolded i]])
  have "resolve_control_parameters (p @ control_response_bytes cr @ post) (body_slices (?q @ ?text) cr) = Some (no_empty_uri ?cp)"
  proof (cases "ccr_hasBodyAsControlParameters cr")
    case True
    let ?h = "(?q @ ?text) @ tlv_header ndn_Tlv_ControlParameters_ControlParameters (length (control_parameters_bytes ?cp))"
    have i2: "p @ control_response_bytes cr @ post = ?h @ control_parameters_bytes ?cp @ post"
      using True i by (simp add: control_parameters_tlv_def tlv_def)
    have "control_parameters_wf maxes ?cp" using wf True by (simp add: control_response_wf_def)
    from resolve_control_parameters_slices [OF s [unfolded i2] this] show ?thesis
      unfolding i2 using True by (simp add: body_slices_def)
  next
    case False
    with wf show ?thesis
      by (simp add: body_slices_def control_response_wf_def resolve_control_parameters_def ndn_ControlParameters_initialize_def
          no_empty_uri_def)
  qed
  with stext v show ?thesis
    by (simp add: resolve_control_response_def control_response_slices_def Let_def add.assoc)
qed

section \<open>Round trips of the classes\<close>

definition name_ok :: "name \<Rightarrow> bool" where
  "name_ok n \<longleftrightarrow> Name_size n \<le> MAX_NAME_COMPONENTS \<and>
     (\<forall>c \<in> set (n_components n). wire_wf c \<and> (is_digest c \<longrightarrow> blob_size (c_value c) = 32))"

definition control_ok :: "control_parameters \<Rightarrow> bool" where
  "control_ok cp \<longleftrightarrow>
     (\<not> cp_hasName cp \<longrightarrow> n_components (cp_name cp) = []) \<and> name_ok (cp_name cp) \<and> name_ok (cp_strategy cp) \<and>
     small_int (cp_faceId cp) \<and> small_int (cp_localControlFeature cp) \<and> small_int (cp_origin cp) \<and> small_int (cp_cost cp) \<and>
     ro_origin (cp_flags cp) = -1 \<and> whole_ms (cp_expirationPeriod cp)"

text \<open>What an application sees: the names by their components.\<close>

definition control_view :: "control_parameters \<Rightarrow> _" where
  "control_view cp = (cp_hasName cp, n_components (cp_name cp), cp_faceId cp, cp_uri cp, cp_localControlFeature cp,
     cp_origin cp, cp_cost cp, cp_flags cp, n_components (cp_strategy cp), cp_expirationPeriod cp)"

definition response_view :: "control_response \<Rightarrow> _" where
  "response_view cr = (cr_statusCode cr, cr_statusText cr, map_option control_view (cr_bodyAsControlParameters cr))"

lemma name_ok_lite:
  assumes "name_ok n"
  shows "\<exists>l. Name_get_lite \<lparr>cn_components = [], cn_maxComponents = MAX_NAME_COMPONENTS\<rparr> n = Inr l \<and>
             cn_components l = n_components n"
  using Name_lite_roundtrip [of n "\<lparr>cn_components = [], cn_maxComponents = MAX_NAME_COMPONENTS\<rparr>"] assms
  by (auto simp: name_ok_def wire_wf_def)

lemma control_get_ok:
  assumes "control_ok cp"
  shows "\<exists>lite. ControlParameters_get control_maxes cp = Inr lite \<and> control_parameters_wf control_maxes lite \<and>
           control_view (ControlParameters_set (no_empty_uri lite) cp0) = control_view cp"
proof -
  from assms obtain l l' where
    l: "Name_get_lite \<lparr>cn_components = [], cn_maxComponents = MAX_NAME_COMPONENTS\<rparr> (cp_name cp) = Inr l"
       "cn_components l = n_components (cp_name cp)"
    and l': "Name_get_lite \<lparr>cn_components = [], cn_maxComponents = MAX_NAME_COMPONENTS\<rparr> (cp_strategy cp) = Inr l'"
       "cn_components l' = n_components (cp_strategy cp)"
    using name_ok_lite unfolding control_ok_def by meson
  with assms show ?thesis
    by (simp add: ControlParameters_get_def control_parameters_wf_def control_ok_def name_ok_def Name_size_def control_view_def
        ControlParameters_set_def no_empty_uri_def Name_set_lite_def n_components_fold_append Name_clear_def)
qed

definition response_ok :: "control_response \<Rightarrow> bool" where
  "response_ok cr \<longleftrightarrow> 0 \<le> cr_statusCode cr \<and> cr_statusCode cr < 2 ^ 31 \<and>
     (\<forall>body. cr_bodyAsControlParameters cr = Some body \<longrightarrow> control_ok body)"

lemma response_get_ok:
  assumes "response_ok cr"
  shows "\<exists>lite. ControlResponse_get control_maxes cr = Inr lite \<and> control_response_wf control_maxes lite \<and>
           response_view (ControlResponse_set (lite\<lparr>ccr_bodyAsControlParameters := no_empty_uri (ccr_bodyAsControlParameters lite)\<rparr>)) =
           response_view cr"
proof (cases "cr_bodyAsControlParameters cr")
  case None
  with assms show ?thesis
    by (simp add: ControlResponse_get_def control_response_wf_def response_ok_def response_view_def ControlResponse_set_def)
next
  case (Some body)
  with assms control_get_ok [of body ControlParameters_new] obtain lite where
    "ControlParameters_get control_maxes body = Inr lite" "control_parameters_wf control_maxes lite"
    "control_view (ControlParameters_set (no_empty_uri lite) ControlParameters_new) = control_view body"
    by (auto simp: response_ok_def)
  with Some assms show ?thesis
    by (simp add: ControlResponse_get_def control_response_wf_def response_ok_def response_view_def ControlResponse_set_def)
qed

section \<open>Properties\<close>

text \<open>
  A control response, with the control parameters in its body, is encoded without an error, and decoding the
  bytes, whatever follows them, gives a response with the same status code, text and parameters.
\<close>

theorem control_response_roundtrip:
  assumes "response_ok cr"
  shows "\<exists>wire. Tlv_encodeControlResponse cr = Inr wire \<and>
           (small_input (wire @ post) \<longrightarrow>
              (\<exists>cr'. Tlv_decodeControlResponse (wire @ post) = Some (Inr cr') \<and> response_view cr' = response_view cr))"
proof -
  obtain lite where lite: "ControlResponse_get control_maxes cr = Inr lite" "control_response_wf control_maxes lite"
    "response_view (ControlResponse_set (lite\<lparr>ccr_bodyAsControlParameters := no_empty_uri (ccr_bodyAsControlParameters lite)\<rparr>)) =
     response_view cr"
    using response_get_ok [OF assms] by blast
  let ?wire = "control_response_tlv lite" and ?v = "control_response_bytes lite"
  let ?p = "tlv_header ndn_Tlv_NfdCommand_ControlResponse (length ?v)"
  have wire: "?wire = ?p @ ?v" by (simp add: control_response_tlv_def tlv_def)
  have "Tlv_encodeControlResponse cr = Inr ?wire"
    using run_encoder [OF emits_control_response [OF lite(2)], of 256] lite(1)
    by (simp add: Tlv_encodeControlResponse_def ndn_Tlv0_2WireFormat_encodeControlResponse_def)
  moreover have "\<exists>cr'. Tlv_decodeControlResponse (?wire @ post) = Some (Inr cr') \<and> response_view cr' = response_view cr"
    if s: "small_input (?wire @ post)"
  proof -
    have "reads (ndn_decodeTlvControlResponse control_maxes ndn_ControlResponse_initialize) [] ?wire post
        (control_response_slices ?p lite)"
      using reads_control_response [of "[]" lite post control_maxes] s lite(2) by simp
    moreover have "resolve_control_response (?wire @ post) (control_response_slices ?p lite) =
        Some (lite\<lparr>ccr_bodyAsControlParameters := no_empty_uri (ccr_bodyAsControlParameters lite)\<rparr>)"
      using resolve_control_response_slices [of ?p lite post control_maxes] s lite(2) unfolding wire by simp
    ultimately show ?thesis using lite(3)
      by (simp add: Tlv_decodeControlResponse_def ndn_Tlv0_2WireFormat_decodeControlResponse_def reads_def)
  qed
  ultimately show ?thesis by blast
qed

theorem control_response_roundtrip_witness:
  "\<exists>wire. Tlv_encodeControlResponse \<lparr>cr_statusCode = 200, cr_statusText = str ''OK'',
      cr_bodyAsControlParameters = Some (ControlParameters_setName (Name_of [Component_generic (Some [97])]) ControlParameters_new)\<rparr> =
      Inr wire"
proof -
  let ?cr = "\<lparr>cr_statusCode = 200, cr_statusText = str ''OK'', cr_bodyAsControlParameters =
      Some (ControlParameters_setName (Name_of [Component_generic (Some [97])]) ControlParameters_new)\<rparr>"
  have "response_ok ?cr"
    by (simp add: response_ok_def control_ok_def name_ok_def ControlParameters_setName_def ControlParameters_new_def Name_of_def
        Name_empty_def small_int_def ndn_RegistrationOptions_initialize_def whole_ms_def Component_generic_def wire_wf_def
        component_wf_def is_digest_def Name_size_def MAX_NAME_COMPONENTS_def)
  from control_response_roundtrip [OF this] show ?thesis by blast
qed

end
