(* ===== verification/TlvLpPacket.thy ===== *)
theory TlvLpPacket
  imports TlvControl InterestModel
begin

text \<open>
  NDNLPv2 packets: the C structs and the decoder (\<^verbatim>\<open>lp-packet-types.h\<close>, \<^verbatim>\<open>tlv-lp-packet.c\<close>), the class that holds the
  header fields (\<^verbatim>\<open>lp/lp-packet.cpp\<close>, \<^verbatim>\<open>network-nack.cpp\<close>) and the encoder of a Nack (\<^verbatim>\<open>encodeLpNack\<close> in \<^verbatim>\<open>node.cpp\<close>).
\<close>

section \<open>Structs\<close>

definition ndn_Tlv_LpPacket_LpPacket :: u32 where "ndn_Tlv_LpPacket_LpPacket = 100"
definition ndn_Tlv_LpPacket_Fragment :: u32 where "ndn_Tlv_LpPacket_Fragment = 80"
definition ndn_Tlv_LpPacket_Nack :: u32 where "ndn_Tlv_LpPacket_Nack = 800"
definition ndn_Tlv_LpPacket_NackReason :: u32 where "ndn_Tlv_LpPacket_NackReason = 801"
definition ndn_Tlv_LpPacket_IncomingFaceId :: u32 where "ndn_Tlv_LpPacket_IncomingFaceId = 817"
definition ndn_Tlv_LpPacket_CongestionMark :: u32 where "ndn_Tlv_LpPacket_CongestionMark = 832"
definition ndn_Tlv_LpPacket_IGNORE_MIN :: u32 where "ndn_Tlv_LpPacket_IGNORE_MIN = 800"
definition ndn_Tlv_LpPacket_IGNORE_MAX :: u32 where "ndn_Tlv_LpPacket_IGNORE_MAX = 959"

lemmas lp_types =
  ndn_Tlv_LpPacket_LpPacket_def ndn_Tlv_LpPacket_Fragment_def ndn_Tlv_LpPacket_Nack_def ndn_Tlv_LpPacket_NackReason_def
  ndn_Tlv_LpPacket_IncomingFaceId_def ndn_Tlv_LpPacket_CongestionMark_def ndn_Tlv_LpPacket_IGNORE_MIN_def
  ndn_Tlv_LpPacket_IGNORE_MAX_def

definition ndn_NetworkNackReason_NONE :: int where "ndn_NetworkNackReason_NONE = 0"
definition ndn_NetworkNackReason_CONGESTION :: int where "ndn_NetworkNackReason_CONGESTION = 50"
definition ndn_NetworkNackReason_DUPLICATE :: int where "ndn_NetworkNackReason_DUPLICATE = 100"
definition ndn_NetworkNackReason_NO_ROUTE :: int where "ndn_NetworkNackReason_NO_ROUTE = 150"
definition ndn_NetworkNackReason_OTHER_CODE :: int where "ndn_NetworkNackReason_OTHER_CODE = 0x7fff"

lemmas nack_reasons =
  ndn_NetworkNackReason_NONE_def ndn_NetworkNackReason_CONGESTION_def ndn_NetworkNackReason_DUPLICATE_def
  ndn_NetworkNackReason_NO_ROUTE_def ndn_NetworkNackReason_OTHER_CODE_def

record network_nack =
  nn_reason :: int
  nn_otherReasonCode :: int

definition ndn_NetworkNack_initialize :: network_nack where
  "ndn_NetworkNack_initialize = \<lparr>nn_reason = ndn_NetworkNackReason_NONE, nn_otherReasonCode = -1\<rparr>"

text \<open>The union of header fields, with its type.\<close>

datatype lp_header_field =
    IncomingFaceIdField u64
  | NetworkNackField network_nack
  | CongestionMarkField u64

record ndn_LpPacket =
  clp_fragmentWireEncoding :: "slice option"
  clp_headerFields :: "lp_header_field list"

definition ndn_LpPacket_clear :: ndn_LpPacket where
  "ndn_LpPacket_clear = \<lparr>clp_fragmentWireEncoding = None, clp_headerFields = []\<rparr>"

section \<open>The decoder\<close>

text \<open>The room check of \<^verbatim>\<open>ndn_LpPacket_addEmptyHeaderField\<close>, then the field that the caller fills in.\<close>

definition ndn_LpPacket_addHeaderField :: "nat \<Rightarrow> lp_header_field dec \<Rightarrow> ndn_LpPacket \<Rightarrow> ndn_LpPacket dec" where
  "ndn_LpPacket_addHeaderField maxHeaderFields field lpPacket =
     (if length (clp_headerFields lpPacket) \<ge> maxHeaderFields
      then failD NDN_ERROR_cannot_add_an_entry_past_the_maximum_number_of_entries_allowed_in_the_LpPacket
      else bindD field (\<lambda>f. retD (lpPacket\<lparr>clp_headerFields := clp_headerFields lpPacket @ [f]\<rparr>)))"

definition nack_of_code :: "int \<Rightarrow> network_nack" where
  "nack_of_code code =
     (if code < 0 \<or> code = ndn_NetworkNackReason_NONE
      then ndn_NetworkNack_initialize\<lparr>nn_reason := ndn_NetworkNackReason_NONE\<rparr>
      else if code = ndn_NetworkNackReason_CONGESTION \<or> code = ndn_NetworkNackReason_DUPLICATE \<or>
              code = ndn_NetworkNackReason_NO_ROUTE
      then ndn_NetworkNack_initialize\<lparr>nn_reason := code\<rparr>
      else ndn_NetworkNack_initialize\<lparr>nn_reason := ndn_NetworkNackReason_OTHER_CODE, nn_otherReasonCode := code\<rparr>)"

definition canIgnore :: "int \<Rightarrow> bool" where
  "canIgnore fieldType \<longleftrightarrow>
     fieldType \<ge> uint ndn_Tlv_LpPacket_IGNORE_MIN \<and> fieldType \<le> uint ndn_Tlv_LpPacket_IGNORE_MAX \<and>
     fieldType AND 0x03 = 0"

text \<open>The value of a field other than the fragment.\<close>

definition lp_field_value :: "nat \<Rightarrow> int \<Rightarrow> size_t \<Rightarrow> size_t \<Rightarrow> ndn_LpPacket \<Rightarrow> ndn_LpPacket dec" where
  "lp_field_value maxHeaderFields fieldType fieldLength fieldEndOffset lpPacket =
     (if fieldType = uint ndn_Tlv_LpPacket_Nack
      then ndn_LpPacket_addHeaderField maxHeaderFields
             (bindD (readOptionalNonNegativeIntegerTlv ndn_Tlv_LpPacket_NackReason fieldEndOffset)
                (\<lambda>code. retD (NetworkNackField (nack_of_code code)))) lpPacket
      else if fieldType = uint ndn_Tlv_LpPacket_IncomingFaceId
      then ndn_LpPacket_addHeaderField maxHeaderFields
             (bindD (readNonNegativeInteger fieldLength) (\<lambda>faceId. retD (IncomingFaceIdField faceId))) lpPacket
      else if fieldType = uint ndn_Tlv_LpPacket_CongestionMark
      then ndn_LpPacket_addHeaderField maxHeaderFields
             (bindD (readNonNegativeInteger fieldLength) (\<lambda>mark. retD (CongestionMarkField mark))) lpPacket
      else if \<not> canIgnore fieldType then failD NDN_ERROR_did_not_get_the_expected_TLV_type
      else bindD (TlvDecoder_seek fieldEndOffset) (\<lambda>_. retD lpPacket))"

text \<open>One turn of the loop; the result says whether the loop is left with \<^verbatim>\<open>break\<close>.\<close>

definition lp_field_body :: "nat \<Rightarrow> int \<Rightarrow> size_t \<Rightarrow> size_t \<Rightarrow> ndn_LpPacket \<Rightarrow> (bool \<times> ndn_LpPacket) dec" where
  "lp_field_body maxHeaderFields fieldType fieldLength fieldEndOffset lpPacket =
     bindD getOffset (\<lambda>offset.
       if fieldType = uint ndn_Tlv_LpPacket_Fragment
       then bindD (getSlice offset fieldEndOffset) (\<lambda>fragment.
            bindD (TlvDecoder_seek fieldEndOffset) (\<lambda>_.
              retD (True, lpPacket\<lparr>clp_fragmentWireEncoding := Some fragment\<rparr>)))
       else bindD (lp_field_value maxHeaderFields fieldType fieldLength fieldEndOffset lpPacket) (\<lambda>lpPacket.
            bindD (finishNestedTlvs fieldEndOffset) (\<lambda>_. retD (False, lpPacket))))"

definition lp_field :: "nat \<Rightarrow> ndn_LpPacket \<Rightarrow> (bool \<times> ndn_LpPacket) dec" where
  "lp_field maxHeaderFields lpPacket =
     bindD readVarNumber (\<lambda>fieldTypeVarNumber.
     bindD readVarNumber (\<lambda>fieldLength input off.
       let fieldEndOffset = off + fieldLength in
       if fieldEndOffset > inputLength input then Some (Inl NDN_ERROR_TLV_length_exceeds_buffer_length)
       else lp_field_body maxHeaderFields (to_int (uint fieldTypeVarNumber)) fieldLength fieldEndOffset lpPacket input off))"

text \<open>The loop; the end of a field is computed with wrap-around, so the loop need not end.\<close>

partial_function (option) lp_loop :: "nat \<Rightarrow> size_t \<Rightarrow> ndn_LpPacket \<Rightarrow> bytes \<Rightarrow> size_t \<Rightarrow> ndn_LpPacket dec_result" where
  "lp_loop maxHeaderFields endOffset lpPacket input off =
     (if off < endOffset
      then case lp_field maxHeaderFields lpPacket input off of
             None \<Rightarrow> None
           | Some (Inl e) \<Rightarrow> Some (Inl e)
           | Some (Inr ((leave, lpPacket), off)) \<Rightarrow>
               if leave then Some (Inr (lpPacket, off)) else lp_loop maxHeaderFields endOffset lpPacket input off
      else Some (Inr (lpPacket, off)))"

definition ndn_decodeTlvLpPacket :: "nat \<Rightarrow> ndn_LpPacket dec" where
  "ndn_decodeTlvLpPacket maxHeaderFields =
     bindD (readNestedTlvsStart ndn_Tlv_LpPacket_LpPacket) (\<lambda>endOffset.
     bindD (lp_loop maxHeaderFields endOffset ndn_LpPacket_clear) (\<lambda>lpPacket.
     bindD (finishNestedTlvs endOffset) (\<lambda>_. retD lpPacket)))"

definition ndn_Tlv0_2WireFormat_decodeLpPacket :: "nat \<Rightarrow> bytes \<Rightarrow> ndn_LpPacket dec_result" where
  "ndn_Tlv0_2WireFormat_decodeLpPacket maxHeaderFields input = ndn_decodeTlvLpPacket maxHeaderFields input 0"

section \<open>The LpPacket class\<close>

record lp_packet =
  lp_headerFields :: "lp_header_field list"
  lp_fragmentWireEncoding :: blob

text \<open>\<^verbatim>\<open>LpPacket::set\<close> on a decoded packet whose fragment is a slice of the input; None when it reaches outside.\<close>

definition LpPacket_set :: "bytes \<Rightarrow> ndn_LpPacket \<Rightarrow> lp_packet option" where
  "LpPacket_set input lite =
     map_option (\<lambda>fragment. \<lparr>lp_headerFields = clp_headerFields lite, lp_fragmentWireEncoding = fragment\<rparr>)
       (resolve_blob input (clp_fragmentWireEncoding lite))"

fun NetworkNack_getFirstHeader_loop :: "lp_header_field list \<Rightarrow> network_nack option" where
  "NetworkNack_getFirstHeader_loop [] = None"
| "NetworkNack_getFirstHeader_loop (field # rest) =
     (case field of
        NetworkNackField nack \<Rightarrow> Some nack
      | _ \<Rightarrow> NetworkNack_getFirstHeader_loop rest)"

definition NetworkNack_getFirstHeader :: "lp_packet \<Rightarrow> network_nack option" where
  "NetworkNack_getFirstHeader lpPacket = NetworkNack_getFirstHeader_loop (lp_headerFields lpPacket)"

section \<open>Encoding a Nack\<close>

definition encodeLpNackValue :: "network_nack \<Rightarrow> tlv_encoder \<Rightarrow> ndn_error + tlv_encoder" where
  "encodeLpNackValue networkNack =
     (let reason =
        (if nn_reason networkNack = ndn_NetworkNackReason_NONE \<or> nn_reason networkNack = ndn_NetworkNackReason_CONGESTION \<or>
            nn_reason networkNack = ndn_NetworkNackReason_DUPLICATE \<or> nn_reason networkNack = ndn_NetworkNackReason_NO_ROUTE
         then nn_reason networkNack
         else if nn_reason networkNack = ndn_NetworkNackReason_OTHER_CODE then nn_otherReasonCode networkNack
         else ndn_NetworkNackReason_NONE)
      in writeNonNegativeIntegerTlv ndn_Tlv_LpPacket_NackReason (word_of_int reason))"

text \<open>
  \<^verbatim>\<open>encodeLpValue\<close> calls \<^verbatim>\<open>wireEncode\<close> of the Interest in each pass of the encoder; \<^verbatim>\<open>wireEncoding b\<close> is what the call with
  \<^verbatim>\<open>enableOutput = b\<close> returns.
\<close>

definition encodeLpValue :: "network_nack \<Rightarrow> (bool \<Rightarrow> bytes) \<Rightarrow> tlv_encoder \<Rightarrow> ndn_error + tlv_encoder" where
  "encodeLpValue networkNack wireEncoding e =
     bindE (writeNestedTlv ndn_Tlv_LpPacket_Nack (encodeLpNackValue networkNack) False e) (\<lambda>e.
       writeBlobTlv ndn_Tlv_LpPacket_Fragment (wireEncoding (enableOutput e)) e)"

definition encodeLpNack :: "network_nack \<Rightarrow> (bool \<Rightarrow> bytes) \<Rightarrow> bytes result" where
  "encodeLpNack networkNack wireEncoding =
     throwC (run_encoder 256 (writeNestedTlv ndn_Tlv_LpPacket_LpPacket (encodeLpValue networkNack wireEncoding) False))"

section \<open>The decoder reads a Nack back\<close>

lemma reads_header_then_body:
  assumes s: "small_input (pre @ tlv t v @ post)"
    and body: "reads (lp_field_body maxes (to_int (uint (ucast t :: u64))) (of_nat (length v)) (at_pos ((pre @ tlv_header t (length v)) @ v)) p)
      (pre @ tlv_header t (length v)) v post r"
  shows "reads (lp_field maxes p) pre (tlv t v) post r"
proof -
  let ?t = "var_number (ucast t)" and ?l = "var_number (of_nat (length v))"
  have h: "tlv_header t (length v) = ?t @ ?l" by (simp add: tlv_header_def)
  have s1: "small_input (pre @ ?t @ (?l @ v @ post))" and s2: "small_input ((pre @ ?t) @ ?l @ (v @ post))"
    and s3: "small_input (((pre @ ?t) @ ?l) @ v @ post)"
    using s by (simp_all add: tlv_def h)
  from s1 have type: "reads readVarNumber pre ?t (?l @ v @ post) (ucast t)" by (rule reads_readVarNumber)
  from s2 have len: "reads readVarNumber (pre @ ?t) ?l (v @ post) (of_nat (length v))" by (rule reads_readVarNumber)
  from type len body at_le_inputLength [OF s3] show ?thesis
    by (simp add: tlv_def h reads_def lp_field_def bindD_def Let_def add.assoc)
qed

lemma lp_loop_end: "reads (lp_loop maxes (at_pos pre) p) pre [] post p"
  by (simp add: reads_def lp_loop.simps)

lemma lp_loop_leave:
  assumes "reads (lp_field maxes p) pre f post (True, q)" and "at_pos pre < E"
  shows "reads (lp_loop maxes E p) pre f post q"
  using assms by (simp add: reads_def lp_loop.simps [of maxes E p])

lemma lp_loop_next:
  assumes "reads (lp_field maxes p) pre f (bs @ post) (False, p')" and "at_pos pre < E"
    and "reads (lp_loop maxes E p') (pre @ f) bs post q"
  shows "reads (lp_loop maxes E p) pre (f @ bs) post q"
  using assms by (simp add: reads_def lp_loop.simps [of maxes E p] add.assoc)

lemma reads_lp_fragment:
  assumes s: "small_input (pre @ tlv ndn_Tlv_LpPacket_Fragment v @ post)"
  shows "reads (lp_field maxes p) pre (tlv ndn_Tlv_LpPacket_Fragment v) post
     (True, p\<lparr>clp_fragmentWireEncoding :=
        Some \<lparr>sl_offset = at_pos (pre @ tlv_header ndn_Tlv_LpPacket_Fragment (length v)), sl_length = of_nat (length v)\<rparr>\<rparr>)"
proof (rule reads_header_then_body [OF s])
  let ?q = "pre @ tlv_header ndn_Tlv_LpPacket_Fragment (length v)"
  have s': "small_input (?q @ v @ post)" using s by (simp add: tlv_def)
  have "reads (getSlice (at_pos ?q) (at_pos (?q @ v))) ?q [] (v @ post) \<lparr>sl_offset = at_pos ?q, sl_length = of_nat (length v)\<rparr>"
    by (rule reads_getSlice [OF s']) simp
  then show "reads (lp_field_body maxes (to_int (uint (ucast ndn_Tlv_LpPacket_Fragment :: u64))) (of_nat (length v)) (at_pos (?q @ v)) p)
      ?q v post (True, p\<lparr>clp_fragmentWireEncoding := Some \<lparr>sl_offset = at_pos ?q, sl_length = of_nat (length v)\<rparr>\<rparr>)"
    by (simp add: lp_field_body_def lp_types to_int_id reads_def bindD_def getOffset_def TlvDecoder_seek_def retD_def)
qed

definition nack_code :: "network_nack \<Rightarrow> int" where
  "nack_code nack =
     (if nn_reason nack = ndn_NetworkNackReason_OTHER_CODE then nn_otherReasonCode nack else nn_reason nack)"

definition nack_reason_tlv :: "network_nack \<Rightarrow> bytes" where
  "nack_reason_tlv nack = tlv ndn_Tlv_LpPacket_NackReason (nonneg_integer (word_of_int (nack_code nack)))"

text \<open>A Nack that reads back: a standard reason, or another code that is not one of the standard codes.\<close>

definition standard_code :: "int \<Rightarrow> bool" where
  "standard_code code \<longleftrightarrow> code \<in> {ndn_NetworkNackReason_NONE, ndn_NetworkNackReason_CONGESTION,
     ndn_NetworkNackReason_DUPLICATE, ndn_NetworkNackReason_NO_ROUTE}"

definition nack_ok :: "network_nack \<Rightarrow> bool" where
  "nack_ok nack \<longleftrightarrow>
     (if nn_reason nack = ndn_NetworkNackReason_OTHER_CODE
      then 0 < nn_otherReasonCode nack \<and> nn_otherReasonCode nack < 2 ^ 31 \<and> \<not> standard_code (nn_otherReasonCode nack)
      else standard_code (nn_reason nack) \<and> nn_otherReasonCode nack = -1)"

lemma nack_code_range: "nack_ok nack \<Longrightarrow> 0 \<le> nack_code nack \<and> nack_code nack < 2 ^ 31"
  by (auto simp: nack_ok_def nack_code_def standard_code_def nack_reasons split: if_splits)

lemma nack_of_code: "nack_ok nack \<Longrightarrow> nack_of_code (nack_code nack) = nack"
  by (cases nack)
     (auto simp: nack_ok_def nack_of_code_def nack_code_def standard_code_def ndn_NetworkNack_initialize_def nack_reasons split: if_splits)

lemma reads_lp_nack:
  assumes s: "small_input (pre @ tlv ndn_Tlv_LpPacket_Nack (nack_reason_tlv nack) @ post)" and ok: "nack_ok nack"
    and room: "length (clp_headerFields p) < maxes"
  shows "reads (lp_field maxes p) pre (tlv ndn_Tlv_LpPacket_Nack (nack_reason_tlv nack)) post
     (False, p\<lparr>clp_headerFields := clp_headerFields p @ [NetworkNackField nack]\<rparr>)"
proof (rule reads_header_then_body [OF s])
  let ?v = "nack_reason_tlv nack"
  let ?q = "pre @ tlv_header ndn_Tlv_LpPacket_Nack (length ?v)"
  have v: "?v = optional_nonneg_tlv ndn_Tlv_LpPacket_NackReason (nack_code nack)"
    using nack_code_range [OF ok] by (simp add: nack_reason_tlv_def optional_nonneg_tlv_def)
  have s': "small_input (?q @ optional_nonneg_tlv ndn_Tlv_LpPacket_NackReason (nack_code nack) @ [] @ post)"
    using s by (simp add: tlv_def v)
  have r: "reads (readOptionalNonNegativeIntegerTlv ndn_Tlv_LpPacket_NackReason (at_pos (?q @ ?v))) ?q ?v post (nack_code nack)"
    using reads_readOptionalNonNegativeIntegerTlv [OF s'] nack_code_range [OF ok] by (simp add: v)
  show "reads (lp_field_body maxes (to_int (uint (ucast ndn_Tlv_LpPacket_Nack :: u64))) (of_nat (length ?v)) (at_pos (?q @ ?v)) p)
      ?q ?v post (False, p\<lparr>clp_headerFields := clp_headerFields p @ [NetworkNackField nack]\<rparr>)"
    using r room reads_finish [of "?q @ ?v" post] nack_of_code [OF ok]
    by (simp add: lp_field_body_def lp_field_value_def ndn_LpPacket_addHeaderField_def lp_types to_int_id
        reads_def bindD_def getOffset_def retD_def)
qed

definition lp_nack_bytes :: "network_nack \<Rightarrow> bytes \<Rightarrow> bytes" where
  "lp_nack_bytes nack fragment = tlv ndn_Tlv_LpPacket_Nack (nack_reason_tlv nack) @ tlv ndn_Tlv_LpPacket_Fragment fragment"

definition lp_nack_tlv :: "network_nack \<Rightarrow> bytes \<Rightarrow> bytes" where
  "lp_nack_tlv nack fragment = tlv ndn_Tlv_LpPacket_LpPacket (lp_nack_bytes nack fragment)"

lemma nack_value_code: "nack_ok nack \<Longrightarrow> encodeLpNackValue nack = writeNonNegativeIntegerTlv ndn_Tlv_LpPacket_NackReason (word_of_int (nack_code nack))"
  by (auto simp: encodeLpNackValue_def nack_code_def nack_ok_def standard_code_def nack_reasons split: if_splits)

lemma encodeLpNack_bytes:
  assumes "nack_ok nack"
  shows "encodeLpNack nack (\<lambda>_. fragment) = Inr (lp_nack_tlv nack fragment)"
proof -
  have "emits (encodeLpNackValue nack) (nack_reason_tlv nack)"
    unfolding nack_value_code [OF assms] nack_reason_tlv_def by (rule emits_writeNonNegativeIntegerTlv)
  then have "emits (encodeLpValue nack (\<lambda>_. fragment))
      (nested_tlv ndn_Tlv_LpPacket_Nack False (nack_reason_tlv nack) @ tlv ndn_Tlv_LpPacket_Fragment fragment)"
    unfolding encodeLpValue_def by (intro emits_seq emits_writeNestedTlv emits_writeBlobTlv)
  then have "emits (encodeLpValue nack (\<lambda>_. fragment)) (lp_nack_bytes nack fragment)"
    by (simp add: lp_nack_bytes_def nested_tlv_def)
  from run_encoder [OF emits_writeNestedTlv [OF this]] show ?thesis
    by (simp add: encodeLpNack_def lp_nack_tlv_def nested_tlv_def)
qed

lemma reads_lp_nack_packet:
  assumes s: "small_input (pre @ lp_nack_tlv nack fragment @ post)" and ok: "nack_ok nack" and room: "0 < maxes"
  shows "reads (ndn_decodeTlvLpPacket maxes) pre (lp_nack_tlv nack fragment) post
     \<lparr>clp_fragmentWireEncoding = Some \<lparr>sl_offset = at_pos (((pre @ tlv_header ndn_Tlv_LpPacket_LpPacket (length (lp_nack_bytes nack fragment)))
            @ tlv ndn_Tlv_LpPacket_Nack (nack_reason_tlv nack)) @ tlv_header ndn_Tlv_LpPacket_Fragment (length fragment)),
          sl_length = of_nat (length fragment)\<rparr>,
      clp_headerFields = [NetworkNackField nack]\<rparr>"
  unfolding ndn_decodeTlvLpPacket_def lp_nack_tlv_def
proof (rule reads_nested_bind_at [OF s [unfolded lp_nack_tlv_def] refl], goal_cases)
  case 1
  let ?p = "pre @ tlv_header ndn_Tlv_LpPacket_LpPacket (length (lp_nack_bytes nack fragment))"
  let ?n = "tlv ndn_Tlv_LpPacket_Nack (nack_reason_tlv nack)" and ?f = "tlv ndn_Tlv_LpPacket_Fragment fragment"
  have s1: "small_input (?p @ ?n @ (?f @ post))" and s2: "small_input ((?p @ ?n) @ ?f @ post)"
    using 1 by (simp_all add: lp_nack_bytes_def)
  have less: "at_pos ?p < at_pos (?p @ ?n @ ?f)" "at_pos (?p @ ?n) < at_pos (?p @ ?n @ ?f)"
    using s1 unfolding at_pos_def by (simp_all only: of_nat_less_small small_input_def length_append) simp_all
  let ?s = "\<lparr>sl_offset = at_pos ((?p @ ?n) @ tlv_header ndn_Tlv_LpPacket_Fragment (length fragment)), sl_length = of_nat (length fragment)\<rparr>"
  have nack: "reads (lp_field maxes ndn_LpPacket_clear) ?p ?n (?f @ post)
      (False, \<lparr>clp_fragmentWireEncoding = None, clp_headerFields = [NetworkNackField nack]\<rparr>)"
    using reads_lp_nack [OF s1 ok, of ndn_LpPacket_clear maxes] room by (simp add: ndn_LpPacket_clear_def)
  have frag: "reads (lp_field maxes \<lparr>clp_fragmentWireEncoding = None, clp_headerFields = [NetworkNackField nack]\<rparr>) (?p @ ?n) ?f post
      (True, \<lparr>clp_fragmentWireEncoding = Some ?s, clp_headerFields = [NetworkNackField nack]\<rparr>)"
    using reads_lp_fragment [OF s2, of maxes "\<lparr>clp_fragmentWireEncoding = None, clp_headerFields = [NetworkNackField nack]\<rparr>"] by simp
  note loop = lp_loop_next [OF nack less(1) lp_loop_leave [OF frag less(2)]]
  show ?case
    unfolding lp_nack_bytes_def
    by (rule reads_bind_last [OF loop [unfolded lp_nack_bytes_def]]) (simp add: reads_finish_ret del: at_append)
qed

text \<open>
   The network layer's \<^verbatim>\<open>encodeLpNack\<close> and the LpPacket decoder agree: a Nack with a standard reason or with another positive code,
  wrapped around the encoding of an Interest, decodes to an LpPacket whose first Nack header is that Nack and whose fragment is
  that encoding.  (A node decodes with room for five header fields.)
\<close>

theorem lp_nack_roundtrip:
  assumes "nack_ok nack" and "length fragment < 2 ^ 32"
  shows "\<exists>out lite off packet. encodeLpNack nack (\<lambda>_. fragment) = Inr out \<and>
     ndn_Tlv0_2WireFormat_decodeLpPacket 5 out = Some (Inr (lite, off)) \<and> LpPacket_set out lite = Some packet \<and>
     NetworkNack_getFirstHeader packet = Some nack \<and> lp_fragmentWireEncoding packet = Some fragment"
proof -
  let ?n = "tlv ndn_Tlv_LpPacket_Nack (nack_reason_tlv nack)" and ?f = "tlv ndn_Tlv_LpPacket_Fragment fragment"
  let ?h = "tlv_header ndn_Tlv_LpPacket_LpPacket (length (lp_nack_bytes nack fragment))"
  have s: "small_input (lp_nack_tlv nack fragment)"
    using assms(2) length_tlv_le [of ndn_Tlv_LpPacket_LpPacket "lp_nack_bytes nack fragment"]
      length_tlv_le [of ndn_Tlv_LpPacket_Fragment fragment] length_tlv_le [of ndn_Tlv_LpPacket_Nack "nack_reason_tlv nack"]
      length_tlv_le [of ndn_Tlv_LpPacket_NackReason "nonneg_integer (word_of_int (nack_code nack))"]
      length_nonneg_integer_le [of "word_of_int (nack_code nack)"]
    by (simp add: small_input_def lp_nack_tlv_def lp_nack_bytes_def nack_reason_tlv_def)
  have eq: "lp_nack_tlv nack fragment = (?h @ ?n) @ ?f @ []"
    by (simp add: lp_nack_tlv_def lp_nack_bytes_def tlv_def [of ndn_Tlv_LpPacket_LpPacket])
  have "resolve_blob (lp_nack_tlv nack fragment)
      (Some \<lparr>sl_offset = at_pos ((?h @ ?n) @ tlv_header ndn_Tlv_LpPacket_Fragment (length fragment)), sl_length = of_nat (length fragment)\<rparr>)
      = Some (Some fragment)"
    unfolding eq by (rule resolve_blob_tlv) (use s eq in simp)
  moreover have "small_input ([] @ lp_nack_tlv nack fragment @ [])" using s by simp
  note reads_lp_nack_packet [OF this assms(1), of 5]
  ultimately show ?thesis
    using encodeLpNack_bytes [OF assms(1)]
    by (simp add: reads_def ndn_Tlv0_2WireFormat_decodeLpPacket_def LpPacket_set_def NetworkNack_getFirstHeader_def add.assoc)
qed

theorem lp_nack_roundtrip_witness:
  "\<exists>out lite off packet. encodeLpNack \<lparr>nn_reason = ndn_NetworkNackReason_NO_ROUTE, nn_otherReasonCode = -1\<rparr> (\<lambda>_. [5, 0]) = Inr out \<and>
     ndn_Tlv0_2WireFormat_decodeLpPacket 5 out = Some (Inr (lite, off)) \<and> LpPacket_set out lite = Some packet \<and>
     NetworkNack_getFirstHeader packet = Some \<lparr>nn_reason = ndn_NetworkNackReason_NO_ROUTE, nn_otherReasonCode = -1\<rparr> \<and>
     lp_fragmentWireEncoding packet = Some [5, 0]"
  by (rule lp_nack_roundtrip) (simp_all add: nack_ok_def standard_code_def nack_reasons)

end
