(* ===== verification/CommandInterests.thy ===== *)
theory CommandInterests
  imports InterestModel
begin

text \<open>
  Command interests: the timestamp and random components that \<^verbatim>\<open>security/command-interest-preparer.cpp\<close> appends to the name,
  and \<^verbatim>\<open>util/command-interest-generator.cpp\<close>.  Times are real numbers; a double is exact for every whole number of milliseconds
  below \<^verbatim>\<open>2^53\<close>.
\<close>

section \<open>State and operations\<close>

record command_interest_preparer =
  cp_lastUsedTimestamp :: real
  cp_nowOffsetMilliseconds :: real

definition CommandInterestPreparer_new :: "real \<Rightarrow> command_interest_preparer" where
  "CommandInterestPreparer_new clock = \<lparr>cp_lastUsedTimestamp = of_int (c_round clock), cp_nowOffsetMilliseconds = 0\<rparr>"

partial_function (option) bump_loop :: "real \<Rightarrow> real \<Rightarrow> real option" where
  "bump_loop lastUsedTimestamp timestamp =
     (if timestamp \<le> lastUsedTimestamp then bump_loop lastUsedTimestamp (timestamp + 1) else Some timestamp)"

text \<open>
  \<^verbatim>\<open>clock\<close> is \<^verbatim>\<open>ndn_getNowMilliseconds()\<close> and \<^verbatim>\<open>random\<close> the source of random bytes.  The conversion of the timestamp to
  \<^verbatim>\<open>uint64_t\<close> truncates.
\<close>

definition prepareCommandInterestName ::
  "real \<Rightarrow> (nat \<Rightarrow> ndn_error + bytes) \<Rightarrow> interest \<Rightarrow> command_interest_preparer \<Rightarrow>
   (unit result \<times> interest \<times> command_interest_preparer) option" where
  "prepareCommandInterestName clock random interest self =
     map_option (\<lambda>timestamp.
       let self = self\<lparr>cp_lastUsedTimestamp := timestamp\<rparr> in
       case throwC (run_encoder 8 (writeNonNegativeInteger (word_of_int \<lfloor>timestamp\<rfloor>))) of
         Inl e \<Rightarrow> (Inl e, interest, self)
       | Inr encoding \<Rightarrow>
           (let interest = Interest_getName_apply (Name_append_generic encoding) interest in
            case throwC (random 8) of
              Inl e \<Rightarrow> (Inl e, interest, self)
            | Inr randomBuffer \<Rightarrow> (Inr (), Interest_getName_apply (Name_append_generic randomBuffer) interest, self)))
       (bump_loop (cp_lastUsedTimestamp self) (of_int (c_round (clock + cp_nowOffsetMilliseconds self))))"

text \<open>\<^verbatim>\<open>sign\<close> is \<^verbatim>\<open>KeyChain::sign\<close> of an Interest.\<close>

definition CommandInterestGenerator_generate ::
  "(interest \<Rightarrow> (unit result \<times> interest) option) \<Rightarrow> real \<Rightarrow> (nat \<Rightarrow> ndn_error + bytes) \<Rightarrow> interest \<Rightarrow>
   command_interest_preparer \<Rightarrow> (unit result \<times> interest \<times> command_interest_preparer) option" where
  "CommandInterestGenerator_generate sign clock random interest self =
     bindR (prepareCommandInterestName clock random interest self) (\<lambda>_ (interest, self).
     bindR (map_option (\<lambda>(r, interest). (r, interest, self)) (sign interest)) (\<lambda>_ (interest, self).
       Some (Inr (), if i_interestLifetimeMilliseconds interest < 0
                     then Interest_setInterestLifetimeMilliseconds 1000 interest else interest, self)))"

section \<open>The timestamp grows\<close>

lemma bump_loop_value:
  "bump_loop l t = Some (if t \<le> l then t + of_int (\<lfloor>l - t\<rfloor> + 1) else t)"
proof (induction "nat \<lfloor>l - t + 1\<rfloor>" arbitrary: t)
  case 0
  then have "l < t" by linarith
  then show ?case by (simp add: bump_loop.simps)
next
  case (Suc n)
  show ?case
  proof (cases "t \<le> l")
    case True
    have "bump_loop l (t + 1) = Some (if t + 1 \<le> l then t + 1 + of_int (\<lfloor>l - (t + 1)\<rfloor> + 1) else t + 1)"
      by (rule Suc.hyps(1)) (use Suc.hyps(2) True in linarith)
    moreover have "\<lfloor>l - (t + 1)\<rfloor> = \<lfloor>l - t\<rfloor> - 1" by linarith
    moreover have "\<lfloor>l - t\<rfloor> = 0" if "\<not> t + 1 \<le> l" using that True by linarith
    ultimately show ?thesis using True by (simp add: bump_loop.simps [of l t])
  qed (simp add: bump_loop.simps)
qed

lemma bump_loop_greater: "bump_loop l t = Some t' \<Longrightarrow> l < t' \<and> t \<le> t'"
proof -
  have "l < t + of_int (\<lfloor>l - t\<rfloor> + 1)" by linarith
  moreover have "0 \<le> \<lfloor>l - t\<rfloor>" if "t \<le> l" using that by simp
  ultimately show "bump_loop l t = Some t' \<Longrightarrow> l < t' \<and> t \<le> t'"
    by (auto simp: bump_loop_value split: if_splits)
qed

lemma bump_loop_clock: "l < t \<Longrightarrow> bump_loop l t = Some t"
  by (simp add: bump_loop_value)

definition whole :: "real \<Rightarrow> bool" where
  "whole x \<longleftrightarrow> x = of_int \<lfloor>x\<rfloor>"

lemma whole_of_int [simp]: "whole (of_int n)"
  by (simp add: whole_def)

lemma whole_plus_int [simp]: "whole x \<Longrightarrow> whole (x + of_int n)"
  by (simp add: whole_def)

lemma whole_bump: "whole t \<Longrightarrow> bump_loop l t = Some t' \<Longrightarrow> whole t'"
  by (auto simp: bump_loop_value split: if_splits simp del: of_int_add)


end
