(* ===== verification/NodeModel.thy ===== *)
theory NodeModel
  imports PendingInterests PrefixTables DelayedCalls TlvLpPacket CommandInterests
begin

text \<open>
  The node (\<^verbatim>\<open>node.[ch]pp\<close>): it sends Interests and keeps them pending, dispatches the packets it receives, times Interests out
  and registers prefixes.  The calls of application callbacks, of the transport and of the register response are recorded
  in order, as events.  The code catches what a callback throws.  A callback that calls back into the node
  does so between two operations: each operation calls its callbacks after it has updated its tables.
  None stands for a call that does not return, or that reads memory outside the packet.
\<close>

section \<open>State\<close>

text \<open>\<^verbatim>\<open>RegisterResponse::Info\<close>; \<^verbatim>\<open>'k\<close> is the type of the application's callbacks.\<close>

record 'k register_info =
  ri_prefix :: name
  ri_onRegisterFailed :: "'k option"
  ri_onRegisterSuccess :: "'k option"
  ri_registeredPrefixId :: u64
  ri_onInterest :: "'k option"

datatype 'k callback = App 'k | RegisterResponse "'k register_info"

datatype 'k later = InterestTimeout nat | AppLater 'k

datatype connect_status = ConnectStatus_UNCONNECTED | ConnectStatus_CONNECT_REQUESTED | ConnectStatus_CONNECT_COMPLETE

text \<open>The arguments bound in a callback of \<^verbatim>\<open>onConnectedCallbacks_\<close>.\<close>

record 'k connected_call =
  oc_pendingInterestId :: u64
  oc_interestCopy :: interest
  oc_onData :: "'k callback option"
  oc_onTimeout :: "'k callback option"
  oc_onNetworkNack :: "'k callback option"
  oc_wireFormat :: nat

text \<open>Events; the number is the reference of a pending interest entry.\<close>

datatype 'k node_event =
    CalledOnData nat "'k callback" interest data "lp_packet option"
  | CalledOnTimeout nat "'k callback" interest
  | CalledOnNetworkNack nat "'k callback" interest network_nack
  | CalledOnInterest 'k name interest u64 interest_filter "lp_packet option"
  | CalledOnRegisterFailed 'k name
  | CalledOnRegisterSuccess 'k name u64
  | CalledLater 'k
  | TransportConnect
  | TransportSend bytes
  | TransportClose

record 'k node =
  nd_pendingInterestTable :: "'k callback pit"
  nd_registeredPrefixTable :: "'k prefix_table"      \<comment> \<open>with \<^verbatim>\<open>interestFilterTable_\<close>\<close>
  nd_delayedCallTable :: "'k later delayed_calls"
  nd_onConnectedCallbacks :: "'k connected_call list"
  nd_commandInterestGenerator :: command_interest_preparer
  nd_timeoutPrefix :: name
  nd_connectStatus :: connect_status
  nd_interestLoopbackEnabled :: bool
  nd_lastEntryId :: u64
  nd_events :: "'k node_event list"

text \<open>
  What the node uses: the clock, the transport, the wire formats with the static settings of Interest, random bytes,
  the digest and the signer, the regular expressions, and the callbacks of \<^verbatim>\<open>callLater\<close> (whose exceptions are not caught).
\<close>

record 'k node_env =
  ne_now :: real
  ne_isAsync :: bool
  ne_isLocal :: bool
  ne_connect :: "unit result"
  ne_send :: "bytes \<Rightarrow> unit result"
  ne_formats :: formats
  ne_TlvWireFormat :: nat
  ne_defaultCanBePrefix :: bool
  ne_didSetDefaultCanBePrefix :: bool
  ne_random :: "nat \<Rightarrow> nat \<Rightarrow> ndn_error + bytes"
  ne_sha256 :: "bytes \<Rightarrow> bytes"
  ne_sign :: "interest \<Rightarrow> (unit result \<times> interest) option"
  ne_regexMatch :: "bytes \<Rightarrow> name \<Rightarrow> bool result"
  ne_later :: "'k \<Rightarrow> unit result"

definition MAX_NDN_PACKET_SIZE :: nat where "MAX_NDN_PACKET_SIZE = 8800"

definition nonceTemplate :: bytes where "nonceTemplate = [0, 0, 0, 0]"

definition Node_new :: "real \<Rightarrow> 'k node" where
  "Node_new clock =
     \<lparr>nd_pendingInterestTable = PendingInterestTable_new, nd_registeredPrefixTable = RegisteredPrefixTable_new,
      nd_delayedCallTable = [], nd_onConnectedCallbacks = [], nd_commandInterestGenerator = CommandInterestPreparer_new clock,
      nd_timeoutPrefix = snd (Name_set (str ''/local/timeout'') (Name_of [])), nd_connectStatus = ConnectStatus_UNCONNECTED,
      nd_interestLoopbackEnabled = False, nd_lastEntryId = 0, nd_events = []\<rparr>"

section \<open>Helpers\<close>

definition record_event :: "'k node_event \<Rightarrow> 'k node \<Rightarrow> 'k node" where
  "record_event ev self = self\<lparr>nd_events := nd_events self @ [ev]\<rparr>"

definition throwN :: "string \<Rightarrow> 's \<Rightarrow> ('a result \<times> 's) option" where
  "throwN message self = Some (Inl (RuntimeError (str message)), self)"

text \<open>\<^verbatim>\<open>transport_->send\<close> and \<^verbatim>\<open>transport_->connect\<close>.\<close>

definition transport_send :: "'k node_env \<Rightarrow> bytes \<Rightarrow> 'k node \<Rightarrow> (unit result \<times> 'k node) option" where
  "transport_send env encoding self = Some (ne_send env encoding, record_event (TransportSend encoding) self)"

definition transport_connect :: "'k node_env \<Rightarrow> 'k node \<Rightarrow> (unit result \<times> 'k node) option" where
  "transport_connect env self = Some (ne_connect env, record_event TransportConnect self)"

text \<open>\<^verbatim>\<open>wireEncode\<close> and \<^verbatim>\<open>wireDecode\<close> of packets in this environment.\<close>

definition encodeInterest :: "'k node_env \<Rightarrow> nat \<Rightarrow> interest \<Rightarrow> ((bytes \<times> nat \<times> nat) result \<times> interest) option" where
  "encodeInterest env wireFormat =
     Interest_wireEncode (Tlv_encodeInterest (ne_formats env) (\<lambda>pass. ne_random env (of_bool pass))) (f_default (ne_formats env)) wireFormat"

definition decodeInterest :: "'k node_env \<Rightarrow> nat \<Rightarrow> bytes \<Rightarrow> interest \<Rightarrow> (exn option \<times> interest) option" where
  "decodeInterest env wireFormat =
     Interest_wireDecode (Tlv_decodeInterest (ne_formats env) (ne_defaultCanBePrefix env)) (f_default (ne_formats env)) wireFormat"

definition encodeData :: "'k node_env \<Rightarrow> nat \<Rightarrow> data \<Rightarrow> ((bytes \<times> nat \<times> nat) result \<times> data) option" where
  "encodeData env wireFormat = Data_wireEncode (f_encodeData (ne_formats env)) (f_default (ne_formats env)) wireFormat"

definition decodeData :: "'k node_env \<Rightarrow> nat \<Rightarrow> bytes \<Rightarrow> data \<Rightarrow> (exn option \<times> data) option" where
  "decodeData env wireFormat = Data_wireDecode (f_decodeData (ne_formats env)) (f_default (ne_formats env)) wireFormat"

definition fullName :: "'k node_env \<Rightarrow> data \<Rightarrow> (name result \<times> data) option" where
  "fullName env =
     Data_getFullName (ne_sha256 env) (f_encodeData (ne_formats env)) (f_default (ne_formats env)) (f_default (ne_formats env))"

definition Interest_new :: "'k node_env \<Rightarrow> interest" where
  "Interest_new env = Interest_of_name (ne_defaultCanBePrefix env) (ne_didSetDefaultCanBePrefix env) (Name_of [])"

definition pending :: "nat \<Rightarrow> 'k node \<Rightarrow> 'k callback pit_entry" where
  "pending ref self = pt_store (nd_pendingInterestTable self) ! ref"

section \<open>Small operations\<close>

definition getNextEntryId :: "'k node \<Rightarrow> u64 \<times> 'k node" where
  "getNextEntryId self = (nd_lastEntryId self + 1, self\<lparr>nd_lastEntryId := nd_lastEntryId self + 1\<rparr>)"

definition setInterestLoopbackEnabled :: "bool \<Rightarrow> 'k node \<Rightarrow> 'k node" where
  "setInterestLoopbackEnabled b self = self\<lparr>nd_interestLoopbackEnabled := b\<rparr>"

definition Node_removePendingInterest :: "u64 \<Rightarrow> 'k node \<Rightarrow> 'k node" where
  "Node_removePendingInterest pendingInterestId self =
     self\<lparr>nd_pendingInterestTable := removePendingInterest pendingInterestId (nd_pendingInterestTable self)\<rparr>"

definition Node_removeRegisteredPrefix :: "u64 \<Rightarrow> 'k node \<Rightarrow> 'k node" where
  "Node_removeRegisteredPrefix registeredPrefixId self =
     self\<lparr>nd_registeredPrefixTable := removeRegisteredPrefix registeredPrefixId (nd_registeredPrefixTable self)\<rparr>"

definition filters_apply :: "('k filter_table \<Rightarrow> 'k filter_table) \<Rightarrow> 'k node \<Rightarrow> 'k node" where
  "filters_apply f self =
     self\<lparr>nd_registeredPrefixTable := (nd_registeredPrefixTable self)\<lparr>rt_interestFilterTable :=
            f (rt_interestFilterTable (nd_registeredPrefixTable self))\<rparr>\<rparr>"

definition Node_setInterestFilter :: "u64 \<Rightarrow> interest_filter \<Rightarrow> 'k option \<Rightarrow> 'k node \<Rightarrow> 'k node" where
  "Node_setInterestFilter interestFilterId filterCopy onInterest =
     filters_apply (setInterestFilter interestFilterId filterCopy onInterest)"

definition Node_unsetInterestFilter :: "u64 \<Rightarrow> 'k node \<Rightarrow> 'k node" where
  "Node_unsetInterestFilter interestFilterId = filters_apply (unsetInterestFilter interestFilterId)"

definition Node_callLater :: "'k node_env \<Rightarrow> real \<Rightarrow> 'k later \<Rightarrow> 'k node \<Rightarrow> 'k node" where
  "Node_callLater env delayMilliseconds callback self =
     self\<lparr>nd_delayedCallTable := callLater (ne_now env) delayMilliseconds callback (nd_delayedCallTable self)\<rparr>"

definition Node_shutdown :: "'k node \<Rightarrow> 'k node" where
  "Node_shutdown = record_event TransportClose"

definition Node_makeCommandInterest :: "'k node_env \<Rightarrow> interest \<Rightarrow> 'k node \<Rightarrow> (unit result \<times> interest \<times> 'k node) option" where
  "Node_makeCommandInterest env interest self =
     map_option (\<lambda>(r, interest, gen). (r, interest, self\<lparr>nd_commandInterestGenerator := gen\<rparr>))
       (CommandInterestGenerator_generate (ne_sign env) (ne_now env) (ne_random env 0) interest
          (nd_commandInterestGenerator self))"

section \<open>Callbacks of the application and of the register response\<close>

text \<open>
  \<^verbatim>\<open>dispatchInterest\<close>: an empty callback throws, which is caught.
\<close>

definition call_onInterest :: "interest \<Rightarrow> lp_packet option \<Rightarrow> 'k filter_entry \<Rightarrow> 'k node \<Rightarrow> 'k node" where
  "call_onInterest interest lpPacket entry self =
     (case fe_onInterest entry of
        None \<Rightarrow> self
      | Some k \<Rightarrow> record_event (CalledOnInterest k (fe_prefix entry) interest (fe_interestFilterId entry) (fe_filter entry) lpPacket) self)"

definition dispatchInterest :: "'k node_env \<Rightarrow> interest \<Rightarrow> lp_packet option \<Rightarrow> 'k node \<Rightarrow> (unit result \<times> 'k node) option" where
  "dispatchInterest env interest lpPacket self =
     (case getMatchedFilters (ne_regexMatch env) (cc_target (i_name interest))
             (rt_interestFilterTable (nd_registeredPrefixTable self)) [] of
        Inl e \<Rightarrow> Some (Inl e, self)
      | Inr matchedFilters \<Rightarrow> Some (Inr (), fold (call_onInterest interest lpPacket) matchedFilters self))"

definition call_onRegisterFailed :: "'k register_info \<Rightarrow> 'k node \<Rightarrow> 'k node" where
  "call_onRegisterFailed info self =
     (case ri_onRegisterFailed info of
        None \<Rightarrow> self
      | Some k \<Rightarrow> record_event (CalledOnRegisterFailed k (ri_prefix info)) self)"

text \<open>The end of the register response, when NFD has answered with success.\<close>

definition call_onRegisterSuccess :: "'k register_info \<Rightarrow> 'k node \<Rightarrow> 'k node" where
  "call_onRegisterSuccess info self =
     (case ri_onRegisterSuccess info of
        None \<Rightarrow> self
      | Some k \<Rightarrow> record_event (CalledOnRegisterSuccess k (ri_prefix info) (ri_registeredPrefixId info)) self)"

definition register_success :: "'k register_info \<Rightarrow> 'k node \<Rightarrow> 'k node" where
  "register_success info self =
     (if ri_registeredPrefixId info \<noteq> 0
      then (let (interestFilterId, self) =
                  (if ri_onInterest info \<noteq> None
                   then (let (interestFilterId, self) = getNextEntryId self
                         in (interestFilterId,
                             Node_setInterestFilter interestFilterId (InterestFilter_of_prefix (ri_prefix info)) (ri_onInterest info) self))
                   else (0, self));
                (added, table) = RegisteredPrefixTable_add (ri_registeredPrefixId info) (ri_prefix info) interestFilterId
                                   (nd_registeredPrefixTable self);
                self = self\<lparr>nd_registeredPrefixTable := table\<rparr>
            in if \<not> added
               then (if interestFilterId > 0 then Node_unsetInterestFilter interestFilterId self else self)
               else call_onRegisterSuccess info self)
      else call_onRegisterSuccess info self)"

text \<open>
  The register response as an \<^verbatim>\<open>OnData\<close>.  Only a \<^verbatim>\<open>runtime_error\<close> of the decoder is caught here; anything else is caught by the
  caller.
\<close>

definition RegisterResponse_onData :: "'k register_info \<Rightarrow> data \<Rightarrow> 'k node \<Rightarrow> 'k node option" where
  "RegisterResponse_onData info responseData self =
     map_option (\<lambda>decoded.
       case decoded of
         Inl (RuntimeError _) \<Rightarrow> call_onRegisterFailed info self
       | Inl _ \<Rightarrow> self
       | Inr controlResponse \<Rightarrow>
           if cr_statusCode controlResponse \<noteq> 200 then call_onRegisterFailed info self
           else register_success info self)
       (Tlv_decodeControlResponse (blob_bytes (dt_content responseData)))"

text \<open>The register response as an \<^verbatim>\<open>OnTimeout\<close>.\<close>

definition RegisterResponse_onTimeout :: "'k register_info \<Rightarrow> 'k node \<Rightarrow> 'k node" where
  "RegisterResponse_onTimeout info self = call_onRegisterFailed info self"

definition call_onData :: "data \<Rightarrow> lp_packet option \<Rightarrow> nat \<Rightarrow> 'k node \<Rightarrow> 'k node option" where
  "call_onData data lpPacket ref self =
     (case pe_onData (pending ref self) of
        None \<Rightarrow> Some self
      | Some cb \<Rightarrow>
          let self = record_event (CalledOnData ref cb (pe_interest (pending ref self)) data lpPacket) self
          in case cb of
               App _ \<Rightarrow> Some self
             | RegisterResponse info \<Rightarrow> RegisterResponse_onData info data self)"

fun call_onData_all :: "data \<Rightarrow> lp_packet option \<Rightarrow> nat list \<Rightarrow> 'k node \<Rightarrow> 'k node option" where
  "call_onData_all data lpPacket [] self = Some self"
| "call_onData_all data lpPacket (ref # refs) self =
     Option.bind (call_onData data lpPacket ref self) (call_onData_all data lpPacket refs)"

text \<open>\<^verbatim>\<open>PendingInterestTable::Entry::callTimeout\<close>, and the call of \<^verbatim>\<open>getOnNetworkNack()\<close>.\<close>

definition callTimeout :: "nat \<Rightarrow> 'k node \<Rightarrow> 'k node" where
  "callTimeout ref self =
     (case pe_onTimeout (pending ref self) of
        None \<Rightarrow> self
      | Some cb \<Rightarrow>
          let self = record_event (CalledOnTimeout ref cb (pe_interest (pending ref self))) self
          in case cb of
               App _ \<Rightarrow> self
             | RegisterResponse info \<Rightarrow> RegisterResponse_onTimeout info self)"

definition call_onNetworkNack :: "network_nack \<Rightarrow> nat \<Rightarrow> 'k node \<Rightarrow> 'k node" where
  "call_onNetworkNack networkNack ref self =
     (case pe_onNetworkNack (pending ref self) of
        None \<Rightarrow> self
      | Some cb \<Rightarrow> record_event (CalledOnNetworkNack ref cb (pe_interest (pending ref self)) networkNack) self)"

section \<open>Data\<close>

definition extractExpressed :: "'k node_env \<Rightarrow> data \<Rightarrow> 'k node \<Rightarrow> (nat list result \<times> data \<times> 'k node) option" where
  "extractExpressed env data self =
     map_option (\<lambda>(r, data, table). (r, data, self\<lparr>nd_pendingInterestTable := table\<rparr>))
       (extractEntriesForExpressedInterest (fullName env) data (nd_pendingInterestTable self))"

text \<open>\<^verbatim>\<open>satisfyPendingInterests\<close> for a Data packet received, and for one that the application puts.\<close>

definition satisfyPendingInterests_received ::
  "'k node_env \<Rightarrow> data \<Rightarrow> lp_packet option \<Rightarrow> 'k node \<Rightarrow> (unit result \<times> 'k node) option" where
  "satisfyPendingInterests_received env data lpPacket self =
     (case extractExpressed env data self of
        None \<Rightarrow> None
      | Some (Inl e, _, self) \<Rightarrow> Some (Inl e, self)
      | Some (Inr pitEntries, data, self) \<Rightarrow>
          map_option (\<lambda>self. (Inr (), self)) (call_onData_all data lpPacket pitEntries self))"

definition satisfyPendingInterests_put :: "'k node_env \<Rightarrow> data \<Rightarrow> 'k node \<Rightarrow> (bool result \<times> data \<times> 'k node) option" where
  "satisfyPendingInterests_put env data self =
     (case extractExpressed env data self of
        None \<Rightarrow> None
      | Some (Inl e, data, self) \<Rightarrow> Some (Inl e, data, self)
      | Some (Inr pitEntries, data, self) \<Rightarrow>
          if pitEntries = [] then Some (Inr False, data, self)
          else let (data, dataCopy) = Data_copy data
               in map_option (\<lambda>self. (Inr True, data, self)) (call_onData_all dataCopy None pitEntries self))"

definition Node_send :: "'k node_env \<Rightarrow> bytes \<Rightarrow> 'k node \<Rightarrow> (unit result \<times> 'k node) option" where
  "Node_send env encoding self =
     (if length encoding > MAX_NDN_PACKET_SIZE
      then throwN ''The encoded packet size exceeds the maximum limit getMaxNdnPacketSize()'' self
      else transport_send env encoding self)"

definition Node_putData :: "'k node_env \<Rightarrow> nat \<Rightarrow> data \<Rightarrow> 'k node \<Rightarrow> (unit result \<times> data \<times> 'k node) option" where
  "Node_putData env wireFormat data self =
     bindR (if nd_interestLoopbackEnabled self then satisfyPendingInterests_put env data self
            else Some (Inr False, data, self)) (\<lambda>hasApplicationMatch (data, self).
       if hasApplicationMatch then Some (Inr (), data, self)
       else bindR (map_option (\<lambda>(r, data). (r, data, self)) (encodeData env wireFormat data)) (\<lambda>(encoding, _, _) (data, self).
            if length encoding > MAX_NDN_PACKET_SIZE
            then throwN ''The encoded Data packet size exceeds the maximum limit getMaxNdnPacketSize()'' (data, self)
            else map_option (\<lambda>(r, self). (r, data, self)) (Node_send env encoding self)))"

text \<open>The Interest of a Nack is encoded in both passes of the encoder.\<close>

definition Node_putNack :: "'k node_env \<Rightarrow> network_nack \<Rightarrow> interest \<Rightarrow> 'k node \<Rightarrow> (unit result \<times> interest \<times> 'k node) option" where
  "Node_putNack env networkNack interest self =
     bindR (map_option (\<lambda>(r, interest). (r, interest, self)) (encodeInterest env (ne_TlvWireFormat env) interest)) (\<lambda>(pass1, _, _) (interest, self).
     bindR (map_option (\<lambda>(r, interest). (r, interest, self)) (encodeInterest env (ne_TlvWireFormat env) interest)) (\<lambda>(pass2, _, _) (interest, self).
       case encodeLpNack networkNack (\<lambda>enabled. if enabled then pass2 else pass1) of
         Inl e \<Rightarrow> Some (Inl e, interest, self)
       | Inr encoding \<Rightarrow>
           if length encoding > MAX_NDN_PACKET_SIZE
           then throwN ''The encoded Nack packet size exceeds the maximum limit getMaxNdnPacketSize()'' (interest, self)
           else map_option (\<lambda>(r, self). (r, interest, self)) (Node_send env encoding self)))"

section \<open>Expressing an Interest\<close>

text \<open>The two parts of \<^verbatim>\<open>expressInterestHelper\<close> for an Interest in the table: its timeout, and sending it.\<close>

definition set_timeout :: "'k node_env \<Rightarrow> nat \<Rightarrow> interest \<Rightarrow> 'k callback option \<Rightarrow> 'k node \<Rightarrow> 'k node" where
  "set_timeout env ref interestCopy onTimeout self =
     (let lifetime = i_interestLifetimeMilliseconds interestCopy in
      if onTimeout \<noteq> None \<or> lifetime \<ge> 0
      then Node_callLater env (if lifetime < 0 then 4000 else lifetime) (InterestTimeout ref) self
      else self)"

definition send_interest :: "'k node_env \<Rightarrow> nat \<Rightarrow> interest \<Rightarrow> nat \<Rightarrow> 'k node \<Rightarrow> (unit result \<times> 'k node) option" where
  "send_interest env ref interestCopy wireFormat self =
     (if Name_match (nd_timeoutPrefix self) (cc_target (i_name interestCopy)) then Some (Inr (), self)
      else bindR (map_option (\<lambda>(r, interest).
                    (r, self\<lparr>nd_pendingInterestTable := Entry_setInterest ref interest (nd_pendingInterestTable self)\<rparr>))
                   (encodeInterest env wireFormat interestCopy)) (\<lambda>(encoding, _, _) self.
             if length encoding > MAX_NDN_PACKET_SIZE
             then throwN ''The encoded interest size exceeds the maximum limit getMaxNdnPacketSize()'' self
             else bindR (transport_send env encoding self) (\<lambda>_ self.
                    if nd_interestLoopbackEnabled self
                    then dispatchInterest env (pe_interest (pending ref self)) None self
                    else Some (Inr (), self))))"

definition expressInterestHelper ::
  "'k node_env \<Rightarrow> u64 \<Rightarrow> interest \<Rightarrow> 'k callback option \<Rightarrow> 'k callback option \<Rightarrow> 'k callback option \<Rightarrow> nat \<Rightarrow> 'k node \<Rightarrow>
   (unit result \<times> 'k node) option" where
  "expressInterestHelper env pendingInterestId interestCopy onData onTimeout onNetworkNack wireFormat self =
     (let (pendingInterest, table) = PendingInterestTable_add pendingInterestId interestCopy onData onTimeout onNetworkNack
                                       (nd_pendingInterestTable self);
          self = self\<lparr>nd_pendingInterestTable := table\<rparr> in
      case pendingInterest of
        None \<Rightarrow> Some (Inr (), self)
      | Some ref \<Rightarrow> send_interest env ref interestCopy wireFormat (set_timeout env ref interestCopy onTimeout self))"

text \<open>The nonce that \<^verbatim>\<open>expressInterest\<close> gives to an Interest without one.\<close>

definition fill_nonce :: "'k node_env \<Rightarrow> interest \<Rightarrow> (unit result \<times> interest) option" where
  "fill_nonce env interestCopy =
     (let (nonce, interestCopy) = Interest_getNonce interestCopy in
      if blob_size nonce = 0
      then map_option (\<lambda>(e, interest). (case e of None \<Rightarrow> Inr () | Some e \<Rightarrow> Inl e, interest))
             (Interest_refreshNonce (ne_random env) (Interest_setNonce (Some nonceTemplate) interestCopy))
      else Some (Inr (), interestCopy))"

definition push_connected :: "'k connected_call \<Rightarrow> 'k node \<Rightarrow> 'k node" where
  "push_connected call self = self\<lparr>nd_onConnectedCallbacks := nd_onConnectedCallbacks self @ [call]\<rparr>"

definition Node_expressInterest ::
  "'k node_env \<Rightarrow> u64 \<Rightarrow> interest \<Rightarrow> 'k callback option \<Rightarrow> 'k callback option \<Rightarrow> 'k callback option \<Rightarrow> nat \<Rightarrow> 'k node \<Rightarrow>
   (unit result \<times> 'k node) option" where
  "Node_expressInterest env pendingInterestId interestCopy onData onTimeout onNetworkNack wireFormat self =
     bindR (map_option (\<lambda>(r, interest). (map_sum id (\<lambda>_. interest) r, self)) (fill_nonce env interestCopy)) (\<lambda>interestCopy self.
       let call = \<lparr>oc_pendingInterestId = pendingInterestId, oc_interestCopy = interestCopy, oc_onData = onData,
                   oc_onTimeout = onTimeout, oc_onNetworkNack = onNetworkNack, oc_wireFormat = wireFormat\<rparr> in
       if nd_connectStatus self = ConnectStatus_CONNECT_COMPLETE
       then expressInterestHelper env pendingInterestId interestCopy onData onTimeout onNetworkNack wireFormat self
       else if \<not> ne_isAsync env
       then bindR (transport_connect env self) (\<lambda>_ self.
            bindR (expressInterestHelper env pendingInterestId interestCopy onData onTimeout onNetworkNack wireFormat self) (\<lambda>_ self.
              Some (Inr (), self\<lparr>nd_connectStatus := ConnectStatus_CONNECT_COMPLETE\<rparr>)))
       else if nd_connectStatus self = ConnectStatus_UNCONNECTED
       then transport_connect env (push_connected call (self\<lparr>nd_connectStatus := ConnectStatus_CONNECT_REQUESTED\<rparr>))
       else Some (Inr (), push_connected call self))"

text \<open>The callbacks of \<^verbatim>\<open>onConnected\<close>; what one throws leaves the loop.\<close>

fun onConnected_loop :: "'k node_env \<Rightarrow> 'k connected_call list \<Rightarrow> 'k node \<Rightarrow> (unit result \<times> 'k node) option" where
  "onConnected_loop env [] self = Some (Inr (), self)"
| "onConnected_loop env (c # calls) self =
     bindR (expressInterestHelper env (oc_pendingInterestId c) (oc_interestCopy c) (oc_onData c) (oc_onTimeout c)
              (oc_onNetworkNack c) (oc_wireFormat c) self) (\<lambda>_. onConnected_loop env calls)"

definition onConnected :: "'k node_env \<Rightarrow> 'k node \<Rightarrow> (unit result \<times> 'k node) option" where
  "onConnected env self =
     bindR (onConnected_loop env (nd_onConnectedCallbacks self) self) (\<lambda>_ self.
       Some (Inr (), self\<lparr>nd_onConnectedCallbacks := [], nd_connectStatus := ConnectStatus_CONNECT_COMPLETE\<rparr>))"

section \<open>Registering a prefix\<close>

definition nfdRegisterPrefix ::
  "'k node_env \<Rightarrow> bool \<Rightarrow> name \<Rightarrow> u64 \<Rightarrow> name \<Rightarrow> 'k option \<Rightarrow> 'k option \<Rightarrow> 'k option \<Rightarrow> registration_options \<Rightarrow> nat \<Rightarrow> 'k node \<Rightarrow>
   (unit result \<times> 'k node) option" where
  "nfdRegisterPrefix env hasKeyChain commandCertificateName registeredPrefixId prefix onInterest onRegisterFailed onRegisterSuccess
     registrationOptions wireFormat self =
     (if \<not> hasKeyChain
      then throwN ''registerPrefix: The command KeyChain has not been set. You must call setCommandSigningInfo.'' self
      else if Name_size commandCertificateName = 0
      then throwN ''registerPrefix: The command certificate name has not been set. You must call setCommandSigningInfo.'' self
      else
        let controlParameters = ControlParameters_setForwardingFlags registrationOptions
                                  (ControlParameters_setName prefix ControlParameters_new);
            controlParameters = (if ro_origin registrationOptions \<ge> 0
              then (let controlParameters = ControlParameters_setOrigin (ro_origin registrationOptions) controlParameters
                    in controlParameters\<lparr>cp_flags := (cp_flags controlParameters)\<lparr>ro_origin := -1\<rparr>\<rparr>)
              else controlParameters);
            commandInterest = Interest_setMustBeFresh True (Interest_setCanBePrefix True (Interest_new env));
            commandInterest = (if ne_isLocal env
              then Interest_setInterestLifetimeMilliseconds 2000
                     (Interest_setName (snd (Name_set (str ''/localhost/nfd/rib/register'') (Name_of []))) commandInterest)
              else Interest_setInterestLifetimeMilliseconds 4000
                     (Interest_setName (snd (Name_set (str ''/localhop/nfd/rib/register'') (Name_of []))) commandInterest))
        in case Tlv_encodeControlParameters controlParameters of
             Inl e \<Rightarrow> Some (Inl e, self)
           | Inr encoding \<Rightarrow>
               let commandInterest = Interest_getName_apply (Name_append_generic encoding) commandInterest in
               bindR (map_option (\<lambda>(r, interest, self). (map_sum id (\<lambda>_. interest) r, self))
                        (Node_makeCommandInterest env commandInterest self)) (\<lambda>commandInterest self.
                 let info = \<lparr>ri_prefix = prefix, ri_onRegisterFailed = onRegisterFailed, ri_onRegisterSuccess = onRegisterSuccess,
                             ri_registeredPrefixId = registeredPrefixId, ri_onInterest = onInterest\<rparr>;
                     (pendingInterestId, self) = getNextEntryId self
                 in Node_expressInterest env pendingInterestId commandInterest (Some (RegisterResponse info))
                      (Some (RegisterResponse info)) None wireFormat self))"

definition Node_registerPrefix ::
  "'k node_env \<Rightarrow> bool \<Rightarrow> name \<Rightarrow> u64 \<Rightarrow> name \<Rightarrow> 'k option \<Rightarrow> 'k option \<Rightarrow> 'k option \<Rightarrow> registration_options \<Rightarrow> nat \<Rightarrow> 'k node \<Rightarrow>
   (unit result \<times> 'k node) option" where
  "Node_registerPrefix = nfdRegisterPrefix"

section \<open>Receiving\<close>

text \<open>
  The head of \<^verbatim>\<open>onReceivedElement\<close>: the LpPacket, if it is one, with the bytes of the packet inside and the byte that
  \<^verbatim>\<open>element[0]\<close> reads.  The fragment of an LpPacket without one is the null pointer.
\<close>

definition unwrap_element :: "bytes \<Rightarrow> (lp_packet option \<times> byte \<times> bytes) result option" where
  "unwrap_element element =
     (if element = [] then None
      else if (ucast (element ! 0) :: u32) = ndn_Tlv_LpPacket_LpPacket
      then Option.bind (ndn_Tlv0_2WireFormat_decodeLpPacket 5 element)
             (case_sum (\<lambda>e. Some (throwC (Inl e)))
               (\<lambda>(lite, _).
                 Option.bind (clp_fragmentWireEncoding lite) (\<lambda>fragment.
                 Option.bind (slice_bytes element fragment) (\<lambda>bytes.
                 Option.bind (LpPacket_set element (lite\<lparr>clp_fragmentWireEncoding := None\<rparr>)) (\<lambda>lpPacket.
                   if unat (sl_offset fragment) < length element
                   then Some (Inr (Some lpPacket, element ! unat (sl_offset fragment), bytes))
                   else None)))))
      else Some (Inr (None, element ! 0, element)))"

text \<open>\<^verbatim>\<open>peekType\<close> on a decoder for the whole element.\<close>

definition peek_element :: "u32 \<Rightarrow> bytes \<Rightarrow> bool result option" where
  "peek_element type element =
     map_option (\<lambda>r. throwC (map_sum id fst r)) (peekType type (inputLength element) element 0)"

datatype packet = InterestPacket interest | DataPacket data | UnknownPacket

definition raise :: "exn option \<Rightarrow> 'a \<Rightarrow> 'a result" where
  "raise e x = (case e of None \<Rightarrow> Inr x | Some e \<Rightarrow> Inl e)"

definition decodePacket :: "'k node_env \<Rightarrow> byte \<Rightarrow> bytes \<Rightarrow> packet result option" where
  "decodePacket env element0 element =
     (if (ucast element0 :: u32) = ndn_Tlv_Interest \<or> (ucast element0 :: u32) = ndn_Tlv_Data
      then Option.bind (peek_element ndn_Tlv_Interest element) (case_sum (\<lambda>e. Some (Inl e)) (\<lambda>isInterest.
             if isInterest
             then map_option (\<lambda>(e, interest). raise e (InterestPacket interest))
                    (decodeInterest env (ne_TlvWireFormat env) element (Interest_new env))
             else Option.bind (peek_element ndn_Tlv_Data element) (case_sum (\<lambda>e. Some (Inl e)) (\<lambda>isData.
                    if isData
                    then map_option (\<lambda>(e, data). raise e (DataPacket data))
                           (decodeData env (ne_TlvWireFormat env) element Data_new)
                    else Some (Inr UnknownPacket)))))
      else Some (Inr UnknownPacket))"

definition receive_nack :: "'k node_env \<Rightarrow> network_nack \<Rightarrow> interest \<Rightarrow> 'k node \<Rightarrow> (unit result \<times> 'k node) option" where
  "receive_nack env networkNack interest self =
     map_option (\<lambda>(r, table).
       let self = self\<lparr>nd_pendingInterestTable := table\<rparr> in
       case r of
         Inl e \<Rightarrow> (Inl e, self)
       | Inr pitEntries \<Rightarrow> (Inr (), fold (call_onNetworkNack networkNack) pitEntries self))
       (extractEntriesForNackInterest (encodeInterest env (f_default (ne_formats env))) interest (nd_pendingInterestTable self))"

definition receive_packet :: "'k node_env \<Rightarrow> lp_packet option \<Rightarrow> packet \<Rightarrow> 'k node \<Rightarrow> (unit result \<times> 'k node) option" where
  "receive_packet env lpPacket packet self =
     (case Option.bind lpPacket NetworkNack_getFirstHeader of
        Some networkNack \<Rightarrow>
          (case packet of InterestPacket interest \<Rightarrow> receive_nack env networkNack interest self | _ \<Rightarrow> Some (Inr (), self))
      | None \<Rightarrow>
          (case packet of
             InterestPacket interest \<Rightarrow> dispatchInterest env interest lpPacket self
           | DataPacket data \<Rightarrow> satisfyPendingInterests_received env data lpPacket self
           | UnknownPacket \<Rightarrow> Some (Inr (), self)))"

definition onReceivedElement :: "'k node_env \<Rightarrow> bytes \<Rightarrow> 'k node \<Rightarrow> (unit result \<times> 'k node) option" where
  "onReceivedElement env element self =
     Option.bind (unwrap_element element) (case_sum (\<lambda>e. Some (Inl e, self)) (\<lambda>(lpPacket, element0, element).
     Option.bind (decodePacket env element0 element) (case_sum (\<lambda>e. Some (Inl e, self)) (\<lambda>packet.
       receive_packet env lpPacket packet self))))"

section \<open>Time\<close>

definition processInterestTimeout :: "nat \<Rightarrow> 'k node \<Rightarrow> 'k node" where
  "processInterestTimeout ref self =
     (let (removed, table) = removeEntry ref (nd_pendingInterestTable self);
          self = self\<lparr>nd_pendingInterestTable := table\<rparr>
      in if removed then callTimeout ref self else self)"

definition run_later :: "'k node_env \<Rightarrow> 'k later \<Rightarrow> 'k node \<Rightarrow> (unit result \<times> 'k node) option" where
  "run_later env c self =
     (case c of
        InterestTimeout ref \<Rightarrow> Some (Inr (), processInterestTimeout ref self)
      | AppLater k \<Rightarrow> Some (ne_later env k, record_event (CalledLater k) self))"

text \<open>
  \<^verbatim>\<open>processEvents\<close>: \<^verbatim>\<open>received\<close> are the elements that \<^verbatim>\<open>transport_->processEvents()\<close> passes to \<^verbatim>\<open>onReceivedElement\<close>.
\<close>

fun receive_all :: "'k node_env \<Rightarrow> bytes list \<Rightarrow> 'k node \<Rightarrow> (unit result \<times> 'k node) option" where
  "receive_all env [] self = Some (Inr (), self)"
| "receive_all env (element # elements) self =
     bindR (onReceivedElement env element self) (\<lambda>_. receive_all env elements)"

definition Node_processEvents :: "'k node_env \<Rightarrow> bytes list \<Rightarrow> 'k node \<Rightarrow> (unit result \<times> 'k node) option" where
  "Node_processEvents env received self =
     bindR (receive_all env received self) (\<lambda>_.
       callTimedOut nd_delayedCallTable (\<lambda>table self. self\<lparr>nd_delayedCallTable := table\<rparr>) (run_later env) (ne_now env) 0)"

end
