(* ===== verification/NodeInvariants.thy ===== *)
theory NodeInvariants
  imports NodeModel
begin

text \<open>
  The invariant of the node: a pending interest is completed at most once (by Data, by a timeout or by a network Nack), and one that
  was cancelled is not completed at all.  It holds in every state the node can reach, by any sequence of operations, in any
  environment.
\<close>

lemma leaves_throwN [leaves]: "P s \<Longrightarrow> leaves (throwN msg s) P"
  by (simp add: leaves_def throwN_def)

section \<open>Completions\<close>

fun completes :: "nat \<Rightarrow> 'k node_event \<Rightarrow> bool" where
  "completes ref (CalledOnData r _ _ _ _) = (r = ref)"
| "completes ref (CalledOnTimeout r _ _) = (r = ref)"
| "completes ref (CalledOnNetworkNack r _ _ _) = (r = ref)"
| "completes ref _ = False"

definition completions :: "nat \<Rightarrow> 'k node \<Rightarrow> nat" where
  "completions ref self = length (filter (completes ref) (nd_events self))"

definition waiting :: "'k node \<Rightarrow> nat list" where
  "waiting self = pt_table (nd_pendingInterestTable self)"

definition entries :: "'k node \<Rightarrow> nat" where
  "entries self = length (pt_store (nd_pendingInterestTable self))"

definition timeouts_ok :: "'k node \<Rightarrow> bool" where
  "timeouts_ok self \<longleftrightarrow>
     (\<forall>e \<in> set (nd_delayedCallTable self). \<forall>ref. dc_callback e = InterestTimeout ref \<longrightarrow> ref < entries self)"

text \<open>A pending interest with a timeout callback has its timeout in the delayed call table.\<close>

definition times_out :: "'k node \<Rightarrow> bool" where
  "times_out self \<longleftrightarrow>
     (\<forall>ref \<in> set (waiting self). pe_onTimeout (pending ref self) \<noteq> None \<longrightarrow>
        InterestTimeout ref \<in> dc_callback ` set (nd_delayedCallTable self))"

definition node_inv :: "'k node \<Rightarrow> bool" where
  "node_inv self \<longleftrightarrow>
     pit_wf (nd_pendingInterestTable self) \<and> timeouts_ok self \<and> times_out self \<and> table_sorted delayed_less (nd_delayedCallTable self) \<and>
     (\<forall>ref. completions ref self \<le> 1) \<and>
     (\<forall>ref. ref \<in> set (waiting self) \<or> entries self \<le> ref \<longrightarrow> completions ref self = 0)"

text \<open>A step of the node: it keeps the invariant, and what has left the table neither comes back nor is completed.\<close>

definition node_next :: "'k node \<Rightarrow> 'k node \<Rightarrow> bool" where
  "node_next s s' \<longleftrightarrow> (node_inv s \<longrightarrow>
     node_inv s' \<and> pit_after (nd_pendingInterestTable s) (nd_pendingInterestTable s') \<and>
     (\<forall>ref < entries s. ref \<notin> set (waiting s) \<longrightarrow> completions ref s' = completions ref s))"

lemma node_next_refl [simp]: "node_next s s"
  by (simp add: node_next_def)

lemma node_next_trans: "node_next s s' \<Longrightarrow> node_next s' s'' \<Longrightarrow> node_next s s''"
  unfolding node_next_def entries_def waiting_def
  by (metis order_less_le_trans pit_after_def pit_after_trans)

lemma node_next_bind [leaves]:
  assumes "leaves m (node_next s)" and "\<And>x s'. leaves (f x s') (node_next s')"
  shows "leaves (bindR m f) (node_next s)"
  using assms(1)
proof (rule leaves_bind)
  fix x s' assume "node_next s s'"
  with assms(2) [of x s'] show "leaves (f x s') (node_next s)" by (auto simp: leaves_def intro: node_next_trans)
qed

lemma node_next_via: "node_next s s1 \<Longrightarrow> leaves m (node_next s1) \<Longrightarrow> leaves m (node_next s)"
  by (auto simp: leaves_def intro: node_next_trans)

text \<open>Operations that change neither the pending interests nor the timeouts, and complete nothing.\<close>

definition same_pending :: "'k node \<Rightarrow> 'k node \<Rightarrow> bool" where
  "same_pending s s' \<longleftrightarrow>
     nd_pendingInterestTable s' = nd_pendingInterestTable s \<and> nd_delayedCallTable s' = nd_delayedCallTable s \<and>
     (\<forall>ref. completions ref s' = completions ref s)"

lemma same_pending_refl [simp]: "same_pending s s"
  by (simp add: same_pending_def)

lemma same_pending_trans: "same_pending s s' \<Longrightarrow> same_pending s' s'' \<Longrightarrow> same_pending s s''"
  by (simp add: same_pending_def)

lemma same_pending_next: "same_pending s s' \<Longrightarrow> node_next s s'"
  by (simp add: same_pending_def node_next_def node_inv_def timeouts_ok_def times_out_def waiting_def entries_def pending_def)

lemma completions_record [simp]:
  "completions ref (record_event ev s) = completions ref s + (if completes ref ev then 1 else 0)"
  by (simp add: completions_def record_event_def)

lemma completions_updates [simp]:
  "completions ref (s\<lparr>nd_pendingInterestTable := p\<rparr>) = completions ref s"
  "completions ref (s\<lparr>nd_registeredPrefixTable := t\<rparr>) = completions ref s"
  "completions ref (s\<lparr>nd_delayedCallTable := d\<rparr>) = completions ref s"
  "completions ref (s\<lparr>nd_onConnectedCallbacks := c\<rparr>) = completions ref s"
  "completions ref (s\<lparr>nd_commandInterestGenerator := g\<rparr>) = completions ref s"
  "completions ref (s\<lparr>nd_connectStatus := st\<rparr>) = completions ref s"
  "completions ref (s\<lparr>nd_interestLoopbackEnabled := b\<rparr>) = completions ref s"
  "completions ref (s\<lparr>nd_lastEntryId := n\<rparr>) = completions ref s"
  by (simp_all add: completions_def)

lemma record_fields [simp]:
  "nd_pendingInterestTable (record_event ev s) = nd_pendingInterestTable s"
  "nd_registeredPrefixTable (record_event ev s) = nd_registeredPrefixTable s"
  "nd_delayedCallTable (record_event ev s) = nd_delayedCallTable s"
  "nd_onConnectedCallbacks (record_event ev s) = nd_onConnectedCallbacks s"
  "nd_connectStatus (record_event ev s) = nd_connectStatus s"
  "nd_events (record_event ev s) = nd_events s @ [ev]"
  by (simp_all add: record_event_def)

lemma same_pending_record: "(\<And>ref. \<not> completes ref ev) \<Longrightarrow> same_pending s (record_event ev s)"
  by (simp add: same_pending_def)

lemma same_pending_fields:
  "nd_pendingInterestTable s' = nd_pendingInterestTable s \<Longrightarrow> nd_delayedCallTable s' = nd_delayedCallTable s \<Longrightarrow>
   nd_events s' = nd_events s \<Longrightarrow> same_pending s s'"
  by (simp add: same_pending_def completions_def)

lemma same_pending_small [simp]:
  "same_pending s (snd (getNextEntryId s))"
  "same_pending s (setInterestLoopbackEnabled b s)"
  "same_pending s (Node_removeRegisteredPrefix k s)"
  "same_pending s (Node_setInterestFilter k f cb s)"
  "same_pending s (Node_unsetInterestFilter k s)"
  "same_pending s (Node_shutdown s)"
  "same_pending s (push_connected c s)"
  by (simp_all add: same_pending_def getNextEntryId_def setInterestLoopbackEnabled_def Node_removeRegisteredPrefix_def
      Node_setInterestFilter_def Node_unsetInterestFilter_def filters_apply_def Node_shutdown_def push_connected_def)

lemma same_pending_fold: "(\<And>x s. same_pending s (f x s)) \<Longrightarrow> same_pending s (fold f xs s)"
  by (induction xs arbitrary: s) (auto intro: same_pending_trans)

lemma same_onInterest: "same_pending s (call_onInterest i lp e s)"
  by (simp add: call_onInterest_def same_pending_def split: option.split)

lemma same_register:
  "same_pending s (call_onRegisterFailed info s)" "same_pending s (call_onRegisterSuccess info s)"
  by (simp_all add: call_onRegisterFailed_def call_onRegisterSuccess_def same_pending_def split: option.split)

lemma same_register_success: "same_pending s (register_success info s)"
  by (auto simp: register_success_def Let_def same_register same_pending_def getNextEntryId_def Node_setInterestFilter_def
      Node_unsetInterestFilter_def filters_apply_def call_onRegisterSuccess_def split: prod.split option.split)

lemma same_RegisterResponse_onData: "RegisterResponse_onData info d s = Some s' \<Longrightarrow> same_pending s s'"
  unfolding RegisterResponse_onData_def map_option_eq_Some
proof (elim exE conjE)
  fix decoded
  assume "(case decoded of Inl (RuntimeError _) \<Rightarrow> call_onRegisterFailed info s | Inl _ \<Rightarrow> s
     | Inr r \<Rightarrow> if cr_statusCode r \<noteq> 200 then call_onRegisterFailed info s else register_success info s) = s'"
  then show "same_pending s s'"
    by (cases decoded) (auto simp: same_register same_register_success split: exn.splits if_splits)
qed

lemma dispatch_next [leaves]: "leaves (dispatchInterest env i lp s) (node_next s)"
  by (auto simp: dispatchInterest_def leaves_def split: sum.splits
      intro!: same_pending_next same_pending_fold same_onInterest)

lemma transport_next [leaves]:
  "leaves (transport_send env bs s) (node_next s)" "leaves (transport_connect env s) (node_next s)"
  by (simp_all add: leaves_def transport_send_def transport_connect_def same_pending_next same_pending_record)

lemma Node_send_next [leaves]: "leaves (Node_send env bs s) (node_next s)"
  unfolding Node_send_def by (intro leaves) simp

section \<open>Changes of the pending interest table\<close>

text \<open>A table operation by itself.\<close>

lemma pit_after_onTimeout:
  "pit_after t t' \<Longrightarrow> r < length (pt_store t) \<Longrightarrow> pe_onTimeout (pt_store t' ! r) = pe_onTimeout (pt_store t ! r)"
  by (auto simp: pit_after_def entry_fixed_def)

lemma table_next:
  assumes "pit_wf (nd_pendingInterestTable s) \<Longrightarrow>
      pit_wf t \<and> pit_after (nd_pendingInterestTable s) t \<and> set (pt_table t) \<subseteq> set (waiting s)"
  shows "node_next s (s\<lparr>nd_pendingInterestTable := t\<rparr>)"
  unfolding node_next_def
proof
  assume inv: "node_inv s"
  with assms(1) have t: "pit_wf t" "pit_after (nd_pendingInterestTable s) t" "set (pt_table t) \<subseteq> set (waiting s)"
    by (simp_all add: node_inv_def)
  then have le: "entries s \<le> length (pt_store t)" by (simp add: pit_after_def entries_def)
  have "completions ref s = 0" if "ref \<in> set (pt_table t) \<or> length (pt_store t) \<le> ref" for ref
    using that t(3) le inv by (auto simp: node_inv_def)
  moreover have "timeouts_ok (s\<lparr>nd_pendingInterestTable := t\<rparr>)"
    using inv le by (fastforce simp: node_inv_def timeouts_ok_def entries_def)
  moreover have "times_out (s\<lparr>nd_pendingInterestTable := t\<rparr>)"
    unfolding times_out_def
  proof (intro ballI impI)
    fix ref assume ref: "ref \<in> set (waiting (s\<lparr>nd_pendingInterestTable := t\<rparr>))"
      and ot: "pe_onTimeout (pending ref (s\<lparr>nd_pendingInterestTable := t\<rparr>)) \<noteq> None"
    have w: "ref \<in> set (waiting s)" using ref t(3) by (auto simp: waiting_def)
    then have "ref < length (pt_store (nd_pendingInterestTable s))"
      using inv by (auto simp: node_inv_def pit_wf_def waiting_def)
    from pit_after_onTimeout [OF t(2) this] w ot inv
    show "InterestTimeout ref \<in> dc_callback ` set (nd_delayedCallTable (s\<lparr>nd_pendingInterestTable := t\<rparr>))"
      by (auto simp: node_inv_def times_out_def pending_def)
  qed
  ultimately show "node_inv (s\<lparr>nd_pendingInterestTable := t\<rparr>) \<and>
      pit_after (nd_pendingInterestTable s) (nd_pendingInterestTable (s\<lparr>nd_pendingInterestTable := t\<rparr>)) \<and>
      (\<forall>ref < entries s. ref \<notin> set (waiting s) \<longrightarrow>
         completions ref (s\<lparr>nd_pendingInterestTable := t\<rparr>) = completions ref s)"
    using t inv by (simp add: node_inv_def waiting_def entries_def)
qed

lemma setInterest_next: "node_next s (s\<lparr>nd_pendingInterestTable := Entry_setInterest ref i (nd_pendingInterestTable s)\<rparr>)"
  by (rule table_next) (auto simp: setInterest_ok waiting_def)

lemma remove_next: "node_next s (Node_removePendingInterest k s)"
proof -
  have "set (pt_table (removePendingInterest k (nd_pendingInterestTable s))) \<subseteq> set (waiting s)"
    by (auto simp: waiting_def removePendingInterest_def Let_def)
  then show ?thesis
    unfolding Node_removePendingInterest_def by (intro table_next) (simp add: removePendingInterest_ok)
qed

lemma set_callLater: "set (callLater now d c tb) = insert (Entry_new now d c) (set tb)"
  by (simp add: callLater_def)

lemma later_next:
  assumes "\<And>ref. c = InterestTimeout ref \<Longrightarrow> ref < entries s"
  shows "node_next s (Node_callLater env delay c s)"
  unfolding node_next_def
proof
  assume inv: "node_inv s"
  let ?s = "Node_callLater env delay c s"
  have "timeouts_ok ?s" "times_out ?s"
    using inv assms by (auto simp: node_inv_def timeouts_ok_def times_out_def Node_callLater_def set_callLater Entry_new_def
        entries_def waiting_def pending_def)
  with inv show "node_inv ?s \<and> pit_after (nd_pendingInterestTable s) (nd_pendingInterestTable ?s) \<and>
      (\<forall>ref < entries s. ref \<notin> set (waiting s) \<longrightarrow> completions ref ?s = completions ref s)"
    by (simp add: node_inv_def Node_callLater_def waiting_def entries_def callLater_sorted)
qed

section \<open>Calls of the callbacks of extracted entries\<close>

definition completes_in :: "nat set \<Rightarrow> 'k node \<Rightarrow> 'k node \<Rightarrow> bool" where
  "completes_in R s s' \<longleftrightarrow>
     (\<forall>ref. completions ref s \<le> completions ref s' \<and> completions ref s' \<le> completions ref s + of_bool (ref \<in> R))"

definition calls_only :: "nat set \<Rightarrow> 'k node \<Rightarrow> 'k node \<Rightarrow> bool" where
  "calls_only R s s' \<longleftrightarrow>
     nd_pendingInterestTable s' = nd_pendingInterestTable s \<and> nd_delayedCallTable s' = nd_delayedCallTable s \<and>
     completes_in R s s'"

lemma calls_only_same: "same_pending s s' \<Longrightarrow> calls_only {} s s'"
  by (simp add: calls_only_def completes_in_def same_pending_def)

lemma calls_onlyD:
  assumes "calls_only R s s'"
  shows "completions ref s \<le> completions ref s'" and "completions ref s' \<le> completions ref s + of_bool (ref \<in> R)"
    and "ref \<notin> R \<Longrightarrow> completions ref s' = completions ref s"
proof -
  have *: "completions ref s \<le> completions ref s' \<and> completions ref s' \<le> completions ref s + of_bool (ref \<in> R)"
    using assms unfolding calls_only_def completes_in_def by blast
  then show "completions ref s \<le> completions ref s'" "completions ref s' \<le> completions ref s + of_bool (ref \<in> R)" by simp_all
  show "completions ref s' = completions ref s" if "ref \<notin> R" using * that by simp
qed

lemma calls_only_trans:
  assumes "calls_only R s s1" and "calls_only R' s1 s2" and "R \<inter> R' = {}"
  shows "calls_only (R \<union> R') s s2"
proof -
  have "completions ref s \<le> completions ref s2 \<and> completions ref s2 \<le> completions ref s + of_bool (ref \<in> R \<union> R')" for ref
    using calls_onlyD(1,2) [OF assms(1), of ref] calls_onlyD(1,2) [OF assms(2), of ref] assms(3)
    by (cases "ref \<in> R"; cases "ref \<in> R'") auto
  then have "completes_in (R \<union> R') s s2" unfolding completes_in_def by blast
  then show ?thesis using assms(1,2) by (simp add: calls_only_def)
qed

lemma calls_only_record: "(\<And>r. completes r ev \<longleftrightarrow> r = ref) \<Longrightarrow> calls_only {ref} s (record_event ev s)"
  by (simp add: calls_only_def completes_in_def)

text \<open>Entries that have just left the table may be completed.\<close>

lemma calls_next:
  assumes "node_next s s1" and "\<And>ref. completions ref s1 = completions ref s"
    and "node_inv s \<Longrightarrow> R \<subseteq> set (waiting s) \<and> R \<inter> set (waiting s1) = {}" and "calls_only R s1 s2"
  shows "node_next s s2"
  unfolding node_next_def
proof
  assume inv: "node_inv s"
  note R = assms(3) [OF inv]
  have s1: "node_inv s1" "pit_after (nd_pendingInterestTable s) (nd_pendingInterestTable s1)"
      "\<forall>ref < entries s. ref \<notin> set (waiting s) \<longrightarrow> completions ref s1 = completions ref s"
    using assms(1) inv by (simp_all add: node_next_def)
  have in_store: "ref < entries s" if "ref \<in> R" for ref
    using that R inv by (auto simp: node_inv_def pit_wf_def waiting_def entries_def)
  have eq: "entries s2 = entries s1" "waiting s2 = waiting s1" "nd_pendingInterestTable s2 = nd_pendingInterestTable s1"
      "nd_delayedCallTable s2 = nd_delayedCallTable s1"
    using assms(4) by (simp_all add: calls_only_def entries_def waiting_def)
  have le: "entries s \<le> entries s1" using s1(2) by (simp add: pit_after_def entries_def)
  show "node_inv s2 \<and> pit_after (nd_pendingInterestTable s) (nd_pendingInterestTable s2) \<and>
    (\<forall>ref < entries s. ref \<notin> set (waiting s) \<longrightarrow> completions ref s2 = completions ref s)"
  proof (intro conjI)
    show "pit_after (nd_pendingInterestTable s) (nd_pendingInterestTable s2)" using s1(2) eq by simp
    show "\<forall>ref < entries s. ref \<notin> set (waiting s) \<longrightarrow> completions ref s2 = completions ref s"
      using s1(3) R calls_onlyD(3) [OF assms(4)] by (metis subsetD)
    have "completions ref s2 \<le> 1" for ref
    proof (cases "ref \<in> R")
      case False
      then show ?thesis using s1(1) calls_onlyD(3) [OF assms(4)] by (simp add: node_inv_def)
    next
      case True
      have "completions ref s = 0" using True R inv by (auto simp: node_inv_def)
      moreover have "completions ref s2 \<le> completions ref s1 + 1" using calls_onlyD(2) [OF assms(4), of ref] True by simp
      ultimately show ?thesis using assms(2) [of ref] by simp
    qed
    moreover have "completions ref s2 = 0" if "ref \<in> set (waiting s2) \<or> entries s2 \<le> ref" for ref
    proof -
      have "ref \<notin> R" using that eq R in_store le by fastforce
      then have "completions ref s2 = completions ref s1" by (rule calls_onlyD(3) [OF assms(4)])
      then show ?thesis using that s1(1) eq unfolding node_inv_def by metis
    qed
    ultimately show "node_inv s2"
      using s1(1) eq by (simp add: node_inv_def timeouts_ok_def times_out_def pending_def)
  qed
qed

lemma calls_only_none: "calls_only R s s"
  by (simp add: calls_only_def completes_in_def)

lemma calls_only_then_same: "calls_only R s s1 \<Longrightarrow> same_pending s1 s2 \<Longrightarrow> calls_only R s s2"
  using calls_only_trans [of R s s1 "{}" s2] by (simp add: calls_only_same)

lemma call_onData_only: "call_onData d lp ref s = Some s' \<Longrightarrow> calls_only {ref} s s'"
proof (cases "pe_onData (pending ref s)")
  case (Some cb)
  let ?s = "record_event (CalledOnData ref cb (pe_interest (pending ref s)) d lp) s"
  have "calls_only {ref} s ?s" by (rule calls_only_record) auto
  then show "call_onData d lp ref s = Some s' \<Longrightarrow> calls_only {ref} s s'"
    using Some by (cases cb) (auto simp: call_onData_def Let_def intro: calls_only_then_same same_RegisterResponse_onData)
qed (simp add: call_onData_def calls_only_none)

lemma call_onData_all_only: "distinct refs \<Longrightarrow> call_onData_all d lp refs s = Some s' \<Longrightarrow> calls_only (set refs) s s'"
proof (induction refs arbitrary: s)
  case (Cons r refs)
  from Cons.prems(2) obtain s1 where s1: "call_onData d lp r s = Some s1" "call_onData_all d lp refs s1 = Some s'"
    by (auto simp: bind_eq_Some_conv)
  from calls_only_trans [OF call_onData_only [OF s1(1)] Cons.IH [OF _ s1(2)]] Cons.prems(1) show ?case by simp
qed (simp add: calls_only_none)

lemma callTimeout_only: "calls_only {ref} s (callTimeout ref s)"
proof (cases "pe_onTimeout (pending ref s)")
  case (Some cb)
  let ?s = "record_event (CalledOnTimeout ref cb (pe_interest (pending ref s))) s"
  have "calls_only {ref} s ?s" by (rule calls_only_record) auto
  with Some show ?thesis
    by (cases cb) (auto simp: callTimeout_def Let_def RegisterResponse_onTimeout_def intro: calls_only_then_same same_register)
qed (simp add: callTimeout_def calls_only_none)

lemma call_onNetworkNack_only: "calls_only {ref} s (call_onNetworkNack n ref s)"
proof (cases "pe_onNetworkNack (pending ref s)")
  case (Some cb)
  have "calls_only {ref} s (record_event (CalledOnNetworkNack ref cb (pe_interest (pending ref s)) n) s)"
    by (rule calls_only_record) auto
  with Some show ?thesis by (simp add: call_onNetworkNack_def)
qed (simp add: call_onNetworkNack_def calls_only_none)

lemma call_onNetworkNack_all_only: "distinct refs \<Longrightarrow> calls_only (set refs) s (fold (call_onNetworkNack n) refs s)"
proof (induction refs arbitrary: s)
  case (Cons r refs)
  from calls_only_trans [OF call_onNetworkNack_only Cons.IH] Cons.prems show ?case by simp
qed (simp add: calls_only_none)

section \<open>The operations\<close>

text \<open>After an extraction the callbacks of what was extracted may be called.\<close>

lemma extracts_next:
  assumes ex: "pit_wf (nd_pendingInterestTable s) \<Longrightarrow> extracts [] r (nd_pendingInterestTable s) t"
  shows "node_next s (s\<lparr>nd_pendingInterestTable := t\<rparr>)"
    and "r = Inr refs \<Longrightarrow> (distinct refs \<Longrightarrow> calls_only (set refs) (s\<lparr>nd_pendingInterestTable := t\<rparr>) s2) \<Longrightarrow> node_next s s2"
proof -
  show nx: "node_next s (s\<lparr>nd_pendingInterestTable := t\<rparr>)"
    by (rule table_next) (use ex in \<open>auto simp: extracts_def waiting_def\<close>)
  assume r: "r = Inr refs" and calls: "distinct refs \<Longrightarrow> calls_only (set refs) (s\<lparr>nd_pendingInterestTable := t\<rparr>) s2"
  have refs: "distinct refs \<and> set refs \<subseteq> set (waiting s) \<and> set refs \<inter> set (pt_table t) = {}" if "node_inv s"
    using ex r that by (auto simp: extracts_def node_inv_def waiting_def)
  show "node_next s s2"
  proof (cases "node_inv s")
    case True
    with refs have d: "distinct refs" by simp
    show ?thesis
      by (rule calls_next [OF nx _ _ calls [OF d]]) (use refs in \<open>auto simp: waiting_def\<close>)
  qed (simp add: node_next_def)
qed

lemma satisfy_next:
  assumes "extractExpressed env d s = Some (r, d', s1)"
  shows "node_next s s1" and "r = Inr refs \<Longrightarrow> call_onData_all d2 lp refs s1 = Some s2 \<Longrightarrow> node_next s s2"
proof -
  obtain t where t: "extractExpressed_loop (Interest_matchesData (fullName env)) (length (waiting s)) []
      (d, nd_pendingInterestTable s) = Some (r, d', t)" and s1: "s1 = s\<lparr>nd_pendingInterestTable := t\<rparr>"
    using assms by (auto simp: extractExpressed_def extractEntriesForExpressedInterest_def waiting_def)
  have ex: "pit_wf (nd_pendingInterestTable s) \<Longrightarrow> extracts [] r (nd_pendingInterestTable s) t"
    using extractExpressed_ok [OF _ _ t] by (simp add: waiting_def)
  show "node_next s s1" unfolding s1 by (rule extracts_next [OF ex])
  show "node_next s s2" if "r = Inr refs" "call_onData_all d2 lp refs s1 = Some s2"
    by (rule extracts_next(2) [OF ex that(1)]) (use that(2) s1 in \<open>auto intro: call_onData_all_only\<close>)
qed

lemma satisfy_received_next [leaves]: "leaves (satisfyPendingInterests_received env d lp s) (node_next s)"
  unfolding leaves_def satisfyPendingInterests_received_def
  by (auto split: option.splits sum.splits dest: satisfy_next)

lemma satisfy_put_next: "leaves (satisfyPendingInterests_put env d s) (\<lambda>(_, s'). node_next s s')"
  unfolding leaves_def satisfyPendingInterests_put_def
  by (auto simp: Let_def split: option.splits sum.splits prod.splits if_splits dest: satisfy_next)

lemma nack_next [leaves]: "leaves (receive_nack env n i s) (node_next s)"
  unfolding leaves_def receive_nack_def
proof (intro allI impI)
  fix r s'
  assume "map_option (\<lambda>(r, table). let self = s\<lparr>nd_pendingInterestTable := table\<rparr> in
       case r of Inl e \<Rightarrow> (Inl e, self) | Inr refs \<Rightarrow> (Inr (), fold (call_onNetworkNack n) refs self))
       (extractEntriesForNackInterest (encodeInterest env (f_default (ne_formats env))) i (nd_pendingInterestTable s)) = Some (r, s')"
  then obtain q t where q: "extractEntriesForNackInterest (encodeInterest env (f_default (ne_formats env))) i (nd_pendingInterestTable s) = Some (q, t)"
      and s': "(case q of Inl e \<Rightarrow> (Inl e, s\<lparr>nd_pendingInterestTable := t\<rparr>)
        | Inr refs \<Rightarrow> (Inr (), fold (call_onNetworkNack n) refs (s\<lparr>nd_pendingInterestTable := t\<rparr>))) = (r, s')"
    by (auto simp: Let_def)
  have ex: "extracts [] q (nd_pendingInterestTable s) t" if "pit_wf (nd_pendingInterestTable s)"
    using q that extractNack_ok [OF that order_refl]
    by (auto simp: extractEntriesForNackInterest_def intro: extracts_done split: option.splits sum.splits)
  show "node_next s s'"
  proof (cases q)
    case (Inl e)
    with s' extracts_next(1) [OF ex] show ?thesis by simp
  next
    case (Inr refs)
    show ?thesis
      by (rule extracts_next(2) [OF ex Inr]) (use s' Inr call_onNetworkNack_all_only in auto)
  qed
qed

lemma receive_packet_next [leaves]: "leaves (receive_packet env lp p s) (node_next s)"
  unfolding receive_packet_def
  by (auto intro: leaves split: option.split packet.split)

lemma onReceivedElement_next [leaves]: "leaves (onReceivedElement env e s) (node_next s)"
proof -
  have "leaves (Option.bind m (case_sum (\<lambda>e. Some (Inl e, s)) f)) (node_next s)"
    if "\<And>x. leaves (f x) (node_next s)" for m :: "'b result option" and f
    using that by (cases m) (auto intro: leaves split: sum.split)
  note b = this
  show ?thesis
    unfolding onReceivedElement_def
    by (rule b, simp only: split_beta, rule b, rule receive_packet_next)
qed

text \<open>Operations on a packet and the node.\<close>

definition pair_next :: "'k node \<Rightarrow> 'p \<times> 'k node \<Rightarrow> bool" where
  "pair_next s ps \<longleftrightarrow> node_next s (snd ps)"

lemma pair_next_simp [simp]: "pair_next s (p, s') = node_next s s'"
  by (simp add: pair_next_def)

lemma pair_bind:
  fixes m :: "('x result \<times> 'p \<times> 'k node) option" and f :: "'x \<Rightarrow> 'p \<times> 'k node \<Rightarrow> ('y result \<times> 'p \<times> 'k node) option"
  assumes "leaves m (pair_next s)" and "\<And>x p s'. leaves (f x (p, s')) (pair_next s')"
  shows "leaves (bindR m f) (pair_next s)"
  using assms(1)
proof (rule leaves_bind)
  fix x and ps :: "'p \<times> 'k node" assume "pair_next s ps"
  with assms(2) [of x "fst ps" "snd ps"] show "leaves (f x ps) (pair_next s)"
    by (auto simp: leaves_def pair_next_def intro: node_next_trans)
qed

lemma pair_encode: "leaves (map_option (\<lambda>(r, p). (r, p, s)) m) (pair_next s)"
  by (auto simp: leaves_def)

lemma pair_send: "leaves (map_option (\<lambda>(r, s'). (r, p, s')) (Node_send env bs s)) (pair_next s)"
  using Node_send_next [of env bs s] by (auto simp: leaves_def)

lemma putData_next: "leaves (Node_putData env fmt d s) (pair_next s)"
  unfolding Node_putData_def
proof (rule pair_bind)
  show "leaves (if nd_interestLoopbackEnabled s then satisfyPendingInterests_put env d s else Some (Inr False, d, s)) (pair_next s)"
    using satisfy_put_next [of env d s] by (auto simp: leaves_def)
qed (auto intro!: leaves pair_bind pair_encode pair_send split: prod.split)

lemma putNack_next: "leaves (Node_putNack env n i s) (pair_next s)"
  unfolding Node_putNack_def
  by (auto intro!: leaves pair_bind pair_encode pair_send split: prod.split sum.split)

text \<open>Adding an entry and its timeout.\<close>

lemma add_next:
  assumes a: "PendingInterestTable_add k i od ot on (nd_pendingInterestTable s) = (Some ref, t)"
  shows "node_next s (set_timeout env ref i ot (s\<lparr>nd_pendingInterestTable := t\<rparr>))"
  unfolding node_next_def
proof
  assume inv: "node_inv s"
  define s' where "s' = set_timeout env ref i ot (s\<lparr>nd_pendingInterestTable := t\<rparr>)"
  have t: "pt_table t = waiting s @ [ref]" "length (pt_store t) = Suc (entries s)" "ref = entries s"
      "pe_onTimeout (pt_store t ! ref) = ot"
    using a by (auto simp: PendingInterestTable_add_def Let_def waiting_def entries_def split: if_splits)
  have wf: "pit_wf (nd_pendingInterestTable s)" using inv by (simp add: node_inv_def)
  note ok = pit_add_ok [OF wf a]
  have fields: "nd_pendingInterestTable s' = t" "waiting s' = waiting s @ [ref]" "entries s' = Suc (entries s)"
      "\<And>r. completions r s' = completions r s" "\<And>r. pending r s' = pt_store t ! r"
    using t by (simp_all add: s'_def set_timeout_def Node_callLater_def Let_def waiting_def entries_def pending_def)
  have later: "nd_delayedCallTable s' = nd_delayedCallTable s \<and> ot = None \<or>
      (\<exists>d. nd_delayedCallTable s' = callLater (ne_now env) d (InterestTimeout ref) (nd_delayedCallTable s))"
    by (auto simp: s'_def set_timeout_def Node_callLater_def Let_def)
  have "timeouts_ok s'"
    unfolding timeouts_ok_def fields(3)
    using later inv t(3) by (auto simp: node_inv_def timeouts_ok_def set_callLater Entry_new_def less_Suc_eq)
  moreover have "times_out s'"
    unfolding times_out_def fields(2,5)
  proof (intro ballI impI)
    fix r assume r: "r \<in> set (waiting s @ [ref])" and rot: "pe_onTimeout (pt_store t ! r) \<noteq> None"
    show "InterestTimeout r \<in> dc_callback ` set (nd_delayedCallTable s')"
    proof (cases "r = ref")
      case True
      with rot t(4) later show ?thesis by (auto simp: set_callLater Entry_new_def)
    next
      case False
      with r have w: "r \<in> set (waiting s)" by simp
      then have "r < length (pt_store (nd_pendingInterestTable s))" using wf by (auto simp: pit_wf_def waiting_def)
      from pit_after_onTimeout [OF ok(2) this] w rot inv
      have "InterestTimeout r \<in> dc_callback ` set (nd_delayedCallTable s)"
        by (auto simp: node_inv_def times_out_def pending_def)
      with later show ?thesis by (auto simp: set_callLater)
    qed
  qed
  moreover have "table_sorted delayed_less (nd_delayedCallTable s')"
    using later inv by (auto simp: node_inv_def callLater_sorted)
  ultimately have "node_inv s' \<and> pit_after (nd_pendingInterestTable s) (nd_pendingInterestTable s') \<and>
      (\<forall>r < entries s. r \<notin> set (waiting s) \<longrightarrow> completions r s' = completions r s)"
    using ok inv t(3) by (auto simp: node_inv_def fields)
  then show "node_inv (set_timeout env ref i ot (s\<lparr>nd_pendingInterestTable := t\<rparr>)) \<and>
      pit_after (nd_pendingInterestTable s) (nd_pendingInterestTable (set_timeout env ref i ot (s\<lparr>nd_pendingInterestTable := t\<rparr>))) \<and>
      (\<forall>r < entries s. r \<notin> set (waiting s) \<longrightarrow>
         completions r (set_timeout env ref i ot (s\<lparr>nd_pendingInterestTable := t\<rparr>)) = completions r s)"
    unfolding s'_def .
qed

lemma send_interest_next [leaves]: "leaves (send_interest env ref i fmt s) (node_next s)"
proof -
  have e: "leaves (map_option (\<lambda>(r, interest). (r, s\<lparr>nd_pendingInterestTable := Entry_setInterest ref interest (nd_pendingInterestTable s)\<rparr>))
     (encodeInterest env fmt i)) (node_next s)"
    by (auto simp: leaves_def setInterest_next)
  show ?thesis
    unfolding send_interest_def by (rule leaves_if, simp add: leaves_Some, rule node_next_bind [OF e]) (auto intro!: leaves split: prod.split)
qed

lemma expressInterestHelper_next [leaves]: "leaves (expressInterestHelper env k i od ot on fmt s) (node_next s)"
proof -
  obtain ref t where a: "PendingInterestTable_add k i od ot on (nd_pendingInterestTable s) = (ref, t)" by fastforce
  show ?thesis
  proof (cases ref)
    case None
    with a have "pt_table t = waiting s" "pt_store t = pt_store (nd_pendingInterestTable s)"
      by (auto simp: PendingInterestTable_add_def Let_def waiting_def split: if_splits)
    then have "node_next s (s\<lparr>nd_pendingInterestTable := t\<rparr>)"
      by (intro table_next) (simp add: pit_wf_def pit_after_def waiting_def)
    with a None show ?thesis by (simp add: expressInterestHelper_def leaves_Some)
  next
    case (Some r)
    from node_next_via [OF add_next [OF a [unfolded Some]] send_interest_next] show ?thesis
      by (simp add: expressInterestHelper_def a Some)
  qed
qed

lemma Node_expressInterest_next [leaves]: "leaves (Node_expressInterest env k i od ot on fmt s) (node_next s)"
proof -
  have n: "leaves (map_option (\<lambda>(r, interest). (map_sum id (\<lambda>_. interest) r, s)) m) (node_next s)"
    for m :: "(unit result \<times> interest) option"
    by (auto simp: leaves_def)
  have c: "node_next s' (s'\<lparr>nd_connectStatus := c\<rparr>)" "node_next s' (push_connected call s')" for s' :: "'a node" and c call
    by (rule same_pending_next, simp add: same_pending_def) (rule same_pending_next, simp)
  have "leaves (transport_connect env (push_connected call (s'\<lparr>nd_connectStatus := c\<rparr>))) (node_next s')"
    for s' :: "'a node" and c call
    by (rule node_next_via [OF node_next_trans [OF c(1) c(2)] transport_next(2)])
  then show ?thesis
    unfolding Node_expressInterest_def Let_def by (intro leaves n c)
qed

lemma onConnected_next [leaves]: "leaves (onConnected env s) (node_next s)"
proof -
  have "leaves (onConnected_loop env calls s) (node_next s)" for calls and s :: "'a node"
    by (induction calls arbitrary: s) (auto intro: leaves)
  then show ?thesis
    unfolding onConnected_def
    by (intro leaves) (simp_all add: same_pending_next same_pending_def)
qed

lemma makeCommandInterest_next: "leaves (Node_makeCommandInterest env i s) (pair_next s)"
  by (auto simp: leaves_def Node_makeCommandInterest_def intro!: same_pending_next simp: same_pending_def)

lemma registerPrefix_next [leaves]:
  "leaves (Node_registerPrefix env kc cert k p oi orf ors opts fmt s) (node_next s)"
proof -
  have m: "leaves (map_option (\<lambda>(r, interest, self). (map_sum id (\<lambda>_. interest) r, self)) (Node_makeCommandInterest env i s)) (node_next s)" for i
    using makeCommandInterest_next [of env i s] by (auto simp: leaves_def)
  have e: "leaves (case getNextEntryId s' of (j, s'') \<Rightarrow> Node_expressInterest env j i od ot on fmt s'') (node_next s')"
    for s' :: "'a node" and i od ot on
    using node_next_via [OF same_pending_next [OF same_pending_small(1)] Node_expressInterest_next] by (simp add: case_prod_beta)
  show ?thesis
    unfolding Node_registerPrefix_def nfdRegisterPrefix_def Let_def
    by (auto split: sum.split intro!: leaves m e)
qed

section \<open>Time\<close>

lemma processInterestTimeout_next: "ref < entries s \<Longrightarrow> node_next s (processInterestTimeout ref s)"
proof (cases "node_inv s")
  case True
  assume ref: "ref < entries s"
  obtain b t where r: "removeEntry ref (nd_pendingInterestTable s) = (b, t)" by fastforce
  have wf: "pit_wf (nd_pendingInterestTable s)" using True by (simp add: node_inv_def)
  note ok = removeEntry_ok [OF wf _ r]
  have sub: "set (pt_table t) \<subseteq> set (waiting s)"
    using r set_remove1_subset by (fastforce simp: removeEntry_def Let_def waiting_def split: if_splits)
  have nx: "node_next s (s\<lparr>nd_pendingInterestTable := t\<rparr>)"
    using ok sub ref by (intro table_next) (simp add: entries_def)
  show ?thesis
  proof (cases b)
    case True
    show ?thesis
      unfolding processInterestTimeout_def r using True
      by (simp, intro calls_next [OF nx _ _ callTimeout_only]) (use ok ref True in \<open>auto simp: waiting_def entries_def\<close>)
  next
    case False
    with nx show ?thesis by (simp add: processInterestTimeout_def r)
  qed
qed (simp add: node_next_def)

text \<open>A delayed call is taken out of the table, then run.\<close>

definition pop :: "'k node \<Rightarrow> 'k node" where
  "pop s = s\<lparr>nd_delayedCallTable := tl (nd_delayedCallTable s)\<rparr>"

lemma run_timeout: "run_later env (InterestTimeout ref) s = Some (Inr (), processInterestTimeout ref s)"
  by (simp add: run_later_def)

lemma callTimeout_fields [simp]:
  "nd_delayedCallTable (callTimeout ref s) = nd_delayedCallTable s"
  "nd_pendingInterestTable (callTimeout ref s) = nd_pendingInterestTable s"
  using callTimeout_only [of ref s] by (simp_all add: calls_only_def)

lemma processInterestTimeout_fields:
  "nd_delayedCallTable (processInterestTimeout ref s) = nd_delayedCallTable s"
  by (simp add: processInterestTimeout_def Let_def split: prod.split)

lemma processInterestTimeout_waiting:
  assumes "pit_wf (nd_pendingInterestTable s)" and "ref < entries s"
  shows "ref \<notin> set (waiting (processInterestTimeout ref s))"
    and "r \<noteq> ref \<Longrightarrow> r \<in> set (waiting (processInterestTimeout ref s)) \<longleftrightarrow> r \<in> set (waiting s)"
proof -
  obtain b t where r: "removeEntry ref (nd_pendingInterestTable s) = (b, t)" by fastforce
  note ok = removeEntry_ok [OF assms(1) _ r]
  have w: "waiting (processInterestTimeout ref s) = pt_table t"
    by (simp add: processInterestTimeout_def r waiting_def Let_def)
  show "ref \<notin> set (waiting (processInterestTimeout ref s))" using ok(4) assms(2) w by (simp add: entries_def)
  show "r \<in> set (waiting (processInterestTimeout ref s)) \<longleftrightarrow> r \<in> set (waiting s)" if "r \<noteq> ref"
    using r that assms(1) w by (auto simp: removeEntry_def Let_def waiting_def pit_wf_def split: if_splits)
qed

lemma callTimeout_delayed: "callTimeout ref (s\<lparr>nd_delayedCallTable := d\<rparr>) = (callTimeout ref s)\<lparr>nd_delayedCallTable := d\<rparr>"
  by (auto simp: callTimeout_def pending_def record_event_def Let_def RegisterResponse_onTimeout_def call_onRegisterFailed_def
      split: option.split callback.split)

lemma processInterestTimeout_delayed:
  "processInterestTimeout ref (s\<lparr>nd_delayedCallTable := d\<rparr>) = (processInterestTimeout ref s)\<lparr>nd_delayedCallTable := d\<rparr>"
proof -
  have swap: "s\<lparr>nd_delayedCallTable := d, nd_pendingInterestTable := t\<rparr> = s\<lparr>nd_pendingInterestTable := t, nd_delayedCallTable := d\<rparr>" for t
    by simp
  show ?thesis by (simp add: processInterestTimeout_def Let_def swap callTimeout_delayed split: prod.split)
qed

text \<open>A timeout may be dropped once its entry has left the table.\<close>

lemma pop_next:
  assumes d: "nd_delayedCallTable s = e # rest" and gone: "\<And>ref. dc_callback e = InterestTimeout ref \<Longrightarrow> ref \<notin> set (waiting s)"
  shows "node_next s (pop s)"
  unfolding node_next_def
proof
  assume inv: "node_inv s"
  have p: "waiting (pop s) = waiting s" "entries (pop s) = entries s" "nd_pendingInterestTable (pop s) = nd_pendingInterestTable s"
      "nd_delayedCallTable (pop s) = rest" "\<And>ref. completions ref (pop s) = completions ref s" "\<And>ref. pending ref (pop s) = pending ref s"
    using d by (simp_all add: pop_def waiting_def entries_def pending_def)
  have "times_out (pop s)" unfolding times_out_def p
  proof (intro ballI impI)
    fix ref assume "ref \<in> set (waiting s)" and "pe_onTimeout (pending ref s) \<noteq> None"
    with inv d have "InterestTimeout ref \<in> dc_callback ` set (e # rest)" by (simp add: node_inv_def times_out_def)
    with gone [of ref] \<open>ref \<in> set (waiting s)\<close> show "InterestTimeout ref \<in> dc_callback ` set rest" by auto
  qed
  with inv p d show "node_inv (pop s) \<and> pit_after (nd_pendingInterestTable s) (nd_pendingInterestTable (pop s)) \<and>
      (\<forall>ref < entries s. ref \<notin> set (waiting s) \<longrightarrow> completions ref (pop s) = completions ref s)"
    by (simp add: node_inv_def timeouts_ok_def table_sorted_Cons)
qed

lemma pop_run_next:
  assumes d: "nd_delayedCallTable s = e # rest" and run: "run_later env (dc_callback e) (pop s) = Some (r, s')"
  shows "node_next s s'"
proof (cases "dc_callback e")
  case (AppLater k)
  have "node_next (pop s) s'"
    using run AppLater by (auto simp: run_later_def intro!: same_pending_next same_pending_record)
  with pop_next [OF d] AppLater show ?thesis by (auto intro: node_next_trans)
next
  case (InterestTimeout ref)
  let ?s = "processInterestTimeout ref s"
  have "s' = processInterestTimeout ref (pop s)" using run InterestTimeout by (simp add: run_timeout)
  then have s': "s' = pop ?s"
    by (simp add: pop_def processInterestTimeout_delayed processInterestTimeout_fields)
  show ?thesis
  proof (cases "node_inv s")
    case True
    then have ref: "ref < entries s" and wf: "pit_wf (nd_pendingInterestTable s)"
      using d InterestTimeout by (simp_all add: node_inv_def timeouts_ok_def)
    have "node_next ?s (pop ?s)"
    proof (rule pop_next)
      show "nd_delayedCallTable ?s = e # rest" by (simp add: processInterestTimeout_fields d)
    qed (use processInterestTimeout_waiting(1) [OF wf ref] InterestTimeout in simp)
    with processInterestTimeout_next [OF ref] show ?thesis unfolding s' by (rule node_next_trans)
  qed (simp add: node_next_def)
qed

abbreviation run_delayed :: "'k node_env \<Rightarrow> 'k node \<Rightarrow> (unit result \<times> 'k node) option" where
  "run_delayed env \<equiv> callTimedOut_loop nd_delayedCallTable (\<lambda>table self. self\<lparr>nd_delayedCallTable := table\<rparr>) (run_later env) (ne_now env)"

lemma run_delayed_next: "run_delayed env s = Some (r, s') \<Longrightarrow> node_next s s'"
proof (induction "length (nd_delayedCallTable s)" arbitrary: s)
  case 0
  then show ?case by (simp add: callTimedOut_loop.simps)
next
  case (Suc n)
  then obtain e rest where d: "nd_delayedCallTable s = e # rest" by (cases "nd_delayedCallTable s") auto
  show ?case
  proof (cases "dc_callTime e \<le> ne_now env")
    case False
    with Suc.prems d show ?thesis by (simp add: callTimedOut_loop.simps)
  next
    case True
    have p: "pop s = s\<lparr>nd_delayedCallTable := rest\<rparr>" by (simp add: pop_def d)
    obtain q s1 where q: "run_later env (dc_callback e) (pop s) = Some (q, s1)"
      by (cases "dc_callback e") (simp_all add: run_later_def)
    have len: "nd_delayedCallTable s1 = rest"
      using q p by (cases "dc_callback e") (auto simp: run_later_def processInterestTimeout_fields)
    note nx = pop_run_next [OF d q]
    show ?thesis
    proof (cases q)
      case (Inl e)
      with Suc.prems d True q p nx show ?thesis by (simp add: callTimedOut_loop.simps [where s = s])
    next
      case (Inr u)
      with Suc.prems d True q p have "run_delayed env s1 = Some (r, s')"
        by (simp add: callTimedOut_loop.simps [where s = s])
      from Suc.hyps(1) [OF _ this] Suc.hyps(2) len d nx show ?thesis by (auto intro: node_next_trans)
    qed
  qed
qed

lemma processEvents_next [leaves]: "leaves (Node_processEvents env received s) (node_next s)"
proof -
  have r: "leaves (receive_all env elements s) (node_next s)" for elements and s :: "'a node"
    by (induction elements arbitrary: s) (auto intro: leaves)
  have d: "leaves (callTimedOut nd_delayedCallTable (\<lambda>table self. self\<lparr>nd_delayedCallTable := table\<rparr>) (run_later env) (ne_now env) 0 s)
      (node_next s)" for s :: "'a node"
    by (auto simp: callTimedOut_def leaves_def dest: run_delayed_next)
  show ?thesis unfolding Node_processEvents_def by (intro leaves r d)
qed

end
