(* ===== verification/FaceModel.thy ===== *)
theory FaceModel
  imports NodeInvariants
begin

text \<open>
  The application's interface (\<^verbatim>\<open>face.cpp\<close>), as the steps of a state machine: every method of a Face, and what its transport
  does (it connects, and it passes received elements on in \<^verbatim>\<open>processEvents\<close>).  Any environment may drive a step.
\<close>

section \<open>Methods\<close>

record 'k face =
  fa_node :: "'k node"
  fa_commandKeyChain :: bool        \<comment> \<open>the pointer is not null\<close>
  fa_commandCertificateName :: name

definition Face_new :: "real \<Rightarrow> 'k face" where
  "Face_new clock = \<lparr>fa_node = Node_new clock, fa_commandKeyChain = False, fa_commandCertificateName = Name_of []\<rparr>"

definition Face_setCommandSigningInfo :: "name \<Rightarrow> 'k face \<Rightarrow> 'k face" where
  "Face_setCommandSigningInfo certificateName self =
     self\<lparr>fa_commandKeyChain := True, fa_commandCertificateName := certificateName\<rparr>"

text \<open>A call on the node, with the result \<^verbatim>\<open>x\<close> when it does not throw.\<close>

definition on_node :: "'x \<Rightarrow> ('a result \<times> 'k node) option \<Rightarrow> 'k face \<Rightarrow> ('x result \<times> 'k face) option" where
  "on_node x m self = map_option (\<lambda>(r, node). (map_sum id (\<lambda>_. x) r, self\<lparr>fa_node := node\<rparr>)) m"

definition Face_expressInterest ::
  "'k node_env \<Rightarrow> interest \<Rightarrow> 'k option \<Rightarrow> 'k option \<Rightarrow> 'k option \<Rightarrow> nat \<Rightarrow> 'k face \<Rightarrow> (u64 result \<times> 'k face) option" where
  "Face_expressInterest env interest onData onTimeout onNetworkNack wireFormat self =
     (let (pendingInterestId, node) = getNextEntryId (fa_node self) in
      on_node pendingInterestId
        (Node_expressInterest env pendingInterestId (snd (Interest_copy interest)) (map_option App onData) (map_option App onTimeout)
           (map_option App onNetworkNack) wireFormat node) self)"

definition getInterestCopy :: "'k node_env \<Rightarrow> name \<Rightarrow> interest option \<Rightarrow> interest" where
  "getInterestCopy env name interestTemplate =
     (case interestTemplate of
        Some t \<Rightarrow> Interest_setName name (snd (Interest_copy t))
      | None \<Rightarrow> (Interest_of_name (ne_defaultCanBePrefix env) (ne_didSetDefaultCanBePrefix env) name)
                  \<lparr>i_interestLifetimeMilliseconds := 4000\<rparr>)"

definition Face_expressInterest_name ::
  "'k node_env \<Rightarrow> name \<Rightarrow> interest option \<Rightarrow> 'k option \<Rightarrow> 'k option \<Rightarrow> 'k option \<Rightarrow> nat \<Rightarrow> 'k face \<Rightarrow>
   (u64 result \<times> 'k face) option" where
  "Face_expressInterest_name env name interestTemplate onData onTimeout onNetworkNack wireFormat self =
     (let (pendingInterestId, node) = getNextEntryId (fa_node self) in
      on_node pendingInterestId
        (Node_expressInterest env pendingInterestId (getInterestCopy env name interestTemplate) (map_option App onData)
           (map_option App onTimeout) (map_option App onNetworkNack) wireFormat node) self)"

definition Face_removePendingInterest :: "u64 \<Rightarrow> 'k face \<Rightarrow> 'k face" where
  "Face_removePendingInterest pendingInterestId self =
     self\<lparr>fa_node := Node_removePendingInterest pendingInterestId (fa_node self)\<rparr>"

definition Face_makeCommandInterest :: "'k node_env \<Rightarrow> interest \<Rightarrow> 'k face \<Rightarrow> (unit result \<times> interest \<times> 'k face) option" where
  "Face_makeCommandInterest env interest self =
     (if \<not> fa_commandKeyChain self then None
      else map_option (\<lambda>(r, interest, node). (r, interest, self\<lparr>fa_node := node\<rparr>))
             (Node_makeCommandInterest env interest (fa_node self)))"

definition Face_registerPrefix ::
  "'k node_env \<Rightarrow> name \<Rightarrow> 'k option \<Rightarrow> 'k option \<Rightarrow> 'k option \<Rightarrow> registration_options \<Rightarrow> nat \<Rightarrow> 'k face \<Rightarrow>
   (u64 result \<times> 'k face) option" where
  "Face_registerPrefix env prefix onInterest onRegisterFailed onRegisterSuccess registrationOptions wireFormat self =
     (let (registeredPrefixId, node) = getNextEntryId (fa_node self) in
      on_node registeredPrefixId
        (Node_registerPrefix env (fa_commandKeyChain self) (fa_commandCertificateName self) registeredPrefixId prefix onInterest
           onRegisterFailed onRegisterSuccess registrationOptions wireFormat node) self)"

definition Face_removeRegisteredPrefix :: "u64 \<Rightarrow> 'k face \<Rightarrow> 'k face" where
  "Face_removeRegisteredPrefix registeredPrefixId self =
     self\<lparr>fa_node := Node_removeRegisteredPrefix registeredPrefixId (fa_node self)\<rparr>"

definition Face_setInterestFilter :: "interest_filter \<Rightarrow> 'k option \<Rightarrow> 'k face \<Rightarrow> u64 \<times> 'k face" where
  "Face_setInterestFilter interestFilter onInterest self =
     (let (interestFilterId, node) = getNextEntryId (fa_node self) in
      (interestFilterId, self\<lparr>fa_node := Node_setInterestFilter interestFilterId interestFilter onInterest node\<rparr>))"

definition Face_setInterestFilter_prefix :: "name \<Rightarrow> 'k option \<Rightarrow> 'k face \<Rightarrow> u64 \<times> 'k face" where
  "Face_setInterestFilter_prefix prefix = Face_setInterestFilter (InterestFilter_of_prefix prefix)"

definition Face_unsetInterestFilter :: "u64 \<Rightarrow> 'k face \<Rightarrow> 'k face" where
  "Face_unsetInterestFilter interestFilterId self =
     self\<lparr>fa_node := Node_unsetInterestFilter interestFilterId (fa_node self)\<rparr>"

definition Face_setInterestLoopbackEnabled :: "bool \<Rightarrow> 'k face \<Rightarrow> 'k face" where
  "Face_setInterestLoopbackEnabled b self = self\<lparr>fa_node := setInterestLoopbackEnabled b (fa_node self)\<rparr>"

definition Face_putData :: "'k node_env \<Rightarrow> nat \<Rightarrow> data \<Rightarrow> 'k face \<Rightarrow> (unit result \<times> data \<times> 'k face) option" where
  "Face_putData env wireFormat data self =
     map_option (\<lambda>(r, data, node). (r, data, self\<lparr>fa_node := node\<rparr>)) (Node_putData env wireFormat data (fa_node self))"

definition Face_putNack :: "'k node_env \<Rightarrow> network_nack \<Rightarrow> interest \<Rightarrow> 'k face \<Rightarrow> (unit result \<times> interest \<times> 'k face) option" where
  "Face_putNack env networkNack interest self =
     map_option (\<lambda>(r, interest, node). (r, interest, self\<lparr>fa_node := node\<rparr>)) (Node_putNack env networkNack interest (fa_node self))"

definition Face_send :: "'k node_env \<Rightarrow> bytes \<Rightarrow> 'k face \<Rightarrow> (unit result \<times> 'k face) option" where
  "Face_send env encoding self = on_node () (Node_send env encoding (fa_node self)) self"

definition Face_processEvents :: "'k node_env \<Rightarrow> bytes list \<Rightarrow> 'k face \<Rightarrow> (unit result \<times> 'k face) option" where
  "Face_processEvents env received self = on_node () (Node_processEvents env received (fa_node self)) self"

definition Face_shutdown :: "'k face \<Rightarrow> 'k face" where
  "Face_shutdown self = self\<lparr>fa_node := Node_shutdown (fa_node self)\<rparr>"

definition Face_callLater :: "'k node_env \<Rightarrow> real \<Rightarrow> 'k \<Rightarrow> 'k face \<Rightarrow> 'k face" where
  "Face_callLater env delayMilliseconds callback self =
     self\<lparr>fa_node := Node_callLater env delayMilliseconds (AppLater callback) (fa_node self)\<rparr>"

section \<open>The state machine\<close>

inductive face_step :: "'k face \<Rightarrow> 'k face \<Rightarrow> bool" where
  signing: "face_step f (Face_setCommandSigningInfo c f)"
| express: "Face_expressInterest env i od ot on fmt f = Some (r, f') \<Longrightarrow> face_step f f'"
| express_name: "Face_expressInterest_name env n i od ot on fmt f = Some (r, f') \<Longrightarrow> face_step f f'"
| remove_pending: "face_step f (Face_removePendingInterest k f)"
| make_command: "Face_makeCommandInterest env i f = Some (r, i', f') \<Longrightarrow> face_step f f'"
| register_prefix: "Face_registerPrefix env p oi orf ors opts fmt f = Some (r, f') \<Longrightarrow> face_step f f'"
| remove_prefix: "face_step f (Face_removeRegisteredPrefix k f)"
| set_filter: "face_step f (snd (Face_setInterestFilter flt oi f))"
| unset_filter: "face_step f (Face_unsetInterestFilter k f)"
| loopback: "face_step f (Face_setInterestLoopbackEnabled b f)"
| put_data: "Face_putData env fmt d f = Some (r, d', f') \<Longrightarrow> face_step f f'"
| put_nack: "Face_putNack env n i f = Some (r, i', f') \<Longrightarrow> face_step f f'"
| send: "Face_send env bs f = Some (r, f') \<Longrightarrow> face_step f f'"
| process_events: "Face_processEvents env received f = Some (r, f') \<Longrightarrow> face_step f f'"
| connected: "on_node () (onConnected env (fa_node f)) f = Some (r, f') \<Longrightarrow> face_step f f'"
| shutdown: "face_step f (Face_shutdown f)"
| call_later: "face_step f (Face_callLater env delay k f)"

inductive face_reachable :: "'k face \<Rightarrow> bool" where
  start: "face_reachable (Face_new clock)"
| step: "face_reachable f \<Longrightarrow> face_step f f' \<Longrightarrow> face_reachable f'"

inductive_cases face_step_elim: "face_step f f'"

lemma on_node_next: "leaves m (node_next (fa_node f)) \<Longrightarrow> on_node x m f = Some (r, f') \<Longrightarrow> node_next (fa_node f) (fa_node f')"
  by (auto simp: on_node_def leaves_def)

lemma pair_node_next:
  "leaves m (pair_next (fa_node f)) \<Longrightarrow> map_option (\<lambda>(r, p, node). (r, p, f\<lparr>fa_node := node\<rparr>)) m = Some (r, p, f') \<Longrightarrow>
   node_next (fa_node f) (fa_node f')"
  by (auto simp: leaves_def)

lemma next_entry_next: "leaves m (node_next (snd (getNextEntryId n))) \<Longrightarrow> leaves m (node_next n)"
  by (rule node_next_via [OF same_pending_next [OF same_pending_small(1)]])

lemma face_step_next: "face_step f f' \<Longrightarrow> node_next (fa_node f) (fa_node f')"
proof (induction rule: face_step.induct)
  case (express env i od ot on fmt f r f')
  then show ?case
    unfolding Face_expressInterest_def case_prod_beta Let_def
    by (rule on_node_next [OF next_entry_next [OF Node_expressInterest_next]])
next
  case (express_name env n i od ot on fmt f r f')
  then show ?case
    unfolding Face_expressInterest_name_def case_prod_beta Let_def
    by (rule on_node_next [OF next_entry_next [OF Node_expressInterest_next]])
next
  case (make_command env i f r i' f')
  then show ?case
    using pair_node_next [OF makeCommandInterest_next] by (fastforce simp: Face_makeCommandInterest_def split: if_splits)
next
  case (register_prefix env p oi orf ors opts fmt f r f')
  then show ?case
    unfolding Face_registerPrefix_def case_prod_beta Let_def
    by (rule on_node_next [OF next_entry_next [OF registerPrefix_next]])
next
  case (set_filter f flt oi)
  have "same_pending (fa_node f) (Node_setInterestFilter k flt oi (snd (getNextEntryId (fa_node f))))" for k
    by (rule same_pending_trans [OF same_pending_small(1) same_pending_small(4)])
  then show ?case by (auto simp: Face_setInterestFilter_def case_prod_beta Let_def intro: same_pending_next)
next
  case (put_data env fmt d f r d' f')
  then show ?case unfolding Face_putData_def by (rule pair_node_next [OF putData_next])
next
  case (put_nack env n i f r i' f')
  then show ?case unfolding Face_putNack_def by (rule pair_node_next [OF putNack_next])
next
  case (send env bs f r f')
  then show ?case unfolding Face_send_def by (rule on_node_next [OF Node_send_next])
next
  case (process_events env received f r f')
  then show ?case unfolding Face_processEvents_def by (rule on_node_next [OF processEvents_next])
next
  case (connected env f r f')
  then show ?case by (rule on_node_next [OF onConnected_next])
next
  case (call_later f env delay k)
  show ?case by (simp add: Face_callLater_def, rule later_next) simp
qed (simp_all add: Face_setCommandSigningInfo_def Face_removePendingInterest_def Face_removeRegisteredPrefix_def
    Face_unsetInterestFilter_def Face_setInterestLoopbackEnabled_def Face_shutdown_def remove_next same_pending_next)

lemma node_inv_new: "node_inv (Node_new clock)"
  by (simp add: node_inv_def Node_new_def timeouts_ok_def times_out_def waiting_def completions_def PendingInterestTable_new_def
      pit_wf_def)

lemma reachable_inv: "face_reachable f \<Longrightarrow> node_inv (fa_node f)"
proof (induction rule: face_reachable.induct)
  case (start clock)
  show ?case by (simp add: Face_new_def node_inv_new)
next
  case (step f f')
  then show ?case using face_step_next by (auto simp: node_next_def)
qed

lemma steps_next: "face_step\<^sup>*\<^sup>* f f' \<Longrightarrow> node_next (fa_node f) (fa_node f')"
  by (induction rule: rtranclp_induct) (auto intro: node_next_trans face_step_next)

section \<open>Timeouts come\<close>

lemma callTimeout_events: "set (nd_events s) \<subseteq> set (nd_events (callTimeout ref s))"
  by (auto simp: callTimeout_def Let_def RegisterResponse_onTimeout_def call_onRegisterFailed_def split: option.split callback.split)

lemma processInterestTimeout_events: "set (nd_events s) \<subseteq> set (nd_events (processInterestTimeout ref s))"
  using callTimeout_events by (fastforce simp: processInterestTimeout_def Let_def split: prod.split)

lemma run_later_ok:
  assumes "\<forall>k. ne_later env k = Inr ()"
  shows "\<exists>s'. run_later env c s = Some (Inr (), s') \<and> nd_delayedCallTable s' = nd_delayedCallTable s \<and> set (nd_events s) \<subseteq> set (nd_events s')"
  using assms processInterestTimeout_events
  by (cases c) (auto simp: run_later_def processInterestTimeout_fields record_event_def)

lemma run_delayed_total:
  assumes "\<forall>k. ne_later env k = Inr ()"
  shows "\<exists>s'. run_delayed env s = Some (Inr (), s') \<and> set (nd_events s) \<subseteq> set (nd_events s')"
proof (induction "length (nd_delayedCallTable s)" arbitrary: s)
  case 0
  then show ?case by (simp add: callTimedOut_loop.simps)
next
  case (Suc n)
  then obtain e rest where d: "nd_delayedCallTable s = e # rest" by (cases "nd_delayedCallTable s") auto
  obtain s1 where s1: "run_later env (dc_callback e) (s\<lparr>nd_delayedCallTable := rest\<rparr>) = Some (Inr (), s1)"
      "nd_delayedCallTable s1 = rest" "set (nd_events s) \<subseteq> set (nd_events s1)"
    using run_later_ok [OF assms, of "dc_callback e" "s\<lparr>nd_delayedCallTable := rest\<rparr>"] by auto
  from Suc.hyps(1) [of s1] Suc.hyps(2) d s1(2) obtain s' where "run_delayed env s1 = Some (Inr (), s')"
      "set (nd_events s1) \<subseteq> set (nd_events s')" by auto
  with d s1 show ?case by (simp add: callTimedOut_loop.simps [where s = s]) (metis order.trans order_refl)
qed

lemma processInterestTimeout_calls:
  assumes "pit_wf (nd_pendingInterestTable s)" and "ref \<in> set (waiting s)" and "pe_onTimeout (pending ref s) = Some cb"
  shows "\<exists>i. CalledOnTimeout ref cb i \<in> set (nd_events (processInterestTimeout ref s))"
proof -
  have r: "ref < length (pt_store (nd_pendingInterestTable s))" using assms(1,2) by (auto simp: pit_wf_def waiting_def)
  obtain b t where q: "removeEntry ref (nd_pendingInterestTable s) = (b, t)" by fastforce
  note ok = removeEntry_ok [OF assms(1) r q]
  have b: b using ok(3) assms(2) by (simp add: waiting_def)
  have "pe_onTimeout (pending ref (s\<lparr>nd_pendingInterestTable := t\<rparr>)) = Some cb"
    using pit_after_onTimeout [OF ok(2) r] assms(3) by (simp add: pending_def)
  then show ?thesis
    using b by (cases cb) (auto simp: processInterestTimeout_def q callTimeout_def Let_def RegisterResponse_onTimeout_def
        call_onRegisterFailed_def split: option.split)
qed

lemma run_delayed_times_out:
  assumes "\<forall>k. ne_later env k = Inr ()"
  shows "node_inv s \<Longrightarrow> ref \<in> set (waiting s) \<Longrightarrow> pe_onTimeout (pending ref s) = Some cb \<Longrightarrow>
    \<exists>e \<in> set (nd_delayedCallTable s). dc_callback e = InterestTimeout ref \<and> dc_callTime e \<le> ne_now env \<Longrightarrow>
    \<exists>s' i. run_delayed env s = Some (Inr (), s') \<and> CalledOnTimeout ref cb i \<in> set (nd_events s')"
proof (induction "length (nd_delayedCallTable s)" arbitrary: s)
  case 0
  then show ?case by simp
next
  case (Suc n)
  then obtain e0 rest where d: "nd_delayedCallTable s = e0 # rest" by (cases "nd_delayedCallTable s") auto
  obtain e where e: "e \<in> set (e0 # rest)" "dc_callback e = InterestTimeout ref" "dc_callTime e \<le> ne_now env"
    using Suc.prems(4) d by auto
  have "table_sorted delayed_less (e0 # rest)" using Suc.prems(1) d by (simp add: node_inv_def)
  then have due: "dc_callTime e0 \<le> ne_now env"
    using e by (auto simp: table_sorted_Cons delayed_less_def)
  have p: "pop s = s\<lparr>nd_delayedCallTable := rest\<rparr>" by (simp add: pop_def d)
  obtain s1 where s1: "run_later env (dc_callback e0) (pop s) = Some (Inr (), s1)" "nd_delayedCallTable s1 = rest"
    using run_later_ok [OF assms, of "dc_callback e0" "pop s"] p by auto
  have run: "run_delayed env s = run_delayed env s1"
    using d due s1(1) p by (simp add: callTimedOut_loop.simps [where s = s])
  have inv1: "node_inv s1" using pop_run_next [OF d s1(1)] Suc.prems(1) by (simp add: node_next_def)
  have wf: "pit_wf (nd_pendingInterestTable (pop s))" and same: "waiting (pop s) = waiting s" "pending r (pop s) = pending r s"
      "entries (pop s) = entries s" for r
    using Suc.prems(1) by (simp_all add: node_inv_def pop_def waiting_def pending_def entries_def)
  show ?case
  proof (cases "dc_callback e0 = InterestTimeout ref")
    case True
    then have "s1 = processInterestTimeout ref (pop s)" using s1(1) by (simp add: run_timeout)
    then have "\<exists>i. CalledOnTimeout ref cb i \<in> set (nd_events s1)"
      using processInterestTimeout_calls [OF wf, of ref cb] Suc.prems(2,3) same by simp
    with run_delayed_total [OF assms, of s1] run show ?thesis by auto
  next
    case False
    have nx: "ref \<in> set (waiting s1) \<and> pe_onTimeout (pending ref s1) = Some cb"
    proof (cases "dc_callback e0")
      case (AppLater k)
      with s1(1) Suc.prems(2,3) same show ?thesis by (auto simp: run_later_def waiting_def pending_def pop_def)
    next
      case (InterestTimeout r)
      have r: "r < entries (pop s)" using Suc.prems(1) d InterestTimeout same by (simp add: node_inv_def timeouts_ok_def)
      have st: "s1 = processInterestTimeout r (pop s)" using s1(1) InterestTimeout by (simp add: run_timeout)
      have "ref \<in> set (waiting s1)"
        using processInterestTimeout_waiting(2) [OF wf r, of ref] False InterestTimeout Suc.prems(2) same st by auto
      moreover have "ref < length (pt_store (nd_pendingInterestTable s))"
        using Suc.prems(1,2) by (auto simp: node_inv_def pit_wf_def waiting_def)
      moreover have "pit_after (nd_pendingInterestTable s) (nd_pendingInterestTable s1)"
        using pop_run_next [OF d s1(1)] Suc.prems(1) by (simp add: node_next_def)
      ultimately show ?thesis using Suc.prems(3) by (simp add: pending_def pit_after_onTimeout)
    qed
    have "\<exists>e \<in> set (nd_delayedCallTable s1). dc_callback e = InterestTimeout ref \<and> dc_callTime e \<le> ne_now env"
      using e False s1(2) by auto
    with Suc.hyps(1) [of s1] Suc.hyps(2) inv1 nx s1(2) d run show ?thesis by simp
  qed
qed

section \<open>Properties\<close>

text \<open>
  C17.  Whatever the application, the transport and the clock do, an entry of the pending interest table is completed at most
  once: of its \<^verbatim>\<open>onData\<close>, \<^verbatim>\<open>onTimeout\<close> and \<^verbatim>\<open>onNetworkNack\<close> callbacks at most one call is made in all, and none while it is pending.
\<close>

theorem completed_at_most_once:
  assumes "face_reachable f"
  shows "completions ref (fa_node f) \<le> 1 \<and> (ref \<in> set (waiting (fa_node f)) \<longrightarrow> completions ref (fa_node f) = 0)"
  using reachable_inv [OF assms] by (simp add: node_inv_def)


text \<open>
  C19.  A pending interest with a timeout callback does time out: there is a time from which on \<^verbatim>\<open>processEvents\<close>, when nothing was
  received and no callback of \<^verbatim>\<open>callLater\<close> throws, returns and has called \<^verbatim>\<open>onTimeout\<close>, once, and the entry is no longer pending.
\<close>

theorem interest_times_out:
  assumes "face_reachable f" and "ref \<in> set (waiting (fa_node f))" and "pe_onTimeout (pending ref (fa_node f)) = Some cb"
  shows "\<exists>t. \<forall>env. t \<le> ne_now env \<and> (\<forall>k. ne_later env k = Inr ()) \<longrightarrow>
     (\<exists>f' i. Face_processEvents env [] f = Some (Inr (), f') \<and> CalledOnTimeout ref cb i \<in> set (nd_events (fa_node f')) \<and>
        completions ref (fa_node f') = 1 \<and> ref \<notin> set (waiting (fa_node f')))"
proof -
  have inv: "node_inv (fa_node f)" by (rule reachable_inv [OF assms(1)])
  then obtain e where e: "e \<in> set (nd_delayedCallTable (fa_node f))" "dc_callback e = InterestTimeout ref"
    using assms(2,3) by (auto simp: node_inv_def times_out_def)
  have "\<exists>f' i. Face_processEvents env [] f = Some (Inr (), f') \<and> CalledOnTimeout ref cb i \<in> set (nd_events (fa_node f')) \<and>
        completions ref (fa_node f') = 1 \<and> ref \<notin> set (waiting (fa_node f'))"
    if env: "dc_callTime e \<le> ne_now env" "\<forall>k. ne_later env k = Inr ()" for env
  proof -
    obtain s' i where s': "run_delayed env (fa_node f) = Some (Inr (), s')" "CalledOnTimeout ref cb i \<in> set (nd_events s')"
      using run_delayed_times_out [OF env(2) inv assms(2,3)] e env(1) by blast
    have inv': "node_inv s'" using run_delayed_next [OF s'(1)] inv by (simp add: node_next_def)
    have "filter (completes ref) (nd_events s') \<noteq> []" using s'(2) by (force simp: filter_empty_conv)
    then have "completions ref s' \<noteq> 0" by (simp add: completions_def)
    moreover have "completions ref s' \<le> 1" using inv' by (simp add: node_inv_def)
    ultimately have c: "completions ref s' = 1" by simp
    then have "ref \<notin> set (waiting s')" using inv' by (auto simp: node_inv_def)
    with c s' show ?thesis
      by (intro exI [of _ "f\<lparr>fa_node := s'\<rparr>"] exI [of _ i])
         (simp add: Face_processEvents_def on_node_def Node_processEvents_def callTimedOut_def bindR_def)
  qed
  then show ?thesis by blast
qed

definition demo_env :: "real \<Rightarrow> unit node_env" where
  "demo_env now =
     \<lparr>ne_now = now, ne_isAsync = False, ne_isLocal = True, ne_connect = Inr (), ne_send = (\<lambda>_. Inr ()), ne_formats = tlv_formats,
      ne_TlvWireFormat = 0, ne_defaultCanBePrefix = True, ne_didSetDefaultCanBePrefix = False, ne_random = (\<lambda>i n. Inr (replicate n 1)),
      ne_sha256 = (\<lambda>_. replicate 32 0), ne_sign = (\<lambda>i. Some (Inr (), i)), ne_regexMatch = (\<lambda>_ _. Inr False),
      ne_later = (\<lambda>_. Inr ())\<rparr>"

definition demo_name :: name where
  "demo_name = Name_of [Component_generic (Some (str ''local'')), Component_generic (Some (str ''timeout''))]"

lemma demo_refresh: "refresh_loop (\<lambda>i n. Inr (replicate n 1)) [0, 0, 0, 0] 0 = Some (Inr [1, 1, 1, 1])"
  by (subst refresh_loop.simps) (simp add: numeral_eq_Suc)

lemma demo_prefix: "Name_match (snd (Name_set (str ''/local/timeout'') (Name_of []))) demo_name"
  by code_simp

lemmas demo_interest_defs = fill_nonce_def getInterestCopy_def Interest_refreshNonce_def Interest_getNonce_def Interest_setNonce_def
  Interest_of_name_def nonceTemplate_def Interest_getChangeCount_def ChangeCounter_checkChanged_def ChangeCounter_poll_def
  ChangeCounter_of_def ChangeCounter_poll_of_def KeyLocator_new_def KeyLocator_getChangeCount_def DelegationSet_new_def
  Exclude_new_def SharedPointerChangeCounter_checkChanged_def Name_of_def Name_empty_def Let_def

lemma demo_nonce:
  "\<exists>i. fill_nonce (demo_env 0) (getInterestCopy (demo_env 0) demo_name None) = Some (Inr (), i) \<and> cc_target (i_name i) = demo_name"
  by (simp add: demo_interest_defs demo_env_def demo_name_def demo_refresh)

lemma demo: "\<exists>f. Face_expressInterest_name (demo_env 0) demo_name None None (Some ()) None 0 (Face_new 0) = Some (Inr 1, f) \<and>
    waiting (fa_node f) = [0] \<and> pe_onTimeout (pending 0 (fa_node f)) = Some (App ()) \<and> pe_pendingInterestId (pending 0 (fa_node f)) = 1 \<and>
    entries (fa_node f) = 1"
proof -
  obtain i where i: "fill_nonce (demo_env 0) (getInterestCopy (demo_env 0) demo_name None) = Some (Inr (), i)"
      "cc_target (i_name i) = demo_name" using demo_nonce by blast
  have e: "ne_isAsync (demo_env 0) = False" "ne_connect (demo_env 0) = Inr ()" by (simp_all add: demo_env_def)
  show ?thesis
    using i demo_prefix
    by (simp add: Face_expressInterest_name_def Face_new_def Node_new_def getNextEntryId_def on_node_def Node_expressInterest_def i e record_event_def
        bindR_def transport_connect_def expressInterestHelper_def send_interest_def set_timeout_def Node_callLater_def Let_def
        PendingInterestTable_add_def PendingInterestTable_new_def waiting_def pending_def entries_def)
qed

lemma demo_reachable: "\<exists>f. face_reachable f \<and> waiting (fa_node f) = [0] \<and> pe_onTimeout (pending 0 (fa_node f)) = Some (App ()) \<and>
    pe_pendingInterestId (pending 0 (fa_node f)) = 1 \<and> entries (fa_node f) = 1"
  using demo face_step.express_name face_reachable.intros by blast

theorem completed_at_most_once_witness:
  "\<exists>f :: unit face. waiting (fa_node f) = [0] \<and> completions 0 (fa_node f) = 0"
proof -
  obtain f :: "unit face" where f: "face_reachable f" "waiting (fa_node f) = [0]" using demo_reachable by blast
  with completed_at_most_once [OF f(1), of 0] show ?thesis by auto
qed


theorem interest_times_out_witness:
  "\<exists>(f :: unit face) t f' i. waiting (fa_node f) = [0] \<and> Face_processEvents (demo_env t) [] f = Some (Inr (), f') \<and>
     CalledOnTimeout 0 (App ()) i \<in> set (nd_events (fa_node f')) \<and> 0 \<notin> set (waiting (fa_node f'))"
proof -
  obtain f :: "unit face" where f: "face_reachable f" "waiting (fa_node f) = [0]" "pe_onTimeout (pending 0 (fa_node f)) = Some (App ())"
    using demo_reachable by blast
  from f(2) have "0 \<in> set (waiting (fa_node f))" by simp
  from interest_times_out [OF f(1) this f(3)] obtain t where
    t: "\<forall>env. t \<le> ne_now env \<and> (\<forall>k. ne_later env k = Inr ()) \<longrightarrow>
      (\<exists>f' i. Face_processEvents env [] f = Some (Inr (), f') \<and> CalledOnTimeout 0 (App ()) i \<in> set (nd_events (fa_node f')) \<and>
        completions 0 (fa_node f') = 1 \<and> 0 \<notin> set (waiting (fa_node f')))" by blast
  have "t \<le> ne_now (demo_env t)" "\<forall>k. ne_later (demo_env t) k = Inr ()" by (simp_all add: demo_env_def)
  with t f(2) show ?thesis by blast
qed

end
