(* ===== verification/NodeProperties.thy ===== *)
theory NodeProperties
  imports FaceModel
begin

text \<open>
  What the node does with a packet that it receives, and what is left when sending, connecting or registering a prefix fails.
\<close>

section \<open>Packets received\<close>

lemma empty_lp_packet: "ndn_Tlv0_2WireFormat_decodeLpPacket 5 [100, 0] = Some (Inr (ndn_LpPacket_clear, 2))"
proof -
  have "reads (ndn_decodeTlvLpPacket 5) [] (tlv ndn_Tlv_LpPacket_LpPacket []) [] ndn_LpPacket_clear"
    unfolding ndn_decodeTlvLpPacket_def
  proof (rule reads_nested_bind_at [OF _ refl], goal_cases)
    case 2
    let ?h = "[] @ tlv_header ndn_Tlv_LpPacket_LpPacket (length ([] :: bytes))"
    have "reads (lp_loop 5 (at_pos (?h @ [])) ndn_LpPacket_clear) ?h [] [] ndn_LpPacket_clear"
      by (simp only: append_Nil2) (rule lp_loop_end)
    then show ?case by (rule reads_bind_last) (simp only: append_Nil2 reads_finish_ret)
  qed (simp add: small_input_def tlv_def tlv_header_def var_number_def lp_types)
  then show ?thesis
    by (simp add: reads_def ndn_Tlv0_2WireFormat_decodeLpPacket_def tlv_def tlv_header_def var_number_def lp_types at_pos_def)
qed


text \<open>Data that reaches application callbacks only.\<close>

definition app_only :: "'k node \<Rightarrow> bool" where
  "app_only self \<longleftrightarrow> (\<forall>ref \<in> set (waiting self). \<exists>k. pe_onData (pending ref self) = Some (App k))"

lemma call_onData_all_app:
  assumes "\<forall>ref \<in> set refs. \<exists>k. pe_onData (pending ref s) = Some (App k)"
  shows "call_onData_all d lp refs s =
     Some (s\<lparr>nd_events := nd_events s @ map (\<lambda>ref. CalledOnData ref (the (pe_onData (pending ref s))) (pe_interest (pending ref s)) d lp) refs\<rparr>)"
  using assms
proof (induction refs arbitrary: s)
  case (Cons r refs)
  then obtain k where k: "pe_onData (pending r s) = Some (App k)" by auto
  have p: "pending ref (record_event ev s) = pending ref s" for ref ev by (simp add: pending_def)
  show ?case
    using Cons.IH [of "record_event (CalledOnData r (App k) (pe_interest (pending r s)) d lp) s"] Cons.prems k
    by (simp add: call_onData_def p) (simp add: record_event_def)
qed simp


section \<open>Failures\<close>

text \<open>What sending keeps, whether it throws or not.\<close>

definition keeps_tables :: "'k node \<Rightarrow> 'k node \<Rightarrow> bool" where
  "keeps_tables s s' \<longleftrightarrow>
     waiting s' = waiting s \<and> entries s' = entries s \<and> nd_delayedCallTable s' = nd_delayedCallTable s \<and>
     (\<forall>ref. pe_pendingInterestId (pending ref s') = pe_pendingInterestId (pending ref s)) \<and>
     nd_connectStatus s' = nd_connectStatus s \<and> nd_onConnectedCallbacks s' = nd_onConnectedCallbacks s"

lemma keeps_tables_trans: "keeps_tables s s' \<Longrightarrow> keeps_tables s' s'' \<Longrightarrow> keeps_tables s s''"
  by (simp add: keeps_tables_def)

lemma keeps_tables_record [simp]: "keeps_tables s (record_event ev s)"
  by (simp add: keeps_tables_def waiting_def entries_def pending_def)

lemma keeps_tables_fold: "(\<And>x s. keeps_tables s (f x s)) \<Longrightarrow> keeps_tables s (fold f xs s)"
proof (induction xs arbitrary: s)
  case (Cons x xs)
  from keeps_tables_trans [OF Cons.prems [of s x] Cons.IH [OF Cons.prems]] show ?case by simp
qed (simp add: keeps_tables_def)

lemma dispatch_keeps: "leaves (dispatchInterest env i lp s) (keeps_tables s)"
proof -
  have "keeps_tables s (call_onInterest i lp e s)" for e and s :: "'a node"
    by (cases "fe_onInterest e") (simp_all add: call_onInterest_def keeps_tables_def waiting_def entries_def pending_def)
  then show ?thesis
    by (auto simp: dispatchInterest_def leaves_def keeps_tables_def [of s s] split: sum.splits intro: keeps_tables_fold)
qed

lemma keeps_bind:
  assumes "leaves m (keeps_tables s)" and "\<And>x s'. leaves (f x s') (keeps_tables s')"
  shows "leaves (bindR m f) (keeps_tables s)"
  using assms(1)
proof (rule leaves_bind)
  fix x s' assume "keeps_tables s s'"
  with assms(2) [of x s'] show "leaves (f x s') (keeps_tables s)" by (auto simp: leaves_def intro: keeps_tables_trans)
qed

lemma send_interest_keeps: "leaves (send_interest env ref i fmt s) (keeps_tables s)"
proof -
  have refl: "keeps_tables s s" for s :: "'a node" by (simp add: keeps_tables_def)
  have "leaves (map_option (\<lambda>(r, interest). (r, s\<lparr>nd_pendingInterestTable := Entry_setInterest ref interest (nd_pendingInterestTable s)\<rparr>))
      (encodeInterest env fmt i)) (keeps_tables s)"
    by (auto simp: leaves_def keeps_tables_def waiting_def entries_def pending_def nth_setInterest)
  moreover have "leaves (transport_send env bs s) (keeps_tables s)" for bs and s :: "'a node"
    by (simp add: leaves_def transport_send_def)
  ultimately show ?thesis
    unfolding send_interest_def
    by (auto intro!: leaves_Some leaves_throwN keeps_bind dispatch_keeps refl split: prod.split)
qed

lemma expressInterestHelper_keeps_status:
  assumes "expressInterestHelper env k i od ot on fmt s = Some (r, s')"
  shows "nd_connectStatus s' = nd_connectStatus s" and "nd_onConnectedCallbacks s' = nd_onConnectedCallbacks s"
proof -
  obtain ref t where a: "PendingInterestTable_add k i od ot on (nd_pendingInterestTable s) = (ref, t)" by fastforce
  let ?s = "\<lambda>ref. set_timeout env ref i ot (s\<lparr>nd_pendingInterestTable := t\<rparr>)"
  have "nd_connectStatus (?s ref) = nd_connectStatus s" "nd_onConnectedCallbacks (?s ref) = nd_onConnectedCallbacks s" for ref
    by (simp_all add: set_timeout_def Node_callLater_def Let_def)
  with assms a send_interest_keeps show "nd_connectStatus s' = nd_connectStatus s" "nd_onConnectedCallbacks s' = nd_onConnectedCallbacks s"
    by (cases ref; fastforce simp: expressInterestHelper_def leaves_def keeps_tables_def)+
qed

text \<open>
  An \<^verbatim>\<open>expressInterest\<close> that throws (the encoding is too large, or the transport fails) leaves its Interest in the pending
  interest table with its timeout: although the caller gets an exception and no identifier, \<^verbatim>\<open>onTimeout\<close> or \<^verbatim>\<open>onData\<close> may still be called.
\<close>

theorem failed_interest_stays_pending:
  assumes "expressInterestHelper env k i od ot on fmt s = Some (Inl e, s')"
  shows "waiting s' = waiting s @ [entries s] \<and> pe_pendingInterestId (pending (entries s) s') = k \<and>
     (ot \<noteq> None \<or> 0 \<le> i_interestLifetimeMilliseconds i \<longrightarrow>
        InterestTimeout (entries s) \<in> dc_callback ` set (nd_delayedCallTable s'))"
proof -
  obtain ref t where a: "PendingInterestTable_add k i od ot on (nd_pendingInterestTable s) = (ref, t)" by fastforce
  then obtain r where r: "ref = Some r" using assms by (cases ref) (simp_all add: expressInterestHelper_def)
  define s1 where "s1 = set_timeout env r i ot (s\<lparr>nd_pendingInterestTable := t\<rparr>)"
  have t: "r = entries s" "pt_table t = waiting s @ [r]" "pe_pendingInterestId (pt_store t ! r) = k"
    using a r by (auto simp: PendingInterestTable_add_def Let_def waiting_def entries_def split: if_splits)
  have s1: "waiting s1 = waiting s @ [r]" "pe_pendingInterestId (pending r s1) = k"
    using t by (simp_all add: s1_def set_timeout_def Node_callLater_def Let_def waiting_def pending_def)
  have later: "ot \<noteq> None \<or> 0 \<le> i_interestLifetimeMilliseconds i \<Longrightarrow>
      InterestTimeout r \<in> dc_callback ` set (nd_delayedCallTable s1)"
    by (auto simp: s1_def set_timeout_def Node_callLater_def Let_def set_callLater Entry_new_def)
  have "send_interest env r i fmt s1 = Some (Inl e, s')"
    using assms a r by (simp add: expressInterestHelper_def s1_def)
  from leavesD [OF send_interest_keeps this] have "keeps_tables s1 s'" .
  with s1 later t(1) show ?thesis by (simp add: keeps_tables_def)
qed

lemma onConnected_loop_keeps:
  "onConnected_loop env calls s = Some (r, s') \<Longrightarrow>
   nd_connectStatus s' = nd_connectStatus s \<and> nd_onConnectedCallbacks s' = nd_onConnectedCallbacks s"
proof (induction calls arbitrary: s)
  case (Cons c calls)
  obtain q s1 where q: "expressInterestHelper env (oc_pendingInterestId c) (oc_interestCopy c) (oc_onData c) (oc_onTimeout c)
      (oc_onNetworkNack c) (oc_wireFormat c) s = Some (q, s1)"
    using Cons.prems by (auto simp: bindR_def bind_eq_Some_conv)
  note st = expressInterestHelper_keeps_status [OF q]
  show ?case
  proof (cases q)
    case (Inl e)
    with Cons.prems q st show ?thesis by (simp add: bindR_def)
  next
    case (Inr u)
    with Cons.prems q have "onConnected_loop env calls s1 = Some (r, s')" by (simp add: bindR_def)
    from Cons.IH [OF this] st show ?thesis by simp
  qed
qed simp

text \<open>
  C22.  When one of the Interests queued for the connection cannot be sent, \<^verbatim>\<open>onConnected\<close> throws and the node stays in the state of a
  requested connection with all its callbacks queued: from then on \<^verbatim>\<open>expressInterest\<close> on that asynchronous transport sends nothing
  and only queues.
\<close>

theorem connect_failure_is_permanent:
  assumes "nd_connectStatus s = ConnectStatus_CONNECT_REQUESTED" and "onConnected env s = Some (Inl e, s')"
  shows "nd_connectStatus s' = ConnectStatus_CONNECT_REQUESTED \<and> nd_onConnectedCallbacks s' = nd_onConnectedCallbacks s \<and>
     (\<forall>env' k i od ot on fmt. ne_isAsync env' \<longrightarrow>
        (case Node_expressInterest env' k i od ot on fmt s' of
           Some (_, s'') \<Rightarrow> nd_events s'' = nd_events s' \<and> nd_connectStatus s'' = ConnectStatus_CONNECT_REQUESTED
         | None \<Rightarrow> True))"
proof -
  obtain q s1 where q: "onConnected_loop env (nd_onConnectedCallbacks s) s = Some (q, s1)"
    using assms(2) by (auto simp: onConnected_def bindR_def bind_eq_Some_conv)
  with assms(2) have "s' = s1" by (cases q) (auto simp: onConnected_def bindR_def)
  with onConnected_loop_keeps [OF q] assms(1)
  have s': "nd_connectStatus s' = ConnectStatus_CONNECT_REQUESTED" "nd_onConnectedCallbacks s' = nd_onConnectedCallbacks s" by simp_all
  have "case Node_expressInterest env' k i od ot on fmt s' of
           Some (_, s'') \<Rightarrow> nd_events s'' = nd_events s' \<and> nd_connectStatus s'' = ConnectStatus_CONNECT_REQUESTED
         | None \<Rightarrow> True" if "ne_isAsync env'" for env' and k i od ot on fmt
    using that s'(1)
    by (cases "fill_nonce env' i") (auto simp: Node_expressInterest_def bindR_def push_connected_def split: sum.splits)
  with s' show ?thesis by blast
qed

text \<open>An Interest that does not encode: its name has more components than the encoder takes.\<close>

definition long_interest :: interest where
  "long_interest = Interest_of_name True False (Name_of (replicate 101 (Component_generic (Some [97]))))"

lemma appendList_full: "cn_maxComponents n < length (cn_components n) + length cs \<Longrightarrow> \<exists>e. cs = [] \<or> ndn_Name_appendList cs n = Inl e"
proof (induction cs arbitrary: n)
  case (Cons c cs)
  show ?case
  proof (cases "length (cn_components n) \<ge> cn_maxComponents n")
    case True
    then show ?thesis by (simp add: ndn_Name_appendNameComponent_def)
  next
    case False
    then have "cs \<noteq> []" using Cons.prems by auto
    with False Cons.IH [of "n\<lparr>cn_components := cn_components n @ [c]\<rparr>"] Cons.prems show ?thesis
      by (simp add: ndn_Name_appendNameComponent_def)
  qed
qed simp

lemma long_interest_fails: "\<exists>e i. encodeInterest (demo_env 0) 0 long_interest = Some (Inl e, i)"
proof -
  let ?cs = "replicate 101 (Component_generic (Some [97]))"
  obtain e where e: "ndn_Name_appendList (map Component_lite ?cs) \<lparr>cn_components = [], cn_maxComponents = 100\<rparr> = Inl e"
    using appendList_full [of "\<lparr>cn_components = [], cn_maxComponents = 100\<rparr>" "map Component_lite ?cs"] by auto
  have get: "Interest_get tlv_formats 0 interest_maxes i = Some (Inl (RuntimeError (ndn_getErrorString e)), i)"
    if "cc_target (i_name i) = Name_of ?cs" for i
    using that e by (simp add: Interest_get_def Name_get_lite_def Name_of_def MAX_NAME_COMPONENTS_def)
  have "\<exists>i. Interest_getDefaultWireEncoding long_interest = (None, i) \<and> cc_target (i_name i) = Name_of ?cs"
    by (simp add: long_interest_def Interest_getDefaultWireEncoding_def demo_interest_defs)
  then obtain i where i: "Interest_getDefaultWireEncoding long_interest = (None, i)" "cc_target (i_name i) = Name_of ?cs" by blast
  then show ?thesis
    by (simp add: encodeInterest_def Interest_wireEncode_def demo_env_def Tlv_encodeInterest_def get)
qed

definition demo_call :: "unit connected_call" where
  "demo_call = \<lparr>oc_pendingInterestId = 1, oc_interestCopy = long_interest, oc_onData = None, oc_onTimeout = Some (App ()),
     oc_onNetworkNack = None, oc_wireFormat = 0\<rparr>"

lemma long_interest_not_local: "\<not> Name_match (snd (Name_set (str ''/local/timeout'') (Name_of []))) (cc_target (i_name long_interest))"
proof -
  have "cc_target (i_name long_interest) = Name_of (replicate 101 (Component_generic (Some [97])))"
    by (simp add: long_interest_def Interest_of_name_def ChangeCounter_of_def)
  moreover have "\<not> Name_match (snd (Name_set (str ''/local/timeout'') (Name_of []))) (Name_of (replicate 101 (Component_generic (Some [97]))))"
    by code_simp
  ultimately show ?thesis by simp
qed

lemma long_interest_throws:
  assumes "nd_timeoutPrefix s = snd (Name_set (str ''/local/timeout'') (Name_of []))" and "nd_pendingInterestTable s = PendingInterestTable_new"
  shows "\<exists>e s'. expressInterestHelper (demo_env 0) 1 long_interest None (Some (App ())) None 0 s = Some (Inl e, s')"
proof -
  obtain e i where e: "encodeInterest (demo_env 0) 0 long_interest = Some (Inl e, i)" using long_interest_fails by blast
  show ?thesis
    using e long_interest_not_local assms
    by (simp add: expressInterestHelper_def PendingInterestTable_add_def PendingInterestTable_new_def Let_def send_interest_def
        set_timeout_def Node_callLater_def bindR_def del: str_Cons)
qed

theorem failed_interest_stays_pending_witness:
  "\<exists>e s'. expressInterestHelper (demo_env 0) 1 long_interest None (Some (App ())) None 0 (Node_new 0) = Some (Inl e, s') \<and>
     waiting s' = [0] \<and> InterestTimeout 0 \<in> dc_callback ` set (nd_delayedCallTable s')"
proof -
  obtain e s' where s': "expressInterestHelper (demo_env 0) 1 long_interest None (Some (App ())) None 0 (Node_new 0) = Some (Inl e, s')"
    using long_interest_throws [of "Node_new 0"] by (auto simp: Node_new_def)
  from failed_interest_stays_pending [OF this] s' show ?thesis
    by (auto simp: Node_new_def waiting_def entries_def PendingInterestTable_new_def)
qed

theorem connect_failure_is_permanent_witness:
  "\<exists>e s'. onConnected (demo_env 0) ((Node_new 0)\<lparr>nd_connectStatus := ConnectStatus_CONNECT_REQUESTED, nd_onConnectedCallbacks := [demo_call]\<rparr>) =
       Some (Inl e, s') \<and> nd_onConnectedCallbacks s' = [demo_call] \<and> nd_connectStatus s' = ConnectStatus_CONNECT_REQUESTED"
proof -
  define s where "s = (Node_new 0)\<lparr>nd_connectStatus := ConnectStatus_CONNECT_REQUESTED, nd_onConnectedCallbacks := [demo_call]\<rparr>"
  obtain e s' where "expressInterestHelper (demo_env 0) 1 long_interest None (Some (App ())) None 0 s = Some (Inl e, s')"
    using long_interest_throws [of s] by (auto simp: s_def Node_new_def)
  then have c: "onConnected (demo_env 0) s = Some (Inl e, s')"
    by (simp add: onConnected_def s_def demo_call_def bindR_def)
  have "nd_connectStatus s = ConnectStatus_CONNECT_REQUESTED" by (simp add: s_def)
  from connect_failure_is_permanent [OF this c] c show ?thesis by (auto simp: s_def)
qed

section \<open>Registering a prefix\<close>

text \<open>
  C23.  When NFD answers a prefix registration with status 200, the node sets the interest filter of the combined form under a new
  identifier, adds the prefix with that filter and calls \<^verbatim>\<open>onRegisterSuccess\<close>.  If the application removed the prefix in the meantime, the
  tables are left as they were, the removal request is used up, and no callback is called at all.
\<close>

theorem register_response_success:
  assumes "Tlv_decodeControlResponse (blob_bytes (dt_content d)) = Some (Inr response)" and "cr_statusCode response = 200"
    and "ri_registeredPrefixId info \<noteq> 0" and "ri_onInterest info = Some k" and "ri_onRegisterSuccess info = Some k'"
    and "nd_lastEntryId s + 1 \<noteq> 0" and "nd_lastEntryId s + 1 \<notin> fe_interestFilterId ` set (rt_interestFilterTable (nd_registeredPrefixTable s))"
  shows "let new = nd_lastEntryId s + 1; rt = nd_registeredPrefixTable s; p = ri_registeredPrefixId info in
     \<exists>s'. RegisterResponse_onData info d s = Some s' \<and>
       (if p \<in> set (rt_removeRequests rt)
        then nd_registeredPrefixTable s' = rt\<lparr>rt_removeRequests := remove1 p (rt_removeRequests rt)\<rparr> \<and> nd_events s' = nd_events s
        else rt_interestFilterTable (nd_registeredPrefixTable s') =
               rt_interestFilterTable rt @ [\<lparr>fe_interestFilterId = new, fe_filter = InterestFilter_of_prefix (ri_prefix info),
                  fe_prefix = ri_prefix info, fe_onInterest = Some k\<rparr>] \<and>
             rt_table (nd_registeredPrefixTable s') =
               rt_table rt @ [\<lparr>re_registeredPrefixId = p, re_prefix = ri_prefix info, re_relatedInterestFilterId = new\<rparr>] \<and>
             nd_events s' = nd_events s @ [CalledOnRegisterSuccess k' (ri_prefix info) p])"
proof -
  have pos: "nd_lastEntryId s + 1 > 0" using assms(6) by (simp add: word_neq_0_conv)
  have absent: "filter (\<lambda>e. fe_interestFilterId e \<noteq> nd_lastEntryId s + 1) (rt_interestFilterTable (nd_registeredPrefixTable s)) =
      rt_interestFilterTable (nd_registeredPrefixTable s)"
    using assms(7) by (force simp: filter_id_conv)
  have "RegisterResponse_onData info d s = Some (register_success info s)"
    using assms(1,2) by (simp add: RegisterResponse_onData_def)
  then show ?thesis
    using assms(3-5) pos absent
    by (simp add: Let_def register_success_def getNextEntryId_def Node_setInterestFilter_def Node_unsetInterestFilter_def filters_apply_def
        setInterestFilter_def InterestFilter_of_prefix_def RegisteredPrefixTable_add_def unsetInterestFilter_eq call_onRegisterSuccess_def)
qed

lemma demo_response: "map_option (map_sum id cr_statusCode) (Tlv_decodeControlResponse [101, 5, 102, 1, 200, 103, 0]) = Some (Inr 200)"
  by code_simp

lemma demo_sum: "map_sum id f x = Inr y \<Longrightarrow> (\<And>z. x = Inr z \<Longrightarrow> f z = y \<Longrightarrow> P) \<Longrightarrow> P"
  by (cases x) auto

theorem register_response_success_witness:
  "\<exists>s'. RegisterResponse_onData \<lparr>ri_prefix = demo_name, ri_onRegisterFailed = None, ri_onRegisterSuccess = Some ''yes'',
        ri_registeredPrefixId = 7, ri_onInterest = Some ''interest''\<rparr>
      (Data_setContent (Some [101, 5, 102, 1, 200, 103, 0]) Data_new) (Node_new 0) = Some s' \<and>
    nd_events s' = [CalledOnRegisterSuccess ''yes'' demo_name 7]"
proof -
  obtain response where r: "Tlv_decodeControlResponse [101, 5, 102, 1, 200, 103, 0] = Some (Inr response)" "cr_statusCode response = 200"
    using demo_response by (cases "Tlv_decodeControlResponse [101, 5, 102, 1, 200, 103, 0]") (auto split: sum.splits elim!: demo_sum)
  have c: "Tlv_decodeControlResponse (blob_bytes (dt_content (Data_setContent (Some [101, 5, 102, 1, 200, 103, 0]) Data_new))) = Some (Inr response)"
    using r(1) by (simp add: Data_setContent_def)
  from register_response_success [where s = "Node_new 0" and k = "''interest''" and k' = "''yes''" and
      info = "\<lparr>ri_prefix = demo_name, ri_onRegisterFailed = None, ri_onRegisterSuccess = Some ''yes'',
        ri_registeredPrefixId = 7, ri_onInterest = Some ''interest''\<rparr>", OF c r(2)]
  show ?thesis by (auto simp: Let_def Node_new_def RegisteredPrefixTable_new_def)
qed

definition demo_data :: data where
  "demo_data = Data_new\<lparr>dt_signature := \<lparr>sp_target = None, sp_changeCount = 0\<rparr>, dt_defaultWireEncoding := Some ([], 0, 0), dt_defaultWireEncodingFormat := Some 0,
     dt_defaultFullName := Name_of [Component_generic (Some (replicate 32 0))]\<rparr>"


end
