(* ===== verification/Intervals.thy ===== *)
theory Intervals
  imports IsoTime NameOps "HOL-Library.Product_Lexorder"
begin

text \<open>
  The times at which a group member may access data: \<^verbatim>\<open>encrypt/interval.[ch]pp\<close> and \<^verbatim>\<open>encrypt/repetitive-interval.[ch]pp\<close>.
  A time in milliseconds is a \<^verbatim>\<open>double\<close>, modelled as a real number.  A result of None is undefined behaviour: a double converted
  to an integer type that does not hold it, or a division by zero.
\<close>

section \<open>Interval\<close>

text \<open>\<^verbatim>\<open>Interval::Error\<close>, which a caller catches, next to the exceptions it does not.\<close>

datatype interval_exn = IntervalError bytes | OtherExn exn

record interval =
  iv_startTime :: real
  iv_endTime :: real
  iv_isValid :: bool

definition Interval_new_empty :: "bool \<Rightarrow> interval" where
  "Interval_new_empty valid = \<lparr>iv_startTime = - DBL_MAX, iv_endTime = - DBL_MAX, iv_isValid = valid\<rparr>"

definition Interval_new :: "real \<Rightarrow> real \<Rightarrow> interval result" where
  "Interval_new start end =
     (if \<not> start < end then Inl (RuntimeError (str ''Interval start time must be less than the end time''))
      else Inr \<lparr>iv_startTime = start, iv_endTime = end, iv_isValid = True\<rparr>)"

definition Interval_set :: "interval \<Rightarrow> interval \<Rightarrow> interval" where
  "Interval_set other self =
     self\<lparr>iv_startTime := iv_startTime other, iv_endTime := iv_endTime other, iv_isValid := iv_isValid other\<rparr>"

definition Interval_getStartTime :: "interval \<Rightarrow> real result" where
  "Interval_getStartTime self =
     (if \<not> iv_isValid self then Inl (RuntimeError (str ''Interval.getStartTime: This Interval is invalid''))
      else Inr (iv_startTime self))"

definition Interval_getEndTime :: "interval \<Rightarrow> real result" where
  "Interval_getEndTime self =
     (if \<not> iv_isValid self then Inl (RuntimeError (str ''Interval.getEndTime: This Interval is invalid''))
      else Inr (iv_endTime self))"

definition Interval_isEmpty :: "interval \<Rightarrow> bool result" where
  "Interval_isEmpty self =
     (if \<not> iv_isValid self then Inl (RuntimeError (str ''Interval.isEmpty: This Interval is invalid''))
      else Inr (iv_startTime self = iv_endTime self))"

definition Interval_covers :: "real \<Rightarrow> interval \<Rightarrow> bool result" where
  "Interval_covers timePoint self =
     (if \<not> iv_isValid self then Inl (RuntimeError (str ''Interval.covers: This Interval is invalid''))
      else bindE (Interval_isEmpty self) (\<lambda>isEmpty.
             Inr (if isEmpty then False else iv_startTime self \<le> timePoint \<and> timePoint < iv_endTime self)))"

definition Interval_intersectWith :: "interval \<Rightarrow> interval \<Rightarrow> interval result" where
  "Interval_intersectWith self other =
     (if \<not> iv_isValid self then Inl (RuntimeError (str ''Interval.intersectWith: This Interval is invalid''))
      else if \<not> iv_isValid other then Inl (RuntimeError (str ''Interval.intersectWith: The other Interval is invalid''))
      else bindE (Interval_isEmpty self) (\<lambda>isEmpty. bindE (Interval_isEmpty other) (\<lambda>otherIsEmpty.
        if isEmpty \<or> otherIsEmpty then Inr (self\<lparr>iv_startTime := iv_endTime self\<rparr>)
        else if iv_startTime self \<ge> iv_endTime other \<or> iv_endTime self \<le> iv_startTime other
        then Inr (self\<lparr>iv_startTime := iv_endTime self\<rparr>)
        else let self = (if iv_startTime self \<le> iv_startTime other then self\<lparr>iv_startTime := iv_startTime other\<rparr> else self)
             in Inr (if iv_endTime self > iv_endTime other then self\<lparr>iv_endTime := iv_endTime other\<rparr> else self))))"

fun other_exn :: "'a result \<Rightarrow> interval_exn + 'a" where
  "other_exn (Inl e) = Inl (OtherExn e)"
| "other_exn (Inr a) = Inr a"

definition Interval_unionWith :: "interval \<Rightarrow> interval \<Rightarrow> interval_exn + interval" where
  "Interval_unionWith self other =
     (if \<not> iv_isValid self then Inl (OtherExn (RuntimeError (str ''Interval.intersectWith: This Interval is invalid'')))
      else if \<not> iv_isValid other
      then Inl (OtherExn (RuntimeError (str ''Interval.intersectWith: The other Interval is invalid'')))
      else bindE (other_exn (Interval_isEmpty self)) (\<lambda>isEmpty.
        if isEmpty then Inr (self\<lparr>iv_startTime := iv_startTime other, iv_endTime := iv_endTime other\<rparr>)
        else bindE (other_exn (Interval_isEmpty other)) (\<lambda>otherIsEmpty.
          if otherIsEmpty then Inr self
          else if iv_startTime self \<ge> iv_endTime other \<or> iv_endTime self \<le> iv_startTime other
          then Inl (IntervalError (str ''Interval.unionWith: The two intervals do not have an intersection''))
          else let self = (if iv_startTime self > iv_startTime other then self\<lparr>iv_startTime := iv_startTime other\<rparr> else self)
               in Inr (if iv_endTime self < iv_endTime other then self\<lparr>iv_endTime := iv_endTime other\<rparr> else self))))"

text \<open>The points of an interval, its start included and its end not.\<close>

definition iv_points :: "interval \<Rightarrow> real set" where
  "iv_points i = {t. iv_startTime i \<le> t \<and> t < iv_endTime i}"

definition iv_ok :: "interval \<Rightarrow> bool" where
  "iv_ok i \<longleftrightarrow> iv_isValid i \<and> iv_startTime i \<le> iv_endTime i"

lemma iv_ok_simps [simp]:
  "iv_ok (Interval_new_empty True)" "iv_points (Interval_new_empty b) = {}" "\<not> iv_ok (Interval_new_empty False)"
  by (simp_all add: iv_ok_def Interval_new_empty_def iv_points_def)

lemma iv_points_empty: "iv_ok i \<Longrightarrow> iv_points i = {} \<longleftrightarrow> iv_startTime i = iv_endTime i"
  by (auto simp: iv_ok_def iv_points_def)

lemma Interval_isEmpty_points: "iv_ok i \<Longrightarrow> Interval_isEmpty i = Inr (iv_points i = {})"
  by (simp add: iv_points_empty) (simp add: Interval_isEmpty_def iv_ok_def)

lemma Interval_covers_points: "iv_ok i \<Longrightarrow> Interval_covers t i = Inr (t \<in> iv_points i)"
  by (auto simp: Interval_covers_def Interval_isEmpty_def iv_ok_def iv_points_def)

lemma Interval_new_points: "Interval_new a b = Inr i \<Longrightarrow> iv_ok i \<and> iv_points i = {a ..< b}"
  by (auto simp: Interval_new_def iv_ok_def iv_points_def split: if_splits)

lemma Interval_intersect_points:
  assumes "iv_ok a" and "iv_ok b"
  shows "\<exists>c. Interval_intersectWith a b = Inr c \<and> iv_ok c \<and> iv_points c = iv_points a \<inter> iv_points b"
  using assms by (auto simp: Interval_intersectWith_def Interval_isEmpty_def iv_ok_def iv_points_def Let_def)

lemma Interval_union_points:
  assumes "iv_ok a" and "iv_ok b" and "t \<in> iv_points b" and "iv_points a = {} \<or> t \<in> iv_points a"
  shows "\<exists>c. Interval_unionWith a b = Inr c \<and> iv_ok c \<and> iv_points c = iv_points a \<union> iv_points b"
  using assms by (auto simp: Interval_unionWith_def Interval_isEmpty_def iv_ok_def iv_points_def Let_def)

section \<open>RepetitiveInterval\<close>

datatype repeat_unit = NONE | DAY | MONTH | YEAR

primrec repeat_unit_value :: "repeat_unit \<Rightarrow> nat" where
  "repeat_unit_value NONE = 0"
| "repeat_unit_value DAY = 1"
| "repeat_unit_value MONTH = 2"
| "repeat_unit_value YEAR = 3"

lemma repeat_unit_value_eq [simp]: "repeat_unit_value x = repeat_unit_value y \<longleftrightarrow> x = y"
  by (cases x; cases y) simp_all

text \<open>The enumerators compare as the integers they stand for.\<close>

instantiation repeat_unit :: linorder
begin

definition less_eq_repeat_unit :: "repeat_unit \<Rightarrow> repeat_unit \<Rightarrow> bool" where
  "x \<le> y \<longleftrightarrow> repeat_unit_value x \<le> repeat_unit_value y"

definition less_repeat_unit :: "repeat_unit \<Rightarrow> repeat_unit \<Rightarrow> bool" where
  "x < y \<longleftrightarrow> repeat_unit_value x < repeat_unit_value y"

instance
proof
  fix x y z :: repeat_unit
  show "x < y \<longleftrightarrow> x \<le> y \<and> \<not> y \<le> x" by (auto simp: less_eq_repeat_unit_def less_repeat_unit_def)
  show "x \<le> x" by (simp add: less_eq_repeat_unit_def)
  show "x \<le> y \<Longrightarrow> y \<le> z \<Longrightarrow> x \<le> z" by (simp add: less_eq_repeat_unit_def)
  show "x \<le> y \<Longrightarrow> y \<le> x \<Longrightarrow> x = y" by (simp add: less_eq_repeat_unit_def flip: repeat_unit_value_eq)
  show "x \<le> y \<or> y \<le> x" by (auto simp: less_eq_repeat_unit_def)
qed

end

record repetitive_interval =
  ri_startDate :: real
  ri_endDate :: real
  ri_intervalStartHour :: int
  ri_intervalEndHour :: int
  ri_nRepeats :: int
  ri_repeatUnit :: repeat_unit

definition MILLISECONDS_IN_HOUR :: u64 where "MILLISECONDS_IN_HOUR = 3600 * 1000"
definition MILLISECONDS_IN_DAY :: u64 where "MILLISECONDS_IN_DAY = 24 * 3600 * 1000"

text \<open>\<^verbatim>\<open>(uint64_t)x\<close> of a double: the fraction is dropped, and the value must fit.\<close>

definition uint64_of_double :: "real \<Rightarrow> u64 option" where
  "uint64_of_double x = (if - 1 < x \<and> x < 2 ^ 64 then Some (word_of_int (if x < 0 then 0 else \<lfloor>x\<rfloor>)) else None)"

definition toDateOnlyMilliseconds :: "real \<Rightarrow> real option" where
  "toDateOnlyMilliseconds timePoint =
     map_option (\<lambda>result :: u64. real_of_int (uint (result - result mod MILLISECONDS_IN_DAY)))
       (uint64_of_double (real_of_int (c_round timePoint)))"

definition RepetitiveInterval_new_default :: repetitive_interval where
  "RepetitiveInterval_new_default =
     \<lparr>ri_startDate = - DBL_MAX, ri_endDate = - DBL_MAX, ri_intervalStartHour = 0, ri_intervalEndHour = 24,
      ri_nRepeats = 0, ri_repeatUnit = NONE\<rparr>"

definition RepetitiveInterval_new ::
  "real \<Rightarrow> real \<Rightarrow> int \<Rightarrow> int \<Rightarrow> int \<Rightarrow> repeat_unit \<Rightarrow> repetitive_interval result option" where
  "RepetitiveInterval_new start end intervalStartHour intervalEndHour nRepeats repeatUnit =
     Option.bind (toDateOnlyMilliseconds start) (\<lambda>startDate.
     Option.bind (toDateOnlyMilliseconds end) (\<lambda>endDate. Some (
       if \<not> intervalStartHour < intervalEndHour
       then Inl (RuntimeError (str ''ReptitiveInterval: startHour must be less than endHour''))
       else if \<not> startDate \<le> endDate
       then Inl (RuntimeError (str ''ReptitiveInterval: startDate must be earlier than or same as endDate''))
       else if \<not> intervalStartHour \<ge> 0
       then Inl (RuntimeError (str ''ReptitiveInterval: intervalStartHour must be non-negative''))
       else if \<not> (intervalEndHour \<ge> 1 \<and> intervalEndHour \<le> 24)
       then Inl (RuntimeError (str ''ReptitiveInterval: intervalEndHour must be from 1 to 24''))
       else if repeatUnit = NONE \<and> \<not> startDate = endDate
       then Inl (RuntimeError (str ''ReptitiveInterval: With RepeatUnit.NONE, startDate must equal endDate''))
       else Inr \<lparr>ri_startDate = startDate, ri_endDate = endDate, ri_intervalStartHour = intervalStartHour,
                 ri_intervalEndHour = intervalEndHour, ri_nRepeats = nRepeats, ri_repeatUnit = repeatUnit\<rparr>)))"

text \<open>\<^verbatim>\<open>a % n == 0\<close>, on \<^verbatim>\<open>uint64_t\<close> and on \<^verbatim>\<open>int\<close>.\<close>

definition divides_u64 :: "u64 \<Rightarrow> u64 \<Rightarrow> bool option" where
  "divides_u64 n a = (if n = 0 then None else Some (a mod n = 0))"

definition divides_int :: "int \<Rightarrow> int \<Rightarrow> bool option" where
  "divides_int n a = (if n = 0 then None else Some (a mod n = 0))"

definition hasIntervalOnDate :: "real \<Rightarrow> repetitive_interval \<Rightarrow> bool option" where
  "hasIntervalOnDate timePoint self =
     Option.bind (toDateOnlyMilliseconds timePoint) (\<lambda>timePointDateMilliseconds.
       if timePointDateMilliseconds < ri_startDate self \<or> timePointDateMilliseconds > ri_endDate self then Some False
       else case ri_repeatUnit self of
         NONE \<Rightarrow> Some True
       | DAY \<Rightarrow>
           Option.bind (uint64_of_double (timePointDateMilliseconds - ri_startDate self)) (\<lambda>duration.
             divides_u64 (word_of_int (ri_nRepeats self)) (duration div MILLISECONDS_IN_DAY))
       | _ \<Rightarrow>
           (let timePointDateTm = gmtime \<lfloor>timePointDateMilliseconds / 1000\<rfloor>;
                startDateTm = gmtime \<lfloor>ri_startDate self / 1000\<rfloor>
            in if ri_repeatUnit self = MONTH \<and> tm_mday timePointDateTm = tm_mday startDateTm
               then let yearDifference = tm_year timePointDateTm - tm_year startDateTm;
                        monthDifference = 12 * yearDifference + tm_mon timePointDateTm - tm_mon startDateTm
                    in divides_int (ri_nRepeats self) monthDifference
               else if ri_repeatUnit self = YEAR \<and> tm_mday timePointDateTm = tm_mday startDateTm \<and>
                    tm_mon timePointDateTm = tm_mon startDateTm
               then divides_int (ri_nRepeats self) (tm_year timePointDateTm - tm_year startDateTm)
               else Some False))"

definition hour_ms :: "int \<Rightarrow> real" where
  "hour_ms hour = real_of_int (uint (word_of_int hour * MILLISECONDS_IN_HOUR))"

definition getInterval :: "real \<Rightarrow> repetitive_interval \<Rightarrow> (bool \<times> interval) result option" where
  "getInterval timePoint self =
     Option.bind (hasIntervalOnDate timePoint self) (\<lambda>hasInterval.
     Option.bind (toDateOnlyMilliseconds timePoint) (\<lambda>date.
       let (isPositive, startTime, endTime) =
         (if \<not> hasInterval then (False, date, date + real_of_int (uint (24 * MILLISECONDS_IN_HOUR)))
          else let startTime = date + hour_ms (ri_intervalStartHour self);
                   endTime = date + hour_ms (ri_intervalEndHour self)
               in if timePoint < startTime then (False, date, startTime)
                  else if timePoint > endTime then (False, endTime, date + real_of_int (uint MILLISECONDS_IN_DAY))
                  else (True, startTime, endTime))
       in Some (bindE (Interval_new startTime endTime) (\<lambda>interval. Inr (isPositive, interval)))))"

definition RepetitiveInterval_compare :: "repetitive_interval \<Rightarrow> repetitive_interval \<Rightarrow> int" where
  "RepetitiveInterval_compare self other =
     (if ri_startDate self < ri_startDate other then -1
      else if ri_startDate self > ri_startDate other then 1
      else if ri_endDate self < ri_endDate other then -1
      else if ri_endDate self > ri_endDate other then 1
      else if ri_intervalStartHour self < ri_intervalStartHour other then -1
      else if ri_intervalStartHour self > ri_intervalStartHour other then 1
      else if ri_intervalEndHour self < ri_intervalEndHour other then -1
      else if ri_intervalEndHour self > ri_intervalEndHour other then 1
      else if ri_nRepeats self < ri_nRepeats other then -1
      else if ri_nRepeats self > ri_nRepeats other then 1
      else if ri_repeatUnit self < ri_repeatUnit other then -1
      else if ri_repeatUnit self > ri_repeatUnit other then 1
      else 0)"

section \<open>The order of repetitive intervals\<close>

definition ri_key :: "repetitive_interval \<Rightarrow> real \<times> real \<times> int \<times> int \<times> int \<times> repeat_unit" where
  "ri_key r = (ri_startDate r, ri_endDate r, ri_intervalStartHour r, ri_intervalEndHour r, ri_nRepeats r, ri_repeatUnit r)"

lemma ri_key_eq [simp]: "ri_key a = ri_key b \<longleftrightarrow> a = b"
  by (cases a; cases b) (simp add: ri_key_def)

text \<open>\<^verbatim>\<open>compare\<close> is the lexicographic order of the fields.\<close>

lemma compare_key:
  "RepetitiveInterval_compare a b = (if ri_key a < ri_key b then -1 else if a = b then 0 else 1)"
proof -
  have "ri_key a < ri_key b \<longleftrightarrow> RepetitiveInterval_compare a b = -1"
    by (auto simp: RepetitiveInterval_compare_def ri_key_def less_prod_def)
  moreover have "ri_key a = ri_key b \<longleftrightarrow> RepetitiveInterval_compare a b = 0"
    by (auto simp: RepetitiveInterval_compare_def ri_key_def)
  moreover have "RepetitiveInterval_compare a b \<in> {-1, 0, 1}"
    by (simp add: RepetitiveInterval_compare_def)
  ultimately show ?thesis by auto
qed

definition ri_less :: "repetitive_interval \<Rightarrow> repetitive_interval \<Rightarrow> bool" where
  "ri_less x y \<longleftrightarrow> RepetitiveInterval_compare x y < 0"

lemma ri_less_key: "ri_less x y \<longleftrightarrow> ri_key x < ri_key y"
  by (simp add: ri_less_def compare_key)

interpretation intervals: sorted_table "\<lambda>_. True" ri_less
  by unfold_locales (auto simp: ri_less_key)

section \<open>Dates\<close>

definition day_ms :: int where "day_ms = 86400000"

definition day_start :: "int \<Rightarrow> int" where
  "day_start n = n - n mod day_ms"

lemma day_start_bounds: "day_start n \<le> n" "n < day_start n + day_ms"
  using pos_mod_sign [of day_ms n] pos_mod_bound [of day_ms n] by (simp_all add: day_start_def day_ms_def)

lemma day_start_nonneg: "0 \<le> n \<Longrightarrow> 0 \<le> day_start n"
  by (simp add: day_start_def day_ms_def zmod_le_nonneg_dividend)

lemma day_start_unique:
  assumes "day_start n \<le> m" and "m < day_start n + day_ms" shows "day_start m = day_start n"
proof -
  have "m = day_start n + (m - day_start n)" by simp
  moreover have "day_start n mod day_ms = 0" by (simp add: day_start_def)
  ultimately have "m mod day_ms = (m - day_start n) mod day_ms" by (metis add.left_neutral mod_add_left_eq)
  also have "\<dots> = m - day_start n" using assms by (intro mod_pos_pos_trivial) simp_all
  finally show ?thesis by (simp add: day_start_def)
qed

lemma day_start_idem [simp]: "day_start (day_start n) = day_start n"
  by (rule day_start_unique) (simp_all add: day_ms_def)

lemma uint_day: "uint MILLISECONDS_IN_DAY = day_ms"
  by (simp add: MILLISECONDS_IN_DAY_def day_ms_def)

lemma uint_hours: "uint (24 * MILLISECONDS_IN_HOUR) = day_ms"
  by (simp add: MILLISECONDS_IN_HOUR_def day_ms_def)

lemma hour_ms: "0 \<le> h \<Longrightarrow> h \<le> 24 \<Longrightarrow> hour_ms h = real_of_int (h * 3600000)"
  by (simp add: hour_ms_def MILLISECONDS_IN_HOUR_def uint_word_ariths uint_word_of_int)

lemma c_round_of_int [simp]: "c_round (of_int n) = n"
proof -
  have "\<lfloor>real_of_int n + 1 / 2\<rfloor> = n" "\<lceil>real_of_int n - 1 / 2\<rceil> = n" by linarith+
  then show ?thesis by (simp add: c_round_def)
qed

lemma uint64_of_double_int [simp]: "0 \<le> n \<Longrightarrow> n < 2 ^ 64 \<Longrightarrow> uint64_of_double (of_int n) = Some (word_of_int n)"
proof -
  assume "0 \<le> n" "n < 2 ^ 64"
  then have "real_of_int n < real_of_int (2 ^ 64)" by (simp only: of_int_less_iff)
  with \<open>0 \<le> n\<close> show ?thesis by (simp add: uint64_of_double_def)
qed

lemma uint_day_start: "uint (w - w mod MILLISECONDS_IN_DAY) = day_start (uint w)"
proof -
  have "uint (w mod MILLISECONDS_IN_DAY) = uint w mod day_ms" by (simp add: uint_mod uint_day)
  moreover have "uint w mod day_ms \<le> uint w" by (rule zmod_le_nonneg_dividend) simp
  ultimately show ?thesis by (simp add: uint_sub_if' day_start_def)
qed

lemma toDateOnly_int:
  assumes "0 \<le> n" and "n < 2 ^ 64"
  shows "toDateOnlyMilliseconds (of_int n) = Some (of_int (day_start n))"
  using assms by (simp add: toDateOnlyMilliseconds_def uint_day_start uint_word_of_int del: of_int_uint)

lemma toDateOnly_range:
  assumes "toDateOnlyMilliseconds t = Some d"
  shows "\<exists>a. d = of_int a \<and> 0 \<le> a \<and> a < 2 ^ 64 \<and> day_start a = a"
proof -
  obtain w :: u64 where w: "d = of_int (day_start (uint w))"
    using assms by (auto simp: toDateOnlyMilliseconds_def uint_day_start simp del: of_int_uint)
  have "0 \<le> day_start (uint w)" by (rule day_start_nonneg) simp
  moreover have "day_start (uint w) < 2 ^ 64"
    using day_start_bounds(1) [of "uint w"] unsigned_less [of w, where ?'a = int] by simp
  ultimately show ?thesis using w by (intro exI [of _ "day_start (uint w)"]) simp
qed

section \<open>What getInterval finds\<close>

text \<open>What the constructor ensures.\<close>

definition ri_ok :: "repetitive_interval \<Rightarrow> bool" where
  "ri_ok r \<longleftrightarrow>
     (\<exists>a b. ri_startDate r = of_int a \<and> ri_endDate r = of_int b \<and> 0 \<le> a \<and> a \<le> b \<and> b < 2 ^ 64 \<and>
        day_start a = a \<and> day_start b = b) \<and>
     0 \<le> ri_intervalStartHour r \<and> ri_intervalStartHour r < ri_intervalEndHour r \<and> ri_intervalEndHour r \<le> 24 \<and>
     (ri_repeatUnit r = NONE \<longrightarrow> ri_startDate r = ri_endDate r)"

lemma RepetitiveInterval_new_ok [ndn_inv]:
  assumes "RepetitiveInterval_new start end h1 h2 n u = Some (Inr r)" shows "ri_ok r"
proof -
  obtain a b where ab: "toDateOnlyMilliseconds start = Some a" "toDateOnlyMilliseconds end = Some b"
    using assms by (auto simp: RepetitiveInterval_new_def bind_eq_Some_conv)
  from toDateOnly_range [OF this(1)] toDateOnly_range [OF this(2)] obtain m n
    where "a = of_int m" "0 \<le> m" "day_start m = m" "b = of_int n" "n < 2 ^ 64" "day_start n = n" by blast
  with assms ab show ?thesis
    unfolding ri_ok_def by (auto simp: RepetitiveInterval_new_def split: if_splits)
qed

text \<open>The repetition count that the constructor does not check.\<close>

definition repeats_ok :: "repetitive_interval \<Rightarrow> bool" where
  "repeats_ok r \<longleftrightarrow> ri_repeatUnit r = NONE \<or> 0 < ri_nRepeats r \<and> ri_nRepeats r < 2 ^ 31"

lemma hasIntervalOnDate_defined:
  assumes "ri_ok r" and "repeats_ok r" and "0 \<le> n" and "n < 2 ^ 64"
  shows "hasIntervalOnDate (of_int n) r \<noteq> None"
proof -
  obtain a b where a: "ri_startDate r = of_int a" "0 \<le> a" "ri_endDate r = of_int b" "a \<le> b" "b < 2 ^ 64"
    using assms(1) by (auto simp: ri_ok_def)
  have "uint64_of_double (of_int (day_start n) - ri_startDate r) \<noteq> None" if "a \<le> day_start n"
    using uint64_of_double_int [of "day_start n - a"] that a day_start_bounds(1) [of n] assms(4) by simp
  moreover have "(word_of_int (ri_nRepeats r) :: u64) \<noteq> 0" if "ri_repeatUnit r \<noteq> NONE"
  proof
    assume "(word_of_int (ri_nRepeats r) :: u64) = 0"
    then have "uint (word_of_int (ri_nRepeats r) :: u64) = 0" by simp
    with that assms(2) show False by (simp add: repeats_ok_def uint_word_of_int)
  qed
  ultimately show ?thesis
    using assms(2) toDateOnly_int [OF assms(3,4)] a
    by (auto simp: hasIntervalOnDate_def divides_u64_def divides_int_def repeats_ok_def Let_def split: repeat_unit.splits)
qed

lemma hasIntervalOnDate_day:
  assumes "0 \<le> n" and "n < 2 ^ 64" and "0 \<le> m" and "m < 2 ^ 64" and "day_start m = day_start n"
  shows "hasIntervalOnDate (of_int m) r = hasIntervalOnDate (of_int n) r"
  using toDateOnly_int [OF assms(1,2)] toDateOnly_int [OF assms(3,4)] assms(5)
  by (simp add: hasIntervalOnDate_def)

text \<open>The times at which a repetitive interval is on, in whole milliseconds.\<close>

definition active :: "int \<Rightarrow> repetitive_interval \<Rightarrow> bool" where
  "active n r \<longleftrightarrow> hasIntervalOnDate (of_int n) r = Some True \<and>
     ri_intervalStartHour r * 3600000 \<le> n - day_start n \<and> n - day_start n < ri_intervalEndHour r * 3600000"

definition at_end :: "int \<Rightarrow> repetitive_interval \<Rightarrow> bool" where
  "at_end n r \<longleftrightarrow> hasIntervalOnDate (of_int n) r = Some True \<and> n - day_start n = ri_intervalEndHour r * 3600000"

text \<open>
  The result of \<^verbatim>\<open>getInterval\<close> at a time: on one side of a boundary for all its points, and covering the time unless that is
  exactly the end of the interval.
\<close>

definition one_sided :: "int \<Rightarrow> repetitive_interval \<Rightarrow> bool \<times> interval \<Rightarrow> bool" where
  "one_sided n r = (\<lambda>(isPositive, i). iv_ok i \<and> iv_points i \<noteq> {} \<and> (of_int n \<in> iv_points i \<longleftrightarrow> \<not> at_end n r) \<and>
     (at_end n r \<longrightarrow> isPositive) \<and> (\<forall>m. of_int m \<in> iv_points i \<longrightarrow> active m r = isPositive))"

lemma one_sidedI:
  assumes "x < y" and "\<And>m. x \<le> m \<Longrightarrow> m < y \<Longrightarrow> active m r = p" and "x \<le> n \<and> n < y \<longleftrightarrow> \<not> at_end n r" and "at_end n r \<Longrightarrow> p"
  shows "one_sided n r (p, \<lparr>iv_startTime = of_int x, iv_endTime = of_int y, iv_isValid = True\<rparr>)"
proof -
  have "of_int x \<in> iv_points \<lparr>iv_startTime = of_int x, iv_endTime = of_int y, iv_isValid = True\<rparr>"
    using assms(1) by (simp add: iv_points_def)
  with assms show ?thesis unfolding one_sided_def by (auto simp: iv_ok_def iv_points_def)
qed

lemma getInterval_on:
  assumes "ri_ok r" and "0 \<le> n" and "n < 2 ^ 63" and "hasIntervalOnDate (of_int n) r = Some True"
    and "day_start n + ri_intervalStartHour r * 3600000 \<le> n" and "n \<le> day_start n + ri_intervalEndHour r * 3600000"
  shows "getInterval (of_int n) r =
    Some (bindE (Interval_new (of_int (day_start n + ri_intervalStartHour r * 3600000))
                   (of_int (day_start n + ri_intervalEndHour r * 3600000))) (\<lambda>i. Inr (True, i)))"
proof -
  have "toDateOnlyMilliseconds (of_int n) = Some (of_int (day_start n))" using assms(2,3) by (intro toDateOnly_int) simp_all
  moreover have "hour_ms (ri_intervalStartHour r) = of_int (ri_intervalStartHour r * 3600000)"
    "hour_ms (ri_intervalEndHour r) = of_int (ri_intervalEndHour r * 3600000)"
    using assms(1) by (simp_all add: ri_ok_def hour_ms del: of_int_mult)
  moreover have "\<not> real_of_int n > of_int (day_start n) + of_int (ri_intervalEndHour r * 3600000)"
    "\<not> real_of_int n < of_int (day_start n) + of_int (ri_intervalStartHour r * 3600000)"
    using assms(5,6) by (simp_all only: of_int_less_iff flip: of_int_add)
  ultimately show ?thesis using assms(4) by (simp add: getInterval_def Let_def)
qed

lemma getInterval_one_sided:
  assumes ok: "ri_ok r" and n: "0 \<le> n" "n < 2 ^ 63" and h: "hasIntervalOnDate (of_int n) r = Some h"
  shows "\<exists>x. getInterval (of_int n) r = Some (Inr x) \<and> one_sided n r x"
proof -
  let ?d = "day_start n" and ?s = "ri_intervalStartHour r * 3600000" and ?e = "ri_intervalEndHour r * 3600000"
  have hr: "0 \<le> ?s" "?s < ?e" "?e \<le> day_ms" "hour_ms (ri_intervalStartHour r) = of_int ?s"
    "hour_ms (ri_intervalEndHour r) = of_int ?e"
    using ok by (simp_all add: ri_ok_def day_ms_def hour_ms)
  have date: "toDateOnlyMilliseconds (of_int n) = Some (of_int ?d)" using n by (intro toDateOnly_int) simp_all
  note b = day_start_bounds [of n] day_start_nonneg [OF n(1)]
  have act: "active m r \<longleftrightarrow> h \<and> ?d + ?s \<le> m \<and> m < ?d + ?e" if "?d \<le> m" "m < ?d + day_ms" for m
  proof -
    have "day_start m = ?d" using that by (rule day_start_unique)
    moreover have "0 \<le> m" "m < 2 ^ 64" using that b n by (simp_all add: day_ms_def)
    ultimately have "day_start m = ?d" "hasIntervalOnDate (of_int m) r = Some h"
      using hasIntervalOnDate_day [of n m r] n h by simp_all
    then show ?thesis unfolding active_def by (simp only: option.inject eq_True) linarith
  qed
  have at: "at_end n r \<longleftrightarrow> h \<and> n = ?d + ?e" using h unfolding at_end_def by (simp only: option.inject eq_True) linarith
  have new: "Interval_new (of_int x) (of_int y) = Inr \<lparr>iv_startTime = of_int x, iv_endTime = of_int y, iv_isValid = True\<rparr>"
    if "x < y" for x y
    using that by (simp add: Interval_new_def)
  have found: ?thesis if "x < y"
    "getInterval (of_int n) r = Some (bindE (Interval_new (of_int x) (of_int y)) (\<lambda>i. Inr (p, i)))"
    "?d \<le> x" "y \<le> ?d + day_ms" "\<And>m. x \<le> m \<Longrightarrow> m < y \<Longrightarrow> (h \<and> ?d + ?s \<le> m \<and> m < ?d + ?e) = p"
    "x \<le> n \<and> n < y \<longleftrightarrow> \<not> (h \<and> n = ?d + ?e)" "h \<and> n = ?d + ?e \<Longrightarrow> p" for x y p
  proof (intro exI conjI)
    show "getInterval (of_int n) r = Some (Inr (p, \<lparr>iv_startTime = of_int x, iv_endTime = of_int y, iv_isValid = True\<rparr>))"
      using that(2) new [OF that(1)] by simp
    show "one_sided n r (p, \<lparr>iv_startTime = of_int x, iv_endTime = of_int y, iv_isValid = True\<rparr>)"
    proof (rule one_sidedI [OF that(1)])
      fix m assume m: "x \<le> m" "m < y"
      then show "active m r = p" using act [of m] that(3,4) that(5) [OF m] by linarith
    qed (use at that(6,7) in blast)+
  qed
  show ?thesis
  proof (cases h)
    case False
    then show ?thesis
      using h date b by (intro found [of ?d "?d + day_ms" False])
        (simp_all add: getInterval_def uint_hours day_ms_def del: of_int_uint)
  next
    case True
    consider "n < ?d + ?s" | "n > ?d + ?e" | "?d + ?s \<le> n" "n \<le> ?d + ?e" by linarith
    then show ?thesis
    proof cases
      case 1
      then have "real_of_int n < of_int ?d + of_int ?s" by (simp flip: of_int_add)
      then have "getInterval (of_int n) r = Some (bindE (Interval_new (of_int ?d) (of_int (?d + ?s))) (\<lambda>i. Inr (False, i)))"
        using True h date hr(4,5) by (simp add: getInterval_def Let_def)
      then show ?thesis using True hr(1-3) b 1 by (intro found [of ?d "?d + ?s" False]) auto
    next
      case 2
      then have "real_of_int n > of_int ?d + of_int ?e" "\<not> real_of_int n < of_int ?d + of_int ?s"
        using hr(2) by (simp_all only: of_int_less_iff flip: of_int_add)
      then have "getInterval (of_int n) r =
          Some (bindE (Interval_new (of_int (?d + ?e)) (of_int (?d + day_ms))) (\<lambda>i. Inr (False, i)))"
        using True h date hr(4,5) by (simp add: getInterval_def Let_def uint_day del: of_int_uint)
      then show ?thesis using True hr(1-3) b 2 by (intro found [of "?d + ?e" "?d + day_ms" False]) auto
    next
      case 3
      then have "getInterval (of_int n) r =
          Some (bindE (Interval_new (of_int (?d + ?s)) (of_int (?d + ?e))) (\<lambda>i. Inr (True, i)))"
        using True h n ok by (intro getInterval_on) simp_all
      then show ?thesis using True hr(1-3) b 3 by (intro found [of "?d + ?s" "?d + ?e" True]) auto
    qed
  qed
qed

end
