(* ===== verification/ScheduleModel.thy ===== *)
theory ScheduleModel
  imports Intervals TlvSignatureInfo
begin

text \<open>
  The schedule of a group member, \<^verbatim>\<open>encrypt/schedule.[ch]pp\<close>: two sorted sets of repetitive intervals, the interval that covers a
  time, and the TLV encoding.  None is undefined behaviour, as in \<^verbatim>\<open>Intervals\<close>, or a decoder that does not return.
\<close>

section \<open>State and operations\<close>

record schedule =
  sch_whiteIntervalList :: "repetitive_interval list"
  sch_blackIntervalList :: "repetitive_interval list"

definition Schedule_new :: schedule where
  "Schedule_new = \<lparr>sch_whiteIntervalList = [], sch_blackIntervalList = []\<rparr>"

fun sortedSetAdd :: "repetitive_interval list \<Rightarrow> repetitive_interval \<Rightarrow> repetitive_interval list" where
  "sortedSetAdd [] element = [element]"
| "sortedSetAdd (x # xs) element =
     (let comparison = RepetitiveInterval_compare x element
      in if comparison = 0 then x # xs
         else if \<not> comparison < 0 then element # x # xs
         else x # sortedSetAdd xs element)"

definition addWhiteInterval :: "repetitive_interval \<Rightarrow> schedule \<Rightarrow> schedule" where
  "addWhiteInterval repetitiveInterval self =
     self\<lparr>sch_whiteIntervalList := sortedSetAdd (sch_whiteIntervalList self) repetitiveInterval\<rparr>"

definition addBlackInterval :: "repetitive_interval \<Rightarrow> schedule \<Rightarrow> schedule" where
  "addBlackInterval repetitiveInterval self =
     self\<lparr>sch_blackIntervalList := sortedSetAdd (sch_blackIntervalList self) repetitiveInterval\<rparr>"

text \<open>The catch of \<^verbatim>\<open>calculateIntervalResult\<close>.\<close>

definition catch_interval_error :: "interval_exn + interval \<Rightarrow> interval result" where
  "catch_interval_error r =
     (case r of
        Inl (IntervalError message) \<Rightarrow> Inl (RuntimeError (str ''Error in Interval.unionWith: '' @ message))
      | Inl (OtherExn e) \<Rightarrow> Inl e
      | Inr i \<Rightarrow> Inr i)"

fun calculateIntervalResult ::
  "repetitive_interval list \<Rightarrow> real \<Rightarrow> interval \<Rightarrow> interval \<Rightarrow> (interval \<times> interval) result option" where
  "calculateIntervalResult [] timeStamp positiveResult negativeResult = Some (Inr (positiveResult, negativeResult))"
| "calculateIntervalResult (element # list) timeStamp positiveResult negativeResult =
     bindRO (getInterval timeStamp element) (\<lambda>(isPositive, tempInterval).
       if isPositive
       then bindRO (Some (catch_interval_error (Interval_unionWith positiveResult tempInterval))) (\<lambda>positiveResult.
              calculateIntervalResult list timeStamp positiveResult negativeResult)
       else bindRO (Some (if \<not> iv_isValid negativeResult then Inr (Interval_set tempInterval negativeResult)
                          else Interval_intersectWith negativeResult tempInterval)) (\<lambda>negativeResult.
              calculateIntervalResult list timeStamp positiveResult negativeResult))"

definition getCoveringInterval :: "real \<Rightarrow> schedule \<Rightarrow> (bool \<times> interval) result option" where
  "getCoveringInterval timeStamp self =
     bindRO (calculateIntervalResult (sch_blackIntervalList self) timeStamp
               (Interval_new_empty True) (Interval_new_empty False)) (\<lambda>(blackPositiveResult, blackNegativeResult).
     bindRO (Some (Interval_isEmpty blackPositiveResult)) (\<lambda>blackPositiveIsEmpty.
       if \<not> blackPositiveIsEmpty then Some (Inr (False, blackPositiveResult))
       else
     bindRO (calculateIntervalResult (sch_whiteIntervalList self) timeStamp
               (Interval_new_empty True) (Interval_new_empty False)) (\<lambda>(whitePositiveResult, whiteNegativeResult).
     bindRO (Some (Interval_isEmpty whitePositiveResult)) (\<lambda>whitePositiveIsEmpty.
       if whitePositiveIsEmpty \<and> \<not> iv_isValid whiteNegativeResult
       then Option.bind (toDateOnlyMilliseconds timeStamp) (\<lambda>timeStampDateOnly. Some (
              bindE (Interval_new timeStampDateOnly (timeStampDateOnly + real_of_int (uint MILLISECONDS_IN_DAY)))
                (\<lambda>interval. Inr (False, interval))))
       else if \<not> whitePositiveIsEmpty
       then if iv_isValid blackNegativeResult
            then Some (bindE (Interval_intersectWith whitePositiveResult blackNegativeResult)
                         (\<lambda>interval. Inr (True, interval)))
            else Some (Inr (True, whitePositiveResult))
       else Some (Inr (False, whiteNegativeResult))))))"

section \<open>Sorted sets\<close>

definition strictly_sorted :: "repetitive_interval list \<Rightarrow> bool" where
  "strictly_sorted xs \<longleftrightarrow> sorted_wrt ri_less xs"

lemma ri_less_not: "\<not> ri_less x y \<Longrightarrow> x \<noteq> y \<Longrightarrow> ri_less y x"
  by (metis linorder_cases ri_key_eq ri_less_key)

lemma set_sortedSetAdd [simp]: "set (sortedSetAdd xs e) = insert e (set xs)"
  by (induction xs) (auto simp: Let_def compare_key split: if_splits)

lemma sortedSetAdd_less:
  "sortedSetAdd (x # xs) e = (if x = e then x # xs else if ri_less x e then x # sortedSetAdd xs e else e # x # xs)"
  by (auto simp: Let_def compare_key ri_less_key)

lemma strictly_sorted_add [ndn_inv]: "strictly_sorted xs \<Longrightarrow> strictly_sorted (sortedSetAdd xs e)"
  unfolding strictly_sorted_def
proof (induction xs)
  case (Cons x xs)
  have "ri_less e z" if "\<not> ri_less x e" "x \<noteq> e" "z \<in> set (x # xs)" for z
    using ri_less_not [OF that(1,2)] that(3) Cons.prems by (auto simp: ri_less_key)
  with Cons show ?case unfolding sortedSetAdd_less by auto
qed simp

lemma sortedSetAdd_last: "strictly_sorted (xs @ [e]) \<Longrightarrow> sortedSetAdd xs e = xs @ [e]"
proof (induction xs)
  case (Cons x xs)
  then have "ri_less x e" "strictly_sorted (xs @ [e])" by (auto simp: strictly_sorted_def)
  moreover from this(1) have "x \<noteq> e" by (auto simp: ri_less_key)
  ultimately show ?case using Cons.IH by (simp only: sortedSetAdd_less if_True if_False append_Cons)
qed simp

section \<open>The covering interval\<close>

text \<open>Whether the schedule allows access at a time, and the contract of the loop over a list of repetitive intervals.\<close>

definition allowed :: "int \<Rightarrow> schedule \<Rightarrow> bool" where
  "allowed n s \<longleftrightarrow>
     (\<exists>r \<in> set (sch_whiteIntervalList s). active n r) \<and> \<not> (\<exists>r \<in> set (sch_blackIntervalList s). active n r)"

definition whole_points :: "interval \<Rightarrow> int set" where
  "whole_points i = {m. of_int m \<in> iv_points i}"

definition positive_result :: "int \<Rightarrow> repetitive_interval set \<Rightarrow> interval \<Rightarrow> bool" where
  "positive_result n S p \<longleftrightarrow> iv_ok p \<and> (if \<exists>r \<in> S. active n r then n \<in> whole_points p else iv_points p = {}) \<and>
     whole_points p \<subseteq> {m. \<exists>r \<in> S. active m r}"

definition negative_result :: "int \<Rightarrow> repetitive_interval set \<Rightarrow> interval \<Rightarrow> bool" where
  "negative_result n S q \<longleftrightarrow> (iv_isValid q \<longleftrightarrow> (\<exists>r \<in> S. \<not> active n r)) \<and>
     (iv_isValid q \<longrightarrow> iv_ok q \<and> n \<in> whole_points q \<and> whole_points q \<subseteq> {m. \<forall>r \<in> S. active m r \<longrightarrow> active n r})"

lemma positive_result_ok: "positive_result n S p \<Longrightarrow> iv_ok p"
  by (simp only: positive_result_def)

lemma positive_result_empty: "positive_result n S p \<Longrightarrow> iv_points p = {} \<Longrightarrow> r \<in> S \<Longrightarrow> \<not> active n r"
  by (auto simp: positive_result_def whole_points_def split: if_splits)

lemma positive_result_nonempty: "positive_result n S p \<Longrightarrow> iv_points p \<noteq> {} \<Longrightarrow> n \<in> whole_points p"
  by (simp add: positive_result_def split: if_splits)

lemma positive_result_on: "positive_result n S p \<Longrightarrow> m \<in> whole_points p \<Longrightarrow> \<exists>r \<in> S. active m r"
  unfolding positive_result_def by blast

lemma negative_result_valid: "negative_result n S q \<Longrightarrow> iv_isValid q \<Longrightarrow> iv_ok q \<and> n \<in> whole_points q"
  unfolding negative_result_def by blast

lemma negative_result_invalid: "negative_result n S q \<Longrightarrow> \<not> iv_isValid q \<Longrightarrow> r \<in> S \<Longrightarrow> active n r"
  unfolding negative_result_def by blast

lemma negative_result_off:
  "negative_result n S q \<Longrightarrow> iv_isValid q \<Longrightarrow> m \<in> whole_points q \<Longrightarrow> r \<in> S \<Longrightarrow> active m r \<Longrightarrow> active n r"
  unfolding negative_result_def by blast

definition rule_ok :: "int \<Rightarrow> repetitive_interval \<Rightarrow> bool" where
  "rule_ok n r \<longleftrightarrow> ri_ok r \<and> repeats_ok r \<and> \<not> at_end n r"

lemma getInterval_rule:
  assumes "rule_ok n r" and "0 \<le> n" and "n < 2 ^ 63"
  shows "\<exists>i. getInterval (of_int n) r = Some (Inr (active n r, i)) \<and> iv_ok i \<and> n \<in> whole_points i \<and>
    whole_points i \<subseteq> {m. active m r = active n r}"
proof -
  have r: "ri_ok r" "repeats_ok r" "\<not> at_end n r" using assms(1) by (simp_all add: rule_ok_def)
  obtain h where "hasIntervalOnDate (of_int n) r = Some h"
    using hasIntervalOnDate_defined [OF r(1,2)] assms by fastforce
  from getInterval_one_sided [OF r(1) assms(2,3) this] obtain p i
    where g: "getInterval (of_int n) r = Some (Inr (p, i))" "one_sided n r (p, i)" by auto
  then have i: "iv_ok i" "n \<in> whole_points i" "whole_points i \<subseteq> {m. active m r = p}"
    using r(3) unfolding one_sided_def whole_points_def prod.case by blast+
  then have "p = active n r" by blast
  with g(1) i show ?thesis by simp
qed

lemma positive_result_skip: "positive_result n S p \<Longrightarrow> \<not> active n r \<Longrightarrow> positive_result n (insert r S) p"
  unfolding positive_result_def by (auto split: if_splits)

lemma negative_result_skip: "negative_result n S q \<Longrightarrow> active n r \<Longrightarrow> negative_result n (insert r S) q"
  unfolding negative_result_def by blast

lemma positive_result_union:
  assumes p: "positive_result n S p" and i: "active n r" "iv_ok i" "n \<in> whole_points i" "whole_points i \<subseteq> {m. active m r}"
  shows "\<exists>p'. Interval_unionWith p i = Inr p' \<and> positive_result n (insert r S) p'"
proof -
  have "of_int n \<in> iv_points i" using i(3) by (simp add: whole_points_def)
  moreover have "iv_points p = {} \<or> of_int n \<in> iv_points p"
    using positive_result_nonempty [OF p] by (auto simp: whole_points_def)
  ultimately obtain p' where p': "Interval_unionWith p i = Inr p'" "iv_ok p'" "iv_points p' = iv_points p \<union> iv_points i"
    using Interval_union_points [OF positive_result_ok [OF p] i(2)] by blast
  then have "whole_points p' = whole_points p \<union> whole_points i" by (auto simp: whole_points_def)
  moreover have "whole_points p \<subseteq> {m. \<exists>r \<in> S. active m r}" using positive_result_on [OF p] by blast
  ultimately have "positive_result n (insert r S) p'" using p'(2) i(1,3,4) unfolding positive_result_def by auto
  with p'(1) show ?thesis by blast
qed

lemma negative_result_intersect:
  assumes q: "negative_result n S q" and i: "\<not> active n r" "iv_ok i" "n \<in> whole_points i" "whole_points i \<subseteq> {m. \<not> active m r}"
  shows "\<exists>q'. (if \<not> iv_isValid q then Inr (Interval_set i q) else Interval_intersectWith q i) = Inr q' \<and>
    negative_result n (insert r S) q'"
proof (cases "iv_isValid q")
  case True
  note v = negative_result_valid [OF q True]
  then obtain q' where q': "Interval_intersectWith q i = Inr q'" "iv_ok q'" "iv_points q' = iv_points q \<inter> iv_points i"
    using Interval_intersect_points [OF _ i(2), of q] by blast
  then have w: "whole_points q' = whole_points q \<inter> whole_points i" by (auto simp: whole_points_def)
  have "iv_isValid q'" using q'(2) by (simp add: iv_ok_def)
  moreover have "whole_points q' \<subseteq> {m. \<forall>r \<in> insert r S. active m r \<longrightarrow> active n r}"
    using negative_result_off [OF q True] i(4) unfolding w by blast
  moreover have "n \<in> whole_points q'" using v i(3) unfolding w by blast
  ultimately have "negative_result n (insert r S) q'" using q'(2) i(1) unfolding negative_result_def by blast
  with q'(1) True show ?thesis by simp
next
  case False
  have s: "iv_ok (Interval_set i q)" "iv_isValid (Interval_set i q)" "whole_points (Interval_set i q) = whole_points i"
    using i(2) by (simp_all add: iv_ok_def iv_points_def Interval_set_def whole_points_def)
  then have "whole_points (Interval_set i q) \<subseteq> {m. \<forall>r \<in> insert r S. active m r \<longrightarrow> active n r}"
    using negative_result_invalid [OF q False] i(4) by blast
  with s i(1,3) have "negative_result n (insert r S) (Interval_set i q)" unfolding negative_result_def by blast
  with False show ?thesis by simp
qed

lemma calculateIntervalResult_ok:
  assumes "\<forall>r \<in> set rs. rule_ok n r" and "0 \<le> n" and "n < 2 ^ 63" and "positive_result n S p" and "negative_result n S q"
  shows "\<exists>p' q'. calculateIntervalResult rs (of_int n) p q = Some (Inr (p', q')) \<and>
    positive_result n (S \<union> set rs) p' \<and> negative_result n (S \<union> set rs) q'"
  using assms
proof (induction rs arbitrary: S p q)
  case (Cons r rs)
  have r: "rule_ok n r" "\<forall>r \<in> set rs. rule_ok n r" using Cons.prems(1) by simp_all
  obtain i where i: "getInterval (of_int n) r = Some (Inr (active n r, i))" "iv_ok i" "n \<in> whole_points i"
      "whole_points i \<subseteq> {m. active m r = active n r}"
    using getInterval_rule [OF r(1) Cons.prems(2,3)] by blast
  have un: "S \<union> set (r # rs) = insert r S \<union> set rs" by simp
  show ?case
  proof (cases "active n r")
    case True
    then obtain p' where p': "Interval_unionWith p i = Inr p'" "positive_result n (insert r S) p'"
      using positive_result_union [OF Cons.prems(4) True i(2,3)] i(4) by auto
    then have "calculateIntervalResult (r # rs) (of_int n) p q = calculateIntervalResult rs (of_int n) p' q"
      using i(1) True by (simp add: catch_interval_error_def)
    with Cons.IH [OF r(2) Cons.prems(2,3) p'(2) negative_result_skip [OF Cons.prems(5) True]] show ?thesis
      unfolding un by simp
  next
    case False
    then obtain q' where q': "(if \<not> iv_isValid q then Inr (Interval_set i q) else Interval_intersectWith q i) = Inr q'"
        "negative_result n (insert r S) q'"
      using negative_result_intersect [OF Cons.prems(5) False i(2,3)] i(4) by auto
    then have "calculateIntervalResult (r # rs) (of_int n) p q = calculateIntervalResult rs (of_int n) p q'"
      using i(1) False by simp
    with Cons.IH [OF r(2) Cons.prems(2,3) positive_result_skip [OF Cons.prems(4) False] q'(2)] show ?thesis
      unfolding un by simp
  qed
qed simp

lemma calculateIntervalResult_from_empty:
  assumes "\<forall>r \<in> set rs. rule_ok n r" and "0 \<le> n" and "n < 2 ^ 63"
  shows "\<exists>p q. calculateIntervalResult rs (of_int n) (Interval_new_empty True) (Interval_new_empty False) = Some (Inr (p, q)) \<and>
    positive_result n (set rs) p \<and> negative_result n (set rs) q"
proof -
  have "positive_result n {} (Interval_new_empty True)" "negative_result n {} (Interval_new_empty False)"
    by (simp_all add: positive_result_def negative_result_def whole_points_def) (simp add: Interval_new_empty_def)
  from calculateIntervalResult_ok [OF assms this] show ?thesis by simp
qed

text \<open>What the schedule must hold at a time for \<^verbatim>\<open>getCoveringInterval\<close> to answer.\<close>

definition schedule_ok :: "int \<Rightarrow> schedule \<Rightarrow> bool" where
  "schedule_ok n s \<longleftrightarrow> (\<forall>r \<in> set (sch_whiteIntervalList s) \<union> set (sch_blackIntervalList s). rule_ok n r)"

text \<open>What the two results say about access, and the covering interval they give.\<close>

abbreviation whites :: "schedule \<Rightarrow> repetitive_interval set" where
  "whites s \<equiv> set (sch_whiteIntervalList s)"

abbreviation blacks :: "schedule \<Rightarrow> repetitive_interval set" where
  "blacks s \<equiv> set (sch_blackIntervalList s)"

lemma black_not_allowed: "positive_result n (blacks s) bp \<Longrightarrow> whole_points bp \<subseteq> {m. allowed m s = False}"
  using positive_result_on unfolding allowed_def by blast

lemma white_allowed:
  assumes "positive_result n (whites s) wp" and "positive_result n (blacks s) bp" and "iv_points bp = {}"
    and "negative_result n (blacks s) bn" and "X = (if iv_isValid bn then whole_points wp \<inter> whole_points bn else whole_points wp)"
  shows "X \<subseteq> {m. allowed m s = True}"
proof -
  have "\<not> active m r" if "m \<in> X" "r \<in> blacks s" for m r
  proof -
    have "\<not> active n r" using positive_result_empty [OF assms(2,3) that(2)] .
    then show ?thesis using negative_result_off [OF assms(4) _ _ that(2)] negative_result_invalid [OF assms(4) _ that(2)] that(1)
      unfolding assms(5) by (cases "iv_isValid bn") auto
  qed
  moreover have "\<exists>r \<in> whites s. active m r" if "m \<in> X" for m
    using positive_result_on [OF assms(1), of m] that unfolding assms(5) by (auto split: if_splits)
  ultimately show ?thesis unfolding allowed_def by blast
qed

lemma off_not_allowed:
  assumes "positive_result n (whites s) wp" and "iv_points wp = {}" and "negative_result n (whites s) wn" and "iv_isValid wn"
  shows "whole_points wn \<subseteq> {m. allowed m s = False}"
  using negative_result_off [OF assms(3,4)] positive_result_empty [OF assms(1,2)] unfolding allowed_def by blast

lemma none_not_allowed:
  assumes "positive_result n (whites s) wp" and "iv_points wp = {}" and "negative_result n (whites s) wn" and "\<not> iv_isValid wn"
  shows "\<not> allowed m s"
proof -
  have "whites s = {}" using positive_result_empty [OF assms(1,2)] negative_result_invalid [OF assms(3,4)] by (metis equals0I)
  then show ?thesis by (simp add: allowed_def)
qed

lemma covering_found:
  assumes "getCoveringInterval (of_int n) s = Some (Inr (p, i))" and "iv_ok i" and "n \<in> whole_points i"
    and "whole_points i \<subseteq> {m. allowed m s = p}"
  shows "\<exists>i. getCoveringInterval (of_int n) s = Some (Inr (allowed n s, i)) \<and> iv_ok i \<and> of_int n \<in> iv_points i \<and>
    (\<forall>m. of_int m \<in> iv_points i \<longrightarrow> allowed m s = allowed n s)"
proof -
  have "p = allowed n s" using assms(3,4) by blast
  with assms show ?thesis unfolding whole_points_def by blast
qed

lemma covering_white:
  assumes b: "calculateIntervalResult (sch_blackIntervalList s) (of_int n)
      (Interval_new_empty True) (Interval_new_empty False) = Some (Inr (bp, bn))"
      "positive_result n (blacks s) bp" "negative_result n (blacks s) bn"
    and w: "calculateIntervalResult (sch_whiteIntervalList s) (of_int n)
      (Interval_new_empty True) (Interval_new_empty False) = Some (Inr (wp, wn))"
      "positive_result n (whites s) wp" "negative_result n (whites s) wn"
    and white: "iv_points bp = {}" "iv_points wp \<noteq> {}"
  shows "\<exists>i. getCoveringInterval (of_int n) s = Some (Inr (allowed n s, i)) \<and> iv_ok i \<and> of_int n \<in> iv_points i \<and>
    (\<forall>m. of_int m \<in> iv_points i \<longrightarrow> allowed m s = allowed n s)"
proof -
  note d = getCoveringInterval_def b(1) w(1) Interval_isEmpty_points [OF positive_result_ok [OF b(2)]]
    Interval_isEmpty_points [OF positive_result_ok [OF w(2)]]
  note wp = positive_result_ok [OF w(2)] positive_result_nonempty [OF w(2) white(2)]
  note allowed = white_allowed [OF w(2) b(2) white(1) b(3) refl]
  show ?thesis
  proof (cases "iv_isValid bn")
    case True
    note bn = negative_result_valid [OF b(3) True]
    then obtain i where i: "Interval_intersectWith wp bn = Inr i" "iv_ok i" "iv_points i = iv_points wp \<inter> iv_points bn"
      using Interval_intersect_points [OF wp(1), of bn] by blast
    then have "whole_points i = whole_points wp \<inter> whole_points bn" by (auto simp: whole_points_def)
    then show ?thesis using i(1,2) bn wp(2) white True allowed by (intro covering_found [of n s True i]) (simp_all add: d)
  next
    case False
    then show ?thesis using wp white allowed by (intro covering_found [of n s True wp]) (simp_all add: d)
  qed
qed

lemma covering_whole_day:
  assumes b: "calculateIntervalResult (sch_blackIntervalList s) (of_int n)
      (Interval_new_empty True) (Interval_new_empty False) = Some (Inr (bp, bn))"
      "positive_result n (blacks s) bp" "negative_result n (blacks s) bn"
    and w: "calculateIntervalResult (sch_whiteIntervalList s) (of_int n)
      (Interval_new_empty True) (Interval_new_empty False) = Some (Inr (wp, wn))"
      "positive_result n (whites s) wp" "negative_result n (whites s) wn"
    and none: "iv_points bp = {}" "iv_points wp = {}" "\<not> iv_isValid wn" and "0 \<le> n" and "n < 2 ^ 63"
  shows "\<exists>i. getCoveringInterval (of_int n) s = Some (Inr (allowed n s, i)) \<and> iv_ok i \<and> of_int n \<in> iv_points i \<and>
    (\<forall>m. of_int m \<in> iv_points i \<longrightarrow> allowed m s = allowed n s)"
proof -
  note d = getCoveringInterval_def b(1) w(1) Interval_isEmpty_points [OF positive_result_ok [OF b(2)]]
    Interval_isEmpty_points [OF positive_result_ok [OF w(2)]]
  let ?i = "\<lparr>iv_startTime = of_int (day_start n), iv_endTime = of_int (day_start n) + of_int day_ms, iv_isValid = True\<rparr>"
  have "toDateOnlyMilliseconds (of_int n) = Some (of_int (day_start n))" using assms(10,11) by (intro toDateOnly_int) simp_all
  then have "getCoveringInterval (of_int n) s = Some (Inr (False, ?i))"
    using none by (simp add: d uint_day Interval_new_def day_ms_def del: of_int_uint)
  moreover have "n \<in> whole_points ?i" using day_start_bounds [of n]
    by (simp add: whole_points_def iv_points_def flip: of_int_add)
  ultimately show ?thesis using none_not_allowed [OF w(2) none(2) w(3) none(3)]
    by (intro covering_found [of n s False ?i]) (simp_all add: iv_ok_def day_ms_def)
qed


text \<open>A white interval from 8 to 12 and a black one from 10 to 11 on the first day of 1970.\<close>

definition demo_rule :: "int \<Rightarrow> int \<Rightarrow> repetitive_interval" where
  "demo_rule h1 h2 = \<lparr>ri_startDate = 0, ri_endDate = 0, ri_intervalStartHour = h1, ri_intervalEndHour = h2,
     ri_nRepeats = 0, ri_repeatUnit = NONE\<rparr>"

definition demo_schedule :: schedule where
  "demo_schedule = addBlackInterval (demo_rule 10 11) (addWhiteInterval (demo_rule 8 12) Schedule_new)"

lemma demo_rule_ok:
  assumes "0 \<le> h1" and "h1 < h2" and "h2 \<le> 24"
  shows "ri_ok (demo_rule h1 h2)" "repeats_ok (demo_rule h1 h2)"
proof -
  have "day_start 0 = 0" by (simp add: day_start_def)
  then show "ri_ok (demo_rule h1 h2)" using assms by (auto simp: ri_ok_def demo_rule_def intro: exI [of _ "0 :: int"])
  show "repeats_ok (demo_rule h1 h2)" by (simp add: repeats_ok_def demo_rule_def)
qed

lemma demo_rule_day: "0 \<le> n \<Longrightarrow> n < day_ms \<Longrightarrow> hasIntervalOnDate (of_int n) (demo_rule h1 h2) = Some True \<and> day_start n = 0"
proof -
  assume n: "0 \<le> n" "n < day_ms"
  then have "day_start n = 0" by (simp add: day_start_def)
  with n toDateOnly_int [of n] show ?thesis by (simp add: hasIntervalOnDate_def demo_rule_def day_ms_def)
qed

lemma demo_schedule_lists [simp]:
  "sch_whiteIntervalList demo_schedule = [demo_rule 8 12]" "sch_blackIntervalList demo_schedule = [demo_rule 10 11]"
  by (simp_all add: demo_schedule_def addBlackInterval_def addWhiteInterval_def Schedule_new_def)

lemma demo_schedule_ok: "schedule_ok 32400000 demo_schedule"
proof -
  have "rule_ok 32400000 (demo_rule h1 h2)" if "0 \<le> h1" "h1 < h2" "h2 \<le> 24" "h2 \<noteq> 9" for h1 h2
    using demo_rule_ok [OF that(1-3)] demo_rule_day [of 32400000 h1 h2] that(4)
    by (simp add: rule_ok_def at_end_def day_ms_def) (simp add: demo_rule_def)
  then show ?thesis by (simp add: schedule_ok_def)
qed


text \<open>
  C25.  Two white intervals of a day of which the second starts when the first ends make \<^verbatim>\<open>getCoveringInterval\<close> throw
  at that time: \<^verbatim>\<open>getInterval\<close> still reports the first as on at its end, and the union of the two is refused because an interval
  does not contain its end.
\<close>

theorem adjacent_intervals_throw:
  assumes "ri_ok r1" and "ri_ok r2" and "0 \<le> n" and "n < 2 ^ 63"
    and "hasIntervalOnDate (of_int n) r1 = Some True" and "hasIntervalOnDate (of_int n) r2 = Some True"
    and "n = day_start n + ri_intervalEndHour r1 * 3600000" and "ri_intervalStartHour r2 = ri_intervalEndHour r1"
  shows "getCoveringInterval (of_int n) \<lparr>sch_whiteIntervalList = [r1, r2], sch_blackIntervalList = []\<rparr> =
     Some (Inl (RuntimeError (str ''Error in Interval.unionWith: Interval.unionWith: The two intervals do not have an intersection'')))"
proof -
  let ?d = "day_start n"
  have h: "0 \<le> ri_intervalStartHour r1" "ri_intervalStartHour r1 < ri_intervalEndHour r1"
    "ri_intervalStartHour r2 < ri_intervalEndHour r2"
    using assms(1,2) by (simp_all add: ri_ok_def)
  define a b c where "a = real_of_int (?d + ri_intervalStartHour r1 * 3600000)"
    and "b = real_of_int (?d + ri_intervalEndHour r1 * 3600000)" and "c = real_of_int (?d + ri_intervalEndHour r2 * 3600000)"
  note abc_def = this
  then have abc: "a < b" "b < c" using h assms(8) by simp_all
  have "getInterval (of_int n) r1 = Some (bindE (Interval_new a b) (\<lambda>i. Inr (True, i)))"
    unfolding abc_def by (rule getInterval_on) (use assms h in simp_all)
  moreover have "getInterval (of_int n) r2 = Some (bindE (Interval_new b c) (\<lambda>i. Inr (True, i)))"
    unfolding abc_def assms(8) [symmetric] by (rule getInterval_on) (use assms h in simp_all)
  ultimately show ?thesis using abc
    by (simp add: getCoveringInterval_def Interval_new_empty_def Interval_isEmpty_def Interval_unionWith_def Interval_new_def
        catch_interval_error_def bindRO_def str_def)
qed

theorem adjacent_intervals_throw_witness:
  "\<exists>e. getCoveringInterval 43200000 \<lparr>sch_whiteIntervalList = [demo_rule 8 12, demo_rule 12 16], sch_blackIntervalList = []\<rparr> =
     Some (Inl e)"
  using adjacent_intervals_throw [of "demo_rule 8 12" "demo_rule 12 16" 43200000] demo_rule_ok(1) [of 8 12] demo_rule_ok(1) [of 12 16]
    demo_rule_day [of 43200000 8 12] demo_rule_day [of 43200000 12 16]
  by (simp add: day_ms_def) (simp add: demo_rule_def)

end
