(* ===== verification/ScheduleWire.thy ===== *)
theory ScheduleWire
  imports ScheduleModel
begin

text \<open>
  The TLV encoding of a schedule (\<^verbatim>\<open>encrypt/schedule.cpp\<close>).  \<^verbatim>\<open>toIsoString\<close> throws the error string of a code from inside
  the encoder, and \<^verbatim>\<open>wireEncode\<close> throws that of a code the encoder returns: both are the code here.
\<close>

lemma bindR_Inr: "bindR (Some (Inr a, s)) f = f a s"
  by (simp add: bindR_def)

section \<open>Encoders\<close>

definition ndn_Tlv_Encrypt_StartDate :: u32 where "ndn_Tlv_Encrypt_StartDate = 134"
definition ndn_Tlv_Encrypt_EndDate :: u32 where "ndn_Tlv_Encrypt_EndDate = 135"
definition ndn_Tlv_Encrypt_IntervalStartHour :: u32 where "ndn_Tlv_Encrypt_IntervalStartHour = 136"
definition ndn_Tlv_Encrypt_IntervalEndHour :: u32 where "ndn_Tlv_Encrypt_IntervalEndHour = 137"
definition ndn_Tlv_Encrypt_NRepeats :: u32 where "ndn_Tlv_Encrypt_NRepeats = 138"
definition ndn_Tlv_Encrypt_RepeatUnit :: u32 where "ndn_Tlv_Encrypt_RepeatUnit = 139"
definition ndn_Tlv_Encrypt_RepetitiveInterval :: u32 where "ndn_Tlv_Encrypt_RepetitiveInterval = 140"
definition ndn_Tlv_Encrypt_WhiteIntervalList :: u32 where "ndn_Tlv_Encrypt_WhiteIntervalList = 141"
definition ndn_Tlv_Encrypt_BlackIntervalList :: u32 where "ndn_Tlv_Encrypt_BlackIntervalList = 142"
definition ndn_Tlv_Encrypt_Schedule :: u32 where "ndn_Tlv_Encrypt_Schedule = 143"

definition encodeRepetitiveIntervalValue :: "repetitive_interval \<Rightarrow> tlv_encoder \<Rightarrow> ndn_error + tlv_encoder" where
  "encodeRepetitiveIntervalValue repetitiveInterval e =
     bindE (ndn_toIsoString (ri_startDate repetitiveInterval) False) (\<lambda>startDateString.
     bindE (writeBlobTlv ndn_Tlv_Encrypt_StartDate startDateString e) (\<lambda>e.
     bindE (ndn_toIsoString (ri_endDate repetitiveInterval) False) (\<lambda>endDateString.
     bindE (writeBlobTlv ndn_Tlv_Encrypt_EndDate endDateString e) (\<lambda>e.
     bindE (writeNonNegativeIntegerTlv ndn_Tlv_Encrypt_IntervalStartHour
              (word_of_int (ri_intervalStartHour repetitiveInterval)) e) (\<lambda>e.
     bindE (writeNonNegativeIntegerTlv ndn_Tlv_Encrypt_IntervalEndHour
              (word_of_int (ri_intervalEndHour repetitiveInterval)) e) (\<lambda>e.
     bindE (writeNonNegativeIntegerTlv ndn_Tlv_Encrypt_NRepeats (word_of_int (ri_nRepeats repetitiveInterval)) e) (\<lambda>e.
       writeNonNegativeIntegerTlv ndn_Tlv_Encrypt_RepeatUnit
         (of_nat (repeat_unit_value (ri_repeatUnit repetitiveInterval))) e)))))))"

fun encodeRepetitiveIntervalListValue :: "repetitive_interval list \<Rightarrow> tlv_encoder \<Rightarrow> ndn_error + tlv_encoder" where
  "encodeRepetitiveIntervalListValue [] e = Inr e"
| "encodeRepetitiveIntervalListValue (r # rs) e =
     bindE (writeNestedTlv ndn_Tlv_Encrypt_RepetitiveInterval (encodeRepetitiveIntervalValue r) False e)
       (encodeRepetitiveIntervalListValue rs)"

definition encodeScheduleValue :: "schedule \<Rightarrow> tlv_encoder \<Rightarrow> ndn_error + tlv_encoder" where
  "encodeScheduleValue schedule e =
     bindE (writeNestedTlv ndn_Tlv_Encrypt_WhiteIntervalList
              (encodeRepetitiveIntervalListValue (sch_whiteIntervalList schedule)) False e) (\<lambda>e.
       writeNestedTlv ndn_Tlv_Encrypt_BlackIntervalList
         (encodeRepetitiveIntervalListValue (sch_blackIntervalList schedule)) False e)"

definition Schedule_wireEncode :: "schedule \<Rightarrow> bytes result" where
  "Schedule_wireEncode self =
     throwC (run_encoder 256 (writeNestedTlv ndn_Tlv_Encrypt_Schedule (encodeScheduleValue self) False))"

section \<open>Decoders\<close>

text \<open>The conversion of a number to the enumeration, undefined for another number than those of the enumerators.\<close>

definition repeat_unit_of :: "u64 \<Rightarrow> repeat_unit option" where
  "repeat_unit_of v = (if v = 0 then Some NONE else if v = 1 then Some DAY else if v = 2 then Some MONTH
     else if v = 3 then Some YEAR else None)"

record interval_fields =
  if_startDate :: slice
  if_endDate :: slice
  if_intervalStartHour :: u64
  if_intervalEndHour :: u64
  if_nRepeats :: u64
  if_repeatUnit :: u64

definition decode_interval_fields :: "interval_fields dec" where
  "decode_interval_fields =
     bindD (readNestedTlvsStart ndn_Tlv_Encrypt_RepetitiveInterval) (\<lambda>endOffset.
     bindD (readBlobTlv ndn_Tlv_Encrypt_StartDate) (\<lambda>startDate.
     bindD (readBlobTlv ndn_Tlv_Encrypt_EndDate) (\<lambda>endDate.
     bindD (readNonNegativeIntegerTlv ndn_Tlv_Encrypt_IntervalStartHour) (\<lambda>intervalStartHour.
     bindD (readNonNegativeIntegerTlv ndn_Tlv_Encrypt_IntervalEndHour) (\<lambda>intervalEndHour.
     bindD (readNonNegativeIntegerTlv ndn_Tlv_Encrypt_NRepeats) (\<lambda>nRepeats.
     bindD (readNonNegativeIntegerTlv ndn_Tlv_Encrypt_RepeatUnit) (\<lambda>repeatUnit.
     bindD (finishNestedTlvs endOffset) (\<lambda>_.
       retD \<lparr>if_startDate = startDate, if_endDate = endDate, if_intervalStartHour = intervalStartHour,
             if_intervalEndHour = intervalEndHour, if_nRepeats = nRepeats, if_repeatUnit = repeatUnit\<rparr>))))))))"

definition make_repetitive_interval :: "bytes \<Rightarrow> interval_fields \<Rightarrow> repetitive_interval result option" where
  "make_repetitive_interval input f =
     Option.bind (Option.bind (slice_bytes input (if_startDate f)) ndn_fromIsoString) (\<lambda>startDate.
     Option.bind (Option.bind (slice_bytes input (if_endDate f)) ndn_fromIsoString) (\<lambda>endDate.
     Option.bind (repeat_unit_of (if_repeatUnit f)) (\<lambda>repeatUnit.
       RepetitiveInterval_new startDate endDate (to_int (uint (if_intervalStartHour f)))
         (to_int (uint (if_intervalEndHour f))) (to_int (uint (if_nRepeats f))) repeatUnit)))"

definition decodeRepetitiveInterval :: "bytes \<Rightarrow> size_t \<Rightarrow> (repetitive_interval \<times> size_t) result option" where
  "decodeRepetitiveInterval input off =
     bindRO (map_option throwC (decode_interval_fields input off)) (\<lambda>(f, off).
     bindRO (make_repetitive_interval input f) (\<lambda>r. Some (Inr (r, off))))"

text \<open>The loop over a list, which keeps what it added when an element throws.\<close>

partial_function (option) decode_interval_list ::
  "size_t \<Rightarrow> repetitive_interval list \<Rightarrow> bytes \<Rightarrow> size_t \<Rightarrow> (size_t result \<times> repetitive_interval list) option" where
  "decode_interval_list listEndOffset list input off =
     (if off < listEndOffset
      then Option.bind (decodeRepetitiveInterval input off) (\<lambda>r.
             case r of
               Inl e \<Rightarrow> Some (Inl e, list)
             | Inr (element, off) \<Rightarrow> decode_interval_list listEndOffset (sortedSetAdd list element) input off)
      else Some (Inr off, list))"

text \<open>A list element of the schedule: cleared first, then its header, the loop and its end.\<close>

definition call_decoder :: "'a dec \<Rightarrow> bytes \<Rightarrow> size_t \<Rightarrow> 's \<Rightarrow> (('a \<times> size_t) result \<times> 's) option" where
  "call_decoder d input off self = map_option (\<lambda>r. (throwC r, self)) (d input off)"

definition decode_interval_list_tlv ::
  "u32 \<Rightarrow> bytes \<Rightarrow> size_t \<Rightarrow> (size_t result \<times> repetitive_interval list) option" where
  "decode_interval_list_tlv type input off =
     bindR (call_decoder (readNestedTlvsStart type) input off []) (\<lambda>(listEndOffset, off) list.
     bindR (decode_interval_list listEndOffset list input off) (\<lambda>off list.
     bindR (call_decoder (finishNestedTlvs listEndOffset) input off list) (\<lambda>(_, off) list. Some (Inr off, list))))"

definition Schedule_wireDecode :: "bytes \<Rightarrow> schedule \<Rightarrow> (unit result \<times> schedule) option" where
  "Schedule_wireDecode input self =
     bindR (call_decoder (readNestedTlvsStart ndn_Tlv_Encrypt_Schedule) input 0 self) (\<lambda>(endOffset, off) self.
     bindR (map_option (\<lambda>(r, list). (r, self\<lparr>sch_whiteIntervalList := list\<rparr>))
              (decode_interval_list_tlv ndn_Tlv_Encrypt_WhiteIntervalList input off)) (\<lambda>off self.
     bindR (map_option (\<lambda>(r, list). (r, self\<lparr>sch_blackIntervalList := list\<rparr>))
              (decode_interval_list_tlv ndn_Tlv_Encrypt_BlackIntervalList input off)) (\<lambda>off self.
     bindR (call_decoder (finishNestedTlvs endOffset) input off self) (\<lambda>_ self. Some (Inr (), self)))))"

section \<open>What a decoded schedule holds\<close>

definition interval_set :: "repetitive_interval list \<Rightarrow> bool" where
  "interval_set xs \<longleftrightarrow> strictly_sorted xs \<and> (\<forall>r \<in> set xs. ri_ok r)"

definition schedule_wf :: "schedule \<Rightarrow> bool" where
  "schedule_wf s \<longleftrightarrow> interval_set (sch_whiteIntervalList s) \<and> interval_set (sch_blackIntervalList s)"

lemma interval_set_Nil [simp]: "interval_set []"
  by (simp add: interval_set_def strictly_sorted_def)

lemma interval_set_add [ndn_inv]: "interval_set xs \<Longrightarrow> ri_ok r \<Longrightarrow> interval_set (sortedSetAdd xs r)"
  by (simp add: interval_set_def strictly_sorted_add)

lemma decodeRepetitiveInterval_ok: "decodeRepetitiveInterval input off = Some (Inr (r, off')) \<Longrightarrow> ri_ok r"
  by (auto simp: decodeRepetitiveInterval_def make_repetitive_interval_def bindRO_eq_Inr bind_eq_Some_conv
      intro: RepetitiveInterval_new_ok)

lemma decode_interval_list_set:
  assumes "decode_interval_list listEndOffset list input off = Some y"
  shows "interval_set list \<longrightarrow> interval_set (snd y)"
proof (rule decode_interval_list.raw_induct [where P = "\<lambda>e list input off y. interval_set list \<longrightarrow> interval_set (snd y)",
    OF _ assms], rule impI)
  fix f e list input off y
  assume 1: "\<And>e list input off y. f e list input off = Some y \<Longrightarrow> interval_set list \<longrightarrow> interval_set (snd y)"
    "(if off < e then Option.bind (decodeRepetitiveInterval input off) (\<lambda>r. case r of Inl e \<Rightarrow> Some (Inl e, list)
        | Inr (element, off) \<Rightarrow> f e (sortedSetAdd list element) input off)
      else Some (Inr off, list)) = Some y" "interval_set list"
  show "interval_set (snd y)"
  proof (cases "off < e")
    case True
    then obtain r where r: "decodeRepetitiveInterval input off = Some r" using 1(2) by (auto simp: bind_eq_Some_conv)
    show ?thesis
    proof (cases r)
      case (Inl a)
      then have "y = (Inl a, list)" using 1(2) True r by simp
      then show ?thesis using 1(3) by simp
    next
      case (Inr p)
      then obtain x off' where p: "r = Inr (x, off')" by (cases p) auto
      then have "f e (sortedSetAdd list x) input off' = Some y" using 1(2) True r by simp
      moreover have "interval_set (sortedSetAdd list x)"
        using 1(3) decodeRepetitiveInterval_ok r p by (auto intro: interval_set_add)
      ultimately show ?thesis using 1(1) by blast
    qed
  next
    case False
    then have "y = (Inr off, list)" using 1(2) by simp
    then show ?thesis using 1(3) by simp
  qed
qed

lemma leaves_interval_list [leaves]:
  "interval_set list \<Longrightarrow> leaves (decode_interval_list listEndOffset list input off) interval_set"
  by (auto simp: leaves_def dest: decode_interval_list_set)

lemma leaves_call_decoder [leaves]: "P s \<Longrightarrow> leaves (call_decoder d input off s) P"
  by (auto simp: leaves_def call_decoder_def)

lemma leaves_interval_list_tlv [leaves]: "leaves (decode_interval_list_tlv type input off) interval_set"
  unfolding decode_interval_list_tlv_def
  by (rule leaves_bind, rule leaves_call_decoder, rule interval_set_Nil, assumption, clarify,
      rule leaves_bind, erule leaves_interval_list, assumption,
      rule leaves_bind, erule leaves_call_decoder, assumption, clarify, erule leaves_Some)

section \<open>Round trip\<close>

text \<open>The schedules that survive the wire: dates that the ISO format can express, and the counts that an \<^verbatim>\<open>int\<close> holds.\<close>

definition wire_interval :: "repetitive_interval \<Rightarrow> bool" where
  "wire_interval r \<longleftrightarrow> ri_ok r \<and> ri_endDate r \<le> 200000000000000 \<and> 0 \<le> ri_nRepeats r \<and> ri_nRepeats r < 2 ^ 31"

definition wire_schedule :: "schedule \<Rightarrow> bool" where
  "wire_schedule s \<longleftrightarrow> schedule_wf s \<and> (\<forall>r \<in> whites s \<union> blacks s. wire_interval r)"

definition interval_bytes :: "repetitive_interval \<Rightarrow> bytes" where
  "interval_bytes r =
     tlv ndn_Tlv_Encrypt_StartDate (iso_of (ri_startDate r)) @
     tlv ndn_Tlv_Encrypt_EndDate (iso_of (ri_endDate r)) @
     tlv ndn_Tlv_Encrypt_IntervalStartHour (nonneg_integer (word_of_int (ri_intervalStartHour r))) @
     tlv ndn_Tlv_Encrypt_IntervalEndHour (nonneg_integer (word_of_int (ri_intervalEndHour r))) @
     tlv ndn_Tlv_Encrypt_NRepeats (nonneg_integer (word_of_int (ri_nRepeats r))) @
     tlv ndn_Tlv_Encrypt_RepeatUnit (nonneg_integer (of_nat (repeat_unit_value (ri_repeatUnit r))))"

definition interval_list_bytes :: "repetitive_interval list \<Rightarrow> bytes" where
  "interval_list_bytes rs = concat (map (\<lambda>r. tlv ndn_Tlv_Encrypt_RepetitiveInterval (interval_bytes r)) rs)"

definition schedule_bytes :: "schedule \<Rightarrow> bytes" where
  "schedule_bytes s =
     tlv ndn_Tlv_Encrypt_WhiteIntervalList (interval_list_bytes (sch_whiteIntervalList s)) @
     tlv ndn_Tlv_Encrypt_BlackIntervalList (interval_list_bytes (sch_blackIntervalList s))"

lemma wire_interval_dates:
  assumes "wire_interval r" shows "whole_second (ri_startDate r)" "whole_second (ri_endDate r)"
proof -
  obtain a b where ab: "ri_startDate r = of_int a" "ri_endDate r = of_int b" "0 \<le> a" "a \<le> b" "day_start a = a" "day_start b = b"
    using assms by (auto simp: wire_interval_def ri_ok_def)
  have "b \<le> 200000000000000" using assms ab(2) by (simp add: wire_interval_def)
  moreover have "whole_second (of_int n)" if "0 \<le> n" "n \<le> 200000000000000" "day_start n = n" for n
  proof -
    have m: "n mod 86400000 = 0" using that(3) by (simp add: day_start_def day_ms_def)
    then have "n = n div 86400000 * 86400 * 1000" using div_mult_mod_eq [of n 86400000] by simp
    then have "real_of_int n = real_of_int (n div 86400000 * 86400) * 1000" by (metis of_int_mult of_int_numeral)
    moreover have "0 \<le> n div 86400000 * 86400" "n div 86400000 * 86400 \<le> 200000000000"
      using that(1,2) \<open>n = n div 86400000 * 86400 * 1000\<close> by linarith+
    ultimately show ?thesis unfolding whole_second_def by blast
  qed
  ultimately show "whole_second (ri_startDate r)" "whole_second (ri_endDate r)" using ab by simp_all
qed

lemma emits_interval: "wire_interval r \<Longrightarrow> emits (encodeRepetitiveIntervalValue r) (interval_bytes r)"
  unfolding interval_bytes_def encodeRepetitiveIntervalValue_def
  by (simp only: iso_of(1) wire_interval_dates bindE.simps)
     (intro emits_seq emits_writeBlobTlv emits_writeNonNegativeIntegerTlv)

lemma emits_interval_list:
  "\<forall>r \<in> set rs. wire_interval r \<Longrightarrow> emits (encodeRepetitiveIntervalListValue rs) (interval_list_bytes rs)"
proof (induction rs)
  case Nil
  have "encodeRepetitiveIntervalListValue [] = Inr" by (rule ext) simp
  then show ?case by (simp add: interval_list_bytes_def)
next
  case (Cons r rs)
  have "emits (writeNestedTlv ndn_Tlv_Encrypt_RepetitiveInterval (encodeRepetitiveIntervalValue r) False)
      (tlv ndn_Tlv_Encrypt_RepetitiveInterval (interval_bytes r))"
    using emits_writeNestedTlv [OF emits_interval, of r _ False] Cons.prems by (simp add: nested_tlv_def)
  from emits_seq [OF this Cons.IH] Cons.prems show ?case
    by (simp add: interval_list_bytes_def encodeRepetitiveIntervalListValue.simps(2) [abs_def])
qed

lemma emits_schedule:
  assumes "wire_schedule s"
  shows "emits (encodeScheduleValue s) (schedule_bytes s)"
proof -
  have "\<forall>r \<in> whites s. wire_interval r" "\<forall>r \<in> blacks s. wire_interval r" using assms by (simp_all add: wire_schedule_def)
  note w = this [THEN emits_interval_list, THEN emits_writeNestedTlv [where omit = False], unfolded nested_tlv_def simp_thms if_False]
  show ?thesis unfolding schedule_bytes_def encodeScheduleValue_def [abs_def] by (intro emits_seq w)
qed

lemma schedule_wireEncode:
  assumes "wire_schedule s"
  shows "Schedule_wireEncode s = Inr (tlv ndn_Tlv_Encrypt_Schedule (schedule_bytes s))"
  using run_encoder [OF emits_writeNestedTlv [OF emits_schedule [OF assms]], of 256 ndn_Tlv_Encrypt_Schedule False]
  by (simp add: Schedule_wireEncode_def nested_tlv_def)

text \<open>The positions of the two dates when the fields are read at \<^verbatim>\<open>p\<close>, and the fields.\<close>

definition slice_at :: "bytes \<Rightarrow> u32 \<Rightarrow> bytes \<Rightarrow> slice" where
  "slice_at p type v = \<lparr>sl_offset = at_pos (p @ tlv_header type (length v)), sl_length = of_nat (length v)\<rparr>"

definition fields_at :: "bytes \<Rightarrow> repetitive_interval \<Rightarrow> interval_fields" where
  "fields_at p r =
     \<lparr>if_startDate = slice_at p ndn_Tlv_Encrypt_StartDate (iso_of (ri_startDate r)),
      if_endDate = slice_at (p @ tlv ndn_Tlv_Encrypt_StartDate (iso_of (ri_startDate r))) ndn_Tlv_Encrypt_EndDate (iso_of (ri_endDate r)),
      if_intervalStartHour = word_of_int (ri_intervalStartHour r), if_intervalEndHour = word_of_int (ri_intervalEndHour r),
      if_nRepeats = word_of_int (ri_nRepeats r), if_repeatUnit = of_nat (repeat_unit_value (ri_repeatUnit r))\<rparr>"

lemma reads_interval_fields:
  assumes s: "small_input (pre @ tlv ndn_Tlv_Encrypt_RepetitiveInterval (interval_bytes r) @ post)"
  shows "reads decode_interval_fields pre (tlv ndn_Tlv_Encrypt_RepetitiveInterval (interval_bytes r)) post
    (fields_at (pre @ tlv_header ndn_Tlv_Encrypt_RepetitiveInterval (length (interval_bytes r))) r)"
  unfolding decode_interval_fields_def
proof (rule reads_nested_bind_at [OF s refl], goal_cases)
  case 1
  then show ?case
    unfolding interval_bytes_def fields_at_def slice_at_def
    by (intro reads_bind [OF reads_readBlobTlv] reads_bind [OF reads_readNonNegativeIntegerTlv]
        reads_bind_last [OF reads_readNonNegativeIntegerTlv] reads_finish_ret)
       simp_all
qed

lemma repeat_unit_of_value [simp]: "repeat_unit_of (of_nat (repeat_unit_value u)) = Some u"
  by (cases u) (simp_all add: repeat_unit_of_def)

lemma slice_at_bytes:
  assumes "small_input (p @ tlv t v @ post)" shows "slice_bytes (p @ tlv t v @ post) (slice_at p t v) = Some v"
  using slice_bytes_of [of "p @ tlv_header t (length v)" v post] assms by (simp add: slice_at_def tlv_def)

lemma RepetitiveInterval_new_same:
  assumes "wire_interval r"
  shows "RepetitiveInterval_new (ri_startDate r) (ri_endDate r) (ri_intervalStartHour r) (ri_intervalEndHour r)
    (ri_nRepeats r) (ri_repeatUnit r) = Some (Inr r)"
proof -
  obtain a b where ab: "ri_startDate r = of_int a" "ri_endDate r = of_int b" "0 \<le> a" "a \<le> b" "b < 2 ^ 64" "day_start a = a" "day_start b = b"
    using assms by (auto simp: wire_interval_def ri_ok_def)
  have "toDateOnlyMilliseconds (ri_startDate r) = Some (ri_startDate r)" "toDateOnlyMilliseconds (ri_endDate r) = Some (ri_endDate r)"
    using toDateOnly_int [of a] toDateOnly_int [of b] ab by simp_all
  then show ?thesis using assms by (auto simp: RepetitiveInterval_new_def wire_interval_def ri_ok_def)
qed

lemma decode_interval:
  assumes s: "small_input (pre @ tlv ndn_Tlv_Encrypt_RepetitiveInterval (interval_bytes r) @ post)" and r: "wire_interval r"
  shows "decodeRepetitiveInterval (pre @ tlv ndn_Tlv_Encrypt_RepetitiveInterval (interval_bytes r) @ post) (at_pos pre) =
    Some (Inr (r, at_pos (pre @ tlv ndn_Tlv_Encrypt_RepetitiveInterval (interval_bytes r))))"
proof -
  let ?t = "tlv ndn_Tlv_Encrypt_RepetitiveInterval (interval_bytes r)"
  let ?p = "pre @ tlv_header ndn_Tlv_Encrypt_RepetitiveInterval (length (interval_bytes r))"
  let ?in = "pre @ ?t @ post"
  let ?sd = "tlv ndn_Tlv_Encrypt_StartDate (iso_of (ri_startDate r))" and ?ed = "tlv ndn_Tlv_Encrypt_EndDate (iso_of (ri_endDate r))"
  obtain rest where "interval_bytes r = ?sd @ ?ed @ rest" by (simp add: interval_bytes_def)
  then have eq: "?in = ?p @ ?sd @ (?ed @ rest @ post)" "?in = (?p @ ?sd) @ ?ed @ (rest @ post)" by (simp_all add: tlv_def)
  have "slice_bytes ?in (if_startDate (fields_at ?p r)) = Some (iso_of (ri_startDate r))"
    using slice_at_bytes [of ?p ndn_Tlv_Encrypt_StartDate "iso_of (ri_startDate r)" "?ed @ rest @ post"] s
    unfolding eq(1) [symmetric] by (simp add: fields_at_def)
  moreover have "slice_bytes ?in (if_endDate (fields_at ?p r)) = Some (iso_of (ri_endDate r))"
    using slice_at_bytes [of "?p @ ?sd" ndn_Tlv_Encrypt_EndDate "iso_of (ri_endDate r)" "rest @ post"] s
    unfolding eq(2) [symmetric] by (simp add: fields_at_def)
  moreover have "0 \<le> v \<Longrightarrow> v < 2 ^ 31 \<Longrightarrow> to_int (uint (word_of_int v :: u64)) = v" for v by (rule to_int_word)
  ultimately have "make_repetitive_interval ?in (fields_at ?p r) = Some (Inr r)"
    using r RepetitiveInterval_new_same [OF r] wire_interval_dates [OF r]
    by (simp add: make_repetitive_interval_def iso_of(3) fields_at_def wire_interval_def ri_ok_def)
  moreover have "decode_interval_fields ?in (at_pos pre) = Some (Inr (fields_at ?p r, at_pos (pre @ ?t)))"
    using reads_interval_fields [OF s] by (simp add: reads_def)
  ultimately show ?thesis by (simp add: decodeRepetitiveInterval_def)
qed

lemma decode_list:
  assumes "small_input (pre @ interval_list_bytes rs @ post)" and "\<forall>r \<in> set rs. wire_interval r" and "strictly_sorted (acc @ rs)"
  shows "decode_interval_list (at_pos (pre @ interval_list_bytes rs)) acc (pre @ interval_list_bytes rs @ post) (at_pos pre) =
    Some (Inr (at_pos (pre @ interval_list_bytes rs)), acc @ rs)"
  using assms
proof (induction rs arbitrary: pre acc)
  case Nil
  then show ?case by (simp add: interval_list_bytes_def decode_interval_list.simps)
next
  case (Cons r rs)
  let ?t = "tlv ndn_Tlv_Encrypt_RepetitiveInterval (interval_bytes r)"
  have b: "interval_list_bytes (r # rs) = ?t @ interval_list_bytes rs" by (simp add: interval_list_bytes_def)
  have s: "small_input (pre @ ?t @ (interval_list_bytes rs @ post))" using Cons.prems(1) by (simp add: b)
  have "at_pos pre < at_pos (pre @ ?t @ interval_list_bytes rs)"
    using small_input_at [of pre "?t @ interval_list_bytes rs" post] s by simp
  moreover have "decodeRepetitiveInterval (pre @ ?t @ interval_list_bytes rs @ post) (at_pos pre) = Some (Inr (r, at_pos (pre @ ?t)))"
    using decode_interval [OF s] Cons.prems(2) by simp
  moreover have "sortedSetAdd acc r = acc @ [r]"
    using Cons.prems(3) by (intro sortedSetAdd_last) (simp add: strictly_sorted_def sorted_wrt_append)
  moreover have "decode_interval_list (at_pos ((pre @ ?t) @ interval_list_bytes rs)) (acc @ [r])
      ((pre @ ?t) @ interval_list_bytes rs @ post) (at_pos (pre @ ?t)) =
      Some (Inr (at_pos ((pre @ ?t) @ interval_list_bytes rs)), (acc @ [r]) @ rs)"
    using s Cons.prems by (intro Cons.IH) simp_all
  ultimately show ?case unfolding b by (subst decode_interval_list.simps) (simp del: at_append sortedSetAdd.simps)
qed

lemma reads_call_decoder: "reads d pre bs post v \<Longrightarrow>
    call_decoder d (pre @ bs @ post) (at_pos pre) s = Some (Inr (v, at_pos (pre @ bs)), s)"
  by (simp add: reads_def call_decoder_def)

lemma decode_list_tlv:
  assumes s: "small_input (pre @ tlv type (interval_list_bytes rs) @ post)" and rs: "\<forall>r \<in> set rs. wire_interval r" "strictly_sorted rs"
  shows "decode_interval_list_tlv type (pre @ tlv type (interval_list_bytes rs) @ post) (at_pos pre) =
    Some (Inr (at_pos (pre @ tlv type (interval_list_bytes rs))), rs)"
proof -
  let ?v = "interval_list_bytes rs"
  let ?h = "tlv_header type (length ?v)"
  have t: "tlv type ?v = ?h @ ?v" by (simp add: tlv_def)
  have s': "small_input ((pre @ ?h) @ ?v @ post)" using s by (simp add: t)
  have 1: "reads (readNestedTlvsStart type) pre ?h (?v @ post) (at_pos ((pre @ ?h) @ ?v))"
    using reads_readNestedTlvsStart [of pre type "length ?v" "?v @ post"] s' by (simp add: add.assoc)
  have 2: "reads (finishNestedTlvs (at_pos ((pre @ ?h) @ ?v))) ((pre @ ?h) @ ?v) [] post ()" by (rule reads_finish)
  have 3: "decode_interval_list (at_pos ((pre @ ?h) @ ?v)) [] ((pre @ ?h) @ ?v @ post) (at_pos (pre @ ?h)) =
      Some (Inr (at_pos ((pre @ ?h) @ ?v)), [] @ rs)"
    using s' rs by (intro decode_list) simp_all
  note r = reads_call_decoder [OF 1] reads_call_decoder [OF 2, simplified append_Nil append_Nil2] 3
  show ?thesis
    unfolding decode_interval_list_tlv_def t by (simp add: r [unfolded append_assoc] bindR_Inr del: at_append)
qed

lemma schedule_wireDecode:
  assumes "wire_schedule s" and "small_input (tlv ndn_Tlv_Encrypt_Schedule (schedule_bytes s))"
  shows "Schedule_wireDecode (tlv ndn_Tlv_Encrypt_Schedule (schedule_bytes s)) t = Some (Inr (), s)"
proof -
  let ?w = "interval_list_bytes (sch_whiteIntervalList s)" and ?b = "interval_list_bytes (sch_blackIntervalList s)"
  let ?W = "tlv ndn_Tlv_Encrypt_WhiteIntervalList ?w" and ?B = "tlv ndn_Tlv_Encrypt_BlackIntervalList ?b"
  let ?h = "tlv_header ndn_Tlv_Encrypt_Schedule (length (schedule_bytes s))"
  have v: "schedule_bytes s = ?W @ ?B" "tlv ndn_Tlv_Encrypt_Schedule (schedule_bytes s) = ?h @ ?W @ ?B"
    by (simp_all add: schedule_bytes_def tlv_def)
  have sm: "small_input (?h @ ?W @ ?B @ [])" using assms(2) by (simp add: v(2))
  have l: "\<forall>r \<in> whites s. wire_interval r" "strictly_sorted (sch_whiteIntervalList s)" "\<forall>r \<in> blacks s. wire_interval r"
    "strictly_sorted (sch_blackIntervalList s)"
    using assms(1) by (simp_all add: wire_schedule_def schedule_wf_def interval_set_def)
  have 1: "reads (readNestedTlvsStart ndn_Tlv_Encrypt_Schedule) [] ?h (?W @ ?B) (at_pos (?h @ ?W @ ?B))"
    using reads_readNestedTlvsStart [of "[]" ndn_Tlv_Encrypt_Schedule "length (schedule_bytes s)" "?W @ ?B"] sm
    by (simp add: v(1))
  have 2: "reads (finishNestedTlvs (at_pos (?h @ ?W @ ?B))) (?h @ ?W @ ?B) [] [] ()" by (rule reads_finish)
  note r = reads_call_decoder [OF 1] reads_call_decoder [OF 2, simplified append_Nil append_Nil2]
    decode_list_tlv [OF _ l(1,2), of ?h ndn_Tlv_Encrypt_WhiteIntervalList ?B]
    decode_list_tlv [OF _ l(3,4), of "?h @ ?W" ndn_Tlv_Encrypt_BlackIntervalList "[]"]
  show ?thesis
    using sm unfolding v(2) Schedule_wireDecode_def
    by (simp add: r(1,2) [unfolded append_assoc at_Nil append_Nil] r(3,4) [unfolded append_assoc append_Nil2] bindR_Inr del: at_append)
qed

text \<open>
  C26.  Encoding a well-formed schedule and decoding the bytes gives it back into any schedule object: the same repetitive
  intervals in both lists, whatever the object held before.
\<close>

theorem schedule_roundtrip:
  assumes "wire_schedule s" and "Schedule_wireEncode s = Inr encoding" and "small_input encoding"
  shows "Schedule_wireDecode encoding t = Some (Inr (), s)"
  using assms schedule_wireDecode [of s t] by (simp add: schedule_wireEncode)

text \<open>The schedule of the example on the wire.\<close>

lemma demo_rule_wire: "0 \<le> h1 \<Longrightarrow> h1 < h2 \<Longrightarrow> h2 \<le> 24 \<Longrightarrow> wire_interval (demo_rule h1 h2)"
  using demo_rule_ok(1) [of h1 h2] by (simp add: wire_interval_def) (simp add: demo_rule_def)

lemma demo_schedule_wire: "wire_schedule demo_schedule"
  using demo_rule_wire [of 8 12] demo_rule_wire [of 10 11]
  by (simp add: wire_schedule_def schedule_wf_def interval_set_def strictly_sorted_def wire_interval_def)

lemma length_interval_bytes: "wire_interval r \<Longrightarrow> length (interval_bytes r) \<le> 200"
proof -
  assume "wire_interval r"
  note d = wire_interval_dates [OF this, THEN iso_of(2)]
  have n: "length (tlv t (nonneg_integer v)) \<le> 26" for t v
    using length_tlv_le [of t "nonneg_integer v"] length_nonneg_integer_le [of v] by linarith
  have i: "length (iso_of x) = 15 \<Longrightarrow> length (tlv t (iso_of x)) \<le> 33" for t x using length_tlv_le [of t "iso_of x"] by simp
  show ?thesis unfolding interval_bytes_def length_append
    using i [OF d(1), of ndn_Tlv_Encrypt_StartDate] i [OF d(2), of ndn_Tlv_Encrypt_EndDate]
      n [of ndn_Tlv_Encrypt_IntervalStartHour "word_of_int (ri_intervalStartHour r)"]
      n [of ndn_Tlv_Encrypt_IntervalEndHour "word_of_int (ri_intervalEndHour r)"]
      n [of ndn_Tlv_Encrypt_NRepeats "word_of_int (ri_nRepeats r)"]
      n [of ndn_Tlv_Encrypt_RepeatUnit "of_nat (repeat_unit_value (ri_repeatUnit r))"]
    by linarith
qed

lemma demo_schedule_small: "small_input (tlv ndn_Tlv_Encrypt_Schedule (schedule_bytes demo_schedule))"
proof -
  have one: "length (interval_list_bytes [demo_rule h1 h2]) \<le> 218" if "0 \<le> h1" "h1 < h2" "h2 \<le> 24" for h1 h2
    using length_interval_bytes [OF demo_rule_wire [OF that]] length_tlv_le [of ndn_Tlv_Encrypt_RepetitiveInterval "interval_bytes (demo_rule h1 h2)"]
    by (simp add: interval_list_bytes_def)
  have "length (interval_list_bytes [demo_rule 8 12]) \<le> 218" "length (interval_list_bytes [demo_rule 10 11]) \<le> 218"
    by (simp_all add: one)
  then have "length (schedule_bytes demo_schedule) \<le> 472"
    using length_tlv_le [of ndn_Tlv_Encrypt_WhiteIntervalList "interval_list_bytes [demo_rule 8 12]"]
      length_tlv_le [of ndn_Tlv_Encrypt_BlackIntervalList "interval_list_bytes [demo_rule 10 11]"]
    unfolding schedule_bytes_def length_append demo_schedule_lists by linarith
  then show ?thesis
    using length_tlv_le [of ndn_Tlv_Encrypt_Schedule "schedule_bytes demo_schedule"] by (simp add: small_input_def)
qed

theorem schedule_roundtrip_witness:
  "\<exists>encoding. Schedule_wireEncode demo_schedule = Inr encoding \<and> Schedule_wireDecode encoding Schedule_new = Some (Inr (), demo_schedule)"
  using schedule_roundtrip [OF demo_schedule_wire schedule_wireEncode [OF demo_schedule_wire] demo_schedule_small]
    schedule_wireEncode [OF demo_schedule_wire] by blast

text \<open>
  C27.  Decoding any bytes at all, whether it succeeds or throws, leaves a well-formed schedule: both lists strictly
  sorted and without duplicates, every repetitive interval one that the constructor accepts.
\<close>

theorem decoded_schedule_wf:
  assumes "schedule_wf s" and "Schedule_wireDecode input s = Some (r, s')"
  shows "schedule_wf s'"
proof -
  have list: "leaves (map_option (\<lambda>(r, list). (r, s\<lparr>sch_whiteIntervalList := list\<rparr>)) (decode_interval_list_tlv t input off)) schedule_wf"
    "leaves (map_option (\<lambda>(r, list). (r, s\<lparr>sch_blackIntervalList := list\<rparr>)) (decode_interval_list_tlv t input off)) schedule_wf"
    if "schedule_wf s" for s :: schedule and t off
    using leaves_interval_list_tlv [of t input off] that by (auto simp: leaves_def schedule_wf_def)
  have "leaves (Schedule_wireDecode input s) schedule_wf"
    unfolding Schedule_wireDecode_def
    by (rule leaves_bind, rule leaves_call_decoder, rule assms(1), assumption, clarify,
        rule leaves_bind, erule list, assumption, rule leaves_bind, erule list, assumption,
        rule leaves_bind, erule leaves_call_decoder, assumption, erule leaves_Some)
  then show ?thesis using assms(2) by (rule leavesD)
qed

lemma Schedule_new_wf [simp]: "schedule_wf Schedule_new"
  by (simp add: schedule_wf_def Schedule_new_def)

theorem decoded_schedule_wf_witness:
  "\<exists>encoding s. Schedule_wireDecode encoding Schedule_new = Some (Inr (), s) \<and> length (sch_whiteIntervalList s) = 1 \<and> schedule_wf s"
  using schedule_wireDecode [OF demo_schedule_wire demo_schedule_small, of Schedule_new]
    decoded_schedule_wf [OF Schedule_new_wf schedule_wireDecode [OF demo_schedule_wire demo_schedule_small]]
  by (intro exI [of _ "tlv ndn_Tlv_Encrypt_Schedule (schedule_bytes demo_schedule)"] exI [of _ demo_schedule]) simp

end
