(* ===== verification/DigestTreeModel.thy ===== *)
theory DigestTreeModel
  imports NdnBytes "HOL-Library.List_Lexorder" "HOL-Library.Product_Lexorder"
begin

text \<open>
  The digest tree of ChronoSync (\<^verbatim>\<open>sync/digest-tree.[ch]pp\<close>): the newest sequence number of every producer session, with a root
  digest that stands for the whole state.  \<^verbatim>\<open>sha256\<close> is the digest of the bytes given to \<^verbatim>\<open>SHA256_Update\<close> since \<^verbatim>\<open>SHA256_Init\<close>,
  the parameter \<^verbatim>\<open>sha\<close> below.
\<close>

section \<open>State and operations\<close>

definition digest_fromHexChar :: "byte \<Rightarrow> int" where
  "digest_fromHexChar c =
     (if c \<ge> 0x30 \<and> c \<le> 0x39 then uint c - 0x30
      else if c \<ge> 0x41 \<and> c \<le> 0x46 then uint c - 0x41 + 10
      else if c \<ge> 0x61 \<and> c \<le> 0x66 then uint c - 0x61 + 10
      else -1)"

text \<open>The bytes that \<^verbatim>\<open>SHA256_UpdateHex\<close> adds; an odd digit at the end is left out.\<close>

fun updateHex :: "bytes \<Rightarrow> bytes" where
  "updateHex (h # l # hex) = word_of_int (16 * digest_fromHexChar h + digest_fromHexChar l) # updateHex hex"
| "updateHex _ = []"

record digest_node =
  dn_dataPrefix :: bytes
  dn_sessionNo :: int
  dn_sequenceNo :: int
  dn_digest :: bytes

fun int32ToLittleEndian_loop :: "nat \<Rightarrow> u32 \<Rightarrow> bytes" where
  "int32ToLittleEndian_loop 0 value = []"
| "int32ToLittleEndian_loop (Suc n) value = ucast (value mod 256) # int32ToLittleEndian_loop n (value div 256)"

definition int32ToLittleEndian :: "int \<Rightarrow> bytes" where
  "int32ToLittleEndian value = int32ToLittleEndian_loop 4 (word_of_int value)"

definition recomputeDigest :: "(bytes \<Rightarrow> bytes) \<Rightarrow> digest_node \<Rightarrow> digest_node" where
  "recomputeDigest sha self =
     (let sequenceDigest = sha (int32ToLittleEndian (dn_sessionNo self) @ int32ToLittleEndian (dn_sequenceNo self));
          nameDigest = sha (dn_dataPrefix self);
          nodeDigest = sha (nameDigest @ sequenceDigest)
      in self\<lparr>dn_digest := toHex nodeDigest\<rparr>)"

definition DigestNode_new :: "(bytes \<Rightarrow> bytes) \<Rightarrow> bytes \<Rightarrow> int \<Rightarrow> int \<Rightarrow> digest_node" where
  "DigestNode_new sha dataPrefix sessionNo sequenceNo =
     recomputeDigest sha \<lparr>dn_dataPrefix = dataPrefix, dn_sessionNo = sessionNo, dn_sequenceNo = sequenceNo, dn_digest = []\<rparr>"

definition setSequenceNo :: "(bytes \<Rightarrow> bytes) \<Rightarrow> int \<Rightarrow> digest_node \<Rightarrow> digest_node" where
  "setSequenceNo sha sequenceNo self = recomputeDigest sha (self\<lparr>dn_sequenceNo := sequenceNo\<rparr>)"

text \<open>\<^verbatim>\<open>std::string::compare\<close>.\<close>

fun string_compare :: "bytes \<Rightarrow> bytes \<Rightarrow> int" where
  "string_compare [] [] = 0"
| "string_compare [] (_ # _) = -1"
| "string_compare (_ # _) [] = 1"
| "string_compare (x # xs) (y # ys) = (if x < y then -1 else if y < x then 1 else string_compare xs ys)"

definition node_less :: "digest_node \<Rightarrow> digest_node \<Rightarrow> bool" where
  "node_less node1 node2 =
     (let nameComparison = string_compare (dn_dataPrefix node1) (dn_dataPrefix node2)
      in if nameComparison \<noteq> 0 then nameComparison < 0 else dn_sessionNo node1 < dn_sessionNo node2)"

record digest_tree =
  dgt_digestNode :: "digest_node list"
  dgt_root :: bytes

definition DigestTree_new :: digest_tree where
  "DigestTree_new = \<lparr>dgt_digestNode = [], dgt_root = str ''00''\<rparr>"

definition recomputeRoot :: "(bytes \<Rightarrow> bytes) \<Rightarrow> digest_tree \<Rightarrow> digest_tree" where
  "recomputeRoot sha self =
     self\<lparr>dgt_root := toHex (sha (concat (map (\<lambda>n. updateHex (dn_digest n)) (dgt_digestNode self))))\<rparr>"

fun digest_find_from :: "digest_node list \<Rightarrow> bytes \<Rightarrow> int \<Rightarrow> int \<Rightarrow> int" where
  "digest_find_from [] dataPrefix sessionNo i = -1"
| "digest_find_from (n # ns) dataPrefix sessionNo i =
     (if dn_dataPrefix n = dataPrefix \<and> dn_sessionNo n = sessionNo then i else digest_find_from ns dataPrefix sessionNo (i + 1))"

definition DigestTree_find :: "bytes \<Rightarrow> int \<Rightarrow> digest_tree \<Rightarrow> int" where
  "DigestTree_find dataPrefix sessionNo self = digest_find_from (dgt_digestNode self) dataPrefix sessionNo 0"

definition DigestTree_update :: "(bytes \<Rightarrow> bytes) \<Rightarrow> bytes \<Rightarrow> int \<Rightarrow> int \<Rightarrow> digest_tree \<Rightarrow> bool \<times> digest_tree" where
  "DigestTree_update sha dataPrefix sessionNo sequenceNo self =
     (let index = DigestTree_find dataPrefix sessionNo self in
      if index \<ge> 0
      then let node = dgt_digestNode self ! nat index in
           if dn_sequenceNo node < sequenceNo
           then (True, recomputeRoot sha
                   (self\<lparr>dgt_digestNode := (dgt_digestNode self)[nat index := setSequenceNo sha sequenceNo node]\<rparr>))
           else (False, self)
      else (True, recomputeRoot sha
              (self\<lparr>dgt_digestNode :=
                 insert_lower_bound node_less (DigestNode_new sha dataPrefix sessionNo sequenceNo) (dgt_digestNode self)\<rparr>)))"

section \<open>The abstract state\<close>

text \<open>A map from producer sessions to sequence numbers.\<close>

definition dn_key :: "digest_node \<Rightarrow> bytes \<times> int" where
  "dn_key n = (dn_dataPrefix n, dn_sessionNo n)"

definition nodes_map :: "digest_node list \<Rightarrow> (bytes \<times> int) \<Rightarrow> int option" where
  "nodes_map ns = map_of (map (\<lambda>n. (dn_key n, dn_sequenceNo n)) ns)"

definition tree_map :: "digest_tree \<Rightarrow> (bytes \<times> int) \<Rightarrow> int option" where
  "tree_map t = nodes_map (dgt_digestNode t)"

definition tree_ok :: "(bytes \<Rightarrow> bytes) \<Rightarrow> digest_tree \<Rightarrow> bool" where
  "tree_ok sha t \<longleftrightarrow> sorted_wrt (<) (map dn_key (dgt_digestNode t)) \<and>
     (\<forall>n \<in> set (dgt_digestNode t). recomputeDigest sha n = n) \<and>
     dgt_root t = (if dgt_digestNode t = [] then str ''00'' else dgt_root (recomputeRoot sha t))"

lemma string_compare_less: "string_compare x y < 0 \<longleftrightarrow> x < y"
  by (induction x y rule: string_compare.induct) auto

lemma string_compare_eq: "string_compare x y = 0 \<longleftrightarrow> x = y"
  by (induction x y rule: string_compare.induct) auto

lemma node_less_key: "node_less a b \<longleftrightarrow> dn_key a < dn_key b"
  by (auto simp: node_less_def Let_def string_compare_less string_compare_eq dn_key_def less_prod_def)

interpretation digest_nodes: sorted_table "\<lambda>_. True" node_less
  by unfold_locales (auto simp: node_less_key)

lemma dn_key_new [simp]: "dn_key (DigestNode_new sha p s q) = (p, s)" "dn_key (setSequenceNo sha q n) = dn_key n"
    "dn_sequenceNo (DigestNode_new sha p s q) = q" "dn_sequenceNo (setSequenceNo sha q n) = q"
  by (simp_all add: dn_key_def DigestNode_new_def setSequenceNo_def recomputeDigest_def Let_def)

lemma recomputeDigest_new [simp]: "recomputeDigest sha (recomputeDigest sha n) = recomputeDigest sha n"
  by (simp add: recomputeDigest_def Let_def)

lemma recomputeDigest_node [simp]:
  "recomputeDigest sha (DigestNode_new sha p s q) = DigestNode_new sha p s q"
  "recomputeDigest sha (setSequenceNo sha q n) = setSequenceNo sha q n"
  by (simp_all add: DigestNode_new_def setSequenceNo_def)

lemma digest_find_from:
  "digest_find_from ns p s i = (if \<exists>n \<in> set ns. dn_key n = (p, s)
     then i + int (length (takeWhile (\<lambda>n. dn_key n \<noteq> (p, s)) ns)) else -1)"
  by (induction ns arbitrary: i) (auto simp: dn_key_def)

lemma nodes_map_None: "nodes_map ns k = None \<longleftrightarrow> k \<notin> dn_key ` set ns"
  by (induction ns) (auto simp: nodes_map_def)

lemma nodes_map_Cons: "nodes_map (n # ns) = (nodes_map ns)(dn_key n \<mapsto> dn_sequenceNo n)"
  by (simp add: nodes_map_def)

lemma nodes_map_split:
  "dn_key n \<notin> dn_key ` set ys \<Longrightarrow> nodes_map (ys @ n # zs) = (nodes_map (ys @ zs))(dn_key n \<mapsto> dn_sequenceNo n)"
  by (induction ys) (auto simp: nodes_map_Cons fun_upd_twist)

text \<open>Finding a session: where it is in the table, with its sequence number.\<close>

lemma find_absent: "DigestTree_find p s t < 0 \<Longrightarrow> tree_map t (p, s) = None \<and> (p, s) \<notin> dn_key ` set (dgt_digestNode t)"
  by (auto simp: DigestTree_find_def digest_find_from tree_map_def nodes_map_None image_iff split: if_splits)

lemma find_present:
  assumes "DigestTree_find p s t \<ge> 0"
  shows "\<exists>ys n zs. dgt_digestNode t = ys @ n # zs \<and> dn_key n = (p, s) \<and> (p, s) \<notin> dn_key ` set ys \<and>
    nat (DigestTree_find p s t) = length ys"
proof -
  let ?P = "\<lambda>n. dn_key n \<noteq> (p, s)"
  have ex: "\<exists>n \<in> set (dgt_digestNode t). dn_key n = (p, s)" and
    len: "nat (DigestTree_find p s t) = length (takeWhile ?P (dgt_digestNode t))"
    using assms by (auto simp: DigestTree_find_def digest_find_from split: if_splits)
  then have "dropWhile ?P (dgt_digestNode t) \<noteq> []" by (auto simp: dropWhile_eq_Nil_conv)
  then obtain n zs where z: "dropWhile ?P (dgt_digestNode t) = n # zs" by (cases "dropWhile ?P (dgt_digestNode t)") auto
  then have "\<not> ?P n" using hd_dropWhile [of ?P "dgt_digestNode t"] by simp
  then have key: "dn_key n = (p, s)" by simp
  have split: "dgt_digestNode t = takeWhile ?P (dgt_digestNode t) @ n # zs"
    using takeWhile_dropWhile_id [of ?P "dgt_digestNode t"] unfolding z by (rule sym)
  have before: "(p, s) \<notin> dn_key ` set (takeWhile ?P (dgt_digestNode t))" by (auto dest: set_takeWhileD)
  show ?thesis by (rule exI, rule exI, rule exI, intro conjI) (rule split key before len)+
qed

text \<open>What an update does to the map, and that it keeps the invariant.\<close>

definition newer :: "bytes \<Rightarrow> int \<Rightarrow> int \<Rightarrow> digest_tree \<Rightarrow> bool" where
  "newer p s q t \<longleftrightarrow> (case tree_map t (p, s) of None \<Rightarrow> True | Some q' \<Rightarrow> q' < q)"

lemma tree_ok_root:
  assumes "sorted_wrt (<) (map dn_key ns)" and "\<forall>n \<in> set ns. recomputeDigest sha n = n" and "ns \<noteq> []"
  shows "tree_ok sha (recomputeRoot sha (t\<lparr>dgt_digestNode := ns\<rparr>))"
  using assms by (simp add: tree_ok_def recomputeRoot_def)

lemma update_present:
  assumes ok: "tree_ok sha t" and f: "DigestTree_find p s t \<ge> 0"
  shows "DigestTree_update sha p s q t =
      (if newer p s q t then (True, snd (DigestTree_update sha p s q t)) else (False, t)) \<and>
    (newer p s q t \<longrightarrow> tree_ok sha (snd (DigestTree_update sha p s q t)) \<and>
       tree_map (snd (DigestTree_update sha p s q t)) = (tree_map t)((p, s) \<mapsto> q))"
proof -
  obtain ys n zs where t: "dgt_digestNode t = ys @ n # zs" "dn_key n = (p, s)" "(p, s) \<notin> dn_key ` set ys"
    and i: "nat (DigestTree_find p s t) = length ys" using find_present [OF f] by blast
  have old: "tree_map t = (nodes_map (ys @ zs))((p, s) \<mapsto> dn_sequenceNo n)"
    using nodes_map_split [of n ys zs] t by (simp add: tree_map_def)
  let ?n = "setSequenceNo sha q n"
  have upd: "DigestTree_update sha p s q t = (if dn_sequenceNo n < q
      then (True, recomputeRoot sha (t\<lparr>dgt_digestNode := ys @ ?n # zs\<rparr>)) else (False, t))"
    using f i t(1) by (simp add: DigestTree_update_def Let_def nth_append)
  have "tree_ok sha (recomputeRoot sha (t\<lparr>dgt_digestNode := ys @ ?n # zs\<rparr>))"
    using ok t by (intro tree_ok_root) (simp_all add: tree_ok_def)
  moreover have "tree_map (recomputeRoot sha (t\<lparr>dgt_digestNode := ys @ ?n # zs\<rparr>)) = (tree_map t)((p, s) \<mapsto> q)"
    using nodes_map_split [of ?n ys zs] t(2,3) by (simp add: old) (simp add: tree_map_def recomputeRoot_def)
  ultimately show ?thesis by (simp add: upd newer_def old)
qed

lemma update_absent:
  assumes ok: "tree_ok sha t" and f: "\<not> DigestTree_find p s t \<ge> 0"
  shows "newer p s q t \<and> fst (DigestTree_update sha p s q t) \<and> tree_ok sha (snd (DigestTree_update sha p s q t)) \<and>
    tree_map (snd (DigestTree_update sha p s q t)) = (tree_map t)((p, s) \<mapsto> q)"
proof -
  note a = find_absent [of p s t] f
  let ?n = "DigestNode_new sha p s q"
  let ?ns = "insert_lower_bound node_less ?n (dgt_digestNode t)"
  have upd: "DigestTree_update sha p s q t = (True, recomputeRoot sha (t\<lparr>dgt_digestNode := ?ns\<rparr>))"
    using f by (simp add: DigestTree_update_def)
  have srt: "table_sorted node_less (dgt_digestNode t)"
    using ok by (auto simp: tree_ok_def table_sorted_def node_less_key sorted_wrt_map elim!: sorted_wrt_mono_rel [rotated])
  then have "table_sorted node_less ?ns" by (intro digest_nodes.sorted_insert) simp_all
  then have "sorted (map dn_key ?ns)" by (simp add: table_sorted_def node_less_key sorted_map not_less)
  moreover have "distinct (map dn_key ?ns)"
  proof -
    have "mset (map dn_key ?ns) = mset (map dn_key (?n # dgt_digestNode t))" by simp
    moreover have "distinct (map dn_key (?n # dgt_digestNode t))"
      using ok a by (simp add: tree_ok_def strict_sorted_iff not_le)
    ultimately show ?thesis by (rule mset_eq_imp_distinct_iff [THEN iffD2])
  qed
  ultimately have sd: "sorted_wrt (<) (map dn_key ?ns)" by (simp add: strict_sorted_iff)
  have d: "\<forall>n \<in> set ?ns. recomputeDigest sha n = n" using ok by (auto simp: tree_ok_def)
  have "tree_map (recomputeRoot sha (t\<lparr>dgt_digestNode := ?ns\<rparr>)) = (tree_map t)((p, s) \<mapsto> q)"
  proof -
    have "dn_key ?n \<notin> dn_key ` set (takeWhile (\<lambda>y. node_less y ?n) (dgt_digestNode t))"
      using a by (auto dest: set_takeWhileD)
    from nodes_map_split [OF this] show ?thesis by (simp add: tree_map_def recomputeRoot_def insert_lower_bound_def)
  qed
  moreover have "?ns \<noteq> []" by (simp add: insert_lower_bound_def)
  ultimately show ?thesis using a f tree_ok_root [OF sd d] by (simp add: upd newer_def)
qed

lemma digest_tree_update:
  assumes "tree_ok sha t"
  shows "fst (DigestTree_update sha p s q t) = newer p s q t"
    and "tree_ok sha (snd (DigestTree_update sha p s q t))"
    and "tree_map (snd (DigestTree_update sha p s q t)) = (if newer p s q t then (tree_map t)((p, s) \<mapsto> q) else tree_map t)"
  using update_present [OF assms, of p s q] update_absent [OF assms, of p s q] assms
  by (cases "DigestTree_find p s t \<ge> 0"; cases "newer p s q t"; auto simp: prod_eq_iff split: if_splits)+

text \<open>
  C28.  The digest tree implements a map from producer sessions to their newest sequence numbers: an update is accepted exactly
  when the session is unknown or its number is newer, then the map holds the number, otherwise nothing changes; and the nodes stay
  strictly sorted with their own digests, under the root digest of all of them.
\<close>

theorem digest_tree_refines_map:
  assumes "tree_ok sha t" and "DigestTree_update sha p s q t = (accepted, t')"
  shows "accepted = newer p s q t \<and> tree_ok sha t' \<and>
    tree_map t' = (if newer p s q t then (tree_map t)((p, s) \<mapsto> q) else tree_map t)"
  using digest_tree_update [OF assms(1), of p s q] assms(2) by simp

lemma tree_ok_new [simp]: "tree_ok sha DigestTree_new" "tree_map DigestTree_new = Map.empty"
  by (simp_all add: tree_ok_def DigestTree_new_def tree_map_def nodes_map_def)

theorem digest_tree_refines_map_witness:
  "tree_map (snd (DigestTree_update (\<lambda>_. replicate 32 0) (str ''/a'') 1 5 DigestTree_new)) (str ''/a'', 1) = Some 5"
  using digest_tree_refines_map [OF tree_ok_new(1) prod.collapse [symmetric], of "\<lambda>_. replicate 32 0" "str ''/a''" 1 5]
  by (simp add: newer_def)

section \<open>Replicas converge\<close>

definition DigestTree_updates :: "(bytes \<Rightarrow> bytes) \<Rightarrow> (bytes \<times> int \<times> int) list \<Rightarrow> digest_tree \<Rightarrow> digest_tree" where
  "DigestTree_updates sha us t = fold (\<lambda>(p, s, q) t. snd (DigestTree_update sha p s q t)) us t"

text \<open>The map after a set of updates: the largest number of each session.\<close>

definition numbers :: "(bytes \<times> int \<times> int) set \<Rightarrow> bytes \<times> int \<Rightarrow> int set" where
  "numbers U k = {q. (fst k, snd k, q) \<in> U}"

definition newest :: "(bytes \<times> int \<times> int) set \<Rightarrow> bytes \<times> int \<Rightarrow> int option" where
  "newest U k = (if numbers U k = {} then None else Some (Max (numbers U k)))"

lemma finite_numbers: "finite U \<Longrightarrow> finite (numbers U k)"
proof -
  assume "finite U"
  moreover have "numbers U k \<subseteq> (\<lambda>(p, s, q). q) ` U" by (force simp: numbers_def)
  ultimately show ?thesis using finite_surj by blast
qed

lemma numbers_insert: "numbers (insert (p, s, q) U) k = (if k = (p, s) then insert q (numbers U k) else numbers U k)"
  by (auto simp: numbers_def)

lemma update_newest:
  assumes ok: "tree_ok sha t" and map: "tree_map t = newest U" and fin: "finite U"
  shows "tree_map (snd (DigestTree_update sha p s q t)) = newest (insert (p, s, q) U)"
proof
  fix k
  have f: "finite (numbers U k)" using fin by (rule finite_numbers)
  show "tree_map (snd (DigestTree_update sha p s q t)) k = newest (insert (p, s, q) U) k"
    using Max_insert [OF f, of q] digest_tree_update(3) [OF ok, of p s q]
    by (cases "numbers U k = {}") (auto simp: newer_def map newest_def numbers_insert max_def not_less)
qed

lemma updates_newest:
  "tree_ok sha t \<Longrightarrow> tree_map t = newest U \<Longrightarrow> finite U \<Longrightarrow>
   tree_ok sha (DigestTree_updates sha us t) \<and> tree_map (DigestTree_updates sha us t) = newest (U \<union> set us)"
proof (induction us arbitrary: t U)
  case (Cons u us)
  obtain p s q where u: "u = (p, s, q)" by (cases u)
  let ?t = "snd (DigestTree_update sha p s q t)"
  have "tree_ok sha ?t" using Cons.prems(1) by (rule digest_tree_update(2))
  moreover have "tree_map ?t = newest (insert u U)" unfolding u using Cons.prems by (rule update_newest)
  ultimately show ?case using Cons.IH [of ?t "insert u U"] Cons.prems(3) by (simp add: DigestTree_updates_def u)
qed (simp add: DigestTree_updates_def)

text \<open>A well-formed tree is determined by its map.\<close>

lemma nodes_map_member: "n \<in> set ns \<Longrightarrow> distinct (map dn_key ns) \<Longrightarrow> nodes_map ns (dn_key n) = Some (dn_sequenceNo n)"
proof (induction ns)
  case (Cons a ns)
  then have "dn_key n \<noteq> dn_key a" if "n \<in> set ns" using that by (metis distinct.simps(2) imageI list.set_map list.simps(9))
  with Cons show ?case by (auto simp: nodes_map_Cons)
qed simp

lemma digest_node_eq: "dn_key m = dn_key n \<Longrightarrow> dn_sequenceNo m = dn_sequenceNo n \<Longrightarrow> recomputeDigest sha m = recomputeDigest sha n"
  by (cases m; cases n) (simp add: dn_key_def recomputeDigest_def Let_def)

lemma tree_determined:
  assumes ok: "tree_ok sha t" "tree_ok sha u" and map: "tree_map t = tree_map u"
  shows "dgt_digestNode t = dgt_digestNode u" and "dgt_root t = dgt_root u"
proof -
  let ?xs = "dgt_digestNode t" and ?ys = "dgt_digestNode u"
  have "k \<in> dn_key ` set ?xs \<longleftrightarrow> k \<in> dn_key ` set ?ys" for k
    using fun_cong [OF map, of k] nodes_map_None [of ?xs k] nodes_map_None [of ?ys k] by (metis tree_map_def)
  then have "dn_key ` set ?xs = dn_key ` set ?ys" by (rule set_eqI)
  then have keys: "map dn_key ?xs = map dn_key ?ys"
    using ok by (intro strict_sorted_equal) (simp_all add: tree_ok_def)
  show nodes: "?xs = ?ys"
  proof (rule nth_equalityI)
    show len: "length ?xs = length ?ys" using keys by (rule map_eq_imp_length_eq)
    fix i assume i: "i < length ?xs"
    have k: "dn_key (?xs ! i) = dn_key (?ys ! i)" using keys i len by (metis nth_map)
    have d: "distinct (map dn_key ?xs)" "distinct (map dn_key ?ys)" using ok by (simp_all add: tree_ok_def strict_sorted_iff)
    have "nodes_map ?xs (dn_key (?xs ! i)) = nodes_map ?ys (dn_key (?ys ! i))" using map k by (simp add: tree_map_def)
    then have "dn_sequenceNo (?xs ! i) = dn_sequenceNo (?ys ! i)"
      using nodes_map_member [OF _ d(1), of "?xs ! i"] nodes_map_member [OF _ d(2), of "?ys ! i"] i len by simp
    from digest_node_eq [OF k this, of sha] show "?xs ! i = ?ys ! i" using ok i len by (simp add: tree_ok_def)
  qed
  show "dgt_root t = dgt_root u" using ok nodes by (simp add: tree_ok_def recomputeRoot_def)
qed

text \<open>
  C29.  Two participants that have seen the same updates, in any order and any number of times, have the same digest tree and
  so the same root digest, whatever the hash function; it is the tree of the newest sequence numbers.
\<close>

theorem digest_trees_converge:
  assumes "set us = set vs"
  shows "dgt_root (DigestTree_updates sha us DigestTree_new) = dgt_root (DigestTree_updates sha vs DigestTree_new) \<and>
    dgt_digestNode (DigestTree_updates sha us DigestTree_new) = dgt_digestNode (DigestTree_updates sha vs DigestTree_new) \<and>
    tree_map (DigestTree_updates sha us DigestTree_new) = newest (set us)"
proof -
  have new: "tree_map DigestTree_new = newest {}" by (simp add: newest_def numbers_def fun_eq_iff)
  note u = updates_newest [OF tree_ok_new(1) new, of sha us] updates_newest [OF tree_ok_new(1) new, of sha vs]
  then have "tree_map (DigestTree_updates sha us DigestTree_new) = tree_map (DigestTree_updates sha vs DigestTree_new)"
    using assms by simp
  with u show ?thesis using tree_determined [of sha "DigestTree_updates sha us DigestTree_new" "DigestTree_updates sha vs DigestTree_new"]
    by simp
qed

theorem digest_trees_converge_witness:
  "dgt_root (DigestTree_updates (take 32) [(str ''/a'', 1, 5), (str ''/b'', 1, 2), (str ''/a'', 1, 4)] DigestTree_new) =
   dgt_root (DigestTree_updates (take 32) [(str ''/a'', 1, 4), (str ''/a'', 1, 5), (str ''/b'', 1, 2), (str ''/b'', 1, 2)] DigestTree_new)"
  using digest_trees_converge [of "[(str ''/a'', 1, 5), (str ''/b'', 1, 2), (str ''/a'', 1, 4)]"
      "[(str ''/a'', 1, 4), (str ''/a'', 1, 5), (str ''/b'', 1, 2), (str ''/b'', 1, 2)]" "take 32"] by (simp add: insert_commute)

end
