(* ===== verification/ContentCache.thy ===== *)
theory ContentCache
  imports FaceModel
begin

text \<open>
  The memory content cache (\<^verbatim>\<open>util/memory-content-cache.[ch]pp\<close>): an application's store of Data packets that answers Interests.
  \<^verbatim>\<open>'f\<close> is a reference to a face to reply on, \<^verbatim>\<open>'k\<close> a callback of the application.  The callbacks get the cache as it is when
  they are called and return what they make of it, so a callback that calls \<^verbatim>\<open>add\<close> is one of the environments.
\<close>

section \<open>State\<close>

record content =
  ct_name :: name
  ct_dataEncoding :: bytes

record stale_time_content = content +
  ct_cacheRemovalTimeMilliseconds :: real
  ct_freshnessExpiryTimeMilliseconds :: real

record 'f stored_interest =
  si_interest :: interest
  si_face :: 'f
  si_timeoutPeriodStart :: real
  si_timeoutTimeMilliseconds :: real

datatype ('f, 'k) cache_event =
    CacheSend 'f bytes
  | CacheDataNotFound 'k name interest 'f u64 interest_filter
  | CacheContentRemoved 'k "content list"

record ('f, 'k) content_cache =
  mc_cleanupIntervalMilliseconds :: real
  mc_nextCleanupTime :: real
  mc_onDataNotFoundForPrefix :: "bytes \<rightharpoonup> 'k option"
  mc_interestFilterIdList :: "u64 list"
  mc_registeredPrefixIdList :: "u64 list"
  mc_noStaleTimeCache :: "content list"
  mc_staleTimeCache :: "stale_time_content list"
  mc_pendingInterestTable :: "'f stored_interest list"
  mc_onContentRemoved :: "'k option"
  mc_isDoingCleanup :: bool
  mc_minimumCacheLifetime :: real
  mc_events :: "('f, 'k) cache_event list"

text \<open>What the cache uses: the clock and the wire formats, the faces' \<^verbatim>\<open>send\<close>, and the application's callbacks.\<close>

record ('f, 'k) cache_env =
  ce_node :: "'k node_env"
  ce_send :: "'f \<Rightarrow> bytes \<Rightarrow> unit result"
  ce_contentRemoved :: "'k \<Rightarrow> content list \<Rightarrow> ('f, 'k) content_cache \<Rightarrow> ('f, 'k) content_cache"
  ce_dataNotFound ::
    "'k \<Rightarrow> name \<Rightarrow> interest \<Rightarrow> 'f \<Rightarrow> u64 \<Rightarrow> interest_filter \<Rightarrow> ('f, 'k) content_cache \<Rightarrow> ('f, 'k) content_cache"

definition MemoryContentCache_new :: "real \<Rightarrow> real \<Rightarrow> ('f, 'k) content_cache" where
  "MemoryContentCache_new now cleanupIntervalMilliseconds =
     \<lparr>mc_cleanupIntervalMilliseconds = cleanupIntervalMilliseconds,
      mc_nextCleanupTime = now + cleanupIntervalMilliseconds, mc_onDataNotFoundForPrefix = Map.empty,
      mc_interestFilterIdList = [], mc_registeredPrefixIdList = [], mc_noStaleTimeCache = [], mc_staleTimeCache = [],
      mc_pendingInterestTable = [], mc_onContentRemoved = None, mc_isDoingCleanup = False, mc_minimumCacheLifetime = 0,
      mc_events = []\<rparr>"

definition record_cache_event :: "('f, 'k) cache_event \<Rightarrow> ('f, 'k) content_cache \<Rightarrow> ('f, 'k) content_cache" where
  "record_cache_event e self = self\<lparr>mc_events := mc_events self @ [e]\<rparr>"

definition cache_send ::
  "('f, 'k) cache_env \<Rightarrow> 'f \<Rightarrow> bytes \<Rightarrow> ('f, 'k) content_cache \<Rightarrow> unit result \<times> ('f, 'k) content_cache" where
  "cache_send env face encoding self = (ce_send env face encoding, record_cache_event (CacheSend face encoding) self)"

section \<open>Registration\<close>

text \<open>\<^verbatim>\<open>onInterest\<close> is the callback that the cache binds to its own \<^verbatim>\<open>onInterest\<close>; \<^verbatim>\<open>face\<close> is the face of the constructor.\<close>

definition cache_registerPrefix ::
  "'k node_env \<Rightarrow> 'k \<Rightarrow> name \<Rightarrow> 'k option \<Rightarrow> 'k option \<Rightarrow> 'k option \<Rightarrow> registration_options \<Rightarrow> nat \<Rightarrow>
   'k face \<Rightarrow> ('f, 'k) content_cache \<Rightarrow> (unit result \<times> 'k face \<times> ('f, 'k) content_cache) option" where
  "cache_registerPrefix env onInterest prefix onRegisterFailed onRegisterSuccess onDataNotFound registrationOptions wireFormat face self =
     (let self = self\<lparr>mc_onDataNotFoundForPrefix := (mc_onDataNotFoundForPrefix self)(Name_toUri False prefix \<mapsto> onDataNotFound)\<rparr> in
      bindR (map_option (\<lambda>(r, face). (r, face, self))
               (Face_registerPrefix env prefix (Some onInterest) onRegisterFailed onRegisterSuccess registrationOptions wireFormat face))
        (\<lambda>registeredPrefixId (face, self).
          Some (Inr (), face, self\<lparr>mc_registeredPrefixIdList := mc_registeredPrefixIdList self @ [registeredPrefixId]\<rparr>)))"

definition cache_setInterestFilter ::
  "'k \<Rightarrow> interest_filter \<Rightarrow> 'k option \<Rightarrow> 'k face \<Rightarrow> ('f, 'k) content_cache \<Rightarrow> 'k face \<times> ('f, 'k) content_cache" where
  "cache_setInterestFilter onInterest interestFilter onDataNotFound face self =
     (let self = self\<lparr>mc_onDataNotFoundForPrefix :=
                   (mc_onDataNotFoundForPrefix self)(Name_toUri False (if_prefix interestFilter) \<mapsto> onDataNotFound)\<rparr>;
          (interestFilterId, face) = Face_setInterestFilter interestFilter (Some onInterest) face
      in (face, self\<lparr>mc_interestFilterIdList := mc_interestFilterIdList self @ [interestFilterId]\<rparr>))"

definition cache_setInterestFilter_prefix ::
  "'k \<Rightarrow> name \<Rightarrow> 'k option \<Rightarrow> 'k face \<Rightarrow> ('f, 'k) content_cache \<Rightarrow> 'k face \<times> ('f, 'k) content_cache" where
  "cache_setInterestFilter_prefix onInterest prefix onDataNotFound face self =
     (let self = self\<lparr>mc_onDataNotFoundForPrefix :=
                   (mc_onDataNotFoundForPrefix self)(Name_toUri False prefix \<mapsto> onDataNotFound)\<rparr>;
          (interestFilterId, face) = Face_setInterestFilter_prefix prefix (Some onInterest) face
      in (face, self\<lparr>mc_interestFilterIdList := mc_interestFilterIdList self @ [interestFilterId]\<rparr>))"

definition cache_unregisterAll :: "'k face \<Rightarrow> ('f, 'k) content_cache \<Rightarrow> 'k face \<times> ('f, 'k) content_cache" where
  "cache_unregisterAll face self =
     (fold Face_removeRegisteredPrefix (mc_registeredPrefixIdList self)
        (fold Face_unsetInterestFilter (mc_interestFilterIdList self) face),
      self\<lparr>mc_interestFilterIdList := [], mc_registeredPrefixIdList := [], mc_onDataNotFoundForPrefix := Map.empty\<rparr>)"

section \<open>Content\<close>

definition StaleTimeContent_new :: "name \<Rightarrow> bytes \<Rightarrow> real \<Rightarrow> real \<Rightarrow> real \<Rightarrow> stale_time_content" where
  "StaleTimeContent_new name dataEncoding freshnessPeriod nowMilliseconds minimumCacheLifetime =
     \<lparr>ct_name = name, ct_dataEncoding = dataEncoding,
      ct_cacheRemovalTimeMilliseconds = nowMilliseconds + max freshnessPeriod minimumCacheLifetime,
      ct_freshnessExpiryTimeMilliseconds = nowMilliseconds + freshnessPeriod\<rparr>"

definition isPastRemovalTime :: "real \<Rightarrow> stale_time_content \<Rightarrow> bool" where
  "isPastRemovalTime nowMilliseconds self \<longleftrightarrow> ct_cacheRemovalTimeMilliseconds self \<le> nowMilliseconds"

definition isFresh :: "real \<Rightarrow> stale_time_content \<Rightarrow> bool" where
  "isFresh nowMilliseconds self \<longleftrightarrow> ct_freshnessExpiryTimeMilliseconds self > nowMilliseconds"

definition content_less :: "stale_time_content \<Rightarrow> stale_time_content \<Rightarrow> bool" where
  "content_less x y \<longleftrightarrow> ct_cacheRemovalTimeMilliseconds x < ct_cacheRemovalTimeMilliseconds y"

definition as_content :: "stale_time_content \<Rightarrow> content" where
  "as_content c = \<lparr>ct_name = ct_name c, ct_dataEncoding = ct_dataEncoding c\<rparr>"

definition setOnContentRemoved :: "'k option \<Rightarrow> ('f, 'k) content_cache \<Rightarrow> ('f, 'k) content_cache" where
  "setOnContentRemoved onContentRemoved self = self\<lparr>mc_onContentRemoved := onContentRemoved\<rparr>"

definition setMinimumCacheLifetime :: "real \<Rightarrow> ('f, 'k) content_cache \<Rightarrow> ('f, 'k) content_cache" where
  "setMinimumCacheLifetime minimumCacheLifetime self = self\<lparr>mc_minimumCacheLifetime := minimumCacheLifetime\<rparr>"

text \<open>The loop of \<^verbatim>\<open>doCleanup\<close>: what it removes from the front, and what is left.\<close>

fun remove_stale :: "real \<Rightarrow> stale_time_content list \<Rightarrow> content list \<times> stale_time_content list" where
  "remove_stale now [] = ([], [])"
| "remove_stale now (c # cs) =
     (if isPastRemovalTime now c then (let (removed, rest) = remove_stale now cs in (as_content c # removed, rest))
      else ([], c # cs))"

definition doCleanup :: "('f, 'k) cache_env \<Rightarrow> real \<Rightarrow> ('f, 'k) content_cache \<Rightarrow> ('f, 'k) content_cache" where
  "doCleanup env nowMilliseconds self =
     (if mc_isDoingCleanup self then self
      else
        let self = self\<lparr>mc_isDoingCleanup := True\<rparr>;
            (contentList, self) =
              (if nowMilliseconds \<ge> mc_nextCleanupTime self
               then let (removed, rest) = remove_stale nowMilliseconds (mc_staleTimeCache self)
                    in (if mc_onContentRemoved self \<noteq> None then removed else [],
                        self\<lparr>mc_staleTimeCache := rest,
                             mc_nextCleanupTime := nowMilliseconds + mc_cleanupIntervalMilliseconds self\<rparr>)
               else ([], self));
            self = (case mc_onContentRemoved self of
                      Some onContentRemoved \<Rightarrow>
                        if contentList \<noteq> []
                        then ce_contentRemoved env onContentRemoved contentList
                               (record_cache_event (CacheContentRemoved onContentRemoved contentList) self)
                        else self
                    | None \<Rightarrow> self)
        in self\<lparr>mc_isDoingCleanup := False\<rparr>)"

section \<open>Pending interests\<close>

definition StoredInterest_new :: "real \<Rightarrow> interest \<Rightarrow> 'f \<Rightarrow> 'f stored_interest" where
  "StoredInterest_new now interest face =
     (let interestLifetime = i_interestLifetimeMilliseconds interest;
          interestLifetime = (if interestLifetime < 0 then 4000 else interestLifetime)
      in \<lparr>si_interest = interest, si_face = face, si_timeoutPeriodStart = now, si_timeoutTimeMilliseconds = now + interestLifetime\<rparr>)"

definition si_isTimedOut :: "real \<Rightarrow> 'f stored_interest \<Rightarrow> bool" where
  "si_isTimedOut nowMilliseconds self \<longleftrightarrow> nowMilliseconds \<ge> si_timeoutTimeMilliseconds self"

definition storePendingInterest :: "('f, 'k) cache_env \<Rightarrow> interest \<Rightarrow> 'f \<Rightarrow> ('f, 'k) content_cache \<Rightarrow> ('f, 'k) content_cache" where
  "storePendingInterest env interest face self =
     self\<lparr>mc_pendingInterestTable := mc_pendingInterestTable self @ [StoredInterest_new (ne_now (ce_node env)) interest face]\<rparr>"

text \<open>The loops from the last entry to the first that drop the interests that timed out and collect those wanted.\<close>

fun collect_pending ::
  "real \<Rightarrow> ('f stored_interest \<Rightarrow> bool) \<Rightarrow> 'f stored_interest list \<Rightarrow> nat \<Rightarrow> 'f stored_interest list \<Rightarrow>
   'f stored_interest list \<times> 'f stored_interest list" where
  "collect_pending now wanted table 0 out = (table, out)"
| "collect_pending now wanted table (Suc i) out =
     (if si_isTimedOut now (table ! i) then collect_pending now wanted (take i table @ drop (Suc i) table) i out
      else collect_pending now wanted table i (if wanted (table ! i) then out @ [table ! i] else out))"

definition getPendingInterestsForName ::
  "('f, 'k) cache_env \<Rightarrow> name \<Rightarrow> ('f, 'k) content_cache \<Rightarrow> 'f stored_interest list \<times> ('f, 'k) content_cache" where
  "getPendingInterestsForName env name self =
     (let (table, pendingInterests) =
            collect_pending (ne_now (ce_node env)) (\<lambda>p. Interest_matchesName name (si_interest p))
              (mc_pendingInterestTable self) (length (mc_pendingInterestTable self)) []
      in (pendingInterests, self\<lparr>mc_pendingInterestTable := table\<rparr>))"

definition getPendingInterestsWithPrefix ::
  "('f, 'k) cache_env \<Rightarrow> name \<Rightarrow> ('f, 'k) content_cache \<Rightarrow> 'f stored_interest list \<times> ('f, 'k) content_cache" where
  "getPendingInterestsWithPrefix env prefix self =
     (let (table, pendingInterests) =
            collect_pending (ne_now (ce_node env)) (\<lambda>p. Name_match prefix (cc_target (i_name (si_interest p))))
              (mc_pendingInterestTable self) (length (mc_pendingInterestTable self)) []
      in (pendingInterests, self\<lparr>mc_pendingInterestTable := table\<rparr>))"

section \<open>Adding a Data packet\<close>

text \<open>\<^verbatim>\<open>data.wireEncode()\<close> encodes in the default format and caches the encoding in the Data object.\<close>

definition encode_default :: "('f, 'k) cache_env \<Rightarrow> data \<Rightarrow> ((bytes \<times> nat \<times> nat) result \<times> data) option" where
  "encode_default env = encodeData (ce_node env) (f_default (ne_formats (ce_node env)))"

fun add_loop ::
  "('f, 'k) cache_env \<Rightarrow> real \<Rightarrow> nat \<Rightarrow> data \<Rightarrow> ('f, 'k) content_cache \<Rightarrow> (unit result \<times> data \<times> ('f, 'k) content_cache) option" where
  "add_loop env now 0 data self = Some (Inr (), data, self)"
| "add_loop env now (Suc i) data self =
     (let table = mc_pendingInterestTable self;
          erased = self\<lparr>mc_pendingInterestTable := take i table @ drop (Suc i) table\<rparr>
      in if si_isTimedOut now (table ! i) then add_loop env now i data erased
         else if Interest_matchesName (cc_target (dt_name data)) (si_interest (table ! i))
         then Option.bind (encode_default env data) (\<lambda>(encoding, data).
                case encoding of
                  Inl e \<Rightarrow> Some (Inr (), data, self)
                | Inr (bytes, _, _) \<Rightarrow>
                    (case ce_send env (si_face (table ! i)) bytes of
                       Inl e \<Rightarrow> Some (Inr (), data, record_cache_event (CacheSend (si_face (table ! i)) bytes) self)
                     | Inr _ \<Rightarrow> add_loop env now i data (record_cache_event (CacheSend (si_face (table ! i)) bytes) erased)))
         else add_loop env now i data self)"

text \<open>Where the packet goes: the contents that go stale are sorted by removal time.\<close>

definition insert_content :: "real \<Rightarrow> data \<Rightarrow> bytes \<Rightarrow> ('f, 'k) content_cache \<Rightarrow> ('f, 'k) content_cache" where
  "insert_content nowMilliseconds data encoding self =
     (let freshnessPeriod = mi_freshnessPeriod (cc_target (dt_metaInfo data)); name = cc_target (dt_name data)
      in if freshnessPeriod \<ge> 0
         then self\<lparr>mc_staleTimeCache := insert_lower_bound content_less
                (StaleTimeContent_new name encoding freshnessPeriod nowMilliseconds (mc_minimumCacheLifetime self))
                (mc_staleTimeCache self)\<rparr>
         else self\<lparr>mc_noStaleTimeCache := mc_noStaleTimeCache self @ [\<lparr>ct_name = name, ct_dataEncoding = encoding\<rparr>]\<rparr>)"

definition cache_add ::
  "('f, 'k) cache_env \<Rightarrow> data \<Rightarrow> ('f, 'k) content_cache \<Rightarrow> (unit result \<times> data \<times> ('f, 'k) content_cache) option" where
  "cache_add env data self =
     (let nowMilliseconds = ne_now (ce_node env); self = doCleanup env nowMilliseconds self
      in bindR (map_option (\<lambda>(r, data). (r, data, self)) (encode_default env data)) (\<lambda>(encoding, _, _) (data, self).
           let self = insert_content nowMilliseconds data encoding self
           in add_loop env nowMilliseconds (length (mc_pendingInterestTable self)) data self))"

section \<open>Answering an Interest\<close>

text \<open>The contents in the order of the loop, each with whether it is fresh.\<close>

definition cache_contents :: "real \<Rightarrow> ('f, 'k) content_cache \<Rightarrow> (content \<times> bool) list" where
  "cache_contents now self =
     map (\<lambda>c. (as_content c, isFresh now c)) (mc_staleTimeCache self) @ map (\<lambda>c. (c, True)) (mc_noStaleTimeCache self)"

definition selected_component :: "interest \<Rightarrow> content \<Rightarrow> component" where
  "selected_component interest c =
     (if Name_size (ct_name c) > Name_size (cc_target (i_name interest))
      then n_components (ct_name c) ! Name_size (cc_target (i_name interest)) else Component_default)"

text \<open>Inl: the encoding to send at once; Inr: the component and the encoding selected, if any.\<close>

fun select_content ::
  "interest \<Rightarrow> (content \<times> bool) list \<Rightarrow> (component \<times> bytes) option \<Rightarrow> bytes + (component \<times> bytes) option" where
  "select_content interest [] selected = Inr selected"
| "select_content interest ((c, fresh) # cs) selected =
     (if Interest_matchesName (ct_name c) interest \<and> \<not> (i_mustBeFresh interest \<and> \<not> fresh)
      then if i_childSelector interest < 0 then Inl (ct_dataEncoding c)
           else let component = selected_component interest c;
                    gotBetterMatch =
                      (case selected of
                         None \<Rightarrow> True
                       | Some (selectedComponent, _) \<Rightarrow>
                           if i_childSelector interest = 0 then Component_compare component selectedComponent < 0
                           else Component_compare component selectedComponent > 0)
                in select_content interest cs (if gotBetterMatch then Some (component, ct_dataEncoding c) else selected)
      else select_content interest cs selected)"

definition cache_onInterest ::
  "('f, 'k) cache_env \<Rightarrow> name \<Rightarrow> interest \<Rightarrow> 'f \<Rightarrow> u64 \<Rightarrow> interest_filter \<Rightarrow> ('f, 'k) content_cache \<Rightarrow>
   unit result \<times> ('f, 'k) content_cache" where
  "cache_onInterest env prefix interest face interestFilterId interestFilter self =
     (let nowMilliseconds = ne_now (ce_node env); self = doCleanup env nowMilliseconds self
      in case select_content interest (cache_contents nowMilliseconds self) None of
           Inl encoding \<Rightarrow> cache_send env face encoding self
         | Inr (Some (_, selectedEncoding)) \<Rightarrow> cache_send env face selectedEncoding self
         | Inr None \<Rightarrow>
             (case mc_onDataNotFoundForPrefix self (Name_toUri False prefix) of
                Some (Some onDataNotFound) \<Rightarrow>
                  (Inr (), ce_dataNotFound env onDataNotFound prefix interest face interestFilterId interestFilter
                     (record_cache_event (CacheDataNotFound onDataNotFound prefix interest face interestFilterId interestFilter) self))
              | _ \<Rightarrow> (Inr (), self)))"

definition storePendingInterestCallback ::
  "('f, 'k) cache_env \<Rightarrow> name \<Rightarrow> interest \<Rightarrow> 'f \<Rightarrow> u64 \<Rightarrow> interest_filter \<Rightarrow> ('f, 'k) content_cache \<Rightarrow> ('f, 'k) content_cache" where
  "storePendingInterestCallback env prefix interest face interestFilterId interestFilter self =
     storePendingInterest env interest face self"

section \<open>Cleaning up\<close>

text \<open>
  The invariant: the contents that go stale are sorted by removal time, which is not before the end of their freshness
  period.  An environment is accepted when the application's callbacks keep it, as those that use the cache's operations do.
\<close>

definition cache_ok :: "('f, 'k) content_cache \<Rightarrow> bool" where
  "cache_ok self \<longleftrightarrow> table_sorted content_less (mc_staleTimeCache self) \<and>
     (\<forall>c \<in> set (mc_staleTimeCache self). ct_freshnessExpiryTimeMilliseconds c \<le> ct_cacheRemovalTimeMilliseconds c)"

definition callbacks_ok :: "('f, 'k) cache_env \<Rightarrow> bool" where
  "callbacks_ok env \<longleftrightarrow>
     (\<forall>k contents. ce_contentRemoved env k contents ` Collect cache_ok \<subseteq> Collect cache_ok) \<and>
     (\<forall>k prefix interest face i f. ce_dataNotFound env k prefix interest face i f ` Collect cache_ok \<subseteq> Collect cache_ok)"

interpretation stale_table: sorted_table "\<lambda>_. True" content_less
  by unfold_locales (auto simp: content_less_def)

lemma past_not_fresh:
  "ct_freshnessExpiryTimeMilliseconds c \<le> ct_cacheRemovalTimeMilliseconds c \<Longrightarrow> isPastRemovalTime now c \<Longrightarrow> \<not> isFresh now c"
  by (simp add: isPastRemovalTime_def isFresh_def)

lemma remove_stale_While:
  "remove_stale now cs = (map as_content (takeWhile (isPastRemovalTime now) cs), dropWhile (isPastRemovalTime now) cs)"
  by (induction cs) (simp_all split: prod.split)

lemma remove_stale_filter:
  "table_sorted content_less cs \<Longrightarrow>
   remove_stale now cs = (map as_content (filter (isPastRemovalTime now) cs), filter (\<lambda>c. \<not> isPastRemovalTime now c) cs)"
  unfolding remove_stale_While
proof (induction cs)
  case (Cons c cs)
  have late: "\<not> isPastRemovalTime now d" if "\<not> isPastRemovalTime now c" "d \<in> set cs" for d
    using Cons.prems that unfolding table_sorted_Cons by (auto simp: content_less_def isPastRemovalTime_def)
  from Cons.prems have "table_sorted content_less cs" unfolding table_sorted_Cons by blast
  with Cons.IH late show ?case by (auto simp: filter_empty_conv)
qed simp

lemma sorted_filter: "table_sorted lt xs \<Longrightarrow> table_sorted lt (filter p xs)"
  by (auto simp: table_sorted_def intro: sorted_wrt_filter)

lemma cache_ok_update [simp]:
  "cache_ok (MemoryContentCache_new t interval)"
  "cache_ok (self\<lparr>mc_isDoingCleanup := b\<rparr>) = cache_ok self"
  "cache_ok (self\<lparr>mc_nextCleanupTime := t\<rparr>) = cache_ok self"
  "cache_ok (self\<lparr>mc_pendingInterestTable := ps\<rparr>) = cache_ok self"
  "cache_ok (self\<lparr>mc_noStaleTimeCache := cs\<rparr>) = cache_ok self"
  "cache_ok (self\<lparr>mc_onDataNotFoundForPrefix := m\<rparr>) = cache_ok self"
  "cache_ok (self\<lparr>mc_interestFilterIdList := ids\<rparr>) = cache_ok self"
  "cache_ok (self\<lparr>mc_registeredPrefixIdList := ids\<rparr>) = cache_ok self"
  "cache_ok (setOnContentRemoved k self) = cache_ok self"
  "cache_ok (setMinimumCacheLifetime t self) = cache_ok self"
  "cache_ok (record_cache_event e self) = cache_ok self"
  by (simp_all add: cache_ok_def MemoryContentCache_new_def setOnContentRemoved_def setMinimumCacheLifetime_def record_cache_event_def)

lemma cache_ok_filter:
  "cache_ok self \<Longrightarrow> cache_ok (self\<lparr>mc_staleTimeCache := filter p (mc_staleTimeCache self)\<rparr>)"
  by (auto simp: cache_ok_def intro: sorted_filter)

text \<open>What is left before the callback.\<close>

definition cleaned :: "real \<Rightarrow> ('f, 'k) content_cache \<Rightarrow> ('f, 'k) content_cache" where
  "cleaned now self =
     self\<lparr>mc_staleTimeCache := filter (\<lambda>c. \<not> isPastRemovalTime now c) (mc_staleTimeCache self),
          mc_nextCleanupTime := now + mc_cleanupIntervalMilliseconds self\<rparr>"

lemma cleaned_ok: "cache_ok self \<Longrightarrow> cache_ok (cleaned now self)"
  by (simp add: cleaned_def cache_ok_filter)

lemma doCleanup_due:
  assumes "cache_ok self" and "\<not> mc_isDoingCleanup self" and "mc_nextCleanupTime self \<le> now"
  shows "doCleanup env now self =
     (let past = map as_content (filter (isPastRemovalTime now) (mc_staleTimeCache self))
      in case mc_onContentRemoved self of
           Some k \<Rightarrow>
             if past = [] then cleaned now self
             else ce_contentRemoved env k past
                    (record_cache_event (CacheContentRemoved k past) (cleaned now self\<lparr>mc_isDoingCleanup := True\<rparr>))
                  \<lparr>mc_isDoingCleanup := False\<rparr>
         | None \<Rightarrow> cleaned now self)"
proof -
  have "table_sorted content_less (mc_staleTimeCache self)" using assms(1) by (simp add: cache_ok_def)
  with assms(2,3) show ?thesis
    by (cases self) (simp add: doCleanup_def remove_stale_filter cleaned_def Let_def split: option.split)
qed

lemma doCleanup_ok:
  assumes "cache_ok self" and "callbacks_ok env"
  shows "cache_ok (doCleanup env now self)"
proof -
  have cb: "cache_ok (ce_contentRemoved env k contents s)" if "cache_ok s" for k contents s
    using assms(2) that by (auto simp: callbacks_ok_def)
  consider "mc_isDoingCleanup self" | "\<not> mc_isDoingCleanup self" "mc_nextCleanupTime self \<le> now"
    | "\<not> mc_isDoingCleanup self" "\<not> mc_nextCleanupTime self \<le> now" by blast
  then show ?thesis
  proof cases
    case 2
    show ?thesis
      unfolding doCleanup_due [OF assms(1) 2] using cleaned_ok [OF assms(1)]
      by (auto simp: Let_def intro!: cb split: option.split)
  qed (use assms(1) in \<open>auto simp: doCleanup_def Let_def split: option.split\<close>)
qed

section \<open>The pending table\<close>

lemma collect_pending:
  "n \<le> length table \<Longrightarrow>
   collect_pending now wanted table n out =
     (filter (\<lambda>p. \<not> si_isTimedOut now p) (take n table) @ drop n table,
      out @ rev (filter (\<lambda>p. \<not> si_isTimedOut now p \<and> wanted p) (take n table)))"
proof (induction now wanted table n out rule: collect_pending.induct)
  case (2 now wanted table i out)
  then have i: "take (Suc i) table = take i table @ [table ! i]" "drop i table = table ! i # drop (Suc i) table"
    by (simp_all add: take_Suc_conv_app_nth Cons_nth_drop_Suc)
  from 2 show ?case by (cases "si_isTimedOut now (table ! i)") (simp_all add: i min_def)
qed simp

lemma encode_default_again:
  assumes "encode_default env d = Some (Inr w, d')"
  shows "encode_default env d' = Some (Inr w, d')"
    and "cc_target (dt_name d') = cc_target (dt_name d)"
proof -
  have again: "Data_getDefaultWireEncoding (snd (Data_getDefaultWireEncoding x)) = Data_getDefaultWireEncoding x" for x
    by (simp add: Data_getDefaultWireEncoding_def Let_def case_prod_beta data_count.again)
  have name: "cc_target (dt_name (snd (Data_getDefaultWireEncoding d))) = cc_target (dt_name d)"
    by (simp add: Data_getDefaultWireEncoding_def Data_getChangeCount_def Let_def case_prod_beta)
  show "encode_default env d' = Some (Inr w, d')"
    using assms data_cache.get_cached [of d]
    by (cases w) (auto simp: encode_default_def encodeData_def Data_wireEncode_def Let_def case_prod_beta again get_set_encoding
        split: if_splits option.splits sum.splits)
  show "cc_target (dt_name d') = cc_target (dt_name d)"
    using assms name
    by (auto simp: encode_default_def encodeData_def Data_wireEncode_def Let_def case_prod_beta again
        split: if_splits option.splits sum.splits)
qed

abbreviation asked_for :: "name \<Rightarrow> 'f stored_interest \<Rightarrow> bool" where
  "asked_for name p \<equiv> Interest_matchesName name (si_interest p)"

lemma add_loop_settles:
  assumes enc: "encode_default env d = Some (Inr (bs, b, e), d)" and send: "\<And>face. ce_send env face bs = Inr ()"
  shows "n \<le> length (mc_pendingInterestTable self) \<Longrightarrow>
    add_loop env now n d self =
      Some (Inr (), d,
        self\<lparr>mc_pendingInterestTable :=
               filter (\<lambda>p. \<not> si_isTimedOut now p \<and> \<not> asked_for (cc_target (dt_name d)) p) (take n (mc_pendingInterestTable self)) @
               drop n (mc_pendingInterestTable self),
             mc_events := mc_events self @ map (\<lambda>p. CacheSend (si_face p) bs)
               (rev (filter (\<lambda>p. \<not> si_isTimedOut now p \<and> asked_for (cc_target (dt_name d)) p) (take n (mc_pendingInterestTable self))))\<rparr>)"
proof (induction n arbitrary: self)
  case (Suc n)
  let ?t = "mc_pendingInterestTable self"
  have i: "take (Suc n) ?t = take n ?t @ [?t ! n]" "drop n ?t = ?t ! n # drop (Suc n) ?t" "take n (take n ?t) = take n ?t"
    using Suc.prems by (simp_all add: take_Suc_conv_app_nth Cons_nth_drop_Suc)
  have len: "n \<le> length ?t" "n \<le> length (take n ?t @ drop (Suc n) ?t)" using Suc.prems by simp_all
  note IH = Suc.IH [of self] Suc.IH [of "self\<lparr>mc_pendingInterestTable := take n ?t @ drop (Suc n) ?t\<rparr>"]
    Suc.IH [of "self\<lparr>mc_pendingInterestTable := take n ?t @ drop (Suc n) ?t,
      mc_events := mc_events self @ [CacheSend (si_face (?t ! n)) bs]\<rparr>"]
  show ?case
    using len Suc.prems
    by (cases "si_isTimedOut now (?t ! n)"; cases "asked_for (cc_target (dt_name d)) (?t ! n)")
      (simp_all add: IH i enc send Let_def record_cache_event_def min_def)
qed simp

section \<open>Selecting the reply\<close>

text \<open>The first of the best elements of a list, for a three-way order.\<close>

definition pick_best :: "('b \<Rightarrow> 'b \<Rightarrow> int) \<Rightarrow> ('a \<Rightarrow> 'b) \<Rightarrow> 'a list \<Rightarrow> 'a option" where
  "pick_best cmp key xs =
     fold (\<lambda>x best. case best of None \<Rightarrow> Some x | Some y \<Rightarrow> if cmp (key x) (key y) < 0 then Some x else Some y) xs None"

lemma pick_best_snoc:
  "pick_best cmp key (xs @ [x]) =
     (case pick_best cmp key xs of None \<Rightarrow> Some x | Some y \<Rightarrow> if cmp (key x) (key y) < 0 then Some x else Some y)"
  by (simp add: pick_best_def)

lemma pick_best_None [simp]: "pick_best cmp key xs = None \<longleftrightarrow> xs = []"
  by (induction xs rule: rev_induct) (auto simp: pick_best_snoc pick_best_def [of _ _ "[]"] split: option.split)

lemma pick_best_Nil [simp]: "pick_best cmp key [] = None"
  by simp

context three_way
begin

lemma pick_best_first:
  "pick_best cmp key xs = Some x \<Longrightarrow>
   \<exists>pre post. xs = pre @ x # post \<and> (\<forall>p \<in> set pre. cmp (key x) (key p) < 0) \<and> (\<forall>q \<in> set post. \<not> cmp (key q) (key x) < 0)"
proof (induction xs arbitrary: x rule: rev_induct)
  case (snoc z xs)
  show ?case
  proof (cases "pick_best cmp key xs")
    case None
    with snoc.prems have "xs @ [z] = [] @ x # []" by (simp add: pick_best_snoc)
    then show ?thesis by (intro exI [of _ "[]"]) simp
  next
    case (Some y)
    then obtain pre post where xs: "xs = pre @ y # post" and pre: "\<forall>p \<in> set pre. cmp (key y) (key p) < 0"
      and post: "\<forall>q \<in> set post. \<not> cmp (key q) (key y) < 0"
      using snoc.IH by blast
    show ?thesis
    proof (cases "cmp (key z) (key y) < 0")
      case True
      have "cmp (key z) (key p) < 0" if "p \<in> set xs" for p
        using that xs pre post True less_trans less_le_trans less_iff_not_ge
        by (metis (no_types, lifting) in_set_conv_decomp Un_iff set_append set_ConsD)
      with True Some snoc.prems show ?thesis by (intro exI [of _ xs] exI [of _ "[]"]) (simp add: pick_best_snoc)
    next
      case False
      with Some snoc.prems have "x = y" by (simp add: pick_best_snoc)
      with False xs pre post show ?thesis by (intro exI [of _ pre] exI [of _ "post @ [z]"]) auto
    qed
  qed
qed (simp add: pick_best_def)

end

interpretation rightmost: three_way "\<lambda>a b. Component_compare b a"
  using component_order.cmp_swap component_order.cmp_trans by unfold_locales blast+

abbreviation child_order :: "interest \<Rightarrow> component \<Rightarrow> component \<Rightarrow> int" where
  "child_order interest \<equiv>
     (if i_childSelector interest = 0 then Component_compare else (\<lambda>a b. Component_compare b a))"

lemma child_pick_best:
  assumes "pick_best (child_order interest) key xs = Some x"
  shows "\<exists>pre post. xs = pre @ x # post \<and> (\<forall>p \<in> set pre. child_order interest (key x) (key p) < 0) \<and>
    (\<forall>q \<in> set post. \<not> child_order interest (key q) (key x) < 0)"
  using assms component_order.pick_best_first [of key xs x] rightmost.pick_best_first [of key xs x]
  by (cases "i_childSelector interest = 0") simp_all

definition acceptable :: "interest \<Rightarrow> content \<times> bool \<Rightarrow> bool" where
  "acceptable interest = (\<lambda>(c, fresh). Interest_matchesName (ct_name c) interest \<and> (i_mustBeFresh interest \<longrightarrow> fresh))"

lemma select_first:
  "i_childSelector interest < 0 \<Longrightarrow>
   select_content interest cs selected =
     (case map fst (filter (acceptable interest) cs) of [] \<Rightarrow> Inr selected | c # _ \<Rightarrow> Inl (ct_dataEncoding c))"
proof (induction cs)
  case (Cons cf cs)
  then show ?case by (cases cf; cases "acceptable interest cf") (auto simp: acceptable_def)
qed simp

lemma select_fold:
  assumes "\<not> i_childSelector interest < 0"
  shows "select_content interest cs (map_option (\<lambda>c. (selected_component interest c, ct_dataEncoding c)) best) =
     Inr (map_option (\<lambda>c. (selected_component interest c, ct_dataEncoding c))
       (fold (\<lambda>x best. case best of None \<Rightarrow> Some x
               | Some y \<Rightarrow> if child_order interest (selected_component interest x) (selected_component interest y) < 0
                           then Some x else Some y)
          (map fst (filter (acceptable interest) cs)) best))"
  using assms
proof (induction cs arbitrary: best)
  case (Cons cf cs)
  obtain c fresh where cf: "cf = (c, fresh)" by force
  have swap: "0 < Component_compare (selected_component interest c) d \<longleftrightarrow> Component_compare d (selected_component interest c) < 0" for d
    using component_order.cmp_swap [of "selected_component interest c" d] by simp
  show ?case
    using Cons.prems Cons.IH [of best] Cons.IH [of "Some c"]
    by (cases best) (auto simp: cf acceptable_def Let_def swap)
qed simp

lemma select_best:
  "\<not> i_childSelector interest < 0 \<Longrightarrow>
   select_content interest cs None =
     Inr (map_option (\<lambda>c. (selected_component interest c, ct_dataEncoding c))
       (pick_best (child_order interest) (selected_component interest) (map fst (filter (acceptable interest) cs))))"
  using select_fold [of interest cs None] by (simp add: pick_best_def)

section \<open>The contract\<close>

text \<open>
  The operations that change the cache, each in one of the environments \<^verbatim>\<open>E\<close>: the clock, the faces and the callbacks may be
  others at every call.
\<close>

inductive cache_reachable :: "('f, 'k) cache_env set \<Rightarrow> ('f, 'k) content_cache \<Rightarrow> bool" for E where
  created: "cache_reachable E (MemoryContentCache_new now interval)"
| registered: "cache_registerPrefix env k prefix failed success notFound options wireFormat face self = Some (r, face', self') \<Longrightarrow>
    cache_reachable E self \<Longrightarrow> cache_reachable E self'"
| filter_set: "cache_reachable E self \<Longrightarrow> cache_reachable E (snd (cache_setInterestFilter k interestFilter notFound face self))"
| prefix_set: "cache_reachable E self \<Longrightarrow> cache_reachable E (snd (cache_setInterestFilter_prefix k prefix notFound face self))"
| unregistered: "cache_reachable E self \<Longrightarrow> cache_reachable E (snd (cache_unregisterAll face self))"
| callback_set: "cache_reachable E self \<Longrightarrow> cache_reachable E (setOnContentRemoved removed self)"
| lifetime_set: "cache_reachable E self \<Longrightarrow> cache_reachable E (setMinimumCacheLifetime t self)"
| added: "env \<in> E \<Longrightarrow> cache_add env data self = Some (r, data', self') \<Longrightarrow> cache_reachable E self \<Longrightarrow> cache_reachable E self'"
| stored: "env \<in> E \<Longrightarrow> cache_reachable E self \<Longrightarrow> cache_reachable E (storePendingInterest env interest face self)"
| listed_name: "env \<in> E \<Longrightarrow> cache_reachable E self \<Longrightarrow> cache_reachable E (snd (getPendingInterestsForName env name self))"
| listed_prefix: "env \<in> E \<Longrightarrow> cache_reachable E self \<Longrightarrow> cache_reachable E (snd (getPendingInterestsWithPrefix env name self))"
| received: "env \<in> E \<Longrightarrow> cache_reachable E self \<Longrightarrow>
    cache_reachable E (snd (cache_onInterest env prefix interest face interestFilterId interestFilter self))"

lemma add_loop_stale:
  "add_loop env now n d self = Some (r, d', self') \<Longrightarrow> mc_staleTimeCache self' = mc_staleTimeCache self"
proof (induction n arbitrary: d self)
  case (Suc n)
  from Suc.prems show ?case
    by (auto simp: Let_def record_cache_event_def split: if_splits bind_splits sum.splits prod.splits dest!: Suc.IH)
qed simp

lemma cache_add_ok:
  assumes "cache_add env d self = Some (r, d', self')" and "cache_ok self" and "callbacks_ok env"
  shows "cache_ok self'"
proof -
  let ?self = "doCleanup env (ne_now (ce_node env)) self"
  have ok: "cache_ok ?self" by (rule doCleanup_ok [OF assms(2,3)])
  have ins: "cache_ok (insert_content now d encoding ?self)" for now d encoding
    using ok stale_table.sorted_insert [of "mc_staleTimeCache ?self"]
    by (auto simp: cache_ok_def insert_content_def StaleTimeContent_new_def Let_def)
  have stale: "cache_ok self' \<longleftrightarrow> cache_ok self''" if "add_loop env now n d'' self'' = Some (r, d', self')" for now n d'' self''
    using add_loop_stale [OF that] by (simp add: cache_ok_def)
  from assms(1) show ?thesis
    using ok ins by (auto simp: cache_add_def Let_def bindR_def stale split: bind_splits sum.splits prod.splits if_splits)
qed

lemma cache_onInterest_ok:
  assumes "cache_ok self" and "callbacks_ok env"
  shows "cache_ok (snd (cache_onInterest env prefix interest face interestFilterId interestFilter self))"
proof -
  have "cache_ok (ce_dataNotFound env k prefix interest face interestFilterId interestFilter s)" if "cache_ok s" for k s
  proof -
    have "ce_dataNotFound env k prefix interest face interestFilterId interestFilter ` Collect cache_ok \<subseteq> Collect cache_ok"
      using assms(2) by (simp add: callbacks_ok_def)
    with that show ?thesis by (auto simp: image_subset_iff)
  qed
  then show ?thesis
    using doCleanup_ok [OF assms]
    by (auto simp: cache_onInterest_def cache_send_def Let_def split: sum.split option.split)
qed

lemma reachable_ok:
  assumes "cache_reachable E self" and "\<forall>env \<in> E. callbacks_ok env"
  shows "cache_ok self"
  using assms
proof (induction rule: cache_reachable.induct)
  case (registered env k prefix failed success notFound options wireFormat face self r face' self')
  then show ?case
    by (auto simp: cache_registerPrefix_def bindR_def Let_def split: bind_splits sum.splits)
qed (auto simp: cache_setInterestFilter_def cache_setInterestFilter_prefix_def
    cache_unregisterAll_def storePendingInterest_def getPendingInterestsForName_def getPendingInterestsWithPrefix_def Let_def
    case_prod_beta intro: cache_add_ok cache_onInterest_ok)

text \<open>
  Whatever the application calls, in whatever order and at whatever times, the contents that go stale stay sorted by
  removal time, and none is due for removal while it still is fresh.
\<close>

theorem cache_stays_sorted:
  assumes "cache_reachable E self" and "\<forall>env \<in> E. callbacks_ok env"
  shows "table_sorted content_less (mc_staleTimeCache self) \<and>
    (\<forall>c \<in> set (mc_staleTimeCache self). isFresh now c \<longrightarrow> \<not> isPastRemovalTime now c)"
proof -
  have "cache_ok self" using assms by (rule reachable_ok)
  then show ?thesis using past_not_fresh by (auto simp: cache_ok_def)
qed

lemma insert_content_pending [simp]:
  "mc_pendingInterestTable (insert_content now d bs s) = mc_pendingInterestTable s"
  "mc_events (insert_content now d bs s) = mc_events s"
  by (simp_all add: insert_content_def Let_def)

text \<open>The pending interests that have not timed out, in the order of the table.\<close>

definition unexpired :: "real \<Rightarrow> ('f, 'k) content_cache \<Rightarrow> 'f stored_interest list" where
  "unexpired now self = filter (\<lambda>p. \<not> si_isTimedOut now p) (mc_pendingInterestTable self)"

lemma cache_add_result:
  assumes enc: "encode_default env d = Some (Inr (bs, b, e), d')" and send: "\<forall>face. ce_send env face bs = Inr ()"
  shows "let now = ne_now (ce_node env); s = doCleanup env now self in
    cache_add env d self = Some (Inr (), d', (insert_content now d' bs s)
      \<lparr>mc_pendingInterestTable := filter (\<lambda>p. \<not> asked_for (cc_target (dt_name d)) p) (unexpired now s),
       mc_events := mc_events s @
         map (\<lambda>p. CacheSend (si_face p) bs) (rev (filter (asked_for (cc_target (dt_name d))) (unexpired now s)))\<rparr>)"
  using enc add_loop_settles [OF encode_default_again(1) [OF enc]] send
  by (simp add: Let_def cache_add_def bindR_def encode_default_again(2) [OF enc] unexpired_def)

text \<open>
  C32. Adding a packet answers, once each and to the face it came from, exactly the pending Interests that match its name and have not
  timed out, in the reverse of the order of their arrival, and takes these and the ones that timed out from the table; the others stay.
\<close>

theorem cache_add_answers_pending:
  assumes "encode_default env data = Some (Inr (bs, b, e), data')" and "\<forall>face. ce_send env face bs = Inr ()"
  shows "let now = ne_now (ce_node env); s = doCleanup env now self; name = cc_target (dt_name data) in
    \<exists>s'. cache_add env data self = Some (Inr (), data', s') \<and>
      mc_pendingInterestTable s' = filter (\<lambda>p. \<not> Interest_matchesName name (si_interest p)) (unexpired now s) \<and>
      mc_events s' = mc_events s @
        map (\<lambda>p. CacheSend (si_face p) bs) (rev (filter (\<lambda>p. Interest_matchesName name (si_interest p)) (unexpired now s))) \<and>
      mset (map as_content (mc_staleTimeCache s') @ mc_noStaleTimeCache s') =
        add_mset \<lparr>ct_name = name, ct_dataEncoding = bs\<rparr> (mset (map as_content (mc_staleTimeCache s) @ mc_noStaleTimeCache s))"
  using cache_add_result [OF assms, of self] encode_default_again(2) [OF assms(1)]
  by (auto simp: Let_def insert_content_def StaleTimeContent_new_def as_content_def)

text \<open>
  C31. A cleanup that is due removes exactly the contents whose removal time is past, none of which still is fresh, passes them to the
  callback when there are any, and sets the time of the next cleanup before it does.
\<close>

theorem cache_cleanup_exact:
  assumes "cache_reachable E self" and "\<forall>env \<in> E. callbacks_ok env"
    and "\<not> mc_isDoingCleanup self" and "mc_nextCleanupTime self \<le> now"
  shows "let past = filter (\<lambda>c. ct_cacheRemovalTimeMilliseconds c \<le> now) (mc_staleTimeCache self); removed = map as_content past;
      left = self\<lparr>mc_staleTimeCache := filter (\<lambda>c. now < ct_cacheRemovalTimeMilliseconds c) (mc_staleTimeCache self),
                  mc_nextCleanupTime := now + mc_cleanupIntervalMilliseconds self\<rparr> in
    (\<forall>c \<in> set past. ct_freshnessExpiryTimeMilliseconds c \<le> now) \<and>
    doCleanup env now self =
      (case mc_onContentRemoved self of
         Some k \<Rightarrow> if past = [] then left
                   else ce_contentRemoved env k removed
                          (left\<lparr>mc_isDoingCleanup := True, mc_events := mc_events left @ [CacheContentRemoved k removed]\<rparr>)
                        \<lparr>mc_isDoingCleanup := False\<rparr>
       | None \<Rightarrow> left)"
proof -
  have ok: "cache_ok self" using assms(1,2) by (rule reachable_ok)
  then have "\<forall>c \<in> set (mc_staleTimeCache self). isPastRemovalTime now c \<longrightarrow> \<not> isFresh now c"
    using past_not_fresh by (auto simp: cache_ok_def)
  then have fresh: "\<forall>c \<in> set (mc_staleTimeCache self).
      ct_cacheRemovalTimeMilliseconds c \<le> now \<longrightarrow> ct_freshnessExpiryTimeMilliseconds c \<le> now"
    by (simp add: isPastRemovalTime_def isFresh_def not_less)
  have past: "isPastRemovalTime now = (\<lambda>c. ct_cacheRemovalTimeMilliseconds c \<le> now)" by (simp add: fun_eq_iff isPastRemovalTime_def)
  show ?thesis
    using doCleanup_due [OF ok assms(3,4), of env] fresh
    by (auto simp: Let_def cleaned_def past not_le record_cache_event_def split: option.split)
qed

lemma cache_onInterest_cases:
  assumes "s = doCleanup env (ne_now (ce_node env)) self"
  shows "cache_onInterest env prefix interest face interestFilterId interestFilter self =
      (case select_content interest (cache_contents (ne_now (ce_node env)) s) None of
         Inl encoding \<Rightarrow> cache_send env face encoding s
       | Inr (Some (_, selectedEncoding)) \<Rightarrow> cache_send env face selectedEncoding s
       | Inr None \<Rightarrow>
           (case mc_onDataNotFoundForPrefix s (Name_toUri False prefix) of
              Some (Some onDataNotFound) \<Rightarrow>
                (Inr (), ce_dataNotFound env onDataNotFound prefix interest face interestFilterId interestFilter
                   (record_cache_event (CacheDataNotFound onDataNotFound prefix interest face interestFilterId interestFilter) s))
            | _ \<Rightarrow> (Inr (), s)))"
  by (simp only: cache_onInterest_def Let_def assms)

lemma cache_onInterest_best:
  assumes s: "s = doCleanup env (ne_now (ce_node env)) self"
    and found: "found = map fst (filter (acceptable interest) (cache_contents (ne_now (ce_node env)) s))" and "found \<noteq> []"
  shows "\<exists>pre c post. found = pre @ c # post \<and>
      (if i_childSelector interest < 0 then pre = []
       else (\<forall>d \<in> set pre. child_order interest (selected_component interest c) (selected_component interest d) < 0) \<and>
         (\<forall>d \<in> set post. \<not> child_order interest (selected_component interest d) (selected_component interest c) < 0)) \<and>
      cache_onInterest env prefix interest face interestFilterId interestFilter self = cache_send env face (ct_dataEncoding c) s"
proof (cases "i_childSelector interest < 0")
  case True
  obtain c cs where "found = [] @ c # cs" using assms(3) by (cases found) auto
  moreover from this True have
    "cache_onInterest env prefix interest face interestFilterId interestFilter self = cache_send env face (ct_dataEncoding c) s"
    unfolding cache_onInterest_cases [OF s] by (simp add: select_first found [symmetric])
  ultimately show ?thesis using True by (metis (no_types))
next
  case cs: False
  obtain c where c: "pick_best (child_order interest) (selected_component interest) found = Some c"
    using assms(3) by (metis pick_best_None option.exhaust)
  then have
    "cache_onInterest env prefix interest face interestFilterId interestFilter self = cache_send env face (ct_dataEncoding c) s"
    unfolding cache_onInterest_cases [OF s] using cs by (simp add: select_best found [symmetric])
  with child_pick_best [OF c] cs show ?thesis by (metis (no_types))
qed

text \<open>
  C30. An Interest is answered from the contents that match it and are fresh if it asks for that: without a child selector with the
  first of them, otherwise with the first of those whose next component is the leftmost or the rightmost.  Without such a content
  nothing is sent and the callback of the prefix, if there is one, is called.
\<close>

theorem cache_reply_exact:
  "let now = ne_now (ce_node env); s = doCleanup env now self;
       found = map fst (filter (\<lambda>(c, fresh). Interest_matchesName (ct_name c) interest \<and> (i_mustBeFresh interest \<longrightarrow> fresh))
                 (cache_contents now s));
       reply = cache_onInterest env prefix interest face interestFilterId interestFilter self;
       before = (\<lambda>c d. let component = selected_component interest in
                  if i_childSelector interest = 0 then Component_compare (component c) (component d) < 0
                  else Component_compare (component c) (component d) > 0) in
   if found = [] then
     reply = (Inr (), case mc_onDataNotFoundForPrefix s (Name_toUri False prefix) of
                        Some (Some k) \<Rightarrow> ce_dataNotFound env k prefix interest face interestFilterId interestFilter
                          (s\<lparr>mc_events := mc_events s @ [CacheDataNotFound k prefix interest face interestFilterId interestFilter]\<rparr>)
                      | _ \<Rightarrow> s)
   else \<exists>pre c post. found = pre @ c # post \<and>
          (if i_childSelector interest < 0 then pre = []
           else (\<forall>d \<in> set pre. before c d) \<and> (\<forall>d \<in> set post. \<not> before d c)) \<and>
          reply = (ce_send env face (ct_dataEncoding c), s\<lparr>mc_events := mc_events s @ [CacheSend face (ct_dataEncoding c)]\<rparr>)"
proof -
  define s where "s = doCleanup env (ne_now (ce_node env)) self"
  define found where "found = map fst (filter (acceptable interest) (cache_contents (ne_now (ce_node env)) s))"
  have order: "child_order interest a b < 0 \<longleftrightarrow>
      (if i_childSelector interest = 0 then Component_compare a b < 0 else Component_compare a b > 0)" for a b
    using component_order.cmp_swap [of a b] by simp
  have F: "map fst (filter (\<lambda>(c, fresh). Interest_matchesName (ct_name c) interest \<and> (i_mustBeFresh interest \<longrightarrow> fresh))
      (cache_contents (ne_now (ce_node env)) s)) = found"
    by (simp add: found_def acceptable_def)
  show ?thesis
  proof (cases "found = []")
    case True
    then have "select_content interest (cache_contents (ne_now (ce_node env)) s) None = Inr None"
      by (cases "i_childSelector interest < 0") (simp_all add: select_first select_best found_def)
    then show ?thesis
      unfolding Let_def s_def [symmetric] F if_P [OF True] cache_onInterest_cases [OF s_def]
      by (simp add: record_cache_event_def split: option.split)
  next
    case False
    show ?thesis
      using cache_onInterest_best [OF s_def found_def False, of prefix face interestFilterId interestFilter]
      unfolding Let_def s_def [symmetric] F if_not_P [OF False] order cache_send_def record_cache_event_def .
  qed
qed

section \<open>Examples\<close>

text \<open>
  A signed and encoded packet of one second, a cache with an interface that always sends, and an application that adds the packet again
  whenever contents are removed.
\<close>

definition fresh_packet :: data where
  "fresh_packet = Data_new
     \<lparr>dt_signature := \<lparr>sp_target = None, sp_changeCount = 0\<rparr>,
      dt_metaInfo := ChangeCounter_of mi_changeCount (MetaInfo_new\<lparr>mi_freshnessPeriod := 1000\<rparr>),
      dt_defaultWireEncoding := Some ([6, 0], 0, 0), dt_defaultWireEncodingFormat := Some 0\<rparr>"

definition demo_cache :: "real \<Rightarrow> (bool, unit) cache_env" where
  "demo_cache now = \<lparr>ce_node = demo_env now, ce_send = (\<lambda>_ _. Inr ()), ce_contentRemoved = (\<lambda>_ _ s. s),
     ce_dataNotFound = (\<lambda>_ _ _ _ _ _ s. s)\<rparr>"

definition refill_cache :: "real \<Rightarrow> (bool, unit) cache_env" where
  "refill_cache now = demo_cache now
     \<lparr>ce_contentRemoved := (\<lambda>_ _ s. case cache_add (demo_cache now) fresh_packet s of Some (_, _, s) \<Rightarrow> s | None \<Rightarrow> s)\<rparr>"

lemma demo_encoding: "encode_default (refill_cache now) fresh_packet = Some (Inr ([6, 0], 0, 0), fresh_packet)"
  by (simp add: encode_default_def encodeData_def Data_wireEncode_def refill_cache_def demo_cache_def demo_env_def tlv_formats_def
      fresh_packet_def Data_new_def Data_of_name_def Data_getDefaultWireEncoding_def Data_getChangeCount_def
      ChangeCounter_checkChanged_def ChangeCounter_poll_def SharedPointerChangeCounter_checkChanged_def ChangeCounter_of_def
      Name_of_def Let_def Name_empty_def MetaInfo_new_def)

lemma demo_cache_callbacks: "callbacks_ok (demo_cache now)"
  by (simp add: callbacks_ok_def demo_cache_def)

lemma refill_callbacks: "callbacks_ok (refill_cache now)"
proof -
  have "cache_ok (case cache_add (demo_cache now) fresh_packet s of Some (_, _, s) \<Rightarrow> s | None \<Rightarrow> s)" if "cache_ok s" for s
    using cache_add_ok [OF _ that demo_cache_callbacks, of now fresh_packet] that by (auto split: option.split)
  then show ?thesis by (auto simp: callbacks_ok_def refill_cache_def demo_cache_def)
qed

lemma demo_fields [simp]:
  "cc_target (dt_name fresh_packet) = Name_of []" "mi_freshnessPeriod (cc_target (dt_metaInfo fresh_packet)) = 1000"
  "ce_send (refill_cache now) face bs = Inr ()" "ne_now (ce_node (refill_cache now)) = now"
  by (simp_all add: fresh_packet_def Data_new_def Data_of_name_def ChangeCounter_of_def Name_empty_def refill_cache_def
      demo_cache_def demo_env_def)

text \<open>An interest waits from the time 0, and the packet is added at the time 100; it is removed after the time 1100.\<close>

definition root_interest :: interest where
  "root_interest = Interest_of_name True False (Name_of [])"

definition waiting_cache :: "(bool, unit) content_cache" where
  "waiting_cache = setOnContentRemoved (Some ())
     (storePendingInterest (refill_cache 0) root_interest True (MemoryContentCache_new 0 500))"

definition filled_cache :: "(bool, unit) content_cache" where
  "filled_cache = waiting_cache
     \<lparr>mc_staleTimeCache := [StaleTimeContent_new (Name_of []) [6, 0] 1000 100 0],
      mc_pendingInterestTable := [], mc_events := [CacheSend True [6, 0]]\<rparr>"

lemma demo_matches: "Interest_matchesName (Name_of []) root_interest"
  by (simp add: Interest_matchesName_def root_interest_def Interest_of_name_def ChangeCounter_of_def Name_of_def Exclude_new_def Let_def
      Name_match_def Name_size_def)

lemma waiting_reachable: "cache_reachable (range refill_cache) waiting_cache"
  unfolding waiting_cache_def by (intro cache_reachable.callback_set cache_reachable.stored cache_reachable.created rangeI)

lemma waiting_add:
  "cache_add (refill_cache 100) fresh_packet waiting_cache = Some (Inr (), fresh_packet, filled_cache)"
proof -
  have "doCleanup (refill_cache 100) 100 waiting_cache = waiting_cache"
    by (simp add: doCleanup_def waiting_cache_def setOnContentRemoved_def storePendingInterest_def MemoryContentCache_new_def)
  moreover have "unexpired 100 waiting_cache = mc_pendingInterestTable waiting_cache"
    by (simp add: unexpired_def waiting_cache_def setOnContentRemoved_def storePendingInterest_def MemoryContentCache_new_def
        StoredInterest_new_def si_isTimedOut_def root_interest_def Interest_of_name_def Let_def)
  ultimately show ?thesis
    using cache_add_result [OF demo_encoding, of 100 waiting_cache] demo_matches
    by (simp add: Let_def filled_cache_def insert_content_def waiting_cache_def setOnContentRemoved_def storePendingInterest_def
        MemoryContentCache_new_def StoredInterest_new_def insert_lower_bound_def)
qed

lemma filled_reachable: "cache_reachable (range refill_cache) filled_cache"
  using waiting_add waiting_reachable by (rule cache_reachable.added [rotated]) simp

theorem cache_stays_sorted_witness:
  "\<exists>c. mc_staleTimeCache filled_cache = [c] \<and> isFresh 1000 c \<and> \<not> isPastRemovalTime 1000 c"
  using cache_stays_sorted [OF filled_reachable, of 1000] refill_callbacks
  by (auto simp: filled_cache_def StaleTimeContent_new_def isFresh_def)

theorem cache_add_answers_pending_witness:
  "\<exists>s'. cache_add (refill_cache 100) fresh_packet waiting_cache = Some (Inr (), fresh_packet, s') \<and>
     mc_pendingInterestTable s' = [] \<and> mc_events s' = [CacheSend True [6, 0]]"
  using cache_add_answers_pending [OF demo_encoding, of 100 waiting_cache] waiting_add by (auto simp: Let_def filled_cache_def)

theorem cache_cleanup_exact_witness:
  "mc_staleTimeCache filled_cache = [StaleTimeContent_new (Name_of []) [6, 0] 1000 100 0] \<and>
   mc_staleTimeCache (doCleanup (demo_cache 1200) 1200 filled_cache) = []"
  using cache_cleanup_exact [OF filled_reachable, of 1200 "demo_cache 1200"] refill_callbacks
  by (simp add: Let_def filled_cache_def waiting_cache_def setOnContentRemoved_def storePendingInterest_def demo_cache_def
      MemoryContentCache_new_def StaleTimeContent_new_def isPastRemovalTime_def)

theorem cache_reply_exact_witness:
  "snd (cache_onInterest (refill_cache 200) (Name_of []) root_interest False 1 (InterestFilter_of_prefix (Name_of [])) filled_cache) =
   filled_cache\<lparr>mc_events := [CacheSend True [6, 0], CacheSend False [6, 0]]\<rparr>"
proof -
  have "doCleanup (refill_cache 200) 200 filled_cache = filled_cache"
    by (simp add: doCleanup_def filled_cache_def waiting_cache_def setOnContentRemoved_def storePendingInterest_def
        MemoryContentCache_new_def)
  then show ?thesis
    using cache_reply_exact [of "refill_cache 200" filled_cache root_interest "Name_of []" False 1
        "InterestFilter_of_prefix (Name_of [])"] demo_matches
    by (auto simp: Let_def filled_cache_def cache_contents_def as_content_def isFresh_def StaleTimeContent_new_def
        Cons_eq_append_conv waiting_cache_def setOnContentRemoved_def storePendingInterest_def MemoryContentCache_new_def)
qed

end
