(* ===== verification/NameMaps.thy ===== *)
theory NameMaps
  imports NameOps
begin

text \<open>
  Maps with names as keys, as several components keep them: the operations of \<^verbatim>\<open>std::map\<close> on a sorted list of entries, and
  that they keep it sorted.
\<close>

text \<open>A call that does not change the state: its result, or its exception.\<close>

definition liftR :: "'a result \<Rightarrow> 's \<Rightarrow> ('a result \<times> 's) option" where
  "liftR r self = Some (r, self)"

section \<open>Maps from names\<close>

text \<open>\<^verbatim>\<open>std::map<Name, V>\<close>: entries in the order of \<^verbatim>\<open>Name::operator<\<close>, found and inserted at the lower bound.\<close>

type_synonym 'v name_map = "(name \<times> 'v) list"

definition name_less :: "name \<Rightarrow> name \<Rightarrow> bool" where
  "name_less a b \<longleftrightarrow> Name_compare a b < 0"

definition nm_before :: "name \<Rightarrow> 'v name_map \<Rightarrow> 'v name_map" where
  "nm_before k m = takeWhile (\<lambda>(n, _). name_less n k) m"

definition nm_from :: "name \<Rightarrow> 'v name_map \<Rightarrow> 'v name_map" where
  "nm_from k m = dropWhile (\<lambda>(n, _). name_less n k) m"

definition nm_find :: "name \<Rightarrow> 'v name_map \<Rightarrow> 'v option" where
  "nm_find k m = (case nm_from k m of (n, v) # _ \<Rightarrow> if name_less k n then None else Some v | [] \<Rightarrow> None)"

definition nm_set :: "name \<Rightarrow> 'v \<Rightarrow> 'v name_map \<Rightarrow> 'v name_map" where
  "nm_set k v m = nm_before k m @
     (case nm_from k m of (n, w) # es \<Rightarrow> if name_less k n then (k, v) # (n, w) # es else (n, v) # es | [] \<Rightarrow> [(k, v)])"

definition nm_erase :: "name \<Rightarrow> 'v name_map \<Rightarrow> 'v name_map" where
  "nm_erase k m = nm_before k m @
     (case nm_from k m of (n, w) # es \<Rightarrow> if name_less k n then (n, w) # es else es | [] \<Rightarrow> [])"

section \<open>Sorted maps\<close>

lemma nm_split: "m = nm_before k m @ nm_from k m"
  by (simp add: nm_before_def nm_from_def)

lemma nm_set_new: "nm_find k m = None \<Longrightarrow> mset (nm_set k v m) = add_mset (k, v) (mset m)"
  using arg_cong [OF nm_split [of m k], of mset]
  by (auto simp: nm_set_def nm_find_def split: list.splits if_splits prod.splits)

lemma nm_erase_found: "nm_find k m = Some v \<Longrightarrow> \<exists>n. mset m = add_mset (n, v) (mset (nm_erase k m))"
  using arg_cong [OF nm_split [of m k], of mset]
  by (auto simp: nm_erase_def nm_find_def split: list.splits if_splits prod.splits)

text \<open>A map of names is strictly sorted, so there is at most one entry for a name.\<close>

definition nm_ok :: "'v name_map \<Rightarrow> bool" where
  "nm_ok m \<longleftrightarrow> sorted_wrt (\<lambda>x y. name_less (fst x) (fst y)) m \<and> (\<forall>x \<in> set m. small_name (fst x))"

lemma name_less_small: "small_name a \<Longrightarrow> small_name b \<Longrightarrow> name_less a b \<longleftrightarrow> comps_compare (n_components a) (n_components b) < 0"
  by (simp add: name_less_def Name_compare)

lemma name_le_less_trans:
  assumes "small_name a" and "small_name b" and "small_name c" and "\<not> name_less b a" and "name_less b c"
  shows "name_less a c"
  using assms name_order.le_less_trans [of "n_components a" "n_components b" "n_components c"]
    name_order.cmp_swap [of "n_components a" "n_components b"]
  by (simp add: name_less_small)

lemma name_less_irrefl: "small_name a \<Longrightarrow> \<not> name_less a a"
  by (simp add: name_less_small)

lemma name_less_asym: "small_name a \<Longrightarrow> small_name b \<Longrightarrow> name_less a b \<Longrightarrow> \<not> name_less b a"
  using name_order.cmp_swap [of "n_components a" "n_components b"] by (simp add: name_less_small)

lemma name_less_trans:
  "small_name a \<Longrightarrow> small_name b \<Longrightarrow> small_name c \<Longrightarrow> name_less a b \<Longrightarrow> name_less b c \<Longrightarrow> name_less a c"
  by (blast intro: name_le_less_trans dest: name_less_asym)

lemma nm_ok_Nil [simp]: "nm_ok []"
  by (simp add: nm_ok_def)

lemma nm_ok_Cons [simp]:
  "nm_ok ((n, v) # m) \<longleftrightarrow> small_name n \<and> (\<forall>x \<in> set m. name_less n (fst x)) \<and> nm_ok m"
  by (auto simp: nm_ok_def)

lemma nm_step:
  "nm_find k ((n, v) # m) = (if name_less n k then nm_find k m else if name_less k n then None else Some v)"
  "nm_set k w ((n, v) # m) = (if name_less n k then (n, v) # nm_set k w m else if name_less k n then (k, w) # (n, v) # m else (n, w) # m)"
  "nm_erase k ((n, v) # m) = (if name_less n k then (n, v) # nm_erase k m else if name_less k n then (n, v) # m else m)"
  by (simp_all add: nm_find_def nm_set_def nm_erase_def nm_before_def nm_from_def)

lemma nm_Nil [simp]: "nm_find k [] = None" "nm_set k v [] = [(k, v)]" "nm_erase k [] = []"
  by (simp_all add: nm_find_def nm_set_def nm_erase_def nm_before_def nm_from_def)

lemma set_nm_erase: "set (nm_erase k m) \<subseteq> set m"
  by (induction m) (auto simp: nm_step split: if_splits)

lemma set_nm_set: "P k \<Longrightarrow> \<forall>x \<in> set m. P (fst x) \<Longrightarrow> \<forall>y \<in> set (nm_set k v m). P (fst y)"
proof (induction m)
  case (Cons x m)
  then show ?case by (cases x) (simp add: nm_step)
qed simp

lemma nm_ok_erase: "nm_ok m \<Longrightarrow> nm_ok (nm_erase k m)"
proof (induction m)
  case (Cons x m)
  then show ?case using set_nm_erase [of k m] by (cases x) (auto simp: nm_step)
qed simp

lemma nm_later:
  assumes "nm_ok ((n, w) # m)" and "small_name k" and "\<not> name_less n k" and "y \<in> set m"
  shows "name_less k (fst y)"
proof -
  have "small_name n" "small_name (fst y)" "name_less n (fst y)" using assms(1,4) by (auto simp: nm_ok_def)
  with assms(2,3) show ?thesis by (blast intro: name_le_less_trans)
qed

lemma nm_ok_set: "nm_ok m \<Longrightarrow> small_name k \<Longrightarrow> nm_ok (nm_set k v m)"
proof (induction m)
  case (Cons x m)
  obtain n w where x: "x = (n, w)" by force
  have "\<forall>y \<in> set (nm_set k v m). name_less n (fst y)" if "name_less n k"
    using Cons.prems x that by (intro set_nm_set) auto
  moreover have "name_less k (fst y)" if "\<not> name_less n k" "y \<in> set m" for y
    using nm_later [of n w m k y] Cons.prems x that by blast
  ultimately show ?case using Cons x by (auto simp: nm_step)
qed simp

text \<open>The entries from the lower bound on.\<close>

lemma set_nm_from: "set (nm_from k m) \<subseteq> set m"
  by (auto simp: nm_from_def dest: set_dropWhileD)

lemma sorted_nm_from: "nm_ok m \<Longrightarrow> sorted_wrt (\<lambda>x y. name_less (fst x) (fst y)) (nm_from k m)"
  using nm_split [of m k] by (metis nm_ok_def sorted_wrt_append)

lemma nm_from_not_less:
  assumes "nm_ok m" and "small_name k" and "x \<in> set (nm_from k m)"
  shows "\<not> name_less (fst x) k"
proof (cases "nm_from k m")
  case (Cons h t)
  have "\<not> name_less (fst h) k" using Cons unfolding nm_from_def dropWhile_eq_Cons_conv by (simp add: case_prod_unfold)
  moreover have "x = h \<or> name_less (fst h) (fst x)" using assms(3) sorted_nm_from [OF assms(1), of k] Cons by auto
  moreover have "h \<in> set (nm_from k m)" unfolding Cons by simp
  with assms(1,3) set_nm_from [of k m] have "small_name (fst h)" "small_name (fst x)" unfolding nm_ok_def by blast+
  ultimately show ?thesis using assms(2) name_less_trans by blast
qed (use assms(3) in simp)

lemma nm_find_iff:
  assumes "nm_ok m" and "small_name k"
  shows "nm_find k m = Some v \<longleftrightarrow> (\<exists>n. (n, v) \<in> set m \<and> \<not> name_less n k \<and> \<not> name_less k n)"
  using assms(1)
proof (induction m)
  case (Cons x m)
  obtain n w where x: "x = (n, w)" by force
  have ok: "nm_ok m" using Cons.prems x by simp
  show ?case
  proof (cases "name_less n k")
    case True
    with Cons.IH [OF ok] x show ?thesis by (auto simp: nm_step)
  next
    case False
    have "name_less k n'" if "(n', v') \<in> set m" for n' v'
      using nm_later [OF Cons.prems [unfolded x] assms(2) False that] by simp
    with False x show ?thesis by (auto simp: nm_step)
  qed
qed simp

lemma nm_find_member:
  assumes "nm_ok m" and "(n, v) \<in> set m"
  shows "nm_find n m = Some v"
proof -
  have n: "small_name n" using assms by (auto simp: nm_ok_def)
  with assms(2) name_less_irrefl show ?thesis unfolding nm_find_iff [OF assms(1) n] by blast
qed

lemma nm_find_erase: "nm_ok m \<Longrightarrow> small_name k \<Longrightarrow> nm_find k m = None \<Longrightarrow> nm_find k (nm_erase k' m) = None"
proof (rule ccontr)
  assume m: "nm_ok m" "small_name k" "nm_find k m = None" and "nm_find k (nm_erase k' m) \<noteq> None"
  then obtain v where "nm_find k (nm_erase k' m) = Some v" by blast
  with nm_find_iff [OF nm_ok_erase [OF m(1)] m(2)] set_nm_erase [of k' m] have "nm_find k m = Some v"
    unfolding nm_find_iff [OF m(1,2)] by blast
  with m(3) show False by simp
qed

lemma nm_find_set:
  assumes "nm_ok m" and "small_name k"
  shows "nm_find k (nm_set k v m) = Some v"
  using assms
proof (induction m)
  case (Cons x m)
  then show ?case by (cases x) (auto simp: nm_step name_less_irrefl)
qed (simp add: nm_step name_less_irrefl)

lemma nm_find_set_other:
  "nm_ok m \<Longrightarrow> small_name k \<Longrightarrow> small_name k' \<Longrightarrow> name_less k k' \<Longrightarrow> nm_find k' m = None \<Longrightarrow> nm_find k' (nm_set k v m) = None"
proof (induction m)
  case Nil
  then show ?case using name_less_asym [of k k'] by (simp add: nm_step)
next
  case (Cons x m)
  obtain n w where x: "x = (n, w)" by force
  have n: "small_name n" "nm_ok m" using Cons.prems(1) x by auto
  show ?case
    using Cons x n name_less_trans [of n k k'] name_le_less_trans [of n k k'] name_less_asym [of k k']
    by (auto simp: nm_step split: if_splits)
qed

lemma nm_erase_absent: "nm_ok m \<Longrightarrow> nm_find k m = None \<Longrightarrow> nm_erase k m = m"
proof (induction m)
  case (Cons x m)
  then show ?case by (cases x) (auto simp: nm_step split: if_splits)
qed simp

end
