(* ===== verification/SegmentModel.thy ===== *)
theory SegmentModel
  imports NameMaps FaceModel
begin

text \<open>
  Segmented content: the storage for Data packets (\<^verbatim>\<open>in-memory-storage/in-memory-storage-retaining.[ch]pp\<close>), the publisher that
  cuts content into segments (\<^verbatim>\<open>sync/detail/psync-segment-publisher.cpp\<close>) and the fetcher that asks for them one after the
  other and puts the content together (\<^verbatim>\<open>util/segment-fetcher.[ch]pp\<close>).
\<close>

section \<open>The storage\<close>

type_synonym storage = "data name_map"

text \<open>The packet, which caches its encoding and full name, and the storage with its copy.\<close>

definition ims_insert ::
  "(bytes \<Rightarrow> bytes) \<Rightarrow> (nat \<Rightarrow> data \<Rightarrow> (bytes \<times> nat \<times> nat) result option) \<Rightarrow> nat \<Rightarrow> data \<Rightarrow> storage \<Rightarrow>
   (unit result \<times> data \<times> storage) option" where
  "ims_insert sha256 encode format data self =
     Option.bind (Data_getFullName sha256 encode format format data) (\<lambda>(r, data).
       case r of
         Inl e \<Rightarrow> Some (Inl e, data, self)
       | Inr n \<Rightarrow> let (data, copy) = Data_copy data in Some (Inr (), data, nm_set n copy self))"

definition ims_find :: "name \<Rightarrow> storage \<Rightarrow> data option" where
  "ims_find name self = map_option snd (find (\<lambda>(n, _). Name_match name n) self)"

definition ims_remove :: "name \<Rightarrow> storage \<Rightarrow> storage" where
  "ims_remove prefix self = nm_before prefix self @ dropWhile (\<lambda>(n, _). Name_match prefix n) (nm_from prefix self)"

section \<open>The publisher\<close>

datatype publisher_event =
    PutSegment data
  | LaterRemoveSegment real name

record segment_publisher =
  sp_storage :: storage
  sp_events :: "publisher_event list"

definition PSyncSegmentPublisher_new :: segment_publisher where
  "PSyncSegmentPublisher_new = \<lparr>sp_storage = [], sp_events = []\<rparr>"

text \<open>What it uses: the clock, the key chain, the interface, the digest and the wire format.\<close>

record publisher_env =
  pe_now :: u64
  pe_sign :: "data \<Rightarrow> (unit result \<times> data) option"
  pe_putData :: "data \<Rightarrow> unit result"
  pe_sha256 :: "bytes \<Rightarrow> bytes"
  pe_encode :: "nat \<Rightarrow> data \<Rightarrow> (bytes \<times> nat \<times> nat) result option"
  pe_format :: nat

definition maxPacketSize :: nat where "maxPacketSize = MAX_NDN_PACKET_SIZE div 2"

text \<open>The slices of the loop, which runs once for empty content.\<close>

function content_segments :: "bytes \<Rightarrow> bytes list" where
  "content_segments content =
     take maxPacketSize content #
     (if drop maxPacketSize content \<noteq> [] then content_segments (drop maxPacketSize content) else [])"
  by pat_completeness auto
termination by (relation "measure length") (auto simp: maxPacketSize_def MAX_NDN_PACKET_SIZE_def)

declare content_segments.simps [simp del]

definition segment_data :: "name \<Rightarrow> component \<Rightarrow> real \<Rightarrow> bytes \<Rightarrow> data" where
  "segment_data segmentName finalBlockId freshnessPeriod segment =
     Data_getMetaInfo_apply (MetaInfo_setFinalBlockId finalBlockId)
       (Data_getMetaInfo_apply (MetaInfo_setFreshnessPeriod freshnessPeriod)
         (Data_setContent (Some segment) (Data_of_name segmentName)))"

definition sp_event :: "publisher_event \<Rightarrow> segment_publisher \<Rightarrow> segment_publisher" where
  "sp_event e self = self\<lparr>sp_events := sp_events self @ [e]\<rparr>"

fun publish_loop ::
  "publisher_env \<Rightarrow> u64 \<Rightarrow> name \<Rightarrow> component \<Rightarrow> real \<Rightarrow> u64 \<Rightarrow> bytes list \<Rightarrow> segment_publisher \<Rightarrow>
   (unit result \<times> segment_publisher) option" where
  "publish_loop env interestSegment segmentPrefix finalBlockId freshnessPeriod segmentNo [] self = Some (Inr (), self)"
| "publish_loop env interestSegment segmentPrefix finalBlockId freshnessPeriod segmentNo (segment # segments) self =
     bindR (liftR (Name_appendSegment segmentNo segmentPrefix) self) (\<lambda>segmentName self.
     Option.bind (pe_sign env (segment_data segmentName finalBlockId freshnessPeriod segment)) (\<lambda>(r, data).
     bindR (liftR r self) (\<lambda>_ self.
     bindR (if interestSegment = segmentNo then Some (pe_putData env data, sp_event (PutSegment data) self) else Some (Inr (), self))
       (\<lambda>_ self.
     Option.bind (ims_insert (pe_sha256 env) (pe_encode env) (pe_format env) data (sp_storage self)) (\<lambda>(r, _, storage).
     bindR (liftR r (self\<lparr>sp_storage := storage\<rparr>)) (\<lambda>_ self.
       publish_loop env interestSegment segmentPrefix finalBlockId freshnessPeriod (segmentNo + 1) segments
         (sp_event (LaterRemoveSegment freshnessPeriod segmentName) self)))))))"

definition PSyncSegmentPublisher_publish ::
  "publisher_env \<Rightarrow> name \<Rightarrow> name \<Rightarrow> bytes \<Rightarrow> real \<Rightarrow> segment_publisher \<Rightarrow> (unit result \<times> segment_publisher) option" where
  "PSyncSegmentPublisher_publish env interestName dataName content freshnessPeriod self =
     bindR (liftR (Name_get (-1) interestName) self) (\<lambda>c self.
     bindR (liftR (if Component_isSegment c then Component_toNumberWithMarker c 0 else Inr 0) self) (\<lambda>interestSegment self.
     let totalSegments = length content div maxPacketSize
     in bindR (liftR (Component_fromNumberWithMarker (of_nat totalSegments) 0) self) (\<lambda>finalBlockId self.
        bindR (liftR (Name_appendVersion (pe_now env) dataName) self) (\<lambda>segmentPrefix self.
          publish_loop env interestSegment segmentPrefix finalBlockId freshnessPeriod 0 (content_segments content) self))))"

definition PSyncSegmentPublisher_replyFromStore ::
  "publisher_env \<Rightarrow> name \<Rightarrow> segment_publisher \<Rightarrow> bool result \<times> segment_publisher" where
  "PSyncSegmentPublisher_replyFromStore env interestName self =
     (case ims_find interestName (sp_storage self) of
        None \<Rightarrow> (Inr False, self)
      | Some data \<Rightarrow> (map_sum id (\<lambda>_. True) (pe_putData env data), sp_event (PutSegment data) self))"

text \<open>The delayed call that \<^verbatim>\<open>publish\<close> leaves for a segment.\<close>

definition sp_remove :: "name \<Rightarrow> segment_publisher \<Rightarrow> segment_publisher" where
  "sp_remove segmentName self = self\<lparr>sp_storage := ims_remove segmentName (sp_storage self)\<rparr>"

section \<open>The fetcher\<close>

datatype fetch_error = INTEREST_TIMEOUT | DATA_HAS_NO_SEGMENT | SEGMENT_VERIFICATION_FAILED

datatype fetch_event =
    ExpressSegment interest
  | VerifySegmentData data interest
  | FetchComplete bytes
  | FetchError fetch_error bytes

text \<open>The result of \<^verbatim>\<open>expressInterest\<close>, and the verification: a function, or a key chain that calls back.\<close>

record fetch_env =
  fe_express :: "interest \<Rightarrow> unit result"
  fe_validates :: bool
  fe_verifySegment :: "data \<Rightarrow> bool"

record segment_fetcher =
  sf_contentParts :: "blob list"
  sf_events :: "fetch_event list"

definition SegmentFetcher_new :: segment_fetcher where
  "SegmentFetcher_new = \<lparr>sf_contentParts = [], sf_events = []\<rparr>"

definition sf_event :: "fetch_event \<Rightarrow> segment_fetcher \<Rightarrow> segment_fetcher" where
  "sf_event e self = self\<lparr>sf_events := sf_events self @ [e]\<rparr>"

definition fetchFirstSegment :: "fetch_env \<Rightarrow> interest \<Rightarrow> segment_fetcher \<Rightarrow> unit result \<times> segment_fetcher" where
  "fetchFirstSegment env baseInterest self =
     (let interest = Interest_setMustBeFresh True (Interest_setChildSelector 1 (snd (Interest_copy baseInterest)))
      in (fe_express env interest, sf_event (ExpressSegment interest) self))"

definition SegmentFetcher_fetch :: "fetch_env \<Rightarrow> interest \<Rightarrow> unit result \<times> segment_fetcher" where
  "SegmentFetcher_fetch env baseInterest = fetchFirstSegment env baseInterest SegmentFetcher_new"

text \<open>The verification that \<^verbatim>\<open>fetch\<close> uses next to a key chain, or without one.\<close>

definition DontVerifySegment :: "data \<Rightarrow> bool" where
  "DontVerifySegment data = True"

definition fetchNextSegment ::
  "fetch_env \<Rightarrow> interest \<Rightarrow> name \<Rightarrow> u64 \<Rightarrow> segment_fetcher \<Rightarrow> unit result \<times> segment_fetcher" where
  "fetchNextSegment env originalInterest dataName segment self =
     (let interest = Interest_setMustBeFresh False (Interest_setChildSelector 0 (snd (Interest_copy originalInterest)))
      in case Name_appendSegment segment (Name_getPrefix (-1) dataName) of
           Inl e \<Rightarrow> (Inl e, self)
         | Inr name \<Rightarrow>
             (let interest = Interest_setName name interest
              in (fe_express env interest, sf_event (ExpressSegment interest) self)))"

definition endsWithSegmentNumber :: "name \<Rightarrow> bool" where
  "endsWithSegmentNumber name \<longleftrightarrow>
     Name_size name \<ge> 1 \<and> (case Name_get (-1) name of Inr c \<Rightarrow> Component_isSegment c | Inl _ \<Rightarrow> False)"

definition exn_what :: "exn \<Rightarrow> bytes" where
  "exn_what e = (case e of RuntimeError m \<Rightarrow> m | InvalidArgument m \<Rightarrow> m)"


text \<open>The errors of the application's callbacks are caught and logged.\<close>

definition report_error :: "fetch_error \<Rightarrow> bytes \<Rightarrow> segment_fetcher \<Rightarrow> unit result \<times> segment_fetcher" where
  "report_error code message self = (Inr (), sf_event (FetchError code message) self)"

definition fetch_onVerified :: "fetch_env \<Rightarrow> data \<Rightarrow> interest \<Rightarrow> segment_fetcher \<Rightarrow> unit result \<times> segment_fetcher" where
  "fetch_onVerified env data originalInterest self =
     (let name = cc_target (dt_name data); finalBlockId = mi_finalBlockId (cc_target (dt_metaInfo data)) in
      if \<not> endsWithSegmentNumber name
      then report_error DATA_HAS_NO_SEGMENT (str ''Got an unexpected packet without a segment number: '' @ Name_toUri False name) self
      else case bindE (Name_get (-1) name) (\<lambda>c. Component_toNumberWithMarker c 0) of
             Inl e \<Rightarrow> report_error DATA_HAS_NO_SEGMENT
               (str ''Error decoding the name segment number '' @
                Component_toEscapedString (last (n_components name)) @ str '': '' @ exn_what e) self
           | Inr currentSegment \<Rightarrow>
               (let expectedSegmentNumber = of_nat (length (sf_contentParts self)) in
                if currentSegment \<noteq> expectedSegmentNumber
                then fetchNextSegment env originalInterest name expectedSegmentNumber self
                else
                  (let self = self\<lparr>sf_contentParts := sf_contentParts self @ [dt_content data]\<rparr>;
                       next = fetchNextSegment env originalInterest name (expectedSegmentNumber + 1) self in
                   if blob_size (c_value finalBlockId) > 0
                   then case Component_toNumberWithMarker finalBlockId 0 of
                          Inl e \<Rightarrow> report_error DATA_HAS_NO_SEGMENT
                            (str ''Error decoding the FinalBlockId segment number '' @
                             Component_toEscapedString finalBlockId @ str '': '' @ exn_what e) self
                        | Inr finalSegmentNumber \<Rightarrow>
                            if currentSegment = finalSegmentNumber
                            then (Inr (), sf_event (FetchComplete (concat (map blob_bytes (sf_contentParts self)))) self)
                            else next
                   else next)))"

definition fetch_onValidationFailed :: "data \<Rightarrow> bytes \<Rightarrow> segment_fetcher \<Rightarrow> unit result \<times> segment_fetcher" where
  "fetch_onValidationFailed data reason self =
     report_error SEGMENT_VERIFICATION_FAILED
       (str ''Segment verification failed for '' @ Name_toUri False (cc_target (dt_name data)) @ str '' . Reason: '' @ reason) self"

definition fetch_onSegmentReceived :: "fetch_env \<Rightarrow> interest \<Rightarrow> data \<Rightarrow> segment_fetcher \<Rightarrow> unit result \<times> segment_fetcher" where
  "fetch_onSegmentReceived env originalInterest data self =
     (if fe_validates env then (Inr (), sf_event (VerifySegmentData data originalInterest) self)
      else if \<not> fe_verifySegment env data then fetch_onValidationFailed data (str ''verifySegment returned false'') self
      else fetch_onVerified env data originalInterest self)"

definition fetch_onTimeout :: "interest \<Rightarrow> segment_fetcher \<Rightarrow> unit result \<times> segment_fetcher" where
  "fetch_onTimeout interest self =
     report_error INTEREST_TIMEOUT (str ''Time out for interest '' @ Name_toUri False (cc_target (i_name interest))) self"

section \<open>The segments\<close>

lemma content_segments_concat [simp]: "concat (content_segments content) = content"
proof (induction content rule: content_segments.induct)
  case (1 content)
  then show ?case
    by (subst content_segments.simps) (cases "drop maxPacketSize content = []"; simp add: append_take_drop_id)
qed

lemma maxPacketSize_pos: "0 < maxPacketSize"
  by (simp add: maxPacketSize_def MAX_NDN_PACKET_SIZE_def)

text \<open>The number of the last segment that the packets announce is right unless the content fills its segments.\<close>

lemma content_segments_length:
  "length (content_segments content) =
     (if content \<noteq> [] \<and> length content mod maxPacketSize = 0 then length content div maxPacketSize
      else length content div maxPacketSize + 1)"
proof (induction content rule: content_segments.induct)
  case (1 content)
  show ?case
  proof (cases "length content \<le> maxPacketSize")
    case True
    then show ?thesis using maxPacketSize_pos
      by (subst content_segments.simps) (auto simp: div_less mod_less le_less)
  next
    case False
    then have "content \<noteq> []" "drop maxPacketSize content \<noteq> []" by auto
    with 1 [OF this(2)] False show ?thesis using maxPacketSize_pos
      by (subst content_segments.simps) (simp add: le_div_geq le_mod_geq split: if_splits)
  qed
qed

lemma content_segments_not_Nil [simp]: "content_segments content \<noteq> []"
  by (subst content_segments.simps) simp

abbreviation segment_comp :: "u64 \<Rightarrow> component" where
  "segment_comp k \<equiv> Component_generic (Some (0 # nonneg_integer k))"

lemma segment_comp_number: "Component_toNumberWithMarker (segment_comp k) 0 = Inr k"
proof -
  have "c_value (Component_lite (segment_comp k)) = Some (0 # nonneg_integer k)"
    by (subst Component_lite_value) (simp_all add: Component_generic_def)
  then show ?thesis by (simp add: Component_toNumberWithMarker_def ndn_NameComponent_toNumberWithMarker_def)
qed

lemma segment_comp_inj: "0 # nonneg_integer k = 0 # nonneg_integer k' \<Longrightarrow> k = k'"
  by (metis accumulate_nonneg_integer list.inject)

lemma Name_appendSegment: "Name_appendSegment k p = Inr (Name_append (segment_comp k) p)"
  by (simp add: Name_appendSegment_def Name_appendWithMarker_def Component_fromNumberWithMarker)

section \<open>What the publisher stores\<close>

text \<open>What is expected of the key chain: the packet gets an encoding, and is the same otherwise.\<close>

definition signs :: "publisher_env \<Rightarrow> bool" where
  "signs env \<longleftrightarrow> (\<forall>bs. length (pe_sha256 env bs) = 32) \<and>
     (\<forall>d. \<exists>d'. pe_sign env d = Some (Inr (), d') \<and> cc_target (dt_name d') = cc_target (dt_name d) \<and>
       cc_target (dt_metaInfo d') = cc_target (dt_metaInfo d) \<and> dt_content d' = dt_content d \<and>
       dt_defaultFullName d' = dt_defaultFullName d \<and> fst (Data_getDefaultWireEncoding d') \<noteq> None \<and>
       dt_defaultWireEncodingFormat (snd (Data_getDefaultWireEncoding d')) = Some (pe_format env))"

definition segment_packet :: "name \<Rightarrow> component \<Rightarrow> u64 \<Rightarrow> bytes \<Rightarrow> data \<Rightarrow> bool" where
  "segment_packet p fb k segment d \<longleftrightarrow> n_components (cc_target (dt_name d)) = n_components p @ [segment_comp k] \<and>
     mi_finalBlockId (cc_target (dt_metaInfo d)) = fb \<and> dt_content d = Some segment"

definition segment_entry :: "name \<Rightarrow> component \<Rightarrow> u64 \<Rightarrow> bytes \<Rightarrow> name \<times> data \<Rightarrow> bool" where
  "segment_entry p fb k segment e \<longleftrightarrow> segment_packet p fb k segment (snd e) \<and>
     (\<exists>digest. length digest = 32 \<and> n_components (fst e) = n_components p @ [segment_comp k,
        (Component_generic (Some digest))\<lparr>c_type := ndn_NameComponentType_IMPLICIT_SHA256_DIGEST\<rparr>])"

lemma getDefaultWireEncoding_again:
  "Data_getDefaultWireEncoding (snd (Data_getDefaultWireEncoding d)) = Data_getDefaultWireEncoding d"
proof -
  let ?g = "snd (Data_getDefaultWireEncoding d)"
  have "Data_getChangeCount ?g = (dt_changeCount ?g, ?g)" using settled_get [of d] by (simp add: settled_def)
  moreover have "dt_getDefaultWireEncodingChangeCount ?g = dt_changeCount ?g" "dt_defaultWireEncoding ?g = fst (Data_getDefaultWireEncoding d)"
    by (simp_all add: data_cache.get_counts data_cache.get_cached data_cache.get_own)
  ultimately have "Data_getDefaultWireEncoding ?g = (fst (Data_getDefaultWireEncoding d), ?g)"
    unfolding Data_getDefaultWireEncoding_def [of ?g] by simp
  then show ?thesis by simp
qed

lemma getDefaultWireEncoding_fields [simp]:
  "cc_target (dt_name (snd (Data_getDefaultWireEncoding d))) = cc_target (dt_name d)"
  "cc_target (dt_metaInfo (snd (Data_getDefaultWireEncoding d))) = cc_target (dt_metaInfo d)"
  "dt_content (snd (Data_getDefaultWireEncoding d)) = dt_content d"
  "dt_defaultFullName (snd (Data_getDefaultWireEncoding d)) = dt_defaultFullName d"
  by (simp_all add: Data_getDefaultWireEncoding_def Let_def case_prod_beta)

lemma Data_copy_fields:
  "cc_target (dt_name (snd (Data_copy d))) = cc_target (dt_name d)"
  "cc_target (dt_metaInfo (snd (Data_copy d))) = cc_target (dt_metaInfo d)"
  "dt_content (snd (Data_copy d)) = dt_content d"
  by (simp_all add: Data_copy_def Data_setDefaultWireEncoding_def Data_setSignature_def Let_def case_prod_beta)

lemma ims_insert_encoded:
  assumes "fst (Data_getDefaultWireEncoding d) \<noteq> None" and "dt_defaultFullName d = Name_empty"
    and "dt_defaultWireEncodingFormat (snd (Data_getDefaultWireEncoding d)) = Some format" and "\<And>bs. length (sha256 bs) = 32"
    and "segment_packet p fb k segment d"
  shows "\<exists>d' e. ims_insert sha256 encode format d st = Some (Inr (), d', nm_set (fst e) (snd e) st) \<and> segment_entry p fb k segment e"
proof -
  obtain bs b e g where get: "Data_getDefaultWireEncoding d = (Some (bs, b, e), g)" using assms(1) by (metis not_None_eq prod.exhaust prod.sel(1))
  have g: "cc_target (dt_name g) = cc_target (dt_name d)" "cc_target (dt_metaInfo g) = cc_target (dt_metaInfo d)"
    "dt_content g = dt_content d" "dt_defaultFullName g = dt_defaultFullName d"
    using getDefaultWireEncoding_fields [of d] by (simp_all add: get)
  let ?full = "Name_append ((Component_generic (Some (sha256 bs)))\<lparr>c_type := ndn_NameComponentType_IMPLICIT_SHA256_DIGEST\<rparr>) (cc_target (dt_name d))"
  have again: "Data_getDefaultWireEncoding g = (Some (bs, b, e), g)" using getDefaultWireEncoding_again [of d] get by simp
  have wire: "Data_wireEncode encode format format g = Some (Inr (bs, b, e), g)"
    using again assms(3) get by (simp add: Data_wireEncode_def)
  have digest: "Component_fromImplicitSha256Digest (Some (sha256 bs)) =
      Inr ((Component_generic (Some (sha256 bs)))\<lparr>c_type := ndn_NameComponentType_IMPLICIT_SHA256_DIGEST\<rparr>)"
    by (simp add: Component_fromImplicitSha256Digest_def ndn_SHA256_DIGEST_SIZE_def assms(4))
  have full: "Data_getFullName sha256 encode format format d = Some (Inr ?full, g\<lparr>dt_defaultFullName := ?full\<rparr>)"
    using wire assms(2)
    by (simp add: Data_getFullName_def get g Name_empty_def Name_of_def Name_size_def Name_appendImplicitSha256Digest_def digest)
  let ?c = "Data_copy (g\<lparr>dt_defaultFullName := ?full\<rparr>)"
  have "ims_insert sha256 encode format d st = Some (Inr (), fst ?c, nm_set ?full (snd ?c) st)"
    by (simp add: ims_insert_def full case_prod_beta)
  moreover have "segment_entry p fb k segment (?full, snd ?c)"
    using assms(4,5) by (auto simp: segment_entry_def segment_packet_def Data_copy_fields g)
  ultimately show ?thesis by (intro exI [of _ "fst ?c"] exI [of _ "(?full, snd ?c)"]) simp
qed

lemma segment_data_packet:
  "segment_packet p fb k segment (segment_data (Name_append (segment_comp k) p) fb period segment)"
  "dt_defaultFullName (segment_data n fb period segment) = Name_empty"
  by (simp_all add: segment_packet_def segment_data_def Data_getMetaInfo_apply_def Data_setContent_def Data_of_name_def
      MetaInfo_setFinalBlockId_def ChangeCounter_update_def ChangeCounter_of_def)

lemma signs_segment:
  assumes "signs env"
  shows "\<exists>d. pe_sign env (segment_data (Name_append (segment_comp k) p) fb period segment) = Some (Inr (), d) \<and>
    segment_packet p fb k segment d \<and>
    (\<forall>st. \<exists>d' e. ims_insert (pe_sha256 env) (pe_encode env) (pe_format env) d st = Some (Inr (), d', nm_set (fst e) (snd e) st) \<and>
      segment_entry p fb k segment e)"
proof -
  let ?d = "segment_data (Name_append (segment_comp k) p) fb period segment"
  obtain d where d: "pe_sign env ?d = Some (Inr (), d)" "cc_target (dt_name d) = cc_target (dt_name ?d)"
    "cc_target (dt_metaInfo d) = cc_target (dt_metaInfo ?d)" "dt_content d = dt_content ?d" "dt_defaultFullName d = dt_defaultFullName ?d"
    "fst (Data_getDefaultWireEncoding d) \<noteq> None" "dt_defaultWireEncodingFormat (snd (Data_getDefaultWireEncoding d)) = Some (pe_format env)"
    using assms unfolding signs_def by blast
  have packet: "segment_packet p fb k segment d"
    using segment_data_packet(1) [of p fb k segment period] by (simp add: segment_packet_def d)
  have "length (pe_sha256 env bs) = 32" for bs using assms by (simp add: signs_def)
  have name: "dt_defaultFullName d = Name_empty" using d(5) segment_data_packet(2) by (rule trans)
  have "\<forall>st. \<exists>d' e. ims_insert (pe_sha256 env) (pe_encode env) (pe_format env) d st = Some (Inr (), d', nm_set (fst e) (snd e) st) \<and>
      segment_entry p fb k segment e"
    by (intro allI ims_insert_encoded [OF d(6) name d(7) _ packet]) (rule \<open>\<And>bs. length (pe_sha256 env bs) = 32\<close>)
  with d(1) packet show ?thesis by blast
qed

definition insert_all :: "(name \<times> data) list \<Rightarrow> storage \<Rightarrow> storage" where
  "insert_all es st = fold (\<lambda>e. nm_set (fst e) (snd e)) es st"

lemma publish_loop:
  assumes "signs env" and "\<And>d. pe_putData env d = Inr ()"
  shows "\<exists>es evs. publish_loop env interestSegment p fb period k segments self =
      Some (Inr (), self\<lparr>sp_storage := insert_all es (sp_storage self), sp_events := sp_events self @ evs\<rparr>) \<and>
    length es = length segments \<and> (\<forall>i < length segments. segment_entry p fb (k + of_nat i) (segments ! i) (es ! i)) \<and>
    (interestSegment = k \<and> segments \<noteq> [] \<longrightarrow> (\<exists>d. PutSegment d \<in> set evs \<and> segment_packet p fb k (hd segments) d))"
proof (induction segments arbitrary: k self)
  case Nil
  show ?case by (intro exI [of _ "[]"]) (simp add: insert_all_def)
next
  case (Cons segment segments)
  obtain d where sign: "pe_sign env (segment_data (Name_append (segment_comp k) p) fb period segment) = Some (Inr (), d)"
    and packet: "segment_packet p fb k segment d"
    and ins: "\<And>st. \<exists>d' e. ims_insert (pe_sha256 env) (pe_encode env) (pe_format env) d st = Some (Inr (), d', nm_set (fst e) (snd e) st) \<and>
      segment_entry p fb k segment e"
    using signs_segment [OF assms(1)] by blast
  obtain d' e where e: "ims_insert (pe_sha256 env) (pe_encode env) (pe_format env) d (sp_storage self) = Some (Inr (), d', nm_set (fst e) (snd e) (sp_storage self))"
    "segment_entry p fb k segment e" using ins [of "sp_storage self"] by blast
  let ?name = "Name_append (segment_comp k) p"
  let ?put = "if interestSegment = k then [PutSegment d] else []"
  let ?self = "self\<lparr>sp_storage := nm_set (fst e) (snd e) (sp_storage self), sp_events := sp_events self @ ?put @ [LaterRemoveSegment period ?name]\<rparr>"
  have step: "publish_loop env interestSegment p fb period k (segment # segments) self =
      publish_loop env interestSegment p fb period (k + 1) segments ?self"
    using assms(2) by (simp add: Name_appendSegment liftR_def bindR_def sign e sp_event_def)
  obtain es evs where IH: "publish_loop env interestSegment p fb period (k + 1) segments ?self =
      Some (Inr (), ?self\<lparr>sp_storage := insert_all es (sp_storage ?self), sp_events := sp_events ?self @ evs\<rparr>)"
    "length es = length segments" "\<forall>i < length segments. segment_entry p fb (k + 1 + of_nat i) (segments ! i) (es ! i)"
    using Cons.IH [of "k + 1" ?self] by blast
  have "segment_entry p fb (k + of_nat i) ((segment # segments) ! i) ((e # es) ! i)" if "i < length (segment # segments)" for i
    using that e(2) IH(3) by (cases i) (auto simp: add.assoc)
  moreover have "publish_loop env interestSegment p fb period k (segment # segments) self =
      Some (Inr (), self\<lparr>sp_storage := insert_all (e # es) (sp_storage self), sp_events := sp_events self @ (?put @ LaterRemoveSegment period ?name # evs)\<rparr>)"
    unfolding step IH(1) by (simp add: insert_all_def)
  ultimately show ?case using IH(2) packet
    by (intro exI [of _ "e # es"] exI [of _ "?put @ LaterRemoveSegment period ?name # evs"]) auto
qed

section \<open>Looking segments up\<close>

abbreviation wf_name :: "name \<Rightarrow> bool" where
  "wf_name n \<equiv> \<forall>c \<in> set (n_components n). component_wf c"

lemma nm_find_new:
  assumes "nm_ok st" and "small_name n" and "wf_name n" and "\<forall>x \<in> set st. wf_name (fst x)"
    and "\<forall>x \<in> set st. n_components (fst x) \<noteq> n_components n"
  shows "nm_find n st = None"
proof (cases "nm_find n st")
  case (Some v)
  with nm_find_iff [OF assms(1,2)] obtain m where m: "(m, v) \<in> set st" "\<not> name_less m n" "\<not> name_less n m" by blast
  have small: "small_name m" using assms(1) m(1) by (auto simp: nm_ok_def)
  have "comps_compare (n_components m) (n_components n) = 0"
    using m(2,3) name_order.cmp_swap [of "n_components m" "n_components n"] by (simp add: name_less_small small assms(2))
  moreover have "wf_name m" using assms(4) m(1) by force
  ultimately have "n_components m = n_components n" using comps_compare_wf assms(3) by blast
  with assms(5) m(1) show ?thesis by force
qed simp

lemma insert_all_new:
  assumes "nm_ok st" and "\<forall>x \<in> set st. wf_name (fst x)" and "\<forall>e \<in> set es. small_name (fst e) \<and> wf_name (fst e)"
    and "distinct (map (n_components \<circ> fst) es)" and "\<forall>e \<in> set es. \<forall>x \<in> set st. n_components (fst x) \<noteq> n_components (fst e)"
  shows "set (insert_all es st) = set st \<union> set es"
  using assms
proof (induction es arbitrary: st)
  case (Cons e es)
  let ?st = "nm_set (fst e) (snd e) st"
  have "nm_find (fst e) st = None" using Cons.prems by (intro nm_find_new) auto
  from arg_cong [OF nm_set_new [OF this, of "snd e"], of set_mset] have set: "set ?st = insert e (set st)" by simp
  have "set (insert_all es ?st) = set ?st \<union> set es"
    using Cons.prems by (intro Cons.IH nm_ok_set) (auto simp: set)
  then show ?case using set by (auto simp: insert_all_def)
qed (simp add: insert_all_def)

lemma ims_find_unique:
  assumes "(n, d) \<in> set st" and "Name_match q n" and "\<forall>x \<in> set st. Name_match q (fst x) \<longrightarrow> x = (n, d)"
  shows "ims_find q st = Some d"
  using assms unfolding ims_find_def by (induction st) (auto split: prod.splits)

lemma ims_find_None: "\<forall>x \<in> set st. \<not> Name_match q (fst x) \<Longrightarrow> ims_find q st = None"
  unfolding ims_find_def by (induction st) auto

lemma segment_comp_wf [simp]: "component_wf (segment_comp k)"
  by (simp add: component_wf_def Component_generic_def)

lemma segment_entry_name:
  assumes "segment_entry p fb k segment e"
  shows "\<exists>c. n_components (fst e) = n_components p @ [segment_comp k, c] \<and> component_wf c"
proof -
  obtain digest where "n_components (fst e) = n_components p @ [segment_comp k,
      (Component_generic (Some digest))\<lparr>c_type := ndn_NameComponentType_IMPLICIT_SHA256_DIGEST\<rparr>]"
    using assms by (auto simp: segment_entry_def)
  moreover have "component_wf ((Component_generic (Some digest))\<lparr>c_type := ndn_NameComponentType_IMPLICIT_SHA256_DIGEST\<rparr>)"
    by (simp add: component_wf_def Component_generic_def)
  ultimately show ?thesis by blast
qed

lemma segment_name_match:
  assumes "n_components n = n_components p @ [segment_comp k', c]"
  shows "Name_match (Name_append (segment_comp k) p) n \<longleftrightarrow> k = k'"
proof -
  have "Name_match (Name_append (segment_comp k) p) n \<longleftrightarrow> 0 # nonneg_integer k = (0 :: byte) # nonneg_integer k'"
    by (auto simp: Name_match_values name_values_def assms Component_generic_def)
  also have "\<dots> \<longleftrightarrow> k = k'" using segment_comp_inj by blast
  finally show ?thesis .
qed

lemma Name_match_components: "n_components m = n_components m' \<Longrightarrow> Name_match q m \<longleftrightarrow> Name_match q m'"
  by (simp add: Name_match_values name_values_def)

lemma segment_name_prefix: "Name_match (Name_append c p) n \<Longrightarrow> Name_match p n"
  by (auto simp: Name_match_values name_values_def)

lemma segment_number_inj:
  assumes "i < 2 ^ 64" and "j < 2 ^ 64"
  shows "of_nat i = (of_nat j :: u64) \<longleftrightarrow> i = j"
proof
  assume "of_nat i = (of_nat j :: u64)"
  then have "unat (of_nat i :: u64) = unat (of_nat j :: u64)" by simp
  then show "i = j" using assms by (simp add: unat_of_nat take_bit_nat_eq_self_iff)
qed simp

text \<open>A storage with nothing under a prefix, to which the segments are added.\<close>

definition room_for :: "name \<Rightarrow> storage \<Rightarrow> bool" where
  "room_for p st \<longleftrightarrow> nm_ok st \<and> wf_name p \<and> Name_size p < 2 ^ 30 \<and> (\<forall>x \<in> set st. wf_name (fst x) \<and> \<not> Name_match p (fst x))"

lemma segments_found:
  assumes "room_for p st" and "length es < 2 ^ 64" and entries: "\<forall>i < length es. segment_entry p fb (of_nat i) (segments ! i) (es ! i)"
  shows "i < length es \<Longrightarrow> ims_find (Name_append (segment_comp (of_nat i)) p) (insert_all es st) = Some (snd (es ! i))"
    and "ims_find (Name_append (segment_comp (of_nat (length es))) p) (insert_all es st) = None"
proof -
  let ?q = "\<lambda>k. Name_append (segment_comp k) p"
  have name: "\<exists>c. n_components (fst (es ! i)) = n_components p @ [segment_comp (of_nat i), c] \<and> component_wf c" if "i < length es" for i
    using entries that segment_entry_name by blast
  have inj: "of_nat i = (of_nat j :: u64) \<longleftrightarrow> i = j" if "i \<le> length es" "j \<le> length es" for i j
    by (rule segment_number_inj) (use that assms(2) in simp_all)
  have match: "Name_match (?q (of_nat j)) (fst (es ! i)) \<longleftrightarrow> i = j" if "i < length es" "j \<le> length es" for i j
    using name [OF that(1)] that inj [of j i] by (auto simp: segment_name_match)
  have prefix: "Name_match p (fst (es ! i))" if "i < length es" for i
    using match [OF that, of i] that by (auto intro: segment_name_prefix)
  have set: "set (insert_all es st) = set st \<union> set es"
  proof (rule insert_all_new)
    show "nm_ok st" "\<forall>x \<in> set st. wf_name (fst x)" using assms(1) by (simp_all add: room_for_def)
    show "\<forall>e \<in> set es. small_name (fst e) \<and> wf_name (fst e)"
    proof
      fix e assume "e \<in> set es"
      then obtain i where i: "i < length es" "e = es ! i" by (auto simp: in_set_conv_nth)
      from name [OF i(1)] assms(1) show "small_name (fst e) \<and> wf_name (fst e)"
        by (auto simp: i(2) small_name_def Name_size_def room_for_def)
    qed
    show "distinct (map (n_components \<circ> fst) es)"
      unfolding distinct_conv_nth
    proof (intro allI impI)
      fix i j assume ij: "i < length (map (n_components \<circ> fst) es)" "j < length (map (n_components \<circ> fst) es)" "i \<noteq> j"
      show "map (n_components \<circ> fst) es ! i \<noteq> map (n_components \<circ> fst) es ! j"
      proof
        assume "map (n_components \<circ> fst) es ! i = map (n_components \<circ> fst) es ! j"
        then have "Name_match (?q (of_nat i)) (fst (es ! i)) \<longleftrightarrow> Name_match (?q (of_nat i)) (fst (es ! j))"
          using ij by (intro Name_match_components) simp
        with match [of i i] match [of j i] ij show False by simp
      qed
    qed
    show "\<forall>e \<in> set es. \<forall>x \<in> set st. n_components (fst x) \<noteq> n_components (fst e)"
    proof (intro ballI notI)
      fix e x assume "e \<in> set es" "x \<in> set st" "n_components (fst x) = n_components (fst e)"
      moreover from this(1) obtain i where "i < length es" "e = es ! i" by (auto simp: in_set_conv_nth)
      ultimately have "Name_match p (fst x)" using prefix Name_match_components [of "fst x" "fst e" p] by simp
      with \<open>x \<in> set st\<close> assms(1) show False by (simp add: room_for_def)
    qed
  qed
  have other: "\<not> Name_match (?q k) (fst x)" if "x \<in> set st" for k x
    using assms(1) that segment_name_prefix by (auto simp: room_for_def)
  have all: "Name_match (?q (of_nat j)) (fst x) \<longleftrightarrow> j < length es \<and> x = es ! j" if "x \<in> set (insert_all es st)" "j \<le> length es" for x j
  proof (cases "x \<in> set es")
    case True
    then obtain i where "i < length es" "x = es ! i" by (auto simp: in_set_conv_nth)
    with match [of i j] match [of j j] that(2) show ?thesis by auto
  next
    case False
    with that set have "x \<in> set st" by simp
    moreover have "x \<noteq> es ! j" if "j < length es" using False nth_mem [OF that] by auto
    ultimately show ?thesis using other by auto
  qed
  show "ims_find (?q (of_nat i)) (insert_all es st) = Some (snd (es ! i))" if i: "i < length es"
    using i match [of i i] by (intro ims_find_unique [of "fst (es ! i)"]) (auto simp: set all)
  show "ims_find (?q (of_nat (length es))) (insert_all es st) = None"
    by (intro ims_find_None) (simp add: all)
qed

text \<open>What \<^verbatim>\<open>publish\<close> does, under a version that nothing is stored for yet.\<close>

lemma published_segments:
  assumes "signs env" and "\<And>d. pe_putData env d = Inr ()" and "Name_get (-1) interestName = Inr c" and "\<not> Component_isSegment c"
    and "room_for (Name_append (Component_generic (Some (0xFD # nonneg_integer (pe_now env)))) dataName) (sp_storage self)"
    and "length content < 2 ^ 63"
  shows "\<exists>self' packets p first. PSyncSegmentPublisher_publish env interestName dataName content period self = Some (Inr (), self') \<and>
    p = Name_append (Component_generic (Some (0xFD # nonneg_integer (pe_now env)))) dataName \<and>
    PutSegment first \<in> set (sp_events self') \<and>
    length packets = length (content_segments content) \<and>
    segment_packet p (segment_comp (of_nat (length content div maxPacketSize))) 0 (hd (content_segments content)) first \<and>
    (\<forall>i < length packets. segment_packet p (segment_comp (of_nat (length content div maxPacketSize))) (of_nat i)
        (content_segments content ! i) (packets ! i) \<and>
      ims_find (Name_append (segment_comp (of_nat i)) p) (sp_storage self') = Some (packets ! i)) \<and>
    ims_find (Name_append (segment_comp (of_nat (length packets))) p) (sp_storage self') = None"
proof -
  let ?p = "Name_append (Component_generic (Some (0xFD # nonneg_integer (pe_now env)))) dataName"
  let ?fb = "segment_comp (of_nat (length content div maxPacketSize))" and ?segs = "content_segments content"
  obtain es evs where loop: "publish_loop env 0 ?p ?fb period 0 ?segs self =
      Some (Inr (), self\<lparr>sp_storage := insert_all es (sp_storage self), sp_events := sp_events self @ evs\<rparr>)"
    and len: "length es = length ?segs" and entries: "\<forall>i < length ?segs. segment_entry ?p ?fb (0 + of_nat i) (?segs ! i) (es ! i)"
    and first: "\<exists>d. PutSegment d \<in> set evs \<and> segment_packet ?p ?fb 0 (hd ?segs) d"
    using publish_loop [OF assms(1,2), of 0 ?p ?fb period 0 ?segs self] by auto
  let ?self = "self\<lparr>sp_storage := insert_all es (sp_storage self), sp_events := sp_events self @ evs\<rparr>"
  have "Name_appendVersion (pe_now env) dataName = Inr ?p"
    by (simp add: Name_appendVersion_def Name_appendWithMarker_def Component_fromNumberWithMarker)
  then have publish: "PSyncSegmentPublisher_publish env interestName dataName content period self = Some (Inr (), ?self)"
    using assms(3,4) loop by (simp add: PSyncSegmentPublisher_publish_def liftR_def bindR_def Component_fromNumberWithMarker)
  have "length es \<le> length content + 1"
    using div_le_dividend [of "length content" maxPacketSize] by (auto simp: len content_segments_length intro: le_SucI)
  then have short: "length es < 2 ^ 64" using assms(6) by simp
  have entries': "\<forall>i < length es. segment_entry ?p ?fb (of_nat i) (?segs ! i) (es ! i)" using entries len by simp
  note found = segments_found [OF assms(5) short entries']
  obtain d where "PutSegment d \<in> set evs" "segment_packet ?p ?fb 0 (hd ?segs) d" using first by blast
  with publish found entries' len show ?thesis
    by (intro exI [of _ ?self] exI [of _ "map snd es"] exI [of _ ?p] exI [of _ d]) (auto simp: segment_entry_def)
qed

section \<open>Fetching segments\<close>

text \<open>The fetcher's Interests, answered from a store while it asks for something the store has.\<close>

fun fetch_rounds :: "fetch_env \<Rightarrow> (name \<Rightarrow> data option) \<Rightarrow> nat \<Rightarrow> segment_fetcher \<Rightarrow> segment_fetcher" where
  "fetch_rounds env store 0 self = self"
| "fetch_rounds env store (Suc n) self =
     (case last (sf_events self) of
        ExpressSegment interest \<Rightarrow>
          (case store (cc_target (i_name interest)) of
             Some d \<Rightarrow> fetch_rounds env store n (snd (fetch_onSegmentReceived env interest d self))
           | None \<Rightarrow> self)
      | _ \<Rightarrow> self)"

lemma fetch_segment:
  assumes "\<not> fe_validates env" and "fe_verifySegment env d" and "segment_packet p (segment_comp f) k segment d"
    and "k = of_nat (length (sf_contentParts self))" and "Name_size p < 2 ^ 30"
  shows "\<exists>next. fetch_onSegmentReceived env interest d self =
      (if k = f then (Inr (), self\<lparr>sf_contentParts := sf_contentParts self @ [Some segment],
           sf_events := sf_events self @ [FetchComplete (concat (map blob_bytes (sf_contentParts self)) @ segment)]\<rparr>)
       else (fe_express env next, self\<lparr>sf_contentParts := sf_contentParts self @ [Some segment],
           sf_events := sf_events self @ [ExpressSegment next]\<rparr>)) \<and>
    n_components (cc_target (i_name next)) = n_components p @ [segment_comp (k + 1)]"
proof -
  let ?name = "cc_target (dt_name d)"
  have name: "n_components ?name = n_components p @ [segment_comp k]" and fb: "mi_finalBlockId (cc_target (dt_metaInfo d)) = segment_comp f"
    and content: "dt_content d = Some segment" using assms(3) by (simp_all add: segment_packet_def)
  have get: "Name_get (-1) ?name = Inr (segment_comp k)" using name by (simp add: Name_get_last)
  have segment: "Component_isSegment (segment_comp k)"
    by (simp add: Component_isSegment_def Component_has_marker_def Component_generic_def blob_size_def)
  have ends: "endsWithSegmentNumber ?name" using name by (simp add: endsWithSegmentNumber_def get segment Name_size_def)
  have "n_components (Name_getPrefix (-1) ?name) = n_components p"
    using name assms(5) Name_getPrefix_neg [of "- 1" ?name] by (simp add: Name_size_def small_name_def)
  then have prefix: "n_components (Name_append (segment_comp (k + 1)) (Name_getPrefix (-1) ?name)) = n_components p @ [segment_comp (k + 1)]"
    by simp
  have number: "bindE (Name_get (-1) ?name) (\<lambda>c. Component_toNumberWithMarker c 0) = Inr k" by (simp add: get segment_comp_number)
  have some: "blob_size (c_value (segment_comp f)) > 0" by (simp add: Component_generic_def blob_size_def)
  let ?next = "Interest_setName (Name_append (segment_comp (k + 1)) (Name_getPrefix (-1) ?name))
    (Interest_setMustBeFresh False (Interest_setChildSelector 0 (snd (Interest_copy interest))))"
  have "n_components (cc_target (i_name ?next)) = n_components p @ [segment_comp (k + 1)]"
    using prefix by (simp add: Interest_setName_def ChangeCounter_set_def)
  moreover have "fetchNextSegment env interest ?name (k + 1) s = (fe_express env ?next, sf_event (ExpressSegment ?next) s)" for s
    by (simp add: fetchNextSegment_def Name_appendSegment Let_def)
  ultimately show ?thesis
    unfolding fetch_onSegmentReceived_def fetch_onVerified_def fb content
    using assms(1,2,4) ends number some by (intro exI [of _ ?next]) (simp add: segment_comp_number sf_event_def Let_def)
qed

lemma ims_find_components: "n_components q = n_components q' \<Longrightarrow> ims_find q st = ims_find q' st"
  by (simp add: ims_find_def Name_match_values name_values_def)

text \<open>A store with the packets of all segments, and with nothing after them.\<close>

definition stores_segments :: "(name \<Rightarrow> data option) \<Rightarrow> name \<Rightarrow> u64 \<Rightarrow> bytes list \<Rightarrow> bool" where
  "stores_segments store p f segments \<longleftrightarrow> Name_size p < 2 ^ 30 \<and>
     (\<forall>q i. n_components q = n_components p @ [segment_comp (of_nat i)] \<longrightarrow>
        (if i < length segments
         then \<exists>d. store q = Some d \<and> segment_packet p (segment_comp f) (of_nat i) (segments ! i) d
         else i = length segments \<longrightarrow> store q = None))"

lemma stores_segmentsD:
  assumes "stores_segments store p f segments" and "n_components q = n_components p @ [segment_comp (of_nat i)]"
  shows "i < length segments \<Longrightarrow> \<exists>d. store q = Some d \<and> segment_packet p (segment_comp f) (of_nat i) (segments ! i) d"
    and "i = length segments \<Longrightarrow> store q = None" and "Name_size p < 2 ^ 30"
  using assms unfolding stores_segments_def by (metis less_irrefl)+

text \<open>The fetcher has the first segments and asks for the next one.\<close>

definition fetching :: "name \<Rightarrow> bytes list \<Rightarrow> nat \<Rightarrow> segment_fetcher \<Rightarrow> bool" where
  "fetching p segments j self \<longleftrightarrow> sf_contentParts self = map Some (take j segments) \<and>
     (\<forall>x. FetchComplete x \<notin> set (sf_events self)) \<and>
     (\<exists>i. last (sf_events self) = ExpressSegment i \<and> n_components (cc_target (i_name i)) = n_components p @ [segment_comp (of_nat j)])"

lemma fetch_next:
  assumes env: "\<not> fe_validates env" "\<And>d. fe_verifySegment env d"
    and "segment_packet p (segment_comp f) (of_nat j) (segments ! j) d" and "Name_size p < 2 ^ 30" and "j < length segments"
    and parts: "sf_contentParts self = map Some (take j segments)" and "\<forall>x. FetchComplete x \<notin> set (sf_events self)"
  shows "if of_nat j = f then FetchComplete (concat (take (Suc j) segments)) \<in> set (sf_events (snd (fetch_onSegmentReceived env interest d self)))
    else fetching p segments (Suc j) (snd (fetch_onSegmentReceived env interest d self))"
proof -
  have k: "of_nat j = (of_nat (length (sf_contentParts self)) :: u64)" using assms(5) by (simp add: parts)
  have "take (Suc j) segments = take j segments @ [segments ! j]" using assms(5) by (rule take_Suc_conv_app_nth)
  then have concat: "concat (map blob_bytes (map Some (take j segments))) @ segments ! j = concat (take (Suc j) segments)"
    "map Some (take j segments) @ [Some (segments ! j)] = map Some (take (Suc j) segments)"
    by (simp_all add: comp_def)
  from fetch_segment [OF env(1) env(2) assms(3) k assms(4), of interest] obtain "next" where
    "fetch_onSegmentReceived env interest d self =
      (if of_nat j = f then (Inr (), self\<lparr>sf_contentParts := sf_contentParts self @ [Some (segments ! j)],
           sf_events := sf_events self @ [FetchComplete (concat (map blob_bytes (sf_contentParts self)) @ segments ! j)]\<rparr>)
       else (fe_express env next, self\<lparr>sf_contentParts := sf_contentParts self @ [Some (segments ! j)],
           sf_events := sf_events self @ [ExpressSegment next]\<rparr>))"
    "n_components (cc_target (i_name next)) = n_components p @ [segment_comp (of_nat j + 1)]" by blast
  with assms(7) concat show ?thesis unfolding parts by (auto simp: fetching_def add.commute)
qed

lemma fetching_round:
  assumes env: "\<not> fe_validates env" "\<And>d. fe_verifySegment env d" and store: "stores_segments store p f segments"
    and "fetching p segments j self" and "j < length segments"
  shows "\<exists>self'. (\<forall>n. fetch_rounds env store (Suc n) self = fetch_rounds env store n self') \<and>
    (if of_nat j = f then FetchComplete (concat (take (Suc j) segments)) \<in> set (sf_events self') else fetching p segments (Suc j) self')"
proof -
  obtain i where i: "last (sf_events self) = ExpressSegment i" "n_components (cc_target (i_name i)) = n_components p @ [segment_comp (of_nat j)]"
    and parts: "sf_contentParts self = map Some (take j segments)" "\<forall>x. FetchComplete x \<notin> set (sf_events self)"
    using assms(4) by (auto simp: fetching_def)
  obtain d where d: "store (cc_target (i_name i)) = Some d" "segment_packet p (segment_comp f) (of_nat j) (segments ! j) d"
    using stores_segmentsD(1) [OF store i(2) assms(5)] by blast
  have small: "Name_size p < 2 ^ 30" using store by (simp add: stores_segments_def)
  from fetch_next [OF env d(2) small assms(5) parts, of i] d(1) i(1) show ?thesis
    by (intro exI [of _ "snd (fetch_onSegmentReceived env i d self)"]) simp
qed

lemma fetching_completes:
  assumes env: "\<not> fe_validates env" "\<And>d. fe_verifySegment env d" and store: "stores_segments store p (of_nat (length segments - 1)) segments"
    and "length segments < 2 ^ 64"
  shows "fetching p segments j self \<Longrightarrow> length segments = j + Suc m \<Longrightarrow>
    FetchComplete (concat segments) \<in> set (sf_events (fetch_rounds env store (Suc m) self))"
proof (induction m arbitrary: j self)
  case 0
  then obtain self' where "fetch_rounds env store 1 self = self'" "FetchComplete (concat (take (Suc j) segments)) \<in> set (sf_events self')"
    using fetching_round [OF env store 0(1)] by (fastforce split: if_splits)
  with 0(2) show ?case by simp
next
  case (Suc m)
  have "of_nat j \<noteq> (of_nat (length segments - 1) :: u64)"
    using Suc.prems(2) assms(4) segment_number_inj [of j "length segments - 1"] by simp
  with fetching_round [OF env store Suc.prems(1)] Suc.prems(2) obtain self' where
    "\<And>n. fetch_rounds env store (Suc n) self = fetch_rounds env store n self'" "fetching p segments (Suc j) self'" by auto
  with Suc.IH [of "Suc j" self'] Suc.prems(2) show ?case by simp
qed

lemma fetching_waits:
  assumes env: "\<not> fe_validates env" "\<And>d. fe_verifySegment env d" and store: "stores_segments store p (of_nat (length segments)) segments"
    and "length segments < 2 ^ 64"
  shows "fetching p segments j self \<Longrightarrow> j \<le> length segments \<Longrightarrow>
    fetching p segments (min (length segments) (j + n)) (fetch_rounds env store n self)"
proof (induction n arbitrary: j self)
  case (Suc n)
  show ?case
  proof (cases "j < length segments")
    case True
    then have "of_nat j \<noteq> (of_nat (length segments) :: u64)"
      using assms(4) segment_number_inj [of j "length segments"] by simp
    with fetching_round [OF env store Suc.prems(1) True] obtain self' where
      "\<And>n. fetch_rounds env store (Suc n) self = fetch_rounds env store n self'" "fetching p segments (Suc j) self'" by auto
    with Suc.IH [of "Suc j" self'] True show ?thesis by simp
  next
    case False
    obtain i where "last (sf_events self) = ExpressSegment i" "n_components (cc_target (i_name i)) = n_components p @ [segment_comp (of_nat j)]"
      using Suc.prems(1) by (auto simp: fetching_def)
    with stores_segmentsD(2) [OF store] False Suc.prems(2) have "fetch_rounds env store (Suc n) self = self" by simp
    with Suc.prems False show ?thesis by simp
  qed
qed (simp add: min_def)

lemma published_store:
  assumes "signs env" and "\<And>d. pe_putData env d = Inr ()" and "Name_get (-1) interestName = Inr c" and "\<not> Component_isSegment c"
    and "room_for (Name_append (Component_generic (Some (0xFD # nonneg_integer (pe_now env)))) dataName) (sp_storage self)"
    and "length content < 2 ^ 63"
  shows "\<exists>self' p first. PSyncSegmentPublisher_publish env interestName dataName content period self = Some (Inr (), self') \<and>
    PutSegment first \<in> set (sp_events self') \<and>
    segment_packet p (segment_comp (of_nat (length content div maxPacketSize))) (of_nat 0) (content_segments content ! 0) first \<and>
    stores_segments (\<lambda>q. ims_find q (sp_storage self')) p (of_nat (length content div maxPacketSize)) (content_segments content)"
proof -
  let ?fb = "of_nat (length content div maxPacketSize) :: u64" and ?segs = "content_segments content"
  obtain self' packets p first where publish: "PSyncSegmentPublisher_publish env interestName dataName content period self = Some (Inr (), self')"
    and p: "p = Name_append (Component_generic (Some (0xFD # nonneg_integer (pe_now env)))) dataName"
    and first: "PutSegment first \<in> set (sp_events self')" "segment_packet p (segment_comp ?fb) 0 (hd ?segs) first"
    and packets: "length packets = length ?segs" "\<forall>i < length packets. segment_packet p (segment_comp ?fb) (of_nat i) (?segs ! i) (packets ! i) \<and>
      ims_find (Name_append (segment_comp (of_nat i)) p) (sp_storage self') = Some (packets ! i)"
    and none: "ims_find (Name_append (segment_comp (of_nat (length packets))) p) (sp_storage self') = None"
    using published_segments [OF assms] by blast
  have find: "ims_find q (sp_storage self') = ims_find (Name_append (segment_comp (of_nat i)) p) (sp_storage self')"
    if "n_components q = n_components p @ [segment_comp (of_nat i)]" for q i
    using that by (intro ims_find_components) simp
  have "stores_segments (\<lambda>q. ims_find q (sp_storage self')) p ?fb ?segs"
    unfolding stores_segments_def
  proof (intro conjI allI impI)
    show "Name_size p < 2 ^ 30" using assms(5) by (simp add: room_for_def p)
    fix q :: name and i assume "n_components q = n_components p @ [segment_comp (of_nat i)]"
    from find [OF this] packets none show "if i < length ?segs
        then \<exists>d. ims_find q (sp_storage self') = Some d \<and> segment_packet p (segment_comp ?fb) (of_nat i) (?segs ! i) d
        else i = length ?segs \<longrightarrow> ims_find q (sp_storage self') = None" by simp
  qed
  with publish first show ?thesis by (auto simp: hd_conv_nth)
qed

lemma segment_count_small: "length content < 2 ^ 63 \<Longrightarrow> length content div maxPacketSize + 1 < 2 ^ 64"
  using le_less_trans [OF div_le_dividend, of "length content" "2 ^ 63" maxPacketSize] by simp

lemma fetching_first:
  assumes "\<not> fe_validates fenv" and "\<And>d. fe_verifySegment fenv d" and "segment_packet p (segment_comp f) (of_nat 0) (segments ! 0) first"
    and "Name_size p < 2 ^ 30" and "segments \<noteq> []"
  shows "if f = 0 then FetchComplete (hd segments) \<in> set (sf_events (snd (fetch_onSegmentReceived fenv interest first SegmentFetcher_new)))
    else fetching p segments 1 (snd (fetch_onSegmentReceived fenv interest first SegmentFetcher_new))"
  using fetch_next [OF assms(1-4), of SegmentFetcher_new interest] assms(5)
  by (cases segments) (auto simp: SegmentFetcher_new_def)


text \<open>
  C39. When the content fills its segments, the final block ID of the packets is the number after that of the last one: a fetcher that is
  answered from the store gets all the content, and then asks for a segment that was never published, instead of completing.
\<close>

theorem full_segments_never_complete:
  assumes "signs env" and "\<And>d. pe_putData env d = Inr ()" and "Name_get (-1) interestName = Inr c" and "\<not> Component_isSegment c"
    and "room_for (Name_append (Component_generic (Some (0xFD # nonneg_integer (pe_now env)))) dataName) (sp_storage self)"
    and "length content < 2 ^ 63" and "\<not> fe_validates fenv" and "\<And>d. fe_verifySegment fenv d"
    and "content \<noteq> []" and "length content mod maxPacketSize = 0"
  shows "\<exists>self' first. PSyncSegmentPublisher_publish env interestName dataName content period self = Some (Inr (), self') \<and>
    PutSegment first \<in> set (sp_events self') \<and>
    (let fetcher = \<lambda>n. fetch_rounds fenv (\<lambda>q. ims_find q (sp_storage self')) n (snd (fetch_onSegmentReceived fenv interest first SegmentFetcher_new))
     in (\<forall>n x. FetchComplete x \<notin> set (sf_events (fetcher n))) \<and>
        (\<exists>n next. concat (map blob_bytes (sf_contentParts (fetcher n))) = content \<and> last (sf_events (fetcher n)) = ExpressSegment next \<and>
           ims_find (cc_target (i_name next)) (sp_storage self') = None))"
proof -
  let ?f = "of_nat (length content div maxPacketSize) :: u64" and ?segs = "content_segments content"
  obtain self' p first where publish: "PSyncSegmentPublisher_publish env interestName dataName content period self = Some (Inr (), self')"
    "PutSegment first \<in> set (sp_events self')" and packet: "segment_packet p (segment_comp ?f) (of_nat 0) (?segs ! 0) first"
    and store: "stores_segments (\<lambda>q. ims_find q (sp_storage self')) p ?f ?segs"
    using published_store [OF assms(1-6)] by blast
  let ?s = "snd (fetch_onSegmentReceived fenv interest first SegmentFetcher_new)"
  have len: "length ?segs = length content div maxPacketSize" using assms(9,10) by (simp add: content_segments_length)
  have short: "length ?segs < 2 ^ 64" using segment_count_small [OF assms(6)] by (simp add: len)
  have small: "Name_size p < 2 ^ 30" using store by (simp add: stores_segments_def)
  have pos: "0 < length ?segs" by simp
  then have "?f \<noteq> 0" using segment_number_inj [of "length ?segs" 0] short len by simp
  with fetching_first [OF assms(7,8) packet small content_segments_not_Nil, of interest] have fetch: "fetching p ?segs 1 ?s" by simp
  have store': "stores_segments (\<lambda>q. ims_find q (sp_storage self')) p (of_nat (length ?segs)) ?segs" using store len by simp
  have waits: "fetching p ?segs (min (length ?segs) (1 + n)) (fetch_rounds fenv (\<lambda>q. ims_find q (sp_storage self')) n ?s)" for n
    using pos by (intro fetching_waits [OF assms(7,8) store' short fetch]) (simp only: Suc_le_eq One_nat_def)
  let ?last = "fetch_rounds fenv (\<lambda>q. ims_find q (sp_storage self')) (length ?segs) ?s"
  from waits [of "length ?segs"] have fin: "fetching p ?segs (length ?segs) ?last" by simp
  then obtain i where i: "last (sf_events ?last) = ExpressSegment i" "n_components (cc_target (i_name i)) = n_components p @ [segment_comp (of_nat (length ?segs))]"
    by (auto simp: fetching_def)
  have "concat (map blob_bytes (sf_contentParts ?last)) = content" using fin by (simp add: fetching_def comp_def)
  moreover have "ims_find (cc_target (i_name i)) (sp_storage self') = None" using stores_segmentsD(2) [OF store' i(2)] by simp
  moreover have "FetchComplete x \<notin> set (sf_events (fetch_rounds fenv (\<lambda>q. ims_find q (sp_storage self')) n ?s))" for n x
    using waits [of n] by (simp add: fetching_def)
  ultimately show ?thesis using publish i(1) by (auto simp: Let_def)
qed

section \<open>Removing a prefix\<close>

text \<open>The names under a prefix are next to each other.\<close>

lemma prefix_convex:
  assumes "\<forall>c \<in> set ps. component_wf c" and "\<forall>c \<in> set xs. component_wf c"
    and "comps_compare ps xs \<le> 0" and "comps_compare xs (ps @ rs) \<le> 0"
  shows "\<exists>r. xs = ps @ r"
  using assms
proof (induction ps arbitrary: xs)
  case (Cons p ps)
  then obtain x xs' where xs: "xs = x # xs'" by (cases xs) auto
  have "Component_compare x p = - Component_compare p x" by (rule component_order.cmp_swap)
  with Cons.prems(3,4) have same: "Component_compare p x = 0" "Component_compare x p = 0" by (auto simp: xs Let_def split: if_splits)
  with Cons.prems(1,2) have "x = p" by (simp add: xs Component_compare_wf)
  moreover from Cons.IH [of xs'] Cons.prems same have "\<exists>r. xs' = ps @ r" by (auto simp: xs Let_def)
  ultimately show ?case by (auto simp: xs)
qed simp

lemma dropWhile_filter: "sorted_wrt (\<lambda>x y. P y \<longrightarrow> P x) xs \<Longrightarrow> dropWhile P xs = filter (\<lambda>x. \<not> P x) xs"
proof (induction xs)
  case (Cons x xs)
  then show ?case by (cases "P x") (auto intro!: filter_True [symmetric])
qed simp

lemma match_components:
  assumes "take (Name_size p) (n_components x) = n_components p"
  shows "n_components x = n_components p @ drop (Name_size p) (n_components x)"
  using assms by (metis append_take_drop_id)

lemma under_prefix_not_less:
  assumes "small_name p" and "wf_name p" and "small_name x" and "n_components x = n_components p @ r"
  shows "\<not> name_less x p"
proof -
  have "comps_compare (n_components p) (n_components x) \<le> 0"
    using comps_compare_prefix [of r "n_components p"] comps_compare_wf [OF assms(2) assms(2)] assms(4) by (cases "r = []") auto
  then show ?thesis
    using name_order.cmp_swap [of "n_components p" "n_components x"] by (simp add: name_less_small assms(1,3))
qed

lemma between_prefix_and_match:
  assumes "small_name p" and "wf_name p" and "small_name x" and "wf_name x" and "small_name y" and "n_components y = n_components p @ r"
    and "\<not> name_less x p" and "name_less x y"
  shows "Name_match p x"
proof -
  have "comps_compare (n_components p) (n_components x) \<le> 0" "comps_compare (n_components x) (n_components y) \<le> 0"
    using assms(7,8) name_order.cmp_swap [of "n_components p" "n_components x"] by (simp_all add: name_less_small assms(1,3,5))
  with prefix_convex [OF assms(2), of "n_components x" r] assms(4,6)
  obtain q where "n_components x = n_components p @ q" by auto
  then show ?thesis by (auto simp: Name_match_values name_values_def)
qed

text \<open>
  C40. Removing a prefix from the storage takes out exactly the packets with a name under the prefix and keeps the order of the others.
  The names must agree with the prefix in the types of components where they agree in the values, which is all that matching compares.
\<close>

theorem storage_remove_exact:
  assumes "nm_ok st" and "small_name prefix" and "wf_name prefix" and "\<forall>x \<in> set st. wf_name (fst x)"
    and "\<forall>x \<in> set st. Name_match prefix (fst x) \<longrightarrow> take (Name_size prefix) (n_components (fst x)) = n_components prefix"
  shows "ims_remove prefix st = filter (\<lambda>x. \<not> Name_match prefix (fst x)) st \<and> nm_ok (ims_remove prefix st)"
proof -
  let ?m = "\<lambda>x. Name_match prefix (fst x)"
  have small: "small_name (fst x)" if "x \<in> set st" for x using assms(1) that by (simp add: nm_ok_def)
  have comps: "n_components (fst x) = n_components prefix @ drop (Name_size prefix) (n_components (fst x))" if "x \<in> set st" "?m x" for x
    using assms(5) that by (intro match_components) blast
  have ge: "\<not> name_less (fst x) prefix" if "x \<in> set st" "?m x" for x
    by (rule under_prefix_not_less [OF assms(2,3) small [OF that(1)] comps [OF that]])
  have next_to: "?m x" if "x \<in> set st" "y \<in> set st" "\<not> name_less (fst x) prefix" "name_less (fst x) (fst y)" "?m y" for x y
    using that assms(4) by (intro between_prefix_and_match [OF assms(2,3) small _ small [OF that(2)] comps [OF that(2,5)]]) auto
  have "filter (\<lambda>x. \<not> ?m x) (nm_before prefix st) = nm_before prefix st"
  proof (intro filter_True ballI)
    fix x assume "x \<in> set (nm_before prefix st)"
    then have "x \<in> set st" "name_less (fst x) prefix" by (auto simp: nm_before_def dest: set_takeWhileD)
    with ge show "\<not> ?m x" by blast
  qed
  moreover have "dropWhile ?m (nm_from prefix st) = filter (\<lambda>x. \<not> ?m x) (nm_from prefix st)"
  proof (rule dropWhile_filter)
    note sub = set_nm_from [of prefix st] and sorted = sorted_nm_from [OF assms(1), of prefix]
    have above: "\<not> name_less (fst x) prefix" if "x \<in> set (nm_from prefix st)" for x
      by (rule nm_from_not_less [OF assms(1,2) that])
    show "sorted_wrt (\<lambda>x y. ?m y \<longrightarrow> ?m x) (nm_from prefix st)"
      by (rule sorted_wrt_mono_rel [OF _ sorted]) (use sub above next_to in blast)
  qed
  ultimately have remove: "ims_remove prefix st = filter (\<lambda>x. \<not> ?m x) st"
    using arg_cong [OF nm_split [of st prefix], of "filter (\<lambda>x. \<not> ?m x)"] by (simp add: ims_remove_def case_prod_unfold)
  then show ?thesis using assms(1) by (auto simp: nm_ok_def sorted_wrt_filter)
qed

section \<open>Instances\<close>

text \<open>A key chain that only encodes, and an application that takes every segment.\<close>

definition demo_publisher_env :: publisher_env where
  "demo_publisher_env =
     \<lparr>pe_now = 1, pe_sign = (\<lambda>d. Some (Inr (), Data_setDefaultWireEncoding (Some ([], 0, 0)) (Some 0) d)), pe_putData = (\<lambda>_. Inr ()),
      pe_sha256 = (\<lambda>_. replicate 32 0), pe_encode = (\<lambda>_. Tlv_encodeData), pe_format = 0\<rparr>"

definition demo_fetch_env :: fetch_env where
  "demo_fetch_env = \<lparr>fe_express = (\<lambda>_. Inr ()), fe_validates = False, fe_verifySegment = DontVerifySegment\<rparr>"

definition demo_segment_name :: name where
  "demo_segment_name = Name_of [Component_generic (Some [65])]"

lemma demo_signs: "signs demo_publisher_env"
proof -
  let ?set = "Data_setDefaultWireEncoding (Some ([], 0, 0)) (Some 0)"
  have "fst (Data_getDefaultWireEncoding (?set d)) = Some ([], 0, 0)" for d
    by (simp add: data_cache.get_value data_cache.set_counts data_cache.set_cached)
  moreover have "dt_defaultWireEncodingFormat (snd (Data_getDefaultWireEncoding (?set d))) = Some 0" for d
    by (simp add: data_defs(2,3) Let_def case_prod_beta data_count.again)
  moreover have "cc_target (dt_name (?set d)) = cc_target (dt_name d)" "cc_target (dt_metaInfo (?set d)) = cc_target (dt_metaInfo d)"
    "dt_content (?set d) = dt_content d" "dt_defaultFullName (?set d) = dt_defaultFullName d" for d
    by (simp_all add: Data_setDefaultWireEncoding_def Let_def case_prod_beta)
  ultimately show ?thesis by (simp add: signs_def demo_publisher_env_def)
qed

lemma demo_segment_name:
  "Name_get (-1) demo_segment_name = Inr (Component_generic (Some [65]))" "\<not> Component_isSegment (Component_generic (Some [65]))"
  "room_for (Name_append (Component_generic (Some (0xFD # nonneg_integer (pe_now demo_publisher_env)))) demo_segment_name)
     (sp_storage PSyncSegmentPublisher_new)"
  by (simp_all add: demo_segment_name_def Name_of_def Name_get_def Name_size_def Component_isSegment_def Component_has_marker_def
      Component_generic_def room_for_def PSyncSegmentPublisher_new_def component_wf_def)


theorem full_segments_never_complete_witness:
  "\<exists>self' first. PSyncSegmentPublisher_publish demo_publisher_env demo_segment_name demo_segment_name (replicate 4400 7) 1000
      PSyncSegmentPublisher_new = Some (Inr (), self') \<and> PutSegment first \<in> set (sp_events self') \<and>
    (let fetcher = \<lambda>n. fetch_rounds demo_fetch_env (\<lambda>q. ims_find q (sp_storage self')) n
       (snd (fetch_onSegmentReceived demo_fetch_env (Interest_of_name False False demo_segment_name) first SegmentFetcher_new))
     in (\<forall>n x. FetchComplete x \<notin> set (sf_events (fetcher n))) \<and>
        (\<exists>n next. concat (map blob_bytes (sf_contentParts (fetcher n))) = replicate 4400 7 \<and>
           last (sf_events (fetcher n)) = ExpressSegment next \<and> ims_find (cc_target (i_name next)) (sp_storage self') = None))"
  by (rule full_segments_never_complete [OF demo_signs _ demo_segment_name])
    (simp_all add: demo_publisher_env_def demo_fetch_env_def DontVerifySegment_def maxPacketSize_def MAX_NDN_PACKET_SIZE_def)

theorem storage_remove_exact_witness:
  "ims_remove demo_segment_name
     [(Name_append (Component_generic (Some [66])) demo_segment_name, Data_new), (Name_of [Component_generic (Some [66])], Data_new)] =
   [(Name_of [Component_generic (Some [66])], Data_new)]"
proof -
  let ?a = "Name_append (Component_generic (Some [66])) demo_segment_name" and ?b = "Name_of [Component_generic (Some [66])]"
  have wf: "component_wf (Component_generic (Some bs))" for bs by (simp add: component_wf_def Component_generic_def)
  have small: "small_name ?a" "small_name ?b" "small_name demo_segment_name" by (simp_all add: small_name_def Name_size_def demo_segment_name_def Name_of_def)
  have comps: "n_components ?a = [Component_generic (Some [65]), Component_generic (Some [66])]" "n_components ?b = [Component_generic (Some [66])]"
    "n_components demo_segment_name = [Component_generic (Some [65])]" by (simp_all add: demo_segment_name_def Name_of_def)
  have "comps_compare [Component_generic (Some [65]), Component_generic (Some [66])] [Component_generic (Some [66])] < 0" by code_simp
  then have ok: "nm_ok [(?a, Data_new), (?b, Data_new)]" using small comps by (simp add: name_less_small)
  have match: "Name_match demo_segment_name ?a" "\<not> Name_match demo_segment_name ?b"
    by (simp_all add: Name_match_values name_values_def comps Component_generic_def)
  show ?thesis
    using storage_remove_exact [OF ok small(3)] wf comps match by (simp add: Name_size_def)
qed

end
