(* ===== verification/BloomTable.thy ===== *)
theory BloomTable
  imports NdnPrelude
begin

text \<open>
  The invertible Bloom lookup table with which PSync finds the difference of two sets of 32-bit keys
  (\<^verbatim>\<open>sync/detail/invertible-bloom-lookup-table.[ch]pp\<close>) and its hash function (\<^verbatim>\<open>contrib/murmur-hash/murmur-hash.c\<close>).
  Counts are 32-bit words (\<^verbatim>\<open>int32_t\<close>, where -1 is the largest word); zlib's functions are parameters.
\<close>

unbundle bit_operations_syntax

section \<open>The hash function\<close>

definition ROTL32 :: "u32 \<Rightarrow> nat \<Rightarrow> u32" where
  "ROTL32 x r = push_bit r x OR drop_bit (32 - r) x"

definition murmur_c1 :: u32 where "murmur_c1 = 0xcc9e2d51"
definition murmur_c2 :: u32 where "murmur_c2 = 0x1b873593"

text \<open>The 32-bit blocks of the input in the byte order of a little-endian machine, and the bytes after them.\<close>

fun murmur_blocks :: "bytes \<Rightarrow> u32 list \<times> bytes" where
  "murmur_blocks (a # b # c # d # bs) =
     (let (ks, tail) = murmur_blocks bs
      in ((ucast a OR push_bit 8 (ucast b) OR push_bit 16 (ucast c) OR push_bit 24 (ucast d)) # ks, tail))"
| "murmur_blocks bs = ([], bs)"

definition murmur_mix :: "u32 \<Rightarrow> u32" where
  "murmur_mix k = ROTL32 (k * murmur_c1) 15 * murmur_c2"

fun murmur_body :: "u32 list \<Rightarrow> u32 \<Rightarrow> u32" where
  "murmur_body [] h1 = h1"
| "murmur_body (k2 # ks) h1 = murmur_body ks (ROTL32 (h1 XOR murmur_mix k2) 13 * 5 + 0xe6546b64)"

text \<open>The cases of the \<^verbatim>\<open>switch\<close> fall through.\<close>

definition murmur_tail :: "bytes \<Rightarrow> u32 \<Rightarrow> u32" where
  "murmur_tail tail h1 =
     (let k1 = 0; n = length tail;
          k1 = (if n \<ge> 3 then k1 XOR push_bit 16 (ucast (tail ! 2)) else k1);
          k1 = (if n \<ge> 2 then k1 XOR push_bit 8 (ucast (tail ! 1)) else k1)
      in if n \<ge> 1 then h1 XOR murmur_mix (k1 XOR ucast (tail ! 0)) else h1)"

definition murmur_final :: "u32 \<Rightarrow> u32" where
  "murmur_final h1 =
     (let h1 = h1 XOR drop_bit 16 h1; h1 = h1 * 0x85ebca6b; h1 = h1 XOR drop_bit 13 h1; h1 = h1 * 0xc2b2ae35
      in h1 XOR drop_bit 16 h1)"

definition ndn_murmurHash3 :: "u32 \<Rightarrow> bytes \<Rightarrow> u32" where
  "ndn_murmurHash3 nHashSeed dataToHash =
     (let (blocks, tail) = murmur_blocks dataToHash
      in murmur_final (murmur_tail tail (murmur_body blocks nHashSeed) XOR of_nat (length dataToHash)))"

text \<open>The hash of a number is that of its four bytes in memory.\<close>

definition u32_bytes :: "u32 \<Rightarrow> bytes" where
  "u32_bytes v = map (\<lambda>i. ucast (drop_bit (8 * i) v)) [0, 1, 2, 3]"

definition murmurHash3_value :: "u32 \<Rightarrow> u32 \<Rightarrow> u32" where
  "murmurHash3_value nHashSeed value = ndn_murmurHash3 nHashSeed (u32_bytes value)"

section \<open>The table\<close>

record hash_table_entry =
  he_count :: u32
  he_keySum :: u32
  he_keyCheck :: u32

type_synonym iblt = "hash_table_entry list"

definition N_HASH :: nat where "N_HASH = 3"
definition N_HASHCHECK :: u32 where "N_HASHCHECK = 11"

definition empty_entry :: hash_table_entry where
  "empty_entry = \<lparr>he_count = 0, he_keySum = 0, he_keyCheck = 0\<rparr>"

definition iblt_new :: "size_t \<Rightarrow> iblt" where
  "iblt_new expectedNEntries =
     (let nEntries = expectedNEntries + expectedNEntries div 2; remainder = nEntries mod of_nat N_HASH;
          nEntries = (if remainder \<noteq> 0 then nEntries + (of_nat N_HASH - remainder) else nEntries)
      in replicate (unat nEntries) empty_entry)"

definition he_isPure :: "hash_table_entry \<Rightarrow> bool" where
  "he_isPure self \<longleftrightarrow>
     (if he_count self = 1 \<or> he_count self = - 1 then he_keyCheck self = murmurHash3_value N_HASHCHECK (he_keySum self) else False)"

definition he_isEmpty :: "hash_table_entry \<Rightarrow> bool" where
  "he_isEmpty self \<longleftrightarrow> he_count self = 0 \<and> he_keySum self = 0 \<and> he_keyCheck self = 0"

text \<open>One round of \<^verbatim>\<open>update\<close>; without buckets the remainder is a division by zero, which is undefined: None.\<close>

definition bucket_index :: "nat \<Rightarrow> u32 \<Rightarrow> nat \<Rightarrow> nat" where
  "bucket_index bucketsPerHash key i =
     i * bucketsPerHash + unat (murmurHash3_value (of_nat i) key) mod bucketsPerHash"

definition he_add :: "u32 \<Rightarrow> u32 \<Rightarrow> hash_table_entry \<Rightarrow> hash_table_entry" where
  "he_add plusOrMinus key entry =
     \<lparr>he_count = he_count entry + plusOrMinus, he_keySum = he_keySum entry XOR key,
      he_keyCheck = he_keyCheck entry XOR murmurHash3_value N_HASHCHECK key\<rparr>"

definition update_bucket :: "u32 \<Rightarrow> u32 \<Rightarrow> nat \<Rightarrow> iblt \<Rightarrow> iblt" where
  "update_bucket plusOrMinus key i self =
     (let j = bucket_index (length self div N_HASH) key i in self[j := he_add plusOrMinus key (self ! j)])"

definition iblt_update :: "u32 \<Rightarrow> u32 \<Rightarrow> iblt \<Rightarrow> iblt option" where
  "iblt_update plusOrMinus key self =
     (if length self div N_HASH = 0 then None else Some (fold (update_bucket plusOrMinus key) [0..<N_HASH] self))"

definition iblt_insert :: "u32 \<Rightarrow> iblt \<Rightarrow> iblt option" where "iblt_insert key = iblt_update 1 key"
definition iblt_erase :: "u32 \<Rightarrow> iblt \<Rightarrow> iblt option" where "iblt_erase key = iblt_update (- 1) key"

section \<open>Listing the entries\<close>

text \<open>The loop over the entries, which change while it runs, and the loop around it, which may not end.\<close>

fun peel_pass :: "nat list \<Rightarrow> iblt \<times> u32 set \<times> u32 set \<times> nat \<Rightarrow> (iblt \<times> u32 set \<times> u32 set \<times> nat) option" where
  "peel_pass [] s = Some s"
| "peel_pass (i # is) (peeled, positive, negative, nErased) =
     (let entry = peeled ! i in
      if he_isPure entry
      then let (positive, negative) =
                 (if he_count entry = 1 then (insert (he_keySum entry) positive, negative)
                  else (positive, insert (he_keySum entry) negative))
           in Option.bind (iblt_update (- he_count entry) (he_keySum entry) peeled)
                (\<lambda>peeled. peel_pass is (peeled, positive, negative, nErased + 1))
      else peel_pass is (peeled, positive, negative, nErased))"

partial_function (option) peel_loop :: "iblt \<times> u32 set \<times> u32 set \<Rightarrow> (iblt \<times> u32 set \<times> u32 set) option" where
  "peel_loop s =
     (case s of (peeled, positive, negative) \<Rightarrow>
        Option.bind (peel_pass [0..<length peeled] (peeled, positive, negative, 0))
          (\<lambda>(peeled, positive, negative, nErased).
             if nErased > 0 then peel_loop (peeled, positive, negative) else Some (peeled, positive, negative)))"

definition iblt_listEntries :: "iblt \<Rightarrow> (bool \<times> u32 set \<times> u32 set) option" where
  "iblt_listEntries self =
     Option.bind (peel_loop (self, {}, {})) (\<lambda>(peeled, positive, negative).
       Some (list_all he_isEmpty peeled, positive, negative))"

section \<open>Difference, comparison and encoding\<close>

definition he_difference :: "hash_table_entry \<Rightarrow> hash_table_entry \<Rightarrow> hash_table_entry" where
  "he_difference e1 e2 =
     \<lparr>he_count = he_count e1 - he_count e2, he_keySum = he_keySum e1 XOR he_keySum e2,
      he_keyCheck = he_keyCheck e1 XOR he_keyCheck e2\<rparr>"

definition iblt_difference :: "iblt \<Rightarrow> iblt \<Rightarrow> iblt result" where
  "iblt_difference self other =
     (if length self \<noteq> length other then Inl (RuntimeError (str ''IBLT difference: Both tables must be the same size''))
      else Inr (map2 he_difference self other))"

definition iblt_equals :: "iblt \<Rightarrow> iblt \<Rightarrow> bool" where
  "iblt_equals self other \<longleftrightarrow> length self = length other \<and>
     list_all2 (\<lambda>a b. he_count a = he_count b \<and> he_keySum a = he_keySum b \<and> he_keyCheck a = he_keyCheck b) self other"

definition iblt_encode :: "(bytes \<Rightarrow> bytes result) \<Rightarrow> iblt \<Rightarrow> bytes result" where
  "iblt_encode zlibCompress self =
     zlibCompress (concat (map (\<lambda>e. u32_bytes (he_count e) @ u32_bytes (he_keySum e) @ u32_bytes (he_keyCheck e)) self))"

fun iblt_values :: "bytes \<Rightarrow> u32 list" where
  "iblt_values (a # b # c # d # bs) =
     (push_bit 24 (ucast d) + push_bit 16 (ucast c) + push_bit 8 (ucast b) + ucast a) # iblt_values bs"
| "iblt_values bs = []"

definition iblt_decode :: "(bytes \<Rightarrow> bytes result) \<Rightarrow> bytes \<Rightarrow> u32 list result" where
  "iblt_decode zlibDecompress encoding = bindE (zlibDecompress encoding) (\<lambda>ibltValues. Inr (iblt_values ibltValues))"

definition set_entry :: "u32 list \<Rightarrow> nat \<Rightarrow> hash_table_entry \<Rightarrow> hash_table_entry" where
  "set_entry values i entry =
     (if values ! (i * 3) \<noteq> 0
      then \<lparr>he_count = values ! (i * 3), he_keySum = values ! (i * 3 + 1), he_keyCheck = values ! (i * 3 + 2)\<rparr>
      else entry)"

definition iblt_initialize :: "(bytes \<Rightarrow> bytes result) \<Rightarrow> bytes \<Rightarrow> iblt \<Rightarrow> iblt result" where
  "iblt_initialize zlibDecompress encoding self =
     bindE (iblt_decode zlibDecompress encoding) (\<lambda>values.
       if 3 * length self \<noteq> length values
       then Inl (RuntimeError (str ''The received Invertible Bloom Filter cannot be decoded''))
       else Inr (map (\<lambda>i. set_entry values i (self ! i)) [0..<length self]))"

section \<open>Updates\<close>

lemma he_eqI: "he_count a = he_count b \<Longrightarrow> he_keySum a = he_keySum b \<Longrightarrow> he_keyCheck a = he_keyCheck b \<Longrightarrow> a = (b :: hash_table_entry)"
  by (cases a; cases b) simp

text \<open>The buckets of a key, one in each third of the table.\<close>

definition buckets :: "nat \<Rightarrow> u32 \<Rightarrow> nat set" where
  "buckets n key = bucket_index (n div N_HASH) key ` {0, 1, 2}"

abbreviation usable :: "nat \<Rightarrow> bool" where "usable n \<equiv> n div N_HASH \<noteq> 0"

lemma bucket_index_bounds:
  assumes "b \<noteq> 0"
  shows "i * b \<le> bucket_index b key i" "bucket_index b key i < Suc i * b"
  using assms by (simp_all add: bucket_index_def)

lemma bucket_index_distinct:
  assumes "b \<noteq> 0"
  shows "bucket_index b key 0 < bucket_index b key 1" "bucket_index b key 1 < bucket_index b key 2"
    "bucket_index b key 2 < 3 * b" "bucket_index b key 0 < b" "b \<le> bucket_index b key 1"
  using bucket_index_bounds [OF assms, where i = 0 and key = key] bucket_index_bounds [OF assms, where i = 1 and key = key]
    bucket_index_bounds [OF assms, where i = 2 and key = key]
  by simp_all

definition updated :: "u32 \<Rightarrow> u32 \<Rightarrow> iblt \<Rightarrow> iblt" where
  "updated s key t = fold (update_bucket s key) [0..<N_HASH] t"

lemma iblt_update: "usable (length t) \<Longrightarrow> iblt_update s key t = Some (updated s key t)"
  by (simp add: iblt_update_def updated_def)

lemma updated: "updated s key t = update_bucket s key 2 (update_bucket s key 1 (update_bucket s key 0 t))"
proof -
  have "[0..<3] = [0, 1, 2 :: nat]" by (simp add: upt_rec)
  then show ?thesis by (simp add: updated_def N_HASH_def)
qed

lemma length_update_bucket [simp]: "length (update_bucket s key i t) = length t"
  by (simp add: update_bucket_def Let_def)

lemma length_updated [simp]: "length (updated s key t) = length t"
  by (simp add: updated)

lemma nth_update_bucket:
  "j < length t \<Longrightarrow> update_bucket s key i t ! j =
     (if j = bucket_index (length t div N_HASH) key i then he_add s key (t ! j) else t ! j)"
  by (simp add: update_bucket_def Let_def nth_list_update)

lemma nth_updated:
  assumes "usable (length t)" and "j < length t"
  shows "updated s key t ! j = (if j \<in> buckets (length t) key then he_add s key (t ! j) else t ! j)"
proof -
  note d = bucket_index_distinct [OF assms(1), of key]
  have "j \<in> buckets (length t) key \<longleftrightarrow> j = bucket_index (length t div N_HASH) key 0 \<or>
      j = bucket_index (length t div N_HASH) key 1 \<or> j = bucket_index (length t div N_HASH) key 2"
    by (auto simp: buckets_def)
  with d assms(2) show ?thesis by (auto simp: updated nth_update_bucket simp del: One_nat_def)
qed

lemma he_add_commute: "he_add s k (he_add s' k' e) = he_add s' k' (he_add s k e)"
  by (intro he_eqI) (simp_all add: he_add_def ac_simps)

lemma he_add_cancel: "s + s' = 0 \<Longrightarrow> he_add s k (he_add s' k e) = e"
  by (intro he_eqI) (simp_all add: he_add_def ac_simps bit.xor_self flip: xor.assoc add.assoc)

lemma updated_commute: "usable (length t) \<Longrightarrow> updated s k (updated s' k' t) = updated s' k' (updated s k t)"
  by (rule nth_equalityI) (simp_all add: nth_updated he_add_commute)

lemma updated_cancel: "usable (length t) \<Longrightarrow> s + s' = 0 \<Longrightarrow> updated s k (updated s' k t) = t"
  by (rule nth_equalityI) (simp_all add: nth_updated he_add_cancel)

section \<open>Tables of signed keys\<close>

definition apply_keys :: "(u32 \<times> u32) list \<Rightarrow> iblt \<Rightarrow> iblt" where
  "apply_keys ds t = fold (\<lambda>(s, k). updated s k) ds t"

lemma apply_keys_simps [simp]:
  "apply_keys [] t = t" "apply_keys ((s, k) # ds) t = apply_keys ds (updated s k t)"
  "apply_keys (ds @ ds') t = apply_keys ds' (apply_keys ds t)"
  by (simp_all add: apply_keys_def)

lemma length_apply_keys [simp]: "length (apply_keys ds t) = length t"
  by (induction ds arbitrary: t) auto

lemma apply_keys_updated: "usable (length t) \<Longrightarrow> apply_keys ds (updated s k t) = updated s k (apply_keys ds t)"
proof (induction ds arbitrary: t)
  case (Cons d ds)
  then show ?case by (cases d) (simp add: updated_commute [of t _ _ s k] Cons.IH del: neq0_conv)
qed simp

lemma apply_keys_remove1:
  "usable (length t) \<Longrightarrow> (s, k) \<in> set ds \<Longrightarrow> apply_keys ds t = updated s k (apply_keys (remove1 (s, k) ds) t)"
proof (induction ds arbitrary: t)
  case (Cons d ds)
  then show ?case by (cases d) (auto simp: apply_keys_updated updated_commute [of _ s k])
qed simp

lemma apply_keys_cancel:
  "usable (length t) \<Longrightarrow> (s, k) \<in> set ds \<Longrightarrow> updated (- s) k (apply_keys ds t) = apply_keys (remove1 (s, k) ds) t"
  by (simp add: apply_keys_remove1 updated_cancel)

abbreviation empty_table :: "nat \<Rightarrow> iblt" where "empty_table n \<equiv> replicate n empty_entry"

text \<open>The difference of two tables has the keys of the one, and those of the other with the other sign.\<close>

lemma difference_updated:
  assumes "usable (length a)" and "length b = length a"
  shows "map2 he_difference a (updated s k b) = updated (- s) k (map2 he_difference a b)"
proof (rule nth_equalityI)
  fix j
  assume "j < length (map2 he_difference a (updated s k b))"
  with assms have "j < length a" by simp
  moreover have "he_difference e (he_add s k e') = he_add (- s) k (he_difference e e')" for e e'
    by (intro he_eqI) (simp_all add: he_difference_def he_add_def ac_simps)
  ultimately show "map2 he_difference a (updated s k b) ! j = updated (- s) k (map2 he_difference a b) ! j"
    using assms by (simp add: nth_updated)
qed (use assms in simp)

lemma difference_apply_keys:
  assumes "usable (length a)" and "length b = length a"
  shows "map2 he_difference a (apply_keys ds b) = apply_keys (map (\<lambda>(s, k). (- s, k)) ds) (map2 he_difference a b)"
  using assms(2) by (induction ds arbitrary: b) (auto simp: difference_updated assms(1))

lemma difference_empty_table: "length a = n \<Longrightarrow> map2 he_difference a (empty_table n) = a"
  by (rule nth_equalityI) (auto simp: he_difference_def empty_entry_def intro!: he_eqI)

definition signed_difference :: "u32 set \<Rightarrow> u32 set \<Rightarrow> (u32 \<times> u32) set" where
  "signed_difference own other = Pair 1 ` (own - other) \<union> Pair (- 1) ` (other - own)"

lemma signed_difference_iff [simp]:
  "(1, k) \<in> signed_difference own other \<longleftrightarrow> k \<in> own \<and> k \<notin> other"
  "(- 1, k) \<in> signed_difference own other \<longleftrightarrow> k \<in> other \<and> k \<notin> own"
  by (auto simp: signed_difference_def)

lemma signed_difference_cases:
  "(s, k) \<in> signed_difference own other \<Longrightarrow> s = 1 \<and> k \<in> own - other \<or> s = - 1 \<and> k \<in> other - own"
  by (auto simp: signed_difference_def)

lemma signed_difference_insert:
  "y \<in> own \<Longrightarrow> y \<notin> other \<Longrightarrow> signed_difference own (insert y other) = signed_difference own other - {(1, y)}"
  "y \<notin> own \<Longrightarrow> signed_difference own (insert y other) = insert (- 1, y) (signed_difference own other)"
  by (auto simp: signed_difference_def)

lemma difference_keys:
  assumes n: "usable n" and "distinct xs" and "distinct ys"
  shows "\<exists>ds. distinct ds \<and> set ds = signed_difference (set xs) (set ys) \<and>
     map2 he_difference (apply_keys (map (Pair 1) xs) (empty_table n)) (apply_keys (map (Pair 1) ys) (empty_table n)) =
     apply_keys ds (empty_table n)"
  using assms(3)
proof (induction ys rule: rev_induct)
  case Nil
  have "distinct (map (Pair (1 :: u32)) xs)" using assms(2) by (simp add: distinct_map inj_on_def)
  then show ?case
    by (intro exI [of _ "map (Pair 1) xs"]) (simp add: difference_empty_table signed_difference_def)
next
  case (snoc y ys)
  then obtain ds where ds: "distinct ds" "set ds = signed_difference (set xs) (set ys)"
    "map2 he_difference (apply_keys (map (Pair 1) xs) (empty_table n)) (apply_keys (map (Pair 1) ys) (empty_table n)) =
     apply_keys ds (empty_table n)" and y: "y \<notin> set ys" by auto
  have diff: "map2 he_difference (apply_keys (map (Pair 1) xs) (empty_table n)) (apply_keys (map (Pair 1) (ys @ [y])) (empty_table n)) =
      updated (- 1) y (apply_keys ds (empty_table n))"
    using n by (simp add: difference_updated ds(3))
  show ?case
  proof (cases "y \<in> set xs")
    case True
    then have "(1, y) \<in> set ds" using ds(2) y by simp
    moreover have "set (remove1 (1, y) ds) = signed_difference (set xs) (set (ys @ [y]))"
      using ds(1,2) y True by (simp add: signed_difference_insert set_remove1_eq)
    ultimately show ?thesis
      using ds(1) n unfolding diff by (intro exI [of _ "remove1 (1, y) ds"]) (simp add: apply_keys_cancel)
  next
    case False
    have "set (ds @ [(- 1, y)]) = signed_difference (set xs) (set (ys @ [y]))"
      using ds(2) y False by (simp add: signed_difference_insert)
    moreover have "(- 1, y) \<notin> set ds" using ds(2) y by simp
    ultimately show ?thesis
      using ds(1) unfolding diff by (intro exI [of _ "ds @ [(- 1, y)]"]) simp
  qed
qed

section \<open>Peeling\<close>

text \<open>
  The sums of a table can by accident look like those of a single key or of none.  A set of signed keys has no such collision when in
  the table of each of its subsets a pure entry shows a key of the subset, and only the empty subset has an empty table.
\<close>

definition no_collision :: "nat \<Rightarrow> (u32 \<times> u32) set \<Rightarrow> bool" where
  "no_collision n D \<longleftrightarrow>
     (\<forall>ds. distinct ds \<and> set ds \<subseteq> D \<longrightarrow>
       (\<forall>e \<in> set (apply_keys ds (empty_table n)). he_isPure e \<longrightarrow> (he_count e, he_keySum e) \<in> set ds) \<and>
       (list_all he_isEmpty (apply_keys ds (empty_table n)) \<longrightarrow> ds = []))"

lemma no_collisionD:
  assumes "no_collision n D" and "distinct ds" and "set ds \<subseteq> D"
  shows "i < n \<Longrightarrow> he_isPure (apply_keys ds (empty_table n) ! i) \<Longrightarrow>
      (he_count (apply_keys ds (empty_table n) ! i), he_keySum (apply_keys ds (empty_table n) ! i)) \<in> set ds"
    and "list_all he_isEmpty (apply_keys ds (empty_table n)) \<Longrightarrow> ds = []"
  using assms unfolding no_collision_def by (metis length_apply_keys length_replicate nth_mem)+

text \<open>The keys listed so far are those that are no longer in the table.\<close>

definition peeling :: "(u32 \<times> u32) set \<Rightarrow> (u32 \<times> u32) list \<Rightarrow> u32 set \<Rightarrow> u32 set \<Rightarrow> bool" where
  "peeling D ds positive negative \<longleftrightarrow> distinct ds \<and> set ds \<subseteq> D \<and>
     positive = {k. (1, k) \<in> D - set ds} \<and> negative = {k. (- 1, k) \<in> D - set ds}"

lemma peeling_remove:
  assumes "peeling D ds positive negative" and "(s, k) \<in> set ds" and "s = 1 \<or> s = - 1"
  shows "peeling D (remove1 (s, k) ds) (if s = 1 then insert k positive else positive)
     (if s = 1 then negative else insert k negative)"
  using assms by (auto simp: peeling_def)

lemma peel_pass_sound:
  assumes n: "usable n" and honest: "no_collision n D"
  shows "peeling D ds pos neg \<Longrightarrow> set is \<subseteq> {..<n} \<Longrightarrow>
    \<exists>ds' pos' neg'. peel_pass is (apply_keys ds (empty_table n), pos, neg, e) =
        Some (apply_keys ds' (empty_table n), pos', neg', e + (length ds - length ds')) \<and>
      peeling D ds' pos' neg' \<and> length ds' \<le> length ds"
proof (induction "is" arbitrary: ds pos neg e)
  case (Cons i "is")
  let ?t = "apply_keys ds (empty_table n)"
  show ?case
  proof (cases "he_isPure (?t ! i)")
    case True
    let ?s = "he_count (?t ! i)" and ?k = "he_keySum (?t ! i)"
    have mem: "(?s, ?k) \<in> set ds"
      using no_collisionD(1) [OF honest] Cons.prems True by (simp add: peeling_def)
    have s: "?s = 1 \<or> ?s = - 1" using True by (simp add: he_isPure_def split: if_splits)
    have upd: "iblt_update (- ?s) ?k ?t = Some (apply_keys (remove1 (?s, ?k) ds) (empty_table n))"
      using n mem by (simp add: iblt_update apply_keys_cancel)
    have len: "length (remove1 (?s, ?k) ds) = length ds - 1" "0 < length ds"
      using mem by (auto simp: length_remove1)
    from Cons.IH [OF peeling_remove [OF Cons.prems(1) mem s], of "e + 1"] Cons.prems(2)
    obtain ds' pos' neg' where
      "peel_pass is (apply_keys (remove1 (?s, ?k) ds) (empty_table n), if ?s = 1 then insert ?k pos else pos,
          if ?s = 1 then neg else insert ?k neg, e + 1) =
         Some (apply_keys ds' (empty_table n), pos', neg', e + 1 + (length (remove1 (?s, ?k) ds) - length ds'))"
      "peeling D ds' pos' neg'" "length ds' \<le> length (remove1 (?s, ?k) ds)" by auto
    moreover have "e + 1 + (x - length ds') = e + (length ds - length ds')" if "x = length ds - 1" "length ds' \<le> x" for x
      using that len(2) by linarith
    ultimately have "peel_pass is (apply_keys (remove1 (?s, ?k) ds) (empty_table n), if ?s = 1 then insert ?k pos else pos,
          if ?s = 1 then neg else insert ?k neg, e + 1) =
         Some (apply_keys ds' (empty_table n), pos', neg', e + (length ds - length ds'))"
      "peeling D ds' pos' neg'" "length ds' \<le> length ds" using len(1) by auto
    then show ?thesis
      using True upd by (intro exI [of _ ds'] exI [of _ pos'] exI [of _ neg']) (auto simp: Let_def split: if_splits)
  next
    case False
    with Cons.IH [OF Cons.prems(1), of e] Cons.prems(2) show ?thesis by simp
  qed
qed auto

lemma peel_loop_sound:
  assumes n: "usable n" and honest: "no_collision n D"
  shows "peeling D ds pos neg \<Longrightarrow>
    \<exists>ds' pos' neg'. peel_loop (apply_keys ds (empty_table n), pos, neg) = Some (apply_keys ds' (empty_table n), pos', neg') \<and>
      peeling D ds' pos' neg'"
proof (induction "length ds" arbitrary: ds pos neg rule: less_induct)
  case less
  obtain ds' pos' neg' where pass: "peel_pass [0..<n] (apply_keys ds (empty_table n), pos, neg, 0) =
      Some (apply_keys ds' (empty_table n), pos', neg', length ds - length ds')"
    and ds': "peeling D ds' pos' neg'" "length ds' \<le> length ds"
    using peel_pass_sound [OF n honest less.prems, of "[0..<n]" 0] by (auto simp: atLeast0LessThan)
  show ?case
  proof (cases "length ds' < length ds")
    case True
    with less.hyps [OF True ds'(1)] pass show ?thesis by (subst peel_loop.simps) simp
  next
    case False
    with ds' pass show ?thesis by (subst peel_loop.simps) auto
  qed
qed

section \<open>Listing a difference\<close>

definition insert_keys :: "u32 list \<Rightarrow> iblt \<Rightarrow> iblt option" where
  "insert_keys keys t = fold (\<lambda>key t. Option.bind t (iblt_insert key)) keys (Some t)"

lemma insert_keys: "usable (length t) \<Longrightarrow> insert_keys keys t = Some (apply_keys (map (Pair 1) keys) t)"
proof (induction keys arbitrary: t)
  case (Cons k keys)
  have "usable (length (updated 1 k t))" using Cons.prems by simp
  from Cons.IH [OF this] Cons.prems show ?case by (simp add: insert_keys_def iblt_insert_def iblt_update)
qed (simp add: insert_keys_def)

lemma list_difference:
  assumes "usable n" and "distinct xs" and "distinct ys" and "no_collision n (signed_difference (set xs) (set ys))"
  shows "\<exists>listed positive negative.
    iblt_listEntries (map2 he_difference (apply_keys (map (Pair 1) xs) (empty_table n)) (apply_keys (map (Pair 1) ys) (empty_table n))) =
      Some (listed, positive, negative) \<and>
    positive \<subseteq> set xs - set ys \<and> negative \<subseteq> set ys - set xs \<and>
    (listed \<longleftrightarrow> positive = set xs - set ys \<and> negative = set ys - set xs)"
proof -
  let ?D = "signed_difference (set xs) (set ys)"
  obtain ds where ds: "distinct ds" "set ds = ?D"
    "map2 he_difference (apply_keys (map (Pair 1) xs) (empty_table n)) (apply_keys (map (Pair 1) ys) (empty_table n)) =
     apply_keys ds (empty_table n)" using difference_keys [OF assms(1-3)] by blast
  have "peeling ?D ds {} {}" using ds(1,2) by (simp add: peeling_def)
  from peel_loop_sound [OF assms(1,4) this] obtain ds' pos neg where
    loop: "peel_loop (apply_keys ds (empty_table n), {}, {}) = Some (apply_keys ds' (empty_table n), pos, neg)"
    and p: "peeling ?D ds' pos neg" by blast
  have empty: "list_all he_isEmpty (apply_keys ds' (empty_table n)) \<longleftrightarrow> ds' = []"
    using no_collisionD(2) [OF assms(4), of ds'] p
    by (auto simp: peeling_def list_all_length he_isEmpty_def empty_entry_def)
  have "ds' = [] \<longleftrightarrow> pos = set xs - set ys \<and> neg = set ys - set xs"
  proof
    assume eq: "pos = set xs - set ys \<and> neg = set ys - set xs"
    have "(s, k) \<notin> set ds'" for s k
      using eq p signed_difference_cases [of s k "set xs" "set ys"] by (auto simp: peeling_def)
    then show "ds' = []" by (cases ds') auto
  qed (use p in \<open>auto simp: peeling_def\<close>)
  moreover have "pos \<subseteq> set xs - set ys" "neg \<subseteq> set ys - set xs" using p by (auto simp: peeling_def)
  ultimately show ?thesis using loop empty by (simp add: ds(3) iblt_listEntries_def)
qed


text \<open>A difference of a single key has no collision, and it is always listed.\<close>

lemma single_table:
  assumes "usable n" and "i < n" and "s \<noteq> 0"
  shows "apply_keys [(s, k)] (empty_table n) ! i =
    (if i \<in> buckets n k then \<lparr>he_count = s, he_keySum = k, he_keyCheck = murmurHash3_value N_HASHCHECK k\<rparr> else empty_entry)"
  using assms by (simp add: nth_updated he_add_def empty_entry_def)

lemma buckets_below: "usable n \<Longrightarrow> buckets n k \<subseteq> {..<n}" and buckets_nonempty: "buckets n k \<noteq> {}"
proof -
  show "buckets n k \<noteq> {}" by (simp add: buckets_def)
  assume n: "usable n"
  have "3 * (n div N_HASH) \<le> n" by (simp add: N_HASH_def)
  with bucket_index_distinct [OF n, of k] show "buckets n k \<subseteq> {..<n}" by (auto simp: buckets_def)
qed

lemma single_no_collision:
  assumes n: "usable n" and s: "s = 1 \<or> s = - 1"
  shows "no_collision n {(s, k)}"
proof -
  have cases: "ds = [] \<or> ds = [(s, k)]" if "distinct ds" "set ds \<subseteq> {(s, k)}" for ds
    using that by (cases ds; cases "tl ds") auto
  have entry: "e = empty_entry \<or> he_count e = s \<and> he_keySum e = k" if "e \<in> set (apply_keys [(s, k)] (empty_table n))" for e
    using that single_table [OF n, of _ s k] s by (fastforce simp: in_set_conv_nth)
  obtain i where i: "i \<in> buckets n k" "i < n" using buckets_below [OF n] buckets_nonempty by blast
  then have "apply_keys [(s, k)] (empty_table n) ! i = \<lparr>he_count = s, he_keySum = k, he_keyCheck = murmurHash3_value N_HASHCHECK k\<rparr>"
    using single_table [OF n, of i s k] s by auto
  with i have "\<not> list_all he_isEmpty (apply_keys [(s, k)] (empty_table n))"
    using s by (auto simp: list_all_length he_isEmpty_def)
  then have full: "list_all he_isEmpty (apply_keys ds (empty_table n)) \<Longrightarrow> ds \<noteq> [(s, k)]" for ds by blast
  have "(he_count e, he_keySum e) \<in> set ds"
    if "ds = [] \<or> ds = [(s, k)]" "e \<in> set (apply_keys ds (empty_table n))" "he_isPure e" for ds e
  proof -
    have "e \<noteq> empty_entry" using that(3) by (auto simp: he_isPure_def empty_entry_def)
    moreover have "e = empty_entry" if "ds = []" using that \<open>e \<in> set (apply_keys ds (empty_table n))\<close> by simp
    ultimately show ?thesis using that(1,2) entry [of e] by (metis list.set_intros(1))
  qed
  with full cases show ?thesis unfolding no_collision_def by metis
qed


section \<open>A table that is never listed\<close>

text \<open>
  A received table may have a key in a bucket where \<^verbatim>\<open>update\<close> does not put it.  Peeling then moves the key to its three
  buckets, with the other sign, and from there back, without end.
\<close>

lemma peel_pass_append:
  "peel_pass (is @ js) s = Option.bind (peel_pass is s) (peel_pass js)"
proof (induction "is" arbitrary: s)
  case (Cons i "is")
  obtain t pos neg e where s: "s = (t, pos, neg, e)" by (cases s)
  show ?case by (simp add: s Cons.IH Let_def split: prod.split Option.bind_split)
qed simp

lemma peel_pass_nothing:
  "\<forall>i \<in> set is. \<not> he_isPure (t ! i) \<Longrightarrow> peel_pass is (t, pos, neg, e) = Some (t, pos, neg, e)"
  by (induction "is") auto

definition misplaced :: "nat \<Rightarrow> nat \<Rightarrow> u32 \<Rightarrow> iblt" where
  "misplaced n j k =
     (empty_table n)[j := \<lparr>he_count = 1, he_keySum = k, he_keyCheck = murmurHash3_value N_HASHCHECK k\<rparr>]"

lemma misplaced_pure: "i < n \<Longrightarrow> j < n \<Longrightarrow> he_isPure (misplaced n j k ! i) \<longleftrightarrow> i = j"
  by (auto simp: misplaced_def nth_list_update he_isPure_def empty_entry_def)

lemma moved_entry:
  assumes "usable n" and "i < n" and "j < n" and "j \<notin> buckets n k"
  shows "updated (- 1) k (misplaced n j k) ! i =
     (if i \<in> buckets n k then \<lparr>he_count = - 1, he_keySum = k, he_keyCheck = murmurHash3_value N_HASHCHECK k\<rparr>
      else misplaced n j k ! i)"
  using assms by (auto simp: nth_updated misplaced_def nth_list_update he_add_def empty_entry_def)

lemma peel_pass_cycle:
  assumes n: "usable n" and j: "j < n div N_HASH" "j \<notin> buckets n k"
  shows "\<exists>pos' neg'. peel_pass [0..<n] (misplaced n j k, pos, neg, 0) = Some (misplaced n j k, pos', neg', 2)"
proof -
  have jn: "j < n" using j(1) by (simp add: N_HASH_def)
  define m where "m = (LEAST m. j < m \<and> m \<in> buckets n k)"
  have "j < bucket_index (n div N_HASH) k 1" "bucket_index (n div N_HASH) k 1 \<in> buckets n k"
    using bucket_index_distinct(5) [OF n, of k] j(1) by (auto simp: buckets_def)
  then have m: "j < m" "m \<in> buckets n k" and least: "\<And>i. j < i \<Longrightarrow> i < m \<Longrightarrow> i \<notin> buckets n k"
    unfolding m_def by (metis (mono_tags, lifting) LeastI not_less_Least)+
  have mn: "m < n" using m(2) buckets_below [OF n] by auto
  let ?t = "misplaced n j k" and ?t' = "updated (- 1) k (misplaced n j k)"
  have split: "[0..<n] = [0..<j] @ [j] @ [Suc j..<m] @ [m] @ [Suc m..<n]"
    using m(1) mn jn upt_add_eq_append [of 0 j "n - j"] upt_add_eq_append [of "Suc j" m "n - m"]
    by (simp add: upt_conv_Cons)
  have len: "length ?t = n" by (simp add: misplaced_def)
  have entry: "?t ! j = \<lparr>he_count = 1, he_keySum = k, he_keyCheck = murmurHash3_value N_HASHCHECK k\<rparr>"
    using jn by (simp add: misplaced_def)
  have entry': "?t' ! m = \<lparr>he_count = - 1, he_keySum = k, he_keyCheck = murmurHash3_value N_HASHCHECK k\<rparr>"
    using moved_entry [OF n mn jn j(2)] m(2) by simp
  have cleared: "updated 1 k ?t' = ?t" using n len by (simp add: updated_cancel)
  have 1: "peel_pass [0..<j] (?t, pos, neg, 0) = Some (?t, pos, neg, 0)"
    using jn by (intro peel_pass_nothing) (auto simp: misplaced_pure)
  have 2: "peel_pass [j] (?t, pos, neg, 0) = Some (?t', insert k pos, neg, 1)"
    using n len by (simp add: entry he_isPure_def iblt_update)
  have 3: "peel_pass [Suc j..<m] (?t', insert k pos, neg, 1) = Some (?t', insert k pos, neg, 1)"
    using mn jn least j(2) by (intro peel_pass_nothing) (auto simp: moved_entry [OF n] misplaced_pure)
  have 4: "peel_pass [m] (?t', insert k pos, neg, 1) = Some (?t, insert k pos, insert k neg, 2)"
    using n len cleared by (simp add: entry' he_isPure_def iblt_update)
  have 5: "peel_pass [Suc m..<n] (?t, insert k pos, insert k neg, 2) = Some (?t, insert k pos, insert k neg, 2)"
    using jn m(1) by (intro peel_pass_nothing) (auto simp: misplaced_pure)
  show ?thesis unfolding split peel_pass_append 1 2 3 4 5 Option.bind.simps by blast
qed

lemma peel_loop_cycle:
  assumes "usable n" and "j < n div N_HASH" and "j \<notin> buckets n k"
  shows "peel_loop (misplaced n j k, pos, neg) = None"
proof (cases "peel_loop (misplaced n j k, pos, neg)")
  case (Some y)
  have "fst s \<noteq> misplaced n j k" if "peel_loop s = Some r" for s r
  proof (rule peel_loop.raw_induct [where P = "\<lambda>s r. fst s \<noteq> misplaced n j k", OF _ that])
    fix f s r
    assume IH: "\<And>s r. f s = Some r \<Longrightarrow> fst s \<noteq> misplaced n j k"
      and step: "(case s of (peeled, positive, negative) \<Rightarrow>
        Option.bind (peel_pass [0..<length peeled] (peeled, positive, negative, 0))
          (\<lambda>(peeled, positive, negative, nErased).
             if nErased > 0 then f (peeled, positive, negative) else Some (peeled, positive, negative))) = Some r"
    show "fst s \<noteq> misplaced n j k"
    proof
      assume "fst s = misplaced n j k"
      then obtain pos neg where s: "s = (misplaced n j k, pos, neg)" by (cases s) auto
      have len: "length (misplaced n j k) = n" by (simp add: misplaced_def)
      obtain pos' neg' where "peel_pass [0..<n] (misplaced n j k, pos, neg, 0) = Some (misplaced n j k, pos', neg', 2)"
        using peel_pass_cycle [OF assms] by blast
      with step len have "f (misplaced n j k, pos', neg') = Some r" by (simp add: s)
      from IH [OF this] show False by simp
    qed
  qed
  from this [OF Some] show ?thesis by simp
qed simp

text \<open>A table with a single key is listed, wherever its buckets are.\<close>

lemma single_key_listed:
  assumes n: "usable n"
  shows "iblt_listEntries (apply_keys [(1, k)] (empty_table n)) = Some (True, {k}, {})"
proof -
  let ?t = "apply_keys [(1, k)] (empty_table n)"
  define m where "m = (LEAST m. m \<in> buckets n k)"
  have m: "m \<in> buckets n k" and least: "\<And>i. i < m \<Longrightarrow> i \<notin> buckets n k"
    unfolding m_def using buckets_nonempty [of n k] by (auto intro: LeastI dest: not_less_Least)
  then have mn: "m < n" using buckets_below [OF n] by auto
  have split: "[0..<n] = [0..<m] @ [m] @ [Suc m..<n]"
    using mn upt_add_eq_append [of 0 m "n - m"] by (simp add: upt_conv_Cons)
  have empty: "\<not> he_isPure (empty_table n ! i)" if "i < n" for i using that by (simp add: he_isPure_def empty_entry_def)
  have entry: "?t ! m = \<lparr>he_count = 1, he_keySum = k, he_keyCheck = murmurHash3_value N_HASHCHECK k\<rparr>"
    using single_table [OF n mn, of 1 k] m by simp
  have 1: "peel_pass [0..<m] (?t, {}, {}, 0) = Some (?t, {}, {}, 0)"
    using mn least single_table [OF n, of _ 1 k] by (intro peel_pass_nothing) (auto simp: he_isPure_def empty_entry_def)
  have "updated (- 1) k ?t = empty_table n" using n by (simp add: updated_cancel)
  then have 2: "peel_pass [m] (?t, {}, {}, 0) = Some (empty_table n, {k}, {}, 1)"
    using n entry by (simp add: he_isPure_def iblt_update)
  have 3: "peel_pass is (empty_table n, {k}, {}, e) = Some (empty_table n, {k}, {}, e)" if "set is \<subseteq> {..<n}" for "is" e
    using empty that by (intro peel_pass_nothing) auto
  have pass: "peel_pass [0..<n] (?t, {}, {}, 0) = Some (empty_table n, {k}, {}, 1)"
    unfolding split peel_pass_append 1 2 Option.bind.simps by (rule 3) auto
  have "peel_loop (empty_table n, {k}, {}) = Some (empty_table n, {k}, {})"
    by (subst peel_loop.simps) (simp add: 3 atLeast0LessThan)
  then have "peel_loop (?t, {}, {}) = Some (empty_table n, {k}, {})"
    using pass by (subst peel_loop.simps) simp
  then show ?thesis by (simp add: iblt_listEntries_def list_all_iff he_isEmpty_def empty_entry_def)
qed

text \<open>
  C34. One received entry can stop a participant for ever: the count -1 with any key and its check value, in a bucket of the first third
  that is not the key's own.  Listing the difference from an empty table does not return.
\<close>

theorem iblt_listing_may_not_return:
  assumes "length (iblt_new e) = n" and "j < n div N_HASH" and "j \<noteq> bucket_index (n div N_HASH) k 0"
  shows "\<exists>diff. iblt_difference (iblt_new e)
      ((iblt_new e)[j := \<lparr>he_count = - 1, he_keySum = k, he_keyCheck = murmurHash3_value N_HASHCHECK k\<rparr>]) = Inr diff \<and>
    iblt_listEntries diff = None"
proof -
  have n: "usable n" using assms(2) by auto
  have new: "iblt_new e = empty_table n" using assms(1) by (auto simp: iblt_new_def Let_def)
  have "j \<notin> buckets n k"
    using assms(2,3) bucket_index_distinct(2,5) [OF n, of k] by (auto simp: buckets_def)
  from peel_loop_cycle [OF n assms(2) this] have "iblt_listEntries (misplaced n j k) = None" by (simp add: iblt_listEntries_def)
  moreover have "map2 he_difference (empty_table n)
      ((empty_table n)[j := \<lparr>he_count = - 1, he_keySum = k, he_keyCheck = murmurHash3_value N_HASHCHECK k\<rparr>]) = misplaced n j k"
  proof (rule nth_equalityI)
    fix i
    assume "i < length (map2 he_difference (empty_table n)
      ((empty_table n)[j := \<lparr>he_count = - 1, he_keySum = k, he_keyCheck = murmurHash3_value N_HASHCHECK k\<rparr>]))"
    then show "map2 he_difference (empty_table n)
      ((empty_table n)[j := \<lparr>he_count = - 1, he_keySum = k, he_keyCheck = murmurHash3_value N_HASHCHECK k\<rparr>]) ! i = misplaced n j k ! i"
      by (cases "i = j") (auto simp: misplaced_def he_difference_def empty_entry_def)
  qed (simp add: misplaced_def)
  ultimately show ?thesis by (simp add: new iblt_difference_def)
qed

theorem iblt_listing_may_not_return_witness:
  "\<exists>received diff. length received = 6 \<and> iblt_difference (iblt_new 4) received = Inr diff \<and> iblt_listEntries diff = None"
proof -
  have n: "length (iblt_new 4) = 6" by code_simp
  define j where "j = 1 - bucket_index 2 7 0"
  have "bucket_index 2 7 0 < 2" using bucket_index_distinct(4) [of 2 7] by simp
  then consider "bucket_index 2 7 0 = 0" | "bucket_index 2 7 0 = 1" by linarith
  then have "j < 6 div N_HASH" "j \<noteq> bucket_index (6 div N_HASH) 7 0" by (cases; simp add: N_HASH_def j_def)+
  from iblt_listing_may_not_return [OF n this] n show ?thesis by (metis length_list_update)
qed

section \<open>Encoding\<close>

lemma iblt_values_append: "iblt_values (u32_bytes v @ bs) = v # iblt_values bs"
proof -
  have "push_bit 24 (ucast (ucast (drop_bit 24 v) :: byte)) + push_bit 16 (ucast (ucast (drop_bit 16 v) :: byte)) +
      push_bit 8 (ucast (ucast (drop_bit 8 v) :: byte)) + ucast (ucast v :: byte) = v"
  proof -
    let ?b = "\<lambda>i. push_bit i (ucast (ucast (drop_bit i v) :: byte)) :: u32"
    have b: "bit (?b i) m \<longleftrightarrow> i \<le> m \<and> m < i + 8 \<and> bit v m" for i m
      by (auto simp: bit_simps dest: bit_imp_le_length)
    have "?b 24 + ?b 16 + ?b 8 + ucast (ucast v :: byte) = ?b 24 OR ?b 16 OR ?b 8 OR ?b 0"
      by (subst disjunctive_add, (auto simp: b bit_simps)[1])+ (simp add: or.assoc)
    also have "\<dots> = v" by (rule bit_eqI) (simp only: bit_or_iff b, auto dest: bit_imp_le_length)
    finally show ?thesis by simp
  qed
  then show ?thesis by (simp add: u32_bytes_def)
qed

lemma iblt_values_entries:
  "iblt_values (concat (map (\<lambda>e. u32_bytes (he_count e) @ u32_bytes (he_keySum e) @ u32_bytes (he_keyCheck e)) t)) =
   concat (map (\<lambda>e. [he_count e, he_keySum e, he_keyCheck e]) t)"
  by (induction t) (simp_all add: iblt_values_append)

lemma nth_concat3:
  "i < length xs \<Longrightarrow> m < 3 \<Longrightarrow> concat (map (\<lambda>x. [f x, g x, h x]) xs) ! (i * 3 + m) = [f (xs ! i), g (xs ! i), h (xs ! i)] ! m"
proof (induction xs arbitrary: i)
  case (Cons x xs)
  then show ?case by (cases i) (auto simp: numeral_3_eq_3 less_Suc_eq nth_Cons')
qed simp

text \<open>\<^verbatim>\<open>initialize\<close> skips the entries with the count 0: in a table of inserted keys these are empty.\<close>

lemma inserted_entry:
  assumes "usable n" and "j < n"
  shows "he_count (apply_keys (map (Pair 1) keys) (empty_table n) ! j) = of_nat (length (filter (\<lambda>k. j \<in> buckets n k) keys))"
    and "filter (\<lambda>k. j \<in> buckets n k) keys = [] \<Longrightarrow> apply_keys (map (Pair 1) keys) (empty_table n) ! j = empty_entry"
proof (induction keys rule: rev_induct)
  case (snoc k keys)
  case 1
  from snoc assms show ?case by (simp add: nth_updated he_add_def)
next
  case (snoc k keys)
  case 2
  with snoc assms show ?case by (simp add: nth_updated split: if_splits)
qed (use assms in \<open>simp_all add: empty_entry_def\<close>)

lemma inserted_count_0:
  assumes "usable n" and "length keys < 2 ^ 32" and "j < n" and "he_count (apply_keys (map (Pair 1) keys) (empty_table n) ! j) = 0"
  shows "apply_keys (map (Pair 1) keys) (empty_table n) ! j = empty_entry"
proof -
  let ?m = "length (filter (\<lambda>k. j \<in> buckets n k) keys)"
  have "of_nat ?m = (0 :: u32)" using assms inserted_entry(1) by metis
  moreover have "?m < 2 ^ LENGTH(32)" using le_less_trans [OF length_filter_le assms(2)] by simp
  ultimately have "?m = 0" by (metis of_nat_inverse unsigned_0)
  with inserted_entry(2) [OF assms(1,3)] show ?thesis by simp
qed

lemma iblt_initialize_encoded:
  assumes "usable n" and "length keys < 2 ^ 32" and t: "t = apply_keys (map (Pair 1) keys) (empty_table n)"
    and dec: "zlibDecompress w = Inr (concat (map (\<lambda>e. u32_bytes (he_count e) @ u32_bytes (he_keySum e) @ u32_bytes (he_keyCheck e)) t))"
  shows "iblt_initialize zlibDecompress w (empty_table n) = Inr t"
proof -
  let ?vs = "concat (map (\<lambda>e. [he_count e, he_keySum e, he_keyCheck e]) t)"
  have dec: "iblt_decode zlibDecompress w = Inr ?vs" using dec by (simp add: iblt_decode_def iblt_values_entries)
  have len: "length (concat (map (\<lambda>e. [he_count e, he_keySum e, he_keyCheck e]) us)) = 3 * length us" for us :: iblt
    by (induction us) simp_all
  have n: "length t = n" using t by simp
  have "set_entry ?vs i empty_entry = t ! i" if i: "i < n" for i
  proof -
    have "he_count (t ! i) = 0 \<Longrightarrow> t ! i = empty_entry" using inserted_count_0 [OF assms(1,2) i] t by metis
    with i n nth_concat3 [of i t 0 he_count he_keySum he_keyCheck] nth_concat3 [of i t 1 he_count he_keySum he_keyCheck]
      nth_concat3 [of i t 2 he_count he_keySum he_keyCheck]
    show ?thesis by (auto simp: set_entry_def intro: he_eqI)
  qed
  then have "map (\<lambda>i. set_entry ?vs i (empty_table n ! i)) [0..<n] = t"
    using n by (intro nth_equalityI) simp_all
  with dec len [of t] n show ?thesis by (simp add: iblt_initialize_def)
qed

text \<open>
  The table of any set of keys survives encoding and decoding into a new table of the same size, when zlib gives back what it
  compressed.
\<close>

theorem iblt_roundtrip:
  assumes "length (iblt_new e) div N_HASH \<noteq> 0" and "insert_keys keys (iblt_new e) = Some t" and "length keys < 2 ^ 32"
    and "iblt_encode zlibCompress t = Inr w" and "\<And>bs. zlibCompress bs = Inr w \<Longrightarrow> zlibDecompress w = Inr bs"
  shows "\<exists>t'. iblt_initialize zlibDecompress w (iblt_new e) = Inr t' \<and> iblt_equals t' t"
proof -
  let ?n = "length (iblt_new e)"
  have new: "iblt_new e = empty_table ?n" by (simp add: iblt_new_def Let_def)
  then have "t = apply_keys (map (Pair 1) keys) (empty_table ?n)" using assms(1,2) insert_keys by (metis option.inject)
  from iblt_initialize_encoded [OF assms(1,3) this, of zlibDecompress w] assms(4,5) new show ?thesis
    by (auto simp: iblt_encode_def iblt_equals_def list_all2_same)
qed

theorem iblt_roundtrip_witness:
  "\<exists>t w t'. insert_keys [7, 9] (iblt_new 4) = Some t \<and> iblt_encode Inr t = Inr w \<and> iblt_initialize Inr w (iblt_new 4) = Inr t' \<and>
     iblt_equals t' t"
proof -
  have n: "length (iblt_new 4) = 6" by code_simp
  then have u: "usable (length (iblt_new 4))" by (simp add: N_HASH_def)
  obtain t where t: "insert_keys [7, 9] (iblt_new 4) = Some t" using insert_keys [OF u] by blast
  obtain w where w: "iblt_encode Inr t = Inr w" by (simp add: iblt_encode_def)
  from iblt_roundtrip [OF u t _ w, of Inr] t w show ?thesis by auto
qed

end
