(* ===== verification/PSyncStateWire.thy ===== *)
theory PSyncStateWire
  imports ScheduleWire BloomTable
begin

text \<open>
  The content of a PSync reply (\<^verbatim>\<open>sync/detail/psync-state.[ch]pp\<close>): a sequence of names with its TLV encoding.
\<close>

section \<open>The class\<close>

record psync_state =
  pst_content :: "name list"

definition PSyncState_new :: psync_state where
  "PSyncState_new = \<lparr>pst_content = []\<rparr>"

definition addContent :: "name \<Rightarrow> psync_state \<Rightarrow> psync_state" where
  "addContent name self = self\<lparr>pst_content := pst_content self @ [name]\<rparr>"

definition PSyncState_clear :: "psync_state \<Rightarrow> psync_state" where
  "PSyncState_clear self = self\<lparr>pst_content := []\<rparr>"

definition Tlv_PSyncContent :: u32 where "Tlv_PSyncContent = 128"

text \<open>\<^verbatim>\<open>get\<close> throws the error string of a full name array, the encoder that of its code: both are the code here.\<close>

fun encodePSyncContent :: "name list \<Rightarrow> tlv_encoder \<Rightarrow> ndn_error + tlv_encoder" where
  "encodePSyncContent [] e = Inr e"
| "encodePSyncContent (n # ns) e =
     bindE (ndn_Name_appendList (map Component_lite (n_components n)) \<lparr>cn_components = [], cn_maxComponents = 100\<rparr>) (\<lambda>nameLite.
     bindE (ndn_encodeTlvName (cn_components nameLite) e) (\<lambda>(_, e). encodePSyncContent ns e))"

definition PSyncState_wireEncode :: "psync_state \<Rightarrow> bytes result" where
  "PSyncState_wireEncode self =
     throwC (run_encoder 256 (writeNestedTlv Tlv_PSyncContent (encodePSyncContent (pst_content self)) False))"

text \<open>The loop runs to the end of the input, not to that of the element, and keeps what it added when it throws.\<close>

partial_function (option) decode_psync_names ::
  "name list \<Rightarrow> bytes \<Rightarrow> size_t \<Rightarrow> (size_t result \<times> name list) option" where
  "decode_psync_names content input off =
     (if off < of_nat (length input)
      then Option.bind (ndn_decodeTlvName 100 input off) (\<lambda>r.
             case r of
               Inl e \<Rightarrow> Some (Inl (RuntimeError (ndn_getErrorString e)), content)
             | Inr ((cs, _), off) \<Rightarrow>
                 Option.bind (lite_components input cs) (\<lambda>comps.
                   decode_psync_names
                     (content @ [Name_set_lite \<lparr>cn_components = comps, cn_maxComponents = 100\<rparr> (Name_of [])]) input off))
      else Some (Inr off, content))"

definition PSyncState_wireDecode :: "bytes \<Rightarrow> psync_state \<Rightarrow> (unit result \<times> psync_state) option" where
  "PSyncState_wireDecode input self =
     bindR (call_decoder (readNestedTlvsStart Tlv_PSyncContent) input 0 (PSyncState_clear self)) (\<lambda>(endOffset, off) self.
     bindR (map_option (\<lambda>(r, content). (r, self\<lparr>pst_content := content\<rparr>)) (decode_psync_names (pst_content self) input off))
       (\<lambda>off self.
     bindR (call_decoder (finishNestedTlvs endOffset) input off self) (\<lambda>_ self. Some (Inr (), self))))"

definition PSyncState_toString :: "psync_state \<Rightarrow> bytes" where
  "PSyncState_toString self =
     str ''['' @ concat (map (\<lambda>i. Name_toUri False (pst_content self ! i) @
       (if i < length (pst_content self) - 1 then str '', '' else [])) [0..<length (pst_content self)]) @ str '']''"

section \<open>Encoding and back\<close>

definition wire_name :: "name \<Rightarrow> bool" where
  "wire_name n \<longleftrightarrow> (\<forall>c \<in> set (n_components n). wire_wf c \<and> (is_digest c \<longrightarrow> blob_size (c_value c) = 32)) \<and> Name_size n \<le> 100"

definition names_bytes :: "name list \<Rightarrow> bytes" where
  "names_bytes ns = concat (map (\<lambda>n. name_tlv (n_components n)) ns)"

lemma names_bytes_simps [simp]:
  "names_bytes [] = []" "names_bytes (n # ns) = name_tlv (n_components n) @ names_bytes ns"
  by (simp_all add: names_bytes_def)

lemma name_lite_get:
  assumes "wire_name n"
  shows "\<exists>l. ndn_Name_appendList (map Component_lite (n_components n)) \<lparr>cn_components = [], cn_maxComponents = 100\<rparr> = Inr l \<and>
    cn_components l = n_components n"
proof -
  have "map Component_lite (n_components n) = n_components n"
    using assms Component_lite_id by (auto simp: wire_name_def wire_wf_def intro!: map_idI)
  with assms show ?thesis by (simp add: ndn_Name_appendList wire_name_def Name_size_def)
qed

lemma emits_psync_names: "\<forall>n \<in> set ns. wire_name n \<Longrightarrow> emits (encodePSyncContent ns) (names_bytes ns)"
proof (induction ns)
  case Nil
  have "encodePSyncContent [] = Inr" by (rule ext) simp
  then show ?case by simp
next
  case (Cons n ns)
  obtain l where l: "ndn_Name_appendList (map Component_lite (n_components n)) \<lparr>cn_components = [], cn_maxComponents = 100\<rparr> = Inr l"
    "cn_components l = n_components n" using name_lite_get Cons.prems by auto
  have enc: "\<forall>c \<in> set (n_components n). encodable c"
    using Cons.prems wire_wf_encodable by (auto simp: wire_name_def)
  have eq: "encodePSyncContent (n # ns) =
      (\<lambda>e. bindE (bindE (ndn_encodeTlvName (n_components n) e) (\<lambda>(_, e). Inr e)) (encodePSyncContent ns))"
    by (rule ext) (simp add: l bindE_assoc case_prod_unfold)
  show ?case
    unfolding eq names_bytes_simps
    by (rule emits_seq [OF emits_val_drop [OF emits_val_name [OF enc]] Cons.IH]) (use Cons.prems in simp)
qed

interpretation psync_value: tlv_value "\<lambda>ns. \<forall>n \<in> set ns. wire_name n" encodePSyncContent names_bytes
  by unfold_locales (rule emits_psync_names)

lemma PSyncState_wireEncode:
  assumes "\<forall>n \<in> set (pst_content s). wire_name n"
  shows "PSyncState_wireEncode s = Inr (tlv Tlv_PSyncContent (names_bytes (pst_content s)))"
proof -
  have "emits (writeNestedTlv Tlv_PSyncContent (encodePSyncContent (pst_content s)) False)
      (tlv Tlv_PSyncContent (names_bytes (pst_content s)))"
    using psync_value.emits_nested [OF assms, of Tlv_PSyncContent False] by (simp add: nested_tlv_def)
  from emits_enabled [OF this ready_new [of 256]] show ?thesis
    by (auto simp: PSyncState_wireEncode_def run_encoder_def TlvEncoder_finish)
qed

text \<open>The loop reads the names from a position to the end of the input.\<close>

lemma decode_psync_names:
  assumes "small_input (pre @ names_bytes ns)" and "\<forall>n \<in> set ns. wire_name n"
  shows "\<exists>ns'. decode_psync_names content (pre @ names_bytes ns) (at_pos pre) =
      Some (Inr (at_pos (pre @ names_bytes ns)), content @ ns') \<and> map n_components ns' = map n_components ns"
  using assms
proof (induction ns arbitrary: pre content)
  case Nil
  then show ?case by (subst decode_psync_names.simps) (simp add: at_pos_def)
next
  case (Cons n ns)
  let ?cs = "n_components n" and ?input = "pre @ names_bytes (n # ns)"
  let ?b = "pre @ tlv_header ndn_Tlv_Name (length (comps_bytes ?cs))"
  have w: "\<forall>c \<in> set ?cs. wire_wf c" "length ?cs \<le> 100" using Cons.prems(2) by (auto simp: wire_name_def Name_size_def)
  have split: "?input = ?b @ comps_bytes ?cs @ names_bytes ns"
    by (simp add: name_tlv_def tlv_def comps_bytes_def)
  have less: "at_pos pre < of_nat (length ?input)"
    using at_less [of pre "names_bytes (n # ns)" "[]"] Cons.prems(1) by (simp add: at_pos_def)
  have "reads (ndn_decodeTlvName 100) pre (name_tlv ?cs) (names_bytes ns)
      (slices_of ?b ?cs, at_pos ?b, at_pos (?b @ comps_bytes (butlast ?cs)))"
    using reads_name [OF _ w, of pre "names_bytes ns"] Cons.prems(1) unfolding Let_def names_bytes_simps by blast
  then have dec: "ndn_decodeTlvName 100 ?input (at_pos pre) =
      Some (Inr ((slices_of ?b ?cs, at_pos ?b, at_pos (?b @ comps_bytes (butlast ?cs))), at_pos (pre @ name_tlv ?cs)))"
    by (simp add: reads_def)
  have lite: "lite_components ?input (slices_of ?b ?cs) = Some ?cs"
    using lite_components_slices [OF Cons.prems(1) [unfolded split] w(1)] unfolding split .
  let ?n' = "Name_set_lite \<lparr>cn_components = ?cs, cn_maxComponents = 100\<rparr> (Name_of [])"
  have comps: "n_components ?n' = ?cs" by (simp add: Name_set_lite_def n_components_fold_append Name_clear_def)
  have "small_input ((pre @ name_tlv ?cs) @ names_bytes ns)" "\<forall>n \<in> set ns. wire_name n" using Cons.prems by simp_all
  from Cons.IH [OF this, of "content @ [?n']"] obtain ns' where
    "decode_psync_names (content @ [?n']) ?input (at_pos (pre @ name_tlv ?cs)) = Some (Inr (at_pos ?input), content @ ?n' # ns')"
    "map n_components ns' = map n_components ns" by auto
  with less dec lite comps show ?case
    by (intro exI [of _ "?n' # ns'"], subst decode_psync_names.simps) simp
qed

lemma PSyncState_wireDecode:
  assumes "\<forall>n \<in> set ns. wire_name n" and "small_input (tlv Tlv_PSyncContent (names_bytes ns))"
  shows "\<exists>ns'. PSyncState_wireDecode (tlv Tlv_PSyncContent (names_bytes ns)) t = Some (Inr (), \<lparr>pst_content = ns'\<rparr>) \<and>
    map n_components ns' = map n_components ns"
proof -
  let ?h = "tlv_header Tlv_PSyncContent (length (names_bytes ns))"
  have v: "tlv Tlv_PSyncContent (names_bytes ns) = ?h @ names_bytes ns" by (simp add: tlv_def)
  have sm: "small_input (?h @ names_bytes ns)" using assms(2) by (simp add: v)
  have 1: "reads (readNestedTlvsStart Tlv_PSyncContent) [] ?h (names_bytes ns) (at_pos (?h @ names_bytes ns))"
    using reads_readNestedTlvsStart [of "[]" Tlv_PSyncContent "length (names_bytes ns)" "names_bytes ns"] sm by simp
  have 2: "reads (finishNestedTlvs (at_pos (?h @ names_bytes ns))) (?h @ names_bytes ns) [] [] ()" by (rule reads_finish)
  obtain ns' where n: "decode_psync_names [] (?h @ names_bytes ns) (at_pos ?h) = Some (Inr (at_pos (?h @ names_bytes ns)), ns')"
    "map n_components ns' = map n_components ns" using decode_psync_names [OF sm assms(1), of "[]"] by auto
  note r = reads_call_decoder [OF 1] reads_call_decoder [OF 2, simplified append_Nil append_Nil2]
  show ?thesis
    unfolding v PSyncState_wireDecode_def
    using n by (intro exI [of _ ns']) (simp add: r [unfolded append_assoc at_Nil append_Nil] bindR_Inr PSyncState_clear_def del: at_append)
qed

text \<open>
  Names that fit the wire format survive: decoding the encoding of a state gives a state with names of the same components in
  the same order, whatever the object held before.
\<close>

theorem psync_state_roundtrip:
  assumes "\<forall>n \<in> set (pst_content s). wire_name n" and "PSyncState_wireEncode s = Inr encoding" and "small_input encoding"
  shows "\<exists>t'. PSyncState_wireDecode encoding t = Some (Inr (), t') \<and> map n_components (pst_content t') = map n_components (pst_content s)"
  using assms PSyncState_wireDecode [of "pst_content s" t] by (auto simp: PSyncState_wireEncode)

theorem psync_state_roundtrip_witness:
  "\<exists>s encoding t'. PSyncState_wireEncode s = Inr encoding \<and> pst_content s \<noteq> [] \<and>
     PSyncState_wireDecode encoding PSyncState_new = Some (Inr (), t') \<and> map n_components (pst_content t') = map n_components (pst_content s)"
proof -
  let ?s = "addContent (Name_of [Component_generic (Some [97])]) PSyncState_new"
  have n: "\<forall>n \<in> set (pst_content ?s). wire_name n"
    by (simp add: addContent_def PSyncState_new_def wire_name_def wire_wf_def component_wf_def Component_generic_def
        is_digest_def Name_size_def Name_of_def)
  have "PSyncState_wireEncode ?s = Inr [128, 5, 7, 3, 8, 1, 97]" by code_simp
  from psync_state_roundtrip [OF n this, of PSyncState_new] this show ?thesis
    by (intro exI [of _ ?s]) (auto simp: small_input_def addContent_def)
qed

end
