(* ===== verification/PSyncModel.thy ===== *)
theory PSyncModel
  imports PSyncStateWire NameMaps
begin

text \<open>
  Full PSync (\<^verbatim>\<open>sync/psync-producer-base.cpp\<close>, \<^verbatim>\<open>sync/full-psync2017.cpp\<close>, \<^verbatim>\<open>sync/detail/psync-user-prefixes.cpp\<close>):
  participants keep a set of names in an invertible Bloom lookup table, ask for the difference with a sync Interest that has their
  table in its name, and answer with the names the other one lacks.

  The face, the segment fetcher and the segment publisher are called with what the events record; the callbacks of the application are
  functions on the state.
\<close>

section \<open>The producer base\<close>

record psync =
  ps_iblt :: iblt
  ps_expectedNEntries :: size_t
  ps_threshold :: size_t
  ps_nameToHash :: "u32 name_map"
  ps_hashToName :: "u32 \<rightharpoonup> name"
  ps_syncPrefix :: name
  ps_syncReplyFreshnessPeriod :: real

definition PSyncProducerBase_new :: "size_t \<Rightarrow> name \<Rightarrow> real \<Rightarrow> psync" where
  "PSyncProducerBase_new expectedNEntries syncPrefix syncReplyFreshnessPeriod =
     \<lparr>ps_iblt = iblt_new expectedNEntries, ps_expectedNEntries = expectedNEntries, ps_threshold = expectedNEntries div 2,
      ps_nameToHash = [], ps_hashToName = Map.empty, ps_syncPrefix = syncPrefix,
      ps_syncReplyFreshnessPeriod = syncReplyFreshnessPeriod\<rparr>"

definition name_hash :: "name \<Rightarrow> u32" where
  "name_hash name = ndn_murmurHash3 N_HASHCHECK (Name_toUri False name)"

text \<open>None: a table without buckets, where \<^verbatim>\<open>update\<close> is undefined.\<close>

definition insertIntoIblt :: "name \<Rightarrow> 'a psync_scheme \<Rightarrow> 'a psync_scheme option" where
  "insertIntoIblt name self =
     (let newHash = name_hash name;
          self = self\<lparr>ps_nameToHash := nm_set name newHash (ps_nameToHash self),
                      ps_hashToName := (ps_hashToName self)(newHash \<mapsto> name)\<rparr>
      in map_option (\<lambda>t. self\<lparr>ps_iblt := t\<rparr>) (iblt_insert newHash (ps_iblt self)))"

definition removeFromIblt :: "name \<Rightarrow> 'a psync_scheme \<Rightarrow> 'a psync_scheme option" where
  "removeFromIblt name self =
     (case nm_find name (ps_nameToHash self) of
        None \<Rightarrow> Some self
      | Some hash \<Rightarrow>
          (let self = self\<lparr>ps_nameToHash := nm_erase name (ps_nameToHash self),
                           ps_hashToName := (ps_hashToName self)(hash := None)\<rparr>
           in map_option (\<lambda>t. self\<lparr>ps_iblt := t\<rparr>) (iblt_erase hash (ps_iblt self))))"

section \<open>User prefixes\<close>

type_synonym user_prefixes = "int name_map"

definition isUserNode :: "name \<Rightarrow> user_prefixes \<Rightarrow> bool" where
  "isUserNode prefix self \<longleftrightarrow> nm_find prefix self \<noteq> None"

definition getSequenceNo :: "name \<Rightarrow> user_prefixes \<Rightarrow> int" where
  "getSequenceNo prefix self = (case nm_find prefix self of None \<Rightarrow> -1 | Some sequenceNo \<Rightarrow> sequenceNo)"

definition addUserNode :: "name \<Rightarrow> user_prefixes \<Rightarrow> bool \<times> user_prefixes" where
  "addUserNode prefix self = (if \<not> isUserNode prefix self then (True, nm_set prefix 0 self) else (False, self))"

definition removeUserNode :: "name \<Rightarrow> user_prefixes \<Rightarrow> user_prefixes" where
  "removeUserNode prefix self = (if nm_find prefix self \<noteq> None then nm_erase prefix self else self)"

text \<open>Whether it changed the sequence number, the old one (0 when there is none), and the map.\<close>

definition updateSequenceNo :: "name \<Rightarrow> int \<Rightarrow> user_prefixes \<Rightarrow> (bool \<times> int) \<times> user_prefixes" where
  "updateSequenceNo prefix sequenceNo self =
     (case nm_find prefix self of
        None \<Rightarrow> ((False, 0), self)
      | Some oldSequenceNo \<Rightarrow>
          if oldSequenceNo \<ge> sequenceNo then ((False, oldSequenceNo), self)
          else ((True, oldSequenceNo), nm_set prefix sequenceNo self))"

text \<open>\<^verbatim>\<open>prefixes_[prefix]\<close> adds a prefix that is not there, with 0.\<close>

definition nm_get_or_0 :: "name \<Rightarrow> user_prefixes \<Rightarrow> int \<times> user_prefixes" where
  "nm_get_or_0 prefix self = (case nm_find prefix self of Some n \<Rightarrow> (n, self) | None \<Rightarrow> (0, nm_set prefix 0 self))"

section \<open>Full PSync\<close>

record pending_entry_info =
  pe_iblt :: iblt
  pe_isRemoved :: bool

datatype psync_event =
    RegisterPrefix name
  | LaterSendSyncInterest real
  | FetchSyncData name real
  | LaterRemovePendingEntry real name nat
  | PublishSegments name name bytes real

text \<open>The pending entries are shared with the delayed calls: references into \<^verbatim>\<open>fp_entries\<close>.\<close>

record full_psync = psync +
  fp_entries :: "pending_entry_info list"
  fp_pendingEntries :: "nat name_map"
  fp_syncInterestLifetime :: real
  fp_outstandingInterestName :: name
  fp_events :: "psync_event list"

record 's psync_env =
  pv_zlibCompress :: "bytes \<Rightarrow> bytes result"
  pv_zlibDecompress :: "bytes \<Rightarrow> bytes result"
  pv_random1 :: real
  pv_replyFromStore :: "name \<Rightarrow> bool"
  pv_publish :: "name \<Rightarrow> name \<Rightarrow> bytes \<Rightarrow> real \<Rightarrow> unit result"
  pv_canAddToSyncData :: "(name \<Rightarrow> u32 set \<Rightarrow> 's \<Rightarrow> (bool result \<times> 's) option) option"
  pv_canAddReceivedName :: "(name \<Rightarrow> 's \<Rightarrow> (bool result \<times> 's) option) option"
  pv_onNamesUpdate :: "name list \<Rightarrow> 's \<Rightarrow> 's"

abbreviation fp_event :: "psync_event \<Rightarrow> 'a full_psync_scheme \<Rightarrow> 'a full_psync_scheme" where
  "fp_event e self \<equiv> self\<lparr>fp_events := fp_events self @ [e]\<rparr>"

definition FullPSync2017_new :: "size_t \<Rightarrow> name \<Rightarrow> real \<Rightarrow> real \<Rightarrow> full_psync" where
  "FullPSync2017_new expectedNEntries syncPrefix syncInterestLifetime syncReplyFreshnessPeriod =
     psync.extend (PSyncProducerBase_new expectedNEntries syncPrefix syncReplyFreshnessPeriod)
       \<lparr>fp_entries = [], fp_pendingEntries = [], fp_syncInterestLifetime = syncInterestLifetime,
        fp_outstandingInterestName = Name_of [], fp_events = []\<rparr>"

text \<open>The name of our sync Interest.\<close>

definition sync_interest_name :: "(bytes \<Rightarrow> bytes result) \<Rightarrow> 'a psync_scheme \<Rightarrow> name result" where
  "sync_interest_name zlibCompress self =
     bindE (iblt_encode zlibCompress (ps_iblt self)) (\<lambda>encoding. Inr (Name_append_generic encoding (ps_syncPrefix self)))"

definition sendSyncInterest ::
  "'a full_psync_scheme psync_env \<Rightarrow> 'a full_psync_scheme \<Rightarrow> (unit result \<times> 'a full_psync_scheme) option" where
  "sendSyncInterest env self =
     bindR (liftR (sync_interest_name (pv_zlibCompress env) self) self) (\<lambda>syncInterestName self.
       let lifetime = fp_syncInterestLifetime self; jitter = (pv_random1 env - 0.5) * (lifetime * 0.2)
       in Some (Inr (), fp_event (FetchSyncData syncInterestName lifetime)
                          (fp_event (LaterSendSyncInterest (lifetime / 2 + jitter))
                            (self\<lparr>fp_outstandingInterestName := syncInterestName\<rparr>))))"

definition FullPSync2017_initialize ::
  "'a full_psync_scheme psync_env \<Rightarrow> 'a full_psync_scheme \<Rightarrow> (unit result \<times> 'a full_psync_scheme) option" where
  "FullPSync2017_initialize env self = sendSyncInterest env (fp_event (RegisterPrefix (ps_syncPrefix self)) self)"

definition publish_segments ::
  "'a full_psync_scheme psync_env \<Rightarrow> name \<Rightarrow> name \<Rightarrow> bytes \<Rightarrow> 'a full_psync_scheme \<Rightarrow> (unit result \<times> 'a full_psync_scheme) option" where
  "publish_segments env interestName dataName content self =
     (let period = ps_syncReplyFreshnessPeriod self
      in Some (pv_publish env interestName dataName content period, fp_event (PublishSegments interestName dataName content period) self))"

definition sendSyncData ::
  "'a full_psync_scheme psync_env \<Rightarrow> name \<Rightarrow> bytes \<Rightarrow> 'a full_psync_scheme \<Rightarrow> (unit result \<times> 'a full_psync_scheme) option" where
  "sendSyncData env name content self =
     bindR (liftR (iblt_encode (pv_zlibCompress env) (ps_iblt self)) self) (\<lambda>encoding self.
     let hash = fst (Name_hash (Name_append_generic encoding (Name_of [])))
     in bindR (liftR (Name_appendNumber hash ndn_NameComponentType_GENERIC (-1) name) self) (\<lambda>dataName self.
          if Name_equals (fp_outstandingInterestName self) name
          then bindR (publish_segments env name dataName content (self\<lparr>fp_outstandingInterestName := Name_of []\<rparr>)) (\<lambda>_ self.
                 sendSyncInterest env self)
          else publish_segments env name dataName content self))"

definition mark_removed :: "nat \<Rightarrow> 'a full_psync_scheme \<Rightarrow> 'a full_psync_scheme" where
  "mark_removed i self = self\<lparr>fp_entries := (fp_entries self)[i := (fp_entries self ! i)\<lparr>pe_isRemoved := True\<rparr>]\<rparr>"

text \<open>\<^verbatim>\<open>hashToName_[hash]\<close> adds a hash that is not there, with an empty name.\<close>

definition hash_to_name :: "u32 \<Rightarrow> 'a psync_scheme \<Rightarrow> name \<times> 'a psync_scheme" where
  "hash_to_name hash self =
     (case ps_hashToName self hash of
        Some name \<Rightarrow> (name, self)
      | None \<Rightarrow> (Name_of [], self\<lparr>ps_hashToName := (ps_hashToName self)(hash \<mapsto> Name_of [])\<rparr>))"

text \<open>The names of the listed hashes that still are published and that \<^verbatim>\<open>canAdd\<close> allows.\<close>

fun collect_names ::
  "(name \<Rightarrow> 'a psync_scheme \<Rightarrow> (bool result \<times> 'a psync_scheme) option) \<Rightarrow> u32 list \<Rightarrow> psync_state \<Rightarrow>
   'a psync_scheme \<Rightarrow> (psync_state result \<times> 'a psync_scheme) option" where
  "collect_names canAdd [] state self = Some (Inr state, self)"
| "collect_names canAdd (hash # hashes) state self =
     (let (name, self) = hash_to_name hash self
      in if nm_find name (ps_nameToHash self) \<noteq> None
         then bindR (canAdd name self) (\<lambda>add self. collect_names canAdd hashes (if add then addContent name state else state) self)
         else collect_names canAdd hashes state self)"

definition allow_all :: "name \<Rightarrow> 's \<Rightarrow> (bool result \<times> 's) option" where
  "allow_all name self = Some (Inr True, self)"

text \<open>Listing failed and the difference is too large, or nothing was listed.\<close>

definition cannot_decode :: "size_t \<Rightarrow> bool \<Rightarrow> u32 set \<Rightarrow> u32 set \<Rightarrow> bool" where
  "cannot_decode threshold listed positive negative \<longleftrightarrow>
     \<not> listed \<and> (card positive + card negative \<ge> unat threshold \<or> card positive = 0 \<and> card negative = 0)"

definition store_pending ::
  "iblt \<Rightarrow> name \<Rightarrow> name \<Rightarrow> real \<Rightarrow> 'a full_psync_scheme \<Rightarrow> 'a full_psync_scheme" where
  "store_pending iblt interestName fullName lifetime self =
     (let i = length (fp_entries self)
      in fp_event (LaterRemovePendingEntry lifetime fullName i)
           (self\<lparr>fp_entries := fp_entries self @ [\<lparr>pe_iblt = iblt, pe_isRemoved = False\<rparr>],
                 fp_pendingEntries := nm_set interestName i (fp_pendingEntries self)\<rparr>))"

text \<open>From the name of the Interest: the name with the table as its last component, or None to ignore the Interest.\<close>

definition sync_request_name :: "name \<Rightarrow> name \<Rightarrow> name option" where
  "sync_request_name prefixName name =
     (let nameWithoutSyncPrefix = Name_getSubName_from (int (Name_size prefixName)) name
      in if Name_size nameWithoutSyncPrefix = 1 then Some name
         else if Name_size nameWithoutSyncPrefix = 3 then Some (Name_getPrefix (-2) name) else None)"

definition reply_to_table ::
  "'a full_psync_scheme psync_env \<Rightarrow> name \<Rightarrow> name \<Rightarrow> real \<Rightarrow> iblt \<Rightarrow> 'a full_psync_scheme \<Rightarrow>
   (unit result \<times> 'a full_psync_scheme) option" where
  "reply_to_table env interestName name lifetime iblt self =
     bindR (liftR (iblt_difference (ps_iblt self) iblt) self) (\<lambda>difference self.
     Option.bind (iblt_listEntries difference) (\<lambda>(listed, positive, negative).
       if cannot_decode (ps_threshold self) listed positive negative
       then let state1 = fold addContent (map fst (ps_nameToHash self)) PSyncState_new
            in if length (pst_content state1) > 0
               then bindR (liftR (PSyncState_wireEncode state1) self) (\<lambda>content self. publish_segments env name name content self)
               else Some (Inr (), self)
       else bindR (collect_names (case pv_canAddToSyncData env of None \<Rightarrow> allow_all | Some f \<Rightarrow> (\<lambda>n. f n negative))
                     (sorted_list_of_set positive) PSyncState_new self) (\<lambda>state self.
              if length (pst_content state) > 0
              then bindR (liftR (PSyncState_wireEncode state) self) (\<lambda>content self. sendSyncData env interestName content self)
              else Some (Inr (), store_pending iblt interestName name lifetime self))))"

definition onSyncInterest ::
  "'a full_psync_scheme psync_env \<Rightarrow> name \<Rightarrow> name \<Rightarrow> real \<Rightarrow> 'a full_psync_scheme \<Rightarrow>
   (unit result \<times> 'a full_psync_scheme) option" where
  "onSyncInterest env prefixName name lifetime self =
     (if pv_replyFromStore env name then Some (Inr (), self)
      else case sync_request_name prefixName name of
             None \<Rightarrow> Some (Inr (), self)
           | Some interestName \<Rightarrow>
               bindR (liftR (Name_get (-1) interestName) self) (\<lambda>ibltName self.
                 case iblt_initialize (pv_zlibDecompress env) (blob_bytes (c_value ibltName)) (iblt_new (ps_expectedNEntries self)) of
                   Inl _ \<Rightarrow> Some (Inr (), self)
                 | Inr iblt \<Rightarrow> reply_to_table env interestName name lifetime iblt self))"

text \<open>The loop over the pending entries: those kept, and those still to look at.\<close>

fun satisfy_loop ::
  "'a full_psync_scheme psync_env \<Rightarrow> nat name_map \<Rightarrow> nat name_map \<Rightarrow> 'a full_psync_scheme \<Rightarrow>
   (unit result \<times> 'a full_psync_scheme) option" where
  "satisfy_loop env kept [] self = Some (Inr (), self)"
| "satisfy_loop env kept ((name, i) # rest) self =
     bindR (liftR (iblt_difference (ps_iblt self) (pe_iblt (fp_entries self ! i))) self) (\<lambda>difference self.
     Option.bind (iblt_listEntries difference) (\<lambda>(listed, positive, negative).
       if cannot_decode (ps_threshold self) listed positive negative
       then satisfy_loop env kept rest ((mark_removed i self)\<lparr>fp_pendingEntries := kept @ rest\<rparr>)
       else bindR (collect_names allow_all (sorted_list_of_set positive) PSyncState_new self) (\<lambda>state self.
              if length (pst_content state) > 0
              then bindR (liftR (PSyncState_wireEncode state) self) (\<lambda>content self.
                   bindR (sendSyncData env name content self) (\<lambda>_ self.
                     satisfy_loop env kept rest ((mark_removed i self)\<lparr>fp_pendingEntries := kept @ rest\<rparr>)))
              else satisfy_loop env (kept @ [(name, i)]) rest self)))"

definition satisfyPendingInterests ::
  "'a full_psync_scheme psync_env \<Rightarrow> 'a full_psync_scheme \<Rightarrow> (unit result \<times> 'a full_psync_scheme) option" where
  "satisfyPendingInterests env self = satisfy_loop env [] (fp_pendingEntries self) self"

definition FullPSync2017_publishName ::
  "'a full_psync_scheme psync_env \<Rightarrow> name \<Rightarrow> 'a full_psync_scheme \<Rightarrow> (unit result \<times> 'a full_psync_scheme) option" where
  "FullPSync2017_publishName env name self =
     (if nm_find name (ps_nameToHash self) \<noteq> None then Some (Inr (), self)
      else Option.bind (insertIntoIblt name self) (satisfyPendingInterests env))"

definition FullPSync2017_removeName :: "name \<Rightarrow> 'a full_psync_scheme \<Rightarrow> 'a full_psync_scheme option" where
  "FullPSync2017_removeName = removeFromIblt"

definition deletePendingInterests :: "name \<Rightarrow> 'a full_psync_scheme \<Rightarrow> 'a full_psync_scheme" where
  "deletePendingInterests interestName self =
     (case nm_find interestName (fp_pendingEntries self) of
        None \<Rightarrow> self
      | Some i \<Rightarrow> (mark_removed i self)\<lparr>fp_pendingEntries := nm_erase interestName (fp_pendingEntries self)\<rparr>)"

text \<open>The names received that are new and accepted.\<close>

fun add_received ::
  "(name \<Rightarrow> 'a psync_scheme \<Rightarrow> (bool result \<times> 'a psync_scheme) option) \<Rightarrow> name list \<Rightarrow> name list \<Rightarrow> 'a psync_scheme \<Rightarrow>
   (name list result \<times> 'a psync_scheme) option" where
  "add_received canAdd [] names self = Some (Inr names, self)"
| "add_received canAdd (name # content) names self =
     (if nm_find name (ps_nameToHash self) = None
      then bindR (canAdd name self) (\<lambda>add self.
             if add then Option.bind (insertIntoIblt name self) (add_received canAdd content (names @ [name]))
             else add_received canAdd content names self)
      else add_received canAdd content names self)"

definition onSyncData ::
  "'a full_psync_scheme psync_env \<Rightarrow> bytes \<Rightarrow> name \<Rightarrow> 'a full_psync_scheme \<Rightarrow> (unit result \<times> 'a full_psync_scheme) option" where
  "onSyncData env encodedContent interestName self =
     (let self = deletePendingInterests interestName self
      in Option.bind (PSyncState_wireDecode encodedContent PSyncState_new) (\<lambda>(r, state).
           bindR (liftR r self) (\<lambda>_ self.
           bindR (add_received (case pv_canAddReceivedName env of None \<Rightarrow> allow_all | Some f \<Rightarrow> f) (pst_content state) [] self)
             (\<lambda>names self. if length names > 0 then sendSyncInterest env (pv_onNamesUpdate env names self) else Some (Inr (), self)))))"

definition delayedRemovePendingEntry :: "name \<Rightarrow> nat \<Rightarrow> 'a full_psync_scheme \<Rightarrow> 'a full_psync_scheme" where
  "delayedRemovePendingEntry name i self =
     (if pe_isRemoved (fp_entries self ! i) then self
      else (mark_removed i self)\<lparr>fp_pendingEntries := nm_erase name (fp_pendingEntries self)\<rparr>)"

section \<open>Full PSync with user prefixes\<close>

record users_psync = full_psync +
  us_prefixes :: user_prefixes

record missing_data_info =
  md_prefix :: name
  md_lowSequenceNo :: int
  md_highSequenceNo :: int

definition numbered_name :: "name \<Rightarrow> int \<Rightarrow> name result" where
  "numbered_name prefix sequenceNo = Name_appendNumber (word_of_int sequenceNo) ndn_NameComponentType_GENERIC (-1) prefix"

definition users_removeNumbered :: "name \<Rightarrow> int \<Rightarrow> 'a users_psync_scheme \<Rightarrow> (unit result \<times> 'a users_psync_scheme) option" where
  "users_removeNumbered prefix sequenceNo self =
     bindR (liftR (numbered_name prefix sequenceNo) self) (\<lambda>name self.
       map_option (\<lambda>self. (Inr (), self)) (FullPSync2017_removeName name self))"

definition users_addUserNode :: "name \<Rightarrow> 'a users_psync_scheme \<Rightarrow> bool \<times> 'a users_psync_scheme" where
  "users_addUserNode prefix self =
     (let (added, prefixes) = addUserNode prefix (us_prefixes self) in (added, self\<lparr>us_prefixes := prefixes\<rparr>))"

definition users_removeUserNode :: "name \<Rightarrow> 'a users_psync_scheme \<Rightarrow> (unit result \<times> 'a users_psync_scheme) option" where
  "users_removeUserNode prefix self =
     (if isUserNode prefix (us_prefixes self)
      then let (sequenceNo, prefixes) = nm_get_or_0 prefix (us_prefixes self)
           in users_removeNumbered prefix sequenceNo (self\<lparr>us_prefixes := removeUserNode prefix prefixes\<rparr>)
      else Some (Inr (), self))"

definition users_updateSequenceNo ::
  "name \<Rightarrow> int \<Rightarrow> 'a users_psync_scheme \<Rightarrow> (bool result \<times> 'a users_psync_scheme) option" where
  "users_updateSequenceNo prefix sequenceNo self =
     (let ((updated, oldSequenceNo), prefixes) = updateSequenceNo prefix sequenceNo (us_prefixes self);
          self = self\<lparr>us_prefixes := prefixes\<rparr>
      in if \<not> updated then Some (Inr False, self)
         else if oldSequenceNo \<noteq> 0
         then bindR (users_removeNumbered prefix oldSequenceNo self) (\<lambda>_ self. Some (Inr True, self))
         else Some (Inr True, self))"

definition users_publishName ::
  "'a users_psync_scheme psync_env \<Rightarrow> name \<Rightarrow> int \<Rightarrow> 'a users_psync_scheme \<Rightarrow> (unit result \<times> 'a users_psync_scheme) option" where
  "users_publishName env prefix sequenceNo self =
     (if \<not> isUserNode prefix (us_prefixes self) then Some (Inr (), self)
      else let newSequenceNo = (if sequenceNo \<ge> 0 then sequenceNo else fst (nm_get_or_0 prefix (us_prefixes self)) + 1)
           in bindR (users_updateSequenceNo prefix newSequenceNo self) (\<lambda>updated self.
                if updated
                then bindR (liftR (numbered_name prefix newSequenceNo) self) (\<lambda>name self. FullPSync2017_publishName env name self)
                else Some (Inr (), self)))"

definition users_canAddReceivedName :: "name \<Rightarrow> 'a users_psync_scheme \<Rightarrow> (bool result \<times> 'a users_psync_scheme) option" where
  "users_canAddReceivedName name self =
     (let prefix = Name_getPrefix (-1) name
      in bindR (liftR (Name_get (-1) name) self) (\<lambda>c self.
           let sequenceNo = to_int (uint (Component_toNumber c))
           in case nm_find prefix (us_prefixes self) of
                None \<Rightarrow> Some (Inr True, self)
              | Some oldSequenceNo \<Rightarrow>
                  if oldSequenceNo < sequenceNo
                  then if oldSequenceNo \<noteq> 0
                       then bindR (users_removeNumbered prefix oldSequenceNo self) (\<lambda>_ self. Some (Inr True, self))
                       else Some (Inr True, self)
                  else Some (Inr False, self)))"

text \<open>The updates of the names, up to one that throws; the exception ends in \<^verbatim>\<open>onSyncData\<close>.\<close>

fun users_updates :: "name list \<Rightarrow> missing_data_info list \<Rightarrow> user_prefixes \<Rightarrow> missing_data_info list option \<times> user_prefixes" where
  "users_updates [] updates prefixes = (Some updates, prefixes)"
| "users_updates (name # names) updates prefixes =
     (case Name_get (-1) name of
        Inl _ \<Rightarrow> (None, prefixes)
      | Inr c \<Rightarrow>
          (let prefix = Name_getPrefix (-1) name; sequenceNo = to_int (uint (Component_toNumber c));
               (old, prefixes) = nm_get_or_0 prefix prefixes
           in users_updates names
                (updates @ [\<lparr>md_prefix = prefix, md_lowSequenceNo = old + 1, md_highSequenceNo = sequenceNo\<rparr>])
                (nm_set prefix sequenceNo prefixes)))"

definition users_onNamesUpdate ::
  "(missing_data_info list \<Rightarrow> 'a users_psync_scheme \<Rightarrow> 'a users_psync_scheme) \<Rightarrow> name list \<Rightarrow> 'a users_psync_scheme \<Rightarrow>
   'a users_psync_scheme" where
  "users_onNamesUpdate onUpdate names self =
     (let (updates, prefixes) = users_updates names [] (us_prefixes self); self = self\<lparr>us_prefixes := prefixes\<rparr>
      in case updates of Some updates \<Rightarrow> onUpdate updates self | None \<Rightarrow> self)"

definition users_isNotFutureHash ::
  "name \<Rightarrow> u32 set \<Rightarrow> 'a users_psync_scheme \<Rightarrow> (bool result \<times> 'a users_psync_scheme) option" where
  "users_isNotFutureHash name negative self =
     (let prefix = Name_getPrefix (-1) name; (sequenceNo, prefixes) = nm_get_or_0 prefix (us_prefixes self);
          self = self\<lparr>us_prefixes := prefixes\<rparr>
      in bindR (liftR (numbered_name prefix (sequenceNo + 1)) self) (\<lambda>name self. Some (Inr (name_hash name \<notin> negative), self)))"

text \<open>The constructor of the wrapped object already sends the first sync Interest.\<close>

definition FullPSync2017WithUsers_new :: "size_t \<Rightarrow> name \<Rightarrow> real \<Rightarrow> real \<Rightarrow> users_psync" where
  "FullPSync2017WithUsers_new expectedNEntries syncPrefix syncInterestLifetime syncReplyFreshnessPeriod =
     full_psync.extend (full_psync.truncate (FullPSync2017_new expectedNEntries syncPrefix syncInterestLifetime syncReplyFreshnessPeriod))
       \<lparr>us_prefixes = []\<rparr>"

definition users_initialize ::
  "'a users_psync_scheme psync_env \<Rightarrow> name \<Rightarrow> 'a users_psync_scheme \<Rightarrow> (unit result \<times> 'a users_psync_scheme) option" where
  "users_initialize env userPrefix self =
     bindR (FullPSync2017_initialize env self) (\<lambda>_ self.
       Some (Inr (), if Name_size userPrefix > 0 then snd (users_addUserNode userPrefix self) else self))"

definition users_getSequenceNo :: "name \<Rightarrow> 'a users_psync_scheme \<Rightarrow> int" where
  "users_getSequenceNo prefix self = getSequenceNo prefix (us_prefixes self)"

text \<open>The callbacks that \<^verbatim>\<open>initialize\<close> binds.\<close>

definition users_env ::
  "(missing_data_info list \<Rightarrow> 'a users_psync_scheme \<Rightarrow> 'a users_psync_scheme) \<Rightarrow> 'a users_psync_scheme psync_env \<Rightarrow>
   'a users_psync_scheme psync_env" where
  "users_env onUpdate env = env
     \<lparr>pv_canAddToSyncData := Some users_isNotFutureHash, pv_canAddReceivedName := Some users_canAddReceivedName,
      pv_onNamesUpdate := users_onNamesUpdate onUpdate\<rparr>"

section \<open>The table and the published names\<close>

lemma apply_keys_perm:
  assumes "usable (length t)" and "mset us = mset vs"
  shows "apply_keys us t = apply_keys vs t"
  using assms
proof (induction us arbitrary: vs)
  case (Cons u us)
  obtain s k where u: "u = (s, k)" by (cases u)
  have mem: "(s, k) \<in> set vs" using Cons.prems(2) u by (metis list.set_intros(1) mset_eq_setD)
  have "mset us = mset (remove1 (s, k) vs)" using Cons.prems(2) u by (metis add_mset_remove_trivial mset.simps(2) mset_remove1)
  from Cons.IH [OF Cons.prems(1) this] Cons.prems(1) mem show ?case
    by (simp add: u apply_keys_updated apply_keys_remove1 [OF _ mem])
qed simp

text \<open>The table is that of the hashes of the published names.\<close>

definition table_ok :: "nat \<Rightarrow> 'a psync_scheme \<Rightarrow> bool" where
  "table_ok n self \<longleftrightarrow> usable n \<and> nm_ok (ps_nameToHash self) \<and>
     ps_iblt self = apply_keys (map (Pair 1) (map snd (ps_nameToHash self))) (empty_table n) \<and>
     (\<forall>(name, hash) \<in> set (ps_nameToHash self). hash = name_hash name)"

lemma table_ok_length: "table_ok n self \<Longrightarrow> length (ps_iblt self) = n"
  by (simp add: table_ok_def)

lemma table_ok_insert:
  assumes "table_ok n self" and "small_name name" and "nm_find name (ps_nameToHash self) = None"
    and "insertIntoIblt name self = Some self'"
  shows "table_ok n self'"
proof -
  note m = nm_set_new [OF assms(3), of "name_hash name"]
  have "ps_iblt self' = updated 1 (name_hash name) (ps_iblt self)" "ps_nameToHash self' = nm_set name (name_hash name) (ps_nameToHash self)"
    using assms(1,4) table_ok_length [OF assms(1)]
    by (auto simp: insertIntoIblt_def Let_def iblt_insert_def iblt_update table_ok_def)
  moreover have "updated 1 (name_hash name) (apply_keys (map (Pair 1) (map snd (ps_nameToHash self))) (empty_table n)) =
      apply_keys (map (Pair 1) (map snd (nm_set name (name_hash name) (ps_nameToHash self)))) (empty_table n)"
    using apply_keys_perm [of "empty_table n" "map (Pair 1) (map snd (ps_nameToHash self)) @ [(1, name_hash name)]"
        "map (Pair 1) (map snd (nm_set name (name_hash name) (ps_nameToHash self)))"] m assms(1)
    by (simp add: table_ok_def)
  moreover have "set (nm_set name (name_hash name) (ps_nameToHash self)) = insert (name, name_hash name) (set (ps_nameToHash self))"
    using arg_cong [OF m, of set_mset] by simp
  ultimately show ?thesis using assms(1,2) by (simp add: table_ok_def nm_ok_set)
qed

lemma table_ok_remove:
  assumes "table_ok n self" and "removeFromIblt name self = Some self'"
  shows "table_ok n self'"
proof (cases "nm_find name (ps_nameToHash self)")
  case (Some h)
  then obtain k where m: "mset (ps_nameToHash self) = add_mset (k, h) (mset (nm_erase name (ps_nameToHash self)))"
    using nm_erase_found [OF Some] by blast
  have "ps_iblt self' = updated (- 1) h (ps_iblt self)" "ps_nameToHash self' = nm_erase name (ps_nameToHash self)"
    using assms Some table_ok_length [OF assms(1)]
    by (auto simp: removeFromIblt_def Let_def iblt_erase_def iblt_update table_ok_def)
  moreover have "apply_keys (map (Pair 1) (map snd (ps_nameToHash self))) (empty_table n) =
      updated 1 h (apply_keys (map (Pair 1) (map snd (nm_erase name (ps_nameToHash self)))) (empty_table n))"
    using apply_keys_perm [of "empty_table n" "map (Pair 1) (map snd (ps_nameToHash self))"
        "map (Pair 1) (map snd (nm_erase name (ps_nameToHash self))) @ [(1, h)]"] m assms(1)
    by (simp add: table_ok_def)
  moreover have "set (nm_erase name (ps_nameToHash self)) \<subseteq> set (ps_nameToHash self)"
    using arg_cong [OF m, of set_mset] by auto
  ultimately show ?thesis using assms(1) by (auto simp: table_ok_def updated_cancel nm_ok_erase)
qed (use assms in \<open>simp add: removeFromIblt_def\<close>)

lemma table_ok_same:
  "ps_iblt s' = ps_iblt s \<Longrightarrow> ps_nameToHash s' = ps_nameToHash s \<Longrightarrow> table_ok n s' = table_ok n s"
  by (simp add: table_ok_def)

subsection \<open>No operation breaks it\<close>

lemma leaves_bindR:
  assumes "leaves m P" and "\<And>x s. P s \<Longrightarrow> leaves (f x s) P"
  shows "leaves (bindR m f) P"
  using leaves_bind [OF assms(1), of P f] assms(2) by blast

lemma leaves_liftR [leaves]: "P s \<Longrightarrow> leaves (liftR r s) P"
  by (simp add: liftR_def leaves_Some)

lemma leaves_bind_option: "(\<And>x. m = Some x \<Longrightarrow> leaves (f x) P) \<Longrightarrow> leaves (Option.bind m f) P"
  by (cases m) (simp_all add: leaves_def)

lemma table_ok_fields [simp]:
  "table_ok n (self\<lparr>fp_events := es\<rparr>) = table_ok n self"
  "table_ok n (self\<lparr>fp_entries := xs\<rparr>) = table_ok n self"
  "table_ok n (self\<lparr>fp_pendingEntries := ps\<rparr>) = table_ok n self"
  "table_ok n (self\<lparr>fp_outstandingInterestName := name\<rparr>) = table_ok n self"
  "table_ok n (mark_removed i self) = table_ok n self"
  "table_ok n (store_pending t name fullName lifetime self) = table_ok n self"
  "table_ok n (deletePendingInterests name self) = table_ok n self"
  "table_ok n (delayedRemovePendingEntry name i self) = table_ok n self"
  by (simp_all add: table_ok_def mark_removed_def store_pending_def deletePendingInterests_def delayedRemovePendingEntry_def Let_def
      split: option.split)

lemma table_ok_hash_to_name: "table_ok n (snd (hash_to_name h self)) = table_ok n self"
  by (simp add: hash_to_name_def table_ok_def split: option.split)

lemma leaves_sendSyncInterest: "table_ok n self \<Longrightarrow> leaves (sendSyncInterest env self) (table_ok n)"
  unfolding sendSyncInterest_def Let_def by (rule leaves_bindR, erule leaves_liftR, rule leaves_Some, simp)

lemma leaves_publish_segments: "table_ok n self \<Longrightarrow> leaves (publish_segments env name dataName content self) (table_ok n)"
  unfolding publish_segments_def Let_def by (rule leaves_Some, simp)

lemma leaves_sendSyncData: "table_ok n self \<Longrightarrow> leaves (sendSyncData env name content self) (table_ok n)"
  unfolding sendSyncData_def Let_def
  by (rule leaves_bindR, erule leaves_liftR, rule leaves_bindR, erule leaves_liftR, rule leaves_if,
      rule leaves_bindR, rule leaves_publish_segments, simp, erule leaves_sendSyncInterest, erule leaves_publish_segments)

lemma leaves_collect_names:
  assumes "\<And>name s. table_ok n s \<Longrightarrow> leaves (canAdd name s) (table_ok n)"
  shows "table_ok n self \<Longrightarrow> leaves (collect_names canAdd hashes state self) (table_ok n)"
proof (induction hashes arbitrary: state self)
  case (Cons h hashes)
  obtain name s where s: "hash_to_name h self = (name, s)" by force
  have ok: "table_ok n s" using Cons.prems table_ok_hash_to_name [of n h self] s by simp
  show ?case
    unfolding collect_names.simps s Let_def prod.case
    by (intro leaves_if leaves_bindR assms Cons.IH ok)
qed (simp add: leaves_Some)

lemma leaves_satisfy_loop: "table_ok n self \<Longrightarrow> leaves (satisfy_loop env kept rest self) (table_ok n)"
proof (induction rest arbitrary: kept self)
  case (Cons e rest)
  obtain name i where e: "e = (name, i)" by force
  have all: "table_ok n s \<Longrightarrow> leaves (allow_all m s) (table_ok n)" for m and s :: "'a full_psync_scheme"
    by (simp add: allow_all_def leaves_Some)
  show ?case
    unfolding e satisfy_loop.simps
  proof (rule leaves_bindR, rule leaves_liftR, rule Cons.prems, rule leaves_bind_option, clarify, rule leaves_if)
    fix difference listed positive negative and s :: "'a full_psync_scheme"
    assume s: "table_ok n s"
    show "leaves (satisfy_loop env kept rest (mark_removed i s\<lparr>fp_pendingEntries := kept @ rest\<rparr>)) (table_ok n)"
      by (rule Cons.IH) (simp add: s)
    show "leaves (bindR (collect_names allow_all (sorted_list_of_set positive) PSyncState_new s) (\<lambda>state self.
        if length (pst_content state) > 0
        then bindR (liftR (PSyncState_wireEncode state) self) (\<lambda>content self.
             bindR (sendSyncData env name content self) (\<lambda>_ self.
               satisfy_loop env kept rest ((mark_removed i self)\<lparr>fp_pendingEntries := kept @ rest\<rparr>)))
        else satisfy_loop env (kept @ [(name, i)]) rest self)) (table_ok n)"
      by (intro leaves_bindR leaves_if leaves_liftR leaves_sendSyncData leaves_collect_names all s Cons.IH) simp_all
  qed
qed (simp add: leaves_Some)

text \<open>
  Callbacks of the application are accepted when they keep the table, and when the one that is asked about a received name does not
  publish that name itself.  Those of \<^verbatim>\<open>FullPSync2017WithUsers\<close> are accepted.
\<close>

definition psync_callbacks_ok :: "nat \<Rightarrow> 'a full_psync_scheme psync_env \<Rightarrow> bool" where
  "psync_callbacks_ok n env \<longleftrightarrow>
     (\<forall>f name negative s. pv_canAddToSyncData env = Some f \<longrightarrow> table_ok n s \<longrightarrow> leaves (f name negative s) (table_ok n)) \<and>
     (\<forall>f name s. pv_canAddReceivedName env = Some f \<longrightarrow> table_ok n s \<and> small_name name \<and> nm_find name (ps_nameToHash s) = None \<longrightarrow>
        leaves (f name s) (\<lambda>s. table_ok n s \<and> nm_find name (ps_nameToHash s) = None)) \<and>
     (\<forall>names s. table_ok n s \<longrightarrow> table_ok n (pv_onNamesUpdate env names s))"

lemma leaves_add_received:
  assumes canAdd: "\<And>name s. table_ok n s \<Longrightarrow> small_name name \<Longrightarrow> nm_find name (ps_nameToHash s) = None \<Longrightarrow>
      leaves (canAdd name s) (\<lambda>s. table_ok n s \<and> nm_find name (ps_nameToHash s) = None)"
  shows "table_ok n self \<Longrightarrow> \<forall>m \<in> set content. small_name m \<Longrightarrow> leaves (add_received canAdd content names self) (table_ok n)"
proof (induction content arbitrary: names self)
  case (Cons name content)
  show ?case
    unfolding add_received.simps
  proof (rule leaves_if)
    assume new: "nm_find name (ps_nameToHash self) = None"
    show "leaves (bindR (canAdd name self) (\<lambda>add self.
        if add then Option.bind (insertIntoIblt name self) (add_received canAdd content (names @ [name]))
        else add_received canAdd content names self)) (table_ok n)"
      using Cons.prems(2)
      by (intro leaves_bind [OF canAdd [OF Cons.prems(1) _ new]] leaves_if leaves_bind_option Cons.IH)
        (auto intro: table_ok_insert)
  qed (use Cons in simp)
qed (simp add: leaves_Some)

lemma leaves_onSyncInterest:
  assumes "psync_callbacks_ok n env" and "table_ok n self"
  shows "leaves (onSyncInterest env prefixName name lifetime self) (table_ok n)"
proof -
  have add: "leaves ((case pv_canAddToSyncData env of None \<Rightarrow> allow_all | Some f \<Rightarrow> (\<lambda>n. f n negative)) m s) (table_ok n)"
    if "table_ok n s" for m negative s
    using assms(1) that by (auto simp: psync_callbacks_ok_def allow_all_def leaves_Some split: option.split)
  have reply: "leaves (reply_to_table env interestName name lifetime t s) (table_ok n)" if "table_ok n s" for interestName t s
    unfolding reply_to_table_def Let_def
    by (rule leaves_bindR, rule leaves_liftR, rule that, rule leaves_bind_option, clarify, rule leaves_if, rule leaves_if,
        rule leaves_bindR, erule leaves_liftR, erule leaves_publish_segments, erule leaves_Some,
        rule leaves_bindR, erule leaves_collect_names [OF add, rotated], assumption, rule leaves_if,
        rule leaves_bindR, erule leaves_liftR, erule leaves_sendSyncData, rule leaves_Some, simp)
  show ?thesis
    unfolding onSyncInterest_def using assms(2) reply
    by (auto simp: leaves_Some liftR_def bindR_def split: option.split sum.split)
qed

text \<open>A decoded name has at most 100 components.\<close>

lemma lite_components_length: "lite_components input cs = Some comps \<Longrightarrow> length comps = length cs"
  by (induction input cs arbitrary: comps rule: lite_components.induct) (auto split: option.splits)

lemma decode_psync_names_small:
  assumes "decode_psync_names content input off = Some (r, content')" and "\<forall>m \<in> set content. small_name m"
  shows "\<forall>m \<in> set content'. small_name m"
proof -
  have max: "length cs \<le> 100" if "ndn_decodeTlvName 100 input off = Some (Inr ((cs, b, e), off'))" for input off cs b e off'
    using that by (auto simp: ndn_decodeTlvName_def bindD_ok retD_def dest: decode_components_max)
  have "(\<forall>m \<in> set content. small_name m) \<longrightarrow> (\<forall>m \<in> set (snd y). small_name m)"
    if "decode_psync_names content input off = Some y" for content input off y
  proof (rule decode_psync_names.raw_induct [where P = "\<lambda>content _ _ y. (\<forall>m \<in> set content. small_name m) \<longrightarrow>
      (\<forall>m \<in> set (snd y). small_name m)", OF _ that])
    fix f content input off y
    assume IH: "\<And>content input off y. f content input off = Some y \<Longrightarrow>
        (\<forall>m \<in> set content. small_name m) \<longrightarrow> (\<forall>m \<in> set (snd y). small_name m)"
      and step: "(if off < of_nat (length input)
        then Option.bind (ndn_decodeTlvName 100 input off) (\<lambda>r.
             case r of
               Inl e \<Rightarrow> Some (Inl (RuntimeError (ndn_getErrorString e)), content)
             | Inr ((cs, _), off) \<Rightarrow>
                 Option.bind (lite_components input cs) (\<lambda>comps.
                   f (content @ [Name_set_lite \<lparr>cn_components = comps, cn_maxComponents = 100\<rparr> (Name_of [])]) input off))
        else Some (Inr off, content)) = Some y"
    have "small_name (Name_set_lite \<lparr>cn_components = comps, cn_maxComponents = 100\<rparr> (Name_of []))"
      if "lite_components input cs = Some comps" "length cs \<le> 100" for cs comps
      using lite_components_length [OF that(1)] that(2)
      by (simp add: small_name_def Name_size_def Name_set_lite_def n_components_fold_append Name_clear_def)
    note new = this
    show "(\<forall>m \<in> set content. small_name m) \<longrightarrow> (\<forall>m \<in> set (snd y). small_name m)"
    proof (cases "\<exists>cs b e off' comps. off < of_nat (length input) \<and>
        ndn_decodeTlvName 100 input off = Some (Inr ((cs, b, e), off')) \<and> lite_components input cs = Some comps")
      case True
      then obtain cs b e off' comps where d: "off < of_nat (length input)"
        "ndn_decodeTlvName 100 input off = Some (Inr ((cs, b, e), off'))" "lite_components input cs = Some comps" by blast
      with step have "f (content @ [Name_set_lite \<lparr>cn_components = comps, cn_maxComponents = 100\<rparr> (Name_of [])]) input off' = Some y"
        by simp
      from IH [OF this] new [OF d(3) max [OF d(2)]] show ?thesis by simp
    next
      case False
      with step have "snd y = content"
        by (auto split: if_splits Option.bind_splits sum.splits)
      then show ?thesis by simp
    qed
  qed
  with assms show ?thesis by fastforce
qed

lemma PSyncState_wireDecode_small:
  assumes "PSyncState_wireDecode input self = Some (r, state)"
  shows "\<forall>m \<in> set (pst_content state). small_name m"
proof -
  have "leaves (PSyncState_wireDecode input self) (\<lambda>s. \<forall>m \<in> set (pst_content s). small_name m)"
    unfolding PSyncState_wireDecode_def
    by (rule leaves_bindR, rule leaves_call_decoder, simp add: PSyncState_clear_def, clarify, rule leaves_bindR,
        rule leaves_map, simp add: leaves_def, blast dest: decode_psync_names_small, rule leaves_bindR, erule leaves_call_decoder,
        erule leaves_Some)
  then show ?thesis using assms by (rule leavesD)
qed

lemma leaves_onSyncData:
  assumes "psync_callbacks_ok n env" and "table_ok n self"
  shows "leaves (onSyncData env encodedContent interestName self) (table_ok n)"
proof -
  have add: "leaves ((case pv_canAddReceivedName env of None \<Rightarrow> allow_all | Some f \<Rightarrow> f) m s)
      (\<lambda>s. table_ok n s \<and> nm_find m (ps_nameToHash s) = None)" if "table_ok n s" "small_name m" "nm_find m (ps_nameToHash s) = None" for m s
    using assms(1) that by (auto simp: psync_callbacks_ok_def allow_all_def leaves_Some split: option.split)
  have upd: "table_ok n (pv_onNamesUpdate env names s)" if "table_ok n s" for names s
    using assms(1) that by (simp add: psync_callbacks_ok_def)
  show ?thesis
    unfolding onSyncData_def Let_def
    by (rule leaves_bind_option, clarify, rule leaves_bindR, rule leaves_liftR, simp add: assms(2), rule leaves_bindR,
        erule leaves_add_received [OF add, rotated 3], erule PSyncState_wireDecode_small, assumption, assumption, assumption,
        rule leaves_if, rule leaves_sendSyncInterest, erule upd, erule leaves_Some)
qed

section \<open>The callbacks of the users\<close>

lemma table_ok_prefixes [simp]: "table_ok n (self\<lparr>us_prefixes := prefixes\<rparr>) = table_ok n self"
  by (simp add: table_ok_def)

lemma leaves_users_removeNumbered:
  assumes "table_ok n self"
  shows "leaves (users_removeNumbered prefix sequenceNo self) (\<lambda>s. table_ok n s \<and> set (ps_nameToHash s) \<subseteq> set (ps_nameToHash self))"
proof -
  have "set (ps_nameToHash s) \<subseteq> set (ps_nameToHash self)" if "removeFromIblt name self = Some s" for name s
    using that set_nm_erase [of name "ps_nameToHash self"]
    by (auto simp: removeFromIblt_def Let_def split: option.splits)
  with assms show ?thesis
    by (auto simp: users_removeNumbered_def bindR_def liftR_def leaves_def FullPSync2017_removeName_def split: sum.splits
        intro: table_ok_remove)
qed

lemma nm_find_subset:
  assumes "nm_ok m'" and "set m' \<subseteq> set m" and "nm_ok m" and "small_name k" and "nm_find k m = None"
  shows "nm_find k m' = None"
proof (rule ccontr)
  assume "nm_find k m' \<noteq> None"
  then obtain v where "nm_find k m' = Some v" by blast
  with assms(2) have "nm_find k m = Some v"
    unfolding nm_find_iff [OF assms(1,4)] nm_find_iff [OF assms(3,4)] by blast
  with assms(5) show False by simp
qed

lemma leaves_users_canAddReceivedName:
  assumes ok: "table_ok n self" and new: "small_name name" "nm_find name (ps_nameToHash self) = None"
  shows "leaves (users_canAddReceivedName name self) (\<lambda>s. table_ok n s \<and> nm_find name (ps_nameToHash s) = None)"
proof -
  have "leaves (users_removeNumbered prefix sequenceNo s) (\<lambda>s. table_ok n s \<and> nm_find name (ps_nameToHash s) = None)"
    if "table_ok n s" "nm_find name (ps_nameToHash s) = None" for prefix sequenceNo s
    by (rule leaves_mono [OF leaves_users_removeNumbered [OF that(1)]])
      (use that new(1) nm_find_subset in \<open>auto simp: table_ok_def\<close>)
  with ok new show ?thesis
    unfolding users_canAddReceivedName_def Let_def
    by (intro leaves_bindR leaves_liftR) (auto split: option.split intro!: leaves_if leaves_Some leaves_bindR)
qed

lemma users_callbacks_ok:
  assumes "\<And>updates s. table_ok n s \<Longrightarrow> table_ok n (onUpdate updates s)"
  shows "psync_callbacks_ok n (users_env onUpdate env)"
proof -
  have "leaves (users_isNotFutureHash name negative s) (table_ok n)" if "table_ok n s" for name negative s
    using that unfolding users_isNotFutureHash_def Let_def
    by (auto split: prod.split intro!: leaves_bindR leaves_liftR leaves_Some)
  moreover have "table_ok n (users_onNamesUpdate onUpdate names s)" if "table_ok n s" for names s
    using that assms by (auto simp: users_onNamesUpdate_def Let_def split: prod.split option.split)
  ultimately show ?thesis
    using leaves_users_canAddReceivedName by (auto simp: psync_callbacks_ok_def users_env_def)
qed

lemma leaves_FullPSync2017_publishName:
  assumes "table_ok n self" and "small_name name"
  shows "leaves (FullPSync2017_publishName env name self) (table_ok n)"
  unfolding FullPSync2017_publishName_def satisfyPendingInterests_def
  using assms by (intro leaves_if leaves_Some leaves_bind_option leaves_satisfy_loop) (auto intro: table_ok_insert)

section \<open>The table never differs from the published names\<close>

text \<open>
  The operations and the delayed calls of a participant, in any order and each with its own environment, and whatever else changes the
  part of the state that is not the producer base's.
\<close>

inductive psync_reachable :: "'a full_psync_scheme psync_env set \<Rightarrow> 'a full_psync_scheme \<Rightarrow> 'a full_psync_scheme \<Rightarrow> bool" for E s0 where
  start: "psync_reachable E s0 s0"
| initialized: "env \<in> E \<Longrightarrow> FullPSync2017_initialize env s = Some (r, s') \<Longrightarrow> psync_reachable E s0 s \<Longrightarrow> psync_reachable E s0 s'"
| renewed: "env \<in> E \<Longrightarrow> sendSyncInterest env s = Some (r, s') \<Longrightarrow> psync_reachable E s0 s \<Longrightarrow> psync_reachable E s0 s'"
| published: "env \<in> E \<Longrightarrow> small_name name \<Longrightarrow> FullPSync2017_publishName env name s = Some (r, s') \<Longrightarrow>
    psync_reachable E s0 s \<Longrightarrow> psync_reachable E s0 s'"
| removed: "FullPSync2017_removeName name s = Some s' \<Longrightarrow> psync_reachable E s0 s \<Longrightarrow> psync_reachable E s0 s'"
| asked: "env \<in> E \<Longrightarrow> onSyncInterest env prefixName name lifetime s = Some (r, s') \<Longrightarrow>
    psync_reachable E s0 s \<Longrightarrow> psync_reachable E s0 s'"
| answered: "env \<in> E \<Longrightarrow> onSyncData env content name s = Some (r, s') \<Longrightarrow> psync_reachable E s0 s \<Longrightarrow> psync_reachable E s0 s'"
| expired: "psync_reachable E s0 s \<Longrightarrow> psync_reachable E s0 (delayedRemovePendingEntry name i s)"
| extended: "psync.truncate s' = psync.truncate s \<Longrightarrow> psync_reachable E s0 s \<Longrightarrow> psync_reachable E s0 s'"

lemma psync_reachable_ok:
  assumes "psync_reachable E s0 s" and "table_ok n s0" and "\<forall>env \<in> E. psync_callbacks_ok n env"
  shows "table_ok n s"
  using assms
proof (induction rule: psync_reachable.induct)
  case (initialized env s r s')
  have "leaves (FullPSync2017_initialize env s) (table_ok n)"
    unfolding FullPSync2017_initialize_def by (rule leaves_sendSyncInterest) (use initialized in simp)
  from this initialized.hyps(2) show ?case by (rule leavesD)
next
  case (extended s' s)
  have "ps_iblt s' = ps_iblt s" "ps_nameToHash s' = ps_nameToHash s"
    using arg_cong [OF extended.hyps(1), of ps_iblt] arg_cong [OF extended.hyps(1), of ps_nameToHash]
    by (simp_all add: psync.truncate_def)
  moreover have "table_ok n s" using extended.IH extended.prems by blast
  ultimately show ?case using table_ok_same [of s' s n] by blast
next
  case (renewed env s r s')
  then have "table_ok n s" by simp
  from leaves_sendSyncInterest [OF this] renewed.hyps(2) show ?case by (rule leavesD)
next
  case (published env name s r s')
  then have "table_ok n s" by simp
  from leaves_FullPSync2017_publishName [OF this published.hyps(2)] published.hyps(3) show ?case by (rule leavesD)
next
  case (removed name s s')
  with table_ok_remove [of n s name s'] show ?case by (simp add: FullPSync2017_removeName_def)
next
  case (asked env prefixName name lifetime s r s')
  then have "psync_callbacks_ok n env" "table_ok n s" by simp_all
  from leaves_onSyncInterest [OF this] asked.hyps(2) show ?case by (rule leavesD)
next
  case (answered env content name s r s')
  then have "psync_callbacks_ok n env" "table_ok n s" by simp_all
  from leaves_onSyncData [OF this] answered.hyps(2) show ?case by (rule leavesD)
qed simp_all

text \<open>
  C35. Whatever a participant publishes, removes, receives and is asked, in whatever order, and also when an operation throws, its table
  is the one that the hashes of exactly its present names make, and the names are kept in order.
\<close>

theorem psync_table_matches_names:
  assumes "psync_reachable E s0 s" and "\<forall>env \<in> E. psync_callbacks_ok n env"
    and "length (iblt_new e) = n" and "n div N_HASH \<noteq> 0" and "ps_iblt s0 = iblt_new e" and "ps_nameToHash s0 = []"
  shows "insert_keys (map (\<lambda>(name, _). name_hash name) (ps_nameToHash s)) (iblt_new e) = Some (ps_iblt s) \<and>
    sorted_wrt (\<lambda>x y. name_less (fst x) (fst y)) (ps_nameToHash s)"
proof -
  have new: "iblt_new e = empty_table n" using assms(3) by (auto simp: iblt_new_def Let_def)
  have "table_ok n s0" using assms(4-6) new by (simp add: table_ok_def)
  with assms(1,2) have ok: "table_ok n s" by (metis psync_reachable_ok)
  then have "map snd (ps_nameToHash s) = map (\<lambda>(name, _). name_hash name) (ps_nameToHash s)"
    by (auto simp: table_ok_def)
  with ok assms(4) new show ?thesis by (simp add: insert_keys table_ok_def nm_ok_def)
qed

section \<open>A pending entry that is never removed\<close>

lemma sync_request_name:
  assumes "small_name prefixName" and "small_name name"
  shows "Name_size name = Name_size prefixName + 1 \<Longrightarrow> sync_request_name prefixName name = Some name"
    and "Name_size name = Name_size prefixName + 3 \<Longrightarrow> sync_request_name prefixName name = Some (Name_getPrefix (-2) name)"
proof -
  have "n_components (Name_getSubName_from (int (Name_size prefixName)) name) = drop (Name_size prefixName) (n_components name)"
    using assms Name_getSubName_nonneg [of "int (Name_size prefixName)" "Name_size name" name]
    by (simp add: Name_getSubName_from_def small_name_def Name_size_def)
  then have "Name_size (Name_getSubName_from (int (Name_size prefixName)) name) = Name_size name - Name_size prefixName"
    by (simp add: Name_size_def)
  then show "Name_size name = Name_size prefixName + 1 \<Longrightarrow> sync_request_name prefixName name = Some name"
    "Name_size name = Name_size prefixName + 3 \<Longrightarrow> sync_request_name prefixName name = Some (Name_getPrefix (-2) name)"
    by (simp_all add: sync_request_name_def)
qed

lemma getPrefix_less:
  assumes "small_name name" and "2 \<le> Name_size name"
  shows "small_name (Name_getPrefix (-2) name)" and "name_less (Name_getPrefix (-2) name) name"
proof -
  have p: "n_components (Name_getPrefix (-2) name) = take (Name_size name - 2) (n_components name)"
    using assms by (subst Name_getPrefix_neg) simp_all
  then show small: "small_name (Name_getPrefix (-2) name)" using assms by (simp add: small_name_def Name_size_def)
  have "drop (Name_size name - 2) (n_components name) \<noteq> []" using assms(2) by (simp add: Name_size_def)
  from comps_compare_prefix [OF this, of "take (Name_size name - 2) (n_components name)"]
  show "name_less (Name_getPrefix (-2) name) name"
    unfolding name_less_small [OF small assms(1)] p by simp
qed

text \<open>
  C37. A pending entry for an Interest that asks for a segment, /prefix/IBLT/version/segment, is stored under /prefix/IBLT, but the
  delayed call erases the full name: the entry stays in the map for good, marked as removed, so that nothing removes it later either.
\<close>

theorem psync_segment_entry_not_removed:
  assumes "small_name prefixName" and "small_name name" and "Name_size name = Name_size prefixName + 3"
    and "nm_ok (fp_pendingEntries self)" and "nm_find name (fp_pendingEntries self) = None"
  shows "\<exists>interestName. sync_request_name prefixName name = Some interestName \<and>
    (let i = length (fp_entries self); s = store_pending t interestName name lifetime self; s' = delayedRemovePendingEntry name i s in
     fp_events s = fp_events self @ [LaterRemovePendingEntry lifetime name i] \<and>
     nm_find interestName (fp_pendingEntries s') = Some i \<and> pe_isRemoved (fp_entries s' ! i) \<and>
     delayedRemovePendingEntry name i s' = s')"
proof -
  let ?p = "Name_getPrefix (-2) name"
  note p = getPrefix_less [OF assms(2)]
  have size: "2 \<le> Name_size name" using assms(3) by simp
  have set: "nm_ok (nm_set ?p (length (fp_entries self)) (fp_pendingEntries self))"
    using assms(4) p(1) size by (intro nm_ok_set)
  have "nm_erase name (nm_set ?p (length (fp_entries self)) (fp_pendingEntries self)) = nm_set ?p (length (fp_entries self)) (fp_pendingEntries self)"
    using set p size assms(2,4,5) by (intro nm_erase_absent nm_find_set_other)
  then show ?thesis
    using sync_request_name(2) [OF assms(1-3)] nm_find_set [OF assms(4) p(1) [OF size]]
    by (simp add: Let_def store_pending_def delayedRemovePendingEntry_def mark_removed_def nth_append)
qed

section \<open>What a reply sends\<close>

lemma appendNumber_generic:
  "Name_appendNumber v ndn_NameComponentType_GENERIC (-1) name = Inr (Name_append (Component_generic (Some (nonneg_integer v))) name)"
  using run_encoder [OF emits_writeNonNegativeInteger, of 8 v]
  by (simp add: Name_appendNumber_def Component_fromNumber_def Component_new_def Component_setType_def Component_generic_def Let_def)

lemma sendSyncData_publishes:
  assumes "\<And>bs. \<exists>w. pv_zlibCompress env bs = Inr w"
  shows "\<exists>r s' dataName. sendSyncData env name content s = Some (r, s') \<and>
    PublishSegments name dataName content (ps_syncReplyFreshnessPeriod s) \<in> set (fp_events s')"
proof -
  have enc: "\<exists>w. iblt_encode (pv_zlibCompress env) t = Inr w" for t using assms by (simp add: iblt_encode_def)
  then obtain w where w: "iblt_encode (pv_zlibCompress env) (ps_iblt s) = Inr w" by blast
  show ?thesis
    using w
    by (cases "pv_publish env name (Name_append (Component_generic (Some (nonneg_integer
          (fst (Name_hash (Name_append_generic w (Name_of []))))))) name) content (ps_syncReplyFreshnessPeriod s)")
      (auto simp: sendSyncData_def bindR_def liftR_def appendNumber_generic publish_segments_def Let_def sendSyncInterest_def
        sync_interest_name_def)
qed

lemma collect_names_all:
  assumes "\<forall>h \<in> set hs. \<exists>m. ps_hashToName self h = Some m \<and> nm_find m (ps_nameToHash self) \<noteq> None"
  shows "collect_names allow_all hs state self =
    Some (Inr (state\<lparr>pst_content := pst_content state @ map (\<lambda>h. the (ps_hashToName self h)) hs\<rparr>), self)"
  using assms
proof (induction hs arbitrary: state)
  case (Cons h hs)
  then show ?case by (auto simp: hash_to_name_def allow_all_def bindR_def addContent_def)
qed simp

text \<open>The table in the name of a sync Interest is the one of the participant that sent it.\<close>

lemma sync_interest_decoded:
  assumes "table_ok n b" and "length (ps_nameToHash b) < 2 ^ 32"
    and zlib: "\<And>bs. \<exists>w. zlibCompress bs = Inr w \<and> zlibDecompress w = Inr bs"
    and "sync_interest_name zlibCompress b = Inr name" and "Name_size (ps_syncPrefix b) + 1 < 2 ^ 31"
  shows "\<exists>w. sync_request_name (ps_syncPrefix b) name = Some name \<and> Name_get (-1) name = Inr (Component_generic (Some w)) \<and>
    iblt_initialize zlibDecompress w (empty_table n) = Inr (ps_iblt b)"
proof -
  let ?ys = "map snd (ps_nameToHash b)"
  let ?bytes = "concat (map (\<lambda>e. u32_bytes (he_count e) @ u32_bytes (he_keySum e) @ u32_bytes (he_keyCheck e)) (ps_iblt b))"
  have n: "usable n" and tb: "ps_iblt b = apply_keys (map (Pair 1) ?ys) (empty_table n)" using assms(1) by (simp_all add: table_ok_def)
  obtain w where w: "iblt_encode zlibCompress (ps_iblt b) = Inr w" "name = Name_append_generic w (ps_syncPrefix b)"
    using assms(4) by (cases "iblt_encode zlibCompress (ps_iblt b)") (auto simp: sync_interest_name_def)
  obtain w' where w': "zlibCompress ?bytes = Inr w'" "zlibDecompress w' = Inr ?bytes" using zlib by blast
  from w(1) w'(1) have "w' = w" by (simp add: iblt_encode_def)
  with w'(2) have dec: "zlibDecompress w = Inr ?bytes" by simp
  from assms(2) have "length ?ys < 2 ^ 32" by simp
  from iblt_initialize_encoded [where zlibDecompress = zlibDecompress and w = w, OF n this tb dec]
  have init: "iblt_initialize zlibDecompress w (empty_table n) = Inr (ps_iblt b)" .
  have "Name_size name = Name_size (ps_syncPrefix b) + 1" "n_components name = n_components (ps_syncPrefix b) @ [Component_generic (Some w)]"
    by (simp_all add: w(2) Name_append_generic_def Name_append_def Name_size_def)
  with assms(5) init show ?thesis by (intro exI [of _ w]) (simp add: sync_request_name(1) small_name_def Name_get_last)
qed

text \<open>What is listed is what the one has and the other lacks.\<close>

lemma listed_positive:
  assumes "table_ok n a" and "table_ok n b"
    and "distinct (map snd (ps_nameToHash a))" and "distinct (map snd (ps_nameToHash b))"
    and nc: "no_collision n (signed_difference (snd ` set (ps_nameToHash a)) (snd ` set (ps_nameToHash b)))"
    and "iblt_difference (ps_iblt a) (ps_iblt b) = Inr difference" and "iblt_listEntries difference = Some (True, positive, negative)"
  shows "positive = snd ` set (ps_nameToHash a) - snd ` set (ps_nameToHash b)"
proof -
  let ?xs = "map snd (ps_nameToHash a)" and ?ys = "map snd (ps_nameToHash b)"
  have n: "usable n" and ta: "ps_iblt a = apply_keys (map (Pair 1) ?xs) (empty_table n)"
    and tb: "ps_iblt b = apply_keys (map (Pair 1) ?ys) (empty_table n)" using assms(1,2) by (simp_all add: table_ok_def)
  from nc have "no_collision n (signed_difference (set ?xs) (set ?ys))" by simp
  from list_difference [OF n assms(3,4) this] obtain listed p q where
    l: "iblt_listEntries (map2 he_difference (apply_keys (map (Pair 1) ?xs) (empty_table n))
        (apply_keys (map (Pair 1) ?ys) (empty_table n))) = Some (listed, p, q)" "listed \<longleftrightarrow> p = set ?xs - set ?ys \<and> q = set ?ys - set ?xs"
    by blast
  have "difference = map2 he_difference (ps_iblt a) (ps_iblt b)" using assms(6) by (simp add: iblt_difference_def split: if_splits)
  with l(1) assms(7) ta tb have "listed" "p = positive" by simp_all
  with l(2) show ?thesis by simp
qed

lemma image_listed:
  assumes "\<And>m h. (m, h) \<in> set xs \<Longrightarrow> f h = m"
  shows "f ` (snd ` set xs - H) = {m. \<exists>h. (m, h) \<in> set xs \<and> h \<notin> H}"
proof (intro equalityI subsetI)
  fix m assume "m \<in> {m. \<exists>h. (m, h) \<in> set xs \<and> h \<notin> H}"
  then obtain h where "(m, h) \<in> set xs" "h \<notin> H" by blast
  moreover from assms [OF this(1)] have "m = f h" by simp
  ultimately show "m \<in> f ` (snd ` set xs - H)" by (metis DiffI image_eqI snd_conv)
qed (use assms in auto)


text \<open>A participant with one name, and one with none.\<close>

definition demo_psync_env :: "'s psync_env" where
  "demo_psync_env =
     \<lparr>pv_zlibCompress = Inr, pv_zlibDecompress = Inr, pv_random1 = 0, pv_replyFromStore = (\<lambda>_. False), pv_publish = (\<lambda>_ _ _ _. Inr ()),
      pv_canAddToSyncData = None, pv_canAddReceivedName = None, pv_onNamesUpdate = (\<lambda>_ s. s)\<rparr>"

definition demo_psync_name :: name where
  "demo_psync_name = Name_of [Component_generic (Some [65])]"

lemma demo_psync_published:
  "\<exists>s h. FullPSync2017_publishName demo_psync_env demo_psync_name (FullPSync2017_new 4 (Name_of []) 4000 1000) = Some (Inr (), s) \<and>
    table_ok 6 s \<and> ps_nameToHash s = [(demo_psync_name, h)] \<and> ps_hashToName s h = Some demo_psync_name \<and>
    ps_expectedNEntries s = 4 \<and> ps_iblt s = apply_keys [(1, h)] (empty_table 6)"
proof -
  let ?s = "FullPSync2017_new 4 (Name_of []) 4000 1000"
  have len: "length (iblt_new 4) = 6" by code_simp
  then have new: "iblt_new 4 = empty_table 6" by (auto simp: iblt_new_def Let_def)
  have u: "usable (6 :: nat)" by (simp add: N_HASH_def)
  have iblt: "iblt_insert h (iblt_new 4) = Some (apply_keys [(1, h)] (empty_table 6))" for h
    using u by (simp add: iblt_insert_def new iblt_update)
  show ?thesis
    using u
    by (simp add: FullPSync2017_publishName_def insertIntoIblt_def iblt FullPSync2017_new_def PSyncProducerBase_new_def psync.defs Let_def
        satisfyPendingInterests_def nm_find_def nm_set_def nm_from_def nm_before_def table_ok_def nm_ok_def small_name_def
        Name_size_def demo_psync_name_def Name_of_def)
qed

theorem psync_table_matches_names_witness:
  "\<exists>s. psync_reachable {demo_psync_env} (FullPSync2017_new 4 (Name_of []) 4000 1000) s \<and> map fst (ps_nameToHash s) = [demo_psync_name] \<and>
    insert_keys [name_hash demo_psync_name] (iblt_new 4) = Some (ps_iblt s)"
proof -
  let ?s0 = "FullPSync2017_new 4 (Name_of []) 4000 1000"
  obtain s h where s: "FullPSync2017_publishName demo_psync_env demo_psync_name ?s0 = Some (Inr (), s)" "ps_nameToHash s = [(demo_psync_name, h)]"
    using demo_psync_published by blast
  have "small_name demo_psync_name" by (simp add: small_name_def Name_size_def demo_psync_name_def Name_of_def)
  then have reach: "psync_reachable {demo_psync_env} ?s0 s" using s(1) by (auto intro: psync_reachable.intros)
  have len: "length (iblt_new 4) = 6" by code_simp
  have "\<forall>env \<in> {demo_psync_env}. psync_callbacks_ok 6 env" by (simp add: psync_callbacks_ok_def demo_psync_env_def)
  from psync_table_matches_names [OF reach this len] s(2) reach show ?thesis
    by (auto simp: N_HASH_def FullPSync2017_new_def PSyncProducerBase_new_def psync.defs)
qed

theorem psync_segment_entry_not_removed_witness:
  "\<exists>interestName. sync_request_name (Name_of []) (Name_of (replicate 3 (Component_generic (Some [65])))) = Some interestName \<and>
    (let self = FullPSync2017_new 4 (Name_of []) 4000 1000; name = Name_of (replicate 3 (Component_generic (Some [65])));
         s = store_pending (iblt_new 4) interestName name 4000 self; s' = delayedRemovePendingEntry name 0 s
     in nm_find interestName (fp_pendingEntries s') = Some 0 \<and> pe_isRemoved (fp_entries s' ! 0) \<and>
        delayedRemovePendingEntry name 0 s' = s')"
  using psync_segment_entry_not_removed [of "Name_of []" "Name_of (replicate 3 (Component_generic (Some [65])))"
      "FullPSync2017_new 4 (Name_of []) 4000 1000" "iblt_new 4" 4000]
  by (simp add: small_name_def Name_size_def Name_of_def FullPSync2017_new_def PSyncProducerBase_new_def psync.defs nm_ok_def nm_find_def
      nm_from_def Let_def) blast


end
