(* ===== verification/Spec2Isabelle.thy ===== *)
theory Spec2Isabelle
  imports NodeProperties ScheduleWire DigestTreeModel ContentCache SegmentModel PSyncModel
begin

text \<open>
  A verification library for NDN-CPP, the C++ client library of Named Data Networking.

  \<^bold>\<open>The program.\<close>  An application names Data packets, asks for them with Interests and answers the Interests of others, through a
  Face.  A Face owns a Node, which keeps the tables of pending Interests, of registered prefixes, of Interest filters and of delayed
  calls, encodes what it sends, and decodes the elements that its transport receives.  The packets are classes with cached encodings
  that change counts invalidate; the encodings are written and read by C functions over byte arrays.  On top of the Face stand a
  content cache, and protocols in which participants agree on a set of names (PSync, ChronoSync); beside it the schedules that say
  when a group member may read data.

  \<^bold>\<open>Theories and sources.\<close>  Paths are below \<^verbatim>\<open>src/\<close> of the repository; a definition has the name of the function it models, with the
  class in front of it where two classes share the name.

  \<^item> Bytes: \<^verbatim>\<open>NdnPrelude\<close> (errors of \<^verbatim>\<open>c/errors.c\<close>, results, exceptions, generic lemmas), \<^verbatim>\<open>NdnBytes\<close> (\<^verbatim>\<open>common.cpp\<close>, hex and
    escapes), \<^verbatim>\<open>TlvEncoder\<close> and \<^verbatim>\<open>TlvDecoder\<close> (\<^verbatim>\<open>c/encoding/tlv/tlv-encoder.[ch]\<close>, \<^verbatim>\<open>tlv-decoder.[ch]\<close>), \<^verbatim>\<open>TlvFields\<close> (round trips of
    single elements).
  \<^item> Names: \<^verbatim>\<open>NameComponent\<close>, \<^verbatim>\<open>NameUri\<close>, \<^verbatim>\<open>NameOps\<close> (\<^verbatim>\<open>name.[ch]pp\<close>, \<^verbatim>\<open>c/name_c.c\<close>), \<^verbatim>\<open>NameMaps\<close> (\<^verbatim>\<open>std::map\<close> with names as keys),
    \<^verbatim>\<open>TlvName\<close> (\<^verbatim>\<open>tlv-name.c\<close>), \<^verbatim>\<open>ExcludeFilter\<close> (\<^verbatim>\<open>exclude.[ch]pp\<close>).
  \<^item> Packets: \<^verbatim>\<open>ChangeCounter\<close> (\<^verbatim>\<open>util/change-counter.hpp\<close> and the contract of cached encodings), \<^verbatim>\<open>KeyLocator\<close>, \<^verbatim>\<open>TlvSignatureInfo\<close>,
    \<^verbatim>\<open>SignatureModel\<close> (the signature classes, \<^verbatim>\<open>MetaInfo\<close>, \<^verbatim>\<open>ValidityPeriod\<close>), \<^verbatim>\<open>IsoTime\<close> (\<^verbatim>\<open>c/util/time.c\<close>), \<^verbatim>\<open>DelegationSet\<close>,
    \<^verbatim>\<open>TlvPacket\<close>, \<^verbatim>\<open>TlvInterest\<close> and \<^verbatim>\<open>InterestModel\<close> (\<^verbatim>\<open>tlv-interest.c\<close>, \<^verbatim>\<open>interest.[ch]pp\<close>, \<^verbatim>\<open>link.cpp\<close>), \<^verbatim>\<open>TlvData\<close> and
    \<^verbatim>\<open>DataModel\<close> (\<^verbatim>\<open>tlv-data.c\<close>, \<^verbatim>\<open>data.[ch]pp\<close>), \<^verbatim>\<open>TlvControl\<close> (control parameters and responses), \<^verbatim>\<open>TlvLpPacket\<close> (NDNLPv2).
  \<^item> The node: \<^verbatim>\<open>DelayedCalls\<close>, \<^verbatim>\<open>PendingInterests\<close>, \<^verbatim>\<open>PrefixTables\<close> (\<^verbatim>\<open>impl/\<close>), \<^verbatim>\<open>TableContracts\<close> (the contract of the tables that allow
    cancelling what has not arrived yet), \<^verbatim>\<open>CommandInterests\<close>, \<^verbatim>\<open>NodeModel\<close> (\<^verbatim>\<open>node.cpp\<close>), \<^verbatim>\<open>NodeInvariants\<close>, \<^verbatim>\<open>FaceModel\<close>
    (\<^verbatim>\<open>face.cpp\<close>, as the steps of a state machine) and \<^verbatim>\<open>NodeProperties\<close>.
  \<^item> Above the node: \<^verbatim>\<open>ContentCache\<close> (\<^verbatim>\<open>util/memory-content-cache.cpp\<close>), \<^verbatim>\<open>SegmentModel\<close> (\<^verbatim>\<open>in-memory-storage/\<close>,
    \<^verbatim>\<open>sync/detail/psync-segment-publisher.cpp\<close>, \<^verbatim>\<open>util/segment-fetcher.cpp\<close>), \<^verbatim>\<open>Intervals\<close>, \<^verbatim>\<open>ScheduleModel\<close>, \<^verbatim>\<open>ScheduleWire\<close>
    (\<^verbatim>\<open>encrypt/interval.cpp\<close>, \<^verbatim>\<open>repetitive-interval.cpp\<close>, \<^verbatim>\<open>schedule.cpp\<close>), \<^verbatim>\<open>DigestTreeModel\<close> (\<^verbatim>\<open>sync/digest-tree.cpp\<close>), \<^verbatim>\<open>BloomTable\<close>
    (\<^verbatim>\<open>sync/detail/invertible-bloom-lookup-table.cpp\<close>, MurmurHash3), \<^verbatim>\<open>PSyncStateWire\<close> (\<^verbatim>\<open>sync/detail/psync-state.cpp\<close>) and
    \<^verbatim>\<open>PSyncModel\<close> (\<^verbatim>\<open>sync/psync-producer-base.cpp\<close>, \<^verbatim>\<open>full-psync2017.cpp\<close>, \<^verbatim>\<open>full-psync2017-with-users.cpp\<close>).

  \<^bold>\<open>State.\<close>  A class is a record with its fields; an operation takes the object and returns it changed.  A \<^verbatim>\<open>const\<close> method that
  changes mutable fields (the caches) returns the object too.  Objects that are shared and changed through one reference while another
  one reads them are in a list, and the references are positions in it: the entries of the pending Interest table, which the delayed
  timeouts share, and the pending entries of PSync.  A \<^verbatim>\<open>result\<close> is an exception or a value; \<^verbatim>\<open>ndn_error\<close> is a C error code; None is a
  call that does not return, or undefined behaviour (a null pointer, a slice outside the input, a division by zero).  Machine integers
  are words of their width; where the code converts between \<^verbatim>\<open>int\<close> and \<^verbatim>\<open>size_t\<close> the conversion is written out.  A \<^verbatim>\<open>double\<close> is a real
  number: rounding is not seen, and theorems say when a time is a whole number of milliseconds.

  \<^bold>\<open>What the lemmas show.\<close>
  \<^item> \<^verbatim>\<open>TlvEncoder\<close>: the contract \<^verbatim>\<open>emits\<close> of writers, from which the encoders of all packets are shown to write the specified bytes.
    \<^verbatim>\<open>TlvDecoder\<close> to \<^verbatim>\<open>TlvData\<close>: decoders stay inside their input and arrays for any input, and undo the encoders.
  \<^item> \<^verbatim>\<open>NameOps\<close>: compare is a total order (the locale \<^verbatim>\<open>three_way\<close>), successors delimit prefixes, the cached hash is never stale.
    \<^verbatim>\<open>ExcludeFilter\<close> and \<^verbatim>\<open>DelegationSet\<close>: the loops implement a union of intervals and a map.
  \<^item> \<^verbatim>\<open>ChangeCounter\<close>: locales for objects that count their changes and cache an encoding, interpreted on \<^verbatim>\<open>DelegationSet\<close>,
    \<^verbatim>\<open>InterestModel\<close> and \<^verbatim>\<open>DataModel\<close>, where after any sequence of changes the cached encoding is that of the present fields.
  \<^item> \<^verbatim>\<open>NodeInvariants\<close>, \<^verbatim>\<open>FaceModel\<close>, \<^verbatim>\<open>NodeProperties\<close>: an invariant of every reachable state of a Face, from which follows that an
    Interest is completed at most once and never after it was cancelled, that it times out when nothing answers, and what each kind
    of received packet does.
  \<^item> \<^verbatim>\<open>ContentCache\<close>: which content answers an Interest, what a cleanup removes, and the order of the lists.  \<^verbatim>\<open>ScheduleModel\<close>: the
    interval that covers a time.  \<^verbatim>\<open>SegmentModel\<close>: published content is what a fetcher puts together, except when it fills its segments.  \<^verbatim>\<open>DigestTreeModel\<close>: refinement of a map, and convergence.
  \<^item> \<^verbatim>\<open>BloomTable\<close>: the table of a set of keys does not depend on the order of insertions, differences are those of the sets, and
    peeling lists them.  \<^verbatim>\<open>PSyncModel\<close>: in every state that any calls reach the table is that of the names present, and an answer to a
    sync Interest holds the names that the asker lacks.

  Several theorems state what the code does where this is not what it means to do; their text says so.

  \<^bold>\<open>Bounds.\<close>  No definition has fuel.  Loops over data recurse on the data; a loop that may run forever is a \<^verbatim>\<open>partial_function\<close> into
  option (skipping elements in the decoder, \<^verbatim>\<open>bump_loop\<close>, \<^verbatim>\<open>refresh_loop\<close>, \<^verbatim>\<open>peel_loop\<close>, the loops of the schedule and PSync decoders), and
  theorems show that it returns, or for \<^verbatim>\<open>peel_loop\<close> that it need not.  Names are assumed to have less than \<^verbatim>\<open>2^31\<close> components where an index
  is an \<^verbatim>\<open>int\<close>, and at most 100 where the code has an array of that size.

  \<^bold>\<open>Parameters.\<close>  SHA-256, zlib, random numbers, the clock, the transport, signing, the regular expressions of Interest filters, and
  the callbacks of applications are arguments or fields of environment records.  Callbacks that are told about an event are recorded
  as events; callbacks that can call back into the object are functions on its state.

  \<^bold>\<open>Not modelled.\<close>  Security (key chain, PIB, TPM, certificates, validation policies) is mostly calls of OpenSSL, SQLite and files;
  signing enters as a parameter.  The same holds for the encryption of content and for the databases of group members.  The transports
  and the element reader work on sockets.  ChronoSync's protocol messages are encoded by Google's protocol buffers, so only its digest
  tree is here.  The lite API, the thread-safe face and logging wrap what is modelled.  Vendored code (Boost, OpenSSL, SQLite, gtest),
  examples, tools and tests are left out.
\<close>

end
